(* ===== verification/Agent_Prelude.thy ===== *)
theory Agent_Prelude
  imports
    Complex_Main
    "HOL-Library.AList"
    "HOL-Library.Char_ord"
    "HOL-Library.List_Lexorder"
begin

text \<open>
  The shared vocabulary of the development.

  \<^item> Python values that travel through events and snapshots (\<open>dict[str, Any]\<close>) are values of
    the datatype \<open>json\<close>. A Python \<open>str\<close> is its UTF-8 byte sequence, so equality, emptiness,
    prefixes, the order of keys and \<open>encode("utf-8")\<close> are those of the source; a Python
    \<open>float\<close> is an exact rational, an infinity or NaN (signed zero is not distinguished).
  \<^item> A Python \<open>dict\<close> is an association list in insertion order; \<open>{**d, k: v}\<close> and
    \<open>d[k] = v\<close> are \<open>AList.update\<close>, which keeps the position of an existing key and appends
    a new one, and \<open>d.get(k)\<close> is \<open>map_of\<close>.
  \<^item> A Python exception is the left side of a sum. \<open>Raised f\<close> is an exception class of the
    package (one \<open>f\<close> per raise statement); \<open>Builtin b\<close> is an exception of the
    interpreter that the code does not raise itself.
  \<^item> The functions of the interpreter that are not computed here (SHA-256, \<open>repr\<close> of floats
    and containers, the reading of a decimal fraction as a float) are the fields of a \<open>host\<close>
    record that every definition that needs them takes as an argument; theorems hold for every host.
\<close>

section \<open>Named collections\<close>

named_theorems exc_simps \<open>equations of the exception monad\<close>
named_theorems dict_simps \<open>equations of insertion-ordered dictionaries\<close>

section \<open>Exceptions\<close>

datatype builtin = TypeErr | ValueErr | KeyErr | AttributeErr | IndexErr | OverflowErr | OutsideModel

datatype 'f exc = Raised 'f | Builtin builtin

type_synonym ('f, 'a) result = "'f exc + 'a"

definition bindE :: "'e + 'a \<Rightarrow> ('a \<Rightarrow> 'e + 'b) \<Rightarrow> 'e + 'b" where
  "bindE m f = (case m of Inl e \<Rightarrow> Inl e | Inr x \<Rightarrow> f x)"

definition guardE :: "bool \<Rightarrow> 'e \<Rightarrow> 'e + unit" where
  "guardE c e = (if c then Inr () else Inl e)"

definition catchE :: "('f, 'a) result \<Rightarrow> ('f \<Rightarrow> ('g, 'a) result) \<Rightarrow> ('g, 'a) result" where
  "catchE m h = (case m of Inl (Raised f) \<Rightarrow> h f | Inl (Builtin b) \<Rightarrow> Inl (Builtin b) | Inr x \<Rightarrow> Inr x)"

definition isOk :: "'e + 'a \<Rightarrow> bool" where
  "isOk m = (case m of Inl _ \<Rightarrow> False | Inr _ \<Rightarrow> True)"

lemma bindE_simps [simp]:
  "bindE (Inl e) f = Inl e"
  "bindE (Inr x) f = f x"
  by (simp_all add: bindE_def)

lemma bindE_eq_Inr [exc_simps]: "bindE m f = Inr y \<longleftrightarrow> (\<exists>x. m = Inr x \<and> f x = Inr y)"
  by (cases m) simp_all

lemma bindE_eq_Inl [exc_simps]:
  "bindE m f = Inl e \<longleftrightarrow> m = Inl e \<or> (\<exists>x. m = Inr x \<and> f x = Inl e)"
  by (cases m) auto

lemma guardE_eq_Inr [exc_simps, simp]: "guardE c e = Inr u \<longleftrightarrow> c"
  by (cases u) (simp add: guardE_def)

lemma guardE_simps [simp]: "guardE True e = Inr ()" "guardE False e = Inl e"
  by (simp_all add: guardE_def)

lemma guardE_eq_Inl [exc_simps, simp]: "guardE c e = Inl e' \<longleftrightarrow> \<not> c \<and> e' = e"
  by (auto simp: guardE_def)

lemma if_raise_eq_Inr [exc_simps, simp]:
  "(if c then Inl e else m) = Inr y \<longleftrightarrow> \<not> c \<and> m = Inr y"
  "(if c then m else Inl e) = Inr y \<longleftrightarrow> c \<and> m = Inr y"
  by auto

lemma if_Inr_condE: "(if c then x else y) = Inr z \<Longrightarrow> (c \<Longrightarrow> x = Inr z \<Longrightarrow> P) \<Longrightarrow> (\<not> c \<Longrightarrow> y = Inr z \<Longrightarrow> P) \<Longrightarrow> P"
  by (simp split: if_splits)

lemma case_none_raise_eq_Inr [exc_simps]:
  "(case m of None \<Rightarrow> Inl e | Some x \<Rightarrow> f x) = Inr y \<longleftrightarrow> (\<exists>x. m = Some x \<and> f x = Inr y)"
  by (cases m) simp_all

lemma isOk_simps [simp]: "isOk (Inr x)" "\<not> isOk (Inl e)"
  by (simp_all add: isOk_def)

lemma isOk_iff: "isOk m \<longleftrightarrow> (\<exists>x. m = Inr x)"
  by (cases m) simp_all

lemma catchE_eq_Inr_raise [exc_simps]:
  "catchE m (\<lambda>f. Inl (h f)) = Inr y \<longleftrightarrow> m = Inr y"
  by (auto simp: catchE_def split: sum.splits exc.splits)

lemma catchE_Inr [simp]: "catchE (Inr x) h = Inr x"
  by (simp add: catchE_def)

text \<open>A loop whose body may raise, over the elements of a list.\<close>

fun foldE :: "('a \<Rightarrow> 's \<Rightarrow> 'e + 's) \<Rightarrow> 'a list \<Rightarrow> 's \<Rightarrow> 'e + 's" where
  "foldE f [] s = Inr s"
| "foldE f (x # xs) s = bindE (f x s) (foldE f xs)"

lemma foldE_cong [fundef_cong]:
  assumes "xs = ys" "s = t" "\<And>x s. x \<in> set ys \<Longrightarrow> f x s = g x s"
  shows "foldE f xs s = foldE g ys t"
  using assms(3) unfolding assms(1,2)
  by (induction ys arbitrary: t) (auto simp: bindE_def split: sum.splits)

lemma foldE_append: "foldE f (xs @ ys) s = bindE (foldE f xs s) (foldE f ys)"
  by (induction xs arbitrary: s) (auto simp: bindE_def split: sum.splits)

lemma foldE_invariant:
  assumes "foldE f xs s = Inr t" and "I s"
    and "\<And>x s t. x \<in> set xs \<Longrightarrow> I s \<Longrightarrow> f x s = Inr t \<Longrightarrow> I t"
  shows "I t"
  using assms
proof (induction xs arbitrary: s)
  case Nil
  then show ?case by simp
next
  case (Cons x xs)
  then obtain u where u: "f x s = Inr u" "foldE f xs u = Inr t"
    by (auto simp: exc_simps)
  with Cons.prems have "I u" by auto
  with u(2) show ?case
    by (rule Cons.IH) (use Cons.prems(3) in auto)
qed

fun mapE :: "('a \<Rightarrow> 'e + 'b) \<Rightarrow> 'a list \<Rightarrow> 'e + 'b list" where
  "mapE f [] = Inr []"
| "mapE f (x # xs) = bindE (f x) (\<lambda>y. bindE (mapE f xs) (\<lambda>ys. Inr (y # ys)))"

lemma mapE_cong [fundef_cong]:
  assumes "xs = ys" "\<And>x. x \<in> set ys \<Longrightarrow> f x = g x"
  shows "mapE f xs = mapE g ys"
  using assms(2) unfolding assms(1) by (induction ys) auto

lemma mapE_eq_Inr: "mapE f xs = Inr ys \<longleftrightarrow> list_all2 (\<lambda>x y. f x = Inr y) xs ys"
  by (induction xs arbitrary: ys) (auto simp: exc_simps list_all2_Cons1)

section \<open>Insertion-ordered dictionaries\<close>

type_synonym ('k, 'v) dict = "('k \<times> 'v) list"

abbreviation dset :: "('k, 'v) dict \<Rightarrow> 'k \<Rightarrow> 'v \<Rightarrow> ('k, 'v) dict" where
  "dset d k v \<equiv> AList.update k v d"

abbreviation dkeys :: "('k, 'v) dict \<Rightarrow> 'k list" where
  "dkeys d \<equiv> map fst d"

abbreviation dvalues :: "('k, 'v) dict \<Rightarrow> 'v list" where
  "dvalues d \<equiv> map snd d"

definition dpop :: "('k, 'v) dict \<Rightarrow> 'k \<Rightarrow> ('k, 'v) dict" where
  "dpop d k = filter (\<lambda>p. fst p \<noteq> k) d"

definition wf_dict :: "('k, 'v) dict \<Rightarrow> bool" where
  "wf_dict d \<longleftrightarrow> distinct (dkeys d)"

lemma map_of_dset [simp, dict_simps]: "map_of (dset d k v) = (map_of d)(k \<mapsto> v)"
  by (rule update_conv')

lemma map_of_dpop [simp, dict_simps]: "map_of (dpop d k) k' = (if k' = k then None else map_of d k')"
  by (induction d) (auto simp: dpop_def)

lemma wf_dict_Nil [simp]: "wf_dict []"
  by (simp add: wf_dict_def)

lemma wf_dict_dset [simp]: "wf_dict d \<Longrightarrow> wf_dict (dset d k v)"
  unfolding wf_dict_def by (rule distinct_update)

lemma wf_dict_dpop [simp]: "wf_dict d \<Longrightarrow> wf_dict (dpop d k)"
  unfolding wf_dict_def dpop_def by (induction d) auto

lemma dvalues_iff: "wf_dict d \<Longrightarrow> v \<in> set (dvalues d) \<longleftrightarrow> (\<exists>k. map_of d k = Some v)"
  unfolding wf_dict_def by (force simp: map_of_eq_Some_iff)

lemma ditems_iff: "wf_dict d \<Longrightarrow> (k, v) \<in> set d \<longleftrightarrow> map_of d k = Some v"
  unfolding wf_dict_def by simp

lemma dset_new: "map_of d k = None \<Longrightarrow> dset d k v = d @ [(k, v)]"
  by (induction d) (auto split: if_splits)

lemma dkeys_dset: "dkeys (dset d k v) = (if k \<in> set (dkeys d) then dkeys d else dkeys d @ [k])"
  by (induction d) auto

lemma set_dkeys: "k \<in> set (dkeys d) \<longleftrightarrow> (\<exists>v. map_of d k = Some v)"
  by (induction d) auto

section \<open>Lists\<close>

text \<open>\<open>next((x for x in xs if p(x)), None)\<close> is \<open>find\<close>.\<close>

lemma find_SomeD: "find p xs = Some x \<Longrightarrow> p x \<and> x \<in> set xs"
  by (induction xs) (auto split: if_splits)

lemma find_NoneD: "find p xs = None \<Longrightarrow> x \<in> set xs \<Longrightarrow> \<not> p x"
  by (simp add: find_None_iff)

section \<open>Python values\<close>

datatype pyfloat = FFin rat | FPosInf | FNegInf | FNan

datatype json =
    JNull
  | JBool bool
  | JInt int
  | JFloat pyfloat
  | JStr string
  | JList "json list"
  | JObj "(string \<times> json) list"

type_synonym jdict = "(string, json) dict"

record host =
  sha256_hex :: "string \<Rightarrow> string"
  repr_of :: "json \<Rightarrow> string"
  read_float :: "string \<Rightarrow> pyfloat"

definition isfinite :: "pyfloat \<Rightarrow> bool" where
  "isfinite f = (case f of FFin _ \<Rightarrow> True | _ \<Rightarrow> False)"

text \<open>IEEE equality: NaN differs from itself.\<close>

definition float_eq :: "pyfloat \<Rightarrow> pyfloat \<Rightarrow> bool" where
  "float_eq a b \<longleftrightarrow> a = b \<and> a \<noteq> FNan"

text \<open>\<open>d.get(k)\<close> and \<open>d.get(k, v)\<close>.\<close>

definition jget :: "jdict \<Rightarrow> string \<Rightarrow> json" where
  "jget d k = (case map_of d k of None \<Rightarrow> JNull | Some v \<Rightarrow> v)"

definition jget_or :: "jdict \<Rightarrow> string \<Rightarrow> json \<Rightarrow> json" where
  "jget_or d k v0 = (case map_of d k of None \<Rightarrow> v0 | Some v \<Rightarrow> v)"

definition truthy :: "json \<Rightarrow> bool" where
  "truthy v = (case v of
      JNull \<Rightarrow> False | JBool b \<Rightarrow> b | JInt i \<Rightarrow> i \<noteq> 0 | JFloat f \<Rightarrow> f \<noteq> FFin 0
    | JStr s \<Rightarrow> s \<noteq> [] | JList xs \<Rightarrow> xs \<noteq> [] | JObj d \<Rightarrow> d \<noteq> [])"

fun is_jstr :: "json \<Rightarrow> bool" where
  "is_jstr (JStr _) = True"
| "is_jstr _ = False"

fun is_jobj :: "json \<Rightarrow> bool" where
  "is_jobj (JObj _) = True"
| "is_jobj _ = False"

text \<open>\<open>v in {...}\<close> and dictionary keys need a hashable value.\<close>

fun hashable :: "json \<Rightarrow> bool" where
  "hashable (JList _) = False"
| "hashable (JObj _) = False"
| "hashable _ = True"

text \<open>Decimal digits of an integer, as \<open>str\<close> and \<open>json.dumps\<close> print it.\<close>

definition digit_char :: "nat \<Rightarrow> char" where
  "digit_char n = char_of (48 + n mod 10)"

fun nat_digits :: "nat \<Rightarrow> string" where
  "nat_digits n = (if n < 10 then [digit_char n] else nat_digits (n div 10) @ [digit_char (n mod 10)])"

declare nat_digits.simps [simp del]

definition int_digits :: "int \<Rightarrow> string" where
  "int_digits i = (if i < 0 then CHR ''-'' # nat_digits (nat (- i)) else nat_digits (nat i))"

text \<open>\<open>str(v)\<close>.\<close>

fun py_str :: "host \<Rightarrow> json \<Rightarrow> string" where
  "py_str H (JStr s) = s"
| "py_str H JNull = ''None''"
| "py_str H (JBool b) = (if b then ''True'' else ''False'')"
| "py_str H (JInt i) = int_digits i"
| "py_str H v = repr_of H v"

text \<open>\<open>for x in v\<close>: lists give their elements, strings their characters, dicts their keys.\<close>

fun py_iter :: "json \<Rightarrow> ('f, json list) result" where
  "py_iter (JList xs) = Inr xs"
| "py_iter (JStr s) = Inr (map (\<lambda>c. JStr [c]) s)"
| "py_iter (JObj d) = Inr (map (\<lambda>p. JStr (fst p)) d)"
| "py_iter _ = Inl (Builtin TypeErr)"

text \<open>
  \<open>dict(v)\<close>. A dict is copied. An iterable of pairs is accepted too: a pair is any
  sequence of length two whose first element is hashable. A key that is not a
  string leaves the domain of JSON values and is reported as such.
\<close>

fun py_pair :: "json \<Rightarrow> ('f, string \<times> json) result" where
  "py_pair (JList [k, v]) = (case k of
      JStr s \<Rightarrow> Inr (s, v)
    | JList _ \<Rightarrow> Inl (Builtin TypeErr)
    | JObj _ \<Rightarrow> Inl (Builtin TypeErr)
    | _ \<Rightarrow> Inl (Builtin OutsideModel))"
| "py_pair (JStr [a, b]) = Inr ([a], JStr [b])"
| "py_pair (JObj [(a, _), (b, _)]) = Inr (a, JStr b)"
| "py_pair (JList _) = Inl (Builtin ValueErr)"
| "py_pair (JStr _) = Inl (Builtin ValueErr)"
| "py_pair (JObj _) = Inl (Builtin ValueErr)"
| "py_pair _ = Inl (Builtin TypeErr)"

fun py_dict :: "json \<Rightarrow> ('f, jdict) result" where
  "py_dict (JObj d) = Inr d"
| "py_dict v = bindE (py_iter v) (\<lambda>xs. bindE (mapE py_pair xs) (\<lambda>ps.
      Inr (fold (\<lambda>(k, x) d. dset d k x) ps [])))"

text \<open>\<open>isinstance(v, int) and not isinstance(v, bool)\<close> with a lower bound.\<close>

fun as_int_ge :: "int \<Rightarrow> json \<Rightarrow> int option" where
  "as_int_ge lo (JInt i) = (if i < lo then None else Some i)"
| "as_int_ge lo _ = None"

text \<open>\<open>s.strip()\<close> on ASCII white space.\<close>

definition py_space :: "char \<Rightarrow> bool" where
  "py_space c \<longleftrightarrow> (let n = of_char c :: nat in (9 \<le> n \<and> n \<le> 13) \<or> (28 \<le> n \<and> n \<le> 32))"

definition py_strip :: "string \<Rightarrow> string" where
  "py_strip s = rev (dropWhile py_space (rev (dropWhile py_space s)))"

lemma py_strip_Nil [simp]: "py_strip [] = []"
  by (simp add: py_strip_def)

lemma py_strip_eq_Nil: "py_strip s = [] \<longleftrightarrow> list_all py_space s"
proof -
  have "py_strip s = [] \<longleftrightarrow> (\<forall>c \<in> set (dropWhile py_space s). py_space c)"
    by (simp add: py_strip_def)
  also have "\<dots> \<longleftrightarrow> (\<forall>c \<in> set s. py_space c)"
    by (metis dropWhile_eq_Nil_conv hd_dropWhile list.set_sel(1) set_dropWhileD)
  finally show ?thesis by (simp add: list_all_iff)
qed

text \<open>
  \<open>int(v)\<close>. A text is stripped and read as an optional sign and decimal digits with single
  underscores between them; a finite float is truncated towards zero.
\<close>

definition is_digit :: "char \<Rightarrow> bool" where
  "is_digit c \<longleftrightarrow> (let n = of_char c :: nat in 48 \<le> n \<and> n \<le> 57)"

fun read_digits :: "nat \<Rightarrow> string \<Rightarrow> nat option" where
  "read_digits acc [] = Some acc"
| "read_digits acc (c # cs) =
     (if is_digit c then read_digits (acc * 10 + (of_char c - 48)) cs
      else if c = CHR ''_'' \<and> cs \<noteq> [] \<and> is_digit (hd cs) then read_digits acc cs
      else None)"

definition read_nat :: "string \<Rightarrow> nat option" where
  "read_nat s = (if s \<noteq> [] \<and> is_digit (hd s) then read_digits 0 s else None)"

definition read_int :: "string \<Rightarrow> int option" where
  "read_int s = (case s of
      [] \<Rightarrow> None
    | c # cs \<Rightarrow> if c = CHR ''-'' then map_option (\<lambda>n. - int n) (read_nat cs)
               else if c = CHR ''+'' then map_option int (read_nat cs)
               else map_option int (read_nat s))"

fun py_int :: "json \<Rightarrow> ('f, int) result" where
  "py_int (JInt i) = Inr i"
| "py_int (JBool b) = Inr (if b then 1 else 0)"
| "py_int (JFloat (FFin q)) = Inr (if 0 \<le> q then \<lfloor>q\<rfloor> else \<lceil>q\<rceil>)"
| "py_int (JFloat FNan) = Inl (Builtin ValueErr)"
| "py_int (JFloat _) = Inl (Builtin OverflowErr)"
| "py_int (JStr s) = (case read_int (py_strip s) of None \<Rightarrow> Inl (Builtin ValueErr) | Some i \<Rightarrow> Inr i)"
| "py_int _ = Inl (Builtin TypeErr)"

lemma size_map_of [termination_simp]: "map_of d k = Some v \<Longrightarrow> size v < size (JObj d)"
proof -
  assume "map_of d k = Some v"
  then have "(k, v) \<in> set d" by (rule map_of_SomeD)
  then have "size v \<le> size_list (size_prod (\<lambda>_. 0) size) d"
    by (intro size_list_estimation') (auto simp: size_prod_simp)
  then show ?thesis by simp
qed

text \<open>\<open>s.startswith(p)\<close>.\<close>

definition startswith :: "string \<Rightarrow> string \<Rightarrow> bool" where
  "startswith s p \<longleftrightarrow> take (length p) s = p"

lemma as_int_ge_Some [simp]: "as_int_ge lo v = Some i \<longleftrightarrow> v = JInt i \<and> lo \<le> i"
  by (cases v) auto

lemma jget_dset [simp]: "jget (dset d k v) k' = (if k' = k then v else jget d k')"
  by (simp add: jget_def)

end
