(* ===== verification/Json_Text.thy ===== *)
theory Json_Text
  imports Agent_Prelude "HOL-Library.Multiset"
begin

text \<open>
  The part of Python's \<open>json\<close> module the package uses to make canonical text:
  \<open>json.dumps(v, ensure_ascii=False, separators=(",", ":"), sort_keys=...)\<close>, and the
  structural comparison of JSON values. The encoder follows \<open>json.encoder\<close>: strings
  are quoted with the two-character escapes of the module and \<open>\u00XX\<close> for the other
  control characters, floats are printed by \<open>repr\<close>.
\<close>

section \<open>Encoding\<close>

definition hex_digit :: "nat \<Rightarrow> char" where
  "hex_digit n = (if n < 10 then char_of (48 + n) else char_of (87 + n))"

definition escape_char :: "char \<Rightarrow> string" where
  "escape_char c = (let n = of_char c :: nat in
     if n = 34 then [CHR 0x5C, CHR 0x22]
     else if n = 92 then [CHR 0x5C, CHR 0x5C]
     else if n = 10 then [CHR 0x5C, CHR ''n'']
     else if n = 13 then [CHR 0x5C, CHR ''r'']
     else if n = 9 then [CHR 0x5C, CHR ''t'']
     else if n = 8 then [CHR 0x5C, CHR ''b'']
     else if n = 12 then [CHR 0x5C, CHR ''f'']
     else if n < 32 then [CHR 0x5C, CHR ''u'', CHR ''0'', CHR ''0'', hex_digit (n div 16), hex_digit (n mod 16)]
     else [c])"

definition quote_string :: "string \<Rightarrow> string" where
  "quote_string s = CHR 0x22 # concat (map escape_char s) @ [CHR 0x22]"

fun join_comma :: "string list \<Rightarrow> string" where
  "join_comma [] = []"
| "join_comma [s] = s"
| "join_comma (s # t # ts) = s @ CHR '','' # join_comma (t # ts)"

definition float_text :: "host \<Rightarrow> pyfloat \<Rightarrow> string" where
  "float_text H f = (case f of
      FFin _ \<Rightarrow> repr_of H (JFloat f)
    | FPosInf \<Rightarrow> ''Infinity''
    | FNegInf \<Rightarrow> ''-Infinity''
    | FNan \<Rightarrow> ''NaN'')"

definition member_text :: "string \<times> string \<Rightarrow> string" where
  "member_text p = quote_string (fst p) @ CHR '':'' # snd p"

definition order_members :: "bool \<Rightarrow> (string \<times> 'a) list \<Rightarrow> (string \<times> 'a) list" where
  "order_members sort_keys ms = (if sort_keys then sort_key fst ms else ms)"

fun json_dumps :: "host \<Rightarrow> bool \<Rightarrow> json \<Rightarrow> string" where
  "json_dumps H sk JNull = ''null''"
| "json_dumps H sk (JBool b) = (if b then ''true'' else ''false'')"
| "json_dumps H sk (JInt i) = int_digits i"
| "json_dumps H sk (JFloat f) = float_text H f"
| "json_dumps H sk (JStr s) = quote_string s"
| "json_dumps H sk (JList xs) = CHR ''['' # join_comma (map (json_dumps H sk) xs) @ [CHR '']'']"
| "json_dumps H sk (JObj d) = CHR ''{'' #
     join_comma (map member_text (order_members sk (map (\<lambda>(k, v). (k, json_dumps H sk v)) d))) @ [CHR ''}'']"

section \<open>Strict comparison and well-formed values\<close>

text \<open>A Python dict never holds a key twice, and a persisted value holds no NaN.\<close>

fun wf_json :: "json \<Rightarrow> bool" where
  "wf_json (JFloat f) = (f \<noteq> FNan)"
| "wf_json (JList xs) = list_all wf_json xs"
| "wf_json (JObj d) = (distinct (map fst d) \<and> list_all (\<lambda>p. wf_json (snd p)) d)"
| "wf_json _ = True"

lemma size_zip_fst [termination_simp]: "(a, b) \<in> set (zip xs ys) \<Longrightarrow> size a < Suc (size_list size xs)"
  by (metis in_set_zipE less_Suc_eq_le size_list_estimation' order_refl)

fun strict_json_equal :: "json \<Rightarrow> json \<Rightarrow> bool" where
  "strict_json_equal JNull JNull = True"
| "strict_json_equal (JBool a) (JBool b) = (a = b)"
| "strict_json_equal (JInt a) (JInt b) = (a = b)"
| "strict_json_equal (JFloat a) (JFloat b) = float_eq a b"
| "strict_json_equal (JStr a) (JStr b) = (a = b)"
| "strict_json_equal (JList xs) (JList ys) =
     (length xs = length ys \<and> list_all (\<lambda>(x, y). strict_json_equal x y) (zip xs ys))"
| "strict_json_equal (JObj d) (JObj e) =
     (set (map fst d) = set (map fst e) \<and>
      list_all (\<lambda>(k, v). case map_of e k of None \<Rightarrow> False | Some w \<Rightarrow> strict_json_equal v w) d)"
| "strict_json_equal _ _ = False"

section \<open>Strict comparison is equality up to the order of keys\<close>

fun canon :: "json \<Rightarrow> json" where
  "canon (JList xs) = JList (map canon xs)"
| "canon (JObj d) = JObj (sort_key fst (map (\<lambda>(k, v). (k, canon v)) d))"
| "canon v = v"

lemma map_fst_map_values [simp]: "map fst (map (\<lambda>(k, v). (k, f v)) d) = map fst d"
  by (induction d) auto

lemma sort_key_fst_eq_iff:
  assumes "distinct (map fst d)" "distinct (map fst e)"
  shows "sort_key fst d = sort_key fst e \<longleftrightarrow> map_of d = map_of e"
proof
  assume "sort_key fst d = sort_key fst e"
  then have "set d = set e" by (metis set_sort)
  with assms show "map_of d = map_of e" by (metis map_of_inject_set)
next
  assume "map_of d = map_of e"
  with assms have "set d = set e" by (metis map_of_inject_set)
  moreover have "distinct d" "distinct e" using assms by (simp_all add: distinct_map)
  ultimately have "mset d = mset e" by (simp add: set_eq_iff_mset_eq_distinct)
  moreover have "inj_on fst (set d)" using assms by (simp add: distinct_map)
  ultimately show "sort_key fst d = sort_key fst e"
    by (intro sort_key_inj_key_eq) simp_all
qed

lemma insort_key_map_values:
  "insort_key fst (fst q, f (snd q)) (map (\<lambda>(k, v). (k, f v)) xs) =
   map (\<lambda>(k, v). (k, f v)) (insort_key fst q xs)"
  by (induction xs) (auto split: prod.splits)

lemma sort_key_map_values:
  "sort_key fst (map (\<lambda>(k, v). (k, f v)) d) = map (\<lambda>(k, v). (k, f v)) (sort_key fst d)"
proof (induction d)
  case Nil
  then show ?case by simp
next
  case (Cons p d)
  then show ?case using insort_key_map_values[of p f "sort_key fst d"]
    by (cases p) simp
qed

lemma canon_obj_eq_iff:
  assumes "distinct (map fst d)" "distinct (map fst e)"
  shows "canon (JObj d) = canon (JObj e) \<longleftrightarrow>
    set (map fst d) = set (map fst e) \<and>
    (\<forall>(k, v) \<in> set d. \<exists>w. map_of e k = Some w \<and> canon v = canon w)"
proof -
  have "canon (JObj d) = canon (JObj e) \<longleftrightarrow>
      map_option canon \<circ> map_of d = map_option canon \<circ> map_of e"
    using assms by (simp add: sort_key_fst_eq_iff map_of_map del: map_map)
  also have "\<dots> \<longleftrightarrow> (\<forall>k. map_option canon (map_of d k) = map_option canon (map_of e k))"
    by (simp add: fun_eq_iff)
  also have "\<dots> \<longleftrightarrow> dom (map_of d) = dom (map_of e) \<and>
      (\<forall>k v. map_of d k = Some v \<longrightarrow> (\<exists>w. map_of e k = Some w \<and> canon v = canon w))"
    (is "?L \<longleftrightarrow> ?R")
  proof
    assume l: ?L
    then have "map_of d k = None \<longleftrightarrow> map_of e k = None" for k
      by (metis map_option_is_None)
    moreover have "\<exists>w. map_of e k = Some w \<and> canon v = canon w" if "map_of d k = Some v" for k v
      using that l by (metis map_option_eq_Some)
    ultimately show ?R by (auto simp: dom_def)
  next
    assume r: ?R
    show ?L
    proof
      fix k
      show "map_option canon (map_of d k) = map_option canon (map_of e k)"
      proof (cases "map_of d k")
        case None
        with r have "map_of e k = None" by (metis domIff)
        with None show ?thesis by simp
      next
        case (Some v)
        with r obtain w where "map_of e k = Some w" "canon v = canon w" by blast
        with Some show ?thesis by simp
      qed
    qed
  qed
  also have "\<dots> \<longleftrightarrow> set (map fst d) = set (map fst e) \<and>
    (\<forall>(k, v) \<in> set d. \<exists>w. map_of e k = Some w \<and> canon v = canon w)"
    using assms by (auto simp: dom_map_of_conv_image_fst)
  finally show ?thesis .
qed

lemma strict_json_equal_canon:
  "wf_json a \<Longrightarrow> wf_json b \<Longrightarrow> strict_json_equal a b \<longleftrightarrow> canon a = canon b"
proof (induction a b rule: strict_json_equal.induct)
  case (4 a b)
  then show ?case by (auto simp: float_eq_def)
next
  case (6 xs ys)
  have "strict_json_equal x y \<longleftrightarrow> canon x = canon y" if "(x, y) \<in> set (zip xs ys)" for x y
    using "6.IH"[OF that refl] "6.prems" that
    by (auto simp: list_all_iff dest: set_zip_leftD set_zip_rightD)
  then have "list_all (\<lambda>(x, y). strict_json_equal x y) (zip xs ys) \<longleftrightarrow>
      list_all (\<lambda>(x, y). canon x = canon y) (zip xs ys)"
    by (auto simp: list_all_iff)
  then show ?case
    by (auto simp: list_all_iff list_eq_iff_zip_eq zip_map_map)
next
  case (7 d e)
  have "(case map_of e k of None \<Rightarrow> False | Some w \<Rightarrow> strict_json_equal v w) \<longleftrightarrow>
      (\<exists>w. map_of e k = Some w \<and> canon v = canon w)" if kv: "(k, v) \<in> set d" for k v
  proof (cases "map_of e k")
    case None
    then show ?thesis by simp
  next
    case (Some w)
    then have "strict_json_equal v w \<longleftrightarrow> canon v = canon w"
      using "7.IH"[OF kv refl Some] "7.prems" kv map_of_SomeD[OF Some]
      by (fastforce simp: list_all_iff)
    with Some show ?thesis by simp
  qed
  then show ?case
    using "7.prems" by (subst canon_obj_eq_iff) (auto simp: list_all_iff)
qed auto

lemma json_dumps_canon: "json_dumps H True v = json_dumps H False (canon v)"
proof (induction v)
  case (JList xs)
  then show ?case by (simp add: o_def cong: map_cong)
next
  case (JObj d)
  have "map (\<lambda>(k, v). (k, json_dumps H True v)) d =
      map (\<lambda>(k, v). (k, json_dumps H False v)) (map (\<lambda>(k, v). (k, canon v)) d)"
    using JObj by (auto simp: snds.simps)
  then show ?case
    by (simp add: order_members_def sort_key_map_values del: map_map)
qed simp_all

text \<open>Two values that compare equal have the same canonical text.\<close>

lemma strict_json_equal_dumps:
  "wf_json a \<Longrightarrow> wf_json b \<Longrightarrow> strict_json_equal a b \<Longrightarrow> json_dumps H True a = json_dumps H True b"
  by (simp add: strict_json_equal_canon json_dumps_canon)

end
