(* ===== verification/Durable_Action.thy ===== *)
theory Durable_Action
  imports Json_Text
begin

text \<open>
  The immutable action envelope shared by Approval, Resume, Tool Intent and Write
  (\<open>durable_action.py\<close>): the record, its constructor's checks (\<open>__post_init__\<close>), its
  dictionary form and its parser, the strict comparison that binds an approved action
  to the action about to be executed, and the digest of an action.
\<close>

section \<open>The envelope\<close>

datatype envelope_fault =
    EnvVersionUnsupported
  | EnvIdentityEmpty
  | EnvNonFinite
  | EnvEntityIdBlank
  | EnvExpectedVersionNegative
  | EnvVersionWithoutEntity
  | EnvNotObject
  | EnvVersionNotInt
  | EnvArgumentsNotObject
  | EnvPreconditionsNotObject
  | EnvMissingText
  | EnvOptionalTextInvalid
  | EnvOptionalVersionInvalid
  | EnvExecutionMismatch

record durable_action_envelope =
  env_operation_id :: string
  env_tool_call_id :: string
  env_tool_name :: string
  env_arguments :: jdict
  env_write_id :: string
  env_entity_id :: "string option"
  env_expected_entity_version :: "int option"
  env_business_preconditions :: "jdict option"
  env_version :: int

text \<open>\<open>_validate_json_value\<close>: the only value of this domain it refuses is a non-finite number.\<close>

fun validate_json_value :: "json \<Rightarrow> (envelope_fault, unit) result" where
  "validate_json_value (JFloat f) = (if isfinite f then Inr () else Inl (Raised EnvNonFinite))"
| "validate_json_value (JList xs) = foldE (\<lambda>x _. validate_json_value x) xs ()"
| "validate_json_value (JObj d) = foldE (\<lambda>p _. validate_json_value (snd p)) d ()"
| "validate_json_value _ = Inr ()"

definition envelope_post_init :: "durable_action_envelope \<Rightarrow> (envelope_fault, durable_action_envelope) result" where
  "envelope_post_init e =
     bindE (guardE (env_version e = 1) (Raised EnvVersionUnsupported)) (\<lambda>_.
     bindE (guardE (env_operation_id e \<noteq> [] \<and> env_tool_call_id e \<noteq> [] \<and> env_tool_name e \<noteq> [] \<and> env_write_id e \<noteq> [])
              (Raised EnvIdentityEmpty)) (\<lambda>_.
     bindE (validate_json_value (JObj (env_arguments e))) (\<lambda>_.
     bindE (case env_entity_id e of None \<Rightarrow> Inr () | Some s \<Rightarrow> guardE (py_strip s \<noteq> []) (Raised EnvEntityIdBlank)) (\<lambda>_.
     bindE (case env_expected_entity_version e of None \<Rightarrow> Inr ()
            | Some v \<Rightarrow> bindE (guardE (0 \<le> v) (Raised EnvExpectedVersionNegative)) (\<lambda>_.
                guardE (env_entity_id e \<noteq> None) (Raised EnvVersionWithoutEntity))) (\<lambda>_.
     bindE (case env_business_preconditions e of None \<Rightarrow> Inr () | Some p \<Rightarrow> validate_json_value (JObj p)) (\<lambda>_.
     Inr e))))))"

definition envelope_to_dict :: "durable_action_envelope \<Rightarrow> jdict" where
  "envelope_to_dict e =
     [(''version'', JInt (env_version e)),
      (''operationId'', JStr (env_operation_id e)),
      (''toolCallId'', JStr (env_tool_call_id e)),
      (''toolName'', JStr (env_tool_name e)),
      (''arguments'', JObj (env_arguments e)),
      (''writeId'', JStr (env_write_id e))]
     @ (case env_entity_id e of None \<Rightarrow> [] | Some s \<Rightarrow> [(''entityId'', JStr s)])
     @ (case env_expected_entity_version e of None \<Rightarrow> [] | Some v \<Rightarrow> [(''expectedEntityVersion'', JInt v)])
     @ (case env_business_preconditions e of None \<Rightarrow> [] | Some p \<Rightarrow> [(''businessPreconditions'', JObj p)])"

section \<open>Parsing\<close>

definition env_text :: "jdict \<Rightarrow> string \<Rightarrow> (envelope_fault, string) result" where
  "env_text d k = (case jget d k of JStr s \<Rightarrow> if s = [] then Inl (Raised EnvMissingText) else Inr s
                   | _ \<Rightarrow> Inl (Raised EnvMissingText))"

definition env_optional_text :: "jdict \<Rightarrow> string \<Rightarrow> (envelope_fault, string option) result" where
  "env_optional_text d k = (case jget d k of
      JNull \<Rightarrow> Inr None
    | JStr s \<Rightarrow> if s = [] then Inl (Raised EnvOptionalTextInvalid) else Inr (Some s)
    | _ \<Rightarrow> Inl (Raised EnvOptionalTextInvalid))"

definition env_optional_version :: "jdict \<Rightarrow> string \<Rightarrow> (envelope_fault, int option) result" where
  "env_optional_version d k = (case jget d k of
      JNull \<Rightarrow> Inr None
    | JInt i \<Rightarrow> if i < 0 then Inl (Raised EnvOptionalVersionInvalid) else Inr (Some i)
    | _ \<Rightarrow> Inl (Raised EnvOptionalVersionInvalid))"

definition envelope_from_dict :: "json \<Rightarrow> (envelope_fault, durable_action_envelope) result" where
  "envelope_from_dict v = (case v of
     JObj d \<Rightarrow>
       bindE (case jget_or d ''version'' (JInt 1) of JInt i \<Rightarrow> Inr i | _ \<Rightarrow> Inl (Raised EnvVersionNotInt)) (\<lambda>ver.
       bindE (case jget d ''arguments'' of JObj a \<Rightarrow> Inr a | _ \<Rightarrow> Inl (Raised EnvArgumentsNotObject)) (\<lambda>args.
       bindE (case jget d ''businessPreconditions'' of JNull \<Rightarrow> Inr None | JObj p \<Rightarrow> Inr (Some p)
              | _ \<Rightarrow> Inl (Raised EnvPreconditionsNotObject)) (\<lambda>pre.
       bindE (env_text d ''operationId'') (\<lambda>op.
       bindE (env_text d ''toolCallId'') (\<lambda>tc.
       bindE (env_text d ''toolName'') (\<lambda>tn.
       bindE (env_text d ''writeId'') (\<lambda>wid.
       bindE (env_optional_text d ''entityId'') (\<lambda>ent.
       bindE (env_optional_version d ''expectedEntityVersion'') (\<lambda>xv.
       envelope_post_init \<lparr>env_operation_id = op, env_tool_call_id = tc, env_tool_name = tn,
         env_arguments = args, env_write_id = wid, env_entity_id = ent,
         env_expected_entity_version = xv, env_business_preconditions = pre, env_version = ver\<rparr>)))))))))
   | _ \<Rightarrow> Inl (Raised EnvNotObject))"

section \<open>Comparison, digest and execution check\<close>

definition envelope_eq :: "durable_action_envelope \<Rightarrow> durable_action_envelope \<Rightarrow> bool" where
  "envelope_eq a b = strict_json_equal (JObj (envelope_to_dict a)) (JObj (envelope_to_dict b))"

definition action_digest :: "host \<Rightarrow> jdict \<Rightarrow> string" where
  "action_digest H action = sha256_hex H (json_dumps H True (JObj action))"

definition durable_action_digest :: "host \<Rightarrow> jdict \<Rightarrow> (envelope_fault, string) result" where
  "durable_action_digest H v =
     bindE (validate_json_value (JObj v)) (\<lambda>_. Inr (sha256_hex H (json_dumps H True (JObj v))))"

definition envelope_action_hash :: "host \<Rightarrow> durable_action_envelope \<Rightarrow> (envelope_fault, string) result" where
  "envelope_action_hash H e = durable_action_digest H (envelope_to_dict e)"

record execution_facts =
  ex_operation_id :: string
  ex_tool_call_id :: string
  ex_tool_name :: string
  ex_arguments :: jdict
  ex_write_id :: string
  ex_entity_id :: "string option"
  ex_expected_entity_version :: "int option"
  ex_business_preconditions :: "jdict option"

definition assert_execution ::
  "durable_action_envelope \<Rightarrow> execution_facts \<Rightarrow> bool \<Rightarrow> (envelope_fault, unit) result" where
  "assert_execution self x validate_business_binding =
     bindE (envelope_post_init \<lparr>env_operation_id = ex_operation_id x, env_tool_call_id = ex_tool_call_id x,
        env_tool_name = ex_tool_name x, env_arguments = ex_arguments x, env_write_id = ex_write_id x,
        env_entity_id = (if validate_business_binding then ex_entity_id x else env_entity_id self),
        env_expected_entity_version =
          (if validate_business_binding then ex_expected_entity_version x else env_expected_entity_version self),
        env_business_preconditions =
          (if validate_business_binding then ex_business_preconditions x else env_business_preconditions self),
        env_version = 1\<rparr>) (\<lambda>actual.
     guardE (envelope_eq actual self) (Raised EnvExecutionMismatch))"

section \<open>Facts about the envelope\<close>

fun finite_json :: "json \<Rightarrow> bool" where
  "finite_json (JFloat f) = isfinite f"
| "finite_json (JList xs) = list_all finite_json xs"
| "finite_json (JObj d) = list_all (\<lambda>p. finite_json (snd p)) d"
| "finite_json _ = True"

lemma foldE_unit_ok: "foldE (\<lambda>x _. f x) xs () = Inr () \<longleftrightarrow> (\<forall>x \<in> set xs. f x = Inr ())"
  by (induction xs) (auto simp: exc_simps)

lemma validate_json_value_ok [simp]: "validate_json_value v = Inr u \<longleftrightarrow> finite_json v"
proof (induction v arbitrary: u)
  case (JObj d)
  then show ?case by (auto simp: foldE_unit_ok list_all_iff)
qed (auto simp: foldE_unit_ok list_all_iff)

definition valid_envelope :: "durable_action_envelope \<Rightarrow> bool" where
  "valid_envelope e \<longleftrightarrow> envelope_post_init e = Inr e"

lemma envelope_post_init_ok:
  "envelope_post_init e = Inr e' \<longleftrightarrow> e' = e \<and> env_version e = 1 \<and>
     env_operation_id e \<noteq> [] \<and> env_tool_call_id e \<noteq> [] \<and> env_tool_name e \<noteq> [] \<and> env_write_id e \<noteq> [] \<and>
     finite_json (JObj (env_arguments e)) \<and>
     (\<forall>s. env_entity_id e = Some s \<longrightarrow> py_strip s \<noteq> []) \<and>
     (\<forall>v. env_expected_entity_version e = Some v \<longrightarrow> 0 \<le> v \<and> env_entity_id e \<noteq> None) \<and>
     (\<forall>p. env_business_preconditions e = Some p \<longrightarrow> finite_json (JObj p))"
  unfolding envelope_post_init_def
  by (auto simp: exc_simps simp del: finite_json.simps validate_json_value.simps split: option.splits)

lemma env_keys_lookup [simp]:
  "jget_or (envelope_to_dict e) ''version'' v0 = JInt (env_version e)"
  "jget (envelope_to_dict e) ''operationId'' = JStr (env_operation_id e)"
  "jget (envelope_to_dict e) ''toolCallId'' = JStr (env_tool_call_id e)"
  "jget (envelope_to_dict e) ''toolName'' = JStr (env_tool_name e)"
  "jget (envelope_to_dict e) ''arguments'' = JObj (env_arguments e)"
  "jget (envelope_to_dict e) ''writeId'' = JStr (env_write_id e)"
  by (simp_all add: envelope_to_dict_def jget_def jget_or_def)

lemma env_optional_lookup [simp]:
  "jget (envelope_to_dict e) ''entityId'' = (case env_entity_id e of None \<Rightarrow> JNull | Some s \<Rightarrow> JStr s)"
  "jget (envelope_to_dict e) ''expectedEntityVersion'' =
     (case env_expected_entity_version e of None \<Rightarrow> JNull | Some v \<Rightarrow> JInt v)"
  "jget (envelope_to_dict e) ''businessPreconditions'' =
     (case env_business_preconditions e of None \<Rightarrow> JNull | Some p \<Rightarrow> JObj p)"
  by (auto simp: envelope_to_dict_def jget_def split: option.splits)

lemma valid_envelope_iff:
  "valid_envelope e \<longleftrightarrow> env_version e = 1 \<and>
     env_operation_id e \<noteq> [] \<and> env_tool_call_id e \<noteq> [] \<and> env_tool_name e \<noteq> [] \<and> env_write_id e \<noteq> [] \<and>
     finite_json (JObj (env_arguments e)) \<and>
     (\<forall>s. env_entity_id e = Some s \<longrightarrow> py_strip s \<noteq> []) \<and>
     (\<forall>v. env_expected_entity_version e = Some v \<longrightarrow> 0 \<le> v \<and> env_entity_id e \<noteq> None) \<and>
     (\<forall>p. env_business_preconditions e = Some p \<longrightarrow> finite_json (JObj p))"
  by (simp add: valid_envelope_def envelope_post_init_ok del: finite_json.simps)

lemma env_text_JStr: "jget d k = JStr s \<Longrightarrow> s \<noteq> [] \<Longrightarrow> env_text d k = Inr s"
  by (simp add: env_text_def)

lemma env_optional_text_case:
  "jget d k = (case x of None \<Rightarrow> JNull | Some s \<Rightarrow> JStr s) \<Longrightarrow> (\<forall>s. x = Some s \<longrightarrow> s \<noteq> []) \<Longrightarrow>
   env_optional_text d k = Inr x"
  by (auto simp: env_optional_text_def split: option.splits)

lemma env_optional_version_case:
  "jget d k = (case x of None \<Rightarrow> JNull | Some s \<Rightarrow> JInt s) \<Longrightarrow> (\<forall>s. x = Some s \<longrightarrow> 0 \<le> s) \<Longrightarrow>
   env_optional_version d k = Inr x"
  by (auto simp: env_optional_version_def split: option.splits)

lemma envelope_from_to_dict:
  assumes "valid_envelope e"
  shows "envelope_from_dict (JObj (envelope_to_dict e)) = Inr e"
proof -
  have ent: "\<forall>s. env_entity_id e = Some s \<longrightarrow> s \<noteq> []"
    using assms by (auto simp: valid_envelope_iff)
  have ver: "\<forall>s. env_expected_entity_version e = Some s \<longrightarrow> 0 \<le> s"
    using assms by (auto simp: valid_envelope_iff)
  have ids: "env_operation_id e \<noteq> []" "env_tool_call_id e \<noteq> []" "env_tool_name e \<noteq> []" "env_write_id e \<noteq> []"
    using assms by (auto simp: valid_envelope_iff)
  show ?thesis
    using assms ids ent ver
    by (cases e; cases "env_business_preconditions e")
      (simp_all add: envelope_from_dict_def env_text_JStr env_optional_text_case
        env_optional_version_case valid_envelope_def)
qed

lemma envelope_from_dict_valid: "envelope_from_dict v = Inr env \<Longrightarrow> valid_envelope env"
proof -
  assume "envelope_from_dict v = Inr env"
  then obtain e where "envelope_post_init e = Inr env"
    unfolding envelope_from_dict_def by (auto simp: bindE_eq_Inr split: json.splits)
  moreover from this have "e = env" by (simp add: envelope_post_init_ok)
  ultimately show ?thesis by (simp add: valid_envelope_def)
qed

text \<open>
  An envelope that the constructor or the parser accepted survives persistence: parsing its
  dictionary form gives the envelope back.
\<close>

theorem envelope_roundtrip:
  assumes "envelope_post_init e = Inr e \<or> envelope_from_dict v = Inr e"
  shows "envelope_from_dict (JObj (envelope_to_dict e)) = Inr e"
  using assms by (blast intro: envelope_from_to_dict envelope_from_dict_valid valid_envelope_def[THEN iffD2])

text \<open>Two envelopes compare equal exactly when every field does.\<close>

definition opt_strict_equal :: "jdict option \<Rightarrow> jdict option \<Rightarrow> bool" where
  "opt_strict_equal p q = (case (p, q) of (None, None) \<Rightarrow> True
     | (Some a, Some b) \<Rightarrow> strict_json_equal (JObj a) (JObj b) | _ \<Rightarrow> False)"

lemma env_keys:
  "map fst (envelope_to_dict e) =
     [''version'', ''operationId'', ''toolCallId'', ''toolName'', ''arguments'', ''writeId''] @
     (if env_entity_id e = None then [] else [''entityId'']) @
     (if env_expected_entity_version e = None then [] else [''expectedEntityVersion'']) @
     (if env_business_preconditions e = None then [] else [''businessPreconditions''])"
  by (simp add: envelope_to_dict_def split: option.splits)

lemma env_keys_optional:
  "env_entity_id e = None \<longleftrightarrow> ''entityId'' \<notin> set (map fst (envelope_to_dict e))"
  "env_expected_entity_version e = None \<longleftrightarrow> ''expectedEntityVersion'' \<notin> set (map fst (envelope_to_dict e))"
  "env_business_preconditions e = None \<longleftrightarrow> ''businessPreconditions'' \<notin> set (map fst (envelope_to_dict e))"
  by (simp_all only: env_keys) simp_all

lemma env_keys_eq_iff:
  "set (map fst (envelope_to_dict a)) = set (map fst (envelope_to_dict b)) \<longleftrightarrow>
      (env_entity_id a = None \<longleftrightarrow> env_entity_id b = None) \<and>
      (env_expected_entity_version a = None \<longleftrightarrow> env_expected_entity_version b = None) \<and>
      (env_business_preconditions a = None \<longleftrightarrow> env_business_preconditions b = None)"
  (is "?L \<longleftrightarrow> ?R")
proof
  assume ?L
  then show ?R by (simp only: env_keys_optional)
next
  assume ?R
  then show ?L by (simp only: env_keys)
qed

lemma env_map_of [simp]:
  "map_of (envelope_to_dict e) ''version'' = Some (JInt (env_version e))"
  "map_of (envelope_to_dict e) ''operationId'' = Some (JStr (env_operation_id e))"
  "map_of (envelope_to_dict e) ''toolCallId'' = Some (JStr (env_tool_call_id e))"
  "map_of (envelope_to_dict e) ''toolName'' = Some (JStr (env_tool_name e))"
  "map_of (envelope_to_dict e) ''arguments'' = Some (JObj (env_arguments e))"
  "map_of (envelope_to_dict e) ''writeId'' = Some (JStr (env_write_id e))"
  "map_of (envelope_to_dict e) ''entityId'' = map_option JStr (env_entity_id e)"
  "map_of (envelope_to_dict e) ''expectedEntityVersion'' = map_option JInt (env_expected_entity_version e)"
  "map_of (envelope_to_dict e) ''businessPreconditions'' = map_option JObj (env_business_preconditions e)"
  by (auto simp: envelope_to_dict_def split: option.splits)

lemma envelope_eq_iff:
  "envelope_eq a b \<longleftrightarrow> env_version a = env_version b \<and> env_operation_id a = env_operation_id b \<and>
     env_tool_call_id a = env_tool_call_id b \<and> env_tool_name a = env_tool_name b \<and>
     strict_json_equal (JObj (env_arguments a)) (JObj (env_arguments b)) \<and>
     env_write_id a = env_write_id b \<and> env_entity_id a = env_entity_id b \<and>
     env_expected_entity_version a = env_expected_entity_version b \<and>
     opt_strict_equal (env_business_preconditions a) (env_business_preconditions b)"
proof -
  have "envelope_eq a b \<longleftrightarrow> set (map fst (envelope_to_dict a)) = set (map fst (envelope_to_dict b)) \<and>
      list_all (\<lambda>(k, v). case map_of (envelope_to_dict b) k of None \<Rightarrow> False
        | Some w \<Rightarrow> strict_json_equal v w) (envelope_to_dict a)"
    by (simp add: envelope_eq_def)
  then show ?thesis
    by (simp only: env_keys_eq_iff)
      (auto simp: envelope_to_dict_def[of a] opt_strict_equal_def
        simp del: strict_json_equal.simps(7) split: option.splits)
qed

definition sample_envelope :: durable_action_envelope where
  "sample_envelope = \<lparr>env_operation_id = ''op-1'', env_tool_call_id = ''call-1'', env_tool_name = ''refund'',
     env_arguments = [(''amount'', JInt 5)], env_write_id = ''w-1'', env_entity_id = Some ''order-7'',
     env_expected_entity_version = Some 3, env_business_preconditions = None, env_version = 1\<rparr>"

theorem envelope_roundtrip_witness:
  "envelope_post_init sample_envelope = Inr sample_envelope \<and>
   envelope_from_dict (JObj (envelope_to_dict sample_envelope)) = Inr sample_envelope"
proof -
  have "envelope_post_init sample_envelope = Inr sample_envelope" by code_simp
  then show ?thesis using envelope_roundtrip[of sample_envelope] by simp
qed

lemma strict_json_equal_finite: "strict_json_equal a b \<Longrightarrow> finite_json b \<Longrightarrow> finite_json a"
proof (induction a b rule: strict_json_equal.induct)
  case (6 xs ys)
  then show ?case
    by (fastforce simp: list_all_iff in_set_conv_nth set_zip)
next
  case (7 d e)
  show ?case
    unfolding finite_json.simps list_all_iff
  proof
    fix p assume p: "p \<in> set d"
    obtain k v where kv: "p = (k, v)" by (cases p)
    from "7.prems"(1) p kv obtain w where w: "map_of e k = Some w" "strict_json_equal v w"
      by (auto simp: list_all_iff split: option.splits)
    from "7.prems"(2) map_of_SomeD[OF w(1)] have "finite_json w" by (auto simp: list_all_iff)
    with "7.IH" p kv w show "finite_json (snd p)" by auto
  qed
qed (auto simp: float_eq_def)

text \<open>
  C30: an envelope accepts an execution, with its business binding checked, exactly when
  operation, tool call, tool, write, entity and expected entity version are the approved ones
  and the arguments and preconditions are strictly equal as JSON (so that \<open>true\<close> is
  not \<open>1\<close>, and no key is missing or added).
\<close>

theorem assert_execution_exact:
  assumes "valid_envelope self"
  shows "assert_execution self x True = Inr () \<longleftrightarrow>
     ex_operation_id x = env_operation_id self \<and> ex_tool_call_id x = env_tool_call_id self \<and>
     ex_tool_name x = env_tool_name self \<and> ex_write_id x = env_write_id self \<and>
     strict_json_equal (JObj (ex_arguments x)) (JObj (env_arguments self)) \<and>
     ex_entity_id x = env_entity_id self \<and>
     ex_expected_entity_version x = env_expected_entity_version self \<and>
     opt_strict_equal (ex_business_preconditions x) (env_business_preconditions self)"
    (is "_ \<longleftrightarrow> ?R")
proof -
  let ?actual = "\<lparr>env_operation_id = ex_operation_id x, env_tool_call_id = ex_tool_call_id x,
        env_tool_name = ex_tool_name x, env_arguments = ex_arguments x, env_write_id = ex_write_id x,
        env_entity_id = ex_entity_id x, env_expected_entity_version = ex_expected_entity_version x,
        env_business_preconditions = ex_business_preconditions x, env_version = 1\<rparr>"
  have eq: "envelope_eq ?actual self \<longleftrightarrow> ?R"
    using assms by (auto simp: envelope_eq_iff valid_envelope_iff simp del: strict_json_equal.simps)
  have valid: "valid_envelope ?actual" if ?R
    using that assms strict_json_equal_finite
    by (auto simp: valid_envelope_iff opt_strict_equal_def
        simp del: strict_json_equal.simps finite_json.simps split: option.splits)
  have "assert_execution self x True = Inr () \<longleftrightarrow> valid_envelope ?actual \<and> envelope_eq ?actual self"
    by (auto simp: assert_execution_def exc_simps valid_envelope_def envelope_post_init_ok
        simp del: finite_json.simps)
  with eq valid show ?thesis by blast
qed

lemma assert_execution_matches:
  assumes "assert_execution self x b = Inr ()"
  shows "ex_operation_id x = env_operation_id self \<and> ex_tool_call_id x = env_tool_call_id self \<and>
     ex_tool_name x = env_tool_name self \<and> ex_write_id x = env_write_id self \<and>
     strict_json_equal (JObj (ex_arguments x)) (JObj (env_arguments self))"
  using assms by (auto simp: assert_execution_def exc_simps envelope_post_init_ok envelope_eq_iff
      simp del: strict_json_equal.simps finite_json.simps)

definition sample_execution :: execution_facts where
  "sample_execution = \<lparr>ex_operation_id = ''op-1'', ex_tool_call_id = ''call-1'', ex_tool_name = ''refund'',
     ex_arguments = [(''amount'', JInt 5)], ex_write_id = ''w-1'', ex_entity_id = Some ''order-7'',
     ex_expected_entity_version = Some 3, ex_business_preconditions = None\<rparr>"

text \<open>The execution of the sample passes; with the amount replaced by \<open>true\<close> it does not.\<close>

theorem assert_execution_exact_witness:
  "valid_envelope sample_envelope \<and> assert_execution sample_envelope sample_execution True = Inr () \<and>
   assert_execution sample_envelope (sample_execution\<lparr>ex_arguments := [(''amount'', JBool True)]\<rparr>) True \<noteq> Inr ()"
proof -
  have v: "valid_envelope sample_envelope"
    by (simp add: valid_envelope_iff sample_envelope_def py_strip_def py_space_def)
  show ?thesis
    using v assert_execution_exact[OF v, of sample_execution]
      assert_execution_exact[OF v, of "sample_execution\<lparr>ex_arguments := [(''amount'', JBool True)]\<rparr>"]
    by (simp add: sample_envelope_def sample_execution_def opt_strict_equal_def)
qed

lemma wf_envelope_dict:
  "wf_json (JObj (envelope_to_dict e)) \<longleftrightarrow> wf_json (JObj (env_arguments e)) \<and>
     (\<forall>p. env_business_preconditions e = Some p \<longrightarrow> wf_json (JObj p))"
proof -
  have "distinct (map fst (envelope_to_dict e))" by (simp only: env_keys) simp
  then show ?thesis
    by (auto simp: envelope_to_dict_def simp del: wf_json.simps(3) split: option.splits)
      (auto simp: list_all_iff)
qed

text \<open>
  Equal envelopes have the same action hash, whatever the order in which their
  dictionaries were filled; so the hash an approver saw is the hash a consumer recomputes.
\<close>

theorem envelope_eq_same_hash:
  assumes "valid_envelope a" "valid_envelope b" "envelope_eq a b"
    and "wf_json (JObj (envelope_to_dict a))" "wf_json (JObj (envelope_to_dict b))"
  shows "envelope_action_hash H a = envelope_action_hash H b \<and> isOk (envelope_action_hash H a)"
proof -
  have fin: "finite_json (JObj (envelope_to_dict e))" if "valid_envelope e" for e
    using that by (auto simp: valid_envelope_iff envelope_to_dict_def split: option.splits)
  have "json_dumps H True (JObj (envelope_to_dict a)) = json_dumps H True (JObj (envelope_to_dict b))"
    using assms(3-5) unfolding envelope_eq_def by (intro strict_json_equal_dumps)
  moreover have "validate_json_value (JObj (envelope_to_dict a)) = Inr ()"
    "validate_json_value (JObj (envelope_to_dict b)) = Inr ()"
    using fin assms(1,2) by (simp_all only: validate_json_value_ok)
  ultimately show ?thesis
    by (simp add: envelope_action_hash_def durable_action_digest_def
        del: validate_json_value_ok validate_json_value.simps json_dumps.simps)
qed

definition sample_host :: host where
  "sample_host = \<lparr>sha256_hex = (\<lambda>s. s), repr_of = (\<lambda>_. ''1.0''), read_float = (\<lambda>_. FNan)\<rparr>"

definition sample_two_args :: "jdict \<Rightarrow> durable_action_envelope" where
  "sample_two_args args = sample_envelope\<lparr>env_arguments := args\<rparr>"

theorem envelope_eq_same_hash_witness:
  "envelope_action_hash sample_host (sample_two_args [(''a'', JInt 1), (''b'', JInt 2)]) =
   envelope_action_hash sample_host (sample_two_args [(''b'', JInt 2), (''a'', JInt 1)])"
proof -
  let ?a = "sample_two_args [(''a'', JInt 1), (''b'', JInt 2)]"
  let ?b = "sample_two_args [(''b'', JInt 2), (''a'', JInt 1)]"
  have v: "valid_envelope ?a" "valid_envelope ?b"
    by (simp_all add: valid_envelope_iff sample_envelope_def sample_two_args_def py_strip_def py_space_def)
  have e: "envelope_eq ?a ?b"
    by (simp add: envelope_eq_iff sample_two_args_def sample_envelope_def opt_strict_equal_def insert_commute)
  have w: "wf_json (JObj (envelope_to_dict ?a))" "wf_json (JObj (envelope_to_dict ?b))"
    by (simp_all add: wf_envelope_dict sample_two_args_def sample_envelope_def del: wf_json.simps(3))
      simp_all
  show ?thesis using envelope_eq_same_hash[OF v e w] by blast
qed

end
