(* ===== verification/Model_Policy.thy ===== *)
theory Model_Policy
  imports Json_Text
begin

text \<open>
  The policy snapshot persisted with every model request (\<open>model_policy.py\<close>): the policy
  and its constructor's checks, its dictionary form and parser, the capture of a policy from the
  options of a turn, and the checks a model response has to pass before it is stored, recovered
  or replayed.
\<close>

section \<open>The policy\<close>

datatype policy_fault =
    PolVersionUnsupported
  | PolAllowedNotVisible
  | PolNamedNotVisible
  | PolRequiredNothingVisible
  | PolArgumentsNotObject
  | PolNotObject
  | PolNamesNotText
  | PolNamesEmpty
  | PolNamesRepeated
  | PolNamesNotArray
  | PolChoiceInvalid
  | PolChoiceNameMissing
  | PolNotAssistant
  | PolContentNotArray
  | PolCallNotVisible
  | PolCallNotAllowed
  | PolCallsForbidden
  | PolCallRequired
  | PolNamedNotCalled
  | PolArgumentsMismatch
  | PolResponseFailed
  | PolResponseLength
  | PolStopReasonInvalid
  | PolToolUseWithoutCall
  | PolStopWithCall
  | PolFailedWithCall
  | PolPolicyMissing

datatype model_request_policy = ModelRequestPolicy
  (visible_tool_names: "string list")
  (tool_choice: json)
  (required_capabilities: "string list")
  (allowed_tool_names: "string list")
  (expected_tool_arguments: "jdict option")
  (continuation_policy: "model_request_policy option")
  (policy_version: int)

text \<open>\<open>_names\<close>: the members of the tuple handed to the constructor.\<close>

definition jstr_text :: "json \<Rightarrow> string" where
  "jstr_text v = (case v of JStr s \<Rightarrow> s | _ \<Rightarrow> [])"

definition names :: "json list \<Rightarrow> (policy_fault, string list) result" where
  "names vs =
     bindE (guardE (list_all is_jstr vs) (Raised PolNamesNotText)) (\<lambda>_.
     let normalized = map jstr_text vs in
     bindE (guardE (list_all (\<lambda>s. s \<noteq> []) normalized) (Raised PolNamesEmpty)) (\<lambda>_.
     bindE (guardE (distinct normalized) (Raised PolNamesRepeated)) (\<lambda>_.
     Inr normalized)))"

definition json_names :: "json \<Rightarrow> (policy_fault, json list) result" where
  "json_names v = (case v of
      JList xs \<Rightarrow> if list_all is_jstr xs then Inr xs else Inl (Raised PolNamesNotArray)
    | _ \<Rightarrow> Inl (Raised PolNamesNotArray))"

definition tool_choice_of :: "json \<Rightarrow> (policy_fault, json) result" where
  "tool_choice_of v =
     (if v \<in> {JStr ''none'', JStr ''auto'', JStr ''required''} then Inr v else
      case v of
        JObj d \<Rightarrow> (if jget d ''type'' = JStr ''function'' \<and>
            (case jget d ''function'' of
               JObj f \<Rightarrow> (case jget f ''name'' of JStr n \<Rightarrow> n \<noteq> [] | _ \<Rightarrow> False) | _ \<Rightarrow> False)
          then Inr v else Inl (Raised PolChoiceNameMissing))
      | _ \<Rightarrow> Inl (Raised PolChoiceInvalid))"

text \<open>\<open>value[key]\<close> on a dict.\<close>

definition subscript :: "json \<Rightarrow> string \<Rightarrow> ('f, json) result" where
  "subscript v k = (case v of
      JObj d \<Rightarrow> (case map_of d k of None \<Rightarrow> Inl (Builtin KeyErr) | Some w \<Rightarrow> Inr w)
    | _ \<Rightarrow> Inl (Builtin TypeErr))"

definition named_tool :: "host \<Rightarrow> json \<Rightarrow> (policy_fault, string option) result" where
  "named_tool H v = (if is_jobj v
     then bindE (subscript v ''function'') (\<lambda>f. bindE (subscript f ''name'') (\<lambda>n. Inr (Some (py_str H n))))
     else Inr None)"

definition policy_arguments :: "json \<Rightarrow> (policy_fault, jdict option) result" where
  "policy_arguments v = (case v of JNull \<Rightarrow> Inr None | JObj d \<Rightarrow> Inr (Some d)
     | _ \<Rightarrow> Inl (Raised PolArgumentsNotObject))"

definition policy_post_init ::
  "host \<Rightarrow> int \<Rightarrow> json list \<Rightarrow> json \<Rightarrow> json list \<Rightarrow> json list \<Rightarrow> json \<Rightarrow> model_request_policy option
     \<Rightarrow> (policy_fault, model_request_policy) result" where
  "policy_post_init H version visible_raw choice_raw required_raw allowed_raw arguments_raw continuation =
     bindE (guardE (version = 1) (Raised PolVersionUnsupported)) (\<lambda>_.
     bindE (names visible_raw) (\<lambda>visible.
     bindE (names allowed_raw) (\<lambda>allowed.
     bindE (names required_raw) (\<lambda>required.
     bindE (guardE (set allowed \<subseteq> set visible) (Raised PolAllowedNotVisible)) (\<lambda>_.
     bindE (tool_choice_of choice_raw) (\<lambda>choice.
     bindE (named_tool H choice) (\<lambda>named.
     bindE (guardE (case named of None \<Rightarrow> True | Some n \<Rightarrow> n \<in> set visible) (Raised PolNamedNotVisible)) (\<lambda>_.
     bindE (guardE (\<not> (choice = JStr ''required'' \<and> visible = [])) (Raised PolRequiredNothingVisible)) (\<lambda>_.
     bindE (policy_arguments arguments_raw) (\<lambda>arguments.
     Inr (ModelRequestPolicy visible choice required allowed arguments continuation version)))))))))))"

primrec policy_to_dict :: "model_request_policy \<Rightarrow> json" where
  "policy_to_dict (ModelRequestPolicy vis choice req allowed args cont ver) = JObj
     [(''version'', JInt ver),
      (''visibleToolNames'', JList (map JStr vis)),
      (''toolChoice'', choice),
      (''requiredCapabilities'', JList (map JStr req)),
      (''allowedToolNames'', JList (map JStr allowed)),
      (''expectedToolArguments'', (case args of None \<Rightarrow> JNull | Some d \<Rightarrow> JObj d)),
      (''continuationPolicy'', (case map_option policy_to_dict cont of None \<Rightarrow> JNull | Some j \<Rightarrow> j))]"

function policy_from_dict :: "host \<Rightarrow> json \<Rightarrow> (policy_fault, model_request_policy) result" where
  "policy_from_dict H v = (case v of
     JObj d \<Rightarrow>
       bindE (py_int (jget_or d ''version'' (JInt 1))) (\<lambda>version.
       bindE (json_names (jget_or d ''visibleToolNames'' (JList []))) (\<lambda>visible.
       bindE (json_names (jget_or d ''requiredCapabilities'' (JList []))) (\<lambda>required.
       bindE (json_names (jget_or d ''allowedToolNames'' (JList []))) (\<lambda>allowed.
       bindE (case map_of d ''continuationPolicy'' of
                None \<Rightarrow> Inr None
              | Some c \<Rightarrow> if c = JNull then Inr None
                  else bindE (policy_from_dict H c) (\<lambda>p. Inr (Some p))) (\<lambda>continuation.
       policy_post_init H version visible (jget_or d ''toolChoice'' (JStr ''none'')) required allowed
         (jget d ''expectedToolArguments'') continuation)))))
   | _ \<Rightarrow> Inl (Raised PolNotObject))"
  by pat_completeness auto
termination by (relation "measure (\<lambda>(H, v). size v)") (auto dest: size_map_of)

declare policy_from_dict.simps [simp del]

definition no_tools :: model_request_policy where
  "no_tools = ModelRequestPolicy [] (JStr ''none'') [] [] None None 1"

section \<open>Checks of a model response\<close>

definition tool_call_blocks :: "json list \<Rightarrow> jdict list" where
  "tool_call_blocks blocks = concat (map (\<lambda>b. case b of
     JObj d \<Rightarrow> if jget d ''type'' = JStr ''toolCall'' then [d] else [] | _ \<Rightarrow> []) blocks)"

definition call_name :: "host \<Rightarrow> jdict \<Rightarrow> string" where
  "call_name H call = py_str H (jget_or call ''name'' (JStr []))"

definition tool_calls_match_expected_arguments :: "jdict list \<Rightarrow> jdict option \<Rightarrow> bool" where
  "tool_calls_match_expected_arguments calls expected = (case expected of
      None \<Rightarrow> True
    | Some e \<Rightarrow> (case calls of
         [c] \<Rightarrow> is_jobj (jget c ''arguments'') \<and> strict_json_equal (JObj e) (jget c ''arguments'')
       | _ \<Rightarrow> False))"

definition validate_model_response_policy ::
  "host \<Rightarrow> jdict \<Rightarrow> model_request_policy \<Rightarrow> (policy_fault, unit) result" where
  "validate_model_response_policy H message policy =
     bindE (py_iter (jget_or message ''content'' (JList []))) (\<lambda>blocks.
     let calls = tool_call_blocks blocks; called = map (call_name H) calls in
     bindE (guardE (list_all (\<lambda>n. n \<in> set (visible_tool_names policy)) called) (Raised PolCallNotVisible)) (\<lambda>_.
     bindE (guardE (allowed_tool_names policy = [] \<or>
              list_all (\<lambda>n. n \<in> set (allowed_tool_names policy)) called) (Raised PolCallNotAllowed)) (\<lambda>_.
     bindE (guardE (\<not> (tool_choice policy = JStr ''none'' \<and> calls \<noteq> [])) (Raised PolCallsForbidden)) (\<lambda>_.
     bindE (guardE (\<not> (tool_choice policy = JStr ''required'' \<and> calls = [])) (Raised PolCallRequired)) (\<lambda>_.
     bindE (named_tool H (tool_choice policy)) (\<lambda>named.
     bindE (guardE (case named of None \<Rightarrow> True | Some n \<Rightarrow> n \<in> set called) (Raised PolNamedNotCalled)) (\<lambda>_.
     guardE (tool_calls_match_expected_arguments calls (expected_tool_arguments policy))
       (Raised PolArgumentsMismatch))))))))"

definition model_stop_reason :: "json \<Rightarrow> (policy_fault, json) result" where
  "model_stop_reason message = (case message of
     JObj m \<Rightarrow> if jget m ''role'' \<noteq> JStr ''assistant'' then Inl (Raised PolNotAssistant)
       else (case jget m ''content'' of JList _ \<Rightarrow> Inr (jget m ''stopReason'')
             | _ \<Rightarrow> Inl (Raised PolContentNotArray))
   | _ \<Rightarrow> Inl (Raised PolNotAssistant))"

definition tool_calls_of :: "jdict \<Rightarrow> (policy_fault, jdict list) result" where
  "tool_calls_of message = (case jget_or message ''content'' (JList []) of
      JList blocks \<Rightarrow> Inr (tool_call_blocks blocks)
    | _ \<Rightarrow> Inl (Raised PolContentNotArray))"

text \<open>\<open>stop_reason in {...}\<close> raises \<open>TypeError\<close> for an unhashable value.\<close>

definition in_texts :: "json \<Rightarrow> string list \<Rightarrow> ('f, bool) result" where
  "in_texts v ts = (if hashable v then Inr (v \<in> JStr ` set ts) else Inl (Builtin TypeErr))"

definition validate_recoverable_model_response ::
  "host \<Rightarrow> json \<Rightarrow> model_request_policy \<Rightarrow> (policy_fault, unit) result" where
  "validate_recoverable_model_response H message policy =
     bindE (model_stop_reason message) (\<lambda>stop.
     bindE (in_texts stop [''error'', ''aborted'']) (\<lambda>failed.
     bindE (guardE (\<not> failed) (Raised PolResponseFailed)) (\<lambda>_.
     bindE (guardE (stop \<noteq> JStr ''length'') (Raised PolResponseLength)) (\<lambda>_.
     bindE (in_texts stop [''stop'', ''toolUse'']) (\<lambda>valid.
     bindE (guardE valid (Raised PolStopReasonInvalid)) (\<lambda>_.
     bindE (py_dict message) (\<lambda>m.
     bindE (tool_calls_of m) (\<lambda>calls.
     bindE (guardE (\<not> (stop = JStr ''toolUse'' \<and> calls = [])) (Raised PolToolUseWithoutCall)) (\<lambda>_.
     bindE (guardE (\<not> (stop = JStr ''stop'' \<and> calls \<noteq> [])) (Raised PolStopWithCall)) (\<lambda>_.
     validate_model_response_policy H m policy))))))))))"

definition validate_persisted_model_response ::
  "host \<Rightarrow> json \<Rightarrow> model_request_policy option \<Rightarrow> (policy_fault, unit) result" where
  "validate_persisted_model_response H message policy =
     bindE (model_stop_reason message) (\<lambda>stop.
     bindE (py_dict message) (\<lambda>m.
     bindE (tool_calls_of m) (\<lambda>calls.
     bindE (in_texts stop [''error'', ''aborted'']) (\<lambda>failed.
     if failed then guardE (calls = []) (Raised PolFailedWithCall)
     else (case policy of
         None \<Rightarrow> Inl (Raised PolPolicyMissing)
       | Some p \<Rightarrow> validate_recoverable_model_response H message p)))))"

section \<open>Capture\<close>

definition capture_model_request_policy ::
  "host \<Rightarrow> string list \<Rightarrow> jdict \<Rightarrow> (policy_fault, model_request_policy) result" where
  "capture_model_request_policy H visible options =
     bindE (py_iter (jget_or options ''required_capabilities'' (JList []))) (\<lambda>required.
     bindE (py_iter (jget_or options ''allowed_tool_names'' (JList []))) (\<lambda>allowed.
     bindE (let c = jget options ''recovery_continuation_policy'' in
            if c = JNull then Inr None else bindE (policy_from_dict H c) (\<lambda>p. Inr (Some p))) (\<lambda>continuation.
     policy_post_init H 1 (map JStr visible)
       (jget_or options ''tool_choice'' (JStr (if visible = [] then ''none'' else ''auto'')))
       required allowed (jget options ''expected_tool_arguments'') continuation)))"

section \<open>Valid policies\<close>

text \<open>What the constructor establishes, for a policy and all its continuations.\<close>

definition valid_names :: "string list \<Rightarrow> bool" where
  "valid_names ns \<longleftrightarrow> [] \<notin> set ns \<and> distinct ns"

primrec valid_policy :: "model_request_policy \<Rightarrow> bool" where
  "valid_policy (ModelRequestPolicy vis choice req allowed args cont ver) \<longleftrightarrow>
     ver = 1 \<and> valid_names vis \<and> valid_names req \<and> valid_names allowed \<and> set allowed \<subseteq> set vis \<and>
     (choice = JStr ''none'' \<or> choice = JStr ''auto'' \<or> choice = JStr ''required'' \<and> vis \<noteq> [] \<or>
      (\<exists>d f n. choice = JObj d \<and> jget d ''type'' = JStr ''function'' \<and> jget d ''function'' = JObj f \<and>
         jget f ''name'' = JStr n \<and> n \<noteq> [] \<and> n \<in> set vis)) \<and>
     (case map_option valid_policy cont of None \<Rightarrow> True | Some b \<Rightarrow> b)"

lemma jstr_text_JStr [simp]: "jstr_text (JStr s) = s"
  by (simp add: jstr_text_def)

lemma names_ok: "names vs = Inr ns \<longleftrightarrow> vs = map JStr ns \<and> valid_names ns"
proof -
  have "list_all is_jstr vs \<and> ns = map jstr_text vs \<longleftrightarrow> vs = map JStr ns"
  proof (induction vs arbitrary: ns)
    case (Cons v vs)
    then show ?case by (cases v; cases ns) (auto simp: jstr_text_def)
  qed auto
  then show ?thesis
    by (auto simp: names_def exc_simps Let_def valid_names_def list_all_iff)
qed

lemma json_names_ok: "json_names v = Inr xs \<longleftrightarrow> v = JList xs \<and> list_all is_jstr xs"
  by (auto simp: json_names_def split: json.splits)

lemma jget_some: "jget d k = v \<Longrightarrow> v \<noteq> JNull \<Longrightarrow> map_of d k = Some v"
  by (auto simp: jget_def split: option.splits)

lemma tool_choice_of_ok: "tool_choice_of v = Inr c \<longleftrightarrow> c = v \<and>
   (v = JStr ''none'' \<or> v = JStr ''auto'' \<or> v = JStr ''required'' \<or>
    (\<exists>d f n. v = JObj d \<and> jget d ''type'' = JStr ''function'' \<and> jget d ''function'' = JObj f \<and>
       jget f ''name'' = JStr n \<and> n \<noteq> []))"
  by (auto simp: tool_choice_of_def split: json.splits)

lemma named_tool_text [simp]: "named_tool H (JStr s) = Inr None"
  by (simp add: named_tool_def)

lemma named_tool_obj:
  assumes "jget d ''function'' = JObj f" "jget f ''name'' = JStr n"
  shows "named_tool H (JObj d) = Inr (Some n)"
  using jget_some[OF assms(1)] jget_some[OF assms(2)]
  by (simp add: named_tool_def subscript_def)

lemma policy_arguments_ok:
  "policy_arguments v = Inr a \<longleftrightarrow> v = (case a of None \<Rightarrow> JNull | Some d \<Rightarrow> JObj d)"
  by (auto simp: policy_arguments_def split: json.splits option.splits)

lemma policy_post_init_ok:
  "policy_post_init H ver vis choice req allowed args cont = Inr p \<longleftrightarrow>
   (\<exists>visn reqn alln argd. p = ModelRequestPolicy visn choice reqn alln argd cont ver \<and> ver = 1 \<and>
      vis = map JStr visn \<and> req = map JStr reqn \<and> allowed = map JStr alln \<and>
      args = (case argd of None \<Rightarrow> JNull | Some d \<Rightarrow> JObj d) \<and>
      valid_policy (ModelRequestPolicy visn choice reqn alln argd None ver))"
proof -
  have choice: "(\<exists>named. tool_choice_of choice = Inr choice \<and> named_tool H choice = Inr named \<and>
      (case named of None \<Rightarrow> True | Some n \<Rightarrow> n \<in> set visn) \<and> \<not> (choice = JStr ''required'' \<and> visn = [])) \<longleftrightarrow>
    (choice = JStr ''none'' \<or> choice = JStr ''auto'' \<or> choice = JStr ''required'' \<and> visn \<noteq> [] \<or>
      (\<exists>d f n. choice = JObj d \<and> jget d ''type'' = JStr ''function'' \<and> jget d ''function'' = JObj f \<and>
         jget f ''name'' = JStr n \<and> n \<noteq> [] \<and> n \<in> set visn))" for visn
    by (auto simp: tool_choice_of_ok named_tool_obj)
  show ?thesis (is "?L \<longleftrightarrow> ?R")
  proof
    assume ?L
    then obtain visn reqn alln argd named ch where f:
      "ver = 1" "names vis = Inr visn" "names allowed = Inr alln" "names req = Inr reqn" "set alln \<subseteq> set visn"
      "tool_choice_of choice = Inr ch" "named_tool H ch = Inr named"
      "case named of None \<Rightarrow> True | Some n \<Rightarrow> n \<in> set visn" "\<not> (ch = JStr ''required'' \<and> visn = [])"
      "policy_arguments args = Inr argd" "p = ModelRequestPolicy visn ch reqn alln argd cont ver"
      unfolding policy_post_init_def bindE_eq_Inr guardE_eq_Inr by blast
    from f(6) have "ch = choice" by (simp add: tool_choice_of_ok)
    with f choice[of visn] show ?R
      by (rule_tac x = visn in exI, rule_tac x = reqn in exI, rule_tac x = alln in exI, rule_tac x = argd in exI)
        (auto simp: names_ok policy_arguments_ok)
  next
    assume ?R
    then obtain visn reqn alln argd where g: "p = ModelRequestPolicy visn choice reqn alln argd cont ver" "ver = 1"
      "names vis = Inr visn" "names req = Inr reqn" "names allowed = Inr alln" "policy_arguments args = Inr argd"
      "set alln \<subseteq> set visn" and v: "valid_policy (ModelRequestPolicy visn choice reqn alln argd None ver)"
      by (auto simp: names_ok policy_arguments_ok)
    from v choice[of visn] obtain named where "tool_choice_of choice = Inr choice" "named_tool H choice = Inr named"
      "case named of None \<Rightarrow> True | Some n \<Rightarrow> n \<in> set visn" "\<not> (choice = JStr ''required'' \<and> visn = [])" by auto
    with g show ?L unfolding policy_post_init_def by simp
  qed
qed

lemma policy_post_init_valid:
  "policy_post_init H ver vis choice req allowed args cont = Inr p \<Longrightarrow>
   (case cont of None \<Rightarrow> True | Some c \<Rightarrow> valid_policy c) \<Longrightarrow> valid_policy p"
  by (auto simp: policy_post_init_ok split: option.splits)

lemma policy_from_dict_valid: "policy_from_dict H v = Inr p \<Longrightarrow> valid_policy p"
proof (induction H v arbitrary: p rule: policy_from_dict.induct)
  case (1 H v)
  from "1.prems" obtain d where d: "v = JObj d"
    by (auto simp: policy_from_dict.simps split: json.splits)
  from "1.prems"[unfolded d policy_from_dict.simps[of H "JObj d"]] obtain ver vis req allowed cont where
    c: "(case map_of d ''continuationPolicy'' of None \<Rightarrow> Inr None
         | Some c \<Rightarrow> if c = JNull then Inr None else bindE (policy_from_dict H c) (\<lambda>p. Inr (Some p))) = Inr cont"
    and ok: "py_int (jget_or d ''version'' (JInt 1)) = (Inr ver :: (policy_fault, int) result)"
      "json_names (jget_or d ''visibleToolNames'' (JList [])) = Inr vis"
      "json_names (jget_or d ''requiredCapabilities'' (JList [])) = Inr req"
      "json_names (jget_or d ''allowedToolNames'' (JList [])) = Inr allowed"
    and p: "policy_post_init H ver vis (jget_or d ''toolChoice'' (JStr ''none'')) req allowed
         (jget d ''expectedToolArguments'') cont = Inr p"
    by (auto simp: exc_simps)
  have "case cont of None \<Rightarrow> True | Some q \<Rightarrow> valid_policy q"
    using c "1.IH"[OF d] by (auto simp: exc_simps split: option.splits if_splits)
  with p show ?case by (rule policy_post_init_valid)
qed

lemma capture_model_request_policy_valid:
  "capture_model_request_policy H visible options = Inr p \<Longrightarrow> valid_policy p"
  unfolding capture_model_request_policy_def Let_def
  by (auto simp: exc_simps split: if_splits dest!: policy_from_dict_valid elim!: policy_post_init_valid)

section \<open>Properties\<close>

lemma policy_from_to_dict: "valid_policy p \<Longrightarrow> policy_from_dict H (policy_to_dict p) = Inr p"
proof (induction p)
  case (ModelRequestPolicy vis choice req allowed args cont ver)
  have names: "json_names (JList (map JStr ns)) = Inr (map JStr ns)" for ns
    by (simp add: json_names_ok list_all_iff)
  have obj: "policy_to_dict q \<noteq> JNull" for q by (cases q) simp
  have init: "policy_post_init H ver (map JStr vis) choice (map JStr req) (map JStr allowed)
      (case args of None \<Rightarrow> JNull | Some d \<Rightarrow> JObj d) cont = Inr (ModelRequestPolicy vis choice req allowed args cont ver)"
    using ModelRequestPolicy.prems by (auto simp: policy_post_init_ok)
  have cont: "policy_from_dict H (policy_to_dict c) = Inr c" if "cont = Some c" for c
    using ModelRequestPolicy that by simp
  show ?case using init cont
    by (cases cont; subst policy_from_dict.simps) (simp_all add: jget_or_def jget_def names obj)
qed

lemma in_texts_ok: "in_texts v ts = Inr b \<longleftrightarrow> hashable v \<and> b = (v \<in> JStr ` set ts)"
  by (auto simp: in_texts_def)

lemma persisted_response_cases:
  assumes "validate_persisted_model_response H (JObj m) pol = Inr ()"
  obtains (failed) "jget m ''stopReason'' = JStr ''error'' \<or> jget m ''stopReason'' = JStr ''aborted''"
      "tool_calls_of m = Inr []"
  | (accepted) p blocks where "pol = Some p" "jget m ''content'' = JList blocks"
      "jget m ''stopReason'' = JStr ''stop'' \<and> tool_call_blocks blocks = [] \<or>
       jget m ''stopReason'' = JStr ''toolUse'' \<and> tool_call_blocks blocks \<noteq> []"
      "validate_model_response_policy H m p = Inr ()"
proof -
  from assms obtain blocks where blocks: "jget m ''content'' = JList blocks"
    by (auto simp: validate_persisted_model_response_def model_stop_reason_def exc_simps split: json.splits if_splits)
  then have "jget_or m ''content'' (JList []) = JList blocks"
    by (auto simp: jget_def jget_or_def split: option.splits)
  then have calls: "tool_calls_of m = Inr (tool_call_blocks blocks)"
    by (simp add: tool_calls_of_def)
  show thesis
  proof (cases "jget m ''stopReason'' = JStr ''error'' \<or> jget m ''stopReason'' = JStr ''aborted''")
    case True
    with assms calls have "tool_call_blocks blocks = []"
      by (auto simp: validate_persisted_model_response_def exc_simps in_texts_ok model_stop_reason_def
          split: json.splits if_splits)
    with True calls failed show thesis by simp
  next
    case False
    with assms obtain p where p: "pol = Some p" "validate_recoverable_model_response H (JObj m) p = Inr ()"
      by (auto simp: validate_persisted_model_response_def exc_simps in_texts_ok model_stop_reason_def
          split: json.splits if_splits option.splits)
    then show thesis using accepted[OF p(1) blocks] calls
      by (auto simp: validate_recoverable_model_response_def exc_simps in_texts_ok model_stop_reason_def
          split: json.splits if_splits)
  qed
qed

text \<open>
  A policy that the constructor, the parser or the capture produced survives
  persistence: parsing its dictionary form gives the same policy, with all its continuations, and
  an absent argument constraint stays distinct from an empty one.
\<close>

theorem policy_roundtrip:
  assumes "capture_model_request_policy H visible options = Inr p \<or> policy_from_dict H v = Inr p"
  shows "policy_from_dict H (policy_to_dict p) = Inr p"
  using assms by (blast intro: policy_from_to_dict policy_from_dict_valid capture_model_request_policy_valid)

definition sample_policy_host :: host where
  "sample_policy_host = \<lparr>sha256_hex = (\<lambda>s. s), repr_of = (\<lambda>_. ''float''), read_float = (\<lambda>_. FNan)\<rparr>"

definition sample_options :: jdict where
  "sample_options =
     [(''tool_choice'', JObj [(''type'', JStr ''function''), (''function'', JObj [(''name'', JStr ''read'')])]),
      (''allowed_tool_names'', JList [JStr ''read'']),
      (''expected_tool_arguments'', JObj []),
      (''recovery_continuation_policy'', JObj [(''version'', JInt 1), (''visibleToolNames'', JList [JStr ''write'']),
          (''toolChoice'', JStr ''auto'')])]"

definition sample_policy :: model_request_policy where
  "sample_policy = ModelRequestPolicy [''read'', ''write'']
     (JObj [(''type'', JStr ''function''), (''function'', JObj [(''name'', JStr ''read'')])])
     [] [''read''] (Some []) (Some (ModelRequestPolicy [''write''] (JStr ''auto'') [] [] None None 1)) 1"

lemma sample_capture:
  "capture_model_request_policy sample_policy_host [''read'', ''write''] sample_options = Inr sample_policy"
  by code_simp

theorem policy_roundtrip_witness:
  "policy_from_dict sample_policy_host (policy_to_dict sample_policy) = Inr sample_policy"
  by (rule policy_roundtrip[OF disjI1[OF sample_capture]])

definition message_calls :: "jdict \<Rightarrow> jdict list" where
  "message_calls m = (case jget m ''content'' of JList blocks \<Rightarrow> tool_call_blocks blocks | _ \<Rightarrow> [])"

lemma validate_model_response_policy_ok:
  assumes "jget m ''content'' = JList blocks"
  shows "validate_model_response_policy H m p = Inr () \<longleftrightarrow>
    (\<forall>c \<in> set (tool_call_blocks blocks). call_name H c \<in> set (visible_tool_names p) \<and>
       (allowed_tool_names p = [] \<or> call_name H c \<in> set (allowed_tool_names p))) \<and>
    (tool_choice p = JStr ''none'' \<longrightarrow> tool_call_blocks blocks = []) \<and>
    (tool_choice p = JStr ''required'' \<longrightarrow> tool_call_blocks blocks \<noteq> []) \<and>
    (\<exists>named. named_tool H (tool_choice p) = Inr named \<and>
       (\<forall>n. named = Some n \<longrightarrow> (\<exists>c \<in> set (tool_call_blocks blocks). call_name H c = n))) \<and>
    tool_calls_match_expected_arguments (tool_call_blocks blocks) (expected_tool_arguments p)"
proof -
  from assms have "jget_or m ''content'' (JList []) = JList blocks"
    by (auto simp: jget_def jget_or_def split: option.splits)
  then show ?thesis
    by (cases "named_tool H (tool_choice p)")
      (auto simp: validate_model_response_policy_def exc_simps Let_def list_all_iff split: option.splits)
qed

text \<open>
  A tool call can only be taken from a replayed model response if the policy of that very
  request is present and permits it: the response is a tool-use response, the tool is visible
  and, where the policy lists allowed tools, allowed, calls were not forbidden, and where the
  policy fixes the arguments the call is the only one and its arguments print the same canonical
  text as the approved ones.
\<close>

theorem persisted_calls_permitted:
  assumes "validate_persisted_model_response H (JObj m) pol = Inr ()"
    and "c \<in> set (message_calls m)"
  shows "\<exists>p. pol = Some p \<and> jget m ''stopReason'' = JStr ''toolUse'' \<and>
    call_name H c \<in> set (visible_tool_names p) \<and>
    (allowed_tool_names p = [] \<or> call_name H c \<in> set (allowed_tool_names p)) \<and>
    tool_choice p \<noteq> JStr ''none'' \<and>
    (\<forall>e. expected_tool_arguments p = Some e \<longrightarrow> wf_json (JObj e) \<longrightarrow> wf_json (jget c ''arguments'') \<longrightarrow>
      message_calls m = [c] \<and> json_dumps H True (jget c ''arguments'') = json_dumps H True (JObj e))"
  using assms(1)
proof (cases rule: persisted_response_cases)
  case failed
  with assms(2) have False
    by (auto simp: message_calls_def tool_calls_of_def jget_def jget_or_def split: option.splits json.splits)
  then show ?thesis ..
next
  case (accepted p blocks)
  then have calls: "message_calls m = tool_call_blocks blocks" by (simp add: message_calls_def)
  from accepted(4) have ok: "\<forall>c \<in> set (message_calls m). call_name H c \<in> set (visible_tool_names p) \<and>
       (allowed_tool_names p = [] \<or> call_name H c \<in> set (allowed_tool_names p))"
    "tool_choice p = JStr ''none'' \<longrightarrow> message_calls m = []"
    "tool_calls_match_expected_arguments (message_calls m) (expected_tool_arguments p)"
    unfolding validate_model_response_policy_ok[OF accepted(2)] calls by blast+
  have args: "message_calls m = [c] \<and> json_dumps H True (jget c ''arguments'') = json_dumps H True (JObj e)"
    if e: "expected_tool_arguments p = Some e" "wf_json (JObj e)" "wf_json (jget c ''arguments'')" for e
  proof -
    from ok(3) e(1) assms(2) have "message_calls m = [c]" "strict_json_equal (JObj e) (jget c ''arguments'')"
      by (auto simp: tool_calls_match_expected_arguments_def split: list.splits)
    with strict_json_equal_dumps[OF e(2,3)] show ?thesis by simp
  qed
  from accepted(3) assms(2) calls have "jget m ''stopReason'' = JStr ''toolUse''" by auto
  with ok assms(2) accepted(1) args show ?thesis by (intro exI[of _ p]) auto
qed

definition sample_response :: jdict where
  "sample_response = [(''role'', JStr ''assistant''), (''stopReason'', JStr ''toolUse''),
     (''content'', JList [JObj [(''type'', JStr ''text'')],
        JObj [(''type'', JStr ''toolCall''), (''id'', JStr ''1''), (''name'', JStr ''read''), (''arguments'', JObj [])]])]"

lemma sample_response_accepted:
  "validate_persisted_model_response sample_policy_host (JObj sample_response) (Some sample_policy) = Inr ()"
  by code_simp

theorem persisted_calls_permitted_witness:
  "\<exists>c p. message_calls sample_response = [c] \<and> Some sample_policy = Some p \<and>
     call_name sample_policy_host c \<in> set (visible_tool_names p) \<and> tool_choice p \<noteq> JStr ''none''"
proof -
  have calls: "message_calls sample_response =
      [[(''type'', JStr ''toolCall''), (''id'', JStr ''1''), (''name'', JStr ''read''), (''arguments'', JObj [])]]"
    by code_simp
  then have "hd (message_calls sample_response) \<in> set (message_calls sample_response)" by simp
  from persisted_calls_permitted[OF sample_response_accepted this] calls show ?thesis by auto
qed

text \<open>
  A replayed response that is not a failure satisfies the tool choice of a valid policy:
  a required choice gets at least one call, and a named choice gets a call of the named tool.
\<close>

theorem persisted_choice_honoured:
  assumes "validate_persisted_model_response H (JObj m) (Some p) = Inr ()" and "valid_policy p"
    and "jget m ''stopReason'' \<noteq> JStr ''error''" "jget m ''stopReason'' \<noteq> JStr ''aborted''"
  shows "(tool_choice p = JStr ''required'' \<longrightarrow> message_calls m \<noteq> []) \<and>
    (\<forall>d f n. tool_choice p = JObj d \<longrightarrow> jget d ''function'' = JObj f \<longrightarrow> jget f ''name'' = JStr n \<longrightarrow>
       (\<exists>c \<in> set (message_calls m). call_name H c = n \<and> n \<in> set (visible_tool_names p)))"
  using assms(1)
proof (cases rule: persisted_response_cases)
  case failed
  with assms(3,4) show ?thesis by simp
next
  case (accepted q blocks)
  then have calls: "message_calls m = tool_call_blocks blocks" and q: "q = p"
    by (simp_all add: message_calls_def)
  from accepted(4) show ?thesis
    unfolding validate_model_response_policy_ok[OF accepted(2)] calls q
    by (auto simp: named_tool_obj)
qed

theorem persisted_choice_honoured_witness:
  "\<exists>c \<in> set (message_calls sample_response). call_name sample_policy_host c = ''read''"
proof -
  have v: "valid_policy sample_policy" by (rule capture_model_request_policy_valid[OF sample_capture])
  have r: "jget sample_response ''stopReason'' \<noteq> JStr ''error''" "jget sample_response ''stopReason'' \<noteq> JStr ''aborted''"
    by code_simp+
  have f: "tool_choice sample_policy = JObj [(''type'', JStr ''function''), (''function'', JObj [(''name'', JStr ''read'')])]"
    "jget [(''type'', JStr ''function''), (''function'', JObj [(''name'', JStr ''read'')])] ''function'' = JObj [(''name'', JStr ''read'')]"
    "jget [(''name'', JStr ''read'')] ''name'' = JStr ''read''"
    by code_simp+
  from persisted_choice_honoured[OF sample_response_accepted v r] f show ?thesis by blast
qed

end
