(* ===== verification/Transcript.thy ===== *)
theory Transcript
  imports Agent_Prelude "HOL-Library.Sublist"
begin

text \<open>
  Pairing of tool calls and tool results in a transcript (\<open>transcript.py\<close>): the analysis that
  refuses duplicate and orphan entries and collects unresolved calls, the repair that
  writes a synthetic error result for each of them, the check that a transcript is
  closed, and the removal of tool calls from failed assistant messages. The clock behind
  \<open>now_ms()\<close> is a parameter: the time read for the \<open>n\<close>-th synthetic result.
\<close>

section \<open>Analysis\<close>

datatype transcript_fault =
    InvalidToolCall
  | DuplicateToolCallId
  | DuplicateToolResult
  | OrphanToolResult
  | ToolNameMismatch
  | UnresolvedToolCalls

record unresolved_tool_call =
  uc_tool_call_id :: string
  uc_tool_name :: string
  uc_assistant_index :: nat

record transcript_scan =
  ts_pending :: "(string, unresolved_tool_call) dict"
  ts_seen_calls :: "string set"
  ts_seen_results :: "string set"
  ts_unresolved :: "unresolved_tool_call list"

definition scan_start :: transcript_scan where
  "scan_start = \<lparr>ts_pending = [], ts_seen_calls = {}, ts_seen_results = {}, ts_unresolved = []\<rparr>"

definition is_tool_call_block :: "json \<Rightarrow> bool" where
  "is_tool_call_block v = (case v of JObj b \<Rightarrow> jget b ''type'' = JStr ''toolCall'' | _ \<Rightarrow> False)"

definition block_dict :: "json \<Rightarrow> jdict" where
  "block_dict v = (case v of JObj b \<Rightarrow> b | _ \<Rightarrow> [])"

definition text_or_empty :: "host \<Rightarrow> jdict \<Rightarrow> string \<Rightarrow> string" where
  "text_or_empty H d k = py_str H (jget_or d k (JStr ''''))"

definition scan_block ::
  "host \<Rightarrow> nat \<Rightarrow> json \<Rightarrow> transcript_scan \<Rightarrow> (transcript_fault, transcript_scan) result" where
  "scan_block H index block st =
     (if \<not> is_tool_call_block block then Inr st
      else let call_id = text_or_empty H (block_dict block) ''id'';
               name = text_or_empty H (block_dict block) ''name''
           in if call_id = [] \<or> name = [] then Inl (Raised InvalidToolCall)
              else if call_id \<in> ts_seen_calls st then Inl (Raised DuplicateToolCallId)
              else Inr (st\<lparr>ts_seen_calls := insert call_id (ts_seen_calls st),
                           ts_pending := dset (ts_pending st) call_id
                             \<lparr>uc_tool_call_id = call_id, uc_tool_name = name, uc_assistant_index = index\<rparr>\<rparr>))"

definition scan_tool_result ::
  "host \<Rightarrow> jdict \<Rightarrow> transcript_scan \<Rightarrow> (transcript_fault, transcript_scan) result" where
  "scan_tool_result H message st =
     (let call_id = text_or_empty H message ''toolCallId'' in
      if call_id \<in> ts_seen_results st then Inl (Raised DuplicateToolResult)
      else case map_of (ts_pending st) call_id of
        None \<Rightarrow> Inl (Raised OrphanToolResult)
      | Some expected \<Rightarrow>
          if text_or_empty H message ''toolName'' \<noteq> uc_tool_name expected then Inl (Raised ToolNameMismatch)
          else Inr (st\<lparr>ts_seen_results := insert call_id (ts_seen_results st),
                       ts_pending := dpop (ts_pending st) call_id\<rparr>))"

definition scan_flush :: "jdict \<Rightarrow> transcript_scan \<Rightarrow> transcript_scan" where
  "scan_flush message st =
     (if jget message ''role'' \<noteq> JStr ''toolResult'' \<and> ts_pending st \<noteq> []
      then st\<lparr>ts_unresolved := ts_unresolved st @ dvalues (ts_pending st), ts_pending := []\<rparr> else st)"

definition scan_message ::
  "host \<Rightarrow> nat \<times> jdict \<Rightarrow> transcript_scan \<Rightarrow> (transcript_fault, transcript_scan) result" where
  "scan_message H im st =
     (let index = fst im; message = snd im; st = scan_flush message st in
      if jget message ''role'' = JStr ''assistant'' then
        bindE (py_iter (jget_or message ''content'' (JList []))) (\<lambda>blocks. foldE (scan_block H index) blocks st)
      else if jget message ''role'' = JStr ''toolResult'' then scan_tool_result H message st
      else Inr st)"

definition analyze_tool_call_transcript ::
  "host \<Rightarrow> jdict list \<Rightarrow> (transcript_fault, unresolved_tool_call list) result" where
  "analyze_tool_call_transcript H messages =
     bindE (foldE (scan_message H) (List.enumerate 0 messages) scan_start) (\<lambda>st.
       Inr (ts_unresolved st @ dvalues (ts_pending st)))"

definition validate_closed_tool_call_transcript :: "host \<Rightarrow> jdict list \<Rightarrow> (transcript_fault, unit) result" where
  "validate_closed_tool_call_transcript H messages =
     bindE (analyze_tool_call_transcript H messages) (\<lambda>unresolved.
       guardE (unresolved = []) (Raised UnresolvedToolCalls))"

section \<open>Repair\<close>

definition synthetic_tool_result :: "string \<Rightarrow> string \<Rightarrow> string \<Rightarrow> string \<Rightarrow> int \<Rightarrow> jdict" where
  "synthetic_tool_result tool_call_id tool_name code msg now =
     [(''role'', JStr ''toolResult''),
      (''toolCallId'', JStr tool_call_id),
      (''toolName'', JStr tool_name),
      (''content'', JList [JObj [(''type'', JStr ''text''), (''text'', JStr msg)]]),
      (''details'', JObj [(''code'', JStr code), (''synthetic'', JBool True)]),
      (''isError'', JBool True),
      (''timestamp'', JInt now)]"

record repair_state =
  rp_output :: "jdict list"
  rp_inserted :: "jdict list"
  rp_pending :: "(string, string \<times> nat) dict"

definition close_one ::
  "(nat \<Rightarrow> int) \<Rightarrow> string \<Rightarrow> string \<Rightarrow> string \<times> string \<times> nat \<Rightarrow> repair_state \<Rightarrow> repair_state" where
  "close_one clock code msg p st =
     (let r = synthetic_tool_result (fst p) (fst (snd p)) code msg (clock (length (rp_inserted st)))
      in st\<lparr>rp_output := rp_output st @ [r], rp_inserted := rp_inserted st @ [r]\<rparr>)"

definition close_pending ::
  "(nat \<Rightarrow> int) \<Rightarrow> string \<Rightarrow> string \<Rightarrow> repair_state \<Rightarrow> repair_state" where
  "close_pending clock code msg st =
     (fold (close_one clock code msg) (rp_pending st) st)\<lparr>rp_pending := []\<rparr>"

definition repair_block ::
  "host \<Rightarrow> nat \<Rightarrow> json \<Rightarrow> repair_state \<Rightarrow> (transcript_fault, repair_state) result" where
  "repair_block H index block st =
     (if \<not> is_tool_call_block block then Inr st
      else case (map_of (block_dict block) ''id'', map_of (block_dict block) ''name'') of
        (Some i, Some n) \<Rightarrow> Inr (st\<lparr>rp_pending := dset (rp_pending st) (py_str H i) (py_str H n, index)\<rparr>)
      | _ \<Rightarrow> Inl (Builtin KeyErr))"

definition repair_message ::
  "host \<Rightarrow> (nat \<Rightarrow> int) \<Rightarrow> string \<Rightarrow> string \<Rightarrow> nat \<times> jdict \<Rightarrow> repair_state
    \<Rightarrow> (transcript_fault, repair_state) result" where
  "repair_message H clock code msg im st =
     (let index = fst im; message = snd im; role = jget message ''role'';
          st = (if role \<noteq> JStr ''toolResult'' \<and> rp_pending st \<noteq> [] then close_pending clock code msg st else st);
          st = st\<lparr>rp_output := rp_output st @ [message]\<rparr> in
      if role = JStr ''assistant'' then
        bindE (py_iter (jget_or message ''content'' (JList []))) (\<lambda>blocks. foldE (repair_block H index) blocks st)
      else if role = JStr ''toolResult'' then
        Inr (st\<lparr>rp_pending := dpop (rp_pending st) (text_or_empty H message ''toolCallId'')\<rparr>)
      else Inr st)"

definition repair_unresolved_tool_calls ::
  "host \<Rightarrow> (nat \<Rightarrow> int) \<Rightarrow> string \<Rightarrow> string \<Rightarrow> jdict list
    \<Rightarrow> (transcript_fault, jdict list \<times> jdict list) result" where
  "repair_unresolved_tool_calls H clock code msg messages =
     bindE (analyze_tool_call_transcript H messages) (\<lambda>_.
     bindE (foldE (repair_message H clock code msg) (List.enumerate 0 messages)
              \<lparr>rp_output = [], rp_inserted = [], rp_pending = []\<rparr>) (\<lambda>st.
     let st = (if rp_pending st \<noteq> [] then close_pending clock code msg st else st) in
     Inr (rp_output st, rp_inserted st)))"

definition sanitize_terminal_assistant_tool_calls :: "jdict \<Rightarrow> (transcript_fault, jdict) result" where
  "sanitize_terminal_assistant_tool_calls message =
     (if jget message ''role'' \<noteq> JStr ''assistant'' then Inr message
      else if \<not> hashable (jget message ''stopReason'') then Inl (Builtin TypeErr)
      else if jget message ''stopReason'' \<notin> {JStr ''error'', JStr ''aborted''} then Inr message
      else bindE (py_iter (jget_or message ''content'' (JList []))) (\<lambda>blocks.
        Inr (dset message ''content'' (JList (filter (\<lambda>b. \<not> is_tool_call_block b) blocks)))))"

section \<open>What a successful scan guarantees\<close>

definition scan_inv :: "transcript_scan \<Rightarrow> bool" where
  "scan_inv st \<longleftrightarrow> wf_dict (ts_pending st) \<and> ts_seen_results st \<subseteq> ts_seen_calls st \<and>
     (\<forall>k u. map_of (ts_pending st) k = Some u \<longrightarrow>
        uc_tool_call_id u = k \<and> k \<in> ts_seen_calls st \<and> k \<notin> ts_seen_results st)"

lemma scan_inv_start [simp]: "scan_inv scan_start"
  by (simp add: scan_inv_def scan_start_def)

lemma scan_block_cases:
  assumes "scan_block H i b st = Inr st'"
  obtains (skip) "\<not> is_tool_call_block b" "st' = st"
  | (add) "is_tool_call_block b"
      "text_or_empty H (block_dict b) ''id'' \<noteq> []" "text_or_empty H (block_dict b) ''name'' \<noteq> []"
      "text_or_empty H (block_dict b) ''id'' \<notin> ts_seen_calls st"
      "st' = st\<lparr>ts_seen_calls := insert (text_or_empty H (block_dict b) ''id'') (ts_seen_calls st),
               ts_pending := dset (ts_pending st) (text_or_empty H (block_dict b) ''id'')
                 \<lparr>uc_tool_call_id = text_or_empty H (block_dict b) ''id'',
                  uc_tool_name = text_or_empty H (block_dict b) ''name'', uc_assistant_index = i\<rparr>\<rparr>"
  using assms by (auto simp: scan_block_def Let_def split: if_splits)

lemma scan_inv_block: "scan_block H i b st = Inr st' \<Longrightarrow> scan_inv st \<Longrightarrow> scan_inv st'"
  by (erule scan_block_cases) (auto simp: scan_inv_def split: if_splits)

lemma scan_inv_flush: "scan_inv st \<Longrightarrow> scan_inv (scan_flush m st)"
  by (auto simp: scan_inv_def scan_flush_def)

lemma scan_tool_result_ok:
  "scan_tool_result H m st = Inr st' \<longleftrightarrow>
     text_or_empty H m ''toolCallId'' \<notin> ts_seen_results st \<and>
     (\<exists>u. map_of (ts_pending st) (text_or_empty H m ''toolCallId'') = Some u \<and>
        text_or_empty H m ''toolName'' = uc_tool_name u) \<and>
     st' = st\<lparr>ts_seen_results := insert (text_or_empty H m ''toolCallId'') (ts_seen_results st),
              ts_pending := dpop (ts_pending st) (text_or_empty H m ''toolCallId'')\<rparr>"
  by (auto simp: scan_tool_result_def Let_def split: option.splits if_splits)

lemma scan_inv_tool_result:
  "scan_tool_result H m st = Inr st' \<Longrightarrow> scan_inv st \<Longrightarrow> scan_inv st'"
  by (auto simp: scan_tool_result_ok scan_inv_def split: if_splits)

lemma scan_inv_message: "scan_message H im st = Inr st' \<Longrightarrow> scan_inv st \<Longrightarrow> scan_inv st'"
  by (auto simp: scan_message_def Let_def exc_simps intro: scan_inv_flush scan_inv_tool_result
      elim!: foldE_invariant[where I = scan_inv] dest: scan_inv_block split: if_splits)

definition runs :: "host \<Rightarrow> jdict list \<Rightarrow> transcript_scan \<Rightarrow> bool" where
  "runs H ms st \<longleftrightarrow> foldE (scan_message H) (List.enumerate 0 ms) scan_start = Inr st"

lemma runs_Nil [simp]: "runs H [] st \<longleftrightarrow> st = scan_start"
  by (auto simp: runs_def)

lemma runs_snoc:
  "runs H (ms @ [m]) st' \<longleftrightarrow> (\<exists>st. runs H ms st \<and> scan_message H (length ms, m) st = Inr st')"
  by (auto simp: runs_def enumerate_append_eq foldE_append exc_simps)

lemma runs_inv: "runs H ms st \<Longrightarrow> scan_inv st"
  by (induction ms arbitrary: st rule: rev_induct) (auto simp: runs_snoc intro: scan_inv_message)

section \<open>Repair closes the transcript\<close>

definition pnames :: "transcript_scan \<Rightarrow> (string \<times> string) list" where
  "pnames st = map (\<lambda>(k, u). (k, uc_tool_name u)) (ts_pending st)"

definition rnames :: "repair_state \<Rightarrow> (string \<times> string) list" where
  "rnames R = map (\<lambda>(k, n, i). (k, n)) (rp_pending R)"

fun synths :: "(nat \<Rightarrow> int) \<Rightarrow> string \<Rightarrow> string \<Rightarrow> nat \<Rightarrow> (string \<times> string \<times> nat) list \<Rightarrow> jdict list" where
  "synths clock code msg j [] = []"
| "synths clock code msg j ((k, n, i) # ps) =
     synthetic_tool_result k n code msg (clock j) # synths clock code msg (Suc j) ps"

lemma fold_close_one:
  "fold (close_one clock code msg) ps R =
     R\<lparr>rp_output := rp_output R @ synths clock code msg (length (rp_inserted R)) ps,
       rp_inserted := rp_inserted R @ synths clock code msg (length (rp_inserted R)) ps\<rparr>"
  by (induction ps arbitrary: R) (auto simp: close_one_def Let_def)

lemma close_pending_eq:
  "close_pending clock code msg R =
     R\<lparr>rp_output := rp_output R @ synths clock code msg (length (rp_inserted R)) (rp_pending R),
       rp_inserted := rp_inserted R @ synths clock code msg (length (rp_inserted R)) (rp_pending R),
       rp_pending := []\<rparr>"
  by (simp add: close_pending_def fold_close_one)

lemma synthetic_fields [simp]:
  "jget (synthetic_tool_result k n c t w) ''role'' = JStr ''toolResult''"
  "text_or_empty H (synthetic_tool_result k n c t w) ''toolCallId'' = k"
  "text_or_empty H (synthetic_tool_result k n c t w) ''toolName'' = n"
  "jget (synthetic_tool_result k n c t w) ''toolCallId'' = JStr k"
  by (simp_all add: synthetic_tool_result_def jget_def jget_or_def text_or_empty_def)

lemma scan_synthetic:
  assumes "map_of (ts_pending st) k = Some u" "uc_tool_name u = n" "k \<notin> ts_seen_results st"
  shows "scan_message H (i, synthetic_tool_result k n c t w) st =
    Inr (st\<lparr>ts_seen_results := insert k (ts_seen_results st), ts_pending := dpop (ts_pending st) k\<rparr>)"
  using assms by (auto simp: scan_message_def scan_flush_def scan_tool_result_ok)

lemma close_scan:
  "runs H ms B \<Longrightarrow> map (\<lambda>(k, n, i). (k, n)) ps = pnames B \<Longrightarrow>
   runs H (ms @ synths clock code msg j ps)
     (B\<lparr>ts_seen_results := ts_seen_results B \<union> set (map fst ps), ts_pending := []\<rparr>)"
proof (induction ps arbitrary: ms B j)
  case Nil
  then have "ts_pending B = []" by (simp add: pnames_def)
  then have "B\<lparr>ts_seen_results := ts_seen_results B, ts_pending := []\<rparr> = B" by simp
  with Nil show ?case by simp
next
  case (Cons p ps)
  obtain k n i where p: "p = (k, n, i)" by (cases p)
  obtain u rest where pend: "ts_pending B = (k, u) # rest" and n: "uc_tool_name u = n"
    and rest: "map (\<lambda>(k, n, i). (k, n)) ps = map (\<lambda>(k, u). (k, uc_tool_name u)) rest"
    using Cons.prems(2) p by (auto simp: pnames_def)
  have inv: "scan_inv B" using Cons.prems(1) by (rule runs_inv)
  have look: "map_of (ts_pending B) k = Some u" using pend by simp
  with inv have "k \<notin> ts_seen_results B" by (simp add: scan_inv_def)
  have pop: "dpop (ts_pending B) k = rest"
    using inv pend by (auto simp: scan_inv_def wf_dict_def dpop_def filter_id_conv)
  let ?B1 = "B\<lparr>ts_seen_results := insert k (ts_seen_results B), ts_pending := rest\<rparr>"
  let ?m = "synthetic_tool_result k n code msg (clock j)"
  have "scan_message H (length ms, ?m) B = Inr ?B1"
    using scan_synthetic[OF look n \<open>k \<notin> ts_seen_results B\<close>] by (simp add: pop)
  with Cons.prems(1) have r1: "runs H (ms @ [?m]) ?B1"
    by (auto simp: runs_snoc)
  have "runs H ((ms @ [?m]) @ synths clock code msg (Suc j) ps)
     (?B1\<lparr>ts_seen_results := ts_seen_results ?B1 \<union> set (map fst ps), ts_pending := []\<rparr>)"
    by (rule Cons.IH[OF r1]) (simp add: pnames_def rest)
  then show ?case by (simp add: p)
qed

definition rsim :: "host \<Rightarrow> transcript_scan \<Rightarrow> repair_state \<Rightarrow> transcript_scan \<Rightarrow> bool" where
  "rsim H A R B \<longleftrightarrow> ts_unresolved B = [] \<and> pnames B = pnames A \<and> rnames R = pnames A \<and>
     ts_seen_calls B = ts_seen_calls A \<and> scan_inv A \<and> scan_inv B \<and>
     map (\<lambda>m. jget m ''toolCallId'') (rp_inserted R) = map (\<lambda>u. JStr (uc_tool_call_id u)) (ts_unresolved A)"

lemma pnames_keys: "map fst (pnames st) = dkeys (ts_pending st)"
  by (auto simp: pnames_def)

lemma rnames_keys: "map fst (rnames R) = dkeys (rp_pending R)"
  by (auto simp: rnames_def)

lemma not_pending: "k \<notin> ts_seen_calls st \<Longrightarrow> scan_inv st \<Longrightarrow> map_of (ts_pending st) k = None"
  by (cases "map_of (ts_pending st) k") (auto simp: scan_inv_def)

lemma text_or_empty_present:
  "text_or_empty H d k \<noteq> [] \<Longrightarrow> \<exists>v. map_of d k = Some v \<and> py_str H v = text_or_empty H d k"
  by (auto simp: text_or_empty_def jget_or_def split: option.splits)

lemma rsim_block:
  assumes sim: "rsim H A R B" and step: "scan_block H i b A = Inr A'"
  shows "\<exists>R' B'. repair_block H i b R = Inr R' \<and> scan_block H j b B = Inr B' \<and> rsim H A' R' B' \<and>
    rp_output R' = rp_output R \<and> ts_unresolved A' = ts_unresolved A"
  using step
proof (cases rule: scan_block_cases)
  case skip
  with sim show ?thesis by (simp add: repair_block_def scan_block_def)
next
  case add
  let ?k = "text_or_empty H (block_dict b) ''id''" and ?n = "text_or_empty H (block_dict b) ''name''"
  from sim add(4) have seenB: "?k \<notin> ts_seen_calls B" by (simp add: rsim_def)
  have pA: "map_of (ts_pending A) ?k = None" using sim add(4) by (auto simp: rsim_def intro: not_pending)
  have pB: "map_of (ts_pending B) ?k = None" using sim seenB by (auto simp: rsim_def intro: not_pending)
  have "dkeys (rp_pending R) = dkeys (ts_pending A)"
    using sim by (metis rsim_def pnames_keys rnames_keys)
  then have pR: "map_of (rp_pending R) ?k = None" using pA by (metis map_of_eq_None_iff set_map)
  obtain vi vn where v: "map_of (block_dict b) ''id'' = Some vi" "py_str H vi = ?k"
      "map_of (block_dict b) ''name'' = Some vn" "py_str H vn = ?n"
    using text_or_empty_present[OF add(2)] text_or_empty_present[OF add(3)] by auto
  let ?R' = "R\<lparr>rp_pending := dset (rp_pending R) ?k (?n, i)\<rparr>"
  let ?B' = "B\<lparr>ts_seen_calls := insert ?k (ts_seen_calls B), ts_pending := dset (ts_pending B) ?k
       \<lparr>uc_tool_call_id = ?k, uc_tool_name = ?n, uc_assistant_index = j\<rparr>\<rparr>"
  have rb: "repair_block H i b R = Inr ?R'" using add(1) v by (simp add: repair_block_def)
  have sb: "scan_block H j b B = Inr ?B'" using add seenB by (simp add: scan_block_def Let_def)
  have "scan_inv A'" "scan_inv ?B'"
    using sim scan_inv_block[OF step] scan_inv_block[OF sb] by (auto simp: rsim_def)
  moreover have "pnames A' = pnames A @ [(?k, ?n)]" "pnames ?B' = pnames B @ [(?k, ?n)]"
      "rnames ?R' = rnames R @ [(?k, ?n)]"
    using pA pB pR by (simp_all add: add(5) pnames_def rnames_def dset_new)
  ultimately have "rsim H A' ?R' ?B'" using sim by (simp add: rsim_def add(5))
  with rb sb show ?thesis by (auto simp: add(5))
qed

lemma rsim_blocks:
  assumes "rsim H A R B" "foldE (scan_block H i) bs A = Inr A'"
  shows "\<exists>R' B'. foldE (repair_block H i) bs R = Inr R' \<and> foldE (scan_block H j) bs B = Inr B' \<and>
    rsim H A' R' B' \<and> rp_output R' = rp_output R"
  using assms
proof (induction bs arbitrary: A R B)
  case (Cons b bs)
  then obtain A1 where A1: "scan_block H i b A = Inr A1" "foldE (scan_block H i) bs A1 = Inr A'"
    by (auto simp: exc_simps)
  from rsim_block[OF Cons.prems(1) A1(1)] obtain R1 B1 where
    1: "repair_block H i b R = Inr R1" "scan_block H j b B = Inr B1" "rsim H A1 R1 B1" "rp_output R1 = rp_output R"
    by blast
  from Cons.IH[OF 1(3) A1(2)] 1 show ?case by auto
qed simp

lemma rnames_dpop: "rnames (R\<lparr>rp_pending := dpop (rp_pending R) k\<rparr>) = dpop (rnames R) k"
  unfolding rnames_def dpop_def repair_state.simps by (induction "rp_pending R" rule: list.induct)
    (auto simp: dpop_def filter_map o_def case_prod_beta)

lemma pnames_dpop:
  "pnames (st\<lparr>ts_seen_results := S, ts_pending := dpop (ts_pending st) k\<rparr>) = dpop (pnames st) k"
  by (auto simp: pnames_def dpop_def filter_map o_def case_prod_beta)

lemma synths_ids:
  "map (\<lambda>m. jget m ''toolCallId'') (synths clock code msg j ps) = map (\<lambda>p. JStr (fst p)) ps"
  by (induction ps arbitrary: j) auto

lemma pending_ids:
  "scan_inv st \<Longrightarrow> map (\<lambda>u. JStr (uc_tool_call_id u)) (dvalues (ts_pending st)) = map (\<lambda>p. JStr (fst p)) (ts_pending st)"
  by (auto simp: scan_inv_def ditems_iff)

lemma rnames_ids: "map (\<lambda>p. JStr (fst p)) (rp_pending R) = map (\<lambda>p. JStr (fst p)) (rnames R)"
  and pnames_ids: "map (\<lambda>p. JStr (fst p)) (ts_pending st) = map (\<lambda>p. JStr (fst p)) (pnames st)"
  by (auto simp: rnames_def pnames_def)

lemma rsim_close:
  fixes clock :: "nat \<Rightarrow> int" and code msg :: string
  assumes sim: "rsim H A R B" and run: "runs H (rp_output R) B"
  defines "R1 \<equiv> close_pending clock code msg R"
  shows "\<exists>B1. runs H (rp_output R1) B1 \<and> ts_pending B1 = [] \<and>
    rsim H (A\<lparr>ts_unresolved := ts_unresolved A @ dvalues (ts_pending A), ts_pending := []\<rparr>) R1 B1"
proof -
  let ?B1 = "B\<lparr>ts_seen_results := ts_seen_results B \<union> set (map fst (rp_pending R)), ts_pending := []\<rparr>"
  have run1: "runs H (rp_output R1) ?B1"
    using close_scan[OF run, of "rp_pending R"] sim
    by (simp add: R1_def close_pending_eq rsim_def rnames_def)
  have "map (\<lambda>u. JStr (uc_tool_call_id u)) (dvalues (ts_pending A)) = map (\<lambda>p. JStr (fst p)) (rp_pending R)"
    using sim by (simp only: rsim_def pending_ids rnames_ids pnames_ids)
  then have "rsim H (A\<lparr>ts_unresolved := ts_unresolved A @ dvalues (ts_pending A), ts_pending := []\<rparr>) R1 ?B1"
    using sim runs_inv[OF run1]
    by (simp add: rsim_def R1_def close_pending_eq pnames_def rnames_def synths_ids scan_inv_def)
  with run1 show ?thesis by (intro exI[of _ ?B1]) simp
qed

lemma rsim_flush:
  fixes clock :: "nat \<Rightarrow> int" and code msg :: string and m :: jdict
  assumes sim: "rsim H A R B" and run: "runs H (rp_output R) B"
  defines "R1 \<equiv> (if jget m ''role'' \<noteq> JStr ''toolResult'' \<and> rp_pending R \<noteq> [] then close_pending clock code msg R else R)"
  shows "\<exists>B1. runs H (rp_output R1) B1 \<and> rsim H (scan_flush m A) R1 B1 \<and> scan_flush m B1 = B1"
proof -
  have same: "rp_pending R = [] \<longleftrightarrow> ts_pending A = []" "ts_pending B = [] \<longleftrightarrow> ts_pending A = []"
    using sim by (auto simp: rsim_def rnames_def pnames_def)
  show ?thesis
  proof (cases "jget m ''role'' \<noteq> JStr ''toolResult'' \<and> ts_pending A \<noteq> []")
    case True
    with rsim_close[OF sim run, of clock code msg] same show ?thesis
      by (auto simp: R1_def scan_flush_def)
  next
    case False
    with sim run same show ?thesis by (auto simp: R1_def scan_flush_def intro!: exI[of _ B])
  qed
qed

lemma rsim_tool_result:
  assumes sim: "rsim H A R B" and step: "scan_tool_result H m A = Inr A'"
  shows "\<exists>B'. scan_tool_result H m B = Inr B' \<and>
    rsim H A' (R\<lparr>rp_output := out, rp_pending := dpop (rp_pending R) (text_or_empty H m ''toolCallId'')\<rparr>) B'"
proof -
  let ?k = "text_or_empty H m ''toolCallId''"
  let ?B' = "B\<lparr>ts_seen_results := insert ?k (ts_seen_results B), ts_pending := dpop (ts_pending B) ?k\<rparr>"
  have names: "map_option uc_tool_name (map_of (ts_pending st) k) = map_of (pnames st) k" for st k
    by (simp add: pnames_def map_of_map)
  from step obtain u where u: "map_of (ts_pending A) ?k = Some u" "text_or_empty H m ''toolName'' = uc_tool_name u"
    and A': "A' = A\<lparr>ts_seen_results := insert ?k (ts_seen_results A), ts_pending := dpop (ts_pending A) ?k\<rparr>"
    by (auto simp: scan_tool_result_ok)
  have "map_option uc_tool_name (map_of (ts_pending B) ?k) = Some (uc_tool_name u)"
    using u(1) names[of A ?k] names[of B ?k] sim by (simp add: rsim_def)
  then obtain v where v: "map_of (ts_pending B) ?k = Some v" "uc_tool_name v = uc_tool_name u"
    by auto
  with sim have "?k \<notin> ts_seen_results B" by (auto simp: rsim_def scan_inv_def)
  with u v have ok: "scan_tool_result H m B = Inr ?B'" by (simp add: scan_tool_result_ok)
  have "rnames (R\<lparr>rp_output := out, rp_pending := dpop (rp_pending R) ?k\<rparr>) = dpop (rnames R) ?k"
    using rnames_dpop[of R ?k] by (simp add: rnames_def)
  with sim ok scan_inv_tool_result[OF step] scan_inv_tool_result[OF ok]
  have "rsim H A' (R\<lparr>rp_output := out, rp_pending := dpop (rp_pending R) ?k\<rparr>) ?B'"
    by (simp add: rsim_def A' pnames_dpop)
  with ok show ?thesis by blast
qed

lemma rsim_output: "rsim H A (R\<lparr>rp_output := out\<rparr>) B = rsim H A R B"
  by (simp add: rsim_def rnames_def)

lemma rsim_message:
  assumes sim: "rsim H A R B" and run: "runs H (rp_output R) B"
    and step: "scan_message H (i, m) A = Inr A'"
  shows "\<exists>R' B'. repair_message H clock code msg (i, m) R = Inr R' \<and> runs H (rp_output R') B' \<and> rsim H A' R' B'"
proof -
  define R1 where "R1 = (if jget m ''role'' \<noteq> JStr ''toolResult'' \<and> rp_pending R \<noteq> []
    then close_pending clock code msg R else R)"
  from rsim_flush[OF sim run, of m clock code msg] obtain B1 where
    B1: "runs H (rp_output R1) B1" "rsim H (scan_flush m A) R1 B1" "scan_flush m B1 = B1"
    unfolding R1_def by blast
  let ?out = "rp_output R1 @ [m]" and ?n = "length (rp_output R1)"
  have rm: "repair_message H clock code msg (i, m) R =
     (if jget m ''role'' = JStr ''assistant'' then
        bindE (py_iter (jget_or m ''content'' (JList []))) (\<lambda>bs. foldE (repair_block H i) bs (R1\<lparr>rp_output := ?out\<rparr>))
      else if jget m ''role'' = JStr ''toolResult'' then
        Inr (R1\<lparr>rp_output := ?out, rp_pending := dpop (rp_pending R1) (text_or_empty H m ''toolCallId'')\<rparr>)
      else Inr (R1\<lparr>rp_output := ?out\<rparr>))"
    unfolding repair_message_def Let_def fst_conv snd_conv R1_def[symmetric] by simp
  have sim1: "rsim H (scan_flush m A) (R1\<lparr>rp_output := ?out\<rparr>) B1" using B1(2) by (simp add: rsim_output)
  consider (asst) "jget m ''role'' = JStr ''assistant''" | (res) "jget m ''role'' = JStr ''toolResult''"
    | (other) "jget m ''role'' \<noteq> JStr ''assistant''" "jget m ''role'' \<noteq> JStr ''toolResult''" by blast
  then show ?thesis
  proof cases
    case asst
    with step obtain bs where bs: "(py_iter (jget_or m ''content'' (JList [])) :: (transcript_fault, json list) result) = Inr bs"
        "foldE (scan_block H i) bs (scan_flush m A) = Inr A'"
      by (auto simp: scan_message_def Let_def exc_simps)
    from rsim_blocks[OF sim1 bs(2), of ?n] obtain R' B' where
      "foldE (repair_block H i) bs (R1\<lparr>rp_output := ?out\<rparr>) = Inr R'"
      "foldE (scan_block H ?n) bs B1 = Inr B'" "rsim H A' R' B'" "rp_output R' = ?out" by auto
    with asst bs B1 show ?thesis
      by (intro exI[of _ R'] exI[of _ B']) (auto simp: rm scan_message_def Let_def runs_snoc)
  next
    case res
    with step have "scan_tool_result H m (scan_flush m A) = Inr A'"
      by (simp add: scan_message_def Let_def)
    from rsim_tool_result[OF B1(2) this, of ?out] obtain B' where
      "scan_tool_result H m B1 = Inr B'"
      "rsim H A' (R1\<lparr>rp_output := ?out, rp_pending := dpop (rp_pending R1) (text_or_empty H m ''toolCallId'')\<rparr>) B'" by blast
    with res B1 show ?thesis
      by (intro exI[of _ "R1\<lparr>rp_output := ?out, rp_pending := dpop (rp_pending R1) (text_or_empty H m ''toolCallId'')\<rparr>"] exI[of _ B'])
        (auto simp: rm scan_message_def Let_def runs_snoc)
  next
    case other
    with step have "A' = scan_flush m A" by (simp add: scan_message_def Let_def)
    with other B1 sim1 show ?thesis
      by (intro exI[of _ "R1\<lparr>rp_output := ?out\<rparr>"] exI[of _ B1])
        (auto simp: rm scan_message_def Let_def runs_snoc)
  qed
qed

lemma repair_run:
  assumes "runs H ms A"
  shows "\<exists>R B. foldE (repair_message H clock code msg) (List.enumerate 0 ms)
      \<lparr>rp_output = [], rp_inserted = [], rp_pending = []\<rparr> = Inr R \<and> runs H (rp_output R) B \<and> rsim H A R B"
  using assms
proof (induction ms arbitrary: A rule: rev_induct)
  case Nil
  then show ?case
    by (auto simp: rsim_def pnames_def rnames_def scan_inv_def scan_start_def)
next
  case (snoc m ms)
  then obtain A0 where A0: "runs H ms A0" "scan_message H (length ms, m) A0 = Inr A" by (auto simp: runs_snoc)
  from snoc.IH[OF A0(1)] obtain R B where
    RB: "foldE (repair_message H clock code msg) (List.enumerate 0 ms)
      \<lparr>rp_output = [], rp_inserted = [], rp_pending = []\<rparr> = Inr R" "runs H (rp_output R) B" "rsim H A0 R B" by blast
  from rsim_message[OF RB(3,2) A0(2), of clock code msg] obtain R' B' where
    "repair_message H clock code msg (length ms, m) R = Inr R'" "runs H (rp_output R') B'" "rsim H A R' B'" by blast
  with RB(1) show ?case
    by (auto simp: enumerate_append_eq foldE_append)
qed

lemma repair_total:
  assumes "analyze_tool_call_transcript H ms = Inr unresolved"
  shows "\<exists>out ins. repair_unresolved_tool_calls H clock code msg ms = Inr (out, ins) \<and>
    validate_closed_tool_call_transcript H out = Inr () \<and>
    map (\<lambda>m. jget m ''toolCallId'') ins = map (\<lambda>u. JStr (uc_tool_call_id u)) unresolved"
proof -
  from assms obtain A where A: "runs H ms A" "unresolved = ts_unresolved A @ dvalues (ts_pending A)"
    by (auto simp: analyze_tool_call_transcript_def runs_def exc_simps)
  from repair_run[OF A(1)] obtain R B where
    R: "foldE (repair_message H clock code msg) (List.enumerate 0 ms)
      \<lparr>rp_output = [], rp_inserted = [], rp_pending = []\<rparr> = Inr R" "runs H (rp_output R) B" "rsim H A R B" by blast
  from rsim_close[OF R(3,2), of clock code msg] obtain B1 where
    B1: "runs H (rp_output (close_pending clock code msg R)) B1" "ts_pending B1 = []"
      "rsim H (A\<lparr>ts_unresolved := ts_unresolved A @ dvalues (ts_pending A), ts_pending := []\<rparr>)
         (close_pending clock code msg R) B1" by blast
  have last: "(if rp_pending R \<noteq> [] then close_pending clock code msg R else R) = close_pending clock code msg R"
    by (simp add: close_pending_eq)
  have "repair_unresolved_tool_calls H clock code msg ms =
      Inr (rp_output (close_pending clock code msg R), rp_inserted (close_pending clock code msg R))"
    using assms R(1) by (simp add: repair_unresolved_tool_calls_def last Let_def)
  moreover have "validate_closed_tool_call_transcript H (rp_output (close_pending clock code msg R)) = Inr ()"
    using B1 by (simp add: validate_closed_tool_call_transcript_def analyze_tool_call_transcript_def
        runs_def rsim_def)
  ultimately show ?thesis using B1(3) A(2) by (simp add: rsim_def)
qed

text \<open>
  C29: repairing a transcript that the analysis accepts always succeeds, yields a transcript in which
  every tool call has its result, and inserts exactly one synthetic result per
  unresolved call, in the order of the unresolved calls.
\<close>

theorem repair_closes_transcript:
  assumes "analyze_tool_call_transcript H ms = Inr unresolved"
  shows "\<exists>out ins. repair_unresolved_tool_calls H clock code msg ms = Inr (out, ins) \<and>
    validate_closed_tool_call_transcript H out = Inr () \<and>
    map (\<lambda>m. jget m ''toolCallId'') ins = map (\<lambda>u. JStr (uc_tool_call_id u)) unresolved"
  using assms by (rule repair_total)

definition sample_call :: jdict where
  "sample_call = [(''role'', JStr ''assistant''),
     (''content'', JList [JObj [(''type'', JStr ''toolCall''), (''id'', JStr ''c1''), (''name'', JStr ''add'')]])]"

definition sample_user :: jdict where
  "sample_user = [(''role'', JStr ''user''), (''content'', JStr ''hi'')]"

definition plain_host :: host where
  "plain_host = \<lparr>sha256_hex = (\<lambda>s. s), repr_of = (\<lambda>_. []), read_float = (\<lambda>_. FNan)\<rparr>"

lemma sample_analysis:
  "analyze_tool_call_transcript plain_host [sample_call, sample_user] =
     Inr [\<lparr>uc_tool_call_id = ''c1'', uc_tool_name = ''add'', uc_assistant_index = 0\<rparr>]"
  by code_simp

theorem repair_closes_transcript_witness:
  "analyze_tool_call_transcript plain_host [sample_call, sample_user] =
     Inr [\<lparr>uc_tool_call_id = ''c1'', uc_tool_name = ''add'', uc_assistant_index = 0\<rparr>] \<and>
   (\<exists>out ins. repair_unresolved_tool_calls plain_host int ''code'' ''text'' [sample_call, sample_user] = Inr (out, ins) \<and>
      validate_closed_tool_call_transcript plain_host out = Inr () \<and>
      map (\<lambda>m. jget m ''toolCallId'') ins = [JStr ''c1''])"
  using repair_closes_transcript[OF sample_analysis, of int "''code''" "''text''"] sample_analysis by simp

section \<open>Repair keeps the original messages\<close>

lemma repair_blocks_frame:
  "foldE (repair_block H i) bs R = Inr R' \<Longrightarrow> rp_output R' = rp_output R \<and> rp_inserted R' = rp_inserted R"
  by (induction bs arbitrary: R)
    (auto simp: exc_simps repair_block_def split: if_splits option.splits)

lemma repair_message_frame:
  assumes "repair_message H clock code msg (i, m) R = Inr R'"
  shows "\<exists>new. rp_output R' = rp_output R @ new @ [m] \<and> rp_inserted R' = rp_inserted R @ new"
proof -
  define R1 where "R1 = (if jget m ''role'' \<noteq> JStr ''toolResult'' \<and> rp_pending R \<noteq> []
    then close_pending clock code msg R else R)"
  have R1: "\<exists>new. rp_output R1 = rp_output R @ new \<and> rp_inserted R1 = rp_inserted R @ new"
    by (simp add: R1_def close_pending_eq)
  from assms have "rp_output R' = rp_output R1 @ [m] \<and> rp_inserted R' = rp_inserted R1"
    unfolding repair_message_def Let_def fst_conv snd_conv R1_def[symmetric]
    by (auto simp: exc_simps dest!: repair_blocks_frame split: if_splits)
  with R1 show ?thesis by auto
qed

lemma repair_fold_frame:
  assumes "foldE (repair_message H clock code msg) (List.enumerate 0 ms)
      \<lparr>rp_output = [], rp_inserted = [], rp_pending = []\<rparr> = Inr R"
  shows "subseq ms (rp_output R) \<and> length (rp_output R) = length ms + length (rp_inserted R)"
  using assms
proof (induction ms arbitrary: R rule: rev_induct)
  case Nil
  then show ?case by auto
next
  case (snoc m ms)
  then obtain R0 where R0: "foldE (repair_message H clock code msg) (List.enumerate 0 ms)
      \<lparr>rp_output = [], rp_inserted = [], rp_pending = []\<rparr> = Inr R0"
      "repair_message H clock code msg (length ms, m) R0 = Inr R"
    by (auto simp: enumerate_append_eq foldE_append exc_simps)
  from repair_message_frame[OF R0(2)] obtain new where
    "rp_output R = (rp_output R0 @ new) @ [m]" "rp_inserted R = rp_inserted R0 @ new" by auto
  moreover have "subseq ms (rp_output R0 @ new)"
    using snoc.IH[OF R0(1)] by (meson list_emb_append2 list_emb_prefix)
  then have "subseq (ms @ [m]) ((rp_output R0 @ new) @ [m])" by (simp only: subseq_append)
  ultimately show ?case using snoc.IH[OF R0(1)] by simp
qed

text \<open>
  Repair never drops, changes or reorders a message of the transcript: the original is a
  subsequence of the output, and the output is longer by the synthetic results only.
\<close>

theorem repair_keeps_messages:
  assumes "repair_unresolved_tool_calls H clock code msg ms = Inr (out, ins)"
  shows "subseq ms out \<and> length out = length ms + length ins"
proof -
  from assms obtain R where R: "foldE (repair_message H clock code msg) (List.enumerate 0 ms)
      \<lparr>rp_output = [], rp_inserted = [], rp_pending = []\<rparr> = Inr R"
      "out = rp_output (close_pending clock code msg R)" "ins = rp_inserted (close_pending clock code msg R)"
    by (auto simp: repair_unresolved_tool_calls_def exc_simps Let_def close_pending_eq split: if_splits)
  from repair_fold_frame[OF R(1)] show ?thesis
    unfolding R(2,3) close_pending_eq by (auto intro: list_emb_append2)
qed

theorem repair_keeps_messages_witness:
  "\<exists>out ins. repair_unresolved_tool_calls plain_host int ''code'' ''text'' [sample_call, sample_user] = Inr (out, ins) \<and>
     subseq [sample_call, sample_user] out \<and> length out = 2 + length ins"
proof -
  obtain out ins where r: "repair_unresolved_tool_calls plain_host int ''code'' ''text'' [sample_call, sample_user] = Inr (out, ins)"
    using repair_total[OF sample_analysis, of int "''code''" "''text''"] by blast
  from repair_keeps_messages[OF r] r show ?thesis by auto
qed

section \<open>A closed transcript pairs calls and results\<close>

definition content_blocks :: "jdict \<Rightarrow> json list" where
  "content_blocks m = (case (py_iter (jget_or m ''content'' (JList [])) :: (transcript_fault, json list) result) of
     Inr bs \<Rightarrow> bs | Inl _ \<Rightarrow> [])"

definition message_call_ids :: "host \<Rightarrow> jdict \<Rightarrow> string list" where
  "message_call_ids H m = (if jget m ''role'' = JStr ''assistant''
     then map (\<lambda>b. text_or_empty H (block_dict b) ''id'') (filter is_tool_call_block (content_blocks m)) else [])"

definition call_ids :: "host \<Rightarrow> jdict list \<Rightarrow> string list" where
  "call_ids H ms = concat (map (message_call_ids H) ms)"

definition result_ids :: "host \<Rightarrow> jdict list \<Rightarrow> string list" where
  "result_ids H ms = map (\<lambda>m. text_or_empty H m ''toolCallId'') (filter (\<lambda>m. jget m ''role'' = JStr ''toolResult'') ms)"

definition scan_account :: "host \<Rightarrow> jdict list \<Rightarrow> transcript_scan \<Rightarrow> bool" where
  "scan_account H ms st \<longleftrightarrow> distinct (call_ids H ms) \<and> set (call_ids H ms) = ts_seen_calls st \<and>
     distinct (result_ids H ms) \<and> set (result_ids H ms) = ts_seen_results st \<and>
     ts_seen_calls st \<subseteq> ts_seen_results st \<union> dom (map_of (ts_pending st)) \<union> set (map uc_tool_call_id (ts_unresolved st))"

lemma scan_blocks_account:
  assumes "foldE (scan_block H i) bs st = Inr st'" "distinct ids" "set ids = ts_seen_calls st"
    and "ts_seen_calls st \<subseteq> ts_seen_results st \<union> dom (map_of (ts_pending st)) \<union> U"
  defines "ids' \<equiv> ids @ map (\<lambda>b. text_or_empty H (block_dict b) ''id'') (filter is_tool_call_block bs)"
  shows "distinct ids' \<and> set ids' = ts_seen_calls st' \<and> ts_seen_results st' = ts_seen_results st \<and>
    ts_unresolved st' = ts_unresolved st \<and>
    ts_seen_calls st' \<subseteq> ts_seen_results st \<union> dom (map_of (ts_pending st')) \<union> U"
  using assms(1-4) unfolding ids'_def
proof (induction bs arbitrary: st ids)
  case (Cons b bs)
  then obtain st1 where st1: "scan_block H i b st = Inr st1" "foldE (scan_block H i) bs st1 = Inr st'"
    by (auto simp: exc_simps)
  from st1(1) show ?case
  proof (cases rule: scan_block_cases)
    case skip
    have eq: "filter is_tool_call_block (b # bs) = filter is_tool_call_block bs" using skip by simp
    from Cons.IH[OF st1(2)[unfolded skip(2)] Cons.prems(2-4)] show ?thesis unfolding eq .
  next
    case add
    let ?k = "text_or_empty H (block_dict b) ''id''"
    have "distinct (ids @ [?k])" "set (ids @ [?k]) = ts_seen_calls st1"
      "ts_seen_calls st1 \<subseteq> ts_seen_results st1 \<union> dom (map_of (ts_pending st1)) \<union> U"
      using Cons.prems add by auto
    from Cons.IH[OF st1(2) this] add show ?thesis by simp
  qed
qed auto

lemma scan_flush_account: "scan_account H ms st \<Longrightarrow> scan_inv st \<Longrightarrow> scan_account H ms (scan_flush m st)"
proof -
  assume acc: "scan_account H ms st" and inv: "scan_inv st"
  have "k \<in> set (map uc_tool_call_id (dvalues (ts_pending st)))" if k: "k \<in> dom (map_of (ts_pending st))" for k
  proof -
    from k obtain u where u: "map_of (ts_pending st) k = Some u" by blast
    with inv have "uc_tool_call_id u = k" by (simp add: scan_inv_def)
    with map_of_SomeD[OF u] show ?thesis by force
  qed
  then have "dom (map_of (ts_pending st)) \<subseteq> set (map uc_tool_call_id (dvalues (ts_pending st)))" by blast
  with acc show ?thesis unfolding scan_account_def scan_flush_def by (simp del: set_map) blast
qed

lemma scan_message_account:
  assumes acc: "scan_account H ms st" and inv: "scan_inv st" and step: "scan_message H (i, m) st = Inr st'"
  shows "scan_account H (ms @ [m]) st'"
proof -
  let ?st = "scan_flush m st"
  have acc1: "scan_account H ms ?st" and inv1: "scan_inv ?st"
    using acc inv by (simp_all add: scan_flush_account scan_inv_flush)
  consider (asst) "jget m ''role'' = JStr ''assistant''" | (res) "jget m ''role'' = JStr ''toolResult''"
    | (other) "jget m ''role'' \<noteq> JStr ''assistant''" "jget m ''role'' \<noteq> JStr ''toolResult''" by blast
  then show ?thesis
  proof cases
    case asst
    with step have "foldE (scan_block H i) (content_blocks m) ?st = Inr st'"
      by (auto simp: scan_message_def Let_def exc_simps content_blocks_def)
    from scan_blocks_account[OF this, of "call_ids H ms" "set (map uc_tool_call_id (ts_unresolved ?st))"] acc1 asst
    show ?thesis by (auto simp: scan_account_def call_ids_def result_ids_def message_call_ids_def)
  next
    case res
    with step have "scan_tool_result H m ?st = Inr st'" by (simp add: scan_message_def Let_def)
    with acc1 res inv1 show ?thesis
      by (auto simp: scan_tool_result_ok scan_account_def call_ids_def result_ids_def message_call_ids_def split: if_splits)
  next
    case other
    with step acc1 show ?thesis
      by (auto simp: scan_message_def Let_def scan_account_def call_ids_def result_ids_def message_call_ids_def)
  qed
qed

lemma runs_account: "runs H ms st \<Longrightarrow> scan_account H ms st"
proof (induction ms arbitrary: st rule: rev_induct)
  case Nil
  then show ?case by (simp add: scan_account_def scan_start_def call_ids_def result_ids_def)
next
  case (snoc m ms)
  then show ?case by (auto simp: runs_snoc intro: scan_message_account runs_inv)
qed

lemma closed_call_result_ids:
  assumes "validate_closed_tool_call_transcript H ms = Inr ()"
  shows "distinct (call_ids H ms) \<and> distinct (result_ids H ms) \<and> set (result_ids H ms) = set (call_ids H ms)"
proof -
  from assms obtain st where st: "runs H ms st" "ts_unresolved st = []" "ts_pending st = []"
    by (auto simp: validate_closed_tool_call_transcript_def analyze_tool_call_transcript_def runs_def exc_simps)
  with runs_account[OF st(1)] runs_inv[OF st(1)] show ?thesis
    by (auto simp: scan_account_def scan_inv_def)
qed

text \<open>
  In a transcript that passes the closure check, no call id and no result id occurs twice, and
  the ids of the results are exactly the ids of the calls.
\<close>

theorem closed_transcript_pairs:
  assumes "validate_closed_tool_call_transcript H ms = Inr ()"
  shows "distinct (call_ids H ms) \<and> distinct (result_ids H ms) \<and> set (result_ids H ms) = set (call_ids H ms)"
  using assms by (rule closed_call_result_ids)

definition sample_result :: jdict where
  "sample_result = synthetic_tool_result ''c1'' ''add'' ''ok'' ''3'' 7"

theorem closed_transcript_pairs_witness:
  "validate_closed_tool_call_transcript plain_host [sample_call, sample_result, sample_user] = Inr () \<and>
   set (result_ids plain_host [sample_call, sample_result, sample_user]) =
   set (call_ids plain_host [sample_call, sample_result, sample_user])"
proof -
  have v: "validate_closed_tool_call_transcript plain_host [sample_call, sample_result, sample_user] = Inr ()"
    by code_simp
  from closed_transcript_pairs[OF v] v show ?thesis by simp
qed

end
