(* ===== verification/Operation_Log.thy ===== *)
theory Operation_Log
  imports Durable_Action Model_Policy Transcript
begin

text \<open>
  The durable log of an agent operation (\<open>session/operation_events.py\<close>,
  \<open>session/operation_state.py\<close>): the event, the snapshots of model requests, tools,
  approvals and writes, and the reducer that rebuilds the state of an operation from its events.
  There is one definition per kind of event; \<open>reduce_operation_event\<close> dispatches on the
  event's type in the order of the source.
\<close>

section \<open>Events\<close>

record operation_event =
  ev_type :: string
  ev_session_id :: string
  ev_operation_id :: string
  ev_sequence :: int
  ev_timestamp :: int
  ev_data :: jdict

datatype event_fault =
    EvIdentityEmpty | EvSequenceNegative | EvNotObject | EvTypeInvalid | EvSessionInvalid
  | EvOperationInvalid | EvSequenceInvalid | EvTimestampInvalid | EvDataInvalid | LogFirstNotStarted
  | LogIdentityMismatch | LogSequenceNotIncreasing | LogAfterTerminal | LogUnknownEvent | LogEmpty

datatype data_fault =
    LogTextMissing | LogOptionalTextInvalid | LogFencingTokenInvalid | LogFencingTokenMissing
  | LogTerminalTokenMismatch | LogMessageInvalid | LogPolicyInvalid

datatype tool_fault =
    LogRequestRepeated | LogRequestNotStarted | LogResponsePolicy policy_fault | LogIntentRepeated
  | LogIntentReplayPolicy | LogIntentContract | LogIntentSafeWithoutContract | LogToolMissing
  | LogDispatchBeforeApproval | LogDispatchFinished | LogToolNotUnknown | LogToolTokenNotIncreasing
  | LogToolResultState | LogUnknownResultMalformed | LogUnknownResultWrongEvent
  | LogWriteUnknownToolKnown | LogWriteSucceededToolConflict | LogWriteFailedToolConflict

datatype binding_fault =
    LogActionBindingMissing | LogActionEnvelope envelope_fault
  | LogActionHashUndefined envelope_fault | LogActionHashMismatch | LogActionBusinessMismatch
  | LogResumeUnbound | LogResumeWriteUnbound | LogResumeToolMissing | LogResumeWriteNotSucceeded
  | LogResumeToolNotCompleted | LogResumeResultNotUnique | LogResumeRegisteredTwice
  | LogResumeHashMismatch | LogResumeEnvelope envelope_fault | LogResumePayloadMismatch
  | LogResumeOperationMismatch | LogResumeWriteMissing | LogApprovalWriteHash
  | LogResumeCallNotUnique | LogResumeCallArguments | LogResumeCallMismatch envelope_fault
  | LogResumeAlreadyBound

datatype approval_fault =
    LogApprovalRepeated | LogApprovalMissing | LogGrantNotWaiting | LogConsumeNotApproved
  | LogRejectNotWaiting | LogExpireNotWaiting | LogResumeNotConsumed | LogResumeStateNotStartable
  | LogResumeConsumerMismatch | LogReenterNotStarted | LogResumeTokenNotIncreasing
  | LogResumeCompletedNotStarted | LogResumeFailedNotStarted | LogResumeCancelState
  | LogUnknownApprovalEvent

datatype write_fault =
    LogWriteRepeated | LogWriteHashVersion | LogWriteExpectedVersion | LogWriteMissing
  | LogWriteNotPrepared | LogWriteApprovalMissing | LogWriteBindingMismatch | LogWriteApproveState
  | LogWriteApprovalUnexpected | LogWriteApprovalMismatch | LogWriteApprovalNotConsumed
  | LogSubmitNotApproved | LogSubmitWithoutDispatch | LogSubmitToolMismatch | LogWriteSucceedState
  | LogWriteFailState | LogWriteUnknownState | LogReconcileState | LogReconcileReenterState
  | LogReconcileTokenNotIncreasing | LogReconcileFailState | LogReconcileDeferState
  | LogUnknownWriteEvent

datatype finish_fault =
    LogFinishPendingRequests | LogFinishTranscript transcript_fault | LogFinishOutcomeInvalid
  | LogFinishUnresolvedFacts | LogFinishFailedResponse | LogFinishToolsOpen | LogFinishApprovalsOpen
  | LogFinishWritesOpen

datatype log_fault =
    EvF event_fault
  | DataF data_fault
  | ToolF tool_fault
  | BindF binding_fault
  | ApprF approval_fault
  | WriteF write_fault
  | FinishF finish_fault

definition event_post_init :: "operation_event \<Rightarrow> (log_fault, operation_event) result" where
  "event_post_init e =
     bindE (guardE (ev_type e \<noteq> [] \<and> ev_session_id e \<noteq> [] \<and> ev_operation_id e \<noteq> []) (Raised (EvF EvIdentityEmpty))) (\<lambda>_.
     bindE (guardE (0 \<le> ev_sequence e) (Raised (EvF EvSequenceNegative))) (\<lambda>_.
     Inr e))"

definition event_to_dict :: "operation_event \<Rightarrow> jdict" where
  "event_to_dict e =
     [(''type'', JStr (ev_type e)), (''sessionId'', JStr (ev_session_id e)),
      (''operationId'', JStr (ev_operation_id e)), (''sequence'', JInt (ev_sequence e)),
      (''timestamp'', JInt (ev_timestamp e)), (''data'', JObj (ev_data e))]"

definition nonempty_text :: "log_fault \<Rightarrow> json \<Rightarrow> (log_fault, string) result" where
  "nonempty_text f v = (case v of JStr s \<Rightarrow> if s = [] then Inl (Raised f) else Inr s | _ \<Rightarrow> Inl (Raised f))"

definition event_from_dict :: "json \<Rightarrow> (log_fault, operation_event) result" where
  "event_from_dict v = (case v of
     JObj d \<Rightarrow>
       bindE (nonempty_text (EvF EvTypeInvalid) (jget d ''type'')) (\<lambda>ty.
       bindE (nonempty_text (EvF EvSessionInvalid) (jget d ''sessionId'')) (\<lambda>sid.
       bindE (nonempty_text (EvF EvOperationInvalid) (jget d ''operationId'')) (\<lambda>op.
       bindE (case jget d ''sequence'' of JInt i \<Rightarrow> Inr i | _ \<Rightarrow> Inl (Raised (EvF EvSequenceInvalid))) (\<lambda>sq.
       bindE (case jget d ''timestamp'' of JInt i \<Rightarrow> Inr i | _ \<Rightarrow> Inl (Raised (EvF EvTimestampInvalid))) (\<lambda>ts.
       bindE (case jget_or d ''data'' (JObj []) of JObj x \<Rightarrow> Inr x | _ \<Rightarrow> Inl (Raised (EvF EvDataInvalid))) (\<lambda>dat.
       event_post_init \<lparr>ev_type = ty, ev_session_id = sid, ev_operation_id = op, ev_sequence = sq,
         ev_timestamp = ts, ev_data = dat\<rparr>))))))
   | _ \<Rightarrow> Inl (Raised (EvF EvNotObject)))"

section \<open>Snapshots\<close>

datatype request_phase = RqStarted | RqCompleted | RqFailed

datatype approval_state = ApWaiting | ApApproved | ApConsumed | ApRejected | ApExpired
  | ApResumeStarted | ApResumeCompleted | ApResumeFailed | ApResumeCancelled

datatype resume_state = RsUnregistered | RsRegistered | RsStarted | RsCompleted | RsFailed | RsCancelled

datatype write_state = WrPrepared | WrWaitingApproval | WrApproved | WrSubmitting | WrSucceeded
  | WrFailed | WrOutcomeUnknown | WrReconciling

datatype tool_phase = ToIntentRecorded | ToDispatchStarted | ToOutcomeUnknown | ToCompleted

datatype operation_phase = OpRunning | OpWaitingApproval | OpReadyToResume | OpExecutingWrite
  | OpOutcomeUnknown | OpCompleted | OpFailed | OpCancelled

record model_request_state =
  rq_request_id :: string
  rq_phase :: request_phase
  rq_policy :: "model_request_policy option"
  rq_error_code :: "string option"

record approval_snapshot =
  ap_approval_id :: string
  ap_state :: approval_state
  ap_action_hash :: string
  ap_requester_id :: string
  ap_required_role :: string
  ap_action :: jdict
  ap_tool_call_id :: "string option"
  ap_write_id :: "string option"
  ap_consumer_id :: "string option"
  ap_resume_state :: resume_state
  ap_resume_fencing_token :: "int option"

record write_snapshot =
  wr_write_id :: string
  wr_state :: write_state
  wr_tool_name :: string
  wr_arguments :: jdict
  wr_action_hash :: string
  wr_idempotency_key_hash :: string
  wr_idempotency_hash_version :: int
  wr_entity_id :: "string option"
  wr_expected_entity_version :: "int option"
  wr_business_preconditions :: "jdict option"
  wr_tool_call_id :: "string option"
  wr_approval_id :: "string option"
  wr_result :: "jdict option"
  wr_reconcile_fencing_token :: "int option"

record tool_invocation_state =
  to_tool_call_id :: string
  to_tool_name :: string
  to_arguments :: jdict
  to_replay_policy :: string
  to_security_contract_digest :: "string option"
  to_implementation_version :: "string option"
  to_security_policy_version :: "string option"
  to_phase :: tool_phase
  to_attempts :: nat
  to_result :: "jdict option"
  to_reconcile_fencing_token :: "int option"

record operation_state =
  os_session_id :: string
  os_operation_id :: string
  os_phase :: operation_phase
  os_last_sequence :: int
  os_messages :: "jdict list"
  os_model_requests :: "(string, model_request_state) dict"
  os_tools :: "(string, tool_invocation_state) dict"
  os_approvals :: "(string, approval_snapshot) dict"
  os_writes :: "(string, write_snapshot) dict"
  os_configuration :: jdict
  os_active_model_policy :: "model_request_policy option"
  os_outcome :: "operation_phase option"

type_synonym log_step = "(log_fault, operation_state) result"

section \<open>Readers of event data\<close>

definition text_field :: "jdict \<Rightarrow> string \<Rightarrow> (log_fault, string) result" where
  "text_field data k = nonempty_text (DataF LogTextMissing) (jget data k)"

definition optional_text :: "json \<Rightarrow> (log_fault, string option) result" where
  "optional_text v = (if v = JNull then Inr None
     else bindE (nonempty_text (DataF LogOptionalTextInvalid) v) (\<lambda>s. Inr (Some s)))"

definition optional_fencing_token :: "jdict \<Rightarrow> (log_fault, int option) result" where
  "optional_fencing_token data = (let v = jget data ''fencingToken'' in
     if v = JNull then Inr None
     else (case as_int_ge 1 v of None \<Rightarrow> Inl (Raised (DataF LogFencingTokenInvalid)) | Some i \<Rightarrow> Inr (Some i)))"

definition required_fencing_token :: "jdict \<Rightarrow> (log_fault, int) result" where
  "required_fencing_token data = bindE (optional_fencing_token data) (\<lambda>v.
     case v of None \<Rightarrow> Inl (Raised (DataF LogFencingTokenMissing)) | Some i \<Rightarrow> Inr i)"

definition validate_terminal_fencing_token :: "int option \<Rightarrow> jdict \<Rightarrow> (log_fault, unit) result" where
  "validate_terminal_fencing_token expected data = (case expected of
     None \<Rightarrow> Inr ()
   | Some t \<Rightarrow> bindE (required_fencing_token data) (\<lambda>actual.
       guardE (actual = t) (Raised (DataF LogTerminalTokenMismatch))))"

definition message_field :: "jdict \<Rightarrow> (log_fault, jdict) result" where
  "message_field data = (case jget data ''message'' of
      JObj m \<Rightarrow> if is_jstr (jget m ''role'') then Inr m else Inl (Raised (DataF LogMessageInvalid))
    | _ \<Rightarrow> Inl (Raised (DataF LogMessageInvalid)))"

text \<open>
  \<open>_model_policy\<close> turns the policy's own errors, \<open>TypeError\<close> and \<open>ValueError\<close> into
  a log error; other exceptions of the interpreter pass.
\<close>

definition model_policy_field :: "host \<Rightarrow> json \<Rightarrow> (log_fault, model_request_policy) result" where
  "model_policy_field H v = (case policy_from_dict H v of
      Inr p \<Rightarrow> Inr p
    | Inl (Raised _) \<Rightarrow> Inl (Raised (DataF LogPolicyInvalid))
    | Inl (Builtin b) \<Rightarrow> if b \<in> {TypeErr, ValueErr} then Inl (Raised (DataF LogPolicyInvalid)) else Inl (Builtin b))"

definition str_or_none :: "host \<Rightarrow> json \<Rightarrow> string option" where
  "str_or_none H v = (if v = JNull then None else Some (py_str H v))"

definition get_tool :: "operation_state \<Rightarrow> string \<Rightarrow> (log_fault, tool_invocation_state) result" where
  "get_tool s tc = (case map_of (os_tools s) tc of None \<Rightarrow> Inl (Raised (ToolF LogToolMissing)) | Some t \<Rightarrow> Inr t)"

definition approval_for_tool_call :: "operation_state \<Rightarrow> string \<Rightarrow> approval_snapshot option" where
  "approval_for_tool_call s tc = find (\<lambda>a. ap_tool_call_id a = Some tc) (dvalues (os_approvals s))"

section \<open>Bindings between approvals, writes and tools\<close>

definition opt_obj :: "jdict option \<Rightarrow> json" where
  "opt_obj d = (case d of None \<Rightarrow> JNull | Some x \<Rightarrow> JObj x)"

text \<open>The keyword arguments of \<open>_validate_approval_action\<close>.\<close>

record action_binding =
  ab_operation_id :: string
  ab_tool_call_id :: "string option"
  ab_tool_name :: string
  ab_arguments :: jdict
  ab_write_id :: "string option"
  ab_entity_id :: "string option"
  ab_expected_entity_version :: "int option"
  ab_business_preconditions :: "jdict option"
  ab_validate_business_binding :: bool

definition validate_approval_action ::
  "host \<Rightarrow> approval_snapshot \<Rightarrow> action_binding \<Rightarrow> (log_fault, unit) result" where
  "validate_approval_action H approval b = (case (ab_tool_call_id b, ab_write_id b) of
     (Some tc, Some wid) \<Rightarrow>
       bindE (catchE (bindE (envelope_from_dict (JObj (ap_action approval))) (\<lambda>envelope.
                bindE (assert_execution envelope \<lparr>ex_operation_id = ab_operation_id b, ex_tool_call_id = tc,
                    ex_tool_name = ab_tool_name b, ex_arguments = ab_arguments b, ex_write_id = wid,
                    ex_entity_id = None, ex_expected_entity_version = None,
                    ex_business_preconditions = None\<rparr> False) (\<lambda>_. Inr envelope)))
              (\<lambda>f. Inl (Raised (BindF (LogActionEnvelope f))))) (\<lambda>envelope.
       bindE (catchE (envelope_action_hash H envelope) (\<lambda>f. Inl (Raised (BindF (LogActionHashUndefined f))))) (\<lambda>hash.
       bindE (guardE (hash = ap_action_hash approval) (Raised (BindF LogActionHashMismatch))) (\<lambda>_.
       guardE (\<not> (ab_validate_business_binding b \<and>
           (env_entity_id envelope \<noteq> ab_entity_id b \<or>
            env_expected_entity_version envelope \<noteq> ab_expected_entity_version b \<or>
            \<not> strict_json_equal (opt_obj (env_business_preconditions envelope)) (opt_obj (ab_business_preconditions b)))))
         (Raised (BindF LogActionBusinessMismatch)))))
   | _ \<Rightarrow> Inl (Raised (BindF LogActionBindingMissing)))"

definition write_binding :: "operation_state \<Rightarrow> write_snapshot \<Rightarrow> action_binding" where
  "write_binding s w = \<lparr>ab_operation_id = os_operation_id s, ab_tool_call_id = wr_tool_call_id w,
     ab_tool_name = wr_tool_name w, ab_arguments = wr_arguments w, ab_write_id = Some (wr_write_id w),
     ab_entity_id = wr_entity_id w, ab_expected_entity_version = wr_expected_entity_version w,
     ab_business_preconditions = wr_business_preconditions w, ab_validate_business_binding = True\<rparr>"

definition tool_binding :: "operation_state \<Rightarrow> string \<Rightarrow> tool_invocation_state \<Rightarrow> string option \<Rightarrow> action_binding" where
  "tool_binding s tc t wid = \<lparr>ab_operation_id = os_operation_id s, ab_tool_call_id = Some tc,
     ab_tool_name = to_tool_name t, ab_arguments = to_arguments t, ab_write_id = wid,
     ab_entity_id = None, ab_expected_entity_version = None, ab_business_preconditions = None,
     ab_validate_business_binding = False\<rparr>"

definition calls_with_id :: "string \<Rightarrow> json list \<Rightarrow> jdict list" where
  "calls_with_id tc blocks = concat (map (\<lambda>b. case b of
     JObj d \<Rightarrow> if jget d ''type'' = JStr ''toolCall'' \<and> jget d ''id'' = JStr tc then [d] else [] | _ \<Rightarrow> []) blocks)"

definition assistant_tool_calls :: "jdict list \<Rightarrow> string \<Rightarrow> (log_fault, jdict list) result" where
  "assistant_tool_calls messages tc =
     bindE (mapE (\<lambda>m. if jget m ''role'' = JStr ''assistant''
              then bindE (py_iter (jget_or m ''content'' (JList []))) (\<lambda>blocks. Inr (calls_with_id tc blocks))
              else Inr []) messages) (\<lambda>xss. Inr (concat xss))"

definition validate_registered_approval_dependencies ::
  "host \<Rightarrow> operation_state \<Rightarrow> approval_snapshot \<Rightarrow> bool \<Rightarrow> (log_fault, unit) result" where
  "validate_registered_approval_dependencies H s approval require_completed =
     (case (ap_action approval = [], ap_write_id approval, ap_tool_call_id approval) of
       (False, Some wid, Some tc) \<Rightarrow>
         (case map_of (os_writes s) wid of
            None \<Rightarrow> Inl (Raised (BindF LogResumeWriteUnbound))
          | Some w \<Rightarrow>
              bindE (guardE (wr_approval_id w = Some (ap_approval_id approval)) (Raised (BindF LogResumeWriteUnbound))) (\<lambda>_.
              bindE (validate_approval_action H approval (write_binding s w)) (\<lambda>_.
              (case map_of (os_tools s) tc of
                 None \<Rightarrow> Inl (Raised (BindF LogResumeToolMissing))
               | Some t \<Rightarrow>
                   bindE (validate_approval_action H approval (tool_binding s (to_tool_call_id t) t (Some (wr_write_id w)))) (\<lambda>_.
                   if \<not> require_completed then Inr () else
                   bindE (guardE (wr_state w = WrSucceeded) (Raised (BindF LogResumeWriteNotSucceeded))) (\<lambda>_.
                   bindE (guardE (to_phase t = ToCompleted) (Raised (BindF LogResumeToolNotCompleted))) (\<lambda>_.
                   guardE (length (filter (\<lambda>m. jget m ''role'' = JStr ''toolResult'' \<and>
                       jget m ''toolCallId'' = JStr tc) (os_messages s)) = 1) (Raised (BindF LogResumeResultNotUnique)))))))))
     | _ \<Rightarrow> Inl (Raised (BindF LogResumeUnbound)))"

definition tool_result_is_outcome_unknown :: "jdict \<Rightarrow> bool" where
  "tool_result_is_outcome_unknown result = (case jget result ''details'' of
     JObj d \<Rightarrow> truthy (jget d ''outcomeUnknown'') \<or> jget d ''code'' = JStr ''outcome_unknown''
   | _ \<Rightarrow> False)"

definition validate_tool_write_result_consistency ::
  "operation_state \<Rightarrow> tool_invocation_state \<Rightarrow> string \<Rightarrow> jdict \<Rightarrow> (log_fault, unit) result" where
  "validate_tool_write_result_consistency s t event_type result =
     (let is_error = truthy (jget result ''isError'');
          is_unknown = tool_result_is_outcome_unknown result;
          unknown_event = (event_type = ''tool_outcome_unknown'') in
      bindE (if unknown_event
             then guardE (is_error \<and> is_unknown) (Raised (ToolF LogUnknownResultMalformed))
             else guardE (\<not> is_unknown) (Raised (ToolF LogUnknownResultWrongEvent))) (\<lambda>_.
      case find (\<lambda>w. wr_tool_call_id w = Some (to_tool_call_id t)) (dvalues (os_writes s)) of
        None \<Rightarrow> Inr ()
      | Some w \<Rightarrow>
          if wr_state w \<notin> {WrSucceeded, WrFailed, WrOutcomeUnknown} then Inr () else
          bindE (guardE (\<not> (wr_state w = WrOutcomeUnknown \<and> \<not> unknown_event)) (Raised (ToolF LogWriteUnknownToolKnown))) (\<lambda>_.
          bindE (guardE (\<not> (wr_state w = WrSucceeded \<and> (unknown_event \<or> is_error \<or> is_unknown)))
                   (Raised (ToolF LogWriteSucceededToolConflict))) (\<lambda>_.
          guardE (\<not> (wr_state w = WrFailed \<and> (unknown_event \<or> is_unknown \<or> \<not> is_error)))
            (Raised (ToolF LogWriteFailedToolConflict))))))"

text \<open>The \<open>expected\<close> argument is the state the write is about to enter.\<close>

definition validate_write_against_finished_tool ::
  "operation_state \<Rightarrow> write_snapshot \<Rightarrow> write_state \<Rightarrow> (log_fault, unit) result" where
  "validate_write_against_finished_tool s w expected =
     (case wr_tool_call_id w of None \<Rightarrow> Inr () | Some tc \<Rightarrow>
     (case map_of (os_tools s) tc of None \<Rightarrow> Inr () | Some t \<Rightarrow>
      if to_phase t \<notin> {ToCompleted, ToOutcomeUnknown} then Inr () else
      (let result = (case to_result t of None \<Rightarrow> [] | Some r \<Rightarrow> r);
           is_error = truthy (jget result ''isError'');
           is_unknown = tool_result_is_outcome_unknown result in
       bindE (guardE (\<not> (expected = WrSucceeded \<and> (to_phase t = ToOutcomeUnknown \<or> is_error \<or> is_unknown)))
                (Raised (ToolF LogWriteSucceededToolConflict))) (\<lambda>_.
       bindE (guardE (\<not> (expected = WrFailed \<and> (to_phase t = ToOutcomeUnknown \<or> is_unknown \<or> \<not> is_error)))
                (Raised (ToolF LogWriteFailedToolConflict))) (\<lambda>_.
       guardE (\<not> (expected = WrOutcomeUnknown \<and> to_phase t = ToCompleted)) (Raised (ToolF LogWriteUnknownToolKnown)))))))"

section \<open>Model requests and messages\<close>

definition on_operation_started :: "operation_event \<Rightarrow> log_step" where
  "on_operation_started e =
     bindE (guardE (ev_type e = ''operation_started'') (Raised (EvF LogFirstNotStarted))) (\<lambda>_.
     bindE (py_dict (jget_or (ev_data e) ''configuration'' (JObj []))) (\<lambda>configuration.
     bindE (py_iter (jget_or (ev_data e) ''tools'' (JList []))) (\<lambda>tools.
     Inr \<lparr>os_session_id = ev_session_id e, os_operation_id = ev_operation_id e, os_phase = OpRunning,
          os_last_sequence = ev_sequence e, os_messages = [], os_model_requests = [], os_tools = [],
          os_approvals = [], os_writes = [], os_configuration = dset configuration ''tools'' (JList tools),
          os_active_model_policy = None, os_outcome = None\<rparr>)))"

definition on_message_appended :: "operation_state \<Rightarrow> jdict \<Rightarrow> log_step" where
  "on_message_appended s data = bindE (message_field data) (\<lambda>m. Inr (s\<lparr>os_messages := os_messages s @ [m]\<rparr>))"

definition on_model_policy_selected :: "host \<Rightarrow> operation_state \<Rightarrow> jdict \<Rightarrow> log_step" where
  "on_model_policy_selected H s data =
     bindE (model_policy_field H (jget data ''policy'')) (\<lambda>p. Inr (s\<lparr>os_active_model_policy := Some p\<rparr>))"

definition on_model_request_started :: "host \<Rightarrow> operation_state \<Rightarrow> jdict \<Rightarrow> log_step" where
  "on_model_request_started H s data =
     bindE (text_field data ''requestId'') (\<lambda>rid.
     bindE (guardE (map_of (os_model_requests s) rid = None) (Raised (ToolF LogRequestRepeated))) (\<lambda>_.
     bindE (if jget data ''requestPolicy'' = JNull then Inr None
            else bindE (model_policy_field H (jget data ''requestPolicy'')) (\<lambda>p. Inr (Some p))) (\<lambda>policy.
     Inr (s\<lparr>os_active_model_policy := policy,
            os_model_requests := dset (os_model_requests s) rid
              \<lparr>rq_request_id = rid, rq_phase = RqStarted, rq_policy = policy, rq_error_code = None\<rparr>\<rparr>))))"

definition on_model_request_finished :: "host \<Rightarrow> operation_state \<Rightarrow> string \<Rightarrow> jdict \<Rightarrow> log_step" where
  "on_model_request_finished H s event_type data =
     bindE (text_field data ''requestId'') (\<lambda>rid.
     case map_of (os_model_requests s) rid of
       None \<Rightarrow> Inl (Raised (ToolF LogRequestNotStarted))
     | Some r \<Rightarrow>
         bindE (guardE (rq_phase r = RqStarted) (Raised (ToolF LogRequestNotStarted))) (\<lambda>_.
         if event_type = ''model_request_completed'' then
           bindE (message_field data) (\<lambda>m.
           bindE (catchE (validate_persisted_model_response H (JObj m) (rq_policy r))
                    (\<lambda>f. Inl (Raised (ToolF (LogResponsePolicy f))))) (\<lambda>_.
           Inr (s\<lparr>os_model_requests := dset (os_model_requests s) rid (r\<lparr>rq_phase := RqCompleted\<rparr>),
                  os_messages := os_messages s @ [m]\<rparr>)))
         else Inr (s\<lparr>os_model_requests := dset (os_model_requests s) rid
                (r\<lparr>rq_phase := RqFailed,
                   rq_error_code := Some (py_str H (jget_or data ''errorCode'' (JStr ''model_error'')))\<rparr>)\<rparr>)))"

section \<open>Tools\<close>

definition tool_intent :: "host \<Rightarrow> string \<Rightarrow> jdict \<Rightarrow> (log_fault, tool_invocation_state) result" where
  "tool_intent H tc data =
     bindE (text_field data ''toolName'') (\<lambda>name.
     bindE (py_dict (jget_or data ''arguments'' (JObj []))) (\<lambda>arguments.
     bindE (optional_text (jget data ''securityContractDigest'')) (\<lambda>digest.
     bindE (optional_text (jget data ''implementationVersion'')) (\<lambda>implementation.
     bindE (optional_text (jget data ''securityPolicyVersion'')) (\<lambda>policy.
     Inr \<lparr>to_tool_call_id = tc, to_tool_name = name, to_arguments = arguments,
          to_replay_policy = py_str H (jget_or data ''replayPolicy'' (JStr ''never'')),
          to_security_contract_digest = digest, to_implementation_version = implementation,
          to_security_policy_version = policy, to_phase = ToIntentRecorded, to_attempts = 0,
          to_result = None, to_reconcile_fencing_token = None\<rparr>)))))"

definition validate_configured_tool :: "operation_state \<Rightarrow> tool_invocation_state \<Rightarrow> (log_fault, unit) result" where
  "validate_configured_tool s t =
     bindE (py_iter (jget_or (os_configuration s) ''tools'' (JList []))) (\<lambda>items.
     case find (\<lambda>i. case i of JObj d \<Rightarrow> jget d ''name'' = JStr (to_tool_name t) | _ \<Rightarrow> False) items of
       Some (JObj configured) \<Rightarrow>
         (let replay = jget configured ''replayPolicy''; digest = jget configured ''securityContractDigest'' in
          bindE (guardE (replay = JNull \<or> replay = JStr (to_replay_policy t)) (Raised (ToolF LogIntentReplayPolicy))) (\<lambda>_.
          bindE (guardE (digest = JNull \<or> (case to_security_contract_digest t of None \<Rightarrow> True
                   | Some x \<Rightarrow> digest = JStr x)) (Raised (ToolF LogIntentContract))) (\<lambda>_.
          guardE (\<not> (digest \<noteq> JNull \<and> to_security_contract_digest t = None \<and> to_replay_policy t = ''safe''))
            (Raised (ToolF LogIntentSafeWithoutContract)))))
     | _ \<Rightarrow> Inr ())"

definition validate_bound_tool ::
  "host \<Rightarrow> operation_state \<Rightarrow> approval_snapshot option \<Rightarrow> string \<Rightarrow> tool_invocation_state \<Rightarrow> (log_fault, unit) result" where
  "validate_bound_tool H s approval tc t = (case approval of
     None \<Rightarrow> Inr ()
   | Some a \<Rightarrow> if ap_action a = [] then Inr ()
       else validate_approval_action H a (tool_binding s tc t (ap_write_id a)))"

definition on_tool_intent_recorded :: "host \<Rightarrow> operation_state \<Rightarrow> jdict \<Rightarrow> log_step" where
  "on_tool_intent_recorded H s data =
     bindE (text_field data ''toolCallId'') (\<lambda>tc.
     bindE (guardE (map_of (os_tools s) tc = None) (Raised (ToolF LogIntentRepeated))) (\<lambda>_.
     bindE (tool_intent H tc data) (\<lambda>t.
     bindE (validate_configured_tool s t) (\<lambda>_.
     bindE (validate_bound_tool H s (approval_for_tool_call s tc) tc t) (\<lambda>_.
     Inr (s\<lparr>os_tools := dset (os_tools s) tc t\<rparr>))))))"

definition on_tool_dispatch_started :: "host \<Rightarrow> operation_state \<Rightarrow> jdict \<Rightarrow> log_step" where
  "on_tool_dispatch_started H s data =
     bindE (text_field data ''toolCallId'') (\<lambda>tc.
     bindE (get_tool s tc) (\<lambda>t.
     let approval = approval_for_tool_call s tc in
     bindE (guardE (case approval of None \<Rightarrow> True | Some a \<Rightarrow> ap_state a \<in> {ApConsumed, ApResumeStarted})
              (Raised (ToolF LogDispatchBeforeApproval))) (\<lambda>_.
     bindE (validate_bound_tool H s approval tc t) (\<lambda>_.
     bindE (guardE (to_phase t \<in> {ToIntentRecorded, ToDispatchStarted}) (Raised (ToolF LogDispatchFinished))) (\<lambda>_.
     Inr (s\<lparr>os_tools := dset (os_tools s) tc
       (t\<lparr>to_phase := ToDispatchStarted, to_attempts := to_attempts t + 1\<rparr>)\<rparr>))))))"

definition on_tool_reconcile_started :: "operation_state \<Rightarrow> jdict \<Rightarrow> log_step" where
  "on_tool_reconcile_started s data =
     bindE (text_field data ''toolCallId'') (\<lambda>tc.
     bindE (get_tool s tc) (\<lambda>t.
     bindE (guardE (to_phase t = ToOutcomeUnknown) (Raised (ToolF LogToolNotUnknown))) (\<lambda>_.
     bindE (required_fencing_token data) (\<lambda>token.
     bindE (guardE (case to_reconcile_fencing_token t of None \<Rightarrow> True | Some old \<Rightarrow> old < token)
              (Raised (ToolF LogToolTokenNotIncreasing))) (\<lambda>_.
     Inr (s\<lparr>os_tools := dset (os_tools s) tc (t\<lparr>to_reconcile_fencing_token := Some token\<rparr>)\<rparr>))))))"

definition on_tool_result :: "operation_state \<Rightarrow> string \<Rightarrow> jdict \<Rightarrow> log_step" where
  "on_tool_result s event_type data =
     bindE (text_field data ''toolCallId'') (\<lambda>tc.
     bindE (get_tool s tc) (\<lambda>t.
     bindE (guardE (to_phase t \<in> (if event_type = ''tool_reconciled'' then {ToOutcomeUnknown, ToDispatchStarted}
                                    else {ToIntentRecorded, ToDispatchStarted})) (Raised (ToolF LogToolResultState))) (\<lambda>_.
     bindE (if event_type = ''tool_reconciled''
            then validate_terminal_fencing_token (to_reconcile_fencing_token t) data else Inr ()) (\<lambda>_.
     bindE (py_dict (jget_or data ''result'' (JObj []))) (\<lambda>result.
     bindE (validate_tool_write_result_consistency s t event_type result) (\<lambda>_.
     Inr (s\<lparr>os_tools := dset (os_tools s) tc
       (t\<lparr>to_phase := (if event_type = ''tool_outcome_unknown'' then ToOutcomeUnknown else ToCompleted),
          to_result := Some result\<rparr>)\<rparr>)))))))"

section \<open>Approvals\<close>

definition set_approval :: "operation_state \<Rightarrow> string \<Rightarrow> approval_snapshot \<Rightarrow> operation_phase \<Rightarrow> operation_state" where
  "set_approval s aid a ph = s\<lparr>os_phase := ph, os_approvals := dset (os_approvals s) aid a\<rparr>"

definition on_approval_requested :: "operation_state \<Rightarrow> string \<Rightarrow> jdict \<Rightarrow> log_step" where
  "on_approval_requested s aid data =
     bindE (guardE (map_of (os_approvals s) aid = None) (Raised (ApprF LogApprovalRepeated))) (\<lambda>_.
     bindE (text_field data ''actionHash'') (\<lambda>hash.
     bindE (text_field data ''requesterId'') (\<lambda>requester.
     bindE (text_field data ''requiredRole'') (\<lambda>role.
     Inr (set_approval s aid \<lparr>ap_approval_id = aid, ap_state = ApWaiting, ap_action_hash = hash,
        ap_requester_id = requester, ap_required_role = role, ap_action = [], ap_tool_call_id = None,
        ap_write_id = None, ap_consumer_id = None, ap_resume_state = RsUnregistered,
        ap_resume_fencing_token = None\<rparr> OpWaitingApproval)))))"

text \<open>
  \<open>approval_resume_registered\<close>, in the two steps of the source: the envelope of the event,
  and its agreement with the write and the planned tool call.
\<close>

definition resume_envelope ::
  "host \<Rightarrow> operation_state \<Rightarrow> approval_snapshot \<Rightarrow> jdict \<Rightarrow> (log_fault, durable_action_envelope) result" where
  "resume_envelope H s current data =
     bindE (guardE (ap_resume_state current = RsUnregistered) (Raised (BindF LogResumeRegisteredTwice))) (\<lambda>_.
     bindE (py_dict (jget_or data ''action'' (JObj []))) (\<lambda>action.
     bindE (guardE (action_digest H action = ap_action_hash current) (Raised (BindF LogResumeHashMismatch))) (\<lambda>_.
     bindE (py_dict (jget_or data ''resumePayload'' (JObj []))) (\<lambda>payload.
     bindE (catchE (envelope_from_dict (JObj action)) (\<lambda>f. Inl (Raised (BindF (LogResumeEnvelope f))))) (\<lambda>envelope.
     bindE (catchE (envelope_from_dict (jget payload ''envelope'')) (\<lambda>f. Inl (Raised (BindF (LogResumeEnvelope f))))) (\<lambda>other.
     bindE (guardE (envelope_eq envelope other) (Raised (BindF LogResumePayloadMismatch))) (\<lambda>_.
     bindE (guardE (env_operation_id envelope = os_operation_id s) (Raised (BindF LogResumeOperationMismatch))) (\<lambda>_.
     Inr envelope))))))))"

definition validate_planned_call ::
  "operation_state \<Rightarrow> durable_action_envelope \<Rightarrow> write_snapshot \<Rightarrow> (log_fault, unit) result" where
  "validate_planned_call s envelope w =
     bindE (assistant_tool_calls (os_messages s) (env_tool_call_id envelope)) (\<lambda>calls.
     case calls of
       [call] \<Rightarrow>
         (case jget call ''arguments'' of
            JObj arguments \<Rightarrow>
              bindE (text_field call ''id'') (\<lambda>cid.
              bindE (text_field call ''name'') (\<lambda>cname.
              catchE (assert_execution envelope \<lparr>ex_operation_id = os_operation_id s, ex_tool_call_id = cid,
                  ex_tool_name = cname, ex_arguments = arguments, ex_write_id = wr_write_id w,
                  ex_entity_id = wr_entity_id w, ex_expected_entity_version = wr_expected_entity_version w,
                  ex_business_preconditions = wr_business_preconditions w\<rparr> True)
                (\<lambda>f. Inl (Raised (BindF (LogResumeCallMismatch f))))))
          | _ \<Rightarrow> Inl (Raised (BindF LogResumeCallArguments)))
     | _ \<Rightarrow> Inl (Raised (BindF LogResumeCallNotUnique)))"

definition on_approval_resume_registered ::
  "host \<Rightarrow> operation_state \<Rightarrow> string \<Rightarrow> approval_snapshot \<Rightarrow> jdict \<Rightarrow> log_step" where
  "on_approval_resume_registered H s aid current data =
     bindE (resume_envelope H s current data) (\<lambda>envelope.
     case map_of (os_writes s) (env_write_id envelope) of
       None \<Rightarrow> Inl (Raised (BindF LogResumeWriteMissing))
     | Some w \<Rightarrow>
         bindE (guardE (wr_action_hash w = ap_action_hash current) (Raised (BindF LogApprovalWriteHash))) (\<lambda>_.
         bindE (validate_planned_call s envelope w) (\<lambda>_.
         bindE (guardE (list_all (\<lambda>a. ap_approval_id a = aid \<or>
                  ap_tool_call_id a \<noteq> Some (env_tool_call_id envelope) \<and>
                  ap_write_id a \<noteq> Some (env_write_id envelope)) (dvalues (os_approvals s)))
                  (Raised (BindF LogResumeAlreadyBound))) (\<lambda>_.
         Inr (set_approval s aid
           (current\<lparr>ap_action := envelope_to_dict envelope, ap_tool_call_id := Some (env_tool_call_id envelope),
              ap_write_id := Some (env_write_id envelope), ap_resume_state := RsRegistered\<rparr>)
           (if ap_state current = ApWaiting then OpWaitingApproval else os_phase s))))))"

definition on_approval_granted :: "operation_state \<Rightarrow> string \<Rightarrow> approval_snapshot \<Rightarrow> log_step" where
  "on_approval_granted s aid current =
     bindE (guardE (ap_state current = ApWaiting) (Raised (ApprF LogGrantNotWaiting))) (\<lambda>_.
     Inr (set_approval s aid (current\<lparr>ap_state := ApApproved\<rparr>) OpReadyToResume))"

definition on_approval_consumed :: "host \<Rightarrow> operation_state \<Rightarrow> string \<Rightarrow> approval_snapshot \<Rightarrow> jdict \<Rightarrow> log_step" where
  "on_approval_consumed H s aid current data =
     bindE (guardE (ap_state current = ApApproved) (Raised (ApprF LogConsumeNotApproved))) (\<lambda>_.
     Inr (set_approval s aid (current\<lparr>ap_state := ApConsumed,
       ap_consumer_id := Some (py_str H (jget_or data ''consumerId'' (JStr [])))\<rparr>) OpReadyToResume))"

definition on_approval_rejected :: "operation_state \<Rightarrow> string \<Rightarrow> approval_snapshot \<Rightarrow> log_step" where
  "on_approval_rejected s aid current =
     bindE (guardE (ap_state current = ApWaiting) (Raised (ApprF LogRejectNotWaiting))) (\<lambda>_.
     Inr (set_approval s aid (current\<lparr>ap_state := ApRejected, ap_resume_state := RsCancelled\<rparr>) OpRunning))"

definition on_approval_expired :: "operation_state \<Rightarrow> string \<Rightarrow> approval_snapshot \<Rightarrow> log_step" where
  "on_approval_expired s aid current =
     bindE (guardE (ap_state current = ApWaiting) (Raised (ApprF LogExpireNotWaiting))) (\<lambda>_.
     Inr (set_approval s aid (current\<lparr>ap_state := ApExpired, ap_resume_state := RsCancelled\<rparr>) OpRunning))"

definition on_approval_resume_started ::
  "host \<Rightarrow> operation_state \<Rightarrow> string \<Rightarrow> approval_snapshot \<Rightarrow> jdict \<Rightarrow> log_step" where
  "on_approval_resume_started H s aid current data =
     bindE (guardE (ap_state current = ApConsumed) (Raised (ApprF LogResumeNotConsumed))) (\<lambda>_.
     bindE (guardE (ap_resume_state current \<in> {RsRegistered, RsStarted}) (Raised (ApprF LogResumeStateNotStartable))) (\<lambda>_.
     bindE (validate_registered_approval_dependencies H s current False) (\<lambda>_.
     bindE (guardE (jget data ''consumerId'' = JNull \<or>
              (case ap_consumer_id current of None \<Rightarrow> True | Some c \<Rightarrow> jget data ''consumerId'' = JStr c))
              (Raised (ApprF LogResumeConsumerMismatch))) (\<lambda>_.
     bindE (optional_fencing_token data) (\<lambda>token.
     Inr (set_approval s aid (current\<lparr>ap_state := ApResumeStarted, ap_resume_state := RsStarted,
        ap_resume_fencing_token := token\<rparr>) OpExecutingWrite))))))"

definition on_approval_resume_reentered :: "operation_state \<Rightarrow> string \<Rightarrow> approval_snapshot \<Rightarrow> jdict \<Rightarrow> log_step" where
  "on_approval_resume_reentered s aid current data =
     bindE (guardE (ap_state current = ApResumeStarted) (Raised (ApprF LogReenterNotStarted))) (\<lambda>_.
     bindE (required_fencing_token data) (\<lambda>token.
     bindE (guardE (case ap_resume_fencing_token current of None \<Rightarrow> True | Some old \<Rightarrow> old < token)
              (Raised (ApprF LogResumeTokenNotIncreasing))) (\<lambda>_.
     Inr (set_approval s aid (current\<lparr>ap_resume_fencing_token := Some token\<rparr>) OpExecutingWrite))))"

definition on_approval_resume_completed ::
  "host \<Rightarrow> operation_state \<Rightarrow> string \<Rightarrow> approval_snapshot \<Rightarrow> jdict \<Rightarrow> log_step" where
  "on_approval_resume_completed H s aid current data =
     bindE (guardE (ap_state current = ApResumeStarted) (Raised (ApprF LogResumeCompletedNotStarted))) (\<lambda>_.
     bindE (validate_registered_approval_dependencies H s current True) (\<lambda>_.
     bindE (validate_terminal_fencing_token (ap_resume_fencing_token current) data) (\<lambda>_.
     Inr (set_approval s aid (current\<lparr>ap_state := ApResumeCompleted, ap_resume_state := RsCompleted\<rparr>) OpRunning))))"

definition on_approval_resume_failed :: "operation_state \<Rightarrow> string \<Rightarrow> approval_snapshot \<Rightarrow> jdict \<Rightarrow> log_step" where
  "on_approval_resume_failed s aid current data =
     bindE (guardE (ap_state current = ApResumeStarted) (Raised (ApprF LogResumeFailedNotStarted))) (\<lambda>_.
     bindE (validate_terminal_fencing_token (ap_resume_fencing_token current) data) (\<lambda>_.
     Inr (set_approval s aid (current\<lparr>ap_state := ApResumeFailed, ap_resume_state := RsFailed\<rparr>) OpRunning)))"

definition on_approval_resume_cancelled :: "operation_state \<Rightarrow> string \<Rightarrow> approval_snapshot \<Rightarrow> log_step" where
  "on_approval_resume_cancelled s aid current =
     bindE (guardE (ap_state current \<in> {ApWaiting, ApRejected, ApExpired}) (Raised (ApprF LogResumeCancelState))) (\<lambda>_.
     Inr (set_approval s aid (current\<lparr>ap_state := ApResumeCancelled, ap_resume_state := RsCancelled\<rparr>) OpRunning))"

definition reduce_approval_event :: "host \<Rightarrow> operation_state \<Rightarrow> operation_event \<Rightarrow> log_step" where
  "reduce_approval_event H s e =
     (let ty = ev_type e; data = ev_data e in
      if ty = ''approval_pending'' then Inr (s\<lparr>os_phase := OpWaitingApproval\<rparr>) else
      bindE (text_field data ''approvalId'') (\<lambda>aid.
      if ty = ''approval_requested'' then on_approval_requested s aid data else
      (case map_of (os_approvals s) aid of
         None \<Rightarrow> Inl (Raised (ApprF LogApprovalMissing))
       | Some current \<Rightarrow>
           if ty = ''approval_resume_registered'' then on_approval_resume_registered H s aid current data
           else if ty = ''approval_granted'' then on_approval_granted s aid current
           else if ty = ''approval_consumed'' then on_approval_consumed H s aid current data
           else if ty = ''approval_rejected'' then on_approval_rejected s aid current
           else if ty = ''approval_expired'' then on_approval_expired s aid current
           else if ty = ''approval_resume_started'' then on_approval_resume_started H s aid current data
           else if ty = ''approval_resume_reentered'' then on_approval_resume_reentered s aid current data
           else if ty = ''approval_resume_completed'' then on_approval_resume_completed H s aid current data
           else if ty = ''approval_resume_failed'' then on_approval_resume_failed s aid current data
           else if ty = ''approval_resume_cancelled'' then on_approval_resume_cancelled s aid current
           else Inl (Raised (ApprF LogUnknownApprovalEvent)))))"

section \<open>Writes\<close>

definition set_write :: "operation_state \<Rightarrow> string \<Rightarrow> write_snapshot \<Rightarrow> operation_phase \<Rightarrow> operation_state" where
  "set_write s wid w ph = s\<lparr>os_phase := ph, os_writes := dset (os_writes s) wid w\<rparr>"

definition prepared_write :: "host \<Rightarrow> string \<Rightarrow> jdict \<Rightarrow> (log_fault, write_snapshot) result" where
  "prepared_write H wid data =
     bindE (case as_int_ge 1 (jget_or data ''idempotencyHashVersion'' (JInt 1)) of
              None \<Rightarrow> Inl (Raised (WriteF LogWriteHashVersion)) | Some i \<Rightarrow> Inr i) (\<lambda>hash_version.
     bindE (let v = jget data ''expectedEntityVersion'' in
            if v = JNull then Inr None else
            (case as_int_ge 0 v of None \<Rightarrow> Inl (Raised (WriteF LogWriteExpectedVersion)) | Some i \<Rightarrow> Inr (Some i))) (\<lambda>expected.
     bindE (text_field data ''toolName'') (\<lambda>name.
     bindE (py_dict (jget_or data ''arguments'' (JObj []))) (\<lambda>arguments.
     bindE (text_field data ''actionHash'') (\<lambda>hash.
     bindE (text_field data ''idempotencyKeyHash'') (\<lambda>key_hash.
     bindE (let v = jget data ''businessPreconditions'' in
            if v = JNull then Inr None else bindE (py_dict v) (\<lambda>p. Inr (Some p))) (\<lambda>preconditions.
     Inr \<lparr>wr_write_id = wid, wr_state = WrPrepared, wr_tool_name = name, wr_arguments = arguments,
          wr_action_hash = hash, wr_idempotency_key_hash = key_hash, wr_idempotency_hash_version = hash_version,
          wr_entity_id = str_or_none H (jget data ''entityId''), wr_expected_entity_version = expected,
          wr_business_preconditions = preconditions, wr_tool_call_id = str_or_none H (jget data ''toolCallId''),
          wr_approval_id = None, wr_result = None, wr_reconcile_fencing_token = None\<rparr>)))))))"

definition on_write_prepared :: "host \<Rightarrow> operation_state \<Rightarrow> string \<Rightarrow> jdict \<Rightarrow> log_step" where
  "on_write_prepared H s wid data =
     bindE (guardE (map_of (os_writes s) wid = None) (Raised (WriteF LogWriteRepeated))) (\<lambda>_.
     bindE (prepared_write H wid data) (\<lambda>w.
     bindE (case find (\<lambda>a. ap_write_id a = Some wid) (dvalues (os_approvals s)) of
              None \<Rightarrow> Inr ()
            | Some a \<Rightarrow> bindE (guardE (ap_action_hash a = wr_action_hash w) (Raised (BindF LogApprovalWriteHash))) (\<lambda>_.
                validate_approval_action H a (write_binding s w))) (\<lambda>_.
     Inr (s\<lparr>os_writes := dset (os_writes s) wid w\<rparr>))))"

definition on_write_waiting_approval :: "host \<Rightarrow> operation_state \<Rightarrow> string \<Rightarrow> write_snapshot \<Rightarrow> jdict \<Rightarrow> log_step" where
  "on_write_waiting_approval H s wid current data =
     bindE (guardE (wr_state current = WrPrepared) (Raised (WriteF LogWriteNotPrepared))) (\<lambda>_.
     bindE (text_field data ''approvalId'') (\<lambda>aid.
     case map_of (os_approvals s) aid of
       None \<Rightarrow> Inl (Raised (WriteF LogWriteApprovalMissing))
     | Some a \<Rightarrow>
         bindE (guardE (ap_action_hash a = wr_action_hash current) (Raised (BindF LogApprovalWriteHash))) (\<lambda>_.
         bindE (if ap_action a = [] then Inr () else
                bindE (guardE (ap_write_id a = Some (wr_write_id current)) (Raised (WriteF LogWriteBindingMismatch))) (\<lambda>_.
                validate_approval_action H a (write_binding s current))) (\<lambda>_.
         Inr (set_write s wid (current\<lparr>wr_state := WrWaitingApproval, wr_approval_id := Some aid\<rparr>)
           OpWaitingApproval)))))"

definition on_write_approved :: "host \<Rightarrow> operation_state \<Rightarrow> string \<Rightarrow> write_snapshot \<Rightarrow> jdict \<Rightarrow> log_step" where
  "on_write_approved H s wid current data =
     bindE (guardE (wr_state current \<in> {WrPrepared, WrWaitingApproval}) (Raised (WriteF LogWriteApproveState))) (\<lambda>_.
     bindE (case wr_approval_id current of
         None \<Rightarrow> guardE (jget data ''approvalId'' = JNull) (Raised (WriteF LogWriteApprovalUnexpected))
       | Some aid \<Rightarrow>
           bindE (guardE (jget data ''approvalId'' = JStr aid) (Raised (WriteF LogWriteApprovalMismatch))) (\<lambda>_.
           case map_of (os_approvals s) aid of
             None \<Rightarrow> Inl (Raised (WriteF LogWriteApprovalNotConsumed))
           | Some a \<Rightarrow>
               bindE (guardE (ap_state a \<in> {ApConsumed, ApResumeStarted}) (Raised (WriteF LogWriteApprovalNotConsumed))) (\<lambda>_.
               bindE (guardE (ap_action_hash a = wr_action_hash current) (Raised (BindF LogApprovalWriteHash))) (\<lambda>_.
               if ap_action a = [] then Inr () else validate_approval_action H a (write_binding s current))))) (\<lambda>_.
     Inr (set_write s wid (current\<lparr>wr_state := WrApproved\<rparr>) OpReadyToResume)))"

definition on_write_submitting :: "operation_state \<Rightarrow> string \<Rightarrow> write_snapshot \<Rightarrow> log_step" where
  "on_write_submitting s wid current =
     bindE (guardE (wr_state current = WrApproved) (Raised (WriteF LogSubmitNotApproved))) (\<lambda>_.
     bindE (case wr_tool_call_id current of
         None \<Rightarrow> Inr ()
       | Some tc \<Rightarrow> (case map_of (os_tools s) tc of
             None \<Rightarrow> Inl (Raised (WriteF LogSubmitWithoutDispatch))
           | Some t \<Rightarrow>
               bindE (guardE (to_phase t = ToDispatchStarted) (Raised (WriteF LogSubmitWithoutDispatch))) (\<lambda>_.
               guardE (to_tool_name t = wr_tool_name current \<and>
                   strict_json_equal (JObj (to_arguments t)) (JObj (wr_arguments current)))
                 (Raised (WriteF LogSubmitToolMismatch))))) (\<lambda>_.
     Inr (set_write s wid (current\<lparr>wr_state := WrSubmitting\<rparr>) OpExecutingWrite)))"

definition reconcile_token_check :: "write_snapshot \<Rightarrow> jdict \<Rightarrow> (log_fault, unit) result" where
  "reconcile_token_check current data = (if wr_state current = WrReconciling
     then validate_terminal_fencing_token (wr_reconcile_fencing_token current) data else Inr ())"

definition on_write_succeeded :: "operation_state \<Rightarrow> string \<Rightarrow> write_snapshot \<Rightarrow> jdict \<Rightarrow> log_step" where
  "on_write_succeeded s wid current data =
     bindE (guardE (wr_state current \<in> {WrSubmitting, WrReconciling}) (Raised (WriteF LogWriteSucceedState))) (\<lambda>_.
     bindE (reconcile_token_check current data) (\<lambda>_.
     bindE (validate_write_against_finished_tool s current WrSucceeded) (\<lambda>_.
     bindE (py_dict (jget_or data ''result'' (JObj []))) (\<lambda>result.
     Inr (set_write s wid (current\<lparr>wr_state := WrSucceeded, wr_result := Some result\<rparr>) OpRunning)))))"

definition on_write_failed :: "operation_state \<Rightarrow> string \<Rightarrow> write_snapshot \<Rightarrow> jdict \<Rightarrow> log_step" where
  "on_write_failed s wid current data =
     (let denied = (wr_state current = WrWaitingApproval \<and> jget data ''reason'' = JStr ''approval_not_granted'') in
      bindE (guardE (wr_state current \<in> {WrSubmitting, WrReconciling} \<or> denied) (Raised (WriteF LogWriteFailState))) (\<lambda>_.
      bindE (if denied then Inr () else
             bindE (reconcile_token_check current data) (\<lambda>_.
             validate_write_against_finished_tool s current WrFailed)) (\<lambda>_.
      bindE (py_dict (jget_or data ''result'' (JObj []))) (\<lambda>result.
      Inr (set_write s wid (current\<lparr>wr_state := WrFailed, wr_result := Some result\<rparr>) OpRunning)))))"

definition on_write_outcome_unknown :: "operation_state \<Rightarrow> string \<Rightarrow> write_snapshot \<Rightarrow> log_step" where
  "on_write_outcome_unknown s wid current =
     bindE (guardE (wr_state current = WrSubmitting) (Raised (WriteF LogWriteUnknownState))) (\<lambda>_.
     bindE (validate_write_against_finished_tool s current WrOutcomeUnknown) (\<lambda>_.
     Inr (set_write s wid (current\<lparr>wr_state := WrOutcomeUnknown\<rparr>) OpOutcomeUnknown)))"

definition on_write_reconciling :: "operation_state \<Rightarrow> string \<Rightarrow> write_snapshot \<Rightarrow> jdict \<Rightarrow> log_step" where
  "on_write_reconciling s wid current data =
     bindE (guardE (wr_state current = WrOutcomeUnknown) (Raised (WriteF LogReconcileState))) (\<lambda>_.
     bindE (optional_fencing_token data) (\<lambda>token.
     Inr (set_write s wid (current\<lparr>wr_state := WrReconciling, wr_reconcile_fencing_token := token\<rparr>)
       OpOutcomeUnknown)))"

definition on_write_reconcile_reentered :: "operation_state \<Rightarrow> string \<Rightarrow> write_snapshot \<Rightarrow> jdict \<Rightarrow> log_step" where
  "on_write_reconcile_reentered s wid current data =
     bindE (guardE (wr_state current = WrReconciling) (Raised (WriteF LogReconcileReenterState))) (\<lambda>_.
     bindE (required_fencing_token data) (\<lambda>token.
     bindE (guardE (case wr_reconcile_fencing_token current of None \<Rightarrow> True | Some old \<Rightarrow> old < token)
              (Raised (WriteF LogReconcileTokenNotIncreasing))) (\<lambda>_.
     Inr (set_write s wid (current\<lparr>wr_reconcile_fencing_token := Some token\<rparr>) OpOutcomeUnknown))))"

definition on_write_reconcile_failed :: "operation_state \<Rightarrow> string \<Rightarrow> write_snapshot \<Rightarrow> jdict \<Rightarrow> log_step" where
  "on_write_reconcile_failed s wid current data =
     bindE (guardE (wr_state current = WrReconciling) (Raised (WriteF LogReconcileFailState))) (\<lambda>_.
     bindE (validate_terminal_fencing_token (wr_reconcile_fencing_token current) data) (\<lambda>_.
     Inr (set_write s wid (current\<lparr>wr_state := WrOutcomeUnknown\<rparr>) OpOutcomeUnknown)))"

definition on_write_reconcile_deferred :: "operation_state \<Rightarrow> string \<Rightarrow> write_snapshot \<Rightarrow> jdict \<Rightarrow> log_step" where
  "on_write_reconcile_deferred s wid current data =
     bindE (guardE (wr_state current = WrReconciling) (Raised (WriteF LogReconcileDeferState))) (\<lambda>_.
     bindE (validate_terminal_fencing_token (wr_reconcile_fencing_token current) data) (\<lambda>_.
     bindE (py_dict (jget_or data ''result'' (JObj []))) (\<lambda>result.
     Inr (set_write s wid (current\<lparr>wr_state := WrOutcomeUnknown, wr_result := Some result\<rparr>) OpOutcomeUnknown))))"

definition reduce_write_event :: "host \<Rightarrow> operation_state \<Rightarrow> operation_event \<Rightarrow> log_step" where
  "reduce_write_event H s e =
     (let ty = ev_type e; data = ev_data e in
      bindE (text_field data ''writeId'') (\<lambda>wid.
      if ty = ''write_prepared'' then on_write_prepared H s wid data else
      (case map_of (os_writes s) wid of
         None \<Rightarrow> Inl (Raised (WriteF LogWriteMissing))
       | Some current \<Rightarrow>
           if ty = ''write_waiting_approval'' then on_write_waiting_approval H s wid current data
           else if ty = ''write_approved'' then on_write_approved H s wid current data
           else if ty = ''write_submitting'' then on_write_submitting s wid current
           else if ty = ''write_succeeded'' then on_write_succeeded s wid current data
           else if ty = ''write_failed'' then on_write_failed s wid current data
           else if ty = ''write_outcome_unknown'' then on_write_outcome_unknown s wid current
           else if ty = ''write_reconciling'' then on_write_reconciling s wid current data
           else if ty = ''write_reconcile_reentered'' then on_write_reconcile_reentered s wid current data
           else if ty = ''write_reconcile_failed'' then on_write_reconcile_failed s wid current data
           else if ty = ''write_reconcile_deferred'' then on_write_reconcile_deferred s wid current data
           else Inl (Raised (WriteF LogUnknownWriteEvent)))))"

section \<open>The end of an operation\<close>

definition parse_outcome :: "string \<Rightarrow> operation_phase option" where
  "parse_outcome t = (if t = ''completed'' then Some OpCompleted else if t = ''failed'' then Some OpFailed
     else if t = ''cancelled'' then Some OpCancelled else None)"

definition validate_operation_terminal_facts :: "operation_state \<Rightarrow> (log_fault, unit) result" where
  "validate_operation_terminal_facts s =
     guardE (list_all (\<lambda>t. to_phase t \<notin> {ToIntentRecorded, ToDispatchStarted, ToOutcomeUnknown}) (dvalues (os_tools s)) \<and>
         list_all (\<lambda>w. wr_state w \<notin> {WrPrepared, WrWaitingApproval, WrApproved, WrSubmitting, WrOutcomeUnknown,
             WrReconciling}) (dvalues (os_writes s)) \<and>
         list_all (\<lambda>a. ap_state a \<notin> {ApWaiting, ApApproved, ApConsumed, ApResumeStarted}) (dvalues (os_approvals s)))
       (Raised (FinishF LogFinishUnresolvedFacts))"

definition validate_completed_outcome :: "operation_state \<Rightarrow> (log_fault, unit) result" where
  "validate_completed_outcome s =
     bindE (case find (\<lambda>m. jget m ''role'' = JStr ''assistant'') (rev (os_messages s)) of
         None \<Rightarrow> Inr ()
       | Some m \<Rightarrow> bindE (in_texts (jget m ''stopReason'') [''error'', ''aborted'', ''length'']) (\<lambda>bad.
           guardE (\<not> bad) (Raised (FinishF LogFinishFailedResponse)))) (\<lambda>_.
     bindE (guardE (list_all (\<lambda>t. to_phase t = ToCompleted) (dvalues (os_tools s))) (Raised (FinishF LogFinishToolsOpen))) (\<lambda>_.
     bindE (guardE (list_all (\<lambda>a. \<not> (ap_state a \<in> {ApWaiting, ApApproved, ApResumeStarted} \<or>
              ap_state a = ApConsumed \<and> ap_resume_state a \<noteq> RsUnregistered)) (dvalues (os_approvals s)))
              (Raised (FinishF LogFinishApprovalsOpen))) (\<lambda>_.
     guardE (list_all (\<lambda>w. wr_state w \<in> {WrSucceeded, WrFailed}) (dvalues (os_writes s))) (Raised (FinishF LogFinishWritesOpen)))))"

definition on_operation_finished :: "host \<Rightarrow> operation_state \<Rightarrow> jdict \<Rightarrow> log_step" where
  "on_operation_finished H s data =
     bindE (guardE (list_all (\<lambda>r. rq_phase r \<noteq> RqStarted) (dvalues (os_model_requests s)))
              (Raised (FinishF LogFinishPendingRequests))) (\<lambda>_.
     bindE (catchE (validate_closed_tool_call_transcript H (os_messages s)) (\<lambda>f. Inl (Raised (FinishF (LogFinishTranscript f))))) (\<lambda>_.
     case parse_outcome (py_str H (jget_or data ''outcome'' (JStr ''failed''))) of
       None \<Rightarrow> Inl (Raised (FinishF LogFinishOutcomeInvalid))
     | Some outcome \<Rightarrow>
         bindE (validate_operation_terminal_facts s) (\<lambda>_.
         bindE (if outcome = OpCompleted then validate_completed_outcome s else Inr ()) (\<lambda>_.
         Inr (s\<lparr>os_phase := outcome, os_outcome := Some outcome\<rparr>)))))"

section \<open>The reducer and replay\<close>

definition terminal_phase :: "operation_phase \<Rightarrow> bool" where
  "terminal_phase p \<longleftrightarrow> p \<in> {OpCompleted, OpFailed, OpCancelled}"

definition dispatch_event :: "host \<Rightarrow> operation_state \<Rightarrow> operation_event \<Rightarrow> log_step" where
  "dispatch_event H s e =
     (let ty = ev_type e; data = ev_data e in
      if ty = ''message_appended'' then on_message_appended s data
      else if ty = ''model_policy_selected'' then on_model_policy_selected H s data
      else if ty = ''model_request_started'' then on_model_request_started H s data
      else if ty \<in> {''model_request_completed'', ''model_request_failed''} then on_model_request_finished H s ty data
      else if ty = ''tool_intent_recorded'' then on_tool_intent_recorded H s data
      else if ty = ''tool_dispatch_started'' then on_tool_dispatch_started H s data
      else if ty = ''tool_reconcile_started'' then on_tool_reconcile_started s data
      else if ty \<in> {''tool_completed'', ''tool_outcome_unknown'', ''tool_reconciled''} then on_tool_result s ty data
      else if startswith ty ''approval_'' then reduce_approval_event H s e
      else if startswith ty ''write_'' then reduce_write_event H s e
      else if ty = ''operation_finished'' then on_operation_finished H s data
      else if startswith ty ''routing_'' then Inr s
      else Inl (Raised (EvF LogUnknownEvent)))"

definition reduce_operation_event :: "host \<Rightarrow> operation_state option \<Rightarrow> operation_event \<Rightarrow> log_step" where
  "reduce_operation_event H so e = (case so of
     None \<Rightarrow> on_operation_started e
   | Some s \<Rightarrow>
       bindE (guardE (ev_session_id e = os_session_id s \<and> ev_operation_id e = os_operation_id s)
                (Raised (EvF LogIdentityMismatch))) (\<lambda>_.
       bindE (guardE (os_last_sequence s < ev_sequence e) (Raised (EvF LogSequenceNotIncreasing))) (\<lambda>_.
       bindE (guardE (\<not> terminal_phase (os_phase s)) (Raised (EvF LogAfterTerminal))) (\<lambda>_.
       dispatch_event H (s\<lparr>os_last_sequence := ev_sequence e\<rparr>) e))))"

definition reduce_opt :: "host \<Rightarrow> operation_event \<Rightarrow> operation_state option \<Rightarrow> (log_fault, operation_state option) result" where
  "reduce_opt H e so = bindE (reduce_operation_event H so e) (\<lambda>s. Inr (Some s))"

definition replay_operation :: "host \<Rightarrow> operation_event list \<Rightarrow> log_step" where
  "replay_operation H events =
     bindE (foldE (reduce_opt H) (sort_key ev_sequence events) None) (\<lambda>so.
     case so of None \<Rightarrow> Inl (Raised (EvF LogEmpty)) | Some s \<Rightarrow> Inr s)"

type_synonym event_spec = "string \<times> jdict"

definition spec_event :: "operation_state \<Rightarrow> int \<Rightarrow> int \<Rightarrow> event_spec \<Rightarrow> (log_fault, operation_event) result" where
  "spec_event s sq now spec = event_post_init \<lparr>ev_type = fst spec, ev_session_id = os_session_id s,
     ev_operation_id = os_operation_id s, ev_sequence = sq, ev_timestamp = now, ev_data = snd spec\<rparr>"

definition reduce_spec :: "host \<Rightarrow> int \<Rightarrow> event_spec \<Rightarrow> int \<times> operation_state \<Rightarrow> (log_fault, int \<times> operation_state) result" where
  "reduce_spec H now spec st = (case st of (sq, s) \<Rightarrow>
     bindE (spec_event s (sq + 1) now spec) (\<lambda>e.
     bindE (reduce_operation_event H (Some s) e) (\<lambda>s'. Inr (sq + 1, s'))))"

text \<open>\<open>max(event.sequence for event in events)\<close> runs after a successful replay, so the log is not empty.\<close>

definition replay_operation_with_specs ::
  "host \<Rightarrow> int \<Rightarrow> operation_event list \<Rightarrow> event_spec list \<Rightarrow> log_step" where
  "replay_operation_with_specs H now events specs =
     bindE (replay_operation H events) (\<lambda>s.
     bindE (foldE (reduce_spec H now) specs (Max (ev_sequence ` set events), s)) (\<lambda>r. Inr (snd r)))"

end
