(* ===== verification/Operation_Moves.thy ===== *)
theory Operation_Moves
  imports Operation_Log
begin

text \<open>
  An abstract specification of the operation log: an operation moves by changing one tool, one
  approval or one write along its life cycle, by exchanging messages and model requests, or by
  being closed. The reducer of \<open>Operation_Log\<close> refines this relation: every event it accepts
  is one of these moves. The invariants of the log are proved on the moves.
\<close>

section \<open>Life cycles\<close>

inductive tool_move :: "host \<Rightarrow> operation_state \<Rightarrow> string \<Rightarrow> tool_invocation_state option \<Rightarrow> tool_invocation_state \<Rightarrow> bool"
  for H s tc where
  intent: "to_tool_call_id t = tc \<Longrightarrow> to_phase t = ToIntentRecorded \<Longrightarrow> to_attempts t = 0 \<Longrightarrow> to_result t = None \<Longrightarrow>
    to_reconcile_fencing_token t = None \<Longrightarrow>
    validate_bound_tool H s (approval_for_tool_call s tc) tc t = Inr () \<Longrightarrow> tool_move H s tc None t"
| dispatch: "to_phase t \<in> {ToIntentRecorded, ToDispatchStarted} \<Longrightarrow>
    (\<forall>a. approval_for_tool_call s tc = Some a \<longrightarrow> ap_state a \<in> {ApConsumed, ApResumeStarted}) \<Longrightarrow>
    validate_bound_tool H s (approval_for_tool_call s tc) tc t = Inr () \<Longrightarrow>
    tool_move H s tc (Some t) (t\<lparr>to_phase := ToDispatchStarted, to_attempts := to_attempts t + 1\<rparr>)"
| reconcile: "to_phase t = ToOutcomeUnknown \<Longrightarrow> (\<forall>old. to_reconcile_fencing_token t = Some old \<longrightarrow> old < token) \<Longrightarrow>
    tool_move H s tc (Some t) (t\<lparr>to_reconcile_fencing_token := Some token\<rparr>)"
| result: "to_phase t \<noteq> ToCompleted \<Longrightarrow> validate_tool_write_result_consistency s t ty r = Inr () \<Longrightarrow>
    p = (if ty = ''tool_outcome_unknown'' then ToOutcomeUnknown else ToCompleted) \<Longrightarrow>
    tool_move H s tc (Some t) (t\<lparr>to_phase := p, to_result := Some r\<rparr>)"

inductive approval_move :: "host \<Rightarrow> operation_state \<Rightarrow> string \<Rightarrow> approval_snapshot option \<Rightarrow> approval_snapshot \<Rightarrow> bool"
  for H s aid where
  requested: "approval_move H s aid None \<lparr>ap_approval_id = aid, ap_state = ApWaiting, ap_action_hash = hash,
     ap_requester_id = requester, ap_required_role = role, ap_action = [], ap_tool_call_id = None,
     ap_write_id = None, ap_consumer_id = None, ap_resume_state = RsUnregistered, ap_resume_fencing_token = None\<rparr>"
| registered: "ap_resume_state a = RsUnregistered \<Longrightarrow> action_digest H action = ap_action_hash a \<Longrightarrow>
    envelope_from_dict (JObj action) = Inr env \<Longrightarrow> env_operation_id env = os_operation_id s \<Longrightarrow>
    map_of (os_writes s) (env_write_id env) = Some w \<Longrightarrow> wr_action_hash w = ap_action_hash a \<Longrightarrow>
    validate_planned_call s env w = Inr () \<Longrightarrow>
    (\<And>b. b \<in> set (dvalues (os_approvals s)) \<Longrightarrow> ap_approval_id b \<noteq> aid \<Longrightarrow>
       ap_tool_call_id b \<noteq> Some (env_tool_call_id env) \<and> ap_write_id b \<noteq> Some (env_write_id env)) \<Longrightarrow>
    approval_move H s aid (Some a) (a\<lparr>ap_action := envelope_to_dict env, ap_tool_call_id := Some (env_tool_call_id env),
      ap_write_id := Some (env_write_id env), ap_resume_state := RsRegistered\<rparr>)"
| granted: "ap_state a = ApWaiting \<Longrightarrow> approval_move H s aid (Some a) (a\<lparr>ap_state := ApApproved\<rparr>)"
| consumed: "ap_state a = ApApproved \<Longrightarrow>
    approval_move H s aid (Some a) (a\<lparr>ap_state := ApConsumed, ap_consumer_id := Some c\<rparr>)"
| denied: "ap_state a = ApWaiting \<Longrightarrow> d \<in> {ApRejected, ApExpired} \<Longrightarrow>
    approval_move H s aid (Some a) (a\<lparr>ap_state := d, ap_resume_state := RsCancelled\<rparr>)"
| resume_started: "ap_state a = ApConsumed \<Longrightarrow> ap_resume_state a \<in> {RsRegistered, RsStarted} \<Longrightarrow>
    validate_registered_approval_dependencies H s a False = Inr () \<Longrightarrow>
    approval_move H s aid (Some a) (a\<lparr>ap_state := ApResumeStarted, ap_resume_state := RsStarted, ap_resume_fencing_token := token\<rparr>)"
| reentered: "ap_state a = ApResumeStarted \<Longrightarrow> (\<forall>old. ap_resume_fencing_token a = Some old \<longrightarrow> old < token) \<Longrightarrow>
    approval_move H s aid (Some a) (a\<lparr>ap_resume_fencing_token := Some token\<rparr>)"
| resume_completed: "ap_state a = ApResumeStarted \<Longrightarrow> validate_registered_approval_dependencies H s a True = Inr () \<Longrightarrow>
    approval_move H s aid (Some a) (a\<lparr>ap_state := ApResumeCompleted, ap_resume_state := RsCompleted\<rparr>)"
| resume_failed: "ap_state a = ApResumeStarted \<Longrightarrow>
    approval_move H s aid (Some a) (a\<lparr>ap_state := ApResumeFailed, ap_resume_state := RsFailed\<rparr>)"
| resume_cancelled: "ap_state a \<in> {ApWaiting, ApRejected, ApExpired} \<Longrightarrow>
    approval_move H s aid (Some a) (a\<lparr>ap_state := ApResumeCancelled, ap_resume_state := RsCancelled\<rparr>)"

inductive write_move :: "host \<Rightarrow> operation_state \<Rightarrow> string \<Rightarrow> write_snapshot option \<Rightarrow> write_snapshot \<Rightarrow> bool"
  for H s wid where
  prepared: "wr_write_id w = wid \<Longrightarrow> wr_state w = WrPrepared \<Longrightarrow> wr_approval_id w = None \<Longrightarrow> wr_result w = None \<Longrightarrow>
    wr_reconcile_fencing_token w = None \<Longrightarrow>
    (\<forall>a. find (\<lambda>a. ap_write_id a = Some wid) (dvalues (os_approvals s)) = Some a \<longrightarrow> ap_action_hash a = wr_action_hash w) \<Longrightarrow>
    write_move H s wid None w"
| waiting: "wr_state w = WrPrepared \<Longrightarrow> map_of (os_approvals s) aid = Some a \<Longrightarrow> ap_action_hash a = wr_action_hash w \<Longrightarrow>
    write_move H s wid (Some w) (w\<lparr>wr_state := WrWaitingApproval, wr_approval_id := Some aid\<rparr>)"
| approved: "wr_state w \<in> {WrPrepared, WrWaitingApproval} \<Longrightarrow>
    (\<forall>aid. wr_approval_id w = Some aid \<longrightarrow> (\<exists>a. map_of (os_approvals s) aid = Some a \<and>
       ap_state a \<in> {ApConsumed, ApResumeStarted} \<and> ap_action_hash a = wr_action_hash w \<and>
       (ap_action a \<noteq> [] \<longrightarrow> validate_approval_action H a (write_binding s w) = Inr ()))) \<Longrightarrow>
    write_move H s wid (Some w) (w\<lparr>wr_state := WrApproved\<rparr>)"
| submitting: "wr_state w = WrApproved \<Longrightarrow>
    (\<forall>tc. wr_tool_call_id w = Some tc \<longrightarrow> (\<exists>t. map_of (os_tools s) tc = Some t \<and> to_phase t = ToDispatchStarted \<and>
       to_tool_name t = wr_tool_name w \<and> strict_json_equal (JObj (to_arguments t)) (JObj (wr_arguments w)))) \<Longrightarrow>
    write_move H s wid (Some w) (w\<lparr>wr_state := WrSubmitting\<rparr>)"
| succeeded: "wr_state w \<in> {WrSubmitting, WrReconciling} \<Longrightarrow>
    validate_write_against_finished_tool s w WrSucceeded = Inr () \<Longrightarrow>
    write_move H s wid (Some w) (w\<lparr>wr_state := WrSucceeded, wr_result := Some r\<rparr>)"
| failed: "wr_state w \<in> {WrSubmitting, WrReconciling, WrWaitingApproval} \<Longrightarrow>
    write_move H s wid (Some w) (w\<lparr>wr_state := WrFailed, wr_result := Some r\<rparr>)"
| unknown: "wr_state w = WrSubmitting \<Longrightarrow> write_move H s wid (Some w) (w\<lparr>wr_state := WrOutcomeUnknown\<rparr>)"
| reconciling: "wr_state w = WrOutcomeUnknown \<Longrightarrow>
    write_move H s wid (Some w) (w\<lparr>wr_state := WrReconciling, wr_reconcile_fencing_token := token\<rparr>)"
| reentered: "wr_state w = WrReconciling \<Longrightarrow> (\<forall>old. wr_reconcile_fencing_token w = Some old \<longrightarrow> old < token') \<Longrightarrow>
    write_move H s wid (Some w) (w\<lparr>wr_reconcile_fencing_token := Some token'\<rparr>)"
| reconcile_failed: "wr_state w = WrReconciling \<Longrightarrow> write_move H s wid (Some w) (w\<lparr>wr_state := WrOutcomeUnknown\<rparr>)"
| reconcile_deferred: "wr_state w = WrReconciling \<Longrightarrow>
    write_move H s wid (Some w) (w\<lparr>wr_state := WrOutcomeUnknown, wr_result := Some r\<rparr>)"

text \<open>What has to be settled before an operation may be closed.\<close>

definition settled :: "host \<Rightarrow> operation_state \<Rightarrow> bool" where
  "settled H s \<longleftrightarrow>
     (\<forall>r \<in> set (dvalues (os_model_requests s)). rq_phase r \<noteq> RqStarted) \<and>
     validate_closed_tool_call_transcript H (os_messages s) = Inr () \<and>
     (\<forall>t \<in> set (dvalues (os_tools s)). to_phase t = ToCompleted) \<and>
     (\<forall>w \<in> set (dvalues (os_writes s)). wr_state w \<in> {WrSucceeded, WrFailed}) \<and>
     (\<forall>a \<in> set (dvalues (os_approvals s)). ap_state a \<in>
        {ApRejected, ApExpired, ApResumeCompleted, ApResumeFailed, ApResumeCancelled})"

inductive log_move :: "host \<Rightarrow> operation_state \<Rightarrow> operation_state \<Rightarrow> bool" for H s where
  exchange: "\<not> terminal_phase ph \<Longrightarrow>
    log_move H s (s\<lparr>os_phase := ph, os_messages := os_messages s @ new, os_model_requests := rqs, os_active_model_policy := pol\<rparr>)"
| tool: "tool_move H s tc (map_of (os_tools s) tc) t \<Longrightarrow> log_move H s (s\<lparr>os_tools := dset (os_tools s) tc t\<rparr>)"
| approval: "approval_move H s aid (map_of (os_approvals s) aid) a \<Longrightarrow> \<not> terminal_phase ph \<Longrightarrow>
    log_move H s (set_approval s aid a ph)"
| write_: "write_move H s wid (map_of (os_writes s) wid) w \<Longrightarrow> \<not> terminal_phase ph \<Longrightarrow> log_move H s (set_write s wid w ph)"
| finish: "settled H s \<Longrightarrow> terminal_phase ph \<Longrightarrow> log_move H s (s\<lparr>os_phase := ph, os_outcome := Some ph\<rparr>)"

section \<open>The reducer refines the moves\<close>

lemma exchangeI:
  assumes "\<not> terminal_phase (os_phase s')" "os_messages s' = os_messages s @ new"
    "os_session_id s' = os_session_id s" "os_operation_id s' = os_operation_id s"
    "os_last_sequence s' = os_last_sequence s" "os_tools s' = os_tools s" "os_approvals s' = os_approvals s"
    "os_writes s' = os_writes s" "os_configuration s' = os_configuration s" "os_outcome s' = os_outcome s"
  shows "log_move H s s'"
proof -
  have "s' = s\<lparr>os_phase := os_phase s', os_messages := os_messages s @ new,
      os_model_requests := os_model_requests s', os_active_model_policy := os_active_model_policy s'\<rparr>"
    using assms by (intro operation_state.equality) simp_all
  with exchange[OF assms(1)] show ?thesis by metis
qed

lemma message_appended_move:
  "on_message_appended s data = Inr s' \<Longrightarrow> \<not> terminal_phase (os_phase s) \<Longrightarrow> log_move H s s'"
  by (auto simp: on_message_appended_def exc_simps intro: exchangeI)

lemma policy_selected_move:
  "on_model_policy_selected H s data = Inr s' \<Longrightarrow> \<not> terminal_phase (os_phase s) \<Longrightarrow> log_move H s s'"
  by (auto simp: on_model_policy_selected_def exc_simps intro: exchangeI[where new = "[]"])

lemma request_started_move:
  "on_model_request_started H s data = Inr s' \<Longrightarrow> \<not> terminal_phase (os_phase s) \<Longrightarrow> log_move H s s'"
  unfolding on_model_request_started_def bindE_eq_Inr by (auto intro: exchangeI[where new = "[]"])

lemma request_finished_move:
  "on_model_request_finished H s ty data = Inr s' \<Longrightarrow> \<not> terminal_phase (os_phase s) \<Longrightarrow> log_move H s s'"
  by (auto simp: on_model_request_finished_def exc_simps split: if_splits
      intro: exchangeI exchangeI[where new = "[]"])

lemma get_tool_ok: "get_tool s tc = Inr t \<longleftrightarrow> map_of (os_tools s) tc = Some t"
  by (simp add: get_tool_def split: option.splits)

lemma tool_intent_ok: "tool_intent H tc data = Inr t \<Longrightarrow>
  to_tool_call_id t = tc \<and> to_phase t = ToIntentRecorded \<and> to_attempts t = 0 \<and> to_result t = None \<and> to_reconcile_fencing_token t = None"
  by (auto simp: tool_intent_def exc_simps)

lemma intent_recorded_move: "on_tool_intent_recorded H s data = Inr s' \<Longrightarrow> log_move H s s'"
  unfolding on_tool_intent_recorded_def bindE_eq_Inr guardE_eq_Inr
  by (auto dest!: tool_intent_ok intro!: log_move.tool tool_move.intent)

lemma dispatch_started_move: "on_tool_dispatch_started H s data = Inr s' \<Longrightarrow> log_move H s s'"
  unfolding on_tool_dispatch_started_def bindE_eq_Inr guardE_eq_Inr Let_def get_tool_ok
  by (auto intro!: log_move.tool tool_move.dispatch[simplified] split: option.splits)

lemma reconcile_started_move: "on_tool_reconcile_started s data = Inr s' \<Longrightarrow> log_move H s s'"
  unfolding on_tool_reconcile_started_def bindE_eq_Inr guardE_eq_Inr get_tool_ok
  by (auto intro!: log_move.tool tool_move.reconcile split: option.splits)

lemma tool_result_move: "on_tool_result s ty data = Inr s' \<Longrightarrow> log_move H s s'"
  unfolding on_tool_result_def bindE_eq_Inr guardE_eq_Inr get_tool_ok
  by (auto intro!: log_move.tool tool_move.result split: if_splits)

lemma requested_move: "on_approval_requested s aid data = Inr s' \<Longrightarrow> log_move H s s'"
  unfolding on_approval_requested_def bindE_eq_Inr guardE_eq_Inr
  by (auto intro!: log_move.approval approval_move.requested simp: terminal_phase_def)

lemma registered_move:
  assumes "on_approval_resume_registered H s aid a data = Inr s'" "map_of (os_approvals s) aid = Some a"
    "\<not> terminal_phase (os_phase s)"
  shows "log_move H s s'"
proof -
  from assms(1) obtain env w where
    env: "resume_envelope H s a data = Inr env" and w: "map_of (os_writes s) (env_write_id env) = Some w"
    "wr_action_hash w = ap_action_hash a" "validate_planned_call s env w = Inr ()"
    and u: "list_all (\<lambda>a. ap_approval_id a = aid \<or>
                  ap_tool_call_id a \<noteq> Some (env_tool_call_id env) \<and>
                  ap_write_id a \<noteq> Some (env_write_id env)) (dvalues (os_approvals s))"
    and s': "s' = set_approval s aid
           (a\<lparr>ap_action := envelope_to_dict env, ap_tool_call_id := Some (env_tool_call_id env),
              ap_write_id := Some (env_write_id env), ap_resume_state := RsRegistered\<rparr>)
           (if ap_state a = ApWaiting then OpWaitingApproval else os_phase s)"
    unfolding on_approval_resume_registered_def by (auto simp: exc_simps split: option.splits)
  from env obtain action where "ap_resume_state a = RsUnregistered" "action_digest H action = ap_action_hash a"
    "envelope_from_dict (JObj action) = Inr env" "env_operation_id env = os_operation_id s"
    unfolding resume_envelope_def by (auto simp: exc_simps)
  from approval_move.registered[OF this w] u have "approval_move H s aid (Some a)
     (a\<lparr>ap_action := envelope_to_dict env, ap_tool_call_id := Some (env_tool_call_id env),
              ap_write_id := Some (env_write_id env), ap_resume_state := RsRegistered\<rparr>)"
    by (auto simp: list_all_iff)
  then show ?thesis unfolding s' using assms(2,3)
    by (intro log_move.approval) (auto simp: terminal_phase_def)
qed

lemmas approval_handlers = on_approval_granted_def on_approval_consumed_def on_approval_rejected_def
  on_approval_expired_def on_approval_resume_started_def on_approval_resume_reentered_def
  on_approval_resume_completed_def on_approval_resume_failed_def on_approval_resume_cancelled_def

lemmas approval_moves = approval_move.granted approval_move.consumed approval_move.denied
  approval_move.resume_started approval_move.reentered approval_move.resume_completed
  approval_move.resume_failed approval_move.resume_cancelled

lemma approval_cycle_move:
  assumes "map_of (os_approvals s) aid = Some a"
  shows "on_approval_granted s aid a = Inr s' \<Longrightarrow> log_move H s s'"
    and "on_approval_consumed H s aid a data = Inr s' \<Longrightarrow> log_move H s s'"
    and "on_approval_rejected s aid a = Inr s' \<Longrightarrow> log_move H s s'"
    and "on_approval_expired s aid a = Inr s' \<Longrightarrow> log_move H s s'"
    and "on_approval_resume_started H s aid a data = Inr s' \<Longrightarrow> log_move H s s'"
    and "on_approval_resume_reentered s aid a data = Inr s' \<Longrightarrow> log_move H s s'"
    and "on_approval_resume_completed H s aid a data = Inr s' \<Longrightarrow> log_move H s s'"
    and "on_approval_resume_failed s aid a data = Inr s' \<Longrightarrow> log_move H s s'"
    and "on_approval_resume_cancelled s aid a = Inr s' \<Longrightarrow> log_move H s s'"
  using assms unfolding approval_handlers bindE_eq_Inr guardE_eq_Inr
  by (auto intro!: log_move.approval approval_moves simp: terminal_phase_def split: option.splits)

lemma reduce_approval_move:
  assumes "reduce_approval_event H s e = Inr s'" "\<not> terminal_phase (os_phase s)"
  shows "log_move H s s'"
  using assms unfolding reduce_approval_event_def Let_def
  by (auto simp: exc_simps terminal_phase_def split: if_splits option.splits
      intro: exchangeI[where new = "[]"] requested_move registered_move approval_cycle_move)

lemma prepared_write_ok: "prepared_write H wid data = Inr w \<Longrightarrow>
  wr_write_id w = wid \<and> wr_state w = WrPrepared \<and> wr_approval_id w = None \<and> wr_result w = None \<and>
  wr_reconcile_fencing_token w = None"
  unfolding prepared_write_def bindE_eq_Inr by auto

lemma write_prepared_move:
  assumes "on_write_prepared H s wid data = Inr s'" "\<not> terminal_phase (os_phase s)"
  shows "log_move H s s'"
proof -
  from assms(1) obtain w where w: "map_of (os_writes s) wid = None" "prepared_write H wid data = Inr w"
    "\<forall>a. find (\<lambda>a. ap_write_id a = Some wid) (dvalues (os_approvals s)) = Some a \<longrightarrow> ap_action_hash a = wr_action_hash w"
    "s' = s\<lparr>os_writes := dset (os_writes s) wid w\<rparr>"
    unfolding on_write_prepared_def by (auto simp: exc_simps split: option.splits)
  then have "write_move H s wid (map_of (os_writes s) wid) w"
    using prepared_write_ok[OF w(2)] by (auto intro: write_move.prepared)
  from log_move.write_[OF this assms(2)] w(4) show ?thesis by (simp add: set_write_def)
qed

lemmas write_handlers = on_write_waiting_approval_def on_write_succeeded_def on_write_failed_def
  on_write_reconciling_def on_write_reconcile_reentered_def on_write_reconcile_deferred_def

lemmas write_moves = write_move.waiting write_move.succeeded write_move.failed write_move.reconciling
  write_move.reentered write_move.reconcile_deferred

lemma write_cycle_move:
  assumes "map_of (os_writes s) wid = Some w"
  shows "on_write_waiting_approval H s wid w data = Inr s' \<Longrightarrow> log_move H s s'"
    and "on_write_succeeded s wid w data = Inr s' \<Longrightarrow> log_move H s s'"
    and "on_write_failed s wid w data = Inr s' \<Longrightarrow> log_move H s s'"
    and "on_write_reconciling s wid w data = Inr s' \<Longrightarrow> log_move H s s'"
    and "on_write_reconcile_reentered s wid w data = Inr s' \<Longrightarrow> log_move H s s'"
    and "on_write_reconcile_deferred s wid w data = Inr s' \<Longrightarrow> log_move H s s'"
  using assms unfolding write_handlers
  by (auto intro!: log_move.write_ write_moves simp: terminal_phase_def exc_simps Let_def
      split: option.splits if_splits)

lemma write_unknown_move:
  assumes "map_of (os_writes s) wid = Some w"
  shows "on_write_outcome_unknown s wid w = Inr s' \<Longrightarrow> log_move H s s'"
    and "on_write_reconcile_failed s wid w data = Inr s' \<Longrightarrow> log_move H s s'"
  using assms unfolding on_write_outcome_unknown_def on_write_reconcile_failed_def
  by (auto intro!: log_move.write_ intro: write_move.unknown write_move.reconcile_failed
      simp: terminal_phase_def exc_simps)

lemma write_approved_move:
  assumes "map_of (os_writes s) wid = Some w" and "on_write_approved H s wid w data = Inr s'"
  shows "log_move H s s'"
proof -
  from assms(2) have st: "wr_state w \<in> {WrPrepared, WrWaitingApproval}"
    and s': "s' = set_write s wid (w\<lparr>wr_state := WrApproved\<rparr>) OpReadyToResume"
    by (auto simp: on_write_approved_def exc_simps)
  have "\<forall>aid. wr_approval_id w = Some aid \<longrightarrow> (\<exists>a. map_of (os_approvals s) aid = Some a \<and>
       ap_state a \<in> {ApConsumed, ApResumeStarted} \<and> ap_action_hash a = wr_action_hash w \<and>
       (ap_action a \<noteq> [] \<longrightarrow> validate_approval_action H a (write_binding s w) = Inr ()))"
    using assms(2) by (auto simp: on_write_approved_def exc_simps split: if_splits)
  from write_move.approved[OF st this] show ?thesis
    unfolding s' using assms(1) by (intro log_move.write_) (simp_all add: terminal_phase_def)
qed

lemma write_submitting_move:
  assumes "map_of (os_writes s) wid = Some w" and "on_write_submitting s wid w = Inr s'"
  shows "log_move H s s'"
proof -
  from assms(2) have st: "wr_state w = WrApproved"
    and s': "s' = set_write s wid (w\<lparr>wr_state := WrSubmitting\<rparr>) OpExecutingWrite"
    by (auto simp: on_write_submitting_def exc_simps)
  have "\<forall>tc. wr_tool_call_id w = Some tc \<longrightarrow> (\<exists>t. map_of (os_tools s) tc = Some t \<and> to_phase t = ToDispatchStarted \<and>
       to_tool_name t = wr_tool_name w \<and> strict_json_equal (JObj (to_arguments t)) (JObj (wr_arguments w)))"
    using assms(2) by (auto simp: on_write_submitting_def exc_simps simp del: strict_json_equal.simps)
  from write_move.submitting[OF st this] show ?thesis
    unfolding s' using assms(1) by (intro log_move.write_) (simp_all add: terminal_phase_def)
qed

lemma reduce_write_move:
  assumes "reduce_write_event H s e = Inr s'" "\<not> terminal_phase (os_phase s)"
  shows "log_move H s s'"
  using assms unfolding reduce_write_event_def Let_def
  by (auto simp: exc_simps split: if_splits option.splits intro: write_prepared_move write_cycle_move
      write_unknown_move write_approved_move write_submitting_move)

lemma finished_move:
  assumes "on_operation_finished H s data = Inr s'"
  shows "log_move H s s'"
proof -
  from assms obtain ph where
    "\<forall>r \<in> set (dvalues (os_model_requests s)). rq_phase r \<noteq> RqStarted"
    "validate_closed_tool_call_transcript H (os_messages s) = Inr ()"
    "validate_operation_terminal_facts s = Inr ()"
    and ph: "parse_outcome (py_str H (jget_or data ''outcome'' (JStr ''failed''))) = Some ph"
      "s' = s\<lparr>os_phase := ph, os_outcome := Some ph\<rparr>"
    by (auto simp: on_operation_finished_def exc_simps list_all_iff split: option.splits)
  moreover have "p \<in> {ApRejected, ApExpired, ApResumeCompleted, ApResumeFailed, ApResumeCancelled}"
    if "p \<notin> {ApWaiting, ApApproved, ApConsumed, ApResumeStarted}" for p using that by (cases p) auto
  moreover have "p = ToCompleted" if "p \<notin> {ToIntentRecorded, ToDispatchStarted, ToOutcomeUnknown}" for p
    using that by (cases p) auto
  moreover have "p \<in> {WrSucceeded, WrFailed}"
    if "p \<notin> {WrPrepared, WrWaitingApproval, WrApproved, WrSubmitting, WrOutcomeUnknown, WrReconciling}" for p
    using that by (cases p) auto
  ultimately have "settled H s"
    unfolding settled_def validate_operation_terminal_facts_def guardE_eq_Inr list_all_iff by blast
  moreover have "terminal_phase ph"
    using ph(1) by (auto simp: parse_outcome_def terminal_phase_def split: if_splits)
  ultimately show ?thesis unfolding ph(2) by (rule log_move.finish)
qed

lemma dispatch_event_move:
  assumes "dispatch_event H s e = Inr s'" "\<not> terminal_phase (os_phase s)"
  shows "log_move H s s'"
  using assms unfolding dispatch_event_def Let_def
  by (auto split: if_splits intro: message_appended_move policy_selected_move request_started_move
      request_finished_move intent_recorded_move dispatch_started_move reconcile_started_move tool_result_move
      reduce_approval_move reduce_write_move finished_move exchangeI[where new = "[]"])

end
