(* ===== verification/Operation_Invariants.thy ===== *)
theory Operation_Invariants
  imports Operation_Moves
begin

text \<open>
  The invariants of a replayed operation log: identities, the binding of approvals to tools and
  writes, the approval barrier in front of writes, the agreement of writes and tools, and what
  is settled when an operation is closed. Each part is shown to survive every abstract move; the
  reducer and replay inherit it through the refinement of \<open>Operation_Moves\<close>.
\<close>

section \<open>Frames and life-cycle facts\<close>

definition spent :: "approval_state set" where
  "spent = {ApConsumed, ApResumeStarted, ApResumeCompleted, ApResumeFailed}"

definition released :: "write_state set" where
  "released = {WrApproved, WrSubmitting, WrSucceeded, WrOutcomeUnknown, WrReconciling}"

lemma approval_move_facts:
  "approval_move H s aid (Some a) a' \<Longrightarrow>
     ap_approval_id a' = ap_approval_id a \<and> ap_action_hash a' = ap_action_hash a \<and>
     (ap_state a \<in> spent \<longrightarrow> ap_state a' \<in> spent)"
  by (erule approval_move.cases) (auto simp: spent_def)

lemma write_move_facts:
  "write_move H s wid (Some w) w' \<Longrightarrow>
     wr_write_id w' = wr_write_id w \<and> wr_action_hash w' = wr_action_hash w \<and> wr_tool_call_id w' = wr_tool_call_id w"
  by (erule write_move.cases) auto

lemma tool_move_facts:
  "tool_move H s tc (Some t) t' \<Longrightarrow> to_tool_call_id t' = to_tool_call_id t"
  by (erule tool_move.cases) auto

inductive_cases approval_move_new: "approval_move H s aid None a"
inductive_cases approval_move_old: "approval_move H s aid (Some a) a'"
inductive_cases write_move_new: "write_move H s wid None w"
inductive_cases write_move_old: "write_move H s wid (Some w) w'"
inductive_cases tool_move_new: "tool_move H s tc None t"
inductive_cases tool_move_old: "tool_move H s tc (Some t) t'"

lemma set_approval_sel [simp]:
  "os_approvals (set_approval s aid a ph) = dset (os_approvals s) aid a"
  "os_writes (set_approval s aid a ph) = os_writes s" "os_tools (set_approval s aid a ph) = os_tools s"
  "os_operation_id (set_approval s aid a ph) = os_operation_id s" "os_session_id (set_approval s aid a ph) = os_session_id s"
  "os_phase (set_approval s aid a ph) = ph" "os_outcome (set_approval s aid a ph) = os_outcome s"
  "os_messages (set_approval s aid a ph) = os_messages s" "os_last_sequence (set_approval s aid a ph) = os_last_sequence s"
  by (simp_all add: set_approval_def)

lemma set_write_sel [simp]:
  "os_approvals (set_write s wid w ph) = os_approvals s"
  "os_writes (set_write s wid w ph) = dset (os_writes s) wid w" "os_tools (set_write s wid w ph) = os_tools s"
  "os_operation_id (set_write s wid w ph) = os_operation_id s" "os_session_id (set_write s wid w ph) = os_session_id s"
  "os_phase (set_write s wid w ph) = ph" "os_outcome (set_write s wid w ph) = os_outcome s"
  "os_messages (set_write s wid w ph) = os_messages s" "os_last_sequence (set_write s wid w ph) = os_last_sequence s"
  by (simp_all add: set_write_def)

section \<open>Identities\<close>

definition ids_inv :: "operation_state \<Rightarrow> bool" where
  "ids_inv s \<longleftrightarrow> wf_dict (os_approvals s) \<and> wf_dict (os_writes s) \<and> wf_dict (os_tools s) \<and>
     (\<forall>k a. map_of (os_approvals s) k = Some a \<longrightarrow> ap_approval_id a = k) \<and>
     (\<forall>k w. map_of (os_writes s) k = Some w \<longrightarrow> wr_write_id w = k) \<and>
     (\<forall>k t. map_of (os_tools s) k = Some t \<longrightarrow> to_tool_call_id t = k)"

lemma approval_id_kept:
  "ids_inv s \<Longrightarrow> approval_move H s aid (map_of (os_approvals s) aid) a \<Longrightarrow> ap_approval_id a = aid"
  by (cases "map_of (os_approvals s) aid") (auto simp: ids_inv_def dest: approval_move_facts elim: approval_move_new)

lemma write_id_kept:
  "ids_inv s \<Longrightarrow> write_move H s wid (map_of (os_writes s) wid) w \<Longrightarrow> wr_write_id w = wid"
  by (cases "map_of (os_writes s) wid") (auto simp: ids_inv_def dest: write_move_facts elim: write_move_new)

lemma tool_id_kept:
  "ids_inv s \<Longrightarrow> tool_move H s tc (map_of (os_tools s) tc) t \<Longrightarrow> to_tool_call_id t = tc"
  by (cases "map_of (os_tools s) tc") (auto simp: ids_inv_def dest: tool_move_facts elim: tool_move_new)

lemma ids_inv_move: "log_move H s s' \<Longrightarrow> ids_inv s \<Longrightarrow> ids_inv s'"
proof (induction rule: log_move.induct)
  case (tool tc t)
  with tool_id_kept[OF tool.prems tool.hyps] show ?case by (simp add: ids_inv_def)
next
  case (approval aid a ph)
  with approval_id_kept[OF approval.prems approval.hyps(1)] show ?case by (simp add: ids_inv_def)
next
  case (write_ wid w ph)
  with write_id_kept[OF write_.prems write_.hyps(1)] show ?case by (simp add: ids_inv_def)
qed (simp_all add: ids_inv_def)

section \<open>Bindings of approvals\<close>

definition bound_to :: "operation_state \<Rightarrow> approval_snapshot \<Rightarrow> durable_action_envelope \<Rightarrow> bool" where
  "bound_to s a env \<longleftrightarrow> valid_envelope env \<and> ap_action a = envelope_to_dict env \<and>
     ap_tool_call_id a = Some (env_tool_call_id env) \<and> ap_write_id a = Some (env_write_id env) \<and>
     env_operation_id env = os_operation_id s \<and>
     (\<exists>w. map_of (os_writes s) (env_write_id env) = Some w \<and> wr_action_hash w = ap_action_hash a)"

definition bind_inv :: "operation_state \<Rightarrow> bool" where
  "bind_inv s \<longleftrightarrow> (\<forall>k a. map_of (os_approvals s) k = Some a \<longrightarrow>
     ap_action a = [] \<and> ap_tool_call_id a = None \<and> ap_write_id a = None \<or> (\<exists>env. bound_to s a env))"

lemma bound_to_writes:
  assumes "bound_to s a env" "os_operation_id s' = os_operation_id s" "ap_action a' = ap_action a"
    "ap_tool_call_id a' = ap_tool_call_id a" "ap_write_id a' = ap_write_id a" "ap_action_hash a' = ap_action_hash a"
    "\<And>k w. map_of (os_writes s) k = Some w \<Longrightarrow> \<exists>w'. map_of (os_writes s') k = Some w' \<and> wr_action_hash w' = wr_action_hash w"
  shows "bound_to s' a' env"
  using assms unfolding bound_to_def by fastforce

lemma bind_inv_move: "log_move H s s' \<Longrightarrow> bind_inv s \<Longrightarrow> bind_inv s'"
proof (induction rule: log_move.induct)
  case (approval aid a ph)
  show ?case unfolding bind_inv_def
  proof (intro allI impI)
    fix k b assume b: "map_of (os_approvals (set_approval s aid a ph)) k = Some b"
    show "ap_action b = [] \<and> ap_tool_call_id b = None \<and> ap_write_id b = None \<or> (\<exists>env. bound_to (set_approval s aid a ph) b env)"
    proof (cases "k = aid")
      case True
      from approval.hyps(1) b True approval.prems show ?thesis
        by (cases rule: approval_move.cases)
          (fastforce simp: bind_inv_def bound_to_def dest: envelope_from_dict_valid)+
    next
      case False
      with b approval show ?thesis
        by (fastforce simp: bind_inv_def bound_to_def)
    qed
  qed
next
  case (write_ wid w ph)
  have "\<exists>w'. map_of (os_writes (set_write s wid w ph)) k = Some w' \<and> wr_action_hash w' = wr_action_hash v"
    if "map_of (os_writes s) k = Some v" for k v
    using that write_.hyps(1) by (auto dest: write_move_facts)
  with write_.prems bound_to_writes[where s = s and s' = "set_write s wid w ph"] show ?case
    unfolding bind_inv_def by (metis set_write_sel(1,4))
qed (auto simp: bind_inv_def bound_to_def)

definition distinct_bindings :: "approval_snapshot \<Rightarrow> approval_snapshot \<Rightarrow> bool" where
  "distinct_bindings a b \<longleftrightarrow> (\<forall>x. ap_tool_call_id a = Some x \<longrightarrow> ap_tool_call_id b \<noteq> Some x) \<and>
     (\<forall>x. ap_write_id a = Some x \<longrightarrow> ap_write_id b \<noteq> Some x)"

lemma distinct_bindings_sym: "distinct_bindings a b \<Longrightarrow> distinct_bindings b a"
  by (auto simp: distinct_bindings_def)

definition uniq_inv :: "operation_state \<Rightarrow> bool" where
  "uniq_inv s \<longleftrightarrow> (\<forall>k k' a a'. map_of (os_approvals s) k = Some a \<longrightarrow> map_of (os_approvals s) k' = Some a' \<longrightarrow> k \<noteq> k' \<longrightarrow>
     distinct_bindings a a')"

lemma approval_binding_change:
  assumes "approval_move H s aid (Some a) a'"
  obtains (same) "ap_tool_call_id a' = ap_tool_call_id a" "ap_write_id a' = ap_write_id a"
  | (fresh) "\<And>b. b \<in> set (dvalues (os_approvals s)) \<Longrightarrow> ap_approval_id b \<noteq> aid \<Longrightarrow>
       ap_tool_call_id b \<noteq> ap_tool_call_id a' \<and> ap_write_id b \<noteq> ap_write_id a'"
  using assms by (cases rule: approval_move.cases) auto

lemma map_of_in_dvalues: "map_of d k = Some v \<Longrightarrow> v \<in> set (dvalues d)"
  by (force dest: map_of_SomeD)

lemma uniq_inv_approval:
  assumes inv: "uniq_inv s" "ids_inv s" and mv: "approval_move H s aid (map_of (os_approvals s) aid) a"
  shows "uniq_inv (set_approval s aid a ph)"
proof -
  have other: "distinct_bindings a b" if b: "map_of (os_approvals s) k = Some b" "k \<noteq> aid" for k b
  proof (cases "map_of (os_approvals s) aid")
    case None
    with mv show ?thesis by (auto simp: distinct_bindings_def elim: approval_move_new)
  next
    case (Some c)
    with mv have "approval_move H s aid (Some c) a" by simp
    then show ?thesis
    proof (cases rule: approval_binding_change)
      case same
      from inv(1) Some b have "distinct_bindings c b" unfolding uniq_inv_def by blast
      with same show ?thesis by (simp add: distinct_bindings_def)
    next
      case fresh
      from inv(2) b have "ap_approval_id b \<noteq> aid" by (simp add: ids_inv_def)
      from fresh[OF map_of_in_dvalues[OF b(1)] this] show ?thesis by (auto simp: distinct_bindings_def)
    qed
  qed
  with inv(1) show ?thesis
    unfolding uniq_inv_def by (auto split: if_splits intro: distinct_bindings_sym[OF other])
qed

lemma uniq_inv_move: "log_move H s s' \<Longrightarrow> uniq_inv s \<Longrightarrow> ids_inv s \<Longrightarrow> uniq_inv s'"
  by (cases rule: log_move.cases) (auto intro: uniq_inv_approval, auto simp: uniq_inv_def)

section \<open>The approval barrier\<close>

definition barrier_inv :: "operation_state \<Rightarrow> bool" where
  "barrier_inv s \<longleftrightarrow> (\<forall>k w aid. map_of (os_writes s) k = Some w \<longrightarrow> wr_approval_id w = Some aid \<longrightarrow>
     (\<exists>a. map_of (os_approvals s) aid = Some a \<and> ap_action_hash a = wr_action_hash w \<and>
        (wr_state w \<in> released \<longrightarrow> ap_state a \<in> spent)))"

lemma barrier_inv_write:
  assumes inv: "barrier_inv s" and mv: "write_move H s wid (map_of (os_writes s) wid) w"
  shows "barrier_inv (set_write s wid w ph)"
proof -
  have "\<exists>a. map_of (os_approvals s) aid = Some a \<and> ap_action_hash a = wr_action_hash w \<and>
        (wr_state w \<in> released \<longrightarrow> ap_state a \<in> spent)" if "wr_approval_id w = Some aid" for aid
  proof -
    have old: "\<exists>a. map_of (os_approvals s) aid = Some a \<and> ap_action_hash a = wr_action_hash v \<and>
        (wr_state v \<in> released \<longrightarrow> ap_state a \<in> spent)" if "map_of (os_writes s) wid = Some v" "wr_approval_id v = Some aid" for v
      using inv that by (simp add: barrier_inv_def)
    from mv show ?thesis
    proof (cases rule: write_move.cases)
      case (approved v)
      with that show ?thesis by (auto simp: spent_def)
    qed (use old that in \<open>fastforce simp: released_def\<close>)+
  qed
  with inv show ?thesis by (auto simp: barrier_inv_def)
qed

lemma barrier_inv_approval:
  assumes inv: "barrier_inv s" and mv: "approval_move H s aid (map_of (os_approvals s) aid) a"
  shows "barrier_inv (set_approval s aid a ph)"
  unfolding barrier_inv_def
proof (intro allI impI)
  fix k w aid' assume w: "map_of (os_writes (set_approval s aid a ph)) k = Some w" "wr_approval_id w = Some aid'"
  with inv obtain b where b: "map_of (os_approvals s) aid' = Some b" "ap_action_hash b = wr_action_hash w"
    "wr_state w \<in> released \<longrightarrow> ap_state b \<in> spent" unfolding barrier_inv_def set_approval_sel by blast
  show "\<exists>a'. map_of (os_approvals (set_approval s aid a ph)) aid' = Some a' \<and> ap_action_hash a' = wr_action_hash w \<and>
        (wr_state w \<in> released \<longrightarrow> ap_state a' \<in> spent)"
    using b mv by (cases "aid' = aid") (auto dest: approval_move_facts)
qed

lemma barrier_inv_move: "log_move H s s' \<Longrightarrow> barrier_inv s \<Longrightarrow> barrier_inv s'"
  by (cases rule: log_move.cases) (auto intro: barrier_inv_write barrier_inv_approval, auto simp: barrier_inv_def)

section \<open>Agreement of writes and tools\<close>

text \<open>A result that reports success: neither an error nor an unknown outcome.\<close>

definition clean_result :: "tool_invocation_state \<Rightarrow> bool" where
  "clean_result t \<longleftrightarrow> (let r = (case to_result t of None \<Rightarrow> [] | Some r \<Rightarrow> r) in
     \<not> truthy (jget r ''isError'') \<and> \<not> tool_result_is_outcome_unknown r)"

definition only_write_of :: "operation_state \<Rightarrow> string \<Rightarrow> string \<Rightarrow> bool" where
  "only_write_of s tc wid \<longleftrightarrow>
     (\<forall>k w. map_of (os_writes s) k = Some w \<longrightarrow> wr_tool_call_id w = Some tc \<longrightarrow> k = wid)"

definition result_inv :: "operation_state \<Rightarrow> bool" where
  "result_inv s \<longleftrightarrow> (\<forall>wid w tc t. map_of (os_writes s) wid = Some w \<longrightarrow> wr_state w = WrSucceeded \<longrightarrow>
     wr_tool_call_id w = Some tc \<longrightarrow> only_write_of s tc wid \<longrightarrow> map_of (os_tools s) tc = Some t \<longrightarrow>
     to_phase t \<in> {ToCompleted, ToOutcomeUnknown} \<longrightarrow> to_phase t = ToCompleted \<and> clean_result t)"

lemma only_write_of_mono:
  "only_write_of (set_write s wid w ph) tc k \<Longrightarrow> write_move H s wid (map_of (os_writes s) wid) w \<Longrightarrow> only_write_of s tc k"
  unfolding only_write_of_def by (auto split: if_splits dest: write_move_facts) (metis write_move_facts)

lemma find_only_write:
  assumes "ids_inv s" "only_write_of s tc wid" "map_of (os_writes s) wid = Some w" "wr_tool_call_id w = Some tc"
  shows "find (\<lambda>w. wr_tool_call_id w = Some tc) (dvalues (os_writes s)) = Some w"
proof (cases "find (\<lambda>w. wr_tool_call_id w = Some tc) (dvalues (os_writes s))")
  case None
  with assms(3,4) map_of_in_dvalues[OF assms(3)] show ?thesis by (auto simp: find_None_iff)
next
  case (Some v)
  from find_SomeD[OF this] have v: "wr_tool_call_id v = Some tc" "v \<in> set (dvalues (os_writes s))" by auto
  with assms(1) obtain k where "map_of (os_writes s) k = Some v"
    by (auto simp: ids_inv_def dvalues_iff simp del: set_map)
  with v(1) assms(2,3) Some show ?thesis by (auto simp: only_write_of_def)
qed

lemma result_inv_tool:
  assumes inv: "result_inv s" "ids_inv s" and mv: "tool_move H s tc (map_of (os_tools s) tc) t"
  shows "result_inv (s\<lparr>os_tools := dset (os_tools s) tc t\<rparr>)"
proof -
  have new: "to_phase t = ToCompleted \<and> clean_result t"
    if w: "map_of (os_writes s) wid = Some w" "wr_state w = WrSucceeded" "wr_tool_call_id w = Some tc"
      "only_write_of s tc wid" and t: "to_phase t \<in> {ToCompleted, ToOutcomeUnknown}" for wid w
    using mv
  proof (cases rule: tool_move.cases)
    case (reconcile t0 token)
    with inv(1) w have "to_phase t0 = ToCompleted" unfolding result_inv_def by blast
    with reconcile show ?thesis by simp
  next
    case (result t0 ty r p)
    from result(1) inv(2) have "to_tool_call_id t0 = tc" by (simp add: ids_inv_def)
    with find_only_write[OF inv(2) w(4,1,3)] result(4) w(2) show ?thesis
      unfolding result(2) by (auto simp: validate_tool_write_result_consistency_def Let_def exc_simps clean_result_def result(5)
          split: if_splits)
  qed (use t in auto)
  have frame: "only_write_of (s\<lparr>os_tools := dset (os_tools s) tc t\<rparr>) tc' k = only_write_of s tc' k" for tc' k
    by (simp add: only_write_of_def)
  show ?thesis
    unfolding result_inv_def frame
  proof (intro allI impI, goal_cases)
    case (1 wid w tc' t')
    then show ?case using new[of wid w] inv(1)[unfolded result_inv_def, rule_format, of wid w tc' t']
      by (cases "tc' = tc") simp_all
  qed
qed

lemma result_inv_write:
  assumes inv: "result_inv s" and mv: "write_move H s wid (map_of (os_writes s) wid) w"
  shows "result_inv (set_write s wid w ph)"
  unfolding result_inv_def
proof (intro allI impI)
  fix k v tc t
  assume v: "map_of (os_writes (set_write s wid w ph)) k = Some v" "wr_state v = WrSucceeded" "wr_tool_call_id v = Some tc"
    "only_write_of (set_write s wid w ph) tc k" "map_of (os_tools (set_write s wid w ph)) tc = Some t"
    "to_phase t \<in> {ToCompleted, ToOutcomeUnknown}"
  show "to_phase t = ToCompleted \<and> clean_result t"
  proof (cases "k = wid")
    case False
    with v inv only_write_of_mono[OF v(4) mv] show ?thesis unfolding result_inv_def by simp
  next
    case True
    with v have vw: "v = w" by simp
    from mv show ?thesis
    proof (cases rule: write_move.cases)
      case (succeeded w0 r)
      with v vw show ?thesis
        by (auto simp: validate_write_against_finished_tool_def Let_def exc_simps clean_result_def split: if_splits)
    qed (use v vw in auto)
  qed
qed

lemma result_inv_move: "log_move H s s' \<Longrightarrow> result_inv s \<Longrightarrow> ids_inv s \<Longrightarrow> result_inv s'"
  by (cases rule: log_move.cases)
    (auto intro: result_inv_write result_inv_tool, auto simp: result_inv_def only_write_of_def)

section \<open>Closed operations\<close>

definition final_inv :: "host \<Rightarrow> operation_state \<Rightarrow> bool" where
  "final_inv H s \<longleftrightarrow> (if terminal_phase (os_phase s) then settled H s \<and> os_outcome s = Some (os_phase s)
     else os_outcome s = None)"

lemma final_inv_move:
  "log_move H s s' \<Longrightarrow> final_inv H s \<Longrightarrow> \<not> terminal_phase (os_phase s) \<Longrightarrow> final_inv H s'"
  by (cases rule: log_move.cases) (auto simp: final_inv_def settled_def)

section \<open>Replay\<close>

definition log_inv :: "host \<Rightarrow> operation_state \<Rightarrow> bool" where
  "log_inv H s \<longleftrightarrow> ids_inv s \<and> bind_inv s \<and> uniq_inv s \<and> barrier_inv s \<and> result_inv s \<and> final_inv H s"

lemma log_inv_move: "log_move H s s' \<Longrightarrow> log_inv H s \<Longrightarrow> \<not> terminal_phase (os_phase s) \<Longrightarrow> log_inv H s'"
  unfolding log_inv_def
  by (blast intro: ids_inv_move bind_inv_move uniq_inv_move barrier_inv_move result_inv_move final_inv_move)

lemma log_inv_sequence [simp]: "log_inv H (s\<lparr>os_last_sequence := n\<rparr>) = log_inv H s"
  by (simp add: log_inv_def ids_inv_def bind_inv_def bound_to_def uniq_inv_def barrier_inv_def result_inv_def
      only_write_of_def final_inv_def settled_def)

lemma reduce_some_ok:
  "reduce_operation_event H (Some s) e = Inr s' \<longleftrightarrow>
     ev_session_id e = os_session_id s \<and> ev_operation_id e = os_operation_id s \<and> os_last_sequence s < ev_sequence e \<and>
     \<not> terminal_phase (os_phase s) \<and> dispatch_event H (s\<lparr>os_last_sequence := ev_sequence e\<rparr>) e = Inr s'"
  by (auto simp: reduce_operation_event_def exc_simps)

lemma reduce_move:
  "reduce_operation_event H (Some s) e = Inr s' \<Longrightarrow> log_move H (s\<lparr>os_last_sequence := ev_sequence e\<rparr>) s'"
  by (auto simp: reduce_some_ok intro: dispatch_event_move)

lemma log_inv_started: "on_operation_started e = Inr s \<Longrightarrow> log_inv H s"
  by (auto simp: on_operation_started_def exc_simps log_inv_def ids_inv_def bind_inv_def uniq_inv_def
      barrier_inv_def result_inv_def final_inv_def terminal_phase_def)

lemma log_inv_reduce:
  assumes "reduce_operation_event H so e = Inr s'" "\<forall>s. so = Some s \<longrightarrow> log_inv H s"
  shows "log_inv H s'"
proof (cases so)
  case None
  with assms(1) show ?thesis by (simp add: reduce_operation_event_def log_inv_started)
next
  case (Some s)
  with assms reduce_move[of H s e s'] show ?thesis
    by (auto simp: reduce_some_ok intro: log_inv_move)
qed

lemma log_inv_replay: "replay_operation H es = Inr s \<Longrightarrow> log_inv H s"
proof -
  assume r: "replay_operation H es = Inr s"
  then have f: "foldE (reduce_opt H) (sort_key ev_sequence es) None = Inr (Some s)"
    by (auto simp: replay_operation_def exc_simps)
  have "\<forall>t. Some s = Some t \<longrightarrow> log_inv H t"
    by (rule foldE_invariant[OF f, where I = "\<lambda>so. \<forall>t. so = Some t \<longrightarrow> log_inv H t"])
      (auto simp: reduce_opt_def exc_simps intro: log_inv_reduce)
  then show ?thesis by simp
qed

end
