(* ===== verification/Operation_Theorems.thy ===== *)
theory Operation_Theorems
  imports Operation_Invariants
begin

text \<open>
  The guarantees of the operation log, for every log that replays: the approval barrier, at most
  one submission and one consumption, the agreement of approvals with what is dispatched, the
  settlement of closed operations, independence of the stored order and the soundness of validating
  a batch before it is appended. The sample log of the witnesses is the complete life of an
  approved write.
\<close>

section \<open>Accepted events of one kind\<close>

lemma text_field_ok: "text_field d k = Inr s \<longleftrightarrow> jget d k = JStr s \<and> s \<noteq> []"
  by (auto simp: text_field_def nonempty_text_def split: json.splits)

lemma reduce_submitting:
  assumes "reduce_operation_event H (Some s) e = Inr s'" "ev_type e = ''write_submitting''" "jget (ev_data e) ''writeId'' = JStr wid"
  obtains w where "map_of (os_writes s) wid = Some w" "wr_state w = WrApproved"
    "s' = set_write (s\<lparr>os_last_sequence := ev_sequence e\<rparr>) wid (w\<lparr>wr_state := WrSubmitting\<rparr>) OpExecutingWrite"
proof -
  from assms have "reduce_write_event H (s\<lparr>os_last_sequence := ev_sequence e\<rparr>) e = Inr s'"
    by (simp add: reduce_some_ok dispatch_event_def startswith_def)
  with assms(2,3) show ?thesis
    by (auto simp: reduce_write_event_def Let_def exc_simps text_field_ok on_write_submitting_def intro: that)
qed

lemma reduce_consumed:
  assumes "reduce_operation_event H (Some s) e = Inr s'" "ev_type e = ''approval_consumed''" "jget (ev_data e) ''approvalId'' = JStr aid"
  obtains a c where "map_of (os_approvals s) aid = Some a" "ap_state a = ApApproved"
    "s' = set_approval (s\<lparr>os_last_sequence := ev_sequence e\<rparr>) aid (a\<lparr>ap_state := ApConsumed, ap_consumer_id := c\<rparr>) OpReadyToResume"
proof -
  from assms have "reduce_approval_event H (s\<lparr>os_last_sequence := ev_sequence e\<rparr>) e = Inr s'"
    by (simp add: reduce_some_ok dispatch_event_def startswith_def)
  with assms(2,3) show ?thesis
    by (auto simp: reduce_approval_event_def Let_def exc_simps text_field_ok on_approval_consumed_def intro: that)
qed

lemma approval_for_tool_call_sequence [simp]:
  "approval_for_tool_call (s\<lparr>os_last_sequence := n\<rparr>) tc = approval_for_tool_call s tc"
  by (simp add: approval_for_tool_call_def)

lemma reduce_dispatch:
  assumes "reduce_operation_event H (Some s) e = Inr s'" "ev_type e = ''tool_dispatch_started''" "jget (ev_data e) ''toolCallId'' = JStr tc"
  obtains t where "map_of (os_tools s) tc = Some t"
    "\<forall>a. approval_for_tool_call s tc = Some a \<longrightarrow> ap_state a \<in> {ApConsumed, ApResumeStarted}"
    "validate_bound_tool H (s\<lparr>os_last_sequence := ev_sequence e\<rparr>) (approval_for_tool_call s tc) tc t = Inr ()"
proof -
  from assms have "on_tool_dispatch_started H (s\<lparr>os_last_sequence := ev_sequence e\<rparr>) (ev_data e) = Inr s'"
    by (simp add: reduce_some_ok dispatch_event_def)
  with assms(3) show ?thesis
    unfolding on_tool_dispatch_started_def bindE_eq_Inr guardE_eq_Inr Let_def get_tool_ok text_field_ok
    by (auto intro: that split: option.splits)
qed

section \<open>At most once\<close>

text \<open>
  The interface of a one-time event: once the fact it establishes holds, it keeps
  holding and refuses the event.
\<close>

locale one_time_event =
  fixes host :: host and once :: "operation_event \<Rightarrow> bool" and settles :: "operation_state \<Rightarrow> bool"
  assumes first_not: "on_operation_started e = Inr s \<Longrightarrow> \<not> once e"
    and establishes: "reduce_operation_event host (Some s) e = Inr s' \<Longrightarrow> once e \<Longrightarrow> \<not> settles s \<and> settles s'"
    and persists: "reduce_operation_event host (Some s) e = Inr s' \<Longrightarrow> settles s \<Longrightarrow> settles s'"
begin

lemma count_bound:
  "foldE (reduce_opt host) es None = Inr so \<Longrightarrow>
   length (filter once es) \<le> (case so of None \<Rightarrow> 0 | Some s \<Rightarrow> if settles s then 1 else 0)"
proof (induction es arbitrary: so rule: rev_induct)
  case Nil
  then show ?case by auto
next
  case (snoc e es)
  then obtain so1 s where so1: "foldE (reduce_opt host) es None = Inr so1" "reduce_operation_event host so1 e = Inr s" "so = Some s"
    unfolding foldE_append bindE_eq_Inr foldE.simps reduce_opt_def[of _ e] by auto
  note bound = snoc.IH[OF so1(1)]
  show ?case
  proof (cases so1)
    case None
    with so1(2) have "\<not> once e" by (auto simp: reduce_operation_event_def dest: first_not)
    with bound None show ?thesis by simp
  next
    case (Some s1)
    with so1 establishes[of s1 e s] persists[of s1 e s] bound show ?thesis
      by (auto split: if_splits)
  qed
qed

lemma at_most_once:
  assumes "replay_operation host es = Inr s"
  shows "length (filter once es) \<le> 1"
proof -
  from assms have "foldE (reduce_opt host) (sort_key ev_sequence es) None = Inr (Some s)"
    by (auto simp: replay_operation_def exc_simps)
  from count_bound[OF this] have "length (filter once (sort_key ev_sequence es)) \<le> 1"
    by (auto split: if_splits)
  moreover have "length (filter once (sort_key ev_sequence es)) = length (filter once es)"
    by (metis mset_filter mset_sort size_mset)
  ultimately show ?thesis by simp
qed

end

definition submits :: "string \<Rightarrow> operation_event \<Rightarrow> bool" where
  "submits wid e \<longleftrightarrow> ev_type e = ''write_submitting'' \<and> jget (ev_data e) ''writeId'' = JStr wid"

definition consumes :: "string \<Rightarrow> operation_event \<Rightarrow> bool" where
  "consumes aid e \<longleftrightarrow> ev_type e = ''approval_consumed'' \<and> jget (ev_data e) ''approvalId'' = JStr aid"

text \<open>A write that has left the states before submission, an approval that has been used or denied.\<close>

definition unsent :: "write_state set" where
  "unsent = {WrPrepared, WrWaitingApproval, WrApproved}"

definition submitted :: "string \<Rightarrow> operation_state \<Rightarrow> bool" where
  "submitted wid s \<longleftrightarrow> (\<exists>w. map_of (os_writes s) wid = Some w \<and> wr_state w \<notin> unsent)"

definition unused :: "approval_state set" where
  "unused = {ApWaiting, ApApproved}"

definition used_up :: "string \<Rightarrow> operation_state \<Rightarrow> bool" where
  "used_up aid s \<longleftrightarrow> (\<exists>a. map_of (os_approvals s) aid = Some a \<and> ap_state a \<notin> unused)"

lemma write_move_submitted: "write_move H s wid (Some w) w' \<Longrightarrow> wr_state w \<notin> unsent \<Longrightarrow> wr_state w' \<notin> unsent"
  by (erule write_move_old) (auto simp: unsent_def)

lemma approval_move_used: "approval_move H s aid (Some a) a' \<Longrightarrow> ap_state a \<notin> unused \<Longrightarrow> ap_state a' \<notin> unused"
  by (erule approval_move_old) (auto simp: unused_def)

lemma submitted_move: "log_move H s s' \<Longrightarrow> submitted wid s \<Longrightarrow> submitted wid s'"
proof (induction rule: log_move.induct)
  case (write_ wid' w ph)
  then show ?case by (cases "wid' = wid") (auto simp: submitted_def dest: write_move_submitted)
qed (auto simp: submitted_def)

lemma used_up_move: "log_move H s s' \<Longrightarrow> used_up aid s \<Longrightarrow> used_up aid s'"
proof (induction rule: log_move.induct)
  case (approval aid' a ph)
  then show ?case by (cases "aid' = aid") (auto simp: used_up_def dest: approval_move_used)
qed (auto simp: used_up_def)

lemma submitted_sequence [simp]: "submitted wid (s\<lparr>os_last_sequence := n\<rparr>) = submitted wid s"
  by (simp add: submitted_def)

lemma used_up_sequence [simp]: "used_up aid (s\<lparr>os_last_sequence := n\<rparr>) = used_up aid s"
  by (simp add: used_up_def)

interpretation submission: one_time_event H "submits wid" "submitted wid" for H wid
proof unfold_locales
  fix s s' e
  show "\<not> submits wid e" if "on_operation_started e = Inr s"
    using that by (auto simp: submits_def on_operation_started_def exc_simps)
  show "\<not> submitted wid s \<and> submitted wid s'" if "reduce_operation_event H (Some s) e = Inr s'" "submits wid e"
    using that unfolding submits_def by (elim conjE reduce_submitting) (auto simp: submitted_def unsent_def)
  show "submitted wid s'" if "reduce_operation_event H (Some s) e = Inr s'" "submitted wid s"
    using submitted_move[OF reduce_move[OF that(1)]] that(2) by simp
qed

interpretation consumption: one_time_event H "consumes aid" "used_up aid" for H aid
proof unfold_locales
  fix s s' e
  show "\<not> consumes aid e" if "on_operation_started e = Inr s"
    using that by (auto simp: consumes_def on_operation_started_def exc_simps)
  show "\<not> used_up aid s \<and> used_up aid s'" if "reduce_operation_event H (Some s) e = Inr s'" "consumes aid e"
    using that unfolding consumes_def by (elim conjE reduce_consumed) (auto simp: used_up_def unused_def)
  show "used_up aid s'" if "reduce_operation_event H (Some s) e = Inr s'" "used_up aid s"
    using used_up_move[OF reduce_move[OF that(1)]] that(2) by simp
qed

section \<open>Sample log\<close>

text \<open>
  The life of one approved refund: the model plans the call, the write is prepared and bound to
  an approval, the approval is granted and consumed, the resume is started under a fencing token,
  tool and write run, and the operation is completed.
\<close>

definition log_host :: host where
  "log_host = \<lparr>sha256_hex = (\<lambda>_. ''h''), repr_of = (\<lambda>_. ''float''), read_float = (\<lambda>_. FNan)\<rparr>"

definition sample_action :: durable_action_envelope where
  "sample_action = \<lparr>env_operation_id = ''op'', env_tool_call_id = ''c'', env_tool_name = ''t'',
     env_arguments = [(''n'', JInt 5)], env_write_id = ''w'', env_entity_id = None,
     env_expected_entity_version = None, env_business_preconditions = None, env_version = 1\<rparr>"

definition sample_hash :: json where
  "sample_hash = JStr (action_digest log_host (envelope_to_dict sample_action))"

definition sample_policy_dict :: json where
  "sample_policy_dict = JObj [(''version'', JInt 1), (''visibleToolNames'', JList [JStr ''t'']), (''toolChoice'', JStr ''auto'')]"

definition sample_plan :: json where
  "sample_plan = JObj [(''role'', JStr ''assistant''), (''stopReason'', JStr ''toolUse''),
     (''content'', JList [JObj [(''type'', JStr ''toolCall''), (''id'', JStr ''c''), (''name'', JStr ''t''),
        (''arguments'', JObj [(''n'', JInt 5)])]])]"

definition sample_specs :: "event_spec list" where
  "sample_specs =
     [(''operation_started'', []),
      (''model_request_started'', [(''requestId'', JStr ''r''), (''requestPolicy'', sample_policy_dict)]),
      (''model_request_completed'', [(''requestId'', JStr ''r''), (''message'', sample_plan)]),
      (''approval_requested'', [(''approvalId'', JStr ''a''), (''actionHash'', sample_hash),
         (''requesterId'', JStr ''u''), (''requiredRole'', JStr ''admin'')]),
      (''write_prepared'', [(''writeId'', JStr ''w''), (''toolName'', JStr ''t''), (''arguments'', JObj [(''n'', JInt 5)]),
         (''actionHash'', sample_hash), (''idempotencyKeyHash'', JStr ''k''), (''toolCallId'', JStr ''c'')]),
      (''write_waiting_approval'', [(''writeId'', JStr ''w''), (''approvalId'', JStr ''a'')]),
      (''approval_resume_registered'', [(''approvalId'', JStr ''a''), (''action'', JObj (envelope_to_dict sample_action)),
         (''resumePayload'', JObj [(''envelope'', JObj (envelope_to_dict sample_action))])]),
      (''approval_granted'', [(''approvalId'', JStr ''a'')]),
      (''approval_consumed'', [(''approvalId'', JStr ''a''), (''consumerId'', JStr ''k'')]),
      (''tool_intent_recorded'', [(''toolCallId'', JStr ''c''), (''toolName'', JStr ''t''), (''arguments'', JObj [(''n'', JInt 5)])]),
      (''approval_resume_started'', [(''approvalId'', JStr ''a''), (''fencingToken'', JInt 1)]),
      (''write_approved'', [(''writeId'', JStr ''w''), (''approvalId'', JStr ''a'')]),
      (''tool_dispatch_started'', [(''toolCallId'', JStr ''c'')]),
      (''write_submitting'', [(''writeId'', JStr ''w'')]),
      (''write_succeeded'', [(''writeId'', JStr ''w'')]),
      (''tool_completed'', [(''toolCallId'', JStr ''c'')]),
      (''message_appended'', [(''message'', JObj [(''role'', JStr ''toolResult''), (''toolCallId'', JStr ''c''), (''toolName'', JStr ''t''),
         (''content'', JList [])])]),
      (''approval_resume_completed'', [(''approvalId'', JStr ''a''), (''fencingToken'', JInt 1)]),
      (''operation_finished'', [(''outcome'', JStr ''completed'')])]"

definition sample_events :: "nat \<Rightarrow> operation_event list" where
  "sample_events n = map (\<lambda>(i, spec). \<lparr>ev_type = fst spec, ev_session_id = ''s'', ev_operation_id = ''op'',
     ev_sequence = int i, ev_timestamp = 0, ev_data = snd spec\<rparr>) (List.enumerate 0 (take n sample_specs))"

section \<open>The history behind a state\<close>

definition grants :: "string \<Rightarrow> operation_event \<Rightarrow> bool" where
  "grants aid e \<longleftrightarrow> ev_type e = ''approval_granted'' \<and> jget (ev_data e) ''approvalId'' = JStr aid"

text \<open>Only approval events touch the approvals.\<close>

lemma if_InrE: "(if c then x else y) = Inr z \<Longrightarrow> (x = Inr z \<Longrightarrow> P) \<Longrightarrow> (y = Inr z \<Longrightarrow> P) \<Longrightarrow> P"
  by (simp split: if_splits)

lemma exchange_keeps_approvals:
  "on_message_appended s d = Inr s' \<Longrightarrow> os_approvals s' = os_approvals s"
  "on_model_policy_selected H s d = Inr s' \<Longrightarrow> os_approvals s' = os_approvals s"
  "on_model_request_started H s d = Inr s' \<Longrightarrow> os_approvals s' = os_approvals s"
  "on_model_request_finished H s ty d = Inr s' \<Longrightarrow> os_approvals s' = os_approvals s"
  unfolding on_message_appended_def on_model_policy_selected_def on_model_request_started_def
    on_model_request_finished_def
  by (force simp: bindE_eq_Inr case_none_raise_eq_Inr split: if_splits)+

lemma tool_keeps_approvals:
  "on_tool_intent_recorded H s d = Inr s' \<Longrightarrow> os_approvals s' = os_approvals s"
  "on_tool_dispatch_started H s d = Inr s' \<Longrightarrow> os_approvals s' = os_approvals s"
  "on_tool_reconcile_started s d = Inr s' \<Longrightarrow> os_approvals s' = os_approvals s"
  "on_tool_result s ty d = Inr s' \<Longrightarrow> os_approvals s' = os_approvals s"
  "on_operation_finished H s d = Inr s' \<Longrightarrow> os_approvals s' = os_approvals s"
  unfolding on_tool_intent_recorded_def on_tool_dispatch_started_def on_tool_reconcile_started_def
    on_tool_result_def on_operation_finished_def Let_def bindE_eq_Inr case_none_raise_eq_Inr
  by fastforce+

lemma write_keeps_approvals:
  "on_write_prepared H s wid d = Inr s' \<Longrightarrow> os_approvals s' = os_approvals s"
  "on_write_waiting_approval H s wid w d = Inr s' \<Longrightarrow> os_approvals s' = os_approvals s"
  "on_write_approved H s wid w d = Inr s' \<Longrightarrow> os_approvals s' = os_approvals s"
  "on_write_submitting s wid w = Inr s' \<Longrightarrow> os_approvals s' = os_approvals s"
  "on_write_succeeded s wid w d = Inr s' \<Longrightarrow> os_approvals s' = os_approvals s"
  "on_write_failed s wid w d = Inr s' \<Longrightarrow> os_approvals s' = os_approvals s"
  "on_write_outcome_unknown s wid w = Inr s' \<Longrightarrow> os_approvals s' = os_approvals s"
  "on_write_reconciling s wid w d = Inr s' \<Longrightarrow> os_approvals s' = os_approvals s"
  "on_write_reconcile_reentered s wid w d = Inr s' \<Longrightarrow> os_approvals s' = os_approvals s"
  "on_write_reconcile_failed s wid w d = Inr s' \<Longrightarrow> os_approvals s' = os_approvals s"
  "on_write_reconcile_deferred s wid w d = Inr s' \<Longrightarrow> os_approvals s' = os_approvals s"
  unfolding on_write_prepared_def write_handlers on_write_approved_def on_write_submitting_def
    on_write_outcome_unknown_def on_write_reconcile_failed_def Let_def bindE_eq_Inr case_none_raise_eq_Inr
  by fastforce+

lemma reduce_write_keeps_approvals: "reduce_write_event H s e = Inr s' \<Longrightarrow> os_approvals s' = os_approvals s"
  unfolding reduce_write_event_def Let_def bindE_eq_Inr case_none_raise_eq_Inr
  by (elim exE conjE if_InrE) (auto simp: case_none_raise_eq_Inr elim!: if_InrE dest: write_keeps_approvals)

lemma dispatch_approvals:
  "dispatch_event H s e = Inr s' \<Longrightarrow> os_approvals s' = os_approvals s \<or> reduce_approval_event H s e = Inr s'"
  unfolding dispatch_event_def Let_def
  by (elim if_InrE) (auto dest: exchange_keeps_approvals tool_keeps_approvals reduce_write_keeps_approvals)

text \<open>The state in which each approval event leaves its approval.\<close>

lemma approval_handler_state:
  "on_approval_requested s aid d = Inr s' \<Longrightarrow> \<exists>a ph. s' = set_approval s aid a ph \<and> ap_state a = ApWaiting"
  "on_approval_resume_registered H s aid c d = Inr s' \<Longrightarrow> \<exists>a ph. s' = set_approval s aid a ph \<and> ap_state a = ap_state c"
  "on_approval_rejected s aid c = Inr s' \<Longrightarrow> \<exists>a ph. s' = set_approval s aid a ph \<and> ap_state a = ApRejected"
  "on_approval_expired s aid c = Inr s' \<Longrightarrow> \<exists>a ph. s' = set_approval s aid a ph \<and> ap_state a = ApExpired"
  "on_approval_resume_cancelled s aid c = Inr s' \<Longrightarrow> \<exists>a ph. s' = set_approval s aid a ph \<and> ap_state a = ApResumeCancelled"
  "on_approval_granted s aid c = Inr s' \<Longrightarrow> \<exists>a ph. s' = set_approval s aid a ph \<and> ap_state a = ApApproved \<and> ap_state c = ApWaiting"
  "on_approval_consumed H s aid c d = Inr s' \<Longrightarrow> \<exists>a ph. s' = set_approval s aid a ph \<and> ap_state a = ApConsumed \<and> ap_state c = ApApproved"
  unfolding on_approval_requested_def on_approval_resume_registered_def on_approval_rejected_def on_approval_expired_def
    on_approval_resume_cancelled_def on_approval_granted_def on_approval_consumed_def bindE_eq_Inr case_none_raise_eq_Inr
  by (fastforce simp del: split_paired_Ex)+

lemma resume_handler_state:
  "on_approval_resume_started H s aid c d = Inr s' \<Longrightarrow> \<exists>a ph. s' = set_approval s aid a ph \<and> ap_state a = ApResumeStarted \<and> ap_state c \<in> spent"
  "on_approval_resume_reentered s aid c d = Inr s' \<Longrightarrow> \<exists>a ph. s' = set_approval s aid a ph \<and> ap_state a = ApResumeStarted \<and> ap_state c \<in> spent"
  "on_approval_resume_completed H s aid c d = Inr s' \<Longrightarrow> \<exists>a ph. s' = set_approval s aid a ph \<and> ap_state a = ApResumeCompleted \<and> ap_state c \<in> spent"
  "on_approval_resume_failed s aid c d = Inr s' \<Longrightarrow> \<exists>a ph. s' = set_approval s aid a ph \<and> ap_state a = ApResumeFailed \<and> ap_state c \<in> spent"
  unfolding on_approval_resume_started_def on_approval_resume_reentered_def on_approval_resume_completed_def
    on_approval_resume_failed_def bindE_eq_Inr spent_def
  by (fastforce simp del: split_paired_Ex)+

text \<open>Only a grant makes an approval approved, only a consumption makes it spent.\<close>

lemma approval_event_cases:
  assumes "reduce_approval_event H s e = Inr s'"
  obtains (frame) "os_approvals s' = os_approvals s"
  | (fresh) aid a where "os_approvals s' = dset (os_approvals s) aid a" "ap_state a = ApWaiting"
  | (step) aid a c where "os_approvals s' = dset (os_approvals s) aid a" "map_of (os_approvals s) aid = Some c"
      "ap_state a = ApApproved \<longrightarrow> grants aid e \<or> ap_state c = ApApproved"
      "ap_state a \<in> spent \<longrightarrow> ap_state c \<in> spent \<or> consumes aid e \<and> ap_state c = ApApproved"
proof (cases "ev_type e = ''approval_pending''")
  case True
  with assms frame show thesis by (auto simp: reduce_approval_event_def)
next
  case False
  with assms obtain aid where aid: "text_field (ev_data e) ''approvalId'' = Inr aid"
    by (auto simp: reduce_approval_event_def Let_def bindE_eq_Inr)
  show thesis
  proof (cases "ev_type e = ''approval_requested''")
    case True
    with assms aid have "on_approval_requested s aid (ev_data e) = Inr s'" by (simp add: reduce_approval_event_def)
    from approval_handler_state(1)[OF this] fresh show thesis by auto
  next
    case requested: False
    show thesis
    proof (cases "map_of (os_approvals s) aid")
      case None
      with assms aid False requested show thesis by (simp add: reduce_approval_event_def)
    next
      case (Some c)
      with assms aid False requested step[OF _ Some] show thesis
        by (auto simp: reduce_approval_event_def grants_def consumes_def text_field_ok Let_def spent_def split: if_splits
            dest!: approval_handler_state resume_handler_state)
    qed
  qed
qed

definition spent_history :: "operation_event list \<Rightarrow> operation_state \<Rightarrow> bool" where
  "spent_history es s \<longleftrightarrow> (\<forall>e \<in> set es. ev_sequence e \<le> os_last_sequence s) \<and>
     (\<forall>aid a. map_of (os_approvals s) aid = Some a \<longrightarrow>
        (ap_state a = ApApproved \<longrightarrow> (\<exists>g \<in> set es. grants aid g)) \<and>
        (ap_state a \<in> spent \<longrightarrow> (\<exists>g \<in> set es. \<exists>c \<in> set es. grants aid g \<and> consumes aid c \<and> ev_sequence g < ev_sequence c)))"

lemma log_move_sequence: "log_move H s s' \<Longrightarrow> os_last_sequence s' = os_last_sequence s"
  by (cases rule: log_move.cases) auto

lemma reduce_sequence: "reduce_operation_event H so e = Inr s \<Longrightarrow> os_last_sequence s = ev_sequence e"
  by (cases so) (auto simp: reduce_operation_event_def on_operation_started_def exc_simps
      dest!: dispatch_event_move dest: log_move_sequence)

lemma spent_history_step:
  assumes hist: "spent_history es s" and r: "reduce_operation_event H (Some s) e = Inr s'"
  shows "spent_history (es @ [e]) s'"
proof -
  have seq: "\<forall>x \<in> set es. ev_sequence x < ev_sequence e" and last: "os_last_sequence s' = ev_sequence e"
    using hist r reduce_sequence[OF r] by (auto simp: spent_history_def reduce_some_ok)
  let ?s = "s\<lparr>os_last_sequence := ev_sequence e\<rparr>"
  have old: "(ap_state a = ApApproved \<longrightarrow> (\<exists>g \<in> set es. grants aid g)) \<and>
      (ap_state a \<in> spent \<longrightarrow> (\<exists>g \<in> set es. \<exists>c \<in> set es. grants aid g \<and> consumes aid c \<and> ev_sequence g < ev_sequence c))"
    if "map_of (os_approvals s) aid = Some a" for aid a using hist that by (simp add: spent_history_def)
  have kept: ?thesis if "os_approvals s' = os_approvals s"
    using hist last seq that by (fastforce simp: spent_history_def)
  from r dispatch_approvals[of H ?s e s'] consider "os_approvals s' = os_approvals s" | "reduce_approval_event H ?s e = Inr s'"
    by (auto simp: reduce_some_ok)
  then show ?thesis
  proof cases
    case 1
    then show ?thesis by (rule kept)
  next
    case 2
    have upd: ?thesis if upd: "os_approvals s' = dset (os_approvals s) aid a"
      and new: "ap_state a = ApApproved \<longrightarrow> (\<exists>g \<in> set (es @ [e]). grants aid g)"
        "ap_state a \<in> spent \<longrightarrow> (\<exists>g \<in> set (es @ [e]). \<exists>c \<in> set (es @ [e]). grants aid g \<and> consumes aid c \<and> ev_sequence g < ev_sequence c)"
      for aid a
      unfolding spent_history_def upd map_of_dset
    proof (intro conjI ballI allI impI, goal_cases)
      case (1 x)
      then show ?case using seq last by auto
    next
      case (2 k b)
      then show ?case using new(1) old[of k b] by (cases "k = aid") auto
    next
      case (3 k b)
      then show ?case using new(2) old[of k b] by (cases "k = aid") fastforce+
    qed
    from 2 show ?thesis
    proof (cases rule: approval_event_cases)
      case frame
      then show ?thesis by (intro kept) simp
    next
      case (fresh aid a)
      then show ?thesis by (intro upd[of aid a]) (auto simp: spent_def)
    next
      case (step aid a c)
      then have c: "map_of (os_approvals s) aid = Some c" by simp
      have "ap_state a = ApApproved \<longrightarrow> (\<exists>g \<in> set (es @ [e]). grants aid g)"
        using step(3) old[OF c] by auto
      moreover have "\<exists>g \<in> set (es @ [e]). \<exists>c \<in> set (es @ [e]). grants aid g \<and> consumes aid c \<and> ev_sequence g < ev_sequence c"
        if sp: "ap_state a \<in> spent"
      proof (cases "ap_state c \<in> spent")
        case True
        with old[OF c] show ?thesis by auto
      next
        case False
        with sp step(4) have "consumes aid e" "ap_state c = ApApproved" by auto
        moreover from this old[OF c] obtain g where "g \<in> set es" "grants aid g" by blast
        ultimately show ?thesis using seq by auto
      qed
      ultimately show ?thesis using step(1) by (intro upd[of aid a]) auto
    qed
  qed
qed

section \<open>The shape of a replayable log\<close>

lemma replay_fold:
  "replay_operation H es = Inr s \<longleftrightarrow> foldE (reduce_opt H) (sort_key ev_sequence es) None = Inr (Some s)"
  by (auto simp: replay_operation_def exc_simps)

lemma foldE_reduce_snoc:
  "foldE (reduce_opt H) (es @ [e]) None = Inr (Some s) \<longleftrightarrow>
     (\<exists>so. foldE (reduce_opt H) es None = Inr so \<and> reduce_operation_event H so e = Inr s)"
  unfolding foldE_append bindE_eq_Inr foldE.simps reduce_opt_def[of _ e] by auto

lemma foldE_reduce_None: "foldE (reduce_opt H) es None = Inr None \<longleftrightarrow> es = []"
  by (cases es rule: rev_cases) (auto simp: foldE_append exc_simps reduce_opt_def)

text \<open>Induction over the accepted events of a log, from the first to the last.\<close>

lemma log_induct [consumes 1, case_names first further]:
  assumes "foldE (reduce_opt H) es None = Inr (Some s)"
    and "\<And>e s. on_operation_started e = Inr s \<Longrightarrow> P [e] s"
    and "\<And>es s e s'. foldE (reduce_opt H) es None = Inr (Some s) \<Longrightarrow> P es s \<Longrightarrow>
      reduce_operation_event H (Some s) e = Inr s' \<Longrightarrow> P (es @ [e]) s'"
  shows "P es s"
  using assms(1)
proof (induction es arbitrary: s rule: rev_induct)
  case Nil
  then show ?case by simp
next
  case (snoc e es)
  then obtain so where so: "foldE (reduce_opt H) es None = Inr so" "reduce_operation_event H so e = Inr s"
    by (auto simp: foldE_reduce_snoc)
  show ?case
  proof (cases so)
    case None
    with so have "es = []" "on_operation_started e = Inr s"
      by (auto simp: foldE_reduce_None reduce_operation_event_def)
    with assms(2) show ?thesis by simp
  next
    case (Some s0)
    with so snoc.IH assms(3) show ?thesis by blast
  qed
qed

lemma spent_history_log: "foldE (reduce_opt H) es None = Inr (Some s) \<Longrightarrow> spent_history es s"
proof (induction rule: log_induct)
  case (first e s)
  then show ?case by (auto simp: on_operation_started_def exc_simps spent_history_def)
next
  case (further es s e s')
  then show ?case by (blast intro: spent_history_step)
qed

definition log_shape :: "operation_event list \<Rightarrow> operation_state \<Rightarrow> bool" where
  "log_shape es s \<longleftrightarrow> es \<noteq> [] \<and> sorted_wrt (<) (map ev_sequence es) \<and>
     (\<forall>e \<in> set es. ev_session_id e = os_session_id s \<and> ev_operation_id e = os_operation_id s \<and> ev_sequence e \<le> os_last_sequence s) \<and>
     ev_sequence (last es) = os_last_sequence s"

lemma log_move_ids: "log_move H s s' \<Longrightarrow> os_session_id s' = os_session_id s \<and> os_operation_id s' = os_operation_id s"
  by (cases rule: log_move.cases) auto

lemma log_shape_log: "foldE (reduce_opt H) es None = Inr (Some s) \<Longrightarrow> log_shape es s"
proof (induction rule: log_induct)
  case (first e s)
  then show ?case by (auto simp: on_operation_started_def exc_simps log_shape_def)
next
  case (further es s e s')
  from further(2) have "os_session_id s' = os_session_id s" "os_operation_id s' = os_operation_id s"
    "os_last_sequence s' = ev_sequence e"
    using log_move_ids[OF reduce_move[OF further(2)]] reduce_sequence[OF further(2)] by simp_all
  with further show ?case by (fastforce simp: log_shape_def reduce_some_ok sorted_wrt_append)
qed

lemma replay_distinct_sequences: "replay_operation H es = Inr s \<Longrightarrow> distinct (map ev_sequence es)"
proof -
  assume "replay_operation H es = Inr s"
  then have "sorted_wrt (<) (map ev_sequence (sort_key ev_sequence es))"
    by (auto simp: replay_fold log_shape_def dest: log_shape_log)
  then have "distinct (map ev_sequence (sort_key ev_sequence es))" by (simp add: strict_sorted_iff)
  moreover have "mset (map ev_sequence (sort_key ev_sequence es)) = mset (map ev_sequence es)" by simp
  ultimately show ?thesis by (metis mset_eq_imp_distinct_iff)
qed

lemma sort_key_unique:
  assumes "distinct (map f xs)" "mset ys = mset xs" "sorted (map f ys)"
  shows "sort_key f xs = ys"
proof -
  have "set ys = set xs" using assms(2) by (metis set_mset_mset)
  moreover have "inj_on f (set xs)" using assms(1) by (simp add: distinct_map)
  ultimately show ?thesis using assms(2,3) by (metis sort_key_inj_key_eq)
qed

lemma replay_any_order:
  assumes "replay_operation H es = Inr s" "mset es' = mset es"
  shows "replay_operation H es' = Inr s"
proof -
  have "sort_key ev_sequence es = sort_key ev_sequence es'"
    by (rule sort_key_unique[OF replay_distinct_sequences[OF assms(1)]]) (simp_all add: assms(2))
  with assms(1) show ?thesis by (simp add: replay_fold)
qed

section \<open>Validation of a batch before it is appended\<close>

text \<open>The events an append of the batch stores, whatever the clock says then.\<close>

definition spec_events :: "operation_state \<Rightarrow> int \<Rightarrow> int \<Rightarrow> event_spec list \<Rightarrow> operation_event list" where
  "spec_events s base now specs = map (\<lambda>(i, spec). \<lparr>ev_type = fst spec, ev_session_id = os_session_id s,
     ev_operation_id = os_operation_id s, ev_sequence = base + 1 + int i, ev_timestamp = now, ev_data = snd spec\<rparr>)
     (List.enumerate 0 specs)"

lemma enumerate_shift: "List.enumerate (Suc n) xs = map (\<lambda>(i, x). (Suc i, x)) (List.enumerate n xs)"
  by (induction xs arbitrary: n) auto

lemma spec_events_Cons:
  "spec_events s base now (spec # specs) =
     \<lparr>ev_type = fst spec, ev_session_id = os_session_id s, ev_operation_id = os_operation_id s,
      ev_sequence = base + 1, ev_timestamp = now, ev_data = snd spec\<rparr> # spec_events s (base + 1) now specs"
  by (simp add: spec_events_def enumerate_shift case_prod_unfold o_def)

lemma group_timestamp [simp]:
  "reduce_approval_event H s (e\<lparr>ev_timestamp := t\<rparr>) = reduce_approval_event H s e"
  "reduce_write_event H s (e\<lparr>ev_timestamp := t\<rparr>) = reduce_write_event H s e"
  by (simp_all add: reduce_approval_event_def reduce_write_event_def)

lemma dispatch_timestamp [simp]: "dispatch_event H s (e\<lparr>ev_timestamp := t\<rparr>) = dispatch_event H s e"
  unfolding dispatch_event_def Let_def group_timestamp by simp

lemma reduce_timestamp: "reduce_operation_event H so (e\<lparr>ev_timestamp := t\<rparr>) = reduce_operation_event H so e"
  by (cases so) (simp_all add: reduce_operation_event_def on_operation_started_def)

lemma spec_fold:
  assumes "foldE (reduce_spec H now) specs (base, s) = Inr (last_seq, s')"
  shows "foldE (reduce_opt H) (spec_events s base now' specs) (Some s) = Inr (Some s')"
  using assms
proof (induction specs arbitrary: base s)
  case Nil
  then show ?case by (simp add: spec_events_def)
next
  case (Cons spec specs)
  let ?e = "\<lparr>ev_type = fst spec, ev_session_id = os_session_id s, ev_operation_id = os_operation_id s,
      ev_sequence = base + 1, ev_timestamp = now, ev_data = snd spec\<rparr>"
  from Cons.prems obtain s1 where s1: "reduce_operation_event H (Some s) ?e = Inr s1"
    "foldE (reduce_spec H now) specs (base + 1, s1) = Inr (last_seq, s')"
    unfolding foldE.simps bindE_eq_Inr reduce_spec_def[of H now spec]
    by (auto simp: spec_event_def event_post_init_def exc_simps)
  have "spec_events s (base + 1) now' specs = spec_events s1 (base + 1) now' specs"
    using log_move_ids[OF reduce_move[OF s1(1)]] by (simp add: spec_events_def)
  moreover have "reduce_operation_event H (Some s) (?e\<lparr>ev_timestamp := now'\<rparr>) = Inr s1"
    by (simp only: reduce_timestamp s1(1))
  ultimately show ?case using Cons.IH[OF s1(2)] by (simp add: spec_events_Cons reduce_opt_def)
qed

lemma spec_events_sequences:
  "map ev_sequence (spec_events s base now specs) = map (\<lambda>i. base + 1 + int i) [0..<length specs]"
  by (simp add: spec_events_def enumerate_eq_zip map_fst_zip[symmetric] case_prod_unfold o_def del: map_fst_zip)
    (metis (no_types, lifting) List.map.compositionality comp_apply length_upt map_cong map_fst_zip minus_nat.diff_0)

lemma replay_append:
  assumes r: "replay_operation H es = Inr s" and f: "foldE (reduce_opt H) new (Some s) = Inr (Some s')"
    and new: "sorted_wrt (<) (map ev_sequence new)" "\<forall>e \<in> set new. \<forall>x \<in> set es. ev_sequence x < ev_sequence e"
  shows "replay_operation H (es @ new) = Inr s'"
proof -
  have "sort_key ev_sequence (es @ new) = sort_key ev_sequence es @ new"
  proof (rule sort_key_unique)
    show "distinct (map ev_sequence (es @ new))"
      using replay_distinct_sequences[OF r] new by (fastforce simp: strict_sorted_iff)
    show "sorted (map ev_sequence (sort_key ev_sequence es @ new))"
      using new by (auto simp: sorted_append strict_sorted_iff less_imp_le)
  qed simp
  with r f show ?thesis by (simp add: replay_fold foldE_append)
qed

lemma log_fold_ids:
  "foldE (reduce_opt H) es (Some s) = Inr (Some s') \<Longrightarrow>
   os_session_id s' = os_session_id s \<and> os_operation_id s' = os_operation_id s"
proof (induction es arbitrary: s)
  case (Cons e es)
  then obtain s1 where "reduce_operation_event H (Some s) e = Inr s1" "foldE (reduce_opt H) es (Some s1) = Inr (Some s')"
    by (auto simp: reduce_opt_def[of _ e] exc_simps)
  with Cons.IH log_move_ids[OF reduce_move] show ?case by fastforce
qed simp

lemma prevalidated_batch:
  assumes "replay_operation_with_specs H now es specs = Inr s'"
  shows "replay_operation H (es @ spec_events s' (Max (ev_sequence ` set es)) now' specs) = Inr s'"
proof -
  let ?base = "Max (ev_sequence ` set es)"
  from assms obtain s n where s: "replay_operation H es = Inr s" "foldE (reduce_spec H now) specs (?base, s) = Inr (n, s')"
    by (auto simp: replay_operation_with_specs_def exc_simps)
  note fold = spec_fold[OF s(2), of now']
  have ids: "os_session_id s' = os_session_id s \<and> os_operation_id s' = os_operation_id s"
    by (rule log_fold_ids[OF fold])
  have "spec_events s ?base now' specs = spec_events s' ?base now' specs" using ids by (simp add: spec_events_def)
  moreover have "replay_operation H (es @ spec_events s ?base now' specs) = Inr s'"
  proof (rule replay_append[OF s(1) fold])
    show "sorted_wrt (<) (map ev_sequence (spec_events s ?base now' specs))"
      unfolding spec_events_sequences by (simp add: sorted_wrt_map sorted_wrt_upt)
    show "\<forall>e \<in> set (spec_events s ?base now' specs). \<forall>x \<in> set es. ev_sequence x < ev_sequence e"
    proof (intro ballI)
      fix e x assume e: "e \<in> set (spec_events s ?base now' specs)" and x: "x \<in> set es"
      from e have "ev_sequence e \<in> set (map ev_sequence (spec_events s ?base now' specs))" by simp
      then have "?base < ev_sequence e" unfolding spec_events_sequences by auto
      moreover from x have "ev_sequence x \<le> ?base" by (intro Max_ge) auto
      ultimately show "ev_sequence x < ev_sequence e" by simp
    qed
  qed
  ultimately show ?thesis by simp
qed

section \<open>Guarantees\<close>

text \<open>A write that was released has its approval used, granted and then consumed in the log.\<close>

lemma released_write_history:
  assumes "replay_operation H es = Inr s" and "map_of (os_writes s) wid = Some w"
    and "wr_approval_id w = Some aid" and "wr_state w \<in> released"
  shows "\<exists>a g c. map_of (os_approvals s) aid = Some a \<and> ap_action_hash a = wr_action_hash w \<and> ap_state a \<in> spent \<and>
    g \<in> set es \<and> c \<in> set es \<and> grants aid g \<and> consumes aid c \<and> ev_sequence g < ev_sequence c"
proof -
  from log_inv_replay[OF assms(1)] have "barrier_inv s" by (simp add: log_inv_def)
  with assms(2-4) obtain a where a: "map_of (os_approvals s) aid = Some a" "ap_action_hash a = wr_action_hash w" "ap_state a \<in> spent"
    unfolding barrier_inv_def by blast
  from assms(1) have "spent_history (sort_key ev_sequence es) s" by (simp add: replay_fold spent_history_log)
  with a obtain g c where "g \<in> set es" "c \<in> set es" "grants aid g" "consumes aid c" "ev_sequence g < ev_sequence c"
    unfolding spent_history_def set_sort by blast
  with a show ?thesis by blast
qed

text \<open>
  C1: the approval barrier. In every state that a log replays to, a write that waited for an
  approval and was approved, submitted, succeeded, of unknown outcome or under reconciliation has
  an approval of the same action hash that was used, and the log holds a grant of that approval
  followed by its consumption.
\<close>

theorem approval_barrier:
  assumes "replay_operation H es = Inr s" and "map_of (os_writes s) wid = Some w"
    and "wr_approval_id w = Some aid"
    and "wr_state w \<in> {WrApproved, WrSubmitting, WrSucceeded, WrOutcomeUnknown, WrReconciling}"
  shows "\<exists>a g c. map_of (os_approvals s) aid = Some a \<and> ap_action_hash a = wr_action_hash w \<and>
    ap_state a \<in> {ApConsumed, ApResumeStarted, ApResumeCompleted, ApResumeFailed} \<and>
    g \<in> set es \<and> c \<in> set es \<and> grants aid g \<and> consumes aid c \<and> ev_sequence g < ev_sequence c"
  using released_write_history[OF assms(1-3)] assms(4) unfolding released_def spent_def by blast

definition sample_state :: "nat \<Rightarrow> operation_state option" where
  "sample_state n = (case replay_operation log_host (sample_events n) of Inr s \<Rightarrow> Some s | Inl _ \<Rightarrow> None)"

lemma sample_state_replay: "sample_state n = Some s \<Longrightarrow> replay_operation log_host (sample_events n) = Inr s"
  by (simp add: sample_state_def split: sum.splits)

text \<open>The sample log after 12, 14 and all 19 events, evaluated at once.\<close>

lemma sample_checks:
  "(case sample_state 12 of None \<Rightarrow> False | Some s \<Rightarrow>
     map_option ap_tool_call_id (map_of (os_approvals s) ''a'') = Some (Some ''c'') \<and>
     isOk (reduce_operation_event log_host (Some s) (sample_events 19 ! 12)) \<and>
     ev_type (sample_events 19 ! 12) = ''tool_dispatch_started'' \<and>
     jget (ev_data (sample_events 19 ! 12)) ''toolCallId'' = JStr ''c'') \<and>
   map_option (\<lambda>s. map_option (\<lambda>w. (wr_approval_id w, wr_state w)) (map_of (os_writes s) ''w'')) (sample_state 14) =
     Some (Some (Some ''a'', WrSubmitting)) \<and>
   (case sample_state 19 of None \<Rightarrow> False | Some s \<Rightarrow>
     os_phase s = OpCompleted \<and> dkeys (os_writes s) = [''w''] \<and>
     map_option (\<lambda>w. (wr_state w, wr_tool_call_id w)) (map_of (os_writes s) ''w'') = Some (WrSucceeded, Some ''c'') \<and>
     map_option to_phase (map_of (os_tools s) ''c'') = Some ToCompleted) \<and>
   isOk (replay_operation_with_specs log_host 7 (sample_events 14) (drop 14 sample_specs))"
  by code_simp

lemmas sample_dispatch = sample_checks[THEN conjunct1]
lemmas sample_submitting = sample_checks[THEN conjunct2, THEN conjunct1]
lemmas sample_succeeded = sample_checks[THEN conjunct2, THEN conjunct2, THEN conjunct1]
lemmas sample_batch = sample_checks[THEN conjunct2, THEN conjunct2, THEN conjunct2]

lemma sample_log_replays: "isOk (replay_operation log_host (sample_events 19))"
  using sample_succeeded by (auto simp: sample_state_def split: sum.splits)

theorem approval_barrier_witness:
  "\<exists>s w g c. sample_state 14 = Some s \<and> map_of (os_writes s) ''w'' = Some w \<and> wr_state w = WrSubmitting \<and>
     g \<in> set (sample_events 14) \<and> c \<in> set (sample_events 14) \<and> grants ''a'' g \<and> consumes ''a'' c \<and> ev_sequence g < ev_sequence c"
proof -
  from sample_submitting obtain s w where s: "sample_state 14 = Some s" "map_of (os_writes s) ''w'' = Some w"
    "wr_approval_id w = Some ''a''" "wr_state w = WrSubmitting" by auto
  from approval_barrier[OF sample_state_replay[OF s(1)] s(2,3)] s show ?thesis by auto
qed

text \<open>
  In a log that replays, a write is submitted at most once: there is at most one
  \<open>write_submitting\<close> event per write id.
\<close>

theorem write_submitted_once:
  assumes "replay_operation H es = Inr s"
  shows "length (filter (submits wid) es) \<le> 1"
  using assms by (rule submission.at_most_once)

theorem write_submitted_once_witness:
  "isOk (replay_operation log_host (sample_events 19)) \<and> length (filter (submits ''w'') (sample_events 19)) \<le> 1"
proof -
  from sample_log_replays obtain s where s: "replay_operation log_host (sample_events 19) = Inr s"
    by (auto simp: isOk_iff)
  from write_submitted_once[OF s, of "''w''"] s show ?thesis by simp
qed

text \<open>In a log that replays, an approval is consumed at most once.\<close>

theorem approval_consumed_once:
  assumes "replay_operation H es = Inr s"
  shows "length (filter (consumes aid) es) \<le> 1"
  using assms by (rule consumption.at_most_once)

theorem approval_consumed_once_witness:
  "isOk (replay_operation log_host (sample_events 19)) \<and> length (filter (consumes ''a'') (sample_events 19)) \<le> 1"
proof -
  from sample_log_replays obtain s where s: "replay_operation log_host (sample_events 19) = Inr s"
    by (auto simp: isOk_iff)
  from approval_consumed_once[OF s, of "''a''"] s show ?thesis by simp
qed

lemma bound_tool_matches:
  assumes "validate_bound_tool H s (Some a) tc t = Inr ()" "bound_to s' a env"
  shows "env_tool_call_id env = tc \<and> env_tool_name env = to_tool_name t \<and>
    strict_json_equal (JObj (to_arguments t)) (JObj (env_arguments env)) \<and>
    envelope_action_hash H env = Inr (ap_action_hash a)"
proof -
  from assms(2) have env: "ap_action a = envelope_to_dict env" "valid_envelope env" by (auto simp: bound_to_def)
  then have "ap_action a \<noteq> []" by (simp add: envelope_to_dict_def)
  with assms(1) have v: "validate_approval_action H a (tool_binding s tc t (ap_write_id a)) = Inr ()"
    by (simp add: validate_bound_tool_def)
  from envelope_from_to_dict[OF env(2)] env(1) have "envelope_from_dict (JObj (ap_action a)) = Inr env" by simp
  with v assms(2) obtain b where "assert_execution env \<lparr>ex_operation_id = os_operation_id s, ex_tool_call_id = tc,
      ex_tool_name = to_tool_name t, ex_arguments = to_arguments t, ex_write_id = env_write_id env, ex_entity_id = None,
      ex_expected_entity_version = None, ex_business_preconditions = None\<rparr> b = Inr ()"
    "envelope_action_hash H env = Inr (ap_action_hash a)"
    by (auto simp: validate_approval_action_def tool_binding_def bound_to_def exc_simps)
  with assert_execution_matches[OF this(1)] show ?thesis by auto
qed

text \<open>
  C6: the reducer only accepts the dispatch of a tool call if every approval registered for that
  call has been consumed (or its resume has started) and what is dispatched is what was
  approved: the same tool, strictly equal arguments, and an action whose hash is the approved one.
\<close>

theorem dispatch_is_approved:
  assumes "replay_operation H es = Inr s" and "reduce_operation_event H (Some s) e = Inr s'"
    and "ev_type e = ''tool_dispatch_started''" "jget (ev_data e) ''toolCallId'' = JStr tc"
    and "map_of (os_approvals s) aid = Some a" "ap_tool_call_id a = Some tc"
  shows "ap_state a \<in> {ApConsumed, ApResumeStarted} \<and>
    (\<exists>env t. map_of (os_tools s) tc = Some t \<and> ap_action a = envelope_to_dict env \<and> env_tool_call_id env = tc \<and>
       env_tool_name env = to_tool_name t \<and> strict_json_equal (JObj (to_arguments t)) (JObj (env_arguments env)) \<and>
       envelope_action_hash H env = Inr (ap_action_hash a))"
proof -
  from log_inv_replay[OF assms(1)] have inv: "ids_inv s" "bind_inv s" "uniq_inv s" by (simp_all add: log_inv_def)
  have found: "approval_for_tool_call s tc = Some a"
  proof (cases "approval_for_tool_call s tc")
    case None
    with assms(6) map_of_in_dvalues[OF assms(5)] show ?thesis by (auto simp: approval_for_tool_call_def find_None_iff)
  next
    case (Some b)
    then have b: "ap_tool_call_id b = Some tc" "b \<in> set (dvalues (os_approvals s))"
      unfolding approval_for_tool_call_def by (auto dest: find_SomeD)
    with inv(1) obtain k where k: "map_of (os_approvals s) k = Some b"
      by (auto simp: ids_inv_def dvalues_iff simp del: set_map)
    have "k = aid"
      using inv(3) k assms(5,6) b(1) unfolding uniq_inv_def distinct_bindings_def by blast
    with Some k assms(5) show ?thesis by simp
  qed
  from inv(2) assms(5,6) obtain env where env: "bound_to s a env" unfolding bind_inv_def by fastforce
  from assms(2-4) obtain t where t: "map_of (os_tools s) tc = Some t"
    "\<forall>a. approval_for_tool_call s tc = Some a \<longrightarrow> ap_state a \<in> {ApConsumed, ApResumeStarted}"
    "validate_bound_tool H (s\<lparr>os_last_sequence := ev_sequence e\<rparr>) (approval_for_tool_call s tc) tc t = Inr ()"
    by (rule reduce_dispatch)
  from bound_tool_matches[OF t(3)[unfolded found] env] t(1,2) found env show ?thesis
    by (auto simp: bound_to_def simp del: strict_json_equal.simps)
qed

theorem dispatch_is_approved_witness:
  "\<exists>s a. sample_state 12 = Some s \<and> map_of (os_approvals s) ''a'' = Some a \<and> ap_state a \<in> {ApConsumed, ApResumeStarted}"
proof -
  from sample_dispatch obtain s a s' where s: "sample_state 12 = Some s" "map_of (os_approvals s) ''a'' = Some a"
    "ap_tool_call_id a = Some ''c''" "reduce_operation_event log_host (Some s) (sample_events 19 ! 12) = Inr s'"
    "ev_type (sample_events 19 ! 12) = ''tool_dispatch_started''" "jget (ev_data (sample_events 19 ! 12)) ''toolCallId'' = JStr ''c''"
    by (auto simp: isOk_iff split: option.splits)
  from dispatch_is_approved[OF sample_state_replay[OF s(1)] s(4,5,6,2,3)] s show ?thesis by blast
qed

text \<open>
  C7: a closed operation is settled and stays closed: no model request is open, every tool has
  completed, every write has succeeded or failed, every approval has reached an end, the
  transcript pairs each call with one result, the outcome is the phase, and no event is accepted
  any more.
\<close>

theorem closed_operation_settled:
  assumes "replay_operation H es = Inr s" and "os_phase s \<in> {OpCompleted, OpFailed, OpCancelled}"
  shows "os_outcome s = Some (os_phase s) \<and>
    (\<forall>r \<in> set (dvalues (os_model_requests s)). rq_phase r \<noteq> RqStarted) \<and>
    (\<forall>t \<in> set (dvalues (os_tools s)). to_phase t = ToCompleted) \<and>
    (\<forall>w \<in> set (dvalues (os_writes s)). wr_state w \<in> {WrSucceeded, WrFailed}) \<and>
    (\<forall>a \<in> set (dvalues (os_approvals s)). ap_state a \<in>
       {ApRejected, ApExpired, ApResumeCompleted, ApResumeFailed, ApResumeCancelled}) \<and>
    distinct (call_ids H (os_messages s)) \<and> set (result_ids H (os_messages s)) = set (call_ids H (os_messages s)) \<and>
    (\<forall>e. \<not> isOk (reduce_operation_event H (Some s) e))"
proof -
  from assms(2) have t: "terminal_phase (os_phase s)" by (simp add: terminal_phase_def)
  with log_inv_replay[OF assms(1)] have "settled H s" "os_outcome s = Some (os_phase s)"
    by (simp_all add: log_inv_def final_inv_def)
  moreover have "\<not> isOk (reduce_operation_event H (Some s) e)" for e
    using t by (auto simp: isOk_iff reduce_some_ok)
  ultimately show ?thesis
    unfolding settled_def using closed_call_result_ids[of H "os_messages s"] by blast
qed

theorem closed_operation_settled_witness:
  "\<exists>s. sample_state 19 = Some s \<and> os_outcome s = Some OpCompleted \<and> (\<forall>e. \<not> isOk (reduce_operation_event log_host (Some s) e))"
proof -
  from sample_succeeded obtain s where s: "sample_state 19 = Some s" "os_phase s = OpCompleted" by (auto split: option.splits)
  from closed_operation_settled[OF sample_state_replay[OF s(1)]] s show ?thesis by simp
qed

text \<open>
  A write recorded as succeeded never contradicts its tool: if it is the only write of its tool
  call and the tool has a result, then the tool is completed, and the result is neither an error
  nor an unknown outcome.
\<close>

theorem succeeded_write_agrees_with_tool:
  assumes "replay_operation H es = Inr s" and "map_of (os_writes s) wid = Some w" "wr_state w = WrSucceeded"
    and "wr_tool_call_id w = Some tc" "only_write_of s tc wid"
    and "map_of (os_tools s) tc = Some t" "to_phase t \<in> {ToCompleted, ToOutcomeUnknown}"
  shows "to_phase t = ToCompleted \<and> clean_result t"
proof -
  from log_inv_replay[OF assms(1)] have "result_inv s" by (simp add: log_inv_def)
  with assms(2-7) show ?thesis unfolding result_inv_def by blast
qed

theorem succeeded_write_agrees_with_tool_witness:
  "\<exists>s t. sample_state 19 = Some s \<and> map_of (os_tools s) ''c'' = Some t \<and> clean_result t"
proof -
  from sample_succeeded obtain s w t where s: "sample_state 19 = Some s" "dkeys (os_writes s) = [''w'']"
    "map_of (os_writes s) ''w'' = Some w" "wr_state w = WrSucceeded" "wr_tool_call_id w = Some ''c''"
    "map_of (os_tools s) ''c'' = Some t" "to_phase t = ToCompleted"
    by (auto split: option.splits)
  have "only_write_of s ''c'' ''w''"
    using s(2) by (auto simp: only_write_of_def dest!: map_of_SomeD)
  from succeeded_write_agrees_with_tool[OF sample_state_replay[OF s(1)] s(3-5) this s(6)] s show ?thesis by auto
qed

text \<open>
  What a log replays to does not depend on the order in which its events were stored, and all its
  events carry the identity of the operation and pairwise different sequence numbers.
\<close>

theorem replay_order_independent:
  assumes "replay_operation H es = Inr s" and "mset es' = mset es"
  shows "replay_operation H es' = Inr s \<and> distinct (map ev_sequence es') \<and>
    (\<forall>e \<in> set es'. ev_session_id e = os_session_id s \<and> ev_operation_id e = os_operation_id s \<and> ev_sequence e \<le> os_last_sequence s)"
proof -
  from replay_any_order[OF assms] have r: "replay_operation H es' = Inr s" .
  then have "log_shape (sort_key ev_sequence es') s" by (simp add: replay_fold log_shape_log)
  with r replay_distinct_sequences[OF r] show ?thesis by (simp add: log_shape_def)
qed

theorem replay_order_independent_witness:
  "\<exists>s. replay_operation log_host (sample_events 19) = Inr s \<and> replay_operation log_host (rev (sample_events 19)) = Inr s"
proof -
  from sample_log_replays obtain s where s: "replay_operation log_host (sample_events 19) = Inr s"
    by (auto simp: isOk_iff)
  from replay_order_independent[OF s, of "rev (sample_events 19)"] s show ?thesis by simp
qed

text \<open>
  C12: a batch that was validated against a log before it is appended stays valid once it is stored:
  with consecutive sequence numbers after the log and any time stamps, the extended log replays to
  the state that the validation computed.
\<close>

theorem prevalidated_batch_replays:
  assumes "replay_operation_with_specs H now es specs = Inr s'"
  shows "replay_operation H (es @ spec_events s' (Max (ev_sequence ` set es)) now' specs) = Inr s'"
  using assms by (rule prevalidated_batch)

theorem prevalidated_batch_replays_witness:
  "\<exists>s. replay_operation log_host (sample_events 14 @
     spec_events s (Max (ev_sequence ` set (sample_events 14))) 9 (drop 14 sample_specs)) = Inr s"
proof -
  from sample_batch obtain s where s: "replay_operation_with_specs log_host 7 (sample_events 14) (drop 14 sample_specs) = Inr s"
    by (auto simp: isOk_iff)
  from prevalidated_batch_replays[OF s] show ?thesis by blast
qed

end
