(* ===== verification/Json_Parse.thy ===== *)
theory Json_Parse
  imports Json_Text
begin

text \<open>
  Python's \<open>json.loads\<close>, after \<open>json.scanner\<close> and \<open>json.decoder\<close>: white space, literals,
  numbers, strings with their escapes, arrays and objects (a repeated key keeps its first position and its
  last value). A text is a byte sequence in UTF-8, so an escape \<open>\uXXXX\<close> becomes the encoding of its code
  point; an unpaired surrogate gets the three-byte form. The conversion of a decimal fraction to the
  nearest float is the field \<open>read_float\<close> of the host. The recursion is bounded by a fuel that the
  length of the text exceeds; \<open>json_loads_dumps\<close> shows that it suffices for every text the encoder prints.
\<close>

section \<open>White space, digits and strings\<close>

definition is_ws :: "char \<Rightarrow> bool" where
  "is_ws c \<longleftrightarrow> c \<in> {CHR '' '', CHR 0x09, CHR 0x0A, CHR 0x0D}"

definition skip_ws :: "string \<Rightarrow> string" where
  "skip_ws s = dropWhile is_ws s"

fun hex_value :: "char \<Rightarrow> nat option" where
  "hex_value c = (let n = of_char c :: nat in
     if 48 \<le> n \<and> n \<le> 57 then Some (n - 48)
     else if 97 \<le> n \<and> n \<le> 102 then Some (n - 87)
     else if 65 \<le> n \<and> n \<le> 70 then Some (n - 55) else None)"

fun hex4 :: "string \<Rightarrow> (nat \<times> string) option" where
  "hex4 (a # b # c # d # r) = (case (hex_value a, hex_value b, hex_value c, hex_value d) of
     (Some w, Some x, Some y, Some z) \<Rightarrow> Some (((w * 16 + x) * 16 + y) * 16 + z, r) | _ \<Rightarrow> None)"
| "hex4 _ = None"

definition utf8 :: "nat \<Rightarrow> string" where
  "utf8 n = (if n < 128 then [char_of n]
     else if n < 2048 then [char_of (192 + n div 64), char_of (128 + n mod 64)]
     else if n < 65536 then [char_of (224 + n div 4096), char_of (128 + n div 64 mod 64), char_of (128 + n mod 64)]
     else [char_of (240 + n div 262144), char_of (128 + n div 4096 mod 64), char_of (128 + n div 64 mod 64),
           char_of (128 + n mod 64)])"

text \<open>The code points after \<open>\u\<close>: a high surrogate takes a following low one.\<close>

definition unicode_escape :: "string \<Rightarrow> (nat \<times> string) option" where
  "unicode_escape s = (case hex4 s of
     None \<Rightarrow> None
   | Some (u, r) \<Rightarrow>
       if 0xD800 \<le> u \<and> u \<le> 0xDBFF then
         (case r of
            b # c # r' \<Rightarrow> if b = CHR 0x5C \<and> c = CHR ''u'' then
                (case hex4 r' of
                   Some (v, r'') \<Rightarrow> if 0xDC00 \<le> v \<and> v \<le> 0xDFFF
                     then Some (0x10000 + ((u - 0xD800) * 1024 + (v - 0xDC00)), r'') else Some (u, r)
                 | None \<Rightarrow> None)
              else Some (u, r)
          | _ \<Rightarrow> Some (u, r))
       else Some (u, r))"

definition simple_escape :: "char \<Rightarrow> char option" where
  "simple_escape e = map_of [(CHR 0x22, CHR 0x22), (CHR 0x5C, CHR 0x5C), (CHR ''/'', CHR ''/''), (CHR ''b'', CHR 0x08),
     (CHR ''f'', CHR 0x0C), (CHR ''n'', CHR 0x0A), (CHR ''r'', CHR 0x0D), (CHR ''t'', CHR 0x09)] e"

lemma hex4_length: "hex4 s = Some (u, r) \<Longrightarrow> length r < length s"
  by (cases s rule: hex4.cases) (auto split: option.splits)

lemma unicode_escape_length: "unicode_escape s = Some (u, r) \<Longrightarrow> length r < length s"
  unfolding unicode_escape_def
  by (auto split: option.splits if_splits list.splits dest!: hex4_length)

function parse_string :: "string \<Rightarrow> (string \<times> string) option" where
  "parse_string s = (case s of
     [] \<Rightarrow> None
   | c # cs \<Rightarrow>
       if c = CHR 0x22 then Some ([], cs)
       else if c = CHR 0x5C then
         (case cs of
            [] \<Rightarrow> None
          | e # es \<Rightarrow> if e = CHR ''u'' then
                (case unicode_escape es of
                   None \<Rightarrow> None
                 | Some (u, r) \<Rightarrow> map_option (\<lambda>(t, r'). (utf8 u @ t, r')) (parse_string r))
              else (case simple_escape e of
                   None \<Rightarrow> None
                 | Some ch \<Rightarrow> map_option (\<lambda>(t, r'). (ch # t, r')) (parse_string es)))
       else if of_char c < (32 :: nat) then None
       else map_option (\<lambda>(t, r'). (c # t, r')) (parse_string cs))"
  by pat_completeness auto
termination
  by (relation "measure length") (auto dest: unicode_escape_length)

declare parse_string.simps [simp del]

section \<open>Numbers\<close>

text \<open>The decimal digits at the head of a text, and the optional fraction and exponent of a number.\<close>

definition digits_of :: "string \<Rightarrow> string" where
  "digits_of s = takeWhile is_digit s"

definition digits_value :: "string \<Rightarrow> nat" where
  "digits_value ds = foldl (\<lambda>acc c. acc * 10 + (of_char c - 48)) 0 ds"

definition fraction_of :: "string \<Rightarrow> string" where
  "fraction_of s = (case s of
     c # cs \<Rightarrow> if c = CHR ''.'' \<and> digits_of cs \<noteq> [] then c # digits_of cs else [] | [] \<Rightarrow> [])"

definition exponent_of :: "string \<Rightarrow> string" where
  "exponent_of s = (case s of
     c # cs \<Rightarrow> if c = CHR ''e'' \<or> c = CHR ''E'' then
         (case cs of
            g # gs \<Rightarrow> if (g = CHR ''+'' \<or> g = CHR ''-'') then (if digits_of gs \<noteq> [] then c # g # digits_of gs else [])
                      else if digits_of cs \<noteq> [] then c # digits_of cs else []
          | [] \<Rightarrow> [])
       else []
   | [] \<Rightarrow> [])"

text \<open>The integer part: a single zero or digits without a leading zero.\<close>

definition lead_digits :: "string \<Rightarrow> string" where
  "lead_digits s = (if s \<noteq> [] \<and> hd s = CHR ''0'' then [CHR ''0''] else digits_of s)"

definition parse_number :: "host \<Rightarrow> string \<Rightarrow> (json \<times> string) option" where
  "parse_number H s =
     (let neg = (s \<noteq> [] \<and> hd s = CHR ''-''); s1 = (if neg then tl s else s);
          ds = lead_digits s1 in
      if ds = [] then None else
      let r1 = drop (length ds) s1; fr = fraction_of r1; r2 = drop (length fr) r1;
          ex = exponent_of r2; r3 = drop (length ex) r2; sign = (if neg then [CHR ''-''] else []) in
      if fr = [] \<and> ex = []
      then Some (JInt (if neg then - int (digits_value ds) else int (digits_value ds)), r3)
      else Some (JFloat (read_float H (sign @ ds @ fr @ ex)), r3))"

section \<open>Values\<close>

definition strip_prefix :: "string \<Rightarrow> string \<Rightarrow> string option" where
  "strip_prefix p s = (if startswith s p then Some (drop (length p) s) else None)"

definition parse_literal :: "host \<Rightarrow> string \<Rightarrow> (json \<times> string) option" where
  "parse_literal H s =
     (case strip_prefix ''null'' s of Some r \<Rightarrow> Some (JNull, r) | None \<Rightarrow>
     (case strip_prefix ''true'' s of Some r \<Rightarrow> Some (JBool True, r) | None \<Rightarrow>
     (case strip_prefix ''false'' s of Some r \<Rightarrow> Some (JBool False, r) | None \<Rightarrow>
     (case parse_number H s of Some x \<Rightarrow> Some x | None \<Rightarrow>
     (case strip_prefix ''NaN'' s of Some r \<Rightarrow> Some (JFloat FNan, r) | None \<Rightarrow>
     (case strip_prefix ''Infinity'' s of Some r \<Rightarrow> Some (JFloat FPosInf, r) | None \<Rightarrow>
     (case strip_prefix ''-Infinity'' s of Some r \<Rightarrow> Some (JFloat FNegInf, r) | None \<Rightarrow> None)))))))"

fun parse_value :: "host \<Rightarrow> nat \<Rightarrow> string \<Rightarrow> (json \<times> string) option"
  and parse_items :: "host \<Rightarrow> nat \<Rightarrow> string \<Rightarrow> (json list \<times> string) option"
  and parse_members :: "host \<Rightarrow> nat \<Rightarrow> string \<Rightarrow> ((string \<times> json) list \<times> string) option" where
  "parse_value H 0 s = None"
| "parse_value H (Suc n) s = (case s of
     [] \<Rightarrow> None
   | c # cs \<Rightarrow>
       if c = CHR 0x22 then map_option (\<lambda>(t, r). (JStr t, r)) (parse_string cs)
       else if c = CHR ''{'' then
         (let s' = skip_ws cs in
          if s' \<noteq> [] \<and> hd s' = CHR ''}'' then Some (JObj [], tl s')
          else map_option (\<lambda>(ps, r). (JObj (fold (\<lambda>(k, v) d. dset d k v) ps []), r)) (parse_members H n s'))
       else if c = CHR ''['' then
         (let s' = skip_ws cs in
          if s' \<noteq> [] \<and> hd s' = CHR '']'' then Some (JList [], tl s')
          else map_option (\<lambda>(vs, r). (JList vs, r)) (parse_items H n s'))
       else parse_literal H s)"
| "parse_items H 0 s = None"
| "parse_items H (Suc n) s = (case parse_value H n s of
     None \<Rightarrow> None
   | Some (v, r) \<Rightarrow>
       (case skip_ws r of
          [] \<Rightarrow> None
        | c # r' \<Rightarrow>
            if c = CHR '']'' then Some ([v], r')
            else if c = CHR '','' then map_option (\<lambda>(vs, r''). (v # vs, r'')) (parse_items H n (skip_ws r'))
            else None))"
| "parse_members H 0 s = None"
| "parse_members H (Suc n) s = (case s of
     [] \<Rightarrow> None
   | q # cs \<Rightarrow>
       if q \<noteq> CHR 0x22 then None else
       (case parse_string cs of
          None \<Rightarrow> None
        | Some (k, r) \<Rightarrow>
            (case skip_ws r of
               [] \<Rightarrow> None
             | c # r1 \<Rightarrow>
                 if c \<noteq> CHR '':'' then None else
                 (case parse_value H n (skip_ws r1) of
                    None \<Rightarrow> None
                  | Some (v, r2) \<Rightarrow>
                      (case skip_ws r2 of
                         [] \<Rightarrow> None
                       | d # r3 \<Rightarrow>
                           if d = CHR ''}'' then Some ([(k, v)], r3)
                           else if d = CHR '','' then
                             map_option (\<lambda>(ps, r4). ((k, v) # ps, r4)) (parse_members H n (skip_ws r3))
                           else None)))))"

definition json_loads :: "host \<Rightarrow> string \<Rightarrow> json option" where
  "json_loads H s =
     (if startswith s [CHR 0xEF, CHR 0xBB, CHR 0xBF] then None else
      case parse_value H (2 * length s + 2) (skip_ws s) of
        None \<Rightarrow> None
      | Some (v, r) \<Rightarrow> if skip_ws r = [] then Some v else None)"

section \<open>Reading back what the encoder prints\<close>

lemma hex_value_digit: "k < 16 \<Longrightarrow> hex_value (hex_digit k) = Some k"
  by (auto simp: hex_digit_def Let_def of_char_of)

lemma parse_simple_escape:
  "simple_escape e = Some ch \<Longrightarrow> e \<noteq> CHR ''u'' \<Longrightarrow>
   parse_string (CHR 0x5C # e # t) = map_option (\<lambda>(u, r). (ch # u, r)) (parse_string t)"
  by (subst parse_string.simps) simp

lemma char_codes:
  "of_char c = (34 :: nat) \<longleftrightarrow> c = CHR 0x22" "of_char c = (92 :: nat) \<longleftrightarrow> c = CHR 0x5C"
  "of_char c = (10 :: nat) \<longleftrightarrow> c = CHR 0x0A" "of_char c = (13 :: nat) \<longleftrightarrow> c = CHR 0x0D"
  "of_char c = (9 :: nat) \<longleftrightarrow> c = CHR 0x09" "of_char c = (8 :: nat) \<longleftrightarrow> c = CHR 0x08"
  "of_char c = (12 :: nat) \<longleftrightarrow> c = CHR 0x0C"
proof -
  have code: "of_char c = (n :: nat) \<longleftrightarrow> c = d" if "of_char d = n" for n d
    using that by (metis char_of_char)
  show "of_char c = (34 :: nat) \<longleftrightarrow> c = CHR 0x22" by (rule code) simp
  show "of_char c = (92 :: nat) \<longleftrightarrow> c = CHR 0x5C" by (rule code) simp
  show "of_char c = (10 :: nat) \<longleftrightarrow> c = CHR 0x0A" by (rule code) simp
  show "of_char c = (13 :: nat) \<longleftrightarrow> c = CHR 0x0D" by (rule code) simp
  show "of_char c = (9 :: nat) \<longleftrightarrow> c = CHR 0x09" by (rule code) simp
  show "of_char c = (8 :: nat) \<longleftrightarrow> c = CHR 0x08" by (rule code) simp
  show "of_char c = (12 :: nat) \<longleftrightarrow> c = CHR 0x0C" by (rule code) simp
qed

lemma parse_string_escape:
  "parse_string (escape_char c @ t) = map_option (\<lambda>(u, r). (c # u, r)) (parse_string t)"
proof -
  let ?n = "of_char c :: nat"
  have c: "char_of ?n = c" by simp
  consider (q) "?n = 34" | (b) "?n = 92" | (nl) "?n = 10" | (cr) "?n = 13" | (tab) "?n = 9" | (bs) "?n = 8"
    | (ff) "?n = 12" | (ctl) "?n < 32" "?n \<notin> {34, 92, 10, 13, 9, 8, 12}" | (plain) "32 \<le> ?n" "?n \<noteq> 34" "?n \<noteq> 92"
    by (cases "?n < 32") auto
  then show ?thesis
  proof cases
    case ctl
    then have esc: "escape_char c = [CHR 0x5C, CHR ''u'', CHR ''0'', CHR ''0'', hex_digit (?n div 16), hex_digit (?n mod 16)]"
      by (auto simp: escape_char_def Let_def)
    have "hex_value (hex_digit (?n div 16)) = Some (?n div 16)" "hex_value (hex_digit (?n mod 16)) = Some (?n mod 16)"
      using ctl by (auto simp only: intro!: hex_value_digit)
    moreover have "hex_value (CHR ''0'') = Some 0" by code_simp
    ultimately have "unicode_escape (CHR ''0'' # CHR ''0'' # hex_digit (?n div 16) # hex_digit (?n mod 16) # t) = Some (?n, t)"
      using ctl by (simp add: unicode_escape_def del: hex_value.simps)
    moreover have "utf8 ?n = [c]" using ctl by (simp add: utf8_def)
    ultimately show ?thesis
      unfolding esc by (subst parse_string.simps) (simp add: option.map_comp o_def case_prod_unfold)
  next
    case plain
    then have "escape_char c = [c]" "c \<noteq> CHR 0x22" "c \<noteq> CHR 0x5C" by (auto simp: escape_char_def Let_def)
    with plain show ?thesis by (subst parse_string.simps) simp
  qed (simp_all add: char_codes escape_char_def parse_simple_escape simple_escape_def)
qed

lemma parse_string_quote: "parse_string (concat (map escape_char s) @ CHR 0x22 # r) = Some (s, r)"
proof (induction s)
  case Nil
  then show ?case by (subst parse_string.simps) simp
next
  case (Cons c s)
  then show ?case by (simp add: parse_string_escape)
qed

lemma is_digit_char: "is_digit (digit_char k)"
  by (simp add: is_digit_def digit_char_def Let_def of_char_of)

lemma nat_digits_all: "list_all is_digit (nat_digits n)"
  by (induction n rule: nat_digits.induct) (subst nat_digits.simps, simp add: is_digit_char)

lemma nat_digits_ne: "nat_digits n \<noteq> []"
  by (subst nat_digits.simps) simp

lemma digits_value_snoc: "digits_value (ds @ [c]) = digits_value ds * 10 + (of_char c - 48)"
  by (simp add: digits_value_def)

lemma of_digit_char: "of_char (digit_char k) = (48 + k mod 10 :: nat)"
  by (simp add: digit_char_def of_char_of)

lemma digits_value_nat: "digits_value (nat_digits n) = n"
proof (induction n rule: nat_digits.induct)
  case (1 n)
  then show ?case
    by (subst nat_digits.simps) (simp add: digits_value_snoc of_digit_char, simp add: digits_value_def of_digit_char)
qed

lemma nat_digits_head: "0 < n \<Longrightarrow> hd (nat_digits n) \<noteq> CHR ''0''"
proof (induction n rule: nat_digits.induct)
  case (1 n)
  have z: "(of_char (CHR ''0'') :: nat) = 48" by code_simp
  show ?case
  proof (cases "n < 10")
    case True
    then have "(of_char (hd (nat_digits n)) :: nat) = 48 + n"
      by (subst nat_digits.simps) (simp add: of_digit_char)
    with z "1.prems" show ?thesis by (metis add_cancel_left_right less_not_refl)
  next
    case False
    then have "hd (nat_digits n) = hd (nat_digits (n div 10))"
      by (subst nat_digits.simps) (simp add: nat_digits_ne)
    with 1 False show ?thesis by simp
  qed
qed

text \<open>What may follow a value: the end of the text or the next structural character.\<close>

definition ends :: "string \<Rightarrow> bool" where
  "ends r \<longleftrightarrow> r = [] \<or> hd r \<in> {CHR '','', CHR '']'', CHR ''}''}"

lemma ends_not_digit: "ends r \<Longrightarrow> r = [] \<or> \<not> is_digit (hd r)"
  by (auto simp: ends_def is_digit_def)

lemma digits_of_append: "list_all is_digit ds \<Longrightarrow> ends r \<Longrightarrow> digits_of (ds @ r) = ds"
  using ends_not_digit[of r] by (cases r) (auto simp: digits_of_def list_all_iff takeWhile_append)

lemma ends_no_fraction: "ends r \<Longrightarrow> fraction_of r = [] \<and> exponent_of r = []"
  by (auto simp: ends_def fraction_of_def exponent_of_def split: list.splits)

lemma digits_head: "nat_digits n = c # cs \<Longrightarrow> is_digit c"
  using nat_digits_all[of n] by simp

lemma lead_digits_nat:
  assumes "ends r"
  shows "lead_digits (nat_digits n @ r) = nat_digits n"
proof (cases "n = 0")
  case True
  moreover have "nat_digits 0 = [CHR ''0'']" by code_simp
  ultimately show ?thesis by (simp add: lead_digits_def)
next
  case False
  then have "hd (nat_digits n @ r) \<noteq> CHR ''0''" using nat_digits_head[of n] by (simp add: nat_digits_ne)
  with digits_of_append[OF nat_digits_all assms] show ?thesis by (simp add: lead_digits_def)
qed

lemma parse_number_int:
  assumes "ends r"
  shows "parse_number H (int_digits i @ r) = Some (JInt i, r)"
proof (cases "i < 0")
  case True
  then show ?thesis
    using ends_no_fraction[OF assms] by (simp add: lead_digits_nat[OF assms] parse_number_def int_digits_def Let_def nat_digits_ne digits_value_nat)
next
  case False
  have "hd (nat_digits (nat i) @ r) \<noteq> CHR ''-''"
    using digits_head[of "nat i"] by (cases "nat_digits (nat i)") (auto simp: nat_digits_ne is_digit_def)
  with False show ?thesis
    using ends_no_fraction[OF assms] by (simp add: lead_digits_nat[OF assms] parse_number_def int_digits_def Let_def nat_digits_ne digits_value_nat)
qed

text \<open>Values without floats, and the fuel their text needs.\<close>

fun float_free :: "json \<Rightarrow> bool" where
  "float_free (JFloat f) = False"
| "float_free (JList xs) = list_all float_free xs"
| "float_free (JObj d) = list_all (\<lambda>p. float_free (snd p)) d"
| "float_free _ = True"

fun need :: "json \<Rightarrow> nat" where
  "need (JList xs) = Suc (sum_list (map (\<lambda>x. Suc (need x)) xs))"
| "need (JObj d) = Suc (sum_list (map (\<lambda>p. Suc (need (snd p))) d))"
| "need _ = 1"

lemma skip_ws_Cons: "\<not> is_ws c \<Longrightarrow> skip_ws (c # s) = c # s"
  by (simp add: skip_ws_def)

lemma int_digits_head: obtains c cs where "int_digits i = c # cs" "is_digit c \<or> c = CHR ''-''"
proof (cases "i < 0")
  case True
  then have "int_digits i = CHR ''-'' # nat_digits (nat (- i))" by (simp add: int_digits_def)
  then show thesis by (rule that) simp
next
  case False
  obtain c cs where c: "nat_digits (nat i) = c # cs" using nat_digits_ne by (cases "nat_digits (nat i)") auto
  with False digits_head[OF c] show thesis by (intro that[of c cs]) (simp_all add: int_digits_def)
qed

definition value_head :: "char \<Rightarrow> bool" where
  "value_head c \<longleftrightarrow> c \<in> {CHR 0x22, CHR ''['', CHR ''{'', CHR ''n'', CHR ''t'', CHR ''f'', CHR ''-''} \<or> is_digit c"

lemma value_head_not: "value_head c \<Longrightarrow> \<not> is_ws c \<and> c \<noteq> CHR '']'' \<and> c \<noteq> CHR ''}''"
  by (auto simp: value_head_def is_ws_def is_digit_def)

lemma json_dumps_head: "float_free v \<Longrightarrow> \<exists>c cs. json_dumps H sk v = c # cs \<and> value_head c"
proof (cases v)
  case (JInt i)
  obtain c cs where "int_digits i = c # cs" "is_digit c \<or> c = CHR ''-''" by (rule int_digits_head)
  with JInt show ?thesis by (auto simp: value_head_def)
qed (auto simp: value_head_def quote_string_def)

lemma parse_literal_int:
  assumes "ends r"
  shows "parse_literal H (int_digits i @ r) = Some (JInt i, r)"
proof -
  obtain c cs where c: "int_digits i = c # cs" "is_digit c \<or> c = CHR ''-''" by (rule int_digits_head)
  then have "c \<noteq> CHR ''n'' \<and> c \<noteq> CHR ''t'' \<and> c \<noteq> CHR ''f''" by (auto simp: is_digit_def)
  with c parse_number_int[OF assms, of H i] show ?thesis
    by (simp add: parse_literal_def strip_prefix_def startswith_def)
qed

lemma parse_value_scalar:
  assumes "ends r" "0 < n"
  shows "parse_value H n (quote_string s @ r) = Some (JStr s, r)"
    and "parse_value H n (int_digits i @ r) = Some (JInt i, r)"
    and "parse_value H n (''null'' @ r) = Some (JNull, r)"
    and "parse_value H n (''true'' @ r) = Some (JBool True, r)"
    and "parse_value H n (''false'' @ r) = Some (JBool False, r)"
proof -
  obtain m where n: "n = Suc m" using assms(2) by (cases n) auto
  show "parse_value H n (quote_string s @ r) = Some (JStr s, r)"
    using parse_string_quote[of s r] by (simp add: n quote_string_def)
  obtain c cs where c: "int_digits i = c # cs" "is_digit c \<or> c = CHR ''-''" by (rule int_digits_head)
  then have "c \<noteq> CHR 0x22 \<and> c \<noteq> CHR ''{'' \<and> c \<noteq> CHR ''[''" by (auto simp: is_digit_def)
  with c parse_literal_int[OF assms(1), of H i] show "parse_value H n (int_digits i @ r) = Some (JInt i, r)"
    by (simp add: n)
qed (use assms(2) in \<open>(cases n; simp add: parse_literal_def strip_prefix_def startswith_def)+\<close>)

lemma parse_items_ok:
  assumes IH: "\<And>x n r. x \<in> set xs \<Longrightarrow> ends r \<Longrightarrow> need x \<le> n \<Longrightarrow> parse_value H n (json_dumps H False x @ r) = Some (x, r)"
    and free: "list_all float_free xs" and ne: "xs \<noteq> []" and fuel: "sum_list (map (\<lambda>x. Suc (need x)) xs) \<le> n"
  shows "parse_items H n (join_comma (map (json_dumps H False) xs) @ CHR '']'' # r) = Some (xs, r)"
  using assms
proof (induction xs arbitrary: n)
  case Nil
  then show ?case by simp
next
  case (Cons x xs)
  then obtain m where m: "n = Suc m" "need x \<le> m" "sum_list (map (\<lambda>x. Suc (need x)) xs) \<le> m" by (cases n) auto
  show ?case
  proof (cases xs)
    case Nil
    have "ends (CHR '']'' # r)" by (simp add: ends_def)
    with Cons.prems(1)[of x _ m] m Nil show ?thesis by (simp add: skip_ws_Cons is_ws_def)
  next
    case (Cons y ys)
    obtain c cs where c: "json_dumps H False y = c # cs" "value_head c"
      using Cons Cons.prems(2) json_dumps_head[of y H False] by auto
    let ?rest = "join_comma (map (json_dumps H False) xs) @ CHR '']'' # r"
    have hd: "skip_ws ?rest = ?rest"
      using c Cons value_head_not[OF c(2)] by (cases ys) (simp_all add: skip_ws_Cons)
    have "ends (CHR '','' # ?rest)" by (simp add: ends_def)
    with Cons.prems(1)[of x _ m] m have v: "parse_value H m (json_dumps H False x @ CHR '','' # ?rest) = Some (x, CHR '','' # ?rest)"
      by simp
    have "parse_items H m ?rest = Some (xs, r)"
      using Cons Cons.prems m by (intro Cons.IH) auto
    with v m hd Cons show ?thesis by (simp add: skip_ws_Cons is_ws_def)
  qed
qed

lemma member_text_eq: "member_text p = CHR 0x22 # concat (map escape_char (fst p)) @ CHR 0x22 # CHR '':'' # snd p"
  by (simp add: member_text_def quote_string_def)

lemma join_comma_Cons: "ts \<noteq> [] \<Longrightarrow> join_comma (t # ts) = t @ CHR '','' # join_comma ts"
  by (cases ts) simp_all

lemma parse_members_ok:
  assumes IH: "\<And>k v n r. (k, v) \<in> set d \<Longrightarrow> ends r \<Longrightarrow> need v \<le> n \<Longrightarrow> parse_value H n (json_dumps H False v @ r) = Some (v, r)"
    and free: "list_all (\<lambda>p. float_free (snd p)) d" and ne: "d \<noteq> []" and fuel: "sum_list (map (\<lambda>p. Suc (need (snd p))) d) \<le> n"
  shows "parse_members H n (join_comma (map member_text (map (\<lambda>(k, v). (k, json_dumps H False v)) d)) @ CHR ''}'' # r) = Some (d, r)"
  using assms
proof (induction d arbitrary: n)
  case Nil
  then show ?case by simp
next
  case (Cons p d)
  obtain k v where p: "p = (k, v)" by (cases p)
  from Cons.prems p obtain m where m: "n = Suc m" "need v \<le> m" "sum_list (map (\<lambda>p. Suc (need (snd p))) d) \<le> m" by (cases n) auto
  obtain c cs where c: "json_dumps H False v = c # cs" "value_head c"
    using Cons.prems(2) p json_dumps_head[of v H False] by auto
  have key: "parse_string (concat (map escape_char k) @ CHR 0x22 # t) = Some (k, t)" for t by (rule parse_string_quote)
  have sk: "skip_ws (json_dumps H False v @ t) = json_dumps H False v @ t" for t
    using c value_head_not[OF c(2)] by (simp add: skip_ws_Cons)
  show ?case
  proof (cases d)
    case Nil
    have "ends (CHR ''}'' # r)" by (simp add: ends_def)
    then have "parse_value H m (json_dumps H False v @ CHR ''}'' # r) = Some (v, CHR ''}'' # r)"
      using Cons.prems(1)[of k v] p m by simp
    with p m Nil sk key show ?thesis by (simp add: member_text_eq skip_ws_Cons is_ws_def)
  next
    case (Cons q qs)
    let ?rest = "join_comma (map member_text (map (\<lambda>(k, v). (k, json_dumps H False v)) d)) @ CHR ''}'' # r"
    have hd: "skip_ws ?rest = ?rest"
      using Cons by (cases qs) (simp_all add: member_text_eq skip_ws_Cons is_ws_def)
    have "ends (CHR '','' # ?rest)" by (simp add: ends_def)
    then have v: "parse_value H m (json_dumps H False v @ CHR '','' # ?rest) = Some (v, CHR '','' # ?rest)"
      using Cons.prems(1)[of k v] p m by simp
    have "parse_members H m ?rest = Some (d, r)"
      using Cons Cons.prems m by (intro Cons.IH) auto
    moreover have "join_comma (map member_text (map (\<lambda>(k, v). (k, json_dumps H False v)) (p # d))) @ CHR ''}'' # r =
        CHR 0x22 # concat (map escape_char k) @ CHR 0x22 # CHR '':'' # json_dumps H False v @ CHR '','' # ?rest"
      using Cons p by (simp add: join_comma_Cons member_text_eq[of "(k, json_dumps H False v)"] del: map_map)
    ultimately show ?thesis
      using v hd unfolding p m(1) by (simp add: key sk skip_ws_Cons is_ws_def del: map_map join_comma.simps list.map)
  qed
qed

lemma fold_dset_distinct: "distinct (map fst d) \<Longrightarrow> fold (\<lambda>(k, v) e. dset e k v) d [] = d"
proof (induction d rule: rev_induct)
  case (snoc p d)
  then have "map_of d (fst p) = None" by (auto simp: map_of_eq_None_iff)
  with snoc show ?case by (cases p) (simp add: dset_new)
qed simp

lemma parse_dumps:
  "float_free v \<Longrightarrow> wf_json v \<Longrightarrow> ends r \<Longrightarrow> need v \<le> n \<Longrightarrow> parse_value H n (json_dumps H False v @ r) = Some (v, r)"
proof (induction v arbitrary: n r)
  case (JList xs)
  then obtain m where m: "n = Suc m" "sum_list (map (\<lambda>x. Suc (need x)) xs) \<le> m" by (cases n) auto
  show ?case
  proof (cases xs)
    case Nil
    with m show ?thesis by (simp add: skip_ws_Cons is_ws_def)
  next
    case (Cons y ys)
    let ?t = "join_comma (map (json_dumps H False) xs) @ CHR '']'' # r"
    obtain c cs where c: "json_dumps H False y = c # cs" "value_head c"
      using Cons JList.prems(1) json_dumps_head[of y H False] by auto
    have hd: "skip_ws ?t = ?t" "hd ?t \<noteq> CHR '']''"
      using c Cons value_head_not[OF c(2)] by (cases ys; simp add: skip_ws_Cons)+
    have "parse_items H m ?t = Some (xs, r)"
      using JList m Cons by (intro parse_items_ok) (auto simp: list_all_iff)
    with hd m show ?thesis by (simp add: Let_def)
  qed
next
  case (JObj d)
  then obtain m where m: "n = Suc m" "sum_list (map (\<lambda>p. Suc (need (snd p))) d) \<le> m" by (cases n) auto
  show ?case
  proof (cases d)
    case Nil
    with m show ?thesis by (simp add: skip_ws_Cons is_ws_def order_members_def)
  next
    case (Cons q qs)
    let ?t = "join_comma (map member_text (map (\<lambda>(k, v). (k, json_dumps H False v)) d)) @ CHR ''}'' # r"
    have hd: "skip_ws ?t = ?t" "hd ?t \<noteq> CHR ''}''"
      using Cons by (cases qs; simp add: member_text_eq skip_ws_Cons is_ws_def)+
    have "parse_members H m ?t = Some (d, r)"
    proof (rule parse_members_ok)
      fix k v n r assume kv: "(k, v) \<in> set d" "ends r" "need v \<le> n"
      with JObj.prems have "float_free v" "wf_json v" by (auto simp: list_all_iff)
      with JObj.IH[OF kv(1)] kv show "parse_value H n (json_dumps H False v @ r) = Some (v, r)" by simp
    qed (use JObj.prems m Cons in auto)
    with hd m JObj.prems show ?thesis by (simp add: Let_def order_members_def fold_dset_distinct del: map_map)
  qed
qed (auto intro: parse_value_scalar(2) simp: parse_value_scalar(1) parse_value_scalar(3-5)[simplified])

lemma join_comma_length: "ts \<noteq> [] \<Longrightarrow> sum_list (map (\<lambda>t. Suc (length t)) ts) \<le> Suc (length (join_comma ts))"
  by (induction ts rule: join_comma.induct) auto

lemma sum_list_Suc_le: "(\<And>x. x \<in> set xs \<Longrightarrow> f x \<le> g x) \<Longrightarrow> sum_list (map (\<lambda>x. Suc (f x)) xs) \<le> sum_list (map (\<lambda>x. Suc (g x)) xs)"
  by (rule sum_list_mono) simp

lemma need_length: "float_free v \<Longrightarrow> need v \<le> length (json_dumps H False v)"
proof (induction v)
  case (JList xs)
  show ?case
  proof (cases "xs = []")
    case False
    have "sum_list (map (\<lambda>x. Suc (need x)) xs) \<le> sum_list (map (\<lambda>x. Suc (length (json_dumps H False x))) xs)"
      using JList by (intro sum_list_Suc_le) (auto simp: list_all_iff)
    also have "\<dots> = sum_list (map (\<lambda>t. Suc (length t)) (map (json_dumps H False) xs))" by (simp add: o_def)
    also have "\<dots> \<le> Suc (length (join_comma (map (json_dumps H False) xs)))"
      using False by (intro join_comma_length) simp
    finally show ?thesis by simp
  qed simp
next
  case (JObj d)
  let ?ts = "map member_text (map (\<lambda>(k, v). (k, json_dumps H False v)) d)"
  show ?case
  proof (cases "d = []")
    case False
    have "need (snd p) \<le> length (member_text (fst p, json_dumps H False (snd p)))" if "p \<in> set d" for p
    proof -
      have "need (snd p) \<le> length (json_dumps H False (snd p))"
        using JObj that by (cases p) (auto simp: list_all_iff snds.simps)
      then show ?thesis by (simp add: member_text_eq)
    qed
    then have "sum_list (map (\<lambda>p. Suc (need (snd p))) d) \<le> sum_list (map (\<lambda>p. Suc (length (member_text (fst p, json_dumps H False (snd p))))) d)"
      by (rule sum_list_Suc_le)
    also have "\<dots> = sum_list (map (\<lambda>t. Suc (length t)) ?ts)" by (simp add: o_def case_prod_unfold)
    also have "\<dots> \<le> Suc (length (join_comma ?ts))" using False by (intro join_comma_length) simp
    finally show ?thesis by (simp add: order_members_def del: map_map)
  qed simp
qed (auto simp: quote_string_def int_digits_def nat_digits_ne Suc_le_eq)

lemma json_loads_dumps:
  assumes "float_free v" "wf_json v"
  shows "json_loads H (json_dumps H False v) = Some v"
proof -
  let ?t = "json_dumps H False v"
  obtain c cs where c: "?t = c # cs" "value_head c" using json_dumps_head[OF assms(1), of H False] by auto
  then have "skip_ws ?t = ?t" using value_head_not[OF c(2)] by (simp add: skip_ws_Cons)
  moreover have "\<not> startswith ?t [CHR 0xEF, CHR 0xBB, CHR 0xBF]"
    using c by (auto simp: startswith_def value_head_def is_digit_def)
  moreover have "parse_value H (2 * length ?t + 2) (?t @ []) = Some (v, [])"
    using need_length[OF assms(1), of H] by (intro parse_dumps assms) (simp_all add: ends_def)
  ultimately show ?thesis by (simp add: json_loads_def skip_ws_def)
qed

end
