(* ===== verification/Operation_Store.thy ===== *)
theory Operation_Store
  imports Operation_Log Json_Parse
begin

text \<open>
  The event store of operations (\<open>session/operation_store.py\<close>): leases, the scope of a fenced claim,
  the checks of an append, the in-memory store with its claims, and the single-process JSONL
  store. An operation of a store is a function from the store to its result and the store after
  it, so that what a refused call leaves behind is part of the model. Time is an argument:
  \<open>now\<close> is \<open>time.monotonic()\<close> inside the lock, \<open>wall\<close> is the wall clock in
  milliseconds, \<open>clock\<close> gives the time stamps of new events. The lock serialises the calls,
  so an execution is a sequence of them. The JSONL file is its text, read back by
  \<open>str.splitlines\<close> and \<open>json.loads\<close>.
\<close>

section \<open>Leases and claim scopes\<close>

datatype store_fault =
    SfLeaseIdentity | SfLeaseGeneration
  | SfScopeType | SfScopeSession | SfScopeOperation | SfScopeEntity
  | SfWriterSession | SfClaimTypeForbidden | SfScopeEncoding | SfScopeNotObject | SfScopeMismatch
  | SfScopeOperationMismatch | SfEntityExpected | SfEntityMismatch
  | SfClaimLost | SfVersionConflict | SfDeadline | SfBatchEmpty | SfBatchInvalid
  | SfClaimIdentity | SfClaimSeconds | SfUniqueFact | SfEvent log_fault
  | SfJsonlLine | SfJsonlSequence

record claim_lease =
  cl_claim_type :: string
  cl_resource_id :: string
  cl_owner_token :: string
  cl_generation :: int

definition lease_post_init :: "claim_lease \<Rightarrow> (store_fault, claim_lease) result" where
  "lease_post_init l =
     bindE (guardE (cl_claim_type l \<noteq> [] \<and> cl_resource_id l \<noteq> [] \<and> cl_owner_token l \<noteq> []) (Raised SfLeaseIdentity)) (\<lambda>_.
     bindE (guardE (1 \<le> cl_generation l) (Raised SfLeaseGeneration)) (\<lambda>_. Inr l))"

definition fencing_token :: "claim_lease \<Rightarrow> int" where
  "fencing_token l = cl_generation l"

definition operation_claim_types :: "string list" where
  "operation_claim_types = [''operation_recovery'', ''approval_resume'', ''write_reconcile'', ''plan_execution'']"

definition entity_claim_types :: "string list" where
  "entity_claim_types = [''approval_resume'', ''write_reconcile'', ''plan_execution'']"

text \<open>\<open>not value\<close> for an optional text.\<close>

definition opt_blank :: "string option \<Rightarrow> bool" where
  "opt_blank v = (case v of None \<Rightarrow> True | Some s \<Rightarrow> s = [])"

definition opt_str :: "string option \<Rightarrow> json" where
  "opt_str v = (case v of None \<Rightarrow> JNull | Some s \<Rightarrow> JStr s)"

definition fenced_claim_resource_id ::
  "host \<Rightarrow> string \<Rightarrow> string \<Rightarrow> string option \<Rightarrow> string option \<Rightarrow> (store_fault, string) result" where
  "fenced_claim_resource_id H claim_type session_id operation_id entity_id =
     bindE (guardE (claim_type \<in> set operation_claim_types) (Raised SfScopeType)) (\<lambda>_.
     bindE (guardE (session_id \<noteq> []) (Raised SfScopeSession)) (\<lambda>_.
     bindE (guardE (claim_type = ''plan_execution'' \<or> \<not> opt_blank operation_id) (Raised SfScopeOperation)) (\<lambda>_.
     bindE (guardE (\<not> (claim_type \<in> set entity_claim_types \<and> opt_blank entity_id)) (Raised SfScopeEntity)) (\<lambda>_.
     Inr (json_dumps H True (JObj [(''claimType'', JStr claim_type), (''entityId'', opt_str entity_id),
       (''operationId'', opt_str operation_id), (''sessionId'', JStr session_id)]))))))"

definition validate_fenced_claim_scope ::
  "host \<Rightarrow> claim_lease \<Rightarrow> string \<Rightarrow> string \<Rightarrow> string option \<Rightarrow> (store_fault, unit) result" where
  "validate_fenced_claim_scope H lease session_id operation_id expected_entity_id =
     (if cl_claim_type lease = ''conversation_session_writer''
      then guardE (cl_resource_id lease = session_id) (Raised SfWriterSession)
      else bindE (guardE (cl_claim_type lease \<in> set operation_claim_types) (Raised SfClaimTypeForbidden)) (\<lambda>_.
        case json_loads H (cl_resource_id lease) of
          None \<Rightarrow> Inl (Raised SfScopeEncoding)
        | Some (JObj scope) \<Rightarrow>
            bindE (guardE (jget scope ''claimType'' = JStr (cl_claim_type lease) \<and>
                     jget scope ''sessionId'' = JStr session_id) (Raised SfScopeMismatch)) (\<lambda>_.
            bindE (guardE (cl_claim_type lease = ''plan_execution'' \<or> jget scope ''operationId'' = JStr operation_id)
                     (Raised SfScopeOperationMismatch)) (\<lambda>_.
            if cl_claim_type lease \<in> set entity_claim_types
            then bindE (guardE (\<not> opt_blank expected_entity_id) (Raised SfEntityExpected)) (\<lambda>_.
                 guardE (jget scope ''entityId'' = opt_str expected_entity_id) (Raised SfEntityMismatch))
            else Inr ()))
        | Some _ \<Rightarrow> Inl (Raised SfScopeNotObject)))"

section \<open>Checks of an append\<close>

definition of_operation :: "string \<Rightarrow> string \<Rightarrow> operation_event \<Rightarrow> bool" where
  "of_operation sid op e \<longleftrightarrow> ev_session_id e = sid \<and> ev_operation_id e = op"

definition operation_last_sequence :: "operation_event list \<Rightarrow> int" where
  "operation_last_sequence events = (if events = [] then -1 else ev_sequence (last events))"

definition last_operation_sequence :: "operation_event list \<Rightarrow> string \<Rightarrow> string \<Rightarrow> int" where
  "last_operation_sequence events sid op = (case find (of_operation sid op) (rev events) of
     None \<Rightarrow> -1 | Some e \<Rightarrow> ev_sequence e)"

definition check_expected :: "int \<Rightarrow> int option \<Rightarrow> (store_fault, unit) result" where
  "check_expected current expected = (case expected of None \<Rightarrow> Inr ()
     | Some x \<Rightarrow> guardE (current = x) (Raised SfVersionConflict))"

definition check_deadline :: "int \<Rightarrow> int option \<Rightarrow> (store_fault, unit) result" where
  "check_deadline wall deadline_ms = (case deadline_ms of None \<Rightarrow> Inr ()
     | Some d \<Rightarrow> guardE (wall < d) (Raised SfDeadline))"

definition validate_batch :: "event_spec list \<Rightarrow> (store_fault, unit) result" where
  "validate_batch specs =
     bindE (guardE (specs \<noteq> []) (Raised SfBatchEmpty)) (\<lambda>_.
     guardE (list_all (\<lambda>p. fst p \<noteq> []) specs) (Raised SfBatchInvalid))"

definition validate_claim :: "string \<Rightarrow> string \<Rightarrow> string \<Rightarrow> rat \<Rightarrow> (store_fault, unit) result" where
  "validate_claim claim_type resource_id owner_token lease_seconds =
     bindE (guardE (claim_type \<noteq> [] \<and> resource_id \<noteq> [] \<and> owner_token \<noteq> []) (Raised SfClaimIdentity)) (\<lambda>_.
     guardE (0 < lease_seconds) (Raised SfClaimSeconds))"

definition unique_constraints :: "(string \<times> string) list" where
  "unique_constraints = [(''approval_requested'', ''approvalId''), (''write_prepared'', ''writeId''),
     (''write_prepared'', ''idempotencyKeyHash'')]"

text \<open>The values of a constrained field among events and among a batch.\<close>

definition known_facts :: "host \<Rightarrow> operation_event list \<Rightarrow> string \<times> string \<Rightarrow> string list" where
  "known_facts H events c = map (\<lambda>e. py_str H (jget (ev_data e) (snd c)))
     (filter (\<lambda>e. ev_type e = fst c \<and> jget (ev_data e) (snd c) \<noteq> JNull) events)"

definition incoming_facts :: "host \<Rightarrow> event_spec list \<Rightarrow> string \<times> string \<Rightarrow> string list" where
  "incoming_facts H specs c = map (\<lambda>p. py_str H (jget (snd p) (snd c)))
     (filter (\<lambda>p. fst p = fst c \<and> jget (snd p) (snd c) \<noteq> JNull) specs)"

definition check_unique_operation_facts ::
  "host \<Rightarrow> operation_event list \<Rightarrow> event_spec list \<Rightarrow> (store_fault, unit) result" where
  "check_unique_operation_facts H existing specs = foldE (\<lambda>c _.
     guardE (distinct (incoming_facts H specs c) \<and>
         list_all (\<lambda>v. v \<notin> set (known_facts H existing c)) (incoming_facts H specs c))
       (Raised SfUniqueFact)) unique_constraints ()"

section \<open>Claims\<close>

type_synonym claim_row = "string \<times> rat \<times> int"
type_synonym claims = "(string \<times> string, claim_row) dict"

definition lease_key :: "claim_lease \<Rightarrow> string \<times> string" where
  "lease_key l = (cl_claim_type l, cl_resource_id l)"

definition lease_current :: "claims \<Rightarrow> claim_lease \<Rightarrow> rat \<Rightarrow> bool" where
  "lease_current cs l now = (case map_of cs (lease_key l) of
     None \<Rightarrow> False
   | Some (owner, expires, generation) \<Rightarrow>
       owner = cl_owner_token l \<and> generation = cl_generation l \<and> now < expires)"

definition claim_try_acquire :: "string \<times> string \<Rightarrow> string \<Rightarrow> rat \<Rightarrow> rat \<Rightarrow> claims \<Rightarrow> bool \<times> claims" where
  "claim_try_acquire key owner_token lease_seconds now cs = (case map_of cs key of
     None \<Rightarrow> (True, dset cs key (owner_token, now + lease_seconds, 1))
   | Some (owner, expires, generation) \<Rightarrow>
       if owner \<noteq> owner_token \<and> now < expires then (False, cs)
       else (True, dset cs key (owner_token, now + lease_seconds,
              if owner = owner_token \<and> now < expires then generation else generation + 1)))"

definition claim_release :: "string \<times> string \<Rightarrow> string \<Rightarrow> claims \<Rightarrow> claims" where
  "claim_release key owner_token cs = (case map_of cs key of
     None \<Rightarrow> cs
   | Some (owner, expires, generation) \<Rightarrow>
       if owner = owner_token then dset cs key (owner, 0, generation + 1) else cs)"

definition claim_acquire_fenced ::
  "string \<times> string \<Rightarrow> string \<Rightarrow> rat \<Rightarrow> rat \<Rightarrow> claims \<Rightarrow> int option \<times> claims" where
  "claim_acquire_fenced key owner_token lease_seconds now cs = (case map_of cs key of
     None \<Rightarrow> (Some 1, dset cs key (owner_token, now + lease_seconds, 1))
   | Some (owner, expires, generation) \<Rightarrow>
       if now < expires
       then (if owner \<noteq> owner_token then (None, cs)
             else (Some generation, dset cs key (owner_token, now + lease_seconds, generation)))
       else (Some (generation + 1), dset cs key (owner_token, now + lease_seconds, generation + 1)))"

definition claim_renew :: "claim_lease \<Rightarrow> rat \<Rightarrow> rat \<Rightarrow> claims \<Rightarrow> bool \<times> claims" where
  "claim_renew l lease_seconds now cs =
     (if lease_current cs l now
      then (True, dset cs (lease_key l) (cl_owner_token l, now + lease_seconds, cl_generation l))
      else (False, cs))"

definition claim_release_fenced :: "claim_lease \<Rightarrow> claims \<Rightarrow> claims" where
  "claim_release_fenced l cs = (case map_of cs (lease_key l) of
     None \<Rightarrow> cs
   | Some (owner, expires, generation) \<Rightarrow>
       if owner = cl_owner_token l \<and> generation = cl_generation l
       then dset cs (lease_key l) (owner, 0, generation + 1) else cs)"

section \<open>The in-memory store\<close>

record memory_store =
  ms_events :: "operation_event list"
  ms_claims :: claims

type_synonym ('s, 'a) store_call = "'s \<Rightarrow> (store_fault, 'a) result \<times> 's"

definition empty_memory_store :: memory_store where
  "empty_memory_store = \<lparr>ms_events = [], ms_claims = []\<rparr>"

definition new_event :: "string \<Rightarrow> string \<Rightarrow> int \<Rightarrow> int \<Rightarrow> event_spec \<Rightarrow> (store_fault, operation_event) result" where
  "new_event sid op sq ts spec = catchE (event_post_init \<lparr>ev_type = fst spec, ev_session_id = sid,
      ev_operation_id = op, ev_sequence = sq, ev_timestamp = ts, ev_data = snd spec\<rparr>) (\<lambda>f. Inl (Raised (SfEvent f)))"

text \<open>The loop of an append: events stored before a failure stay stored.\<close>

fun append_loop :: "(nat \<Rightarrow> int) \<Rightarrow> string \<Rightarrow> string \<Rightarrow> event_spec list \<Rightarrow> operation_event list \<Rightarrow> operation_event list
    \<Rightarrow> (store_fault, operation_event list) result \<times> operation_event list" where
  "append_loop clock sid op [] appended events = (Inr appended, events)"
| "append_loop clock sid op (spec # specs) appended events =
     (case new_event sid op (int (length events)) (clock (length events)) spec of
        Inl f \<Rightarrow> (Inl f, events)
      | Inr e \<Rightarrow> append_loop clock sid op specs (appended @ [e]) (events @ [e]))"

definition append_checks ::
  "host \<Rightarrow> int \<Rightarrow> operation_event list \<Rightarrow> string \<Rightarrow> string \<Rightarrow> event_spec list \<Rightarrow> int option \<Rightarrow> int option
     \<Rightarrow> (store_fault, unit) result" where
  "append_checks H wall events sid op specs expected deadline =
     bindE (check_expected (last_operation_sequence events sid op) expected) (\<lambda>_.
     bindE (check_deadline wall deadline) (\<lambda>_.
     check_unique_operation_facts H events specs))"

definition memory_append_batch ::
  "host \<Rightarrow> (nat \<Rightarrow> int) \<Rightarrow> int \<Rightarrow> string \<Rightarrow> string \<Rightarrow> event_spec list \<Rightarrow> int option \<Rightarrow> int option
     \<Rightarrow> (memory_store, operation_event list) store_call" where
  "memory_append_batch H clock wall sid op specs expected deadline st =
     (case bindE (validate_batch specs) (\<lambda>_. append_checks H wall (ms_events st) sid op specs expected deadline) of
        Inl f \<Rightarrow> (Inl f, st)
      | Inr _ \<Rightarrow> (case append_loop clock sid op specs [] (ms_events st) of
          (r, events) \<Rightarrow> (r, st\<lparr>ms_events := events\<rparr>)))"

definition memory_append ::
  "host \<Rightarrow> (nat \<Rightarrow> int) \<Rightarrow> int \<Rightarrow> string \<Rightarrow> string \<Rightarrow> string \<Rightarrow> jdict option \<Rightarrow> (memory_store, operation_event) store_call" where
  "memory_append H clock wall ty sid op data st =
     (case memory_append_batch H clock wall sid op [(ty, case data of None \<Rightarrow> [] | Some d \<Rightarrow> d)] None None st of
        (Inl f, st') \<Rightarrow> (Inl f, st')
      | (Inr (e # _), st') \<Rightarrow> (Inr e, st')
      | (Inr [], st') \<Rightarrow> (Inl (Builtin IndexErr), st'))"

definition fenced_call_checks ::
  "host \<Rightarrow> event_spec list \<Rightarrow> claim_lease \<Rightarrow> rat \<Rightarrow> string \<Rightarrow> string \<Rightarrow> string option \<Rightarrow> (store_fault, unit) result" where
  "fenced_call_checks H specs lease renew_seconds sid op expected_entity =
     bindE (validate_batch specs) (\<lambda>_.
     bindE (validate_claim (cl_claim_type lease) (cl_resource_id lease) (cl_owner_token lease) renew_seconds) (\<lambda>_.
     validate_fenced_claim_scope H lease sid op expected_entity))"

definition memory_append_batch_if_fenced_claim ::
  "host \<Rightarrow> (nat \<Rightarrow> int) \<Rightarrow> int \<Rightarrow> rat \<Rightarrow> string \<Rightarrow> string \<Rightarrow> event_spec list \<Rightarrow> claim_lease
     \<Rightarrow> rat \<Rightarrow> int option \<Rightarrow> int option \<Rightarrow> string option \<Rightarrow> (memory_store, operation_event list) store_call" where
  "memory_append_batch_if_fenced_claim H clock wall now sid op specs lease renew_seconds expected deadline expected_entity st =
     (case bindE (fenced_call_checks H specs lease renew_seconds sid op expected_entity) (\<lambda>_.
           bindE (guardE (lease_current (ms_claims st) lease now) (Raised SfClaimLost)) (\<lambda>_.
           append_checks H wall (ms_events st) sid op specs expected deadline)) of
        Inl f \<Rightarrow> (Inl f, st)
      | Inr _ \<Rightarrow> (case append_loop clock sid op specs [] (ms_events st) of
          (Inl f, events) \<Rightarrow> (Inl f, st\<lparr>ms_events := events\<rparr>)
        | (Inr appended, events) \<Rightarrow> (Inr appended, st\<lparr>ms_events := events,
            ms_claims := dset (ms_claims st) (lease_key lease)
              (cl_owner_token lease, now + renew_seconds, cl_generation lease)\<rparr>)))"

definition load_filter :: "string option \<Rightarrow> string option \<Rightarrow> operation_event list \<Rightarrow> operation_event list" where
  "load_filter sid op events = filter (\<lambda>e. (case sid of None \<Rightarrow> True | Some s \<Rightarrow> ev_session_id e = s) \<and>
     (case op of None \<Rightarrow> True | Some x \<Rightarrow> ev_operation_id e = x)) events"

definition memory_load :: "string option \<Rightarrow> string option \<Rightarrow> memory_store \<Rightarrow> operation_event list" where
  "memory_load sid op st = load_filter sid op (ms_events st)"

definition memory_try_acquire_claim :: "rat \<Rightarrow> string \<Rightarrow> string \<Rightarrow> string \<Rightarrow> rat \<Rightarrow> (memory_store, bool) store_call" where
  "memory_try_acquire_claim now ty rid owner secs st =
     (case validate_claim ty rid owner secs of
        Inl f \<Rightarrow> (Inl f, st)
      | Inr _ \<Rightarrow> (case claim_try_acquire (ty, rid) owner secs now (ms_claims st) of
          (b, cs) \<Rightarrow> (Inr b, st\<lparr>ms_claims := cs\<rparr>)))"

definition memory_release_claim :: "string \<Rightarrow> string \<Rightarrow> string \<Rightarrow> (memory_store, unit) store_call" where
  "memory_release_claim ty rid owner st = (Inr (), st\<lparr>ms_claims := claim_release (ty, rid) owner (ms_claims st)\<rparr>)"

definition memory_acquire_fenced_claim ::
  "rat \<Rightarrow> string \<Rightarrow> string \<Rightarrow> string \<Rightarrow> rat \<Rightarrow> (memory_store, claim_lease option) store_call" where
  "memory_acquire_fenced_claim now ty rid owner secs st =
     (case validate_claim ty rid owner secs of
        Inl f \<Rightarrow> (Inl f, st)
      | Inr _ \<Rightarrow> (case claim_acquire_fenced (ty, rid) owner secs now (ms_claims st) of
          (None, cs) \<Rightarrow> (Inr None, st)
        | (Some g, cs) \<Rightarrow> (bindE (lease_post_init \<lparr>cl_claim_type = ty, cl_resource_id = rid, cl_owner_token = owner,
              cl_generation = g\<rparr>) (\<lambda>l. Inr (Some l)), st\<lparr>ms_claims := cs\<rparr>)))"

definition memory_renew_fenced_claim :: "rat \<Rightarrow> claim_lease \<Rightarrow> rat \<Rightarrow> (memory_store, bool) store_call" where
  "memory_renew_fenced_claim now lease secs st =
     (case validate_claim (cl_claim_type lease) (cl_resource_id lease) (cl_owner_token lease) secs of
        Inl f \<Rightarrow> (Inl f, st)
      | Inr _ \<Rightarrow> (case claim_renew lease secs now (ms_claims st) of (b, cs) \<Rightarrow> (Inr b, st\<lparr>ms_claims := cs\<rparr>)))"

definition memory_verify_fenced_claim :: "rat \<Rightarrow> claim_lease \<Rightarrow> memory_store \<Rightarrow> bool" where
  "memory_verify_fenced_claim now lease st = lease_current (ms_claims st) lease now"

definition memory_release_fenced_claim :: "claim_lease \<Rightarrow> (memory_store, unit) store_call" where
  "memory_release_fenced_claim lease st = (Inr (), st\<lparr>ms_claims := claim_release_fenced lease (ms_claims st)\<rparr>)"

section \<open>The JSONL store\<close>

text \<open>
  \<open>str.splitlines\<close>: the length of the line boundary at the head of a text, and the lines. Besides
  \<open>\n\<close> and \<open>\r\<close> Python breaks at VT, FF, FS, GS, RS, NEL (U+0085), LS (U+2028) and PS (U+2029).
\<close>

definition line_break :: "string \<Rightarrow> nat" where
  "line_break s =
     (if take 2 s = [CHR 0x0D, CHR 0x0A] then 2
      else if s \<noteq> [] \<and> hd s \<in> {CHR 0x0A, CHR 0x0D, CHR 0x0B, CHR 0x0C, CHR 0x1C, CHR 0x1D, CHR 0x1E} then 1
      else if take 2 s = [CHR 0xC2, CHR 0x85] then 2
      else if take 3 s = [CHR 0xE2, CHR 0x80, CHR 0xA8] \<or> take 3 s = [CHR 0xE2, CHR 0x80, CHR 0xA9] then 3
      else 0)"

fun first_line :: "string \<Rightarrow> string \<times> string option" where
  "first_line [] = ([], None)"
| "first_line (c # cs) =
     (if 0 < line_break (c # cs) then ([], Some (drop (line_break (c # cs)) (c # cs)))
      else case first_line cs of (l, r) \<Rightarrow> (c # l, r))"

lemma first_line_length: "first_line s = (l, Some r) \<Longrightarrow> length r < length s"
  by (induction s arbitrary: l) (auto split: if_splits prod.splits)

function py_splitlines :: "string \<Rightarrow> string list" where
  "py_splitlines s = (if s = [] then [] else
     (case first_line s of (l, None) \<Rightarrow> [l] | (l, Some r) \<Rightarrow> l # py_splitlines r))"
  by pat_completeness auto
termination by (relation "measure length") (auto dest: first_line_length[OF sym])

declare py_splitlines.simps [simp del]

text \<open>\<open>js_file = None\<close> while the file does not exist.\<close>

record jsonl_store =
  js_file :: "string option"
  js_next_sequence :: "int option"
  js_claims :: claims

definition load_line :: "host \<Rightarrow> string \<Rightarrow> operation_event list \<times> int
    \<Rightarrow> (store_fault, operation_event list \<times> int) result" where
  "load_line H line acc = (case acc of (events, previous) \<Rightarrow>
     if py_strip line = [] then Inr acc else
     (case json_loads H line of
        None \<Rightarrow> Inl (Raised SfJsonlLine)
      | Some raw \<Rightarrow> (case event_from_dict raw of
          Inl _ \<Rightarrow> Inl (Raised SfJsonlLine)
        | Inr e \<Rightarrow> if ev_sequence e \<le> previous then Inl (Raised SfJsonlSequence)
            else Inr (events @ [e], ev_sequence e))))"

definition load_sync :: "host \<Rightarrow> jsonl_store \<Rightarrow> (store_fault, operation_event list) result" where
  "load_sync H st = (case js_file st of
     None \<Rightarrow> Inr []
   | Some content \<Rightarrow> bindE (foldE (load_line H) (py_splitlines content) ([], -1)) (\<lambda>acc. Inr (fst acc)))"

definition encode_event :: "host \<Rightarrow> operation_event \<Rightarrow> string" where
  "encode_event H e = json_dumps H False (JObj (event_to_dict e))"

definition append_many_sync :: "host \<Rightarrow> operation_event list \<Rightarrow> jsonl_store \<Rightarrow> jsonl_store" where
  "append_many_sync H events st = st\<lparr>js_file := Some ((case js_file st of None \<Rightarrow> [] | Some t \<Rightarrow> t) @
     concat (map (\<lambda>e. encode_event H e @ [CHR 0x0A]) events))\<rparr>"

text \<open>The loop of an append: sequence numbers consumed before a failure stay consumed.\<close>

fun number_loop :: "(nat \<Rightarrow> int) \<Rightarrow> string \<Rightarrow> string \<Rightarrow> event_spec list \<Rightarrow> operation_event list \<Rightarrow> int
    \<Rightarrow> (store_fault, operation_event list) result \<times> int" where
  "number_loop clock sid op [] appended sq = (Inr appended, sq)"
| "number_loop clock sid op (spec # specs) appended sq =
     (case new_event sid op sq (clock (nat sq)) spec of
        Inl f \<Rightarrow> (Inl f, sq)
      | Inr e \<Rightarrow> number_loop clock sid op specs (appended @ [e]) (sq + 1))"

definition first_sequence :: "operation_event list \<Rightarrow> jsonl_store \<Rightarrow> int" where
  "first_sequence existing st = (case js_next_sequence st of
     Some n \<Rightarrow> n | None \<Rightarrow> if existing = [] then 0 else ev_sequence (last existing) + 1)"

definition jsonl_store_batch ::
  "host \<Rightarrow> (nat \<Rightarrow> int) \<Rightarrow> string \<Rightarrow> string \<Rightarrow> event_spec list \<Rightarrow> operation_event list \<Rightarrow> (jsonl_store, operation_event list) store_call" where
  "jsonl_store_batch H clock sid op specs existing st =
     (case number_loop clock sid op specs [] (first_sequence existing st) of
        (Inl f, n) \<Rightarrow> (Inl f, st\<lparr>js_next_sequence := Some n\<rparr>)
      | (Inr appended, n) \<Rightarrow> (Inr appended, append_many_sync H appended (st\<lparr>js_next_sequence := Some n\<rparr>)))"

definition jsonl_append_batch ::
  "host \<Rightarrow> (nat \<Rightarrow> int) \<Rightarrow> int \<Rightarrow> string \<Rightarrow> string \<Rightarrow> event_spec list \<Rightarrow> int option \<Rightarrow> int option
     \<Rightarrow> (jsonl_store, operation_event list) store_call" where
  "jsonl_append_batch H clock wall sid op specs expected deadline st =
     (case bindE (validate_batch specs) (\<lambda>_. bindE (load_sync H st) (\<lambda>existing.
           bindE (append_checks H wall existing sid op specs expected deadline) (\<lambda>_. Inr existing))) of
        Inl f \<Rightarrow> (Inl f, st)
      | Inr existing \<Rightarrow> jsonl_store_batch H clock sid op specs existing st)"

definition jsonl_append ::
  "host \<Rightarrow> (nat \<Rightarrow> int) \<Rightarrow> int \<Rightarrow> string \<Rightarrow> string \<Rightarrow> string \<Rightarrow> jdict option \<Rightarrow> (jsonl_store, operation_event) store_call" where
  "jsonl_append H clock wall ty sid op data st =
     (case jsonl_append_batch H clock wall sid op [(ty, case data of None \<Rightarrow> [] | Some d \<Rightarrow> d)] None None st of
        (Inl f, st') \<Rightarrow> (Inl f, st')
      | (Inr (e # _), st') \<Rightarrow> (Inr e, st')
      | (Inr [], st') \<Rightarrow> (Inl (Builtin IndexErr), st'))"

definition jsonl_append_batch_if_fenced_claim ::
  "host \<Rightarrow> (nat \<Rightarrow> int) \<Rightarrow> int \<Rightarrow> rat \<Rightarrow> string \<Rightarrow> string \<Rightarrow> event_spec list \<Rightarrow> claim_lease
     \<Rightarrow> rat \<Rightarrow> int option \<Rightarrow> int option \<Rightarrow> string option \<Rightarrow> (jsonl_store, operation_event list) store_call" where
  "jsonl_append_batch_if_fenced_claim H clock wall now sid op specs lease renew_seconds expected deadline expected_entity st =
     (case bindE (fenced_call_checks H specs lease renew_seconds sid op expected_entity) (\<lambda>_.
           bindE (guardE (lease_current (js_claims st) lease now) (Raised SfClaimLost)) (\<lambda>_.
           bindE (load_sync H st) (\<lambda>existing.
           bindE (append_checks H wall existing sid op specs expected deadline) (\<lambda>_. Inr existing)))) of
        Inl f \<Rightarrow> (Inl f, st)
      | Inr existing \<Rightarrow> (case jsonl_store_batch H clock sid op specs existing st of
          (Inl f, st') \<Rightarrow> (Inl f, st')
        | (Inr appended, st') \<Rightarrow> (Inr appended, st'\<lparr>js_claims := dset (js_claims st') (lease_key lease)
            (cl_owner_token lease, now + renew_seconds, cl_generation lease)\<rparr>)))"

definition jsonl_load :: "host \<Rightarrow> string option \<Rightarrow> string option \<Rightarrow> jsonl_store
    \<Rightarrow> (store_fault, operation_event list) result" where
  "jsonl_load H sid op st = bindE (load_sync H st) (\<lambda>events. Inr (load_filter sid op events))"

definition jsonl_try_acquire_claim :: "rat \<Rightarrow> string \<Rightarrow> string \<Rightarrow> string \<Rightarrow> rat \<Rightarrow> (jsonl_store, bool) store_call" where
  "jsonl_try_acquire_claim now ty rid owner secs st =
     (case validate_claim ty rid owner secs of
        Inl f \<Rightarrow> (Inl f, st)
      | Inr _ \<Rightarrow> (case claim_try_acquire (ty, rid) owner secs now (js_claims st) of
          (b, cs) \<Rightarrow> (Inr b, st\<lparr>js_claims := cs\<rparr>)))"

definition jsonl_release_claim :: "string \<Rightarrow> string \<Rightarrow> string \<Rightarrow> (jsonl_store, unit) store_call" where
  "jsonl_release_claim ty rid owner st = (Inr (), st\<lparr>js_claims := claim_release (ty, rid) owner (js_claims st)\<rparr>)"

definition jsonl_acquire_fenced_claim ::
  "rat \<Rightarrow> string \<Rightarrow> string \<Rightarrow> string \<Rightarrow> rat \<Rightarrow> (jsonl_store, claim_lease option) store_call" where
  "jsonl_acquire_fenced_claim now ty rid owner secs st =
     (case validate_claim ty rid owner secs of
        Inl f \<Rightarrow> (Inl f, st)
      | Inr _ \<Rightarrow> (case claim_acquire_fenced (ty, rid) owner secs now (js_claims st) of
          (None, cs) \<Rightarrow> (Inr None, st)
        | (Some g, cs) \<Rightarrow> (bindE (lease_post_init \<lparr>cl_claim_type = ty, cl_resource_id = rid, cl_owner_token = owner,
              cl_generation = g\<rparr>) (\<lambda>l. Inr (Some l)), st\<lparr>js_claims := cs\<rparr>)))"

definition jsonl_renew_fenced_claim :: "rat \<Rightarrow> claim_lease \<Rightarrow> rat \<Rightarrow> (jsonl_store, bool) store_call" where
  "jsonl_renew_fenced_claim now lease secs st =
     (case validate_claim (cl_claim_type lease) (cl_resource_id lease) (cl_owner_token lease) secs of
        Inl f \<Rightarrow> (Inl f, st)
      | Inr _ \<Rightarrow> (case claim_renew lease secs now (js_claims st) of (b, cs) \<Rightarrow> (Inr b, st\<lparr>js_claims := cs\<rparr>)))"

definition jsonl_verify_fenced_claim :: "rat \<Rightarrow> claim_lease \<Rightarrow> jsonl_store \<Rightarrow> bool" where
  "jsonl_verify_fenced_claim now lease st = lease_current (js_claims st) lease now"

definition jsonl_release_fenced_claim :: "claim_lease \<Rightarrow> (jsonl_store, unit) store_call" where
  "jsonl_release_fenced_claim lease st = (Inr (), st\<lparr>js_claims := claim_release_fenced lease (js_claims st)\<rparr>)"

end
