(* ===== verification/Store_Claims.thy ===== *)
theory Store_Claims
  imports Operation_Store
begin

text \<open>
  Fenced claims as an interface: a provider's steps may only raise the generation of a claim, or
  extend a claim that is still held. Once a lease has been superseded or has expired, it
  never becomes current again, whatever is done later; both stores provide this.
\<close>

section \<open>The life of a claim row\<close>

text \<open>A lease is lost at a time if its claim has moved on or has expired.\<close>

definition lease_lost :: "claims \<Rightarrow> claim_lease \<Rightarrow> rat \<Rightarrow> bool" where
  "lease_lost cs l now = (case map_of cs (lease_key l) of
     None \<Rightarrow> False
   | Some (owner, expires, generation) \<Rightarrow> cl_generation l < generation \<or>
       cl_generation l = generation \<and> (owner \<noteq> cl_owner_token l \<or> expires \<le> now))"

text \<open>How a claim row may change at a time.\<close>

definition row_step :: "rat \<Rightarrow> claim_row option \<Rightarrow> claim_row option \<Rightarrow> bool" where
  "row_step now old new = (case (old, new) of
     (None, _) \<Rightarrow> True
   | (Some _, None) \<Rightarrow> False
   | (Some (o1, x1, g1), Some (o2, x2, g2)) \<Rightarrow> g1 < g2 \<or> g1 = g2 \<and> o1 = o2 \<and> (x1 \<le> now \<longrightarrow> x2 = x1))"

definition claims_step :: "rat \<Rightarrow> claims \<Rightarrow> claims \<Rightarrow> bool" where
  "claims_step now cs cs' \<longleftrightarrow> (\<forall>k. row_step now (map_of cs k) (map_of cs' k))"

lemma row_step_refl [simp]: "row_step now r r"
  by (auto simp: row_step_def split: option.splits)

lemma claims_step_refl [simp]: "claims_step now cs cs"
  by (simp add: claims_step_def)

lemma claims_step_dset: "row_step now (map_of cs k) (Some r) \<Longrightarrow> claims_step now cs (dset cs k r)"
  by (simp add: claims_step_def)

lemma lost_step: "lease_lost cs l now \<Longrightarrow> claims_step now cs cs' \<Longrightarrow> lease_lost cs' l now"
proof -
  assume lost: "lease_lost cs l now" and step: "claims_step now cs cs'"
  from step have "row_step now (map_of cs (lease_key l)) (map_of cs' (lease_key l))" unfolding claims_step_def by blast
  with lost show ?thesis by (auto simp: lease_lost_def row_step_def split: option.splits)
qed

lemma lost_later: "lease_lost cs l now \<Longrightarrow> now \<le> later \<Longrightarrow> lease_lost cs l later"
  by (auto simp: lease_lost_def split: option.splits)

lemma lost_not_current: "lease_lost cs l now \<Longrightarrow> \<not> lease_current cs l now"
  by (auto simp: lease_lost_def lease_current_def split: option.splits)

section \<open>Every claim operation is such a step\<close>

lemma try_acquire_step: "claim_try_acquire k owner secs now cs = (b, cs') \<Longrightarrow> claims_step now cs cs'"
  by (auto simp: claim_try_acquire_def claims_step_dset row_step_def split: option.splits if_splits)

lemma release_step: "claims_step now cs (claim_release k owner cs)"
  by (auto simp: claim_release_def claims_step_dset row_step_def split: option.splits)

lemma acquire_fenced_step: "claim_acquire_fenced k owner secs now cs = (g, cs') \<Longrightarrow> claims_step now cs cs'"
  by (auto simp: claim_acquire_fenced_def claims_step_dset row_step_def split: option.splits if_splits)

lemma hold_step:
  "lease_current cs l now \<Longrightarrow> claims_step now cs (dset cs (lease_key l) (cl_owner_token l, x, cl_generation l))"
  by (auto simp: lease_current_def claims_step_dset row_step_def split: option.splits)

lemma renew_step: "claim_renew l secs now cs = (b, cs') \<Longrightarrow> claims_step now cs cs'"
  by (auto simp: claim_renew_def hold_step split: if_splits)

lemma release_fenced_step: "claims_step now cs (claim_release_fenced l cs)"
  by (auto simp: claim_release_fenced_def claims_step_dset row_step_def split: option.splits)

section \<open>The interface of a fenced store\<close>

text \<open>An execution: steps at times that do not decrease.\<close>

inductive timed_run :: "(rat \<Rightarrow> 's \<Rightarrow> 's \<Rightarrow> bool) \<Rightarrow> rat \<Rightarrow> 's \<Rightarrow> rat \<Rightarrow> 's \<Rightarrow> bool" for step t s where
  stay: "timed_run step t s t s"
| go: "timed_run step t s t1 s1 \<Longrightarrow> t1 \<le> t2 \<Longrightarrow> step t2 s1 s2 \<Longrightarrow> timed_run step t s t2 s2"

locale fenced_store =
  fixes claims_of :: "'s \<Rightarrow> claims" and step :: "rat \<Rightarrow> 's \<Rightarrow> 's \<Rightarrow> bool"
  assumes step_claims: "step now s s' \<Longrightarrow> claims_step now (claims_of s) (claims_of s')"
begin

lemma lost_forever:
  assumes "timed_run step t s t' s'" "lease_lost (claims_of s) l t"
  shows "lease_lost (claims_of s') l t' \<and> t \<le> t'"
  using assms
proof (induction rule: timed_run.induct)
  case (go t1 s1 t2 s2)
  then have "lease_lost (claims_of s1) l t2" "t \<le> t1" by (auto intro: lost_later)
  with go show ?case by (auto intro: lost_step step_claims)
qed simp

lemma never_current_again:
  "timed_run step t s t' s' \<Longrightarrow> lease_lost (claims_of s) l t \<Longrightarrow> \<not> lease_current (claims_of s') l t'"
  using lost_forever lost_not_current by blast

lemma generation_monotone:
  assumes "timed_run step t s t' s'" "map_of (claims_of s) k = Some (own, x, g)"
  shows "\<exists>own' x' g'. map_of (claims_of s') k = Some (own', x', g') \<and> (g < g' \<or> g = g' \<and> own = own')"
  using assms
proof (induction rule: timed_run.induct)
  case (go t1 s1 t2 s2)
  then obtain own1 x1 g1 where r1: "map_of (claims_of s1) k = Some (own1, x1, g1)" "g < g1 \<or> g = g1 \<and> own = own1" by blast
  have "row_step t2 (map_of (claims_of s1) k) (map_of (claims_of s2) k)"
    using step_claims[OF go.hyps(3)] unfolding claims_step_def by blast
  with r1 show ?case by (cases "map_of (claims_of s2) k") (auto simp: row_step_def)
qed simp

end

section \<open>The in-memory store\<close>

inductive memory_step :: "host \<Rightarrow> rat \<Rightarrow> memory_store \<Rightarrow> memory_store \<Rightarrow> bool" for H now st where
  append_batch: "memory_append_batch H clock wall sid op specs expected deadline st = (r, st') \<Longrightarrow> memory_step H now st st'"
| append_fenced: "memory_append_batch_if_fenced_claim H clock wall now sid op specs lease secs expected deadline entity st = (r, st')
    \<Longrightarrow> memory_step H now st st'"
| try_acquire: "memory_try_acquire_claim now ty rid owner secs st = (b, st') \<Longrightarrow> memory_step H now st st'"
| release: "memory_release_claim ty rid owner st = (u, st') \<Longrightarrow> memory_step H now st st'"
| acquire_fenced: "memory_acquire_fenced_claim now ty rid owner secs st = (l, st') \<Longrightarrow> memory_step H now st st'"
| renew: "memory_renew_fenced_claim now lease secs st = (b, st') \<Longrightarrow> memory_step H now st st'"
| release_fenced: "memory_release_fenced_claim lease st = (u, st') \<Longrightarrow> memory_step H now st st'"

lemma memory_append_batch_claims:
  "memory_append_batch H clock wall sid op specs expected deadline st = (r, st') \<Longrightarrow> ms_claims st' = ms_claims st"
  by (auto simp: memory_append_batch_def split: sum.splits prod.splits)

lemma memory_append_fenced_claims:
  assumes "memory_append_batch_if_fenced_claim H clock wall now sid op specs lease secs expected deadline entity st = (r, st')"
  shows "claims_step now (ms_claims st) (ms_claims st')"
  using assms
  by (auto simp: memory_append_batch_if_fenced_claim_def exc_simps intro: hold_step split: sum.splits prod.splits)

lemma memory_step_claims: "memory_step H now st st' \<Longrightarrow> claims_step now (ms_claims st) (ms_claims st')"
proof (induction rule: memory_step.induct)
  case (append_batch clock wall sid op specs expected deadline r st')
  then show ?case by (simp add: memory_append_batch_claims)
next
  case (append_fenced clock wall sid op specs lease secs expected deadline entity r st')
  then show ?case by (rule memory_append_fenced_claims)
next
  case (acquire_fenced ty rid owner secs l st')
  then show ?case
    by (auto simp: memory_acquire_fenced_claim_def intro: acquire_fenced_step split: sum.splits prod.splits option.splits)
qed (auto simp: memory_try_acquire_claim_def memory_release_claim_def memory_renew_fenced_claim_def
    memory_release_fenced_claim_def intro: try_acquire_step release_step renew_step release_fenced_step
    split: sum.splits prod.splits)

interpretation memory: fenced_store ms_claims "memory_step H" for H
  by unfold_locales (rule memory_step_claims)

section \<open>The JSONL store\<close>

inductive jsonl_step :: "host \<Rightarrow> rat \<Rightarrow> jsonl_store \<Rightarrow> jsonl_store \<Rightarrow> bool" for H now st where
  append_batch: "jsonl_append_batch H clock wall sid op specs expected deadline st = (r, st') \<Longrightarrow> jsonl_step H now st st'"
| append_fenced: "jsonl_append_batch_if_fenced_claim H clock wall now sid op specs lease secs expected deadline entity st = (r, st')
    \<Longrightarrow> jsonl_step H now st st'"
| try_acquire: "jsonl_try_acquire_claim now ty rid owner secs st = (b, st') \<Longrightarrow> jsonl_step H now st st'"
| release: "jsonl_release_claim ty rid owner st = (u, st') \<Longrightarrow> jsonl_step H now st st'"
| acquire_fenced: "jsonl_acquire_fenced_claim now ty rid owner secs st = (l, st') \<Longrightarrow> jsonl_step H now st st'"
| renew: "jsonl_renew_fenced_claim now lease secs st = (b, st') \<Longrightarrow> jsonl_step H now st st'"
| release_fenced: "jsonl_release_fenced_claim lease st = (u, st') \<Longrightarrow> jsonl_step H now st st'"

lemma jsonl_store_batch_claims: "jsonl_store_batch H clock sid op specs existing st = (r, st') \<Longrightarrow> js_claims st' = js_claims st"
  by (auto simp: jsonl_store_batch_def append_many_sync_def split: sum.splits prod.splits)

lemma jsonl_append_fenced_claims:
  assumes "jsonl_append_batch_if_fenced_claim H clock wall now sid op specs lease secs expected deadline entity st = (r, st')"
  shows "claims_step now (js_claims st) (js_claims st')"
  using assms
  by (auto simp: jsonl_append_batch_if_fenced_claim_def exc_simps jsonl_store_batch_claims intro: hold_step
      split: sum.splits prod.splits)

lemma jsonl_step_claims: "jsonl_step H now st st' \<Longrightarrow> claims_step now (js_claims st) (js_claims st')"
proof (induction rule: jsonl_step.induct)
  case (append_batch clock wall sid op specs expected deadline r st')
  then show ?case by (auto simp: jsonl_append_batch_def jsonl_store_batch_claims split: sum.splits)
next
  case (append_fenced clock wall sid op specs lease secs expected deadline entity r st')
  then show ?case by (rule jsonl_append_fenced_claims)
next
  case (acquire_fenced ty rid owner secs l st')
  then show ?case
    by (auto simp: jsonl_acquire_fenced_claim_def intro: acquire_fenced_step split: sum.splits prod.splits option.splits)
qed (auto simp: jsonl_try_acquire_claim_def jsonl_release_claim_def jsonl_renew_fenced_claim_def
    jsonl_release_fenced_claim_def intro: try_acquire_step release_step renew_step release_fenced_step
    split: sum.splits prod.splits)

interpretation jsonl: fenced_store js_claims "jsonl_step H" for H
  by unfold_locales (rule jsonl_step_claims)

section \<open>Stale leases\<close>

text \<open>
  Once a lease is lost (a later generation exists, another owner holds it, or it has expired), then
  after any sequence of calls on the in-memory store at later times it neither verifies nor renews,
  and an append fenced by it is refused and stores nothing.
\<close>

theorem stale_lease_never_current:
  assumes "timed_run (memory_step H) t st t' st'" and "lease_lost (ms_claims st) l t"
  shows "\<not> memory_verify_fenced_claim t' l st' \<and>
    (\<forall>secs b st2. memory_renew_fenced_claim t' l secs st' = (b, st2) \<longrightarrow> b \<noteq> Inr True \<and> st2 = st') \<and>
    (\<forall>clock wall sid op specs secs expected deadline entity r st2.
       memory_append_batch_if_fenced_claim H clock wall t' sid op specs l secs expected deadline entity st' = (r, st2) \<longrightarrow>
       \<not> isOk r \<and> st2 = st')"
proof -
  from memory.never_current_again[OF assms] have no: "\<not> lease_current (ms_claims st') l t'" .
  have "\<not> isOk r \<and> st2 = st'"
    if "memory_append_batch_if_fenced_claim H clock wall t' sid op specs l secs expected deadline entity st' = (r, st2)"
    for clock wall sid op specs secs expected deadline entity r st2
    using that no by (auto simp: memory_append_batch_if_fenced_claim_def exc_simps split: sum.splits)
  with no show ?thesis
    by (auto simp: memory_verify_fenced_claim_def memory_renew_fenced_claim_def claim_renew_def split: sum.splits)
qed

text \<open>Worker A holds the claim for ten seconds; at twenty seconds worker B takes it over.\<close>

definition claim_sample :: "string \<Rightarrow> rat \<Rightarrow> memory_store \<Rightarrow> memory_store" where
  "claim_sample owner now st = snd (memory_acquire_fenced_claim now ''conversation_session_writer'' ''s'' owner 10 st)"

definition lease_a :: claim_lease where
  "lease_a = \<lparr>cl_claim_type = ''conversation_session_writer'', cl_resource_id = ''s'', cl_owner_token = ''A'', cl_generation = 1\<rparr>"

theorem stale_lease_never_current_witness:
  "memory_verify_fenced_claim 5 lease_a (claim_sample ''A'' 0 empty_memory_store) \<and>
   \<not> memory_verify_fenced_claim 20 lease_a (claim_sample ''B'' 20 (claim_sample ''A'' 0 empty_memory_store))"
proof -
  let ?st = "claim_sample ''A'' 0 empty_memory_store"
  have "memory_step H 20 ?st (claim_sample ''B'' 20 ?st)" for H
    by (rule memory_step.acquire_fenced[where l = "fst (memory_acquire_fenced_claim 20 ''conversation_session_writer'' ''s'' ''B'' 10 ?st)"])
      (simp add: claim_sample_def)
  then have run: "timed_run (memory_step H) 20 ?st 20 (claim_sample ''B'' 20 ?st)" for H
    by (blast intro: timed_run.intros)
  have "lease_lost (ms_claims ?st) lease_a 20" by code_simp
  from stale_lease_never_current[OF run this] have "\<not> memory_verify_fenced_claim 20 lease_a (claim_sample ''B'' 20 ?st)" by blast
  moreover have "memory_verify_fenced_claim 5 lease_a ?st" by code_simp
  ultimately show ?thesis by simp
qed

lemma memory_acquire_ok:
  assumes "memory_acquire_fenced_claim now ty rid owner secs st = (Inr (Some l), st')"
  shows "l = \<lparr>cl_claim_type = ty, cl_resource_id = rid, cl_owner_token = owner, cl_generation = cl_generation l\<rparr> \<and>
    map_of (ms_claims st') (ty, rid) = Some (owner, now + secs, cl_generation l) \<and>
    (case map_of (ms_claims st) (ty, rid) of None \<Rightarrow> True
     | Some (own, x, g) \<Rightarrow> g < cl_generation l \<or> g = cl_generation l \<and> own = owner)"
  using assms
  by (auto simp: memory_acquire_fenced_claim_def claim_acquire_fenced_def lease_post_init_def exc_simps
      split: sum.splits option.splits if_splits)

text \<open>
  Fencing tokens order the owners of a claim: if one worker is granted a lease and
  later, after any calls in between, another worker is granted a lease on the same resource, the later
  token is strictly larger.
\<close>

theorem fencing_tokens_increase:
  assumes "memory_acquire_fenced_claim t ty rid owner secs st = (Inr (Some l), st1)"
    and "timed_run (memory_step H) t st1 t' st2"
    and "memory_acquire_fenced_claim t'' ty rid owner' secs' st2 = (Inr (Some l'), st3)" and "owner \<noteq> owner'"
  shows "fencing_token l < fencing_token l'"
proof -
  from memory_acquire_ok[OF assms(1)] have "map_of (ms_claims st1) (ty, rid) = Some (owner, t + secs, cl_generation l)" by blast
  from memory.generation_monotone[OF assms(2) this] obtain own x g where
    "map_of (ms_claims st2) (ty, rid) = Some (own, x, g)" "cl_generation l < g \<or> cl_generation l = g \<and> owner = own" by blast
  with memory_acquire_ok[OF assms(3)] assms(4) show ?thesis by (auto simp: fencing_token_def)
qed

theorem fencing_tokens_increase_witness:
  "\<exists>l st2. memory_acquire_fenced_claim 20 ''conversation_session_writer'' ''s'' ''B'' 10
       (claim_sample ''A'' 0 empty_memory_store) = (Inr (Some l), st2) \<and> fencing_token lease_a < fencing_token l"
proof -
  let ?st = "claim_sample ''A'' 0 empty_memory_store"
  let ?b = "lease_a\<lparr>cl_owner_token := ''B'', cl_generation := 2\<rparr>"
  have a: "memory_acquire_fenced_claim 0 ''conversation_session_writer'' ''s'' ''A'' 10 empty_memory_store = (Inr (Some lease_a), ?st)"
    unfolding claim_sample_def by code_simp
  have b: "fst (memory_acquire_fenced_claim 20 ''conversation_session_writer'' ''s'' ''B'' 10 ?st) = Inr (Some ?b)" by code_simp
  then obtain st2 where b': "memory_acquire_fenced_claim 20 ''conversation_session_writer'' ''s'' ''B'' 10 ?st = (Inr (Some ?b), st2)"
    by (metis prod.collapse)
  have "fencing_token lease_a < fencing_token ?b"
    by (rule fencing_tokens_increase[OF a timed_run.stay b']) simp
  with b' show ?thesis by blast
qed

end
