(* ===== verification/Operation_Resequence.thy ===== *)
theory Operation_Resequence
  imports Operation_Theorems
begin

text \<open>
  The reducer reads the sequence number of the state only to compare it with that of the event, and writes it
  only to remember it. So a batch that was validated with one numbering is accepted with any
  increasing numbering after the log, with the same state apart from the last sequence number.
\<close>

definition seqE :: "int \<Rightarrow> log_step \<Rightarrow> log_step" where
  "seqE n m = (case m of Inl f \<Rightarrow> Inl f | Inr s \<Rightarrow> Inr (s\<lparr>os_last_sequence := n\<rparr>))"

named_theorems reseq \<open>moving a new sequence number out of a handler\<close>

lemma seqE_simps [reseq]:
  "seqE n (Inr s) = Inr (s\<lparr>os_last_sequence := n\<rparr>)"
  "seqE n (Inl f) = Inl f"
  "seqE n (bindE m g) = bindE m (\<lambda>x. seqE n (g x))"
  "seqE n (if c then a else b) = (if c then seqE n a else seqE n b)"
  "seqE n (case o1 of None \<Rightarrow> a | Some x \<Rightarrow> k x) = (case o1 of None \<Rightarrow> seqE n a | Some x \<Rightarrow> seqE n (k x))"
  by (simp_all add: seqE_def bindE_def split: sum.splits option.splits)

lemma fields_ignore_sequence [reseq]:
  "os_tools (s\<lparr>os_last_sequence := n\<rparr>) = os_tools s" "os_writes (s\<lparr>os_last_sequence := n\<rparr>) = os_writes s"
  "os_approvals (s\<lparr>os_last_sequence := n\<rparr>) = os_approvals s" "os_messages (s\<lparr>os_last_sequence := n\<rparr>) = os_messages s"
  "os_model_requests (s\<lparr>os_last_sequence := n\<rparr>) = os_model_requests s" "os_phase (s\<lparr>os_last_sequence := n\<rparr>) = os_phase s"
  "os_operation_id (s\<lparr>os_last_sequence := n\<rparr>) = os_operation_id s" "os_configuration (s\<lparr>os_last_sequence := n\<rparr>) = os_configuration s"
  by simp_all

lemma commute_updates [reseq]:
  "s\<lparr>os_last_sequence := n, os_tools := t\<rparr> = s\<lparr>os_tools := t, os_last_sequence := n\<rparr>"
  "s\<lparr>os_last_sequence := n, os_messages := m\<rparr> = s\<lparr>os_messages := m, os_last_sequence := n\<rparr>"
  "s\<lparr>os_last_sequence := n, os_model_requests := r\<rparr> = s\<lparr>os_model_requests := r, os_last_sequence := n\<rparr>"
  "s\<lparr>os_last_sequence := n, os_writes := ws\<rparr> = s\<lparr>os_writes := ws, os_last_sequence := n\<rparr>"
  "s\<lparr>os_last_sequence := n, os_phase := p\<rparr> = s\<lparr>os_phase := p, os_last_sequence := n\<rparr>"
  "s\<lparr>os_last_sequence := n, os_outcome := out\<rparr> = s\<lparr>os_outcome := out, os_last_sequence := n\<rparr>"
  "s\<lparr>os_last_sequence := n, os_active_model_policy := pol\<rparr> = s\<lparr>os_active_model_policy := pol, os_last_sequence := n\<rparr>"
  "set_approval (s\<lparr>os_last_sequence := n\<rparr>) aid a p = (set_approval s aid a p)\<lparr>os_last_sequence := n\<rparr>"
  "set_write (s\<lparr>os_last_sequence := n\<rparr>) wid w p = (set_write s wid w p)\<lparr>os_last_sequence := n\<rparr>"
  by (cases s; simp add: set_approval_def set_write_def)+

lemma readers_ignore_sequence [reseq]:
  "get_tool (s\<lparr>os_last_sequence := n\<rparr>) tc = get_tool s tc"
  "write_binding (s\<lparr>os_last_sequence := n\<rparr>) w = write_binding s w"
  "tool_binding (s\<lparr>os_last_sequence := n\<rparr>) tc t wid = tool_binding s tc t wid"
  "validate_configured_tool (s\<lparr>os_last_sequence := n\<rparr>) t = validate_configured_tool s t"
  "resume_envelope H (s\<lparr>os_last_sequence := n\<rparr>) a d = resume_envelope H s a d"
  "validate_planned_call (s\<lparr>os_last_sequence := n\<rparr>) env w = validate_planned_call s env w"
  "validate_tool_write_result_consistency (s\<lparr>os_last_sequence := n\<rparr>) t ty r = validate_tool_write_result_consistency s t ty r"
  "validate_write_against_finished_tool (s\<lparr>os_last_sequence := n\<rparr>) w x = validate_write_against_finished_tool s w x"
  "validate_operation_terminal_facts (s\<lparr>os_last_sequence := n\<rparr>) = validate_operation_terminal_facts s"
  "validate_completed_outcome (s\<lparr>os_last_sequence := n\<rparr>) = validate_completed_outcome s"
  unfolding get_tool_def write_binding_def tool_binding_def validate_configured_tool_def resume_envelope_def
    validate_planned_call_def validate_tool_write_result_consistency_def validate_write_against_finished_tool_def
    validate_operation_terminal_facts_def validate_completed_outcome_def reseq by (rule refl)+

lemma bound_readers_ignore_sequence [reseq]:
  "validate_bound_tool H (s\<lparr>os_last_sequence := n\<rparr>) a tc t = validate_bound_tool H s a tc t"
  "validate_registered_approval_dependencies H (s\<lparr>os_last_sequence := n\<rparr>) ap b = validate_registered_approval_dependencies H s ap b"
  unfolding validate_bound_tool_def validate_registered_approval_dependencies_def reseq by (rule refl)+

lemma exchange_reseq [reseq]:
  "on_message_appended (s\<lparr>os_last_sequence := n\<rparr>) d = seqE n (on_message_appended s d)"
  "on_model_policy_selected H (s\<lparr>os_last_sequence := n\<rparr>) d = seqE n (on_model_policy_selected H s d)"
  "on_model_request_started H (s\<lparr>os_last_sequence := n\<rparr>) d = seqE n (on_model_request_started H s d)"
  "on_model_request_finished H (s\<lparr>os_last_sequence := n\<rparr>) ty d = seqE n (on_model_request_finished H s ty d)"
  unfolding on_message_appended_def on_model_policy_selected_def on_model_request_started_def on_model_request_finished_def reseq
  by (rule refl)+

lemma tool_reseq [reseq]:
  "on_tool_intent_recorded H (s\<lparr>os_last_sequence := n\<rparr>) d = seqE n (on_tool_intent_recorded H s d)"
  "on_tool_dispatch_started H (s\<lparr>os_last_sequence := n\<rparr>) d = seqE n (on_tool_dispatch_started H s d)"
  "on_tool_reconcile_started (s\<lparr>os_last_sequence := n\<rparr>) d = seqE n (on_tool_reconcile_started s d)"
  "on_tool_result (s\<lparr>os_last_sequence := n\<rparr>) ty d = seqE n (on_tool_result s ty d)"
  "on_operation_finished H (s\<lparr>os_last_sequence := n\<rparr>) d = seqE n (on_operation_finished H s d)"
  unfolding on_tool_intent_recorded_def on_tool_dispatch_started_def on_tool_reconcile_started_def on_tool_result_def
    on_operation_finished_def Let_def approval_for_tool_call_sequence reseq
  by (rule refl)+

lemma approval_reseq [reseq]:
  "on_approval_requested (s\<lparr>os_last_sequence := n\<rparr>) aid d = seqE n (on_approval_requested s aid d)"
  "on_approval_resume_registered H (s\<lparr>os_last_sequence := n\<rparr>) aid a d = seqE n (on_approval_resume_registered H s aid a d)"
  "on_approval_granted (s\<lparr>os_last_sequence := n\<rparr>) aid a = seqE n (on_approval_granted s aid a)"
  "on_approval_consumed H (s\<lparr>os_last_sequence := n\<rparr>) aid a d = seqE n (on_approval_consumed H s aid a d)"
  "on_approval_rejected (s\<lparr>os_last_sequence := n\<rparr>) aid a = seqE n (on_approval_rejected s aid a)"
  "on_approval_expired (s\<lparr>os_last_sequence := n\<rparr>) aid a = seqE n (on_approval_expired s aid a)"
  "on_approval_resume_started H (s\<lparr>os_last_sequence := n\<rparr>) aid a d = seqE n (on_approval_resume_started H s aid a d)"
  "on_approval_resume_reentered (s\<lparr>os_last_sequence := n\<rparr>) aid a d = seqE n (on_approval_resume_reentered s aid a d)"
  "on_approval_resume_completed H (s\<lparr>os_last_sequence := n\<rparr>) aid a d = seqE n (on_approval_resume_completed H s aid a d)"
  "on_approval_resume_failed (s\<lparr>os_last_sequence := n\<rparr>) aid a d = seqE n (on_approval_resume_failed s aid a d)"
  "on_approval_resume_cancelled (s\<lparr>os_last_sequence := n\<rparr>) aid a = seqE n (on_approval_resume_cancelled s aid a)"
  unfolding on_approval_requested_def on_approval_resume_registered_def approval_handlers reseq by (rule refl)+

lemma write_reseq [reseq]:
  "on_write_prepared H (s\<lparr>os_last_sequence := n\<rparr>) wid d = seqE n (on_write_prepared H s wid d)"
  "on_write_waiting_approval H (s\<lparr>os_last_sequence := n\<rparr>) wid w d = seqE n (on_write_waiting_approval H s wid w d)"
  "on_write_approved H (s\<lparr>os_last_sequence := n\<rparr>) wid w d = seqE n (on_write_approved H s wid w d)"
  "on_write_submitting (s\<lparr>os_last_sequence := n\<rparr>) wid w = seqE n (on_write_submitting s wid w)"
  "on_write_succeeded (s\<lparr>os_last_sequence := n\<rparr>) wid w d = seqE n (on_write_succeeded s wid w d)"
  "on_write_failed (s\<lparr>os_last_sequence := n\<rparr>) wid w d = seqE n (on_write_failed s wid w d)"
  "on_write_outcome_unknown (s\<lparr>os_last_sequence := n\<rparr>) wid w = seqE n (on_write_outcome_unknown s wid w)"
  "on_write_reconciling (s\<lparr>os_last_sequence := n\<rparr>) wid w d = seqE n (on_write_reconciling s wid w d)"
  "on_write_reconcile_reentered (s\<lparr>os_last_sequence := n\<rparr>) wid w d = seqE n (on_write_reconcile_reentered s wid w d)"
  "on_write_reconcile_failed (s\<lparr>os_last_sequence := n\<rparr>) wid w d = seqE n (on_write_reconcile_failed s wid w d)"
  "on_write_reconcile_deferred (s\<lparr>os_last_sequence := n\<rparr>) wid w d = seqE n (on_write_reconcile_deferred s wid w d)"
  unfolding on_write_prepared_def write_handlers on_write_approved_def on_write_submitting_def on_write_outcome_unknown_def
    on_write_reconcile_failed_def Let_def reseq by (rule refl)+

lemma group_reseq [reseq]:
  "reduce_approval_event H (s\<lparr>os_last_sequence := n\<rparr>) e = seqE n (reduce_approval_event H s e)"
  "reduce_write_event H (s\<lparr>os_last_sequence := n\<rparr>) e = seqE n (reduce_write_event H s e)"
  unfolding reduce_approval_event_def reduce_write_event_def Let_def reseq by (rule refl)+

lemma dispatch_reseq: "dispatch_event H (s\<lparr>os_last_sequence := n\<rparr>) e = seqE n (dispatch_event H s e)"
  unfolding dispatch_event_def Let_def reseq by (rule refl)

lemma dispatch_renumber [simp]: "dispatch_event H s (e\<lparr>ev_sequence := n\<rparr>) = dispatch_event H s e"
proof -
  have "reduce_approval_event H s (e\<lparr>ev_sequence := n\<rparr>) = reduce_approval_event H s e"
    "reduce_write_event H s (e\<lparr>ev_sequence := n\<rparr>) = reduce_write_event H s e"
    by (simp_all add: reduce_approval_event_def reduce_write_event_def)
  then show ?thesis unfolding dispatch_event_def Let_def by simp
qed

text \<open>One event, renumbered, on the renumbered state.\<close>

lemma reduce_renumber:
  assumes "reduce_operation_event H (Some s) e = Inr s'" and "k < n"
  shows "reduce_operation_event H (Some (s\<lparr>os_last_sequence := k\<rparr>)) (e\<lparr>ev_sequence := n, ev_timestamp := ts\<rparr>) =
    Inr (s'\<lparr>os_last_sequence := n\<rparr>)"
proof -
  from assms(1) have d: "dispatch_event H (s\<lparr>os_last_sequence := ev_sequence e\<rparr>) e = Inr s'"
    and ids: "ev_session_id e = os_session_id s" "ev_operation_id e = os_operation_id s" "\<not> terminal_phase (os_phase s)"
    by (simp_all add: reduce_some_ok)
  have "dispatch_event H (s\<lparr>os_last_sequence := n\<rparr>) (e\<lparr>ev_sequence := n, ev_timestamp := ts\<rparr>) = seqE n (dispatch_event H s e)"
    by (simp add: dispatch_reseq)
  also have "\<dots> = seqE n (dispatch_event H (s\<lparr>os_last_sequence := ev_sequence e\<rparr>) e)"
    by (simp add: dispatch_reseq seqE_def split: sum.splits)
  finally show ?thesis using d ids assms(2) by (simp add: reduce_some_ok seqE_def)
qed

end
