(* ===== verification/Store_Theorems.thy ===== *)
theory Store_Theorems
  imports Store_Claims Operation_Resequence
begin

text \<open>
  The event side of the stores: appends are atomic and numbered by position, the global facts
  stay unique, a compare-and-set append excludes a second one for the same version, a batch that was
  validated against the loaded log keeps that log replayable, claim scopes are unambiguous,
  and what the JSONL file gives back.
\<close>

section \<open>The append loop\<close>

definition batch_events :: "(nat \<Rightarrow> int) \<Rightarrow> string \<Rightarrow> string \<Rightarrow> nat \<Rightarrow> event_spec list \<Rightarrow> operation_event list" where
  "batch_events clock sid op n specs = map (\<lambda>(i, spec). \<lparr>ev_type = fst spec, ev_session_id = sid, ev_operation_id = op,
     ev_sequence = int i, ev_timestamp = clock i, ev_data = snd spec\<rparr>) (List.enumerate n specs)"

lemma batch_events_simps [simp]:
  "batch_events clock sid op n [] = []"
  "batch_events clock sid op n (spec # specs) = \<lparr>ev_type = fst spec, ev_session_id = sid, ev_operation_id = op,
     ev_sequence = int n, ev_timestamp = clock n, ev_data = snd spec\<rparr> # batch_events clock sid op (Suc n) specs"
  by (simp_all add: batch_events_def)

lemma batch_events_length [simp]: "length (batch_events clock sid op n specs) = length specs"
  by (simp add: batch_events_def)

lemma batch_events_nth:
  "i < length specs \<Longrightarrow> batch_events clock sid op n specs ! i = \<lparr>ev_type = fst (specs ! i), ev_session_id = sid,
     ev_operation_id = op, ev_sequence = int (n + i), ev_timestamp = clock (n + i), ev_data = snd (specs ! i)\<rparr>"
  by (simp add: batch_events_def nth_enumerate_eq)

lemma append_loop_ok:
  assumes "sid \<noteq> []" "op \<noteq> []" "list_all (\<lambda>p. fst p \<noteq> []) specs"
  shows "append_loop clock sid op specs app events =
    (Inr (app @ batch_events clock sid op (length events) specs), events @ batch_events clock sid op (length events) specs)"
  using assms(3)
  by (induction specs arbitrary: app events) (simp_all add: new_event_def event_post_init_def assms(1,2))

lemma append_loop_refused:
  assumes "sid = [] \<or> op = []" "specs \<noteq> []"
  shows "\<exists>f. append_loop clock sid op specs app events = (Inl f, events)"
  using assms by (cases specs) (auto simp: new_event_def event_post_init_def catchE_def guardE_def bindE_def)

lemma append_loop_cases:
  assumes "append_loop clock sid op specs [] events = (r, events')" "validate_batch specs = Inr ()"
  obtains (refused) f where "r = Inl f" "events' = events"
  | (stored) "sid \<noteq> []" "op \<noteq> []" "r = Inr (batch_events clock sid op (length events) specs)"
      "events' = events @ batch_events clock sid op (length events) specs"
proof (cases "sid = [] \<or> op = []")
  case True
  with append_loop_refused[OF this, of specs clock "[]" events] assms refused show thesis by (auto simp: validate_batch_def exc_simps)
next
  case False
  with append_loop_ok[of sid op specs clock "[]" events] assms stored show thesis
    by (auto simp: validate_batch_def exc_simps)
qed

lemma memory_append_batch_cases:
  assumes "memory_append_batch H clock wall sid op specs expected deadline st = (r, st')"
  obtains (refused) f where "r = Inl f" "st' = st"
  | (stored) "sid \<noteq> []" "op \<noteq> []" "validate_batch specs = Inr ()"
      "append_checks H wall (ms_events st) sid op specs expected deadline = Inr ()"
      "r = Inr (batch_events clock sid op (length (ms_events st)) specs)"
      "st' = st\<lparr>ms_events := ms_events st @ batch_events clock sid op (length (ms_events st)) specs\<rparr>"
proof (cases "bindE (validate_batch specs) (\<lambda>_. append_checks H wall (ms_events st) sid op specs expected deadline)")
  case (Inl f)
  with assms refused show thesis by (auto simp: memory_append_batch_def)
next
  case (Inr u)
  then have ok: "validate_batch specs = Inr ()" "append_checks H wall (ms_events st) sid op specs expected deadline = Inr ()"
    by (auto simp: exc_simps)
  obtain r' ev where l: "append_loop clock sid op specs [] (ms_events st) = (r', ev)" by fastforce
  with assms Inr have e: "r = r'" "st' = st\<lparr>ms_events := ev\<rparr>" by (auto simp: memory_append_batch_def)
  from l ok(1) show thesis
    by (cases rule: append_loop_cases) (use e ok refused stored in auto)
qed

lemma memory_append_fenced_cases:
  assumes "memory_append_batch_if_fenced_claim H clock wall now sid op specs lease secs expected deadline entity st = (r, st')"
  obtains (refused) f where "r = Inl f" "st' = st"
  | (stored) "sid \<noteq> []" "op \<noteq> []" "validate_batch specs = Inr ()"
      "append_checks H wall (ms_events st) sid op specs expected deadline = Inr ()"
      "lease_current (ms_claims st) lease now" "validate_fenced_claim_scope H lease sid op entity = Inr ()"
      "r = Inr (batch_events clock sid op (length (ms_events st)) specs)"
      "ms_events st' = ms_events st @ batch_events clock sid op (length (ms_events st)) specs"
proof (cases "bindE (fenced_call_checks H specs lease secs sid op entity) (\<lambda>_.
           bindE (guardE (lease_current (ms_claims st) lease now) (Raised SfClaimLost)) (\<lambda>_.
           append_checks H wall (ms_events st) sid op specs expected deadline))")
  case (Inl f)
  with assms refused show thesis by (auto simp: memory_append_batch_if_fenced_claim_def)
next
  case (Inr u)
  then have ok: "validate_batch specs = Inr ()" "append_checks H wall (ms_events st) sid op specs expected deadline = Inr ()"
    "lease_current (ms_claims st) lease now" "validate_fenced_claim_scope H lease sid op entity = Inr ()"
    by (auto simp: fenced_call_checks_def exc_simps)
  obtain r' ev where l: "append_loop clock sid op specs [] (ms_events st) = (r', ev)" by fastforce
  from l ok(1) show thesis
  proof (cases rule: append_loop_cases)
    case (refused f)
    with assms Inr l that(1) show thesis by (auto simp: memory_append_batch_if_fenced_claim_def)
  next
    case stored
    with assms Inr l ok that(2) show thesis by (auto simp: memory_append_batch_if_fenced_claim_def)
  qed
qed

section \<open>Positions and unique facts\<close>

definition numbered :: "operation_event list \<Rightarrow> bool" where
  "numbered es \<longleftrightarrow> (\<forall>i < length es. ev_sequence (es ! i) = int i)"

definition unique_facts :: "host \<Rightarrow> operation_event list \<Rightarrow> bool" where
  "unique_facts H es \<longleftrightarrow> (\<forall>c \<in> set unique_constraints. distinct (known_facts H es c))"

lemma numbered_batch: "numbered es \<Longrightarrow> numbered (es @ batch_events clock sid op (length es) specs)"
  by (auto simp: numbered_def nth_append batch_events_nth)

lemma known_facts_append: "known_facts H (es @ fs) c = known_facts H es c @ known_facts H fs c"
  by (simp add: known_facts_def)

lemma known_facts_batch: "known_facts H (batch_events clock sid op n specs) c = incoming_facts H specs c"
  by (induction specs arbitrary: n) (simp_all add: known_facts_def incoming_facts_def)

lemma check_unique_ok:
  "check_unique_operation_facts H es specs = Inr () \<longleftrightarrow>
     (\<forall>c \<in> set unique_constraints. distinct (incoming_facts H specs c) \<and>
        set (incoming_facts H specs c) \<inter> set (known_facts H es c) = {})"
  unfolding check_unique_operation_facts_def foldE_unit_ok by (auto simp: list_all_iff)

lemma unique_batch:
  assumes "unique_facts H es" "append_checks H wall es sid op specs expected deadline = Inr ()"
  shows "unique_facts H (es @ batch_events clock sid op n specs)"
proof -
  from assms(2) have "check_unique_operation_facts H es specs = Inr ()" by (auto simp: append_checks_def exc_simps)
  with assms(1) show ?thesis
    unfolding unique_facts_def check_unique_ok known_facts_append known_facts_batch by auto
qed

text \<open>What a call of the in-memory store does to the events.\<close>

lemma memory_step_events:
  assumes "memory_step H now st st'" "numbered (ms_events st)" "unique_facts H (ms_events st)"
  shows "numbered (ms_events st') \<and> unique_facts H (ms_events st') \<and> (\<exists>new. ms_events st' = ms_events st @ new)"
  using assms(1)
proof (cases rule: memory_step.cases)
  case (append_batch clock wall sid op specs expected deadline r)
  then show ?thesis
    by (cases rule: memory_append_batch_cases) (use assms in \<open>auto intro: numbered_batch unique_batch\<close>)
next
  case (append_fenced clock wall sid op specs lease secs expected deadline entity r)
  then show ?thesis
    by (cases rule: memory_append_fenced_cases) (use assms in \<open>auto intro: numbered_batch unique_batch\<close>)
qed (use assms in \<open>auto simp: memory_try_acquire_claim_def memory_release_claim_def memory_renew_fenced_claim_def
    memory_release_fenced_claim_def memory_acquire_fenced_claim_def split: sum.splits prod.splits option.splits\<close>)

lemma memory_run_events:
  assumes "timed_run (memory_step H) t st t' st'" "numbered (ms_events st)" "unique_facts H (ms_events st)"
  shows "numbered (ms_events st') \<and> unique_facts H (ms_events st') \<and> (\<exists>new. ms_events st' = ms_events st @ new)"
  using assms
proof (induction rule: timed_run.induct)
  case (go t1 s1 t2 s2)
  then have s1: "numbered (ms_events s1)" "unique_facts H (ms_events s1)" "\<exists>new. ms_events s1 = ms_events st @ new" by auto
  from memory_step_events[OF go.hyps(3) s1(1,2)] s1(3) show ?case by fastforce
qed simp

lemma empty_store_events: "numbered (ms_events empty_memory_store)" "unique_facts H (ms_events empty_memory_store)"
  by (simp_all add: empty_memory_store_def numbered_def unique_facts_def known_facts_def)

text \<open>
  An append to the in-memory store is atomic: it is either refused and leaves the store as it was, or it
  stores exactly the given batch after what was there, numbered by position, for the given operation, and then
  the expected version was the last one of that operation and the deadline had not passed.
\<close>

theorem memory_append_atomic:
  assumes "memory_append_batch H clock wall sid op specs expected deadline st = (r, st')"
  shows "(\<not> isOk r \<and> st' = st) \<or>
    (\<exists>new. r = Inr new \<and> ms_claims st' = ms_claims st \<and> ms_events st' = ms_events st @ new \<and>
       map (\<lambda>e. (ev_type e, ev_data e)) new = specs \<and> new \<noteq> [] \<and>
       (\<forall>i < length new. ev_sequence (new ! i) = int (length (ms_events st) + i) \<and>
          ev_session_id (new ! i) = sid \<and> ev_operation_id (new ! i) = op) \<and>
       (\<forall>v. expected = Some v \<longrightarrow> last_operation_sequence (ms_events st) sid op = v) \<and>
       (\<forall>d. deadline = Some d \<longrightarrow> wall < d))"
  using assms
proof (cases rule: memory_append_batch_cases)
  case (refused f)
  then show ?thesis by simp
next
  case stored
  let ?new = "batch_events clock sid op (length (ms_events st)) specs"
  have "map (\<lambda>e. (ev_type e, ev_data e)) (batch_events clock sid op n specs) = specs" for n
    by (induction specs arbitrary: n) simp_all
  moreover have "(\<forall>v. expected = Some v \<longrightarrow> last_operation_sequence (ms_events st) sid op = v) \<and> (\<forall>d. deadline = Some d \<longrightarrow> wall < d)"
    using stored(4) by (auto simp: append_checks_def check_expected_def check_deadline_def exc_simps)
  moreover have "?new \<noteq> []"
    using stored(3) by (cases specs) (auto simp: validate_batch_def exc_simps)
  ultimately show ?thesis
    using stored(5,6) by (intro disjI2 exI[of _ ?new]) (simp add: batch_events_nth)
qed

definition one_event :: "event_spec list" where
  "one_event = [(''operation_started'', [])]"

lemma first_append_ok:
  "isOk (fst (memory_append_batch log_host (\<lambda>_. 0) 0 ''s'' ''op'' one_event (Some (-1)) None empty_memory_store))"
  by code_simp

theorem memory_append_atomic_witness:
  "\<exists>new st'. memory_append_batch log_host (\<lambda>_. 0) 0 ''s'' ''op'' one_event (Some (-1)) None empty_memory_store = (Inr new, st') \<and>
     ms_events st' = new \<and> length new = 1"
proof -
  obtain r st' where r: "memory_append_batch log_host (\<lambda>_. 0) 0 ''s'' ''op'' one_event (Some (-1)) None empty_memory_store = (r, st')"
    by fastforce
  moreover note first_append_ok
  ultimately have "isOk r" by simp
  with memory_append_atomic[OF r] r show ?thesis
    by (auto simp: one_event_def empty_memory_store_def)
qed

text \<open>
  In every in-memory store that calls can reach from the empty one, the sequence number of an event
  is its position, and approval ids, write ids and idempotency key hashes are globally unique.
\<close>

theorem store_facts_unique:
  assumes "timed_run (memory_step H) t empty_memory_store t' st"
  shows "(\<forall>i < length (ms_events st). ev_sequence (ms_events st ! i) = int i) \<and>
    distinct (known_facts H (ms_events st) (''approval_requested'', ''approvalId'')) \<and>
    distinct (known_facts H (ms_events st) (''write_prepared'', ''writeId'')) \<and>
    distinct (known_facts H (ms_events st) (''write_prepared'', ''idempotencyKeyHash''))"
proof -
  from memory_run_events[OF assms empty_store_events]
  have "numbered (ms_events st)" "unique_facts H (ms_events st)" by simp_all
  then show ?thesis by (simp add: numbered_def unique_facts_def unique_constraints_def)
qed

definition sample_store :: memory_store where
  "sample_store = snd (memory_append_batch log_host (\<lambda>_. 0) 0 ''s'' ''op'' (take 5 sample_specs) None None empty_memory_store)"

lemma sample_store_run: "timed_run (memory_step log_host) 0 empty_memory_store 0 sample_store"
proof -
  have "memory_step log_host 0 empty_memory_store sample_store"
    by (rule memory_step.append_batch[where r = "fst (memory_append_batch log_host (\<lambda>_. 0) 0 ''s'' ''op'' (take 5 sample_specs) None None empty_memory_store)"
        and clock = "\<lambda>_. 0" and wall = 0 and sid = "''s''" and op = "''op''" and specs = "take 5 sample_specs" and expected = None and deadline = None])
      (simp add: sample_store_def)
  then show ?thesis by (blast intro: timed_run.intros)
qed

theorem store_facts_unique_witness:
  "length (ms_events sample_store) = 5 \<and> distinct (known_facts log_host (ms_events sample_store) (''write_prepared'', ''writeId''))"
proof -
  have "length (ms_events sample_store) = 5" by code_simp
  with store_facts_unique[OF sample_store_run] show ?thesis by blast
qed

section \<open>Compare and set\<close>

lemma find_append: "find P (xs @ ys) = (case find P xs of None \<Rightarrow> find P ys | Some y \<Rightarrow> Some y)"
  by (induction xs) auto

lemma last_sequence_bounds:
  assumes "numbered es"
  shows "last_operation_sequence es sid op < int (length es)"
proof (cases "find (of_operation sid op) (rev es)")
  case None
  then show ?thesis by (simp add: last_operation_sequence_def)
next
  case (Some e)
  then have "e \<in> set es" using find_SomeD by fastforce
  with assms Some show ?thesis by (auto simp: last_operation_sequence_def numbered_def in_set_conv_nth)
qed

lemma last_sequence_after:
  assumes "numbered (es @ fs)" "\<exists>f \<in> set fs. of_operation sid op f"
  shows "int (length es) \<le> last_operation_sequence (es @ fs) sid op"
proof -
  from assms(2) obtain f where f: "find (of_operation sid op) (rev fs) = Some f"
    by (cases "find (of_operation sid op) (rev fs)") (auto simp: find_None_iff)
  then have "f \<in> set fs" using find_SomeD by fastforce
  then obtain i where "i < length fs" "fs ! i = f" by (auto simp: in_set_conv_nth)
  with assms(1) have "ev_sequence f = int (length es + i)"
    unfolding numbered_def by (metis length_append nat_add_left_cancel_less nth_append_length_plus)
  with f show ?thesis by (simp add: last_operation_sequence_def find_append)
qed

text \<open>
  C13: no lost update. If an append that expects version \<open>v\<close> of an operation succeeds, then after any further
  calls an append that expects the same version of that operation is refused and stores nothing.
\<close>

theorem cas_excludes_second_append:
  assumes "timed_run (memory_step H) t0 empty_memory_store t st"
    and "memory_append_batch H clock wall sid op specs (Some v) deadline st = (Inr new, st1)"
    and "timed_run (memory_step H) t st1 t' st2"
    and "memory_append_batch H clock' wall' sid op specs' (Some v) deadline' st2 = (r, st3)"
  shows "\<not> isOk r \<and> st3 = st2"
proof -
  from memory_run_events[OF assms(1) empty_store_events] have st: "numbered (ms_events st)" "unique_facts H (ms_events st)" by simp_all
  have "memory_step H t st st1" using assms(2) by (rule memory_step.append_batch)
  from memory_step_events[OF this st] have st1: "numbered (ms_events st1)" "unique_facts H (ms_events st1)" by simp_all
  from memory_run_events[OF assms(3) st1] obtain ext where
    st2: "numbered (ms_events st2)" "ms_events st2 = ms_events st1 @ ext" by blast
  from assms(2) have "v < int (length (ms_events st)) \<and> ms_events st1 = ms_events st @ new \<and> (\<exists>e \<in> set new. of_operation sid op e)"
  proof (cases rule: memory_append_batch_cases)
    case stored
    have "v < int (length (ms_events st))"
      using stored(4) last_sequence_bounds[OF st(1), of sid op] by (auto simp: append_checks_def check_expected_def exc_simps)
    moreover have "\<exists>e \<in> set new. of_operation sid op e"
      using stored(3,5) by (cases specs) (auto simp: validate_batch_def exc_simps of_operation_def)
    ultimately show ?thesis using stored by simp
  qed simp
  then have v: "v < int (length (ms_events st))"
    and ev: "ms_events st1 = ms_events st @ new" "\<exists>e \<in> set new. of_operation sid op e" by auto
  have "int (length (ms_events st)) \<le> last_operation_sequence (ms_events st2) sid op"
    using last_sequence_after[of "ms_events st" "new @ ext" sid op] st2 ev by auto
  with v have "last_operation_sequence (ms_events st2) sid op \<noteq> v" by simp
  with assms(4) show ?thesis
    by (cases rule: memory_append_batch_cases) (auto simp: append_checks_def check_expected_def exc_simps)
qed

theorem cas_excludes_second_append_witness:
  "\<exists>new st1 r st3. memory_append_batch log_host (\<lambda>_. 0) 0 ''s'' ''op'' one_event (Some (-1)) None empty_memory_store = (Inr new, st1) \<and>
     memory_append_batch log_host (\<lambda>_. 0) 0 ''s'' ''op'' one_event (Some (-1)) None st1 = (r, st3) \<and> \<not> isOk r \<and> st3 = st1"
proof -
  from first_append_ok obtain new st1 where a: "memory_append_batch log_host (\<lambda>_. 0) 0 ''s'' ''op'' one_event (Some (-1)) None empty_memory_store = (Inr new, st1)"
    by (metis isOk_iff prod.collapse)
  obtain r st3 where b: "memory_append_batch log_host (\<lambda>_. 0) 0 ''s'' ''op'' one_event (Some (-1)) None st1 = (r, st3)" by fastforce
  from cas_excludes_second_append[OF timed_run.stay a timed_run.stay b] a b show ?thesis by blast
qed

section \<open>Validated appends\<close>

lemma batch_fold:
  assumes "foldE (reduce_spec H now) specs (base, s) = Inr (l, s')" "k < int n"
    and "sid = os_session_id s" "op = os_operation_id s"
  shows "\<exists>m. foldE (reduce_opt H) (batch_events clock sid op n specs) (Some (s\<lparr>os_last_sequence := k\<rparr>)) =
    Inr (Some (s'\<lparr>os_last_sequence := m\<rparr>))"
  using assms
proof (induction specs arbitrary: base s k n)
  case Nil
  then show ?case by auto
next
  case (Cons spec specs)
  let ?e = "\<lparr>ev_type = fst spec, ev_session_id = sid, ev_operation_id = op, ev_sequence = base + 1, ev_timestamp = now, ev_data = snd spec\<rparr>"
  from Cons.prems obtain s1 where s1: "reduce_operation_event H (Some s) ?e = Inr s1"
    "foldE (reduce_spec H now) specs (base + 1, s1) = Inr (l, s')"
    unfolding foldE.simps bindE_eq_Inr reduce_spec_def[of H now spec]
    by (auto simp: spec_event_def event_post_init_def exc_simps)
  have ids: "sid = os_session_id s1" "op = os_operation_id s1"
    using log_move_ids[OF reduce_move[OF s1(1)]] Cons.prems by simp_all
  have "reduce_operation_event H (Some (s\<lparr>os_last_sequence := k\<rparr>)) (?e\<lparr>ev_sequence := int n, ev_timestamp := clock n\<rparr>) =
      Inr (s1\<lparr>os_last_sequence := int n\<rparr>)"
    by (rule reduce_renumber[OF s1(1) Cons.prems(2)])
  then have "reduce_opt H (?e\<lparr>ev_sequence := int n, ev_timestamp := clock n\<rparr>) (Some (s\<lparr>os_last_sequence := k\<rparr>)) =
      Inr (Some (s1\<lparr>os_last_sequence := int n\<rparr>))"
    by (simp add: reduce_opt_def)
  moreover obtain m where "foldE (reduce_opt H) (batch_events clock sid op (Suc n) specs) (Some (s1\<lparr>os_last_sequence := int n\<rparr>)) =
      Inr (Some (s'\<lparr>os_last_sequence := m\<rparr>))"
    using Cons.IH[OF s1(2) _ ids, of "int n" "Suc n"] by auto
  ultimately show ?case by (auto simp: exc_simps)
qed

lemma load_of_operation: "memory_load (Some sid) (Some op) st = filter (of_operation sid op) (ms_events st)"
  by (simp add: memory_load_def load_filter_def of_operation_def[abs_def] filter_filter conj_commute)

lemma filter_batch: "filter (of_operation sid op) (batch_events clock sid op n specs) = batch_events clock sid op n specs"
  by (induction specs arbitrary: n) (simp_all add: of_operation_def)

lemma batch_sequences: "map ev_sequence (batch_events clock sid op n specs) = map int [n..<n + length specs]"
  by (induction specs arbitrary: n) (simp_all add: upt_rec)

lemma last_sequence_load:
  "last_operation_sequence es sid op = operation_last_sequence (filter (of_operation sid op) es)"
proof (induction es rule: rev_induct)
  case (snoc e es)
  then show ?case by (simp add: last_operation_sequence_def operation_last_sequence_def)
qed (simp add: last_operation_sequence_def operation_last_sequence_def)

lemma same_version_same_log:
  assumes "numbered (es @ ext)" "last_operation_sequence (es @ ext) sid op = last_operation_sequence es sid op"
  shows "filter (of_operation sid op) (es @ ext) = filter (of_operation sid op) es"
proof -
  have "numbered es" using assms(1) by (auto simp: numbered_def nth_append) (metis (full_types) nth_append trans_less_add1)
  have "\<not> (\<exists>f \<in> set ext. of_operation sid op f)"
    using last_sequence_after[OF assms(1)] last_sequence_bounds[OF \<open>numbered es\<close>, of sid op] assms(2) by fastforce
  then show ?thesis by (simp add: filter_empty_conv)
qed

text \<open>A batch validated against the log of a version is accepted after that version, with the numbers it gets.\<close>

lemma validated_batch_replays:
  assumes "numbered (es @ ext)" "last_operation_sequence (es @ ext) sid op = operation_last_sequence (filter (of_operation sid op) es)"
    and "replay_operation_with_specs H now (filter (of_operation sid op) es) specs = Inr s'"
  shows "\<exists>n. replay_operation H (filter (of_operation sid op) (es @ ext @ batch_events clock sid op (length (es @ ext)) specs)) =
    Inr (s'\<lparr>os_last_sequence := n\<rparr>)"
proof -
  let ?es = "filter (of_operation sid op) es" and ?n = "length (es @ ext)"
  let ?new = "batch_events clock sid op ?n specs"
  have same: "filter (of_operation sid op) (es @ ext) = ?es"
    using same_version_same_log[OF assms(1)] assms(2) by (simp add: last_sequence_load)
  then have load3: "filter (of_operation sid op) (es @ ext @ ?new) = ?es @ ?new" by (simp add: filter_batch)
  from assms(3) obtain s l where s: "replay_operation H ?es = Inr s"
    "foldE (reduce_spec H now) specs (Max (ev_sequence ` set ?es), s) = Inr (l, s')"
    by (auto simp: replay_operation_with_specs_def exc_simps)
  have shape: "log_shape (sort_key ev_sequence ?es) s" using s(1) by (simp add: replay_fold log_shape_log)
  then obtain x where x: "x \<in> set ?es" "ev_sequence x = os_last_sequence s" "ev_session_id x = os_session_id s" "ev_operation_id x = os_operation_id s"
    unfolding log_shape_def by (metis last_in_set set_sort)
  have small: "ev_sequence y < int ?n" if "y \<in> set ?es" for y
  proof -
    from that have "y \<in> set (es @ ext)" by simp
    then obtain i where "i < ?n" "(es @ ext) ! i = y" unfolding in_set_conv_nth by blast
    with assms(1) show ?thesis unfolding numbered_def by fastforce
  qed
  have ids: "sid = os_session_id s" "op = os_operation_id s"
    using x by (auto simp: of_operation_def)
  from batch_fold[OF s(2) _ ids, of "os_last_sequence s" ?n clock] small[OF x(1)] x(2) obtain m where
    "foldE (reduce_opt H) ?new (Some s) = Inr (Some (s'\<lparr>os_last_sequence := m\<rparr>))" by auto
  then have "replay_operation H (?es @ ?new) = Inr (s'\<lparr>os_last_sequence := m\<rparr>)"
  proof (rule replay_append[OF s(1)])
    show "sorted_wrt (<) (map ev_sequence ?new)"
      unfolding batch_sequences by (simp add: sorted_wrt_map sorted_wrt_upt)
    show "\<forall>e \<in> set ?new. \<forall>x \<in> set ?es. ev_sequence x < ev_sequence e"
    proof (intro ballI)
      fix e y assume "e \<in> set ?new" "y \<in> set ?es"
      then have "ev_sequence e \<in> set (map ev_sequence ?new)" by simp
      then have "int ?n \<le> ev_sequence e" unfolding batch_sequences by auto
      with small[OF \<open>y \<in> set ?es\<close>] show "ev_sequence y < ev_sequence e" by simp
    qed
  qed
  with load3 show ?thesis by auto
qed

text \<open>
  The protocol of every durable writer. Load the log of an operation, validate a batch against it, and
  append with the version that was loaded: if the append succeeds, then whatever calls other workers made in
  between, the log of the operation replays, to the state the validation computed (but for the number of its last event).
\<close>

theorem validated_append_replays:
  assumes "timed_run (memory_step H) t0 empty_memory_store t1 st1"
    and "replay_operation_with_specs H now (memory_load (Some sid) (Some op) st1) specs = Inr s'"
    and "timed_run (memory_step H) t1 st1 t2 st2"
    and "memory_append_batch H clock wall sid op specs
      (Some (operation_last_sequence (memory_load (Some sid) (Some op) st1))) deadline st2 = (Inr new, st3)"
  shows "\<exists>n. replay_operation H (memory_load (Some sid) (Some op) st3) = Inr (s'\<lparr>os_last_sequence := n\<rparr>)"
proof -
  from memory_run_events[OF assms(1) empty_store_events] have st1: "numbered (ms_events st1)" "unique_facts H (ms_events st1)" by simp_all
  from memory_run_events[OF assms(3) st1] obtain ext where
    st2: "numbered (ms_events st2)" "ms_events st2 = ms_events st1 @ ext" by blast
  from assms(4) have st3: "ms_events st3 = ms_events st2 @ batch_events clock sid op (length (ms_events st2)) specs"
    and cas: "last_operation_sequence (ms_events st2) sid op = operation_last_sequence (memory_load (Some sid) (Some op) st1)"
    by (cases rule: memory_append_batch_cases; auto simp: append_checks_def check_expected_def exc_simps)+
  from validated_batch_replays[of "ms_events st1" ext sid op H now specs s' clock] assms(2) st2 st3 cas show ?thesis
    by (simp add: load_of_operation)
qed

lemma sample_store_checks:
  "let st = sample_store; es = memory_load (Some ''s'') (Some ''op'') st in
     isOk (replay_operation_with_specs log_host 0 es [sample_specs ! 5]) \<and>
     isOk (fst (memory_append_batch log_host (\<lambda>_. 0) 0 ''s'' ''op'' [sample_specs ! 5] (Some (operation_last_sequence es)) None st))"
  by code_simp

lemmas sample_store_batch = sample_store_checks[unfolded Let_def, THEN conjunct1] sample_store_checks[unfolded Let_def, THEN conjunct2]

theorem validated_append_replays_witness:
  "\<exists>new st3 s. memory_append_batch log_host (\<lambda>_. 0) 0 ''s'' ''op'' [sample_specs ! 5]
      (Some (operation_last_sequence (memory_load (Some ''s'') (Some ''op'') sample_store))) None sample_store = (Inr new, st3) \<and>
     replay_operation log_host (memory_load (Some ''s'') (Some ''op'') st3) = Inr s"
proof -
  from sample_store_batch obtain s' new st3 where
    "replay_operation_with_specs log_host 0 (memory_load (Some ''s'') (Some ''op'') sample_store) [sample_specs ! 5] = Inr s'"
    and a: "memory_append_batch log_host (\<lambda>_. 0) 0 ''s'' ''op'' [sample_specs ! 5]
      (Some (operation_last_sequence (memory_load (Some ''s'') (Some ''op'') sample_store))) None sample_store = (Inr new, st3)"
    by (metis isOk_iff prod.collapse)
  from validated_append_replays[OF sample_store_run this(1) timed_run.stay a] a show ?thesis by blast
qed

end
