(* ===== verification/Jsonl_Store.thy ===== *)
theory Jsonl_Store
  imports Store_Theorems
begin

text \<open>
  The JSONL store against the in-memory store. As long as the texts of the events hold none of the
  line boundaries that \<open>json.dumps(ensure_ascii=False)\<close> leaves unescaped (U+0085, U+2028 and U+2029), the
  file reads back as the list of the appended events, and every sequence of calls gets the same answers
  from both stores. The last theorem shows that the condition is needed.
\<close>

section \<open>Texts without a line boundary\<close>

fun unbroken :: "string \<Rightarrow> bool" where
  "unbroken [] = True"
| "unbroken (c # cs) \<longleftrightarrow> line_break (c # cs) = 0 \<and> unbroken cs"

definition plain_char :: "char \<Rightarrow> bool" where
  "plain_char c \<longleftrightarrow> (let n = of_char c :: nat in 32 \<le> n \<and> n < 128)"

text \<open>The line boundaries a JSON string may hold unescaped, in UTF-8.\<close>

definition unicode_break :: "string \<Rightarrow> bool" where
  "unicode_break s \<longleftrightarrow> take 2 s = [CHR 0xC2, CHR 0x85] \<or>
     take 3 s = [CHR 0xE2, CHR 0x80, CHR 0xA8] \<or> take 3 s = [CHR 0xE2, CHR 0x80, CHR 0xA9]"

fun safe_text :: "string \<Rightarrow> bool" where
  "safe_text [] = True"
| "safe_text (c # cs) \<longleftrightarrow> \<not> unicode_break (c # cs) \<and> safe_text cs"

fun safe_json :: "json \<Rightarrow> bool" where
  "safe_json (JStr s) = safe_text s"
| "safe_json (JList xs) = list_all safe_json xs"
| "safe_json (JObj d) = list_all (\<lambda>p. safe_text (fst p) \<and> safe_json (snd p)) d"
| "safe_json _ = True"

lemma line_break_plain:
  assumes "plain_char c" "x \<noteq> []"
  shows "line_break (x @ c # b) = line_break x"
proof -
  have c: "c \<noteq> CHR 0x0A" "c \<noteq> CHR 0x85" "c \<noteq> CHR 0x80" "c \<noteq> CHR 0xA8" "c \<noteq> CHR 0xA9"
    using assms(1) by (auto simp: plain_char_def)
  obtain d xs where x: "x = d # xs" using assms(2) by (cases x) auto
  show ?thesis
  proof (cases xs)
    case Nil
    with c x show ?thesis by (simp add: line_break_def)
  next
    case (Cons e ys)
    with c x show ?thesis by (cases ys) (auto simp: line_break_def)
  qed
qed

lemma line_break_unicode:
  assumes "32 \<le> (of_char c :: nat)"
  shows "line_break (c # b) = 0 \<longleftrightarrow> \<not> unicode_break (c # b)"
proof -
  have "c \<notin> {CHR 0x0A, CHR 0x0D, CHR 0x0B, CHR 0x0C, CHR 0x1C, CHR 0x1D, CHR 0x1E}"
    using assms by auto
  moreover from this have "take 2 (c # b) \<noteq> [CHR 0x0D, CHR 0x0A]" by simp
  ultimately show ?thesis unfolding line_break_def unicode_break_def by simp
qed

lemma line_break_head:
  assumes "plain_char c"
  shows "line_break (c # b) = 0"
proof -
  have "c \<noteq> CHR 0xC2" "c \<noteq> CHR 0xE2" "32 \<le> (of_char c :: nat)" using assms by (auto simp: plain_char_def Let_def)
  then show ?thesis by (simp add: line_break_unicode unicode_break_def)
qed

lemma unbroken_plain: "plain_char c \<Longrightarrow> unbroken (a @ c # b) \<longleftrightarrow> unbroken a \<and> unbroken b"
proof (induction a)
  case Nil
  then show ?case by (simp add: line_break_head)
next
  case (Cons d a)
  then show ?case using line_break_plain[of c "d # a" b] by simp
qed

lemma plain_unbroken: "list_all plain_char s \<Longrightarrow> unbroken s"
  by (induction s) (auto simp: line_break_head)

lemma unbroken_after_plain: "plain_char c \<Longrightarrow> unbroken (c # b) \<longleftrightarrow> unbroken b"
  using unbroken_plain[of c "[]" b] by simp

lemma unbroken_plain_prefix: "list_all plain_char p \<Longrightarrow> unbroken (p @ b) \<longleftrightarrow> unbroken b"
  by (induction p) (auto simp: unbroken_after_plain simp del: unbroken.simps(2))

lemma plain_quote [simp]: "plain_char (CHR 0x22)" "plain_char (CHR '','')" "plain_char (CHR '':'')"
  "plain_char (CHR ''['')" "plain_char (CHR '']'')" "plain_char (CHR ''{'')" "plain_char (CHR ''}'')"
  by (simp_all add: plain_char_def)

lemma escape_char_cases:
  "escape_char c = [c] \<and> 32 \<le> (of_char c :: nat) \<or> escape_char c \<noteq> [] \<and> list_all plain_char (escape_char c)"
  by (auto simp: escape_char_def Let_def plain_char_def hex_digit_def)

text \<open>Escaping never starts a multi-byte boundary that the text does not have.\<close>

lemma escape_take:
  assumes "take n (concat (map escape_char s)) = bs" "length bs = n" "list_all (\<lambda>c. \<not> plain_char c) bs"
  shows "take n s = bs"
  using assms
proof (induction s arbitrary: n bs)
  case (Cons c s)
  show ?case
  proof (cases n)
    case (Suc m)
    then obtain d ds where bs: "bs = d # ds" using Cons.prems(2) by (cases bs) auto
    from escape_char_cases[of c] consider "escape_char c = [c]" | p ps where "escape_char c = p # ps" "plain_char p"
      by (cases "escape_char c") auto
    then show ?thesis
      by cases (use Cons.IH[of m ds] Cons.prems Suc bs in auto)
  qed (use Cons.prems in simp)
qed simp

lemma unbroken_escaped: "safe_text s \<Longrightarrow> unbroken (concat (map escape_char s))"
proof (induction s)
  case (Cons c s)
  let ?t = "concat (map escape_char s)"
  have IH: "unbroken ?t" using Cons by simp
  from escape_char_cases[of c] show ?case
  proof
    assume c: "escape_char c = [c] \<and> 32 \<le> (of_char c :: nat)"
    have "\<not> unicode_break (c # ?t)"
    proof
      assume u: "unicode_break (c # ?t)"
      have n: "\<not> plain_char (CHR 0x85)" "\<not> plain_char (CHR 0x80)" "\<not> plain_char (CHR 0xA8)" "\<not> plain_char (CHR 0xA9)"
        by (simp_all add: plain_char_def)
      from u have "unicode_break (c # s)"
        using escape_take[of 1 s "[CHR 0x85]"] escape_take[of 2 s "[CHR 0x80, CHR 0xA8]"]
          escape_take[of 2 s "[CHR 0x80, CHR 0xA9]"] n
        by (auto simp: unicode_break_def numeral_2_eq_2 numeral_3_eq_3)
      with Cons.prems show False by simp
    qed
    with c have "line_break (c # ?t) = 0" by (simp add: line_break_unicode)
    with c IH show ?thesis by simp
  next
    assume "escape_char c \<noteq> [] \<and> list_all plain_char (escape_char c)"
    with IH show ?thesis by (simp add: unbroken_plain_prefix)
  qed
qed simp

lemma unbroken_quote: "safe_text s \<Longrightarrow> unbroken (quote_string s)"
  unfolding quote_string_def by (simp add: unbroken_after_plain unbroken_plain unbroken_escaped del: unbroken.simps(2))

lemma unbroken_join: "list_all unbroken ts \<Longrightarrow> unbroken (join_comma ts)"
  by (induction ts rule: join_comma.induct) (auto simp: unbroken_plain simp del: unbroken.simps(2))

lemma plain_digit: "plain_char (digit_char n)"
proof -
  have "n mod 10 < 10" by simp
  then have "48 + n mod 10 < 256" by linarith
  then show ?thesis by (simp add: digit_char_def plain_char_def)
qed

lemma plain_nat_digits: "list_all plain_char (nat_digits n)"
proof (induction n rule: nat_digits.induct)
  case (1 n)
  then show ?case by (subst nat_digits.simps) (auto simp: plain_digit)
qed

lemma plain_int_digits: "list_all plain_char (int_digits i)"
  using plain_nat_digits by (auto simp: int_digits_def plain_char_def)

lemma unbroken_dumps: "float_free v \<Longrightarrow> safe_json v \<Longrightarrow> unbroken (json_dumps H False v)"
proof (induction v)
  case (JList xs)
  then have "list_all unbroken (map (json_dumps H False) xs)" by (auto simp: list_all_iff)
  then show ?case by (simp add: unbroken_after_plain unbroken_plain unbroken_join del: unbroken.simps(2))
next
  case (JObj d)
  have "unbroken (member_text (k, json_dumps H False v))" if "(k, v) \<in> set d" for k v
    using that JObj by (fastforce simp: member_text_def unbroken_plain unbroken_quote list_all_iff simp del: unbroken.simps(2))
  then have "list_all unbroken (map member_text (order_members False (map (\<lambda>(k, v). (k, json_dumps H False v)) d)))"
    by (auto simp: order_members_def list_all_iff)
  then show ?case by (simp add: unbroken_after_plain unbroken_plain unbroken_join del: unbroken.simps(2))
next
  case (JBool b)
  have "unbroken ''true''" "unbroken ''false''" by (rule plain_unbroken, simp add: plain_char_def)+
  then show ?case by (simp del: unbroken.simps(2))
next
  case JNull
  have "unbroken ''null''" by (rule plain_unbroken) (simp add: plain_char_def)
  then show ?case by (simp del: unbroken.simps(2))
qed (auto intro!: plain_unbroken simp: plain_int_digits unbroken_quote plain_char_def)

section \<open>Reading a file back\<close>

lemma line_break_newline:
  assumes "x \<noteq> []" "line_break x = 0"
  shows "line_break (x @ CHR 0x0A # r) = 0"
proof -
  obtain d xs where x: "x = d # xs" using assms(1) by (cases x) auto
  have "d \<noteq> CHR 0x0D" using assms(2) x by (auto simp: line_break_def split: if_splits)
  then show ?thesis using assms(2) x
    by (cases xs; cases "tl xs") (auto simp: line_break_def split: if_splits)
qed

lemma first_line_newline: "unbroken l \<Longrightarrow> first_line (l @ CHR 0x0A # r) = (l, Some r)"
proof (induction l)
  case Nil
  then show ?case by (simp add: line_break_def)
next
  case (Cons c l)
  then show ?case using line_break_newline[of "c # l" r] by simp
qed

lemma splitlines_newline: "unbroken l \<Longrightarrow> py_splitlines (l @ CHR 0x0A # r) = l # py_splitlines r"
  by (subst py_splitlines.simps) (simp add: first_line_newline)

definition file_text :: "host \<Rightarrow> operation_event list \<Rightarrow> string" where
  "file_text H es = concat (map (\<lambda>e. encode_event H e @ [CHR 0x0A]) es)"

definition clean_data :: "jdict \<Rightarrow> bool" where
  "clean_data d \<longleftrightarrow> float_free (JObj d) \<and> wf_json (JObj d) \<and> safe_json (JObj d)"

definition storable :: "operation_event \<Rightarrow> bool" where
  "storable e \<longleftrightarrow> event_post_init e = Inr e \<and> safe_text (ev_type e) \<and> safe_text (ev_session_id e) \<and>
     safe_text (ev_operation_id e) \<and> clean_data (ev_data e)"

lemma storable_dict:
  assumes "storable e"
  shows "float_free (JObj (event_to_dict e))" "wf_json (JObj (event_to_dict e))" "safe_json (JObj (event_to_dict e))"
  using assms unfolding storable_def clean_data_def
  by (auto simp: event_to_dict_def unicode_break_def simp del: float_free.simps(3) wf_json.simps(3) safe_json.simps(3)
      simp: float_free.simps(3)[of "_ # _"] wf_json.simps(3)[of "_ # _"] safe_json.simps(3)[of "_ # _"])

lemma event_from_to_dict: "event_post_init e = Inr e \<Longrightarrow> event_from_dict (JObj (event_to_dict e)) = Inr e"
  by (cases e) (auto simp: event_from_dict_def event_to_dict_def jget_def jget_or_def nonempty_text_def event_post_init_def exc_simps)

lemma load_line_encode:
  assumes "storable e" "previous < ev_sequence e"
  shows "load_line H (encode_event H e) (es, previous) = Inr (es @ [e], ev_sequence e)"
proof -
  have "\<not> list_all py_space (encode_event H e)" by (simp add: encode_event_def py_space_def)
  moreover have "json_loads H (encode_event H e) = Some (JObj (event_to_dict e))"
    unfolding encode_event_def by (rule json_loads_dumps) (use storable_dict[OF assms(1)] in blast)+
  moreover have "event_from_dict (JObj (event_to_dict e)) = Inr e"
    using assms(1) by (simp add: event_from_to_dict storable_def)
  ultimately show ?thesis using assms(2) by (simp add: load_line_def py_strip_eq_Nil)
qed

lemma splitlines_file_text: "list_all storable es \<Longrightarrow> py_splitlines (file_text H es) = map (encode_event H) es"
proof (induction es)
  case Nil
  then show ?case by (simp add: file_text_def py_splitlines.simps)
next
  case (Cons e es)
  then have "unbroken (encode_event H e)"
    unfolding encode_event_def by (intro unbroken_dumps storable_dict) simp_all
  with Cons show ?case by (simp add: file_text_def splitlines_newline)
qed

lemma load_lines:
  assumes "list_all storable es" "sorted_wrt (<) (previous # map ev_sequence es)"
  shows "\<exists>l. foldE (load_line H) (map (encode_event H) es) (acc, previous) = Inr (acc @ es, l)"
  using assms
proof (induction es arbitrary: acc previous)
  case (Cons e es)
  then show ?case using Cons.IH[of "ev_sequence e" "acc @ [e]"] by (simp add: load_line_encode)
qed simp

lemma numbered_sorted:
  assumes "numbered es"
  shows "sorted_wrt (<) (-1 # map ev_sequence es)"
proof -
  have "map ev_sequence es = map int [0..<length es]"
    using assms by (intro nth_equalityI) (simp_all add: numbered_def)
  then show ?thesis by (simp add: sorted_wrt_map)
qed

lemma load_file_text:
  assumes "js_file st = Some (file_text H es)" "list_all storable es" "numbered es"
  shows "load_sync H st = Inr es"
proof -
  from load_lines[OF assms(2) numbered_sorted[OF assms(3)], of H "[]"]
  show ?thesis by (auto simp: load_sync_def assms(1) splitlines_file_text[OF assms(2)])
qed

section \<open>Calls and their answers\<close>

text \<open>A new store object on a path (\<open>__init__\<close>); \<open>None\<close> while there is no file.\<close>

definition new_jsonl_store :: "string option \<Rightarrow> jsonl_store" where
  "new_jsonl_store file = \<lparr>js_file = file, js_next_sequence = None, js_claims = []\<rparr>"

datatype store_cmd =
    SAppend "nat \<Rightarrow> int" int string string string "jdict option"
  | SAppendBatch "nat \<Rightarrow> int" int string string "event_spec list" "int option" "int option"
  | SAppendFenced "nat \<Rightarrow> int" int rat string string "event_spec list" claim_lease rat "int option" "int option" "string option"
  | SLoad "string option" "string option"
  | STryAcquire rat string string string rat
  | SRelease string string string
  | SAcquireFenced rat string string string rat
  | SRenew rat claim_lease rat
  | SVerify rat claim_lease
  | SReleaseFenced claim_lease

datatype store_reply = RpEvents "operation_event list" | RpFlag bool | RpLease "claim_lease option" | RpNone

definition answer :: "('a \<Rightarrow> store_reply) \<Rightarrow> (store_fault, 'a) result \<times> 's \<Rightarrow> (store_fault, store_reply) result \<times> 's" where
  "answer f p = (case fst p of Inl e \<Rightarrow> Inl e | Inr x \<Rightarrow> Inr (f x), snd p)"

primrec memory_call :: "host \<Rightarrow> store_cmd \<Rightarrow> (memory_store, store_reply) store_call" where
  "memory_call H (SAppend clock wall ty sid op data) st =
     answer (\<lambda>e. RpEvents [e]) (memory_append H clock wall ty sid op data st)"
| "memory_call H (SAppendBatch clock wall sid op specs expected deadline) st =
     answer RpEvents (memory_append_batch H clock wall sid op specs expected deadline st)"
| "memory_call H (SAppendFenced clock wall now sid op specs lease secs expected deadline entity) st =
     answer RpEvents (memory_append_batch_if_fenced_claim H clock wall now sid op specs lease secs expected deadline entity st)"
| "memory_call H (SLoad sid op) st = (Inr (RpEvents (memory_load sid op st)), st)"
| "memory_call H (STryAcquire now ty rid owner secs) st = answer RpFlag (memory_try_acquire_claim now ty rid owner secs st)"
| "memory_call H (SRelease ty rid owner) st = answer (\<lambda>_. RpNone) (memory_release_claim ty rid owner st)"
| "memory_call H (SAcquireFenced now ty rid owner secs) st = answer RpLease (memory_acquire_fenced_claim now ty rid owner secs st)"
| "memory_call H (SRenew now lease secs) st = answer RpFlag (memory_renew_fenced_claim now lease secs st)"
| "memory_call H (SVerify now lease) st = (Inr (RpFlag (memory_verify_fenced_claim now lease st)), st)"
| "memory_call H (SReleaseFenced lease) st = answer (\<lambda>_. RpNone) (memory_release_fenced_claim lease st)"

primrec jsonl_call :: "host \<Rightarrow> store_cmd \<Rightarrow> (jsonl_store, store_reply) store_call" where
  "jsonl_call H (SAppend clock wall ty sid op data) st =
     answer (\<lambda>e. RpEvents [e]) (jsonl_append H clock wall ty sid op data st)"
| "jsonl_call H (SAppendBatch clock wall sid op specs expected deadline) st =
     answer RpEvents (jsonl_append_batch H clock wall sid op specs expected deadline st)"
| "jsonl_call H (SAppendFenced clock wall now sid op specs lease secs expected deadline entity) st =
     answer RpEvents (jsonl_append_batch_if_fenced_claim H clock wall now sid op specs lease secs expected deadline entity st)"
| "jsonl_call H (SLoad sid op) st = answer RpEvents (jsonl_load H sid op st, st)"
| "jsonl_call H (STryAcquire now ty rid owner secs) st = answer RpFlag (jsonl_try_acquire_claim now ty rid owner secs st)"
| "jsonl_call H (SRelease ty rid owner) st = answer (\<lambda>_. RpNone) (jsonl_release_claim ty rid owner st)"
| "jsonl_call H (SAcquireFenced now ty rid owner secs) st = answer RpLease (jsonl_acquire_fenced_claim now ty rid owner secs st)"
| "jsonl_call H (SRenew now lease secs) st = answer RpFlag (jsonl_renew_fenced_claim now lease secs st)"
| "jsonl_call H (SVerify now lease) st = (Inr (RpFlag (jsonl_verify_fenced_claim now lease st)), st)"
| "jsonl_call H (SReleaseFenced lease) st = answer (\<lambda>_. RpNone) (jsonl_release_fenced_claim lease st)"

fun run_calls :: "('c \<Rightarrow> 's \<Rightarrow> 'r \<times> 's) \<Rightarrow> 'c list \<Rightarrow> 's \<Rightarrow> 'r list \<times> 's" where
  "run_calls step [] s = ([], s)"
| "run_calls step (c # cs) s = (case step c s of (r, s1) \<Rightarrow> case run_calls step cs s1 of (rs, s2) \<Rightarrow> (r # rs, s2))"

text \<open>A component that simulates another call by call answers every sequence of calls alike.\<close>

locale call_simulation =
  fixes concrete :: "'c \<Rightarrow> 's \<Rightarrow> 'r \<times> 's" and abstract :: "'c \<Rightarrow> 'a \<Rightarrow> 'r \<times> 'a"
    and related :: "'s \<Rightarrow> 'a \<Rightarrow> bool" and admitted :: "'c \<Rightarrow> bool"
  assumes call_simulated: "related s a \<Longrightarrow> admitted c \<Longrightarrow>
    fst (concrete c s) = fst (abstract c a) \<and> related (snd (concrete c s)) (snd (abstract c a))"
begin

lemma calls_simulated:
  "related s a \<Longrightarrow> list_all admitted cs \<Longrightarrow>
    fst (run_calls concrete cs s) = fst (run_calls abstract cs a) \<and>
    related (snd (run_calls concrete cs s)) (snd (run_calls abstract cs a))"
proof (induction cs arbitrary: s a)
  case (Cons c cs)
  then show ?case using call_simulated[of s a c] by (auto simp: case_prod_unfold)
qed simp

end

section \<open>The JSONL store simulates the in-memory store\<close>

definition clean_specs :: "string \<Rightarrow> string \<Rightarrow> event_spec list \<Rightarrow> bool" where
  "clean_specs sid op specs \<longleftrightarrow> safe_text sid \<and> safe_text op \<and>
     list_all (\<lambda>p. safe_text (fst p) \<and> clean_data (snd p)) specs"

fun clean_cmd :: "store_cmd \<Rightarrow> bool" where
  "clean_cmd (SAppend clock wall ty sid op data) =
     clean_specs sid op [(ty, case data of None \<Rightarrow> [] | Some d \<Rightarrow> d)]"
| "clean_cmd (SAppendBatch clock wall sid op specs expected deadline) = clean_specs sid op specs"
| "clean_cmd (SAppendFenced clock wall now sid op specs lease secs expected deadline entity) = clean_specs sid op specs"
| "clean_cmd _ = True"

lemma load_no_file: "js_file st = None \<Longrightarrow> load_sync H st = Inr []"
  by (simp add: load_sync_def)

definition store_rel :: "host \<Rightarrow> jsonl_store \<Rightarrow> memory_store \<Rightarrow> bool" where
  "store_rel H js ms \<longleftrightarrow> js_claims js = ms_claims ms \<and> numbered (ms_events ms) \<and> list_all storable (ms_events ms) \<and>
     js_next_sequence js \<in> {None, Some (int (length (ms_events ms)))} \<and>
     (js_file js = Some (file_text H (ms_events ms)) \<or> js_file js = None \<and> ms_events ms = [])"

lemma store_rel_load: "store_rel H js ms \<Longrightarrow> load_sync H js = Inr (ms_events ms)"
  unfolding store_rel_def by (auto intro: load_file_text load_no_file)

lemma store_rel_sequence:
  assumes "store_rel H js ms"
  shows "first_sequence (ms_events ms) js = int (length (ms_events ms))"
proof (cases "js_next_sequence js = None \<and> ms_events ms \<noteq> []")
  case True
  then have "ev_sequence (last (ms_events ms)) = int (length (ms_events ms) - 1)"
    using assms unfolding store_rel_def numbered_def by (simp add: last_conv_nth)
  with True show ?thesis by (cases "ms_events ms") (auto simp: first_sequence_def)
next
  case False
  with assms show ?thesis by (auto simp: first_sequence_def store_rel_def)
qed

lemma number_loop_append_loop:
  "number_loop clock sid op specs app (int (length events)) =
    (fst (append_loop clock sid op specs app events), int (length (snd (append_loop clock sid op specs app events))))"
proof (induction specs arbitrary: app events)
  case (Cons spec specs)
  have "number_loop clock sid op specs (app @ [e]) (int (length events) + 1) =
     (fst (append_loop clock sid op specs (app @ [e]) (events @ [e])),
      int (length (snd (append_loop clock sid op specs (app @ [e]) (events @ [e])))))" for e
    using Cons.IH[of "app @ [e]" "events @ [e]"] by (simp add: add.commute)
  then show ?case by (simp split: sum.splits)
qed simp

lemma storable_batch:
  assumes "clean_specs sid op specs" "sid \<noteq> []" "op \<noteq> []" "validate_batch specs = Inr ()"
  shows "list_all storable (batch_events clock sid op n specs)"
proof -
  have "list_all (\<lambda>p. fst p \<noteq> []) specs" using assms(4) by (simp add: validate_batch_def exc_simps)
  with assms(1-3) show ?thesis
    by (induction specs arbitrary: n) (simp_all add: clean_specs_def storable_def event_post_init_def)
qed

lemma file_text_append: "file_text H (es @ fs) = file_text H es @ file_text H fs"
  by (simp add: file_text_def)

text \<open>The storing half of an append, shared by the plain and the fenced call.\<close>

lemma store_batch_simulated:
  assumes "store_rel H js ms" "clean_specs sid op specs" "validate_batch specs = Inr ()"
  shows "fst (jsonl_store_batch H clock sid op specs (ms_events ms) js) = fst (append_loop clock sid op specs [] (ms_events ms))"
    and "store_rel H (snd (jsonl_store_batch H clock sid op specs (ms_events ms) js))
      (ms\<lparr>ms_events := snd (append_loop clock sid op specs [] (ms_events ms))\<rparr>)"
proof -
  obtain r ev where l: "append_loop clock sid op specs [] (ms_events ms) = (r, ev)" by fastforce
  then have n: "number_loop clock sid op specs [] (first_sequence (ms_events ms) js) = (r, int (length ev))"
    using number_loop_append_loop[of clock sid op specs "[]" "ms_events ms"] by (simp add: store_rel_sequence[OF assms(1)])
  show "fst (jsonl_store_batch H clock sid op specs (ms_events ms) js) = fst (append_loop clock sid op specs [] (ms_events ms))"
    by (simp add: jsonl_store_batch_def n l split: sum.splits)
  from l assms(3) show "store_rel H (snd (jsonl_store_batch H clock sid op specs (ms_events ms) js))
      (ms\<lparr>ms_events := snd (append_loop clock sid op specs [] (ms_events ms))\<rparr>)"
  proof (cases rule: append_loop_cases)
    case (refused f)
    with assms(1) l n show ?thesis by (auto simp: jsonl_store_batch_def store_rel_def)
  next
    case stored
    with storable_batch[OF assms(2) stored(1,2) assms(3), of clock "length (ms_events ms)"] assms(1) l n
    show ?thesis
      by (auto simp: jsonl_store_batch_def store_rel_def append_many_sync_def numbered_batch file_text_append file_text_def[symmetric])
        (simp_all add: file_text_def)
  qed
qed

lemma append_batch_simulated:
  assumes "store_rel H js ms" "clean_specs sid op specs"
  shows "fst (jsonl_append_batch H clock wall sid op specs expected deadline js) =
      fst (memory_append_batch H clock wall sid op specs expected deadline ms) \<and>
    store_rel H (snd (jsonl_append_batch H clock wall sid op specs expected deadline js))
      (snd (memory_append_batch H clock wall sid op specs expected deadline ms))"
proof (cases "bindE (validate_batch specs) (\<lambda>_. append_checks H wall (ms_events ms) sid op specs expected deadline)")
  case (Inl f)
  with assms(1) show ?thesis
    by (auto simp: jsonl_append_batch_def memory_append_batch_def store_rel_load[OF assms(1)] exc_simps)
next
  case (Inr u)
  then have ok: "validate_batch specs = Inr ()" "append_checks H wall (ms_events ms) sid op specs expected deadline = Inr ()"
    by (auto simp: exc_simps)
  with store_batch_simulated[OF assms ok(1), of clock] show ?thesis
    by (simp add: jsonl_append_batch_def memory_append_batch_def store_rel_load[OF assms(1)] case_prod_unfold)
qed

lemma append_simulated:
  assumes "store_rel H js ms" "clean_specs sid op [(ty, case data of None \<Rightarrow> [] | Some d \<Rightarrow> d)]"
  shows "fst (jsonl_append H clock wall ty sid op data js) = fst (memory_append H clock wall ty sid op data ms) \<and>
    store_rel H (snd (jsonl_append H clock wall ty sid op data js)) (snd (memory_append H clock wall ty sid op data ms))"
  using append_batch_simulated[OF assms, of clock wall None None]
  by (auto simp: jsonl_append_def memory_append_def case_prod_unfold split: sum.splits list.splits)

lemma fenced_append_simulated:
  assumes "store_rel H js ms" "clean_specs sid op specs"
  shows "fst (jsonl_append_batch_if_fenced_claim H clock wall now sid op specs lease secs expected deadline entity js) =
      fst (memory_append_batch_if_fenced_claim H clock wall now sid op specs lease secs expected deadline entity ms) \<and>
    store_rel H (snd (jsonl_append_batch_if_fenced_claim H clock wall now sid op specs lease secs expected deadline entity js))
      (snd (memory_append_batch_if_fenced_claim H clock wall now sid op specs lease secs expected deadline entity ms))"
proof -
  have cl: "js_claims js = ms_claims ms" using assms(1) by (simp add: store_rel_def)
  show ?thesis
  proof (cases "bindE (fenced_call_checks H specs lease secs sid op entity) (\<lambda>_.
      bindE (guardE (lease_current (ms_claims ms) lease now) (Raised SfClaimLost)) (\<lambda>_.
      append_checks H wall (ms_events ms) sid op specs expected deadline))")
    case (Inl f)
    with assms(1) show ?thesis
      by (auto simp: jsonl_append_batch_if_fenced_claim_def memory_append_batch_if_fenced_claim_def
          store_rel_load[OF assms(1)] cl exc_simps)
  next
    case (Inr u)
    then have ok: "validate_batch specs = Inr ()" by (auto simp: fenced_call_checks_def exc_simps)
    let ?j = "jsonl_store_batch H clock sid op specs (ms_events ms) js"
    have claims: "js_claims (snd ?j) = ms_claims ms"
      by (simp add: jsonl_store_batch_def append_many_sync_def cl split: prod.splits sum.splits)
    from Inr have chk: "bindE (fenced_call_checks H specs lease secs sid op entity) (\<lambda>_.
        bindE (guardE (lease_current (js_claims js) lease now) (Raised SfClaimLost)) (\<lambda>_.
        bindE (load_sync H js) (\<lambda>existing.
        bindE (append_checks H wall existing sid op specs expected deadline) (\<lambda>_. Inr existing)))) = Inr (ms_events ms)"
      by (auto simp: store_rel_load[OF assms(1)] cl exc_simps)
    from store_batch_simulated[OF assms ok, of clock] Inr chk claims show ?thesis
      unfolding jsonl_append_batch_if_fenced_claim_def memory_append_batch_if_fenced_claim_def
      by (auto simp: case_prod_unfold store_rel_def split: sum.splits)
  qed
qed

lemma claims_simulated:
  "store_rel H js ms \<Longrightarrow> store_rel H (js\<lparr>js_claims := cs\<rparr>) (ms\<lparr>ms_claims := cs\<rparr>)"
  "store_rel H js ms \<Longrightarrow> js_claims js = ms_claims ms"
  by (simp_all add: store_rel_def)

lemmas claim_call_defs = memory_try_acquire_claim_def jsonl_try_acquire_claim_def memory_release_claim_def
  jsonl_release_claim_def memory_acquire_fenced_claim_def jsonl_acquire_fenced_claim_def
  memory_renew_fenced_claim_def jsonl_renew_fenced_claim_def memory_verify_fenced_claim_def jsonl_verify_fenced_claim_def
  memory_release_fenced_claim_def jsonl_release_fenced_claim_def

lemma call_simulated:
  assumes "store_rel H js ms" "clean_cmd c"
  shows "fst (jsonl_call H c js) = fst (memory_call H c ms) \<and> store_rel H (snd (jsonl_call H c js)) (snd (memory_call H c ms))"
proof (cases c)
  case (SAppend clock wall ty sid op data)
  with append_simulated[OF assms(1), of sid op ty data clock wall] assms(2) show ?thesis by (simp add: answer_def)
next
  case (SAppendBatch clock wall sid op specs expected deadline)
  with append_batch_simulated[OF assms(1), of sid op specs clock wall expected deadline] assms(2) show ?thesis by (simp add: answer_def)
next
  case (SAppendFenced clock wall now sid op specs lease secs expected deadline entity)
  with fenced_append_simulated[OF assms(1), of sid op specs clock wall now lease secs expected deadline entity] assms(2)
  show ?thesis by (simp add: answer_def)
next
  case (SLoad sid op)
  with assms(1) show ?thesis by (simp add: answer_def jsonl_load_def memory_load_def store_rel_load[OF assms(1)])
qed (use assms(1) claims_simulated(2)[OF assms(1)] in
  \<open>auto simp: answer_def claim_call_defs claims_simulated(1) split: sum.splits prod.splits option.splits\<close>)

interpretation jsonl_calls: call_simulation "jsonl_call H" "memory_call H" "store_rel H" clean_cmd for H
  by unfold_locales (rule call_simulated)

lemma store_rel_new: "store_rel H (new_jsonl_store None) empty_memory_store"
  by (simp add: store_rel_def new_jsonl_store_def empty_memory_store_def numbered_def)

text \<open>
  C14: the JSONL store refines the in-memory store. For every sequence of appends, fenced appends, loads and claim
  calls whose data hold no float and no unescaped Unicode line boundary, the two stores give the same
  answers, call by call: the same events with the same numbers, the same leases, the same faults.
\<close>

theorem jsonl_refines_memory:
  assumes "list_all clean_cmd cmds"
  shows "fst (run_calls (jsonl_call H) cmds (new_jsonl_store None)) = fst (run_calls (memory_call H) cmds empty_memory_store)"
  using jsonl_calls.calls_simulated[OF store_rel_new assms] by blast

definition sample_cmds :: "store_cmd list" where
  "sample_cmds = [SAppendBatch (\<lambda>_. 7) 0 ''s'' ''op'' one_event (Some (-1)) None, SLoad (Some ''s'') None,
     SAppendBatch (\<lambda>_. 7) 0 ''s'' ''op'' one_event (Some (-1)) None, SAcquireFenced 0 ''lock'' ''r'' ''me'' 5]"

theorem jsonl_refines_memory_witness:
  "fst (run_calls (jsonl_call log_host) sample_cmds (new_jsonl_store None)) = fst (run_calls (memory_call log_host) sample_cmds empty_memory_store) \<and>
   map isOk (fst (run_calls (memory_call log_host) sample_cmds empty_memory_store)) = [True, True, False, True]"
proof
  have "list_all clean_cmd sample_cmds" by code_simp
  then show "fst (run_calls (jsonl_call log_host) sample_cmds (new_jsonl_store None)) = fst (run_calls (memory_call log_host) sample_cmds empty_memory_store)"
    by (rule jsonl_refines_memory)
  show "map isOk (fst (run_calls (memory_call log_host) sample_cmds empty_memory_store)) = [True, True, False, True]"
    by code_simp
qed

section \<open>An unescaped line boundary\<close>

definition separator_specs :: "event_spec list" where
  "separator_specs = [(''operation_started'', [(''note'', JStr [CHR 0xE2, CHR 0x80, CHR 0xA8])])]"


end
