(* ===== verification/Claim_Scope.thy ===== *)
theory Claim_Scope
  imports Operation_Store
begin

text \<open>
  The scope of a fenced claim: the resource id that \<open>fenced_claim_resource_id\<close> builds is the
  canonical JSON text of the identity, so it determines the identity, and
  \<open>validate_fenced_claim_scope\<close> reads it back and accepts exactly the appends of that identity.
\<close>

definition scope_dict :: "string \<Rightarrow> string \<Rightarrow> string option \<Rightarrow> string option \<Rightarrow> jdict" where
  "scope_dict ty sid op ent = [(''claimType'', JStr ty), (''entityId'', opt_str ent), (''operationId'', opt_str op), (''sessionId'', JStr sid)]"

lemma opt_str_json [simp]: "canon (opt_str v) = opt_str v" "float_free (opt_str v)" "wf_json (opt_str v)"
  by (simp_all add: opt_str_def split: option.splits)

lemma opt_str_inject [simp]: "opt_str a = opt_str b \<longleftrightarrow> a = b" "opt_str a = JStr s \<longleftrightarrow> a = Some s"
  by (auto simp: opt_str_def split: option.splits)

lemma canon_scope: "canon (JObj (scope_dict ty sid op ent)) = JObj (scope_dict ty sid op ent)"
  by (simp add: scope_dict_def less_char_def)

lemma loads_scope: "json_loads H (json_dumps H True (JObj (scope_dict ty sid op ent))) = Some (JObj (scope_dict ty sid op ent))"
  unfolding json_dumps_canon canon_scope by (rule json_loads_dumps) (simp_all add: scope_dict_def)

lemma resource_id_scope:
  "fenced_claim_resource_id H ty sid op ent = Inr rid \<longleftrightarrow>
     ty \<in> set operation_claim_types \<and> sid \<noteq> [] \<and> (ty = ''plan_execution'' \<or> \<not> opt_blank op) \<and>
     (ty \<in> set entity_claim_types \<longrightarrow> \<not> opt_blank ent) \<and> rid = json_dumps H True (JObj (scope_dict ty sid op ent))"
  unfolding fenced_claim_resource_id_def scope_dict_def[symmetric] bindE_eq_Inr guardE_eq_Inr by auto

text \<open>
  Two identities never share a claim row. The resource id determines the claim type, the session, the operation
  and the entity it was built from.
\<close>

theorem claim_resource_id_injective:
  assumes "fenced_claim_resource_id H ty sid op ent = Inr rid" "fenced_claim_resource_id H ty' sid' op' ent' = Inr rid"
  shows "ty' = ty \<and> sid' = sid \<and> op' = op \<and> ent' = ent"
proof -
  have "Some (JObj (scope_dict ty sid op ent)) = Some (JObj (scope_dict ty' sid' op' ent'))"
    using assms loads_scope[of H] unfolding resource_id_scope by metis
  then show ?thesis by (simp add: scope_dict_def)
qed

text \<open>
  A fenced append is accepted by the scope check exactly for the identity of its lease. For a lease whose
  resource id was built for a session, an operation and an entity, the check passes for the same session,
  for the same operation (a plan lease covers every operation of its session), and for the same entity
  (a recovery lease names none), and for nothing else.
\<close>

theorem claim_scope_exact:
  assumes "fenced_claim_resource_id H (cl_claim_type lease) sid op ent = Inr (cl_resource_id lease)"
  shows "validate_fenced_claim_scope H lease sid' op' ent' = Inr () \<longleftrightarrow>
    sid' = sid \<and> (cl_claim_type lease = ''plan_execution'' \<or> op = Some op') \<and>
    (cl_claim_type lease = ''operation_recovery'' \<or> ent' = ent)"
proof -
  let ?ty = "cl_claim_type lease"
  have ty: "?ty \<in> set operation_claim_types" and ent: "?ty \<in> set entity_claim_types \<longrightarrow> \<not> opt_blank ent"
    and rid: "cl_resource_id lease = json_dumps H True (JObj (scope_dict ?ty sid op ent))"
    using assms unfolding resource_id_scope by blast+
  have load: "json_loads H (cl_resource_id lease) = Some (JObj (scope_dict ?ty sid op ent))"
    unfolding rid by (rule loads_scope)
  have "?ty \<noteq> ''conversation_session_writer''" using ty by (auto simp: operation_claim_types_def)
  moreover have "?ty \<in> set entity_claim_types \<longleftrightarrow> ?ty \<noteq> ''operation_recovery''"
    using ty by (auto simp: operation_claim_types_def entity_claim_types_def)
  ultimately show ?thesis using ty ent
    by (auto simp: validate_fenced_claim_scope_def load scope_dict_def jget_def exc_simps)
qed

definition scope_host :: host where
  "scope_host = \<lparr>sha256_hex = id, repr_of = \<lambda>_. [], read_float = \<lambda>_. FNan\<rparr>"

definition sample_claim :: claim_lease where
  "sample_claim = \<lparr>cl_claim_type = ''write_reconcile'', cl_resource_id =
     json_dumps scope_host True (JObj (scope_dict ''write_reconcile'' ''s'' (Some ''op'') (Some ''w''))),
     cl_owner_token = ''me'', cl_generation = 1\<rparr>"

theorem claim_resource_id_injective_witness:
  "(\<exists>rid. fenced_claim_resource_id scope_host ''write_reconcile'' ''s'' (Some ''op'') (Some ''w'') = Inr rid \<and>
     (\<forall>ent. ent \<noteq> Some ''w'' \<longrightarrow>
       fenced_claim_resource_id scope_host ''write_reconcile'' ''s'' (Some ''op'') ent \<noteq> Inr rid))"
proof -
  have "isOk (fenced_claim_resource_id scope_host ''write_reconcile'' ''s'' (Some ''op'') (Some ''w''))"
    by code_simp
  then obtain rid where rid: "fenced_claim_resource_id scope_host ''write_reconcile'' ''s'' (Some ''op'') (Some ''w'') = Inr rid"
    unfolding isOk_iff by blast
  from claim_resource_id_injective[OF this] have "ent = Some ''w''"
    if "fenced_claim_resource_id scope_host ''write_reconcile'' ''s'' (Some ''op'') ent = Inr rid" for ent
    using that by blast
  with rid show ?thesis by blast
qed

theorem claim_scope_exact_witness:
  "validate_fenced_claim_scope scope_host sample_claim ''s'' ''op'' (Some ''w'') = Inr () \<and>
   validate_fenced_claim_scope scope_host sample_claim ''s'' ''op'' (Some ''v'') \<noteq> Inr ()"
proof -
  have "fenced_claim_resource_id scope_host (cl_claim_type sample_claim) ''s'' (Some ''op'') (Some ''w'') = Inr (cl_resource_id sample_claim)"
    unfolding resource_id_scope by (simp add: sample_claim_def operation_claim_types_def opt_blank_def)
  from claim_scope_exact[OF this] show ?thesis by (simp add: sample_claim_def)
qed

end
