(* ===== verification/Plan_Types.thy ===== *)
theory Plan_Types
  imports Durable_Action
begin

text \<open>
  The value objects of multi-intent plans (\<open>planning/types.py\<close>): references into results, argument
  bindings, conditions, result and parameter contracts, trusted intent policies, steps, plans, approval
  receipts, events and the state of an execution, with the checks of their constructors. Every
  refusal of the component is a \<open>PlanValidationError\<close>; \<open>plan_fault\<close> tells which check it was.
  A JSON path is the list of its parts.
\<close>

section \<open>Faults and shared checks\<close>

datatype plan_fault =
    PfNonEmpty | PfJsonPath | PfOperator | PfComparison | PfStrictJson | PfUniqueTexts | PfRoles | PfSha256
  | PfTimestamp | PfField | PfContract | PfPolicy | PfStepInvalid | PfPlanInvalid | PfReceipt
  | PfUnknownDependency | PfCycle | PfCatalog | PfUnknownIntent | PfOverridesPolicy | PfEmptyParameters
  | PfDataflow | PfMissingPredecessor | PfUnordered | PfSourceStep
  | PfEventInvalid | PfSequence | PfTransition | PfSnapshot | PfStateIdentity | PfCoherence

type_synonym 'a plan_result = "(plan_fault, 'a) result"

definition pl_non_empty :: "string \<Rightarrow> unit plan_result" where
  "pl_non_empty s = guardE (py_strip s \<noteq> []) (Raised PfNonEmpty)"

definition pl_strict_json :: "json \<Rightarrow> unit plan_result" where
  "pl_strict_json v = guardE (finite_json v) (Raised PfStrictJson)"

definition pl_text :: "json \<Rightarrow> string plan_result" where
  "pl_text v = (case v of JStr s \<Rightarrow> if py_strip s = [] then Inl (Raised PfField) else Inr s | _ \<Rightarrow> Inl (Raised PfField))"

definition pl_integer :: "json \<Rightarrow> int plan_result" where
  "pl_integer v = (case v of JInt i \<Rightarrow> Inr i | _ \<Rightarrow> Inl (Raised PfField))"

definition is_hex :: "char \<Rightarrow> bool" where
  "is_hex c \<longleftrightarrow> (let n = of_char c :: nat in (48 \<le> n \<and> n \<le> 57) \<or> (97 \<le> n \<and> n \<le> 102) \<or> (65 \<le> n \<and> n \<le> 70))"

definition is_sha256 :: "string \<Rightarrow> bool" where
  "is_sha256 s \<longleftrightarrow> length s = 64 \<and> list_all is_hex s"

text \<open>\<open>float(i)\<close>: the nearest double, ties to even; an integer that is too large raises \<open>OverflowError\<close>.\<close>

fun bit_length :: "nat \<Rightarrow> nat" where
  "bit_length n = (if n = 0 then 0 else Suc (bit_length (n div 2)))"

declare bit_length.simps [simp del]

definition round_double :: "nat \<Rightarrow> nat" where
  "round_double n = (let e = bit_length n - 53; q = n div 2 ^ e; r = n mod 2 ^ e in
     if 2 * r < 2 ^ e \<or> (2 * r = 2 ^ e \<and> even q) then q * 2 ^ e else (q + 1) * 2 ^ e)"

definition py_float_int :: "int \<Rightarrow> ('f, pyfloat) result" where
  "py_float_int i = (let m = round_double (nat \<bar>i\<bar>) in
     if bit_length m > 1024 then Inl (Builtin OverflowErr) else Inr (FFin (rat_of_int (sgn i * int m))))"

text \<open>\<open>_finite_timestamp\<close> and \<open>_required_timestamp\<close>: a finite number that is not a bool, as a float.\<close>

definition pl_timestamp :: "json \<Rightarrow> rat plan_result" where
  "pl_timestamp v = (case v of
      JInt i \<Rightarrow> bindE (py_float_int i) (\<lambda>f. case f of FFin q \<Rightarrow> Inr q | _ \<Rightarrow> Inl (Raised PfTimestamp))
    | JFloat (FFin q) \<Rightarrow> Inr q
    | _ \<Rightarrow> Inl (Raised PfTimestamp))"

text \<open>\<open>_validate_json_path\<close>.\<close>

definition validate_json_path :: "json list \<Rightarrow> unit plan_result" where
  "validate_json_path path = guardE (list_all (\<lambda>part. case part of
      JStr s \<Rightarrow> s \<noteq> [] | JInt i \<Rightarrow> 0 \<le> i | _ \<Rightarrow> False) path) (Raised PfJsonPath)"

definition comparison_operators :: "string list" where
  "comparison_operators = [''eq'', ''ne'', ''gt'', ''gte'', ''lt'', ''lte'', ''in'', ''not_in'', ''truthy'', ''falsy'']"

text \<open>\<open>_validate_comparison\<close>; \<open>has_from\<close> tells whether \<open>expected_from\<close> is given.\<close>

definition validate_comparison :: "string \<Rightarrow> json \<Rightarrow> bool \<Rightarrow> unit plan_result" where
  "validate_comparison operator expected has_from =
     bindE (guardE (operator \<in> set comparison_operators) (Raised PfOperator)) (\<lambda>_.
     bindE (guardE (\<not> (has_from \<and> expected \<noteq> JNull)) (Raised PfComparison)) (\<lambda>_.
     bindE (guardE (\<not> (operator \<in> {''truthy'', ''falsy''} \<and> (expected \<noteq> JNull \<or> has_from))) (Raised PfComparison)) (\<lambda>_.
     bindE (guardE (\<not> (operator \<in> {''in'', ''not_in''} \<and> \<not> has_from \<and> (case expected of JList _ \<Rightarrow> False | _ \<Rightarrow> True))) (Raised PfComparison)) (\<lambda>_.
     pl_strict_json expected))))"

definition validate_unique_texts :: "string list \<Rightarrow> unit plan_result" where
  "validate_unique_texts values =
     bindE (guardE (list_all (\<lambda>v. py_strip v \<noteq> []) values) (Raised PfUniqueTexts)) (\<lambda>_.
     guardE (distinct values) (Raised PfUniqueTexts))"

definition validate_approval_roles :: "string list \<Rightarrow> bool \<Rightarrow> unit plan_result" where
  "validate_approval_roles roles requires_approval =
     bindE (guardE (list_all (\<lambda>r. py_strip r \<noteq> []) roles) (Raised PfRoles)) (\<lambda>_.
     bindE (guardE (distinct roles) (Raised PfRoles)) (\<lambda>_.
     bindE (guardE (\<not> (requires_approval \<and> roles = [])) (Raised PfRoles)) (\<lambda>_.
     guardE (\<not> (\<not> requires_approval \<and> roles \<noteq> [])) (Raised PfRoles))))"

section \<open>References, bindings, conditions and contracts\<close>

record result_reference =
  rr_step_id :: string
  rr_path :: "json list"

record intent_reference =
  ir_intent :: string
  ir_path :: "json list"

record argument_binding =
  ab_target :: string
  ab_source :: result_reference

record intent_binding =
  ib_target :: string
  ib_source :: intent_reference

record plan_condition =
  pc_left :: result_reference
  pc_operator :: string
  pc_expected :: json
  pc_expected_from :: "result_reference option"

record intent_condition =
  ic_left :: intent_reference
  ic_operator :: string
  ic_expected :: json
  ic_expected_from :: "intent_reference option"

record result_rule =
  ru_path :: "json list"
  ru_operator :: string
  ru_expected :: json

record parameter_contract =
  pa_required :: "(string \<times> string list) list"
  pa_optional :: "(string \<times> string list) list"
  pa_allow_empty :: bool

definition result_reference_post_init :: "result_reference \<Rightarrow> result_reference plan_result" where
  "result_reference_post_init r =
     bindE (pl_non_empty (rr_step_id r)) (\<lambda>_. bindE (validate_json_path (rr_path r)) (\<lambda>_. Inr r))"

definition argument_binding_post_init :: "argument_binding \<Rightarrow> argument_binding plan_result" where
  "argument_binding_post_init b = bindE (pl_non_empty (ab_target b)) (\<lambda>_. Inr b)"

definition plan_condition_post_init :: "plan_condition \<Rightarrow> plan_condition plan_result" where
  "plan_condition_post_init c =
     bindE (validate_comparison (pc_operator c) (pc_expected c) (pc_expected_from c \<noteq> None)) (\<lambda>_. Inr c)"

definition result_reference_to_dict :: "result_reference \<Rightarrow> json" where
  "result_reference_to_dict r = JObj [(''stepId'', JStr (rr_step_id r)), (''path'', JList (rr_path r))]"

definition argument_binding_to_dict :: "argument_binding \<Rightarrow> json" where
  "argument_binding_to_dict b = JObj [(''target'', JStr (ab_target b)), (''source'', result_reference_to_dict (ab_source b))]"

definition plan_condition_to_dict :: "plan_condition \<Rightarrow> json" where
  "plan_condition_to_dict c = JObj [(''left'', result_reference_to_dict (pc_left c)), (''operator'', JStr (pc_operator c)),
     (''expected'', pc_expected c),
     (''expectedFrom'', case pc_expected_from c of None \<Rightarrow> JNull | Some r \<Rightarrow> result_reference_to_dict r)]"

definition result_rule_to_dict :: "result_rule \<Rightarrow> json" where
  "result_rule_to_dict r = JObj [(''path'', JList (ru_path r)), (''operator'', JStr (ru_operator r)), (''expected'', ru_expected r)]"

definition result_contract_to_dict :: "result_rule list \<Rightarrow> json" where
  "result_contract_to_dict rules = JObj [(''rules'', JList (map result_rule_to_dict rules))]"

definition parameter_fields_to_dict :: "(string \<times> string list) list \<Rightarrow> json" where
  "parameter_fields_to_dict bound = JObj (map (\<lambda>(name, types).
     (name, if length types = 1 then JStr (hd types) else JList (map JStr types))) bound)"

definition parameter_contract_to_dict :: "parameter_contract \<Rightarrow> json" where
  "parameter_contract_to_dict c = JObj [(''required'', parameter_fields_to_dict (pa_required c)),
     (''optional'', parameter_fields_to_dict (pa_optional c)), (''allowEmpty'', JBool (pa_allow_empty c))]"

text \<open>
  Python's \<open>==\<close> on JSON values: bools, ints and floats compare as numbers, dicts regardless of
  the order of their keys.
\<close>

fun py_number :: "json \<Rightarrow> pyfloat option" where
  "py_number (JBool b) = Some (FFin (if b then 1 else 0))"
| "py_number (JInt i) = Some (FFin (rat_of_int i))"
| "py_number (JFloat f) = Some f"
| "py_number _ = None"

fun py_json_eq :: "json \<Rightarrow> json \<Rightarrow> bool" where
  "py_json_eq JNull w = (w = JNull)"
| "py_json_eq (JStr s) w = (w = JStr s)"
| "py_json_eq (JList xs) w = (case w of
     JList ys \<Rightarrow> length xs = length ys \<and> list_all (\<lambda>(x, y). py_json_eq x y) (zip xs ys) | _ \<Rightarrow> False)"
| "py_json_eq (JObj d) w = (case w of
     JObj e \<Rightarrow> set (map fst d) = set (map fst e) \<and>
       list_all (\<lambda>(k, v). case map_of e k of None \<Rightarrow> False | Some u \<Rightarrow> py_json_eq v u) d | _ \<Rightarrow> False)"
| "py_json_eq v w = (case (py_number v, py_number w) of (Some a, Some b) \<Rightarrow> float_eq a b | _ \<Rightarrow> False)"

definition condition_eq :: "plan_condition \<Rightarrow> plan_condition \<Rightarrow> bool" where
  "condition_eq a b \<longleftrightarrow> pc_left a = pc_left b \<and> pc_operator a = pc_operator b \<and>
     py_json_eq (pc_expected a) (pc_expected b) \<and> pc_expected_from a = pc_expected_from b"

definition rule_eq :: "result_rule \<Rightarrow> result_rule \<Rightarrow> bool" where
  "rule_eq a b \<longleftrightarrow> ru_path a = ru_path b \<and> ru_operator a = ru_operator b \<and> py_json_eq (ru_expected a) (ru_expected b)"

definition contract_eq :: "result_rule list option \<Rightarrow> result_rule list option \<Rightarrow> bool" where
  "contract_eq a b = (case (a, b) of (None, None) \<Rightarrow> True | (Some x, Some y) \<Rightarrow> list_all2 rule_eq x y | _ \<Rightarrow> False)"

section \<open>Parameter contracts\<close>

definition matches_parameter_type :: "json \<Rightarrow> string \<Rightarrow> bool plan_result" where
  "matches_parameter_type v expected =
     (if expected = ''string'' then Inr (case v of JStr _ \<Rightarrow> True | _ \<Rightarrow> False)
      else if expected = ''integer'' then Inr (case v of JInt _ \<Rightarrow> True | _ \<Rightarrow> False)
      else if expected = ''number'' then (case v of
          JInt i \<Rightarrow> bindE (py_float_int i) (\<lambda>f. Inr (isfinite f))
        | JFloat f \<Rightarrow> Inr (isfinite f) | _ \<Rightarrow> Inr False)
      else if expected = ''boolean'' then Inr (case v of JBool _ \<Rightarrow> True | _ \<Rightarrow> False)
      else if expected = ''object'' then Inr (case v of JObj _ \<Rightarrow> True | _ \<Rightarrow> False)
      else if expected = ''array'' then Inr (case v of JList _ \<Rightarrow> True | _ \<Rightarrow> False)
      else Inr (v = JNull))"

fun matches_any :: "json \<Rightarrow> string list \<Rightarrow> bool plan_result" where
  "matches_any v [] = Inr False"
| "matches_any v (t # ts) = bindE (matches_parameter_type v t) (\<lambda>b. if b then Inr True else matches_any v ts)"

definition pa_declarations :: "parameter_contract \<Rightarrow> (string, string list) dict" where
  "pa_declarations c = fold (\<lambda>(k, v) d. dset d k v) (pa_required c @ pa_optional c) []"

text \<open>The loop over the literal arguments; a field without a declaration was refused before it.\<close>

definition check_argument_types :: "parameter_contract \<Rightarrow> jdict \<Rightarrow> unit plan_result" where
  "check_argument_types c arguments = foldE (\<lambda>(name, value) _.
     bindE (matches_any value (case map_of (pa_declarations c) name of None \<Rightarrow> [] | Some ts \<Rightarrow> ts)) (\<lambda>b.
     guardE b (Raised PfContract))) arguments ()"

definition contract_validate :: "parameter_contract \<Rightarrow> jdict \<Rightarrow> bool \<Rightarrow> unit plan_result" where
  "contract_validate c arguments require_non_empty =
     bindE (guardE (list_all (\<lambda>n. py_strip n \<noteq> []) (dkeys arguments)) (Raised PfContract)) (\<lambda>_.
     bindE (guardE (list_all (\<lambda>n. n \<in> set (dkeys arguments)) (dkeys (pa_required c))) (Raised PfContract)) (\<lambda>_.
     bindE (guardE (list_all (\<lambda>n. n \<in> set (dkeys (pa_required c)) \<or> n \<in> set (dkeys (pa_optional c))) (dkeys arguments)) (Raised PfContract)) (\<lambda>_.
     bindE (guardE (\<not> (require_non_empty \<and> arguments = [] \<and> \<not> pa_allow_empty c)) (Raised PfContract)) (\<lambda>_.
     check_argument_types c arguments))))"

definition validate_unresolved :: "parameter_contract \<Rightarrow> jdict \<Rightarrow> string list \<Rightarrow> bool \<Rightarrow> unit plan_result" where
  "validate_unresolved c arguments bound require_non_empty =
     bindE (guardE (list_all (\<lambda>n. py_strip n \<noteq> []) bound) (Raised PfContract)) (\<lambda>_.
     bindE (guardE (distinct bound) (Raised PfContract)) (\<lambda>_.
     bindE (guardE (list_all (\<lambda>n. n \<notin> set bound) (dkeys arguments)) (Raised PfContract)) (\<lambda>_.
     bindE (guardE (list_all (\<lambda>n. n \<in> set (dkeys arguments @ bound)) (dkeys (pa_required c))) (Raised PfContract)) (\<lambda>_.
     bindE (guardE (list_all (\<lambda>n. n \<in> set (dkeys (pa_declarations c))) (dkeys arguments @ bound)) (Raised PfContract)) (\<lambda>_.
     bindE (guardE (\<not> (require_non_empty \<and> dkeys arguments @ bound = [] \<and> \<not> pa_allow_empty c)) (Raised PfContract)) (\<lambda>_.
     check_argument_types c arguments))))))"

section \<open>Policies, steps and plans\<close>

record intent_policy =
  po_intent :: string
  po_requires_approval :: bool
  po_write :: bool
  po_replay_policy :: string
  po_capabilities :: "string list"
  po_approval_roles :: "string list"
  po_parameter_contract :: "parameter_contract option"
  po_required_predecessor_intents :: "string list"
  po_argument_bindings :: "intent_binding list"
  po_preconditions :: "intent_condition list"
  po_allow_parallel_side_effects :: bool
  po_result_contract :: "result_rule list option"

record plan_step =
  ps_step_id :: string
  ps_intent :: string
  ps_arguments :: jdict
  ps_depends_on :: "string list"
  ps_requires_approval :: bool
  ps_write :: bool
  ps_replay_policy :: string
  ps_capabilities :: "string list"
  ps_approval_roles :: "string list"
  ps_parameter_contract :: "parameter_contract option"
  ps_required_predecessor_intents :: "string list"
  ps_argument_bindings :: "argument_binding list"
  ps_preconditions :: "plan_condition list"
  ps_allow_parallel_side_effects :: bool
  ps_result_contract :: "result_rule list option"
  ps_execution_action_hash :: "string option"

record multi_intent_plan =
  mp_request :: string
  mp_steps :: "plan_step list"
  mp_plan_id :: string
  mp_schema_version :: int

definition intent_policy_post_init :: "intent_policy \<Rightarrow> intent_policy plan_result" where
  "intent_policy_post_init p =
     bindE (pl_non_empty (po_intent p)) (\<lambda>_.
     bindE (guardE (po_replay_policy p \<in> {''safe'', ''never''}) (Raised PfPolicy)) (\<lambda>_.
     bindE (guardE (\<not> (po_write p \<and> po_replay_policy p \<noteq> ''never'')) (Raised PfPolicy)) (\<lambda>_.
     bindE (guardE (\<not> (po_write p \<and> \<not> po_requires_approval p)) (Raised PfPolicy)) (\<lambda>_.
     bindE (guardE (list_all (\<lambda>c. py_strip c \<noteq> []) (po_capabilities p)) (Raised PfPolicy)) (\<lambda>_.
     bindE (validate_approval_roles (po_approval_roles p) (po_requires_approval p)) (\<lambda>_.
     bindE (validate_unique_texts (po_required_predecessor_intents p)) (\<lambda>_.
     bindE (guardE (distinct (map ib_target (po_argument_bindings p))) (Raised PfPolicy)) (\<lambda>_.
     bindE (guardE (\<not> (po_allow_parallel_side_effects p \<and> \<not> (po_write p \<or> po_replay_policy p = ''never''))) (Raised PfPolicy)) (\<lambda>_.
     Inr p)))))))))"

definition plan_step_post_init :: "plan_step \<Rightarrow> plan_step plan_result" where
  "plan_step_post_init s =
     bindE (pl_non_empty (ps_step_id s)) (\<lambda>_.
     bindE (pl_non_empty (ps_intent s)) (\<lambda>_.
     bindE (guardE (ps_step_id s \<notin> set (ps_depends_on s)) (Raised PfStepInvalid)) (\<lambda>_.
     bindE (guardE (distinct (ps_depends_on s)) (Raised PfStepInvalid)) (\<lambda>_.
     bindE (guardE (ps_replay_policy s \<in> {''safe'', ''never''}) (Raised PfStepInvalid)) (\<lambda>_.
     bindE (guardE (\<not> (ps_write s \<and> ps_replay_policy s \<noteq> ''never'')) (Raised PfStepInvalid)) (\<lambda>_.
     bindE (guardE (\<not> (ps_write s \<and> \<not> ps_requires_approval s)) (Raised PfStepInvalid)) (\<lambda>_.
     bindE (validate_approval_roles (ps_approval_roles s) (ps_requires_approval s)) (\<lambda>_.
     bindE (validate_unique_texts (ps_required_predecessor_intents s)) (\<lambda>_.
     bindE (guardE (distinct (map ab_target (ps_argument_bindings s))) (Raised PfStepInvalid)) (\<lambda>_.
     bindE (guardE (list_all (\<lambda>b. ab_target b \<notin> set (dkeys (ps_arguments s))) (ps_argument_bindings s)) (Raised PfStepInvalid)) (\<lambda>_.
     bindE (guardE (\<not> (ps_allow_parallel_side_effects s \<and> \<not> (ps_write s \<or> ps_replay_policy s = ''never''))) (Raised PfStepInvalid)) (\<lambda>_.
     bindE (case ps_execution_action_hash s of None \<Rightarrow> Inr () | Some h \<Rightarrow> guardE (is_sha256 h) (Raised PfSha256)) (\<lambda>_.
     bindE (pl_strict_json (JObj (ps_arguments s))) (\<lambda>_. Inr s))))))))))))))"

definition multi_intent_plan_post_init :: "multi_intent_plan \<Rightarrow> multi_intent_plan plan_result" where
  "multi_intent_plan_post_init p =
     bindE (pl_non_empty (mp_plan_id p)) (\<lambda>_.
     bindE (pl_non_empty (mp_request p)) (\<lambda>_.
     bindE (guardE (mp_schema_version p = 1) (Raised PfPlanInvalid)) (\<lambda>_.
     bindE (guardE (mp_steps p \<noteq> []) (Raised PfPlanInvalid)) (\<lambda>_.
     bindE (guardE (distinct (map ps_step_id (mp_steps p))) (Raised PfPlanInvalid)) (\<lambda>_. Inr p)))))"

definition plan_find_step :: "multi_intent_plan \<Rightarrow> string \<Rightarrow> plan_step plan_result" where
  "plan_find_step p sid = (case find (\<lambda>s. ps_step_id s = sid) (mp_steps p) of
     None \<Rightarrow> Inl (Builtin KeyErr) | Some s \<Rightarrow> Inr s)"

definition step_action_value :: "plan_step \<Rightarrow> jdict" where
  "step_action_value s =
     [(''stepId'', JStr (ps_step_id s)), (''intent'', JStr (ps_intent s)), (''arguments'', JObj (ps_arguments s)),
      (''dependencies'', JList (map JStr (ps_depends_on s))), (''requiresApproval'', JBool (ps_requires_approval s)),
      (''write'', JBool (ps_write s)), (''replayPolicy'', JStr (ps_replay_policy s)),
      (''capabilities'', JList (map JStr (ps_capabilities s)))] @
     (if ps_approval_roles s = [] then [] else [(''approvalRoles'', JList (map JStr (ps_approval_roles s)))]) @
     (case ps_parameter_contract s of None \<Rightarrow> [] | Some c \<Rightarrow> [(''parameterContract'', parameter_contract_to_dict c)]) @
     (if ps_required_predecessor_intents s = [] then []
      else [(''requiredPredecessorIntents'', JList (map JStr (ps_required_predecessor_intents s)))]) @
     (if ps_argument_bindings s = [] then []
      else [(''argumentBindings'', JList (map argument_binding_to_dict (ps_argument_bindings s)))]) @
     (if ps_preconditions s = [] then []
      else [(''preconditions'', JList (map plan_condition_to_dict (ps_preconditions s)))]) @
     (if ps_allow_parallel_side_effects s then [(''allowParallelSideEffects'', JBool True)] else []) @
     (case ps_result_contract s of None \<Rightarrow> [] | Some c \<Rightarrow> [(''resultContract'', result_contract_to_dict c)])"

text \<open>\<open>_digest\<close>; the arguments are strict JSON, so the encoder does not refuse a float.\<close>

definition pl_digest :: "host \<Rightarrow> json \<Rightarrow> string" where
  "pl_digest H v = sha256_hex H (json_dumps H True v)"

definition step_action_hash :: "host \<Rightarrow> plan_step \<Rightarrow> string" where
  "step_action_hash H s = (case ps_execution_action_hash s of
     Some h \<Rightarrow> h | None \<Rightarrow> pl_digest H (JObj (step_action_value s)))"

section \<open>Receipts, events and states\<close>

record approval_receipt =
  re_approval_id :: string
  re_receipt_id :: string
  re_plan_id :: string
  re_step_id :: string
  re_action_hash :: string
  re_state_version :: int
  re_approver_id :: string
  re_approver_roles :: "string list"
  re_approver_issuer :: string
  re_identity_verification_id :: string
  re_verification_id :: string
  re_issued_at :: rat
  re_expires_at :: rat
  re_consumed_at :: "rat option"

datatype plan_step_status = StPending | StWaitingApproval | StRunning | StSucceeded | StFailed | StSkipped
  | StNotApplicable | StManualIntervention

datatype validation_status = VsPassed | VsFailed

record plan_event =
  pe_sequence :: int
  pe_type :: string
  pe_step_id :: string
  pe_data :: jdict
  pe_schema_version :: int

record plan_step_state =
  ss_status :: plan_step_status
  ss_attempts :: int
  ss_approval_id :: "string option"
  ss_result :: json
  ss_error :: "string option"
  ss_approval_receipt :: "approval_receipt option"
  ss_validation_status :: "validation_status option"
  ss_approval_action_hash :: "string option"

record plan_execution_state =
  px_plan_id :: string
  px_steps :: "(string, plan_step_state) dict"
  px_version :: int

datatype plan_phase = PhPending | PhRunning | PhWaitingApproval | PhCompleted | PhFailed | PhManualIntervention

text \<open>The roles of a receipt are a \<open>frozenset\<close>: their list form is sorted and has no duplicates.\<close>

definition role_set :: "string list \<Rightarrow> string list" where
  "role_set roles = sort (remdups roles)"

definition receipt_post_init :: "approval_receipt \<Rightarrow> approval_receipt plan_result" where
  "receipt_post_init r =
     bindE (foldE (\<lambda>s _. pl_non_empty s) [re_approval_id r, re_receipt_id r, re_plan_id r, re_step_id r, re_action_hash r,
        re_approver_id r, re_approver_issuer r, re_identity_verification_id r, re_verification_id r] ()) (\<lambda>_.
     bindE (guardE (is_sha256 (re_action_hash r)) (Raised PfSha256)) (\<lambda>_.
     bindE (guardE (0 \<le> re_state_version r) (Raised PfReceipt)) (\<lambda>_.
     bindE (guardE (re_approver_roles r \<noteq> [] \<and> list_all (\<lambda>x. py_strip x \<noteq> []) (re_approver_roles r)) (Raised PfReceipt)) (\<lambda>_.
     bindE (guardE (re_issued_at r < re_expires_at r) (Raised PfReceipt)) (\<lambda>_.
     bindE (case re_consumed_at r of None \<Rightarrow> Inr ()
       | Some c \<Rightarrow> guardE (\<not> (c < re_issued_at r \<or> re_expires_at r < c)) (Raised PfReceipt)) (\<lambda>_.
     Inr (r\<lparr>re_approver_roles := role_set (re_approver_roles r)\<rparr>)))))))"

definition receipt_consumed :: "approval_receipt \<Rightarrow> rat \<Rightarrow> approval_receipt plan_result" where
  "receipt_consumed r t = receipt_post_init (r\<lparr>re_consumed_at := Some t\<rparr>)"

definition time_json :: "rat \<Rightarrow> json" where
  "time_json q = JFloat (FFin q)"

definition receipt_to_dict :: "approval_receipt \<Rightarrow> jdict" where
  "receipt_to_dict r =
     [(''approvalId'', JStr (re_approval_id r)), (''receiptId'', JStr (re_receipt_id r)), (''planId'', JStr (re_plan_id r)),
      (''stepId'', JStr (re_step_id r)), (''actionHash'', JStr (re_action_hash r)), (''stateVersion'', JInt (re_state_version r)),
      (''approverId'', JStr (re_approver_id r)), (''approverRoles'', JList (map JStr (re_approver_roles r))),
      (''approverIssuer'', JStr (re_approver_issuer r)), (''identityVerificationId'', JStr (re_identity_verification_id r)),
      (''verificationId'', JStr (re_verification_id r)), (''issuedAt'', time_json (re_issued_at r)),
      (''expiresAt'', time_json (re_expires_at r)),
      (''consumedAt'', case re_consumed_at r of None \<Rightarrow> JNull | Some q \<Rightarrow> time_json q)]"

definition receipt_fields :: "string list" where
  "receipt_fields = [''approvalId'', ''receiptId'', ''planId'', ''stepId'', ''actionHash'', ''stateVersion'', ''approverId'',
     ''approverRoles'', ''approverIssuer'', ''identityVerificationId'', ''verificationId'', ''issuedAt'', ''expiresAt'', ''consumedAt'']"

definition receipt_from_dict :: "jdict \<Rightarrow> approval_receipt plan_result" where
  "receipt_from_dict d =
     bindE (guardE (set (dkeys d) = set receipt_fields) (Raised PfReceipt)) (\<lambda>_.
     bindE (case jget d ''approverRoles'' of
         JList xs \<Rightarrow> mapE (\<lambda>x. case x of JStr s \<Rightarrow> if py_strip s = [] then Inl (Raised PfReceipt) else Inr s
                            | _ \<Rightarrow> Inl (Raised PfReceipt)) xs
       | _ \<Rightarrow> Inl (Raised PfReceipt)) (\<lambda>roles.
     bindE (pl_text (jget d ''approvalId'')) (\<lambda>approval_id.
     bindE (pl_text (jget d ''receiptId'')) (\<lambda>receipt_id.
     bindE (pl_text (jget d ''planId'')) (\<lambda>plan_id.
     bindE (pl_text (jget d ''stepId'')) (\<lambda>step_id.
     bindE (pl_text (jget d ''actionHash'')) (\<lambda>action_hash.
     bindE (pl_integer (jget d ''stateVersion'')) (\<lambda>state_version.
     bindE (pl_text (jget d ''approverId'')) (\<lambda>approver_id.
     bindE (pl_text (jget d ''approverIssuer'')) (\<lambda>approver_issuer.
     bindE (pl_text (jget d ''identityVerificationId'')) (\<lambda>identity_verification_id.
     bindE (pl_text (jget d ''verificationId'')) (\<lambda>verification_id.
     bindE (pl_timestamp (jget d ''issuedAt'')) (\<lambda>issued_at.
     bindE (pl_timestamp (jget d ''expiresAt'')) (\<lambda>expires_at.
     bindE (case jget d ''consumedAt'' of JNull \<Rightarrow> Inr None
            | v \<Rightarrow> bindE (pl_timestamp v) (\<lambda>q. Inr (Some q))) (\<lambda>consumed_at.
     receipt_post_init \<lparr>re_approval_id = approval_id, re_receipt_id = receipt_id, re_plan_id = plan_id, re_step_id = step_id,
       re_action_hash = action_hash, re_state_version = state_version, re_approver_id = approver_id,
       re_approver_roles = role_set roles, re_approver_issuer = approver_issuer,
       re_identity_verification_id = identity_verification_id, re_verification_id = verification_id,
       re_issued_at = issued_at, re_expires_at = expires_at, re_consumed_at = consumed_at\<rparr>)))))))))))))))"

definition plan_event_post_init :: "plan_event \<Rightarrow> plan_event plan_result" where
  "plan_event_post_init e =
     bindE (guardE (1 \<le> pe_sequence e) (Raised PfEventInvalid)) (\<lambda>_.
     bindE (pl_non_empty (pe_type e)) (\<lambda>_.
     bindE (pl_non_empty (pe_step_id e)) (\<lambda>_.
     bindE (guardE (pe_schema_version e = 1) (Raised PfEventInvalid)) (\<lambda>_.
     bindE (pl_strict_json (JObj (pe_data e))) (\<lambda>_. Inr e)))))"

definition plan_phase_of :: "plan_execution_state \<Rightarrow> plan_phase" where
  "plan_phase_of st = (let statuses = set (map ss_status (dvalues (px_steps st))) in
     if StManualIntervention \<in> statuses then PhManualIntervention
     else if statuses \<noteq> {} \<and> statuses \<subseteq> {StSucceeded, StNotApplicable} then PhCompleted
     else if StRunning \<in> statuses then PhRunning
     else if StWaitingApproval \<in> statuses then PhWaitingApproval
     else if (StFailed \<in> statuses \<or> StSkipped \<in> statuses) \<and> StPending \<notin> statuses then PhFailed
     else PhPending)"

end
