(* ===== verification/Plan_Graph.thy ===== *)
theory Plan_Graph
  imports Plan_Types
begin

text \<open>
  The dependency graph of a plan (\<open>planning/graph.py\<close>, class \<open>DependencyGraph\<close>): its construction with
  the check of unknown dependencies, the topological sort (Kahn's algorithm with its queue and its table of
  in-degrees), the ready and the blocked steps of a state, and the breadth-first search of descendants. The
  lemmas show that the sort answers exactly on acyclic graphs and then orders every step after its
  dependencies, and that the search finds exactly the transitive dependents.
\<close>

section \<open>The graph\<close>

record dependency_graph =
  dg_dependencies :: "(string, string list) dict"
  dg_dependents :: "(string, string list) dict"
  dg_order :: "string list"

abbreviation step_ids :: "multi_intent_plan \<Rightarrow> string list" where
  "step_ids plan \<equiv> map ps_step_id (mp_steps plan)"

text \<open>Step ids are unique in a plan, so the comprehension over the steps is a map.\<close>

definition plan_dependencies :: "multi_intent_plan \<Rightarrow> (string, string list) dict" where
  "plan_dependencies plan = map (\<lambda>s. (ps_step_id s, remdups (ps_depends_on s))) (mp_steps plan)"

text \<open>The inner loop: step \<open>sid\<close> becomes a dependent of each of its dependencies.\<close>

definition add_dependent :: "string \<Rightarrow> string \<Rightarrow> (string, string list) dict \<Rightarrow> (string, string list) dict plan_result" where
  "add_dependent sid dependency dependents = (case map_of dependents dependency of
     None \<Rightarrow> Inl (Raised PfUnknownDependency)
   | Some l \<Rightarrow> Inr (dset dependents dependency (if sid \<in> set l then l else l @ [sid])))"

definition link_step :: "string \<times> string list \<Rightarrow> (string, string list) dict \<Rightarrow> (string, string list) dict plan_result" where
  "link_step p dependents = foldE (add_dependent (fst p)) (snd p) dependents"

definition plan_dependents :: "multi_intent_plan \<Rightarrow> (string, string list) dict plan_result" where
  "plan_dependents plan = foldE link_step (plan_dependencies plan) (map (\<lambda>s. (ps_step_id s, [])) (mp_steps plan))"

definition source_order :: "multi_intent_plan \<Rightarrow> string \<Rightarrow> nat" where
  "source_order plan sid = length (takeWhile (\<lambda>s. s \<noteq> sid) (step_ids plan))"

definition dget :: "('k, 'v list) dict \<Rightarrow> 'k \<Rightarrow> 'v list" where
  "dget d k = (case map_of d k of None \<Rightarrow> [] | Some v \<Rightarrow> v)"

text \<open>The loop over the dependents of the current step: a count that reaches zero makes the step ready.\<close>

fun release_dependents :: "'a list \<Rightarrow> 'a list \<Rightarrow> ('a, int) dict \<Rightarrow> 'a list \<times> ('a, int) dict" where
  "release_dependents [] ready indegree = (ready, indegree)"
| "release_dependents (d # ds) ready indegree =
     (let n = (case map_of indegree d of None \<Rightarrow> 0 | Some k \<Rightarrow> k) - 1 in
      release_dependents ds (if n = 0 then ready @ [d] else ready) (dset indegree d n))"

definition open_count :: "('a, int) dict \<Rightarrow> nat" where
  "open_count indegree = length (filter (\<lambda>p. 0 < snd p) indegree)"

lemma open_count_dset:
  "open_count (dset m d n) + (case map_of m d of None \<Rightarrow> 0 | Some k \<Rightarrow> if 0 < k then 1 else 0) =
   open_count m + (if 0 < n then 1 else 0)"
  by (induction m) (auto simp: open_count_def split: option.splits)

lemma release_dependents_measure:
  "release_dependents ds ready m = (r', m') \<Longrightarrow> length r' + open_count m' \<le> length ready + open_count m"
proof (induction ds arbitrary: ready m)
  case (Cons d ds)
  let ?k = "case map_of m d of None \<Rightarrow> 0 | Some k \<Rightarrow> k"
  let ?r = "if ?k - 1 = 0 then ready @ [d] else ready"
  have "length ?r + open_count (dset m d (?k - 1)) \<le> length ready + open_count m"
    using open_count_dset[where m = m and d = d and n = "?k - 1"]
    by (cases "?k = 1") (auto split: option.splits if_splits)
  with Cons.IH[of ?r "dset m d (?k - 1)"] Cons.prems show ?case by (simp add: Let_def)
qed simp

function kahn_loop :: "('a \<Rightarrow> 'a list) \<Rightarrow> 'a list \<Rightarrow> 'a list \<Rightarrow> ('a, int) dict \<Rightarrow> 'a list \<times> ('a, int) dict" where
  "kahn_loop dependents [] ordered indegree = (ordered, indegree)"
| "kahn_loop dependents (current # ready) ordered indegree =
     (let (ready', indegree') = release_dependents (dependents current) ready indegree in
      kahn_loop dependents ready' (ordered @ [current]) indegree')"
  by pat_completeness auto
termination
  by (relation "measure (\<lambda>(dependents, ready, ordered, indegree). length ready + open_count indegree)")
    (auto dest: release_dependents_measure[OF sym])

definition graph_sort :: "multi_intent_plan \<Rightarrow> (string, string list) dict \<Rightarrow> string list plan_result" where
  "graph_sort plan dependents =
     (let indegree = map (\<lambda>(sid, deps). (sid, int (length deps))) (plan_dependencies plan);
          ready = sort_key (source_order plan) (map fst (filter (\<lambda>p. snd p = 0) indegree));
          ordered = fst (kahn_loop (\<lambda>c. sort_key (source_order plan) (dget dependents c)) ready [] indegree)
      in if length ordered \<noteq> length indegree then Inl (Raised PfCycle) else Inr ordered)"

definition dependency_graph_init :: "multi_intent_plan \<Rightarrow> dependency_graph plan_result" where
  "dependency_graph_init plan =
     bindE (plan_dependents plan) (\<lambda>dependents.
     bindE (graph_sort plan dependents) (\<lambda>order.
     Inr \<lparr>dg_dependencies = plan_dependencies plan, dg_dependents = dependents, dg_order = order\<rparr>))"

section \<open>Steps that can run and steps that cannot\<close>

text \<open>\<open>state.steps[step_id].status\<close>.\<close>

definition status_of :: "plan_execution_state \<Rightarrow> string \<Rightarrow> plan_step_status plan_result" where
  "status_of st sid = (case map_of (px_steps st) sid of None \<Rightarrow> Inl (Builtin KeyErr) | Some s \<Rightarrow> Inr (ss_status s))"

fun all_status :: "(plan_step_status \<Rightarrow> bool) \<Rightarrow> plan_execution_state \<Rightarrow> string list \<Rightarrow> bool plan_result" where
  "all_status P st [] = Inr True"
| "all_status P st (d # ds) = bindE (status_of st d) (\<lambda>x. if P x then all_status P st ds else Inr False)"

definition terminal_failures :: "plan_step_status list" where
  "terminal_failures = [StFailed, StSkipped, StNotApplicable, StManualIntervention]"

definition ready_steps :: "dependency_graph \<Rightarrow> plan_execution_state \<Rightarrow> string list plan_result" where
  "ready_steps g st = foldE (\<lambda>sid ready.
     bindE (status_of st sid) (\<lambda>x.
     if x \<noteq> StPending then Inr ready else
     bindE (all_status (\<lambda>y. y = StSucceeded) st (dget (dg_dependencies g) sid)) (\<lambda>b.
     Inr (if b then ready @ [sid] else ready)))) (dg_order g) []"

definition blocked_steps :: "dependency_graph \<Rightarrow> plan_execution_state \<Rightarrow> string list plan_result" where
  "blocked_steps g st = foldE (\<lambda>sid blocked.
     bindE (status_of st sid) (\<lambda>x.
     if x \<noteq> StPending then Inr blocked else
     bindE (all_status (\<lambda>y. y \<notin> set terminal_failures) st (dget (dg_dependencies g) sid)) (\<lambda>b.
     Inr (if b then blocked else blocked @ [sid])))) (dg_order g) []"

text \<open>The search of \<open>descendants\<close>; what it has found and what is queued are the two arguments.\<close>

definition bfs_room :: "(string, string list) dict \<Rightarrow> string list \<Rightarrow> string list \<Rightarrow> nat" where
  "bfs_room dependents found queue = card (set queue \<union> set (concat (dvalues dependents)) - set found)"

lemma dget_values: "x \<in> set (dget d k) \<Longrightarrow> x \<in> set (concat (dvalues d))"
  using map_of_SomeD[of d k] by (cases "map_of d k") (force simp: dget_def)+

function bfs_loop :: "(string, string list) dict \<Rightarrow> string list \<Rightarrow> string list \<Rightarrow> string list" where
  "bfs_loop dependents found [] = found"
| "bfs_loop dependents found (current # queue) =
     (if current \<in> set found then bfs_loop dependents found queue
      else bfs_loop dependents (found @ [current]) (queue @ dget dependents current))"
  by pat_completeness auto
termination
proof (relation "measures [\<lambda>(dd, found, queue). bfs_room dd found queue, \<lambda>(dd, found, queue). length queue]", goal_cases)
  case (2 dd found current queue)
  have "bfs_room dd found queue \<le> bfs_room dd found (current # queue)"
    unfolding bfs_room_def by (intro card_mono) auto
  then show ?case by (auto simp: le_less)
next
  case (3 dd found current queue)
  have "bfs_room dd (found @ [current]) (queue @ dget dd current) < bfs_room dd found (current # queue)"
    unfolding bfs_room_def
  proof (rule psubset_card_mono)
    show "set (queue @ dget dd current) \<union> set (concat (dvalues dd)) - set (found @ [current])
        \<subset> set (current # queue) \<union> set (concat (dvalues dd)) - set found"
      using 3 dget_values[of _ dd current] by auto
  qed simp
  then show ?case by simp
qed simp

definition descendants :: "dependency_graph \<Rightarrow> string \<Rightarrow> string list plan_result" where
  "descendants g sid = (case map_of (dg_dependents g) sid of
     None \<Rightarrow> Inl (Builtin KeyErr)
   | Some l \<Rightarrow> Inr (let found = bfs_loop (dg_dependents g) [] l in filter (\<lambda>x. x \<in> set found) (dg_order g)))"

definition is_ancestor :: "dependency_graph \<Rightarrow> string \<Rightarrow> string \<Rightarrow> bool plan_result" where
  "is_ancestor g ancestor descendant = bindE (descendants g ancestor) (\<lambda>ds. Inr (descendant \<in> set ds))"

section \<open>Kahn's algorithm\<close>

text \<open>
  The invariant of the loop, for a finite set of nodes with their dependencies: queue and output hold exactly the
  nodes whose dependencies are all output, without repetition; the table counts the dependencies that
  are not output yet; every output node follows its dependencies.
\<close>

definition kahn_inv :: "'a list \<Rightarrow> ('a \<Rightarrow> 'a set) \<Rightarrow> 'a list \<Rightarrow> 'a list \<Rightarrow> ('a, int) dict \<Rightarrow> bool" where
  "kahn_inv nodes deps ready ordered indegree \<longleftrightarrow>
     distinct (ordered @ ready) \<and> set (ordered @ ready) \<subseteq> set nodes \<and>
     (\<forall>s \<in> set nodes. map_of indegree s = Some (int (card (deps s - set ordered)))) \<and>
     (\<forall>s \<in> set nodes. s \<in> set (ordered @ ready) \<longleftrightarrow> deps s \<subseteq> set ordered) \<and>
     (\<forall>i < length ordered. deps (ordered ! i) \<subseteq> set (take i ordered))"

lemma release_dependents_eq:
  assumes "distinct ds" "\<And>d. d \<in> set ds \<Longrightarrow> map_of m d = Some (f d)"
  shows "fst (release_dependents ds ready m) = ready @ filter (\<lambda>d. f d = 1) ds"
    and "map_of (snd (release_dependents ds ready m)) k = (if k \<in> set ds then Some (f k - 1) else map_of m k)"
proof -
  have "fst (release_dependents ds ready m) = ready @ filter (\<lambda>d. f d = 1) ds \<and>
    (\<forall>k. map_of (snd (release_dependents ds ready m)) k = (if k \<in> set ds then Some (f k - 1) else map_of m k))"
    using assms
  proof (induction ds arbitrary: ready m)
    case (Cons d ds)
    have "map_of (dset m d (f d - 1)) x = Some (f x)" if "x \<in> set ds" for x
      using Cons.prems that by auto
    with Cons.IH[of "dset m d (f d - 1)" "if f d = 1 then ready @ [d] else ready"] Cons.prems
    show ?case by (auto simp: Let_def)
  qed simp
  then show "fst (release_dependents ds ready m) = ready @ filter (\<lambda>d. f d = 1) ds"
    and "map_of (snd (release_dependents ds ready m)) k = (if k \<in> set ds then Some (f k - 1) else map_of m k)"
    by auto
qed

lemma card_remove_one:
  assumes "finite A" "c \<notin> B"
  shows "int (card (A - insert c B)) = int (card (A - B)) - (if c \<in> A then 1 else 0)"
proof -
  have e: "A - insert c B = (A - B) - {c}" by blast
  show ?thesis
  proof (cases "c \<in> A")
    case True
    then have "c \<in> A - B" "finite (A - B)" using assms by auto
    then have "Suc (card (A - B - {c})) = card (A - B)" by (rule card_Suc_Diff1[rotated])
    with True e show ?thesis by simp
  next
    case False
    then have "A - B - {c} = A - B" by blast
    with False e show ?thesis by simp
  qed
qed

lemma kahn_inv_step:
  assumes inv: "kahn_inv nodes deps (c # ready) ordered m"
    and deps: "\<And>s. finite (deps s)"
    and dependents: "distinct ds" "set ds = {s \<in> set nodes. c \<in> deps s}"
    and step: "release_dependents ds ready m = (ready', m')"
  shows "kahn_inv nodes deps ready' (ordered @ [c]) m'"
proof -
  let ?n = "\<lambda>s. int (card (deps s - set ordered))"
  have count: "\<And>s. s \<in> set nodes \<Longrightarrow> map_of m s = Some (?n s)"
    and avail: "\<And>s. s \<in> set nodes \<Longrightarrow> s \<in> set (ordered @ c # ready) \<longleftrightarrow> deps s \<subseteq> set ordered"
    and dist: "distinct (ordered @ c # ready)" and sub: "set (ordered @ c # ready) \<subseteq> set nodes"
    and pos: "\<forall>i < length ordered. deps (ordered ! i) \<subseteq> set (take i ordered)"
    using inv unfolding kahn_inv_def by blast+
  have c: "c \<in> set nodes" "c \<notin> set ordered" using dist sub by auto
  have rel: "ready' = ready @ filter (\<lambda>d. ?n d = 1) ds"
      "\<And>k. map_of m' k = (if k \<in> set ds then Some (?n k - 1) else map_of m k)"
    using release_dependents_eq[OF dependents(1), of m ?n ready] count step dependents(2) by auto
  have one: "?n s = 1 \<longleftrightarrow> deps s - set ordered = {c}" if "s \<in> set ds" for s
  proof -
    have "c \<in> deps s - set ordered" using that c dependents(2) by blast
    then show ?thesis by (metis One_nat_def card_1_singleton_iff int_eq_iff_numeral(1) is_singletonI is_singleton_altdef of_nat_1 of_nat_eq_iff singletonD)
  qed
  have cd: "deps c \<subseteq> set ordered" using avail[OF c(1)] by simp
  have new: "s \<notin> set (ordered @ c # ready)" if "s \<in> set ds" for s
    using avail[of s] that dependents(2) c by auto
  show ?thesis unfolding kahn_inv_def
  proof (intro conjI ballI allI impI)
    show "distinct ((ordered @ [c]) @ ready')" using dist dependents(1) new rel(1) by auto
    show "set ((ordered @ [c]) @ ready') \<subseteq> set nodes" using sub rel(1) dependents(2) by auto
  next
    fix s assume s: "s \<in> set nodes"
    show "map_of m' s = Some (int (card (deps s - set (ordered @ [c]))))"
      using rel(2)[of s] count[OF s] card_remove_one[OF deps c(2), of s] dependents(2) s by auto
    show "s \<in> set ((ordered @ [c]) @ ready') \<longleftrightarrow> deps s \<subseteq> set (ordered @ [c])"
    proof (cases "c \<in> deps s")
      case True
      then have "s \<in> set ds" using s dependents(2) by blast
      with new[of s] one[of s] rel(1) True c show ?thesis by auto
    next
      case False
      then have "s \<notin> set ds" using dependents(2) by blast
      with False avail[OF s] rel(1) show ?thesis by auto
    qed
  next
    fix i assume "i < length (ordered @ [c])"
    then consider "i < length ordered" | "i = length ordered" by fastforce
    then show "deps ((ordered @ [c]) ! i) \<subseteq> set (take i (ordered @ [c]))"
      by cases (use pos cd in \<open>auto simp: nth_append\<close>)
  qed
qed

lemma kahn_loop_inv:
  assumes "kahn_inv nodes deps ready ordered m"
    and deps: "\<And>s. finite (deps s)"
    and dependents: "\<And>c. c \<in> set nodes \<Longrightarrow> distinct (dependents c) \<and> set (dependents c) = {s \<in> set nodes. c \<in> deps s}"
  shows "kahn_inv nodes deps [] (fst (kahn_loop dependents ready ordered m)) (snd (kahn_loop dependents ready ordered m))"
  using assms
proof (induction dependents ready ordered m rule: kahn_loop.induct)
  case (1 dependents ordered m)
  then show ?case by simp
next
  case (2 dependents c ready ordered m)
  obtain ready' m' where r: "release_dependents (dependents c) ready m = (ready', m')" by fastforce
  have "c \<in> set nodes" using "2.prems"(1) by (simp add: kahn_inv_def)
  with "2.prems"(3) have "kahn_inv nodes deps ready' (ordered @ [c]) m'"
    by (intro kahn_inv_step[OF "2.prems"(1,2) _ _ r]) blast+
  with 2 r show ?case by simp
qed

section \<open>The sort of a plan\<close>

definition deps_of :: "multi_intent_plan \<Rightarrow> string \<Rightarrow> string set" where
  "deps_of plan sid = set (dget (plan_dependencies plan) sid)"

definition known_dependencies :: "multi_intent_plan \<Rightarrow> bool" where
  "known_dependencies plan \<longleftrightarrow> list_all (\<lambda>s. list_all (\<lambda>d. d \<in> set (step_ids plan)) (ps_depends_on s)) (mp_steps plan)"

lemma dependencies_keys: "dkeys (plan_dependencies plan) = step_ids plan"
  by (simp add: plan_dependencies_def o_def)

lemma deps_of_step:
  assumes "distinct (step_ids plan)" "s \<in> set (mp_steps plan)"
  shows "deps_of plan (ps_step_id s) = set (ps_depends_on s)"
proof -
  have "(ps_step_id s, remdups (ps_depends_on s)) \<in> set (plan_dependencies plan)"
    using assms(2) by (simp add: plan_dependencies_def)
  then have "map_of (plan_dependencies plan) (ps_step_id s) = Some (remdups (ps_depends_on s))"
    using assms(1) by (simp add: dependencies_keys)
  then show ?thesis by (simp add: deps_of_def dget_def)
qed

lemma finite_deps [simp]: "finite (deps_of plan sid)"
  by (simp add: deps_of_def)

text \<open>Linking one step adds it to the lists of its dependencies and fails on an unknown one.\<close>

lemma link_step_eq:
  assumes "distinct deps" "\<And>d l. d \<in> set deps \<Longrightarrow> map_of dd d = Some l \<Longrightarrow> sid \<notin> set l"
  shows "if \<forall>d \<in> set deps. map_of dd d \<noteq> None
    then \<exists>dd'. link_step (sid, deps) dd = Inr dd' \<and>
      (\<forall>k. map_of dd' k = (if k \<in> set deps then map_option (\<lambda>l. l @ [sid]) (map_of dd k) else map_of dd k))
    else link_step (sid, deps) dd = Inl (Raised PfUnknownDependency)"
  using assms
proof (induction deps arbitrary: dd)
  case Nil
  then show ?case by (simp add: link_step_def)
next
  case (Cons d deps)
  show ?case
  proof (cases "map_of dd d")
    case None
    then show ?thesis by (simp add: link_step_def add_dependent_def)
  next
    case (Some l)
    let ?dd = "dset dd d (l @ [sid])"
    have "link_step (sid, d # deps) dd = link_step (sid, deps) ?dd"
      using Some Cons.prems(2)[of d l] by (simp add: link_step_def add_dependent_def)
    moreover have "(\<forall>x \<in> set deps. map_of ?dd x \<noteq> None) \<longleftrightarrow> (\<forall>x \<in> set deps. map_of dd x \<noteq> None)"
      using Cons.prems(1) by auto
    ultimately show ?thesis using Cons.IH[of ?dd] Cons.prems Some by (fastforce split: if_splits)
  qed
qed

lemma link_steps_eq:
  assumes "distinct (dkeys ps)" "list_all (\<lambda>p. distinct (snd p)) ps"
    and "\<And>k l. map_of dd k = Some l \<Longrightarrow> set l \<inter> set (dkeys ps) = {}"
  shows "if \<forall>p \<in> set ps. \<forall>d \<in> set (snd p). map_of dd d \<noteq> None
    then \<exists>dd'. foldE link_step ps dd = Inr dd' \<and>
      (\<forall>k. map_of dd' k = map_option (\<lambda>l. l @ map fst (filter (\<lambda>p. k \<in> set (snd p)) ps)) (map_of dd k))
    else foldE link_step ps dd = Inl (Raised PfUnknownDependency)"
  using assms
proof (induction ps arbitrary: dd)
  case Nil
  then show ?case by (simp add: option.map_ident)
next
  case (Cons p ps)
  obtain sid deps where p: "p = (sid, deps)" by (cases p)
  have fresh: "sid \<notin> set l" if "map_of dd d = Some l" for d l
    using Cons.prems(3)[OF that] p by auto
  have link: "if \<forall>d \<in> set deps. map_of dd d \<noteq> None
    then \<exists>dd'. link_step p dd = Inr dd' \<and>
      (\<forall>k. map_of dd' k = (if k \<in> set deps then map_option (\<lambda>l. l @ [sid]) (map_of dd k) else map_of dd k))
    else link_step p dd = Inl (Raised PfUnknownDependency)"
    unfolding p by (rule link_step_eq) (use Cons.prems(2) p fresh in auto)
  show ?case
  proof (cases "\<forall>d \<in> set deps. map_of dd d \<noteq> None")
    case False
    then have "\<not> (\<forall>q \<in> set (p # ps). \<forall>d \<in> set (snd q). map_of dd d \<noteq> None)" using p by auto
    moreover have "foldE link_step (p # ps) dd = Inl (Raised PfUnknownDependency)"
      using link[unfolded if_not_P[OF False]] by simp
    ultimately show ?thesis by presburger
  next
    case True
    from link[unfolded if_P[OF True]] obtain dd' where dd': "link_step p dd = Inr dd'"
      "\<And>k. map_of dd' k = (if k \<in> set deps then map_option (\<lambda>l. l @ [sid]) (map_of dd k) else map_of dd k)" by auto
    have dom: "map_of dd' k \<noteq> None \<longleftrightarrow> map_of dd k \<noteq> None" for k using dd'(2) by simp
    have IH: "if \<forall>p \<in> set ps. \<forall>d \<in> set (snd p). map_of dd' d \<noteq> None
      then \<exists>dd''. foldE link_step ps dd' = Inr dd'' \<and>
        (\<forall>k. map_of dd'' k = map_option (\<lambda>l. l @ map fst (filter (\<lambda>p. k \<in> set (snd p)) ps)) (map_of dd' k))
      else foldE link_step ps dd' = Inl (Raised PfUnknownDependency)"
    proof (rule Cons.IH)
      fix k l assume "map_of dd' k = Some l"
      then obtain l0 where "map_of dd k = Some l0" "set l \<subseteq> insert sid (set l0)"
        using dd'(2)[of k] by (auto split: if_splits)
      with Cons.prems(1) Cons.prems(3)[of k l0] p show "set l \<inter> set (dkeys ps) = {}" by auto
    qed (use Cons.prems in auto)
    have all: "(\<forall>q \<in> set (p # ps). \<forall>d \<in> set (snd q). map_of dd d \<noteq> None) \<longleftrightarrow>
        (\<forall>q \<in> set ps. \<forall>d \<in> set (snd q). map_of dd' d \<noteq> None)"
      using True p dom by simp
    show ?thesis
    proof (cases "\<forall>q \<in> set ps. \<forall>d \<in> set (snd q). map_of dd' d \<noteq> None")
      case True
      from IH[unfolded if_P[OF True]] obtain dd'' where dd'': "foldE link_step ps dd' = Inr dd''"
        "\<And>k. map_of dd'' k = map_option (\<lambda>l. l @ map fst (filter (\<lambda>p. k \<in> set (snd p)) ps)) (map_of dd' k)" by auto
      have "map_of dd'' k = map_option (\<lambda>l. l @ map fst (filter (\<lambda>p. k \<in> set (snd p)) (p # ps))) (map_of dd k)" for k
        using dd''(2)[of k] dd'(2)[of k] p by (cases "map_of dd k") auto
      with dd''(1) dd'(1) show ?thesis unfolding all if_P[OF True] by auto
    next
      case False
      from IH[unfolded if_not_P[OF False]] dd'(1) show ?thesis unfolding all if_not_P[OF False] by simp
    qed
  qed
qed

lemma empty_lists_lookup: "map_of (map (\<lambda>s. (ps_step_id s, [])) ss) k = (if k \<in> set (map ps_step_id ss) then Some [] else None)"
  by (induction ss) auto

lemma plan_dependents_eq:
  assumes "distinct (step_ids plan)"
  shows "if known_dependencies plan
    then \<exists>dd. plan_dependents plan = Inr dd \<and> (\<forall>k. map_of dd k =
      (if k \<in> set (step_ids plan) then Some (filter (\<lambda>s. k \<in> deps_of plan s) (step_ids plan)) else None))
    else plan_dependents plan = Inl (Raised PfUnknownDependency)"
proof -
  let ?ps = "plan_dependencies plan"
  let ?dd = "map (\<lambda>s. (ps_step_id s, [] :: string list)) (mp_steps plan)"
  have known: "known_dependencies plan \<longleftrightarrow> (\<forall>p \<in> set ?ps. \<forall>d \<in> set (snd p). map_of ?dd d \<noteq> None)"
    by (auto simp: known_dependencies_def list_all_iff plan_dependencies_def empty_lists_lookup simp del: map_map)
  have names: "map fst (filter (\<lambda>p. k \<in> set (snd p)) ?ps) = filter (\<lambda>s. k \<in> deps_of plan s) (step_ids plan)" for k
  proof -
    have "filter (\<lambda>p. k \<in> set (snd p)) ?ps = filter (\<lambda>p. k \<in> deps_of plan (fst p)) ?ps"
      by (rule filter_cong) (use assms in \<open>auto simp: plan_dependencies_def deps_of_step\<close>)
    then show ?thesis by (simp add: plan_dependencies_def filter_map o_def)
  qed
  have links: "if \<forall>p \<in> set ?ps. \<forall>d \<in> set (snd p). map_of ?dd d \<noteq> None
    then \<exists>dd'. foldE link_step ?ps ?dd = Inr dd' \<and>
      (\<forall>k. map_of dd' k = map_option (\<lambda>l. l @ map fst (filter (\<lambda>p. k \<in> set (snd p)) ?ps)) (map_of ?dd k))
    else foldE link_step ?ps ?dd = Inl (Raised PfUnknownDependency)"
  proof (rule link_steps_eq)
    show "distinct (dkeys ?ps)" using assms by (simp add: dependencies_keys)
    show "list_all (\<lambda>p. distinct (snd p)) ?ps" by (simp add: plan_dependencies_def list_all_iff)
  qed (auto simp: empty_lists_lookup split: if_splits simp del: map_map)
  show ?thesis
  proof (cases "known_dependencies plan")
    case True
    with links[unfolded known[symmetric] names] show ?thesis
      by (auto simp: plan_dependents_def empty_lists_lookup simp del: map_map)
  next
    case False
    with links[unfolded known[symmetric]] show ?thesis by (simp add: plan_dependents_def)
  qed
qed

definition step_edges :: "multi_intent_plan \<Rightarrow> (string \<times> string) set" where
  "step_edges plan = {(d, s). s \<in> set (step_ids plan) \<and> d \<in> deps_of plan s}"

lemma dependency_lookup:
  assumes "sid \<in> set (step_ids plan)"
  obtains l where "map_of (plan_dependencies plan) sid = Some l" "distinct l" "deps_of plan sid = set l"
proof -
  have "sid \<in> set (dkeys (plan_dependencies plan))" using assms by (simp add: dependencies_keys)
  then obtain l where l: "map_of (plan_dependencies plan) sid = Some l" unfolding set_dkeys by blast
  then have "distinct l" using map_of_SomeD[OF l] by (auto simp: plan_dependencies_def)
  with l that show thesis by (simp add: deps_of_def dget_def)
qed

lemma known_dependencies_iff:
  assumes "distinct (step_ids plan)"
  shows "known_dependencies plan \<longleftrightarrow> (\<forall>s \<in> set (step_ids plan). deps_of plan s \<subseteq> set (step_ids plan))"
  using deps_of_step[OF assms] by (auto simp: known_dependencies_def list_all_iff)

definition sort_indegree :: "multi_intent_plan \<Rightarrow> (string, int) dict" where
  "sort_indegree plan = map (\<lambda>(sid, deps). (sid, int (length deps))) (plan_dependencies plan)"

lemma sort_indegree_lookup: "map_of (sort_indegree plan) sid = map_option (\<lambda>l. int (length l)) (map_of (plan_dependencies plan) sid)"
  unfolding sort_indegree_def by (simp add: map_of_map)

lemma sort_indegree_keys: "dkeys (sort_indegree plan) = step_ids plan"
  by (simp add: sort_indegree_def plan_dependencies_def o_def)

lemma kahn_start:
  assumes "distinct (step_ids plan)"
  shows "kahn_inv (step_ids plan) (deps_of plan)
    (sort_key (source_order plan) (map fst (filter (\<lambda>p. snd p = 0) (sort_indegree plan)))) [] (sort_indegree plan)"
proof -
  let ?m = "sort_indegree plan"
  have count: "map_of ?m s = Some (int (card (deps_of plan s)))" if s: "s \<in> set (step_ids plan)" for s
  proof (rule dependency_lookup[OF s])
    fix l assume "map_of (plan_dependencies plan) s = Some l" "distinct l" "deps_of plan s = set l"
    then show ?thesis by (simp add: sort_indegree_lookup distinct_card)
  qed
  have dist: "distinct (dkeys ?m)" using assms by (simp add: sort_indegree_keys)
  have ready: "s \<in> set (map fst (filter (\<lambda>p. snd p = 0) ?m)) \<longleftrightarrow> deps_of plan s = {}" if s: "s \<in> set (step_ids plan)" for s
  proof -
    have "s \<in> set (map fst (filter (\<lambda>p. snd p = 0) ?m)) \<longleftrightarrow> (s, 0) \<in> set ?m" by force
    also have "\<dots> \<longleftrightarrow> map_of ?m s = Some 0" using dist by simp
    also have "\<dots> \<longleftrightarrow> deps_of plan s = {}" using count[OF s] by simp
    finally show ?thesis .
  qed
  have "distinct (map fst (filter (\<lambda>p. snd p = 0) ?m))"
    using dist by (rule distinct_map_filter)
  moreover have "set (map fst (filter (\<lambda>p. snd p = 0) ?m)) \<subseteq> set (step_ids plan)"
    unfolding sort_indegree_keys[symmetric] by auto
  ultimately show ?thesis using count ready by (simp add: kahn_inv_def)
qed

text \<open>What the sort computes, given the dependents of each step.\<close>

lemma graph_sort_cases:
  assumes dist: "distinct (step_ids plan)" and known: "known_dependencies plan" and dd: "plan_dependents plan = Inr dd"
  obtains ordered m where "kahn_inv (step_ids plan) (deps_of plan) [] ordered m"
    "graph_sort plan dd = (if length ordered \<noteq> length (step_ids plan) then Inl (Raised PfCycle) else Inr ordered)"
proof -
  let ?ready = "sort_key (source_order plan) (map fst (filter (\<lambda>p. snd p = 0) (sort_indegree plan)))"
  let ?k = "kahn_loop (\<lambda>c. sort_key (source_order plan) (dget dd c)) ?ready [] (sort_indegree plan)"
  have lookup: "map_of dd k = (if k \<in> set (step_ids plan) then Some (filter (\<lambda>s. k \<in> deps_of plan s) (step_ids plan)) else None)" for k
    using plan_dependents_eq[OF dist] known dd by auto
  have "kahn_inv (step_ids plan) (deps_of plan) [] (fst ?k) (snd ?k)"
  proof (rule kahn_loop_inv[OF kahn_start[OF dist] finite_deps], goal_cases)
    case (1 c)
    then show ?case using dist by (simp add: dget_def lookup)
  qed
  moreover have "graph_sort plan dd = (if length (fst ?k) \<noteq> length (step_ids plan) then Inl (Raised PfCycle) else Inr (fst ?k))"
    unfolding graph_sort_def Let_def sort_indegree_def[symmetric]
    by (simp add: sort_indegree_def plan_dependencies_def)
  ultimately show thesis by (rule that)
qed

lemma kahn_inv_edges:
  assumes inv: "kahn_inv nodes deps [] ordered m" and all: "set ordered = set nodes"
    and path: "(a, b) \<in> {(d, s). s \<in> set nodes \<and> d \<in> deps s}\<^sup>+"
  shows "\<exists>i j. i < j \<and> j < length ordered \<and> ordered ! i = a \<and> ordered ! j = b"
proof -
  have dist: "distinct ordered" using inv by (simp add: kahn_inv_def)
  have edge: "\<exists>i < j. ordered ! i = d" if "j < length ordered" "d \<in> deps (ordered ! j)" for d j
  proof -
    have "d \<in> set (take j ordered)" using inv that unfolding kahn_inv_def by blast
    with that(1) show ?thesis by (auto simp: in_set_conv_nth)
  qed
  from path show ?thesis
  proof (induction rule: trancl_induct)
    case (base y)
    then have "y \<in> set ordered" using all by simp
    then obtain j where "j < length ordered" "ordered ! j = y" by (auto simp: in_set_conv_nth)
    with edge[of j a] base show ?case by blast
  next
    case (step y z)
    then obtain i j where ij: "i < j" "j < length ordered" "ordered ! i = a" "ordered ! j = y" by blast
    have "z \<in> set ordered" using step(2) all by simp
    then obtain k where k: "k < length ordered" "ordered ! k = z" by (auto simp: in_set_conv_nth)
    with edge[of k y] step(2) obtain j' where "j' < k" "ordered ! j' = y" by blast
    with ij k dist have "j' = j" using nth_eq_iff_index_eq[of ordered j' j] by simp
    with ij k \<open>j' < k\<close> show ?case by (metis less_trans)
  qed
qed

lemma kahn_inv_complete:
  assumes inv: "kahn_inv nodes deps [] ordered m" and known: "\<And>s. s \<in> set nodes \<Longrightarrow> deps s \<subseteq> set nodes"
    and acyc: "acyclic {(d, s). s \<in> set nodes \<and> d \<in> deps s}"
  shows "set ordered = set nodes"
proof (rule ccontr)
  let ?E = "{(d, s). s \<in> set nodes \<and> d \<in> deps s}"
  assume "set ordered \<noteq> set nodes"
  moreover have "set ordered \<subseteq> set nodes" using inv by (simp add: kahn_inv_def)
  ultimately obtain x where "x \<in> set nodes - set ordered" by blast
  moreover have "finite ?E"
    by (rule finite_subset[of _ "set nodes \<times> set nodes"]) (use known in auto)
  then have "wf ?E" using acyc by (rule finite_acyclic_wf)
  ultimately obtain z where z: "z \<in> set nodes - set ordered" "\<And>y. (y, z) \<in> ?E \<Longrightarrow> y \<notin> set nodes - set ordered"
    unfolding wf_eq_minimal by blast
  then have "deps z \<subseteq> set ordered" using known by blast
  then have "z \<in> set ordered" using inv z(1) unfolding kahn_inv_def by auto
  with z(1) show False by blast
qed

lemma graph_init_cases:
  assumes dist: "distinct (step_ids plan)" and g: "dependency_graph_init plan = Inr g"
  obtains m where "known_dependencies plan" "kahn_inv (step_ids plan) (deps_of plan) [] (dg_order g) m"
    "set (dg_order g) = set (step_ids plan)" "dg_dependencies g = plan_dependencies plan"
    "\<And>k. map_of (dg_dependents g) k =
      (if k \<in> set (step_ids plan) then Some (filter (\<lambda>s. k \<in> deps_of plan s) (step_ids plan)) else None)"
proof -
  from g obtain dd order where dd: "plan_dependents plan = Inr dd" and order: "graph_sort plan dd = Inr order"
    and geq: "g = \<lparr>dg_dependencies = plan_dependencies plan, dg_dependents = dd, dg_order = order\<rparr>"
    by (auto simp: dependency_graph_init_def exc_simps)
  have known: "known_dependencies plan" using plan_dependents_eq[OF dist] dd by (auto split: if_splits)
  obtain ordered m where inv: "kahn_inv (step_ids plan) (deps_of plan) [] ordered m"
    and s: "graph_sort plan dd = (if length ordered \<noteq> length (step_ids plan) then Inl (Raised PfCycle) else Inr ordered)"
    by (rule graph_sort_cases[OF dist known dd])
  have len: "length ordered = length (step_ids plan)" and o: "order = ordered" using s order by (auto split: if_splits)
  have "distinct ordered" "set ordered \<subseteq> set (step_ids plan)" using inv by (simp_all add: kahn_inv_def)
  then have "set ordered = set (step_ids plan)"
    by (metis List.finite_set card_subset_eq dist distinct_card len)
  moreover have "map_of dd k = (if k \<in> set (step_ids plan) then Some (filter (\<lambda>s. k \<in> deps_of plan s) (step_ids plan)) else None)" for k
    using plan_dependents_eq[OF dist] known dd by auto
  ultimately show thesis using known inv geq o by (intro that[of m]) auto
qed

text \<open>
  The order of an accepted plan is topological. It holds every step exactly once, and every dependency of a
  step stands before it.
\<close>

theorem plan_order_topological:
  assumes "distinct (step_ids plan)" "dependency_graph_init plan = Inr g"
  shows "distinct (dg_order g) \<and> set (dg_order g) = set (step_ids plan) \<and>
    (\<forall>s \<in> set (mp_steps plan). \<forall>d \<in> set (ps_depends_on s).
       \<exists>i j. i < j \<and> j < length (dg_order g) \<and> dg_order g ! i = d \<and> dg_order g ! j = ps_step_id s)"
proof (rule graph_init_cases[OF assms])
  fix m assume inv: "kahn_inv (step_ids plan) (deps_of plan) [] (dg_order g) m" and all: "set (dg_order g) = set (step_ids plan)"
  have "\<exists>i j. i < j \<and> j < length (dg_order g) \<and> dg_order g ! i = d \<and> dg_order g ! j = ps_step_id s"
    if "s \<in> set (mp_steps plan)" "d \<in> set (ps_depends_on s)" for s d
    by (rule kahn_inv_edges[OF inv all]) (use that deps_of_step[OF assms(1) that(1)] in auto)
  with inv all show ?thesis by (simp add: kahn_inv_def)
qed

text \<open>
  The graph of a plan is accepted exactly when every dependency names a step and no step depends on itself through others.
\<close>

theorem plan_graph_accepted_iff:
  assumes "distinct (step_ids plan)"
  shows "isOk (dependency_graph_init plan) \<longleftrightarrow>
    list_all (\<lambda>s. list_all (\<lambda>d. d \<in> set (step_ids plan)) (ps_depends_on s)) (mp_steps plan) \<and> acyclic (step_edges plan)"
proof -
  have "acyclic (step_edges plan)" if "dependency_graph_init plan = Inr g" for g
  proof (rule graph_init_cases[OF assms that])
    fix m assume inv: "kahn_inv (step_ids plan) (deps_of plan) [] (dg_order g) m" and all: "set (dg_order g) = set (step_ids plan)"
    show ?thesis unfolding acyclic_def step_edges_def
    proof (intro allI notI)
      fix x assume "(x, x) \<in> {(d, s). s \<in> set (step_ids plan) \<and> d \<in> deps_of plan s}\<^sup>+"
      from kahn_inv_edges[OF inv all this] inv show False by (auto simp: kahn_inv_def nth_eq_iff_index_eq)
    qed
  qed
  moreover have "isOk (dependency_graph_init plan)" if known: "known_dependencies plan" and acyc: "acyclic (step_edges plan)"
  proof -
    obtain dd where dd: "plan_dependents plan = Inr dd" using plan_dependents_eq[OF assms] known by auto
    obtain ordered m where inv: "kahn_inv (step_ids plan) (deps_of plan) [] ordered m"
      and s: "graph_sort plan dd = (if length ordered \<noteq> length (step_ids plan) then Inl (Raised PfCycle) else Inr ordered)"
      by (rule graph_sort_cases[OF assms known dd])
    have "set ordered = set (step_ids plan)"
      by (rule kahn_inv_complete[OF inv]) (use known acyc known_dependencies_iff[OF assms] in \<open>auto simp: step_edges_def\<close>)
    moreover have "distinct ordered" using inv by (simp add: kahn_inv_def)
    ultimately have "length ordered = length (step_ids plan)" using assms by (metis distinct_card)
    with s dd show ?thesis by (simp add: dependency_graph_init_def)
  qed
  moreover have "known_dependencies plan" if "dependency_graph_init plan = Inr g" for g
    by (rule graph_init_cases[OF assms that])
  ultimately show ?thesis unfolding isOk_iff known_dependencies_def by blast
qed

section \<open>Descendants\<close>

definition dict_edges :: "(string, string list) dict \<Rightarrow> (string \<times> string) set" where
  "dict_edges dd = {(a, b). b \<in> set (dget dd a)}"

lemma bfs_loop_closed:
  "(\<forall>f \<in> set found. set (dget dd f) \<subseteq> set found \<union> set queue) \<Longrightarrow>
    set found \<union> set queue \<subseteq> set (bfs_loop dd found queue) \<and>
    (\<forall>f \<in> set (bfs_loop dd found queue). set (dget dd f) \<subseteq> set (bfs_loop dd found queue))"
proof (induction dd found queue rule: bfs_loop.induct)
  case (2 dd found current queue)
  show ?case
  proof (cases "current \<in> set found")
    case True
    then have "insert current (set found \<union> set queue) = set found \<union> set queue" by blast
    with True 2(1,3) show ?thesis by simp
  next
    case False
    have "\<forall>f \<in> set (found @ [current]). set (dget dd f) \<subseteq> set (found @ [current]) \<union> set (queue @ dget dd current)"
      using 2(3) by auto
    with False 2(2) show ?thesis by auto
  qed
qed simp

lemma bfs_loop_reached: "set (bfs_loop dd found queue) \<subseteq> set found \<union> (dict_edges dd)\<^sup>* `` set queue"
proof (induction dd found queue rule: bfs_loop.induct)
  case (2 dd found current queue)
  have "(dict_edges dd)\<^sup>* `` set (dget dd current) \<subseteq> (dict_edges dd)\<^sup>* `` {current}"
    by (auto simp: dict_edges_def intro: converse_rtrancl_into_rtrancl)
  then have "(dict_edges dd)\<^sup>* `` (set queue \<union> set (dget dd current)) \<subseteq> (dict_edges dd)\<^sup>* `` set (current # queue)" by auto
  note more = this
  have cur: "current \<in> (dict_edges dd)\<^sup>* `` set (current # queue)"
    and tl: "(dict_edges dd)\<^sup>* `` set queue \<subseteq> (dict_edges dd)\<^sup>* `` set (current # queue)" by auto
  show ?case
  proof (cases "current \<in> set found")
    case True
    with 2(1) have "set (bfs_loop dd found (current # queue)) \<subseteq> set found \<union> (dict_edges dd)\<^sup>* `` set queue" by simp
    with tl show ?thesis by blast
  next
    case False
    with 2(2) have "set (bfs_loop dd found (current # queue)) \<subseteq>
      insert current (set found \<union> (dict_edges dd)\<^sup>* `` (set queue \<union> set (dget dd current)))" by simp
    with more cur show ?thesis by blast
  qed
qed simp

lemma closed_rtrancl: "(a, b) \<in> E\<^sup>* \<Longrightarrow> a \<in> S \<Longrightarrow> (\<And>x y. x \<in> S \<Longrightarrow> (x, y) \<in> E \<Longrightarrow> y \<in> S) \<Longrightarrow> b \<in> S"
  by (induction rule: rtrancl_induct) auto

lemma bfs_loop_set: "set (bfs_loop dd [] (dget dd a)) = {b. (a, b) \<in> (dict_edges dd)\<^sup>+}"
proof -
  let ?R = "set (bfs_loop dd [] (dget dd a))"
  from bfs_loop_closed[of "[]" dd "dget dd a"] have closed: "set (dget dd a) \<subseteq> ?R" "\<And>f. f \<in> ?R \<Longrightarrow> set (dget dd f) \<subseteq> ?R" by auto
  have "b \<in> ?R" if "(a, b) \<in> (dict_edges dd)\<^sup>+" for b
  proof -
    from that obtain c where c: "(a, c) \<in> dict_edges dd" "(c, b) \<in> (dict_edges dd)\<^sup>*" by (metis tranclD)
    from c(2) show ?thesis by (rule closed_rtrancl) (use c closed in \<open>auto simp: dict_edges_def\<close>)
  qed
  moreover have "?R \<subseteq> {b. (a, b) \<in> (dict_edges dd)\<^sup>+}"
    using bfs_loop_reached[of dd "[]" "dget dd a"] by (auto simp: dict_edges_def[of dd] intro: rtrancl_into_trancl2)
  ultimately show ?thesis by blast
qed

lemma graph_edges:
  assumes "distinct (step_ids plan)" "dependency_graph_init plan = Inr g"
  shows "dict_edges (dg_dependents g) = step_edges plan"
proof (rule graph_init_cases[OF assms])
  assume known: "known_dependencies plan" and
    look: "\<And>k. map_of (dg_dependents g) k =
      (if k \<in> set (step_ids plan) then Some (filter (\<lambda>s. k \<in> deps_of plan s) (step_ids plan)) else None)"
  have "d \<in> set (step_ids plan)" if "s \<in> set (step_ids plan)" "d \<in> deps_of plan s" for s d
    using known_dependencies_iff[OF assms(1)] known that by blast
  then show ?thesis by (auto simp: dict_edges_def step_edges_def dget_def look split: if_splits simp del: set_map)
qed

lemma descendants_set:
  assumes "distinct (step_ids plan)" "dependency_graph_init plan = Inr g" "sid \<in> set (step_ids plan)"
  shows "\<exists>ds. descendants g sid = Inr ds \<and> distinct ds \<and> set ds = {x. (sid, x) \<in> (step_edges plan)\<^sup>+}"
proof (rule graph_init_cases[OF assms(1,2)])
  fix m assume all: "set (dg_order g) = set (step_ids plan)" and inv: "kahn_inv (step_ids plan) (deps_of plan) [] (dg_order g) m"
    and look: "\<And>k. map_of (dg_dependents g) k =
      (if k \<in> set (step_ids plan) then Some (filter (\<lambda>s. k \<in> deps_of plan s) (step_ids plan)) else None)"
  let ?f = "bfs_loop (dg_dependents g) [] (dget (dg_dependents g) sid)"
  have f: "set ?f = {x. (sid, x) \<in> (step_edges plan)\<^sup>+}"
    unfolding bfs_loop_set graph_edges[OF assms(1,2)] ..
  have "x \<in> set (step_ids plan)" if "(sid, x) \<in> (step_edges plan)\<^sup>+" for x
    using tranclD2[OF that] by (auto simp: step_edges_def)
  then have "set (filter (\<lambda>x. x \<in> set ?f) (dg_order g)) = {x. (sid, x) \<in> (step_edges plan)\<^sup>+}"
    using f all by auto
  moreover have "distinct (filter (\<lambda>x. x \<in> set ?f) (dg_order g))" using inv by (simp add: kahn_inv_def)
  moreover have "descendants g sid = Inr (filter (\<lambda>x. x \<in> set ?f) (dg_order g))"
    using assms(3) look[of sid] by (simp add: descendants_def Let_def dget_def)
  ultimately show ?thesis by blast
qed

lemma is_ancestor_iff:
  assumes "distinct (step_ids plan)" "dependency_graph_init plan = Inr g" "a \<in> set (step_ids plan)"
  shows "is_ancestor g a b = Inr ((a, b) \<in> (step_edges plan)\<^sup>+)"
  using descendants_set[OF assms] by (auto simp: is_ancestor_def)

text \<open>
  The descendants of a step are exactly the steps that depend on it, directly or through others, each once.
\<close>

theorem descendants_exact:
  assumes "distinct (step_ids plan)" "dependency_graph_init plan = Inr g" "sid \<in> set (step_ids plan)"
  shows "\<exists>ds. descendants g sid = Inr ds \<and> distinct ds \<and> set ds = {x. (sid, x) \<in> (step_edges plan)\<^sup>+}"
  by (rule descendants_set[OF assms])

section \<open>Progress\<close>

definition has_status :: "plan_execution_state \<Rightarrow> string \<Rightarrow> plan_step_status \<Rightarrow> bool" where
  "has_status st sid x \<longleftrightarrow> (\<exists>s. map_of (px_steps st) sid = Some s \<and> ss_status s = x)"

lemma status_of_iff: "status_of st sid = Inr x \<longleftrightarrow> has_status st sid x"
  by (auto simp: status_of_def has_status_def split: option.splits)

lemma all_status_eq:
  assumes "\<forall>d \<in> set ds. \<exists>x. has_status st d x"
  shows "all_status P st ds = Inr (\<forall>d \<in> set ds. \<exists>x. has_status st d x \<and> P x)"
  using assms
proof (induction ds)
  case (Cons d ds)
  then obtain x where x: "has_status st d x" by auto
  then have "(\<exists>y. has_status st d y \<and> P y) \<longleftrightarrow> P x" by (auto simp: has_status_def)
  with Cons x show ?case by (simp add: status_of_iff[THEN iffD2, OF x])
qed simp

lemma foldE_filter:
  assumes "\<And>x acc. x \<in> set xs \<Longrightarrow> f x acc = Inr (if Q x then acc @ [x] else acc)"
  shows "foldE f xs acc = Inr (acc @ filter Q xs)"
  using assms by (induction xs arbitrary: acc) auto

lemma graph_knows_steps:
  assumes "distinct (step_ids plan)" "dependency_graph_init plan = Inr g" "set (dkeys (px_steps st)) = set (step_ids plan)"
    and "sid \<in> set (dg_order g)"
  shows "\<exists>x. has_status st sid x" "\<forall>d \<in> set (dget (dg_dependencies g) sid). \<exists>x. has_status st d x"
proof -
  have keys: "\<exists>x. has_status st s x" if "s \<in> set (step_ids plan)" for s
    using that unfolding assms(3)[symmetric] set_dkeys has_status_def by blast
  have order: "set (dg_order g) = set (step_ids plan)" and eq: "dg_dependencies g = plan_dependencies plan"
    and known: "known_dependencies plan" by (rule graph_init_cases[OF assms(1,2)], assumption)+
  show "\<exists>x. has_status st sid x" using keys assms(4) order by blast
  have "deps_of plan sid \<subseteq> set (step_ids plan)"
    using known_dependencies_iff[OF assms(1)] known assms(4) order by blast
  with keys show "\<forall>d \<in> set (dget (dg_dependencies g) sid). \<exists>x. has_status st d x"
    unfolding deps_of_def eq by blast
qed

lemma ready_blocked_eq:
  assumes "distinct (step_ids plan)" "dependency_graph_init plan = Inr g" "set (dkeys (px_steps st)) = set (step_ids plan)"
  shows "ready_steps g st = Inr (filter (\<lambda>sid. has_status st sid StPending \<and>
      (\<forall>d \<in> set (dget (dg_dependencies g) sid). has_status st d StSucceeded)) (dg_order g))"
    and "blocked_steps g st = Inr (filter (\<lambda>sid. has_status st sid StPending \<and>
      (\<exists>d \<in> set (dget (dg_dependencies g) sid). \<exists>x \<in> set terminal_failures. has_status st d x)) (dg_order g))"
proof -
  have uniq: "has_status st d x \<Longrightarrow> has_status st d y \<Longrightarrow> x = y" for d x y by (auto simp: has_status_def)
  have one: "bindE (status_of st sid) (\<lambda>x. if x \<noteq> StPending then Inr acc else
      bindE (all_status P st (dget (dg_dependencies g) sid)) (\<lambda>b. Inr (k b))) =
      Inr (if has_status st sid StPending then k (\<forall>d \<in> set (dget (dg_dependencies g) sid). \<exists>x. has_status st d x \<and> P x) else acc)"
    if s: "sid \<in> set (dg_order g)" for sid P k and acc :: "string list"
  proof -
    obtain x where x: "has_status st sid x" using graph_knows_steps(1)[OF assms s] by blast
    then have "has_status st sid StPending \<longleftrightarrow> x = StPending" using uniq by blast
    then show ?thesis
      using all_status_eq[OF graph_knows_steps(2)[OF assms s], of P] status_of_iff[THEN iffD2, OF x] by simp
  qed
  show "ready_steps g st = Inr (filter (\<lambda>sid. has_status st sid StPending \<and>
      (\<forall>d \<in> set (dget (dg_dependencies g) sid). has_status st d StSucceeded)) (dg_order g))"
    unfolding ready_steps_def by (subst foldE_filter) (auto simp: one)
  have "(\<forall>d \<in> set (dget (dg_dependencies g) sid). \<exists>x. has_status st d x \<and> x \<notin> set terminal_failures) \<longleftrightarrow>
      \<not> (\<exists>d \<in> set (dget (dg_dependencies g) sid). \<exists>x \<in> set terminal_failures. has_status st d x)"
    if "sid \<in> set (dg_order g)" for sid
    using graph_knows_steps(2)[OF assms that] uniq by blast
  then show "blocked_steps g st = Inr (filter (\<lambda>sid. has_status st sid StPending \<and>
      (\<exists>d \<in> set (dget (dg_dependencies g) sid). \<exists>x \<in> set terminal_failures. has_status st d x)) (dg_order g))"
    unfolding blocked_steps_def by (subst foldE_filter) (auto simp: one)
qed

text \<open>
  C33: a plan is never stuck. While a step is pending and none is running or waiting for an approval, some pending step
  is ready to start or is blocked by a failed dependency and can be skipped.
\<close>

theorem plan_never_stuck:
  assumes "distinct (step_ids plan)" "dependency_graph_init plan = Inr g" "set (dkeys (px_steps st)) = set (step_ids plan)"
    and "has_status st sid StPending" "\<And>s. \<not> has_status st s StRunning" "\<And>s. \<not> has_status st s StWaitingApproval"
  shows "\<exists>ready blocked. ready_steps g st = Inr ready \<and> blocked_steps g st = Inr blocked \<and> (ready \<noteq> [] \<or> blocked \<noteq> [])"
proof (rule graph_init_cases[OF assms(1,2)])
  fix m assume inv: "kahn_inv (step_ids plan) (deps_of plan) [] (dg_order g) m"
    and all: "set (dg_order g) = set (step_ids plan)" and eq: "dg_dependencies g = plan_dependencies plan"
  let ?P = "\<lambda>i. i < length (dg_order g) \<and> has_status st (dg_order g ! i) StPending"
  have "sid \<in> set (dkeys (px_steps st))" using assms(4) unfolding has_status_def set_dkeys by blast
  then have "sid \<in> set (dg_order g)" using assms(3) all by simp
  then obtain k where "?P k" using assms(4) by (auto simp: in_set_conv_nth)
  then have i: "?P (Least ?P)" by (rule LeastI)
  have least: "\<not> ?P j" if "j < Least ?P" for j using that by (rule not_less_Least)
  let ?s = "dg_order g ! Least ?P"
  have s: "?s \<in> set (dg_order g)" using i by simp
  have dep: "has_status st d StSucceeded \<or> (\<exists>x \<in> set terminal_failures. has_status st d x)"
    if d: "d \<in> set (dget (dg_dependencies g) ?s)" for d
  proof -
    obtain x where x: "has_status st d x" using graph_knows_steps(2)[OF assms(1-3) s] d by blast
    have "d \<in> set (take (Least ?P) (dg_order g))" using inv i d unfolding kahn_inv_def deps_of_def eq by blast
    then obtain j where "j < Least ?P" "dg_order g ! j = d" using i by (auto simp: in_set_conv_nth)
    with least[of j] i x have "x \<noteq> StPending" by auto
    with x assms(5)[of d] assms(6)[of d] show ?thesis by (cases x) (auto simp: terminal_failures_def)
  qed
  show ?thesis
  proof (cases "\<forall>d \<in> set (dget (dg_dependencies g) ?s). has_status st d StSucceeded")
    case True
    with i s have "filter (\<lambda>sid. has_status st sid StPending \<and>
      (\<forall>d \<in> set (dget (dg_dependencies g) sid). has_status st d StSucceeded)) (dg_order g) \<noteq> []"
      unfolding filter_empty_conv by blast
    then show ?thesis unfolding ready_blocked_eq[OF assms(1-3)] by blast
  next
    case False
    with dep have "\<exists>d \<in> set (dget (dg_dependencies g) ?s). \<exists>x \<in> set terminal_failures. has_status st d x" by blast
    with i s have "filter (\<lambda>sid. has_status st sid StPending \<and>
      (\<exists>d \<in> set (dget (dg_dependencies g) sid). \<exists>x \<in> set terminal_failures. has_status st d x)) (dg_order g) \<noteq> []"
      unfolding filter_empty_conv by blast
    then show ?thesis unfolding ready_blocked_eq[OF assms(1-3)] by blast
  qed
qed

section \<open>A plan of two steps\<close>

definition sample_step :: "string \<Rightarrow> string \<Rightarrow> string list \<Rightarrow> plan_step" where
  "sample_step sid intent deps = \<lparr>ps_step_id = sid, ps_intent = intent, ps_arguments = [], ps_depends_on = deps,
     ps_requires_approval = False, ps_write = False, ps_replay_policy = ''safe'', ps_capabilities = [], ps_approval_roles = [],
     ps_parameter_contract = None, ps_required_predecessor_intents = [], ps_argument_bindings = [], ps_preconditions = [],
     ps_allow_parallel_side_effects = False, ps_result_contract = None, ps_execution_action_hash = None\<rparr>"

definition sample_plan :: multi_intent_plan where
  "sample_plan = \<lparr>mp_request = ''r'', mp_steps = [sample_step ''b'' ''use'' [''a''], sample_step ''a'' ''get'' []],
     mp_plan_id = ''p'', mp_schema_version = 1\<rparr>"

definition sample_graph :: dependency_graph where
  "sample_graph = \<lparr>dg_dependencies = [(''b'', [''a'']), (''a'', [])], dg_dependents = [(''b'', []), (''a'', [''b''])], dg_order = [''a'', ''b'']\<rparr>"

definition fresh_step :: plan_step_state where
  "fresh_step = \<lparr>ss_status = StPending, ss_attempts = 0, ss_approval_id = None, ss_result = JNull, ss_error = None,
     ss_approval_receipt = None, ss_validation_status = None, ss_approval_action_hash = None\<rparr>"

lemma sample_graph_init: "distinct (step_ids sample_plan)" "dependency_graph_init sample_plan = Inr sample_graph"
  by code_simp+

theorem plan_order_topological_witness: "distinct (dg_order sample_graph) \<and> set (dg_order sample_graph) = {''a'', ''b''}"
  using plan_order_topological[OF sample_graph_init] by (simp add: sample_plan_def sample_step_def insert_commute)

theorem plan_graph_accepted_iff_witness: "acyclic (step_edges sample_plan)"
  using plan_graph_accepted_iff[OF sample_graph_init(1)] by (simp add: sample_graph_init(2))

theorem descendants_exact_witness: "\<exists>ds. descendants sample_graph ''a'' = Inr ds \<and> set ds = {x. (''a'', x) \<in> (step_edges sample_plan)\<^sup>+}"
  using descendants_exact[OF sample_graph_init, of "''a''"] by (auto simp: sample_plan_def sample_step_def)

theorem plan_never_stuck_witness:
  "\<exists>ready blocked. ready_steps sample_graph \<lparr>px_plan_id = ''p'', px_steps = [(''b'', fresh_step), (''a'', fresh_step)], px_version = 0\<rparr> = Inr ready \<and>
     blocked_steps sample_graph \<lparr>px_plan_id = ''p'', px_steps = [(''b'', fresh_step), (''a'', fresh_step)], px_version = 0\<rparr> = Inr blocked \<and>
     (ready \<noteq> [] \<or> blocked \<noteq> [])"
  by (rule plan_never_stuck[OF sample_graph_init, of _ "''a''"])
    (auto simp: has_status_def fresh_step_def sample_plan_def sample_step_def split: if_splits)

end
