(* ===== verification/Plan_Validator.thy ===== *)
theory Plan_Validator
  imports Plan_Graph
begin

text \<open>
  The comparison of a plan with the trusted catalogue of intent policies (\<open>planning/graph.py\<close>, class
  \<open>PlanValidator\<close>): the check of a step, the data flow, the required predecessors, the order of side effects, and
  the binding of trusted dependencies onto the output of an untrusted planner. The set of predecessor
  intents is visited in an order Python does not fix, so \<open>bind_trusted_dependencies\<close> takes the order as an argument.
\<close>

section \<open>Binding templates to steps\<close>

type_synonym policy_catalog = "(string, intent_policy) dict"

definition validator_init :: "policy_catalog \<Rightarrow> policy_catalog plan_result" where
  "validator_init policies =
     bindE (guardE (policies \<noteq> []) (Raised PfCatalog)) (\<lambda>_.
     bindE (guardE (list_all (\<lambda>(intent, p). intent = po_intent p) policies) (Raised PfCatalog)) (\<lambda>_. Inr policies))"

definition source_step_for_intent :: "string \<Rightarrow> multi_intent_plan \<Rightarrow> string list \<Rightarrow> string plan_result" where
  "source_step_for_intent source_intent plan dependencies =
     (case filter (\<lambda>s. ps_step_id s \<in> set dependencies \<and> ps_intent s = source_intent) (mp_steps plan) of
        [s] \<Rightarrow> Inr (ps_step_id s) | _ \<Rightarrow> Inl (Raised PfSourceStep))"

definition bind_reference :: "intent_reference \<Rightarrow> multi_intent_plan \<Rightarrow> string list \<Rightarrow> result_reference plan_result" where
  "bind_reference r plan dependencies =
     bindE (source_step_for_intent (ir_intent r) plan dependencies) (\<lambda>sid.
     result_reference_post_init \<lparr>rr_step_id = sid, rr_path = ir_path r\<rparr>)"

definition bind_argument_template :: "multi_intent_plan \<Rightarrow> string list \<Rightarrow> intent_binding \<Rightarrow> argument_binding plan_result" where
  "bind_argument_template plan dependencies t =
     bindE (bind_reference (ib_source t) plan dependencies) (\<lambda>r.
     argument_binding_post_init \<lparr>ab_target = ib_target t, ab_source = r\<rparr>)"

definition bind_condition_template :: "multi_intent_plan \<Rightarrow> string list \<Rightarrow> intent_condition \<Rightarrow> plan_condition plan_result" where
  "bind_condition_template plan dependencies t =
     bindE (bind_reference (ic_left t) plan dependencies) (\<lambda>l.
     bindE (case ic_expected_from t of None \<Rightarrow> Inr None
            | Some r \<Rightarrow> bindE (bind_reference r plan dependencies) (\<lambda>x. Inr (Some x))) (\<lambda>f.
     plan_condition_post_init \<lparr>pc_left = l, pc_operator = ic_operator t, pc_expected = ic_expected t, pc_expected_from = f\<rparr>))"

section \<open>The checks\<close>

definition policy_of :: "policy_catalog \<Rightarrow> string \<Rightarrow> intent_policy plan_result" where
  "policy_of policies intent = (case map_of policies intent of None \<Rightarrow> Inl (Builtin KeyErr) | Some p \<Rightarrow> Inr p)"

definition unsafe_policy :: "intent_policy \<Rightarrow> bool" where
  "unsafe_policy p \<longleftrightarrow> po_write p \<or> po_replay_policy p = ''never''"

definition obeys_policy :: "plan_step \<Rightarrow> intent_policy \<Rightarrow> bool" where
  "obeys_policy s p \<longleftrightarrow> ps_requires_approval s = po_requires_approval p \<and> ps_write s = po_write p \<and>
     ps_replay_policy s = po_replay_policy p \<and> ps_capabilities s = po_capabilities p \<and>
     ps_approval_roles s = po_approval_roles p \<and> ps_parameter_contract s = po_parameter_contract p \<and>
     ps_required_predecessor_intents s = po_required_predecessor_intents p \<and>
     ps_allow_parallel_side_effects s = po_allow_parallel_side_effects p \<and>
     contract_eq (ps_result_contract s) (po_result_contract p)"

definition validate_step :: "policy_catalog \<Rightarrow> plan_step \<Rightarrow> unit plan_result" where
  "validate_step policies s = (case map_of policies (ps_intent s) of
     None \<Rightarrow> Inl (Raised PfUnknownIntent)
   | Some p \<Rightarrow>
       bindE (guardE (obeys_policy s p) (Raised PfOverridesPolicy)) (\<lambda>_.
       case po_parameter_contract p of
         None \<Rightarrow> guardE (\<not> (unsafe_policy p \<and> ps_arguments s = [] \<and> ps_argument_bindings s = [])) (Raised PfEmptyParameters)
       | Some c \<Rightarrow> validate_unresolved c (ps_arguments s) (map ab_target (ps_argument_bindings s)) (unsafe_policy p)))"

definition step_references :: "plan_step \<Rightarrow> result_reference list" where
  "step_references s = map ab_source (ps_argument_bindings s) @
     concat (map (\<lambda>c. pc_left c # (case pc_expected_from c of None \<Rightarrow> [] | Some r \<Rightarrow> [r])) (ps_preconditions s))"

definition validate_step_dataflow :: "policy_catalog \<Rightarrow> multi_intent_plan \<Rightarrow> dependency_graph \<Rightarrow> plan_step \<Rightarrow> unit plan_result" where
  "validate_step_dataflow policies plan g s =
     bindE (policy_of policies (ps_intent s)) (\<lambda>p.
     bindE (mapE (bind_argument_template plan (ps_depends_on s)) (po_argument_bindings p)) (\<lambda>bindings.
     bindE (mapE (bind_condition_template plan (ps_depends_on s)) (po_preconditions p)) (\<lambda>conditions.
     bindE (guardE (ps_argument_bindings s = bindings) (Raised PfDataflow)) (\<lambda>_.
     bindE (guardE (list_all2 condition_eq (ps_preconditions s) conditions) (Raised PfDataflow)) (\<lambda>_.
     guardE (list_all (\<lambda>r. rr_step_id r \<in> set (dget (dg_dependencies g) (ps_step_id s))) (step_references s)) (Raised PfDataflow))))))"

definition validate_dataflow :: "policy_catalog \<Rightarrow> multi_intent_plan \<Rightarrow> dependency_graph \<Rightarrow> unit plan_result" where
  "validate_dataflow policies plan g = foldE (\<lambda>s _. validate_step_dataflow policies plan g s) (mp_steps plan) ()"

text \<open>The list comprehension over candidates: \<open>is_ancestor\<close> is only asked for steps of the intent.\<close>

fun predecessor_candidates :: "dependency_graph \<Rightarrow> string \<Rightarrow> string \<Rightarrow> plan_step list \<Rightarrow> string list plan_result" where
  "predecessor_candidates g intent sid [] = Inr []"
| "predecessor_candidates g intent sid (c # cs) =
     bindE (if ps_intent c = intent then is_ancestor g (ps_step_id c) sid else Inr False) (\<lambda>b.
     bindE (predecessor_candidates g intent sid cs) (\<lambda>rest.
     Inr (if b then ps_step_id c # rest else rest)))"

definition validate_required_predecessors :: "policy_catalog \<Rightarrow> multi_intent_plan \<Rightarrow> dependency_graph \<Rightarrow> unit plan_result" where
  "validate_required_predecessors policies plan g = foldE (\<lambda>s _.
     bindE (policy_of policies (ps_intent s)) (\<lambda>p.
     foldE (\<lambda>intent _.
       bindE (predecessor_candidates g intent (ps_step_id s) (mp_steps plan)) (\<lambda>candidates.
       guardE (candidates \<noteq> []) (Raised PfMissingPredecessor))) (po_required_predecessor_intents p) ())) (mp_steps plan) ()"

text \<open>\<open>unsafe\<close> pairs each dangerous step with its policy.\<close>

fun unsafe_steps :: "policy_catalog \<Rightarrow> plan_step list \<Rightarrow> (plan_step \<times> intent_policy) list plan_result" where
  "unsafe_steps policies [] = Inr []"
| "unsafe_steps policies (s # ss) =
     bindE (policy_of policies (ps_intent s)) (\<lambda>p.
     bindE (unsafe_steps policies ss) (\<lambda>rest.
     Inr (if unsafe_policy p then (s, p) # rest else rest)))"

definition check_pair :: "dependency_graph \<Rightarrow> plan_step \<times> intent_policy \<Rightarrow> plan_step \<times> intent_policy \<Rightarrow> unit plan_result" where
  "check_pair g l r =
     (if po_allow_parallel_side_effects (snd l) \<and> po_allow_parallel_side_effects (snd r) then Inr ()
      else bindE (is_ancestor g (ps_step_id (fst l)) (ps_step_id (fst r))) (\<lambda>a.
        bindE (if a then Inr True else is_ancestor g (ps_step_id (fst r)) (ps_step_id (fst l))) (\<lambda>ordered.
        guardE ordered (Raised PfUnordered))))"

fun check_pairs :: "dependency_graph \<Rightarrow> (plan_step \<times> intent_policy) list \<Rightarrow> unit plan_result" where
  "check_pairs g [] = Inr ()"
| "check_pairs g (l # rest) = bindE (foldE (\<lambda>r _. check_pair g l r) rest ()) (\<lambda>_. check_pairs g rest)"

definition validate_side_effect_order :: "policy_catalog \<Rightarrow> multi_intent_plan \<Rightarrow> dependency_graph \<Rightarrow> unit plan_result" where
  "validate_side_effect_order policies plan g = bindE (unsafe_steps policies (mp_steps plan)) (check_pairs g)"

definition plan_validate :: "policy_catalog \<Rightarrow> multi_intent_plan \<Rightarrow> dependency_graph plan_result" where
  "plan_validate policies plan =
     bindE (foldE (\<lambda>s _. validate_step policies s) (mp_steps plan) ()) (\<lambda>_.
     bindE (dependency_graph_init plan) (\<lambda>g.
     bindE (validate_dataflow policies plan g) (\<lambda>_.
     bindE (validate_required_predecessors policies plan g) (\<lambda>_.
     bindE (validate_side_effect_order policies plan g) (\<lambda>_. Inr g)))))"

section \<open>Trusted dependencies\<close>

text \<open>\<open>if x not in l: l.append(x)\<close> for each \<open>x\<close>.\<close>

definition add_missing :: "string list \<Rightarrow> string list \<Rightarrow> string list" where
  "add_missing l xs = fold (\<lambda>x l. if x \<in> set l then l else l @ [x]) xs l"

definition predecessor_intents :: "intent_policy \<Rightarrow> string list" where
  "predecessor_intents p = po_required_predecessor_intents p @ map (\<lambda>b. ir_intent (ib_source b)) (po_argument_bindings p) @
     concat (map (\<lambda>c. ir_intent (ic_left c) # (case ic_expected_from c of None \<Rightarrow> [] | Some r \<Rightarrow> [ir_intent r])) (po_preconditions p))"

definition earlier_steps :: "multi_intent_plan \<Rightarrow> plan_step \<Rightarrow> string \<Rightarrow> string list" where
  "earlier_steps plan s intent = map ps_step_id (filter (\<lambda>c. ps_intent c = intent \<and>
     source_order plan (ps_step_id c) < source_order plan (ps_step_id s)) (mp_steps plan))"

text \<open>
  One turn of the loop over the steps. The state is the dependencies of the steps seen so far and the dangerous steps
  before the current one with their policies. Step ids are unique, so the entry of the dictionary a turn
  works on is the one of its own step.
\<close>

definition bind_step_dependencies ::
  "(string list \<Rightarrow> string list) \<Rightarrow> multi_intent_plan \<Rightarrow> plan_step \<times> intent_policy
     \<Rightarrow> (string, string list) dict \<times> (string \<times> intent_policy) list
     \<Rightarrow> ((string, string list) dict \<times> (string \<times> intent_policy) list) plan_result" where
  "bind_step_dependencies ord plan sp st = (case (sp, st) of ((s, p), (deps, previous_unsafe)) \<Rightarrow>
     bindE (foldE (\<lambda>intent l.
         if earlier_steps plan s intent = [] then Inl (Raised PfMissingPredecessor)
         else Inr (add_missing l (earlier_steps plan s intent)))
       (ord (predecessor_intents p)) (dget deps (ps_step_id s))) (\<lambda>l.
     if unsafe_policy p
     then Inr (dset deps (ps_step_id s) (add_missing l (map fst (filter (\<lambda>q.
            \<not> (po_allow_parallel_side_effects p \<and> po_allow_parallel_side_effects (snd q))) previous_unsafe))),
          previous_unsafe @ [(ps_step_id s, p)])
     else Inr (dset deps (ps_step_id s) l, previous_unsafe)))"

definition dedup_first :: "string list \<Rightarrow> string list" where
  "dedup_first xs = rev (remdups (rev xs))"

definition bind_step :: "multi_intent_plan \<Rightarrow> (string, string list) dict \<Rightarrow> plan_step \<times> intent_policy \<Rightarrow> plan_step plan_result" where
  "bind_step plan deps sp = (case sp of (s, p) \<Rightarrow>
     bindE (mapE (bind_argument_template plan (dget deps (ps_step_id s))) (po_argument_bindings p)) (\<lambda>bindings.
     bindE (mapE (bind_condition_template plan (dget deps (ps_step_id s))) (po_preconditions p)) (\<lambda>conditions.
     plan_step_post_init (s\<lparr>ps_depends_on := dget deps (ps_step_id s), ps_requires_approval := po_requires_approval p,
       ps_write := po_write p, ps_replay_policy := po_replay_policy p, ps_capabilities := po_capabilities p,
       ps_approval_roles := po_approval_roles p, ps_parameter_contract := po_parameter_contract p,
       ps_required_predecessor_intents := po_required_predecessor_intents p, ps_argument_bindings := bindings,
       ps_preconditions := conditions, ps_allow_parallel_side_effects := po_allow_parallel_side_effects p,
       ps_result_contract := po_result_contract p\<rparr>))))"

definition known_policy :: "policy_catalog \<Rightarrow> plan_step \<Rightarrow> (plan_step \<times> intent_policy) plan_result" where
  "known_policy policies s = (case map_of policies (ps_intent s) of None \<Rightarrow> Inl (Raised PfUnknownIntent) | Some p \<Rightarrow> Inr (s, p))"

definition bind_trusted_dependencies ::
  "(string list \<Rightarrow> string list) \<Rightarrow> policy_catalog \<Rightarrow> multi_intent_plan \<Rightarrow> multi_intent_plan plan_result" where
  "bind_trusted_dependencies ord policies plan =
     bindE (mapE (known_policy policies) (mp_steps plan)) (\<lambda>sps.
     bindE (foldE (bind_step_dependencies ord plan) sps
       (map (\<lambda>s. (ps_step_id s, dedup_first (ps_depends_on s))) (mp_steps plan), [])) (\<lambda>st.
     bindE (mapE (bind_step plan (fst st)) sps) (\<lambda>bound_steps.
     bindE (multi_intent_plan_post_init (plan\<lparr>mp_steps := bound_steps\<rparr>)) (\<lambda>bound.
     bindE (plan_validate policies bound) (\<lambda>_. Inr bound)))))"

section \<open>The order of side effects\<close>

lemma unsafe_steps_member:
  "unsafe_steps policies ss = Inr us \<Longrightarrow> s \<in> set ss \<Longrightarrow> map_of policies (ps_intent s) = Some p \<Longrightarrow> unsafe_policy p
    \<Longrightarrow> (s, p) \<in> set us"
  by (induction ss arbitrary: us) (auto simp: exc_simps policy_of_def)

lemma foldE_unit_all: "foldE (\<lambda>x _. f x) xs () = Inr () \<longleftrightarrow> (\<forall>x \<in> set xs. f x = Inr ())"
  by (induction xs) (auto simp: exc_simps)

lemma check_pairs_ordered:
  "check_pairs g us = Inr () \<Longrightarrow> x \<in> set us \<Longrightarrow> y \<in> set us \<Longrightarrow> x \<noteq> y \<Longrightarrow>
    check_pair g x y = Inr () \<or> check_pair g y x = Inr ()"
proof (induction us)
  case (Cons l rest)
  then have "\<forall>r \<in> set rest. check_pair g l r = Inr ()" "check_pairs g rest = Inr ()"
    by (simp_all add: exc_simps foldE_unit_all)
  with Cons show ?case by auto
qed simp

lemma check_pair_ok:
  assumes "check_pair g l r = Inr ()" "\<not> (po_allow_parallel_side_effects (snd l) \<and> po_allow_parallel_side_effects (snd r))"
  shows "is_ancestor g (ps_step_id (fst l)) (ps_step_id (fst r)) = Inr True \<or>
    is_ancestor g (ps_step_id (fst r)) (ps_step_id (fst l)) = Inr True"
  using assms by (auto simp: check_pair_def exc_simps split: if_splits)

lemma plan_validate_ok:
  assumes "plan_validate policies plan = Inr g"
  shows "foldE (\<lambda>s _. validate_step policies s) (mp_steps plan) () = Inr ()" "dependency_graph_init plan = Inr g"
    "validate_dataflow policies plan g = Inr ()" "validate_required_predecessors policies plan g = Inr ()"
    "validate_side_effect_order policies plan g = Inr ()"
  using assms unfolding plan_validate_def bindE_eq_Inr by auto

text \<open>
  Dangerous steps of a validated plan never race. Of two different steps whose policies write or must not be replayed, unless both
  policies allow parallel side effects, one depends on the other, directly or through other steps.
\<close>

theorem validated_side_effects_ordered:
  assumes "distinct (step_ids plan)" "plan_validate policies plan = Inr g"
    and "s \<in> set (mp_steps plan)" "t \<in> set (mp_steps plan)" "s \<noteq> t"
    and "map_of policies (ps_intent s) = Some p" "map_of policies (ps_intent t) = Some q"
    and "unsafe_policy p" "unsafe_policy q" "\<not> (po_allow_parallel_side_effects p \<and> po_allow_parallel_side_effects q)"
  shows "(ps_step_id s, ps_step_id t) \<in> (step_edges plan)\<^sup>+ \<or> (ps_step_id t, ps_step_id s) \<in> (step_edges plan)\<^sup>+"
proof -
  obtain us where us: "unsafe_steps policies (mp_steps plan) = Inr us" "check_pairs g us = Inr ()"
    using plan_validate_ok(5)[OF assms(2)] by (auto simp: validate_side_effect_order_def exc_simps)
  have "(s, p) \<in> set us" "(t, q) \<in> set us" using assms unsafe_steps_member[OF us(1)] by blast+
  then have "check_pair g (s, p) (t, q) = Inr () \<or> check_pair g (t, q) (s, p) = Inr ()"
    using check_pairs_ordered[OF us(2)] assms(5) by blast
  then have "is_ancestor g (ps_step_id s) (ps_step_id t) = Inr True \<or> is_ancestor g (ps_step_id t) (ps_step_id s) = Inr True"
    using check_pair_ok[of g "(s, p)" "(t, q)"] check_pair_ok[of g "(t, q)" "(s, p)"] assms(10) by auto
  moreover have "ps_step_id s \<in> set (step_ids plan)" "ps_step_id t \<in> set (step_ids plan)" using assms(3,4) by auto
  ultimately show ?thesis
    using is_ancestor_iff[OF assms(1) plan_validate_ok(2)[OF assms(2)]] by auto
qed

section \<open>Required predecessors and trusted fields\<close>

lemma predecessor_candidates_ok:
  "predecessor_candidates g intent sid cs = Inr (c # rest) \<Longrightarrow>
    \<exists>x \<in> set cs. ps_intent x = intent \<and> is_ancestor g (ps_step_id x) sid = Inr True"
  by (induction cs arbitrary: c rest) (auto simp: exc_simps split: if_splits)

text \<open>
  A validated plan follows its catalogue. Every step has the approval requirement, the write flag, the replay policy and the approval roles of
  the policy of its intent, and for every predecessor intent the policy requires some step of that
  intent runs before it.
\<close>

theorem validated_plan_follows_policy:
  assumes "distinct (step_ids plan)" "plan_validate policies plan = Inr g" "s \<in> set (mp_steps plan)"
  shows "\<exists>p. map_of policies (ps_intent s) = Some p \<and> ps_requires_approval s = po_requires_approval p \<and>
    ps_write s = po_write p \<and> ps_replay_policy s = po_replay_policy p \<and> ps_approval_roles s = po_approval_roles p \<and>
    (\<forall>intent \<in> set (po_required_predecessor_intents p). \<exists>c \<in> set (mp_steps plan). ps_intent c = intent \<and>
       (ps_step_id c, ps_step_id s) \<in> (step_edges plan)\<^sup>+)"
proof -
  note ok = plan_validate_ok[OF assms(2)]
  have "validate_step policies s = Inr ()" using ok(1) assms(3) unfolding foldE_unit_all by blast
  then obtain p where p: "map_of policies (ps_intent s) = Some p" "obeys_policy s p"
    unfolding validate_step_def by (auto simp: exc_simps split: option.splits)
  have "\<exists>c \<in> set (mp_steps plan). ps_intent c = intent \<and> (ps_step_id c, ps_step_id s) \<in> (step_edges plan)\<^sup>+"
    if i: "intent \<in> set (po_required_predecessor_intents p)" for intent
  proof -
    have "\<forall>s \<in> set (mp_steps plan). bindE (policy_of policies (ps_intent s)) (\<lambda>p.
        foldE (\<lambda>intent _. bindE (predecessor_candidates g intent (ps_step_id s) (mp_steps plan)) (\<lambda>candidates.
          guardE (candidates \<noteq> []) (Raised PfMissingPredecessor))) (po_required_predecessor_intents p) ()) = Inr ()"
      using ok(4) unfolding validate_required_predecessors_def by (subst (asm) foldE_unit_all)
    from bspec[OF this assms(3)] p(1)
    have "\<forall>intent \<in> set (po_required_predecessor_intents p). bindE (predecessor_candidates g intent (ps_step_id s) (mp_steps plan)) (\<lambda>candidates.
        guardE (candidates \<noteq> []) (Raised PfMissingPredecessor)) = Inr ()"
      by (simp add: policy_of_def foldE_unit_all)
    from bspec[OF this i] obtain cs where "predecessor_candidates g intent (ps_step_id s) (mp_steps plan) = Inr cs" "cs \<noteq> []"
      unfolding bindE_eq_Inr guardE_eq_Inr by blast
    then obtain c rest where "predecessor_candidates g intent (ps_step_id s) (mp_steps plan) = Inr (c # rest)"
      by (cases cs) auto
    then obtain x where x: "x \<in> set (mp_steps plan)" "ps_intent x = intent" "is_ancestor g (ps_step_id x) (ps_step_id s) = Inr True"
      by (blast dest: predecessor_candidates_ok)
    then have "ps_step_id x \<in> set (step_ids plan)" by simp
    with x is_ancestor_iff[OF assms(1) ok(2)] show ?thesis by auto
  qed
  with p show ?thesis by (auto simp: obeys_policy_def)
qed

section \<open>Binding an untrusted plan\<close>

lemma set_add_missing [simp]: "set (add_missing l xs) = set l \<union> set xs"
  unfolding add_missing_def by (induction xs arbitrary: l) auto

lemma add_missing_Nil: "add_missing l [] = l"
  by (simp add: add_missing_def)

lemma set_dedup_first [simp]: "set (dedup_first xs) = set xs"
  by (simp add: dedup_first_def)

lemma dget_dset [simp]: "dget (dset d k v) k' = (if k' = k then v else dget d k')"
  by (simp add: dget_def)

lemma bind_intents_fold:
  assumes "foldE (\<lambda>intent l. if E intent = [] then Inl e else Inr (add_missing l (E intent))) intents l = Inr l'"
  shows "set l \<subseteq> set l'" "\<And>i. i \<in> set intents \<Longrightarrow> E i \<noteq> [] \<and> set (E i) \<subseteq> set l'"
proof -
  have "set l \<subseteq> set l' \<and> (\<forall>i \<in> set intents. E i \<noteq> [] \<and> set (E i) \<subseteq> set l')"
    using assms
  proof (induction intents arbitrary: l)
    case (Cons i intents)
    then have "E i \<noteq> []" "foldE (\<lambda>intent l. if E intent = [] then Inl e else Inr (add_missing l (E intent))) intents (add_missing l (E i)) = Inr l'"
      by (auto split: if_splits)
    with Cons.IH[of "add_missing l (E i)"] show ?case by auto
  qed simp
  then show "set l \<subseteq> set l'" "\<And>i. i \<in> set intents \<Longrightarrow> E i \<noteq> [] \<and> set (E i) \<subseteq> set l'" by auto
qed

lemma bind_step_dependencies_grow:
  assumes "bind_step_dependencies ord plan (s, p) (deps, pu) = Inr (deps', pu')"
  shows "set (dget deps k) \<subseteq> set (dget deps' k)"
    and "i \<in> set (ord (predecessor_intents p)) \<Longrightarrow> earlier_steps plan s i \<noteq> [] \<and> set (earlier_steps plan s i) \<subseteq> set (dget deps' (ps_step_id s))"
proof -
  from assms obtain l where l: "foldE (\<lambda>intent l. if earlier_steps plan s intent = [] then Inl (Raised PfMissingPredecessor)
      else Inr (add_missing l (earlier_steps plan s intent))) (ord (predecessor_intents p)) (dget deps (ps_step_id s)) = Inr l"
    "\<exists>more. deps' = dset deps (ps_step_id s) (add_missing l more)"
    unfolding bind_step_dependencies_def prod.case bindE_eq_Inr
    by (metis (no_types, lifting) add_missing_Nil old.sum.inject(2) prod.inject)
  note f = bind_intents_fold[OF l(1)]
  from l(2) f(1) show "set (dget deps k) \<subseteq> set (dget deps' k)" by auto
  from l(2) have "set l \<subseteq> set (dget deps' (ps_step_id s))" by auto
  with f(2)[of i] show "i \<in> set (ord (predecessor_intents p)) \<Longrightarrow>
      earlier_steps plan s i \<noteq> [] \<and> set (earlier_steps plan s i) \<subseteq> set (dget deps' (ps_step_id s))" by blast
qed

lemma bind_all_dependencies:
  assumes "foldE (bind_step_dependencies ord plan) sps (deps, pu) = Inr (deps', pu')"
  shows "(\<forall>k. set (dget deps k) \<subseteq> set (dget deps' k)) \<and>
    (\<forall>(s, p) \<in> set sps. \<forall>i \<in> set (ord (predecessor_intents p)).
       earlier_steps plan s i \<noteq> [] \<and> set (earlier_steps plan s i) \<subseteq> set (dget deps' (ps_step_id s)))"
  using assms
proof (induction sps arbitrary: deps pu)
  case (Cons sp sps)
  obtain s p where sp: "sp = (s, p)" by (cases sp)
  from Cons.prems obtain d1 p1 where step: "bind_step_dependencies ord plan (s, p) (deps, pu) = Inr (d1, p1)"
    and rest: "foldE (bind_step_dependencies ord plan) sps (d1, p1) = Inr (deps', pu')"
    by (auto simp: sp exc_simps)
  note IH = Cons.IH[OF rest]
  have "set (dget deps k) \<subseteq> set (dget deps' k)" for k
    using bind_step_dependencies_grow(1)[OF step, of k] IH by blast
  moreover have "earlier_steps plan s i \<noteq> [] \<and> set (earlier_steps plan s i) \<subseteq> set (dget deps' (ps_step_id s))"
    if "i \<in> set (ord (predecessor_intents p))" for i
    using bind_step_dependencies_grow(2)[OF step that] IH by blast
  ultimately show ?case using IH by (auto simp: sp)
qed simp

definition bound_from :: "policy_catalog \<Rightarrow> multi_intent_plan \<Rightarrow> plan_step \<Rightarrow> plan_step \<Rightarrow> bool" where
  "bound_from policies plan s b \<longleftrightarrow> ps_step_id b = ps_step_id s \<and> ps_intent b = ps_intent s \<and> ps_arguments b = ps_arguments s \<and>
     set (ps_depends_on s) \<subseteq> set (ps_depends_on b) \<and>
     (\<exists>p. map_of policies (ps_intent s) = Some p \<and> ps_requires_approval b = po_requires_approval p \<and> ps_write b = po_write p \<and>
        ps_replay_policy b = po_replay_policy p \<and>
        (\<forall>i \<in> set (predecessor_intents p). earlier_steps plan s i \<noteq> [] \<and> set (earlier_steps plan s i) \<subseteq> set (ps_depends_on b)))"

lemma plan_step_post_init_same: "plan_step_post_init s = Inr b \<Longrightarrow> b = s"
  unfolding plan_step_post_init_def bindE_eq_Inr by blast

lemma dget_hints:
  assumes "distinct (step_ids plan)" "s \<in> set (mp_steps plan)"
  shows "dget (map (\<lambda>s. (ps_step_id s, dedup_first (ps_depends_on s))) (mp_steps plan)) (ps_step_id s) = dedup_first (ps_depends_on s)"
proof -
  have "map_of (map (\<lambda>s. (ps_step_id s, dedup_first (ps_depends_on s))) (mp_steps plan)) (ps_step_id s) = Some (dedup_first (ps_depends_on s))"
    using assms by (intro map_of_is_SomeI) (auto simp: o_def)
  then show ?thesis by (simp add: dget_def)
qed

text \<open>
  Binding trusted dependencies only restricts an untrusted plan. The bound plan has the same steps with the same intents and arguments in the
  same order; each keeps all the dependencies the planner asked for and depends on every earlier step of every predecessor
  intent of its policy, none of which is missing; approval, write and replay flags are those of the policy; and the
  result passes the validator.
\<close>

theorem bound_plan_trusted:
  assumes "distinct (step_ids plan)" "bind_trusted_dependencies ord policies plan = Inr bound"
    and ord: "\<And>xs. set (ord xs) = set xs"
  shows "list_all2 (bound_from policies plan) (mp_steps plan) (mp_steps bound) \<and> isOk (plan_validate policies bound)"
proof -
  let ?deps = "map (\<lambda>s. (ps_step_id s, dedup_first (ps_depends_on s))) (mp_steps plan)"
  from assms(2) obtain sps deps pu steps where sps: "mapE (known_policy policies) (mp_steps plan) = Inr sps"
    and fold: "foldE (bind_step_dependencies ord plan) sps (?deps, []) = Inr (deps, pu)"
    and steps: "mapE (bind_step plan deps) sps = Inr steps"
    and bound: "multi_intent_plan_post_init (plan\<lparr>mp_steps := steps\<rparr>) = Inr bound" and ok: "isOk (plan_validate policies bound)"
    unfolding bind_trusted_dependencies_def bindE_eq_Inr isOk_iff by auto
  have known: "list_all2 (\<lambda>s sp. fst sp = s \<and> map_of policies (ps_intent s) = Some (snd sp)) (mp_steps plan) sps"
    using sps unfolding mapE_eq_Inr by (rule list_all2_mono) (auto simp: known_policy_def split: option.splits)
  have built: "list_all2 (\<lambda>sp b. bind_step plan deps sp = Inr b) sps steps" using steps unfolding mapE_eq_Inr .
  have "mp_steps bound = steps" using bound by (auto simp: multi_intent_plan_post_init_def exc_simps)
  moreover have "list_all2 (bound_from policies plan) (mp_steps plan) steps"
  proof (rule list_all2I)
    show "length (mp_steps plan) = length steps" using list_all2_lengthD[OF known] list_all2_lengthD[OF built] by simp
    show "\<forall>x \<in> set (zip (mp_steps plan) steps). case_prod (bound_from policies plan) x"
    proof (clarify)
      fix s b assume sb: "(s, b) \<in> set (zip (mp_steps plan) steps)"
      then obtain i where i: "i < length steps" "mp_steps plan ! i = s" "steps ! i = b" "i < length (mp_steps plan)"
        by (auto simp: in_set_zip)
      from list_all2_nthD[OF known i(4)] i(2) obtain p where p: "sps ! i = (s, p)" "map_of policies (ps_intent s) = Some p"
        by (cases "sps ! i") auto
      have len: "i < length sps" using list_all2_lengthD[OF built] i(1) by simp
      from list_all2_nthD[OF built len] p(1) i(3) have "bind_step plan deps (s, p) = Inr b" by simp
      then have b: "ps_step_id b = ps_step_id s" "ps_intent b = ps_intent s" "ps_arguments b = ps_arguments s"
        "ps_depends_on b = dget deps (ps_step_id s)" "ps_requires_approval b = po_requires_approval p" "ps_write b = po_write p"
        "ps_replay_policy b = po_replay_policy p"
        unfolding bind_step_def prod.case bindE_eq_Inr by (auto dest!: plan_step_post_init_same)
      have s: "s \<in> set (mp_steps plan)" using i by (metis nth_mem)
      note grow = bind_all_dependencies[OF fold]
      have "set (ps_depends_on s) \<subseteq> set (dget deps (ps_step_id s))"
        using grow dget_hints[OF assms(1) s] by (metis set_dedup_first)
      moreover have "earlier_steps plan s j \<noteq> [] \<and> set (earlier_steps plan s j) \<subseteq> set (dget deps (ps_step_id s))"
        if "j \<in> set (predecessor_intents p)" for j
      proof -
        have "(s, p) \<in> set sps" using nth_mem[OF len] p(1) by simp
        moreover have "j \<in> set (ord (predecessor_intents p))" using that ord by blast
        ultimately show ?thesis using grow by blast
      qed
      ultimately show "bound_from policies plan s b" unfolding bound_from_def using b p(2) by auto
    qed
  qed
  ultimately show ?thesis using ok by simp
qed

section \<open>Two payments\<close>

definition pay_policy :: intent_policy where
  "pay_policy = \<lparr>po_intent = ''pay'', po_requires_approval = True, po_write = True, po_replay_policy = ''never'', po_capabilities = [],
     po_approval_roles = [''boss''], po_parameter_contract = None, po_required_predecessor_intents = [''get''],
     po_argument_bindings = [\<lparr>ib_target = ''sum'', ib_source = \<lparr>ir_intent = ''get'', ir_path = [JStr ''total'']\<rparr>\<rparr>], po_preconditions = [],
     po_allow_parallel_side_effects = False, po_result_contract = None\<rparr>"

definition get_policy :: intent_policy where
  "get_policy = \<lparr>po_intent = ''get'', po_requires_approval = False, po_write = False, po_replay_policy = ''safe'', po_capabilities = [],
     po_approval_roles = [], po_parameter_contract = None, po_required_predecessor_intents = [],
     po_argument_bindings = [], po_preconditions = [], po_allow_parallel_side_effects = False, po_result_contract = None\<rparr>"

definition pay_catalog :: policy_catalog where
  "pay_catalog = [(''get'', get_policy), (''pay'', pay_policy)]"

definition pay_plan :: multi_intent_plan where
  "pay_plan = sample_plan\<lparr>mp_steps := [sample_step ''a'' ''get'' [], sample_step ''b'' ''pay'' [], sample_step ''c'' ''pay'' []]\<rparr>"

definition pay_step :: "string \<Rightarrow> string list \<Rightarrow> plan_step" where
  "pay_step sid deps = (sample_step sid ''pay'' deps)\<lparr>ps_requires_approval := True, ps_write := True, ps_replay_policy := ''never'',
     ps_approval_roles := [''boss''], ps_required_predecessor_intents := [''get''],
     ps_argument_bindings := [\<lparr>ab_target = ''sum'', ab_source = \<lparr>rr_step_id = ''a'', rr_path = [JStr ''total'']\<rparr>\<rparr>]\<rparr>"

definition bound_pay_plan :: multi_intent_plan where
  "bound_pay_plan = sample_plan\<lparr>mp_steps := [sample_step ''a'' ''get'' [], pay_step ''b'' [''a''], pay_step ''c'' [''a'', ''b'']]\<rparr>"

lemma pay_plan_bound: "bind_trusted_dependencies remdups pay_catalog pay_plan = Inr bound_pay_plan"
  by code_simp

lemma pay_plan_distinct: "distinct (step_ids pay_plan)" "distinct (step_ids bound_pay_plan)"
  by code_simp+

lemma pay_plan_validated: obtains g where "plan_validate pay_catalog bound_pay_plan = Inr g"
proof -
  have "isOk (plan_validate pay_catalog bound_pay_plan)" by code_simp
  then show thesis using that unfolding isOk_iff by blast
qed

theorem bound_plan_trusted_witness:
  "list_all2 (bound_from pay_catalog pay_plan) (mp_steps pay_plan) (mp_steps bound_pay_plan) \<and> isOk (plan_validate pay_catalog bound_pay_plan)"
  by (rule bound_plan_trusted[OF pay_plan_distinct(1) pay_plan_bound]) simp

theorem validated_side_effects_ordered_witness:
  "(''b'', ''c'') \<in> (step_edges bound_pay_plan)\<^sup>+ \<or> (''c'', ''b'') \<in> (step_edges bound_pay_plan)\<^sup>+"
proof (rule pay_plan_validated)
  fix g assume "plan_validate pay_catalog bound_pay_plan = Inr g"
  from validated_side_effects_ordered[OF pay_plan_distinct(2) this, of "pay_step ''b'' [''a'']" "pay_step ''c'' [''a'', ''b'']" pay_policy pay_policy]
  show ?thesis
    by (simp add: bound_pay_plan_def pay_step_def sample_step_def pay_catalog_def pay_policy_def unsafe_policy_def)
qed

theorem validated_plan_follows_policy_witness:
  "\<exists>p. map_of pay_catalog ''pay'' = Some p \<and> po_requires_approval p \<and>
    (\<forall>intent \<in> set (po_required_predecessor_intents p). \<exists>c \<in> set (mp_steps bound_pay_plan). ps_intent c = intent \<and>
       (ps_step_id c, ''c'') \<in> (step_edges bound_pay_plan)\<^sup>+)"
proof (rule pay_plan_validated)
  fix g assume "plan_validate pay_catalog bound_pay_plan = Inr g"
  from validated_plan_follows_policy[OF pay_plan_distinct(2) this, of "pay_step ''c'' [''a'', ''b'']"]
  show ?thesis by (auto simp: bound_pay_plan_def pay_step_def sample_step_def)
qed

end
