(* ===== verification/Plan_State.thy ===== *)
theory Plan_State
  imports Plan_Validator
begin

text \<open>
  The event reducer of plan executions (\<open>planning/state_machine.py\<close>, class \<open>TaskStateMachine\<close>): one definition per event
  type, their dispatch in \<open>apply\<close>, replay, the recovery of interrupted steps, and the parser of snapshots with the
  coherence check. An event type is compared as the text it is. The state of a step before the
  event is \<open>cur\<close>, the data of the event \<open>data\<close>.
\<close>

section \<open>Events\<close>

definition initial_state :: "multi_intent_plan \<Rightarrow> plan_execution_state" where
  "initial_state plan = \<lparr>px_plan_id = mp_plan_id plan, px_steps = map (\<lambda>s. (ps_step_id s, fresh_step)) (mp_steps plan), px_version = 0\<rparr>"

definition required_text :: "jdict \<Rightarrow> string \<Rightarrow> string plan_result" where
  "required_text data key = (case jget data key of
     JStr s \<Rightarrow> if py_strip s = [] then Inl (Raised PfEventInvalid) else Inr s | _ \<Rightarrow> Inl (Raised PfEventInvalid))"

definition sha256_text :: "string \<Rightarrow> string plan_result" where
  "sha256_text s = (if is_sha256 s then Inr s else Inl (Raised PfSha256))"

definition required_sha256 :: "jdict \<Rightarrow> string \<Rightarrow> string plan_result" where
  "required_sha256 data key = bindE (required_text data key) sha256_text"

definition optional_approval_id :: "jdict \<Rightarrow> string option plan_result" where
  "optional_approval_id data = (case jget data ''approvalId'' of JNull \<Rightarrow> Inr None
     | _ \<Rightarrow> bindE (required_text data ''approvalId'') (\<lambda>s. Inr (Some s)))"

text \<open>\<open>a or b\<close> on an optional text.\<close>

definition text_or :: "string option \<Rightarrow> string \<Rightarrow> string" where
  "text_or a b = (case a of None \<Rightarrow> b | Some s \<Rightarrow> if s = [] then b else s)"

definition on_step_waiting_approval :: "plan_step \<Rightarrow> plan_step_state \<Rightarrow> jdict \<Rightarrow> plan_step_state plan_result" where
  "on_step_waiting_approval step cur data =
     bindE (guardE (ss_status cur = StPending \<and> ps_requires_approval step) (Raised PfTransition)) (\<lambda>_.
     bindE (guardE (ss_approval_receipt cur = None) (Raised PfTransition)) (\<lambda>_.
     bindE (required_sha256 data ''actionHash'') (\<lambda>h.
     bindE (optional_approval_id data) (\<lambda>aid.
     Inr (cur\<lparr>ss_status := StWaitingApproval, ss_approval_id := aid, ss_approval_action_hash := Some h\<rparr>)))))"

definition on_step_approval_granted :: "plan_execution_state \<Rightarrow> plan_step \<Rightarrow> plan_step_state \<Rightarrow> jdict \<Rightarrow> plan_step_state plan_result" where
  "on_step_approval_granted st step cur data =
     bindE (guardE (ss_status cur \<in> {StPending, StWaitingApproval}) (Raised PfTransition)) (\<lambda>_.
     bindE (required_sha256 data ''actionHash'') (\<lambda>h.
     bindE (guardE (h = text_or (ss_approval_action_hash cur) h) (Raised PfTransition)) (\<lambda>_.
     bindE (required_text data ''approvalId'') (\<lambda>aid.
     bindE (case jget data ''receipt'' of JObj d \<Rightarrow> receipt_from_dict d | _ \<Rightarrow> Inl (Raised PfTransition)) (\<lambda>r.
     bindE (guardE (re_consumed_at r \<noteq> None) (Raised PfTransition)) (\<lambda>_.
     bindE (guardE (re_approval_id r = aid \<and> re_plan_id r = px_plan_id st \<and> re_step_id r = ps_step_id step \<and>
              re_action_hash r = text_or (ss_approval_action_hash cur) h \<and> re_state_version r = px_version st) (Raised PfTransition)) (\<lambda>_.
     bindE (guardE (case ss_approval_id cur of None \<Rightarrow> True
              | Some a \<Rightarrow> a = aid \<or> startswith a ''plan-approval-request-'') (Raised PfTransition)) (\<lambda>_.
     bindE (guardE (\<not> (set (ps_approval_roles step) \<inter> set (re_approver_roles r) = {})) (Raised PfTransition)) (\<lambda>_.
     Inr (cur\<lparr>ss_status := StPending, ss_approval_id := Some aid,
       ss_approval_action_hash := Some (text_or (ss_approval_action_hash cur) h), ss_approval_receipt := Some r, ss_error := None\<rparr>))))))))))"

definition on_step_approval_denied :: "plan_step_state \<Rightarrow> jdict \<Rightarrow> plan_step_state plan_result" where
  "on_step_approval_denied cur data =
     bindE (guardE (ss_status cur \<in> {StPending, StWaitingApproval}) (Raised PfTransition)) (\<lambda>_.
     bindE (required_sha256 data ''actionHash'') (\<lambda>h.
     bindE (guardE (h = text_or (ss_approval_action_hash cur) h) (Raised PfTransition)) (\<lambda>_.
     bindE (optional_approval_id data) (\<lambda>decision.
     bindE (guardE (\<not> (ss_approval_id cur \<noteq> None \<and> decision \<noteq> None \<and> ss_approval_id cur \<noteq> decision)) (Raised PfTransition)) (\<lambda>_.
     bindE (required_text data ''reason'') (\<lambda>reason.
     Inr (cur\<lparr>ss_status := StFailed, ss_approval_id := (case decision of None \<Rightarrow> ss_approval_id cur | Some a \<Rightarrow> Some a),
       ss_approval_action_hash := Some (text_or (ss_approval_action_hash cur) h), ss_error := Some reason\<rparr>)))))))"

definition check_started_receipt :: "plan_step_state \<Rightarrow> jdict \<Rightarrow> unit plan_result" where
  "check_started_receipt cur data = (case (ss_approval_id cur, ss_approval_receipt cur) of
     (Some _, Some r) \<Rightarrow>
       bindE (guardE (jget data ''approvalReceiptId'' = JStr (re_receipt_id r)) (Raised PfTransition)) (\<lambda>_.
       bindE (pl_timestamp (jget data ''startedAt'')) (\<lambda>t.
       (case re_consumed_at r of None \<Rightarrow> Inl (Builtin TypeErr)
        | Some c \<Rightarrow> bindE (guardE (\<not> t < c) (Raised PfTransition)) (\<lambda>_.
            guardE (\<not> re_expires_at r < t) (Raised PfTransition)))))
   | _ \<Rightarrow> Inl (Raised PfTransition))"

definition on_step_started :: "plan_execution_state \<Rightarrow> plan_step \<Rightarrow> plan_step_state \<Rightarrow> jdict \<Rightarrow> plan_step_state plan_result" where
  "on_step_started st step cur data =
     bindE (guardE (ss_status cur = StPending) (Raised PfTransition)) (\<lambda>_.
     bindE (all_status (\<lambda>x. x = StSucceeded) st (ps_depends_on step)) (\<lambda>done.
     bindE (guardE done (Raised PfTransition)) (\<lambda>_.
     bindE (if ps_requires_approval step then check_started_receipt cur data else Inr ()) (\<lambda>_.
     Inr (cur\<lparr>ss_status := StRunning, ss_attempts := ss_attempts cur + 1, ss_error := None, ss_validation_status := None\<rparr>)))))"

definition on_step_validation_passed :: "plan_step_state \<Rightarrow> jdict \<Rightarrow> plan_step_state plan_result" where
  "on_step_validation_passed cur data =
     bindE (guardE (ss_status cur = StRunning) (Raised PfTransition)) (\<lambda>_.
     bindE (required_text data ''resultDigest'') (\<lambda>digest.
     bindE (guardE (is_sha256 digest) (Raised PfSha256)) (\<lambda>_.
     Inr (cur\<lparr>ss_validation_status := Some VsPassed\<rparr>))))"

definition on_step_validation_failed :: "plan_step \<Rightarrow> plan_step_state \<Rightarrow> jdict \<Rightarrow> plan_step_state plan_result" where
  "on_step_validation_failed step cur data =
     bindE (guardE (ss_status cur = StRunning) (Raised PfTransition)) (\<lambda>_.
     bindE (required_text data ''error'') (\<lambda>err.
     Inr (cur\<lparr>ss_status := (if ps_write step \<or> ps_replay_policy step = ''never'' then StManualIntervention else StFailed),
       ss_validation_status := Some VsFailed, ss_error := Some err\<rparr>)))"

definition on_step_succeeded :: "plan_step \<Rightarrow> plan_step_state \<Rightarrow> jdict \<Rightarrow> plan_step_state plan_result" where
  "on_step_succeeded step cur data =
     bindE (guardE (ss_status cur = StRunning) (Raised PfTransition)) (\<lambda>_.
     bindE (guardE (\<not> (ps_result_contract step \<noteq> None \<and> ss_validation_status cur \<noteq> Some VsPassed)) (Raised PfTransition)) (\<lambda>_.
     bindE (pl_strict_json (jget data ''result'')) (\<lambda>_.
     Inr (cur\<lparr>ss_status := StSucceeded, ss_result := jget data ''result'', ss_error := None\<rparr>))))"

definition on_step_failed :: "plan_step_state \<Rightarrow> jdict \<Rightarrow> plan_step_state plan_result" where
  "on_step_failed cur data =
     bindE (guardE (ss_status cur = StRunning) (Raised PfTransition)) (\<lambda>_.
     bindE (required_text data ''error'') (\<lambda>err.
     Inr (cur\<lparr>ss_status := StFailed, ss_error := Some err\<rparr>)))"

definition on_step_outcome_unknown :: "plan_step \<Rightarrow> plan_step_state \<Rightarrow> jdict \<Rightarrow> plan_step_state plan_result" where
  "on_step_outcome_unknown step cur data =
     bindE (guardE (ss_status cur = StRunning) (Raised PfTransition)) (\<lambda>_.
     bindE (guardE (ps_replay_policy step = ''never'') (Raised PfTransition)) (\<lambda>_.
     bindE (required_text data ''error'') (\<lambda>err.
     Inr (cur\<lparr>ss_status := StManualIntervention, ss_error := Some err\<rparr>))))"

definition on_step_skipped :: "plan_step_state \<Rightarrow> jdict \<Rightarrow> plan_step_state plan_result" where
  "on_step_skipped cur data =
     bindE (guardE (ss_status cur \<in> {StPending, StWaitingApproval}) (Raised PfTransition)) (\<lambda>_.
     bindE (required_text data ''reason'') (\<lambda>reason.
     Inr (cur\<lparr>ss_status := StSkipped, ss_error := Some reason\<rparr>)))"

definition on_step_not_dispatched :: "plan_step_state \<Rightarrow> jdict \<Rightarrow> plan_step_state plan_result" where
  "on_step_not_dispatched cur data =
     bindE (guardE (ss_status cur \<in> {StPending, StWaitingApproval}) (Raised PfTransition)) (\<lambda>_.
     bindE (required_text data ''error'') (\<lambda>err.
     Inr (cur\<lparr>ss_status := StFailed, ss_error := Some err\<rparr>)))"

definition on_step_not_applicable :: "plan_step_state \<Rightarrow> jdict \<Rightarrow> plan_step_state plan_result" where
  "on_step_not_applicable cur data =
     bindE (guardE (ss_status cur \<in> {StPending, StWaitingApproval}) (Raised PfTransition)) (\<lambda>_.
     bindE (required_text data ''reason'') (\<lambda>reason.
     Inr (cur\<lparr>ss_status := StNotApplicable,
       ss_approval_id := (if ss_approval_receipt cur \<noteq> None then ss_approval_id cur else None), ss_error := Some reason\<rparr>)))"

definition recovery_target :: "plan_step \<Rightarrow> plan_step_status" where
  "recovery_target step = (if ps_replay_policy step = ''safe'' then StPending else StManualIntervention)"

definition status_name :: "plan_step_status \<Rightarrow> string" where
  "status_name x = (case x of StPending \<Rightarrow> ''pending'' | StWaitingApproval \<Rightarrow> ''waiting_approval'' | StRunning \<Rightarrow> ''running''
     | StSucceeded \<Rightarrow> ''succeeded'' | StFailed \<Rightarrow> ''failed'' | StSkipped \<Rightarrow> ''skipped'' | StNotApplicable \<Rightarrow> ''not_applicable''
     | StManualIntervention \<Rightarrow> ''manual_intervention'')"

text \<open>The fixed error text of a recovered step that must not be replayed, in UTF-8.\<close>

definition interrupted_error :: string where
  "interrupted_error = ''never replay Step '' @ [
     CHR 0xE4, CHR 0xB8, CHR 0xAD, CHR 0xE6, CHR 0x96, CHR 0xAD, CHR 0xEF, CHR 0xBC, CHR 0x8C, CHR 0xE7, CHR
     0xBB, CHR 0x93, CHR 0xE6, CHR 0x9E, CHR 0x9C, CHR 0xE5, CHR 0xBF, CHR 0x85, CHR 0xE9, CHR 0xA1, CHR 0xBB,
     CHR 0xE4, CHR 0xBA, CHR 0xBA, CHR 0xE5, CHR 0xB7, CHR 0xA5, CHR 0xE6, CHR 0xA0, CHR 0xB8, CHR 0xE5, CHR
     0xAF, CHR 0xB9]"

definition on_step_recovered :: "plan_step \<Rightarrow> plan_step_state \<Rightarrow> jdict \<Rightarrow> plan_step_state plan_result" where
  "on_step_recovered step cur data =
     bindE (guardE (ss_status cur = StRunning) (Raised PfTransition)) (\<lambda>_.
     bindE (guardE (jget data ''targetStatus'' = JStr (status_name (recovery_target step))) (Raised PfTransition)) (\<lambda>_.
     Inr (cur\<lparr>ss_status := recovery_target step, ss_validation_status := None,
       ss_error := (if recovery_target step = StPending then None else Some interrupted_error)\<rparr>)))"

definition dispatch_plan_event ::
  "plan_execution_state \<Rightarrow> plan_step \<Rightarrow> plan_step_state \<Rightarrow> string \<Rightarrow> jdict \<Rightarrow> plan_step_state plan_result" where
  "dispatch_plan_event st step cur ty data =
     (if ty = ''step_waiting_approval'' then on_step_waiting_approval step cur data
      else if ty = ''step_approval_granted'' then on_step_approval_granted st step cur data
      else if ty = ''step_approval_denied'' then on_step_approval_denied cur data
      else if ty = ''step_started'' then on_step_started st step cur data
      else if ty = ''step_validation_passed'' then on_step_validation_passed cur data
      else if ty = ''step_validation_failed'' then on_step_validation_failed step cur data
      else if ty = ''step_succeeded'' then on_step_succeeded step cur data
      else if ty = ''step_failed'' then on_step_failed cur data
      else if ty = ''step_outcome_unknown'' then on_step_outcome_unknown step cur data
      else if ty = ''step_skipped'' then on_step_skipped cur data
      else if ty \<in> {''step_arguments_invalid'', ''step_precondition_failed''} then on_step_not_dispatched cur data
      else if ty = ''step_not_applicable'' then on_step_not_applicable cur data
      else if ty = ''step_recovered'' then on_step_recovered step cur data
      else Inl (Raised PfEventInvalid))"

definition validate_state_identity :: "multi_intent_plan \<Rightarrow> plan_execution_state \<Rightarrow> unit plan_result" where
  "validate_state_identity plan st =
     bindE (guardE (px_plan_id st = mp_plan_id plan) (Raised PfStateIdentity)) (\<lambda>_.
     guardE (set (dkeys (px_steps st)) = set (step_ids plan)) (Raised PfStateIdentity))"

definition apply_plan_event :: "multi_intent_plan \<Rightarrow> plan_execution_state \<Rightarrow> plan_event \<Rightarrow> plan_execution_state plan_result" where
  "apply_plan_event plan st e =
     bindE (validate_state_identity plan st) (\<lambda>_.
     bindE (guardE (pe_sequence e = px_version st + 1) (Raised PfSequence)) (\<lambda>_.
     bindE (plan_find_step plan (pe_step_id e)) (\<lambda>step.
     bindE (case map_of (px_steps st) (pe_step_id e) of None \<Rightarrow> Inl (Builtin KeyErr) | Some c \<Rightarrow> Inr c) (\<lambda>cur.
     bindE (dispatch_plan_event st step cur (pe_type e) (pe_data e)) (\<lambda>updated.
     Inr \<lparr>px_plan_id = px_plan_id st, px_steps = dset (px_steps st) (pe_step_id e) updated, px_version = pe_sequence e\<rparr>)))))"

definition plan_replay :: "multi_intent_plan \<Rightarrow> plan_event list \<Rightarrow> plan_execution_state plan_result" where
  "plan_replay plan events = foldE (\<lambda>e st. apply_plan_event plan st e) events (initial_state plan)"

section \<open>Recovery\<close>

definition recover_step :: "multi_intent_plan \<Rightarrow> string \<Rightarrow> plan_execution_state \<times> plan_event list
    \<Rightarrow> (plan_execution_state \<times> plan_event list) plan_result" where
  "recover_step plan sid acc = (case acc of (st, events) \<Rightarrow>
     bindE (status_of st sid) (\<lambda>x.
     if x \<noteq> StRunning then Inr acc else
     bindE (plan_find_step plan sid) (\<lambda>step.
     bindE (plan_event_post_init \<lparr>pe_sequence = px_version st + 1, pe_type = ''step_recovered'', pe_step_id = sid,
         pe_data = [(''targetStatus'', JStr (status_name (recovery_target step)))], pe_schema_version = 1\<rparr>) (\<lambda>e.
     bindE (apply_plan_event plan st e) (\<lambda>st'. Inr (st', events @ [e]))))))"

definition recover_interrupted :: "multi_intent_plan \<Rightarrow> dependency_graph \<Rightarrow> plan_execution_state
    \<Rightarrow> (plan_execution_state \<times> plan_event list) plan_result" where
  "recover_interrupted plan g st = foldE (recover_step plan) (dg_order g) (st, [])"

section \<open>Snapshots\<close>

definition opt_json :: "('a \<Rightarrow> json) \<Rightarrow> 'a option \<Rightarrow> json" where
  "opt_json f v = (case v of None \<Rightarrow> JNull | Some x \<Rightarrow> f x)"

definition validation_name :: "validation_status \<Rightarrow> string" where
  "validation_name v = (case v of VsPassed \<Rightarrow> ''passed'' | VsFailed \<Rightarrow> ''failed'')"

definition phase_name :: "plan_phase \<Rightarrow> string" where
  "phase_name p = (case p of PhPending \<Rightarrow> ''pending'' | PhRunning \<Rightarrow> ''running'' | PhWaitingApproval \<Rightarrow> ''waiting_approval''
     | PhCompleted \<Rightarrow> ''completed'' | PhFailed \<Rightarrow> ''failed'' | PhManualIntervention \<Rightarrow> ''manual_intervention'')"

definition step_state_to_dict :: "plan_step_state \<Rightarrow> jdict plan_result" where
  "step_state_to_dict s = (let d = [(''status'', JStr (status_name (ss_status s))), (''attempts'', JInt (ss_attempts s)),
       (''approvalId'', opt_json JStr (ss_approval_id s)), (''approvalActionHash'', opt_json JStr (ss_approval_action_hash s)),
       (''approvalReceipt'', opt_json (\<lambda>r. JObj (receipt_to_dict r)) (ss_approval_receipt s)), (''result'', ss_result s),
       (''error'', opt_json JStr (ss_error s)), (''validationStatus'', opt_json (\<lambda>v. JStr (validation_name v)) (ss_validation_status s))]
     in bindE (pl_strict_json (JObj d)) (\<lambda>_. Inr d))"

definition execution_state_to_dict :: "plan_execution_state \<Rightarrow> jdict plan_result" where
  "execution_state_to_dict st =
     bindE (mapE (\<lambda>(sid, s). bindE (step_state_to_dict s) (\<lambda>d. Inr (sid, JObj d))) (px_steps st)) (\<lambda>steps.
     Inr [(''schemaVersion'', JInt 1), (''planId'', JStr (px_plan_id st)), (''version'', JInt (px_version st)),
       (''phase'', JStr (phase_name (plan_phase_of st))), (''steps'', JObj steps)])"

definition all_statuses :: "plan_step_status list" where
  "all_statuses = [StPending, StWaitingApproval, StRunning, StSucceeded, StFailed, StSkipped, StNotApplicable, StManualIntervention]"

text \<open>Membership of a value in a set of texts; a list or an object is not hashable.\<close>

definition parse_status :: "json \<Rightarrow> plan_step_status plan_result" where
  "parse_status v = (if \<not> hashable v then Inl (Builtin TypeErr) else
     case find (\<lambda>x. v = JStr (status_name x)) all_statuses of None \<Rightarrow> Inl (Raised PfSnapshot) | Some x \<Rightarrow> Inr x)"

definition parse_validation :: "json \<Rightarrow> validation_status option plan_result" where
  "parse_validation v = (if \<not> hashable v then Inl (Builtin TypeErr) else
     if v = JNull then Inr None else if v = JStr ''passed'' then Inr (Some VsPassed)
     else if v = JStr ''failed'' then Inr (Some VsFailed) else Inl (Raised PfSnapshot))"

definition snapshot_required :: "string list" where
  "snapshot_required = [''status'', ''attempts'', ''approvalId'', ''result'', ''error'']"

definition snapshot_optional :: "string list" where
  "snapshot_optional = [''approvalReceipt'', ''approvalActionHash'', ''validationStatus'']"

definition parse_approval_id :: "plan_step \<Rightarrow> plan_step_status \<Rightarrow> json \<Rightarrow> string option plan_result" where
  "parse_approval_id step status v =
     bindE (case v of JNull \<Rightarrow> Inr None
       | JStr s \<Rightarrow> if py_strip s = [] then Inl (Raised PfSnapshot) else Inr (Some s) | _ \<Rightarrow> Inl (Raised PfSnapshot)) (\<lambda>aid.
     bindE (guardE (\<not> (\<not> ps_requires_approval step \<and> aid \<noteq> None)) (Raised PfSnapshot)) (\<lambda>_.
     bindE (guardE (\<not> (ps_requires_approval step \<and> status \<in> {StRunning, StSucceeded} \<and> aid = None)) (Raised PfSnapshot)) (\<lambda>_.
     Inr aid)))"

definition parse_action_hash :: "host \<Rightarrow> plan_step \<Rightarrow> string option \<Rightarrow> json \<Rightarrow> string option plan_result" where
  "parse_action_hash H step aid v = (case v of
     JNull \<Rightarrow> Inr (if aid \<noteq> None then Some (step_action_hash H step) else None)
   | JStr s \<Rightarrow> bindE (sha256_text s) (\<lambda>h. Inr (Some h))
   | _ \<Rightarrow> Inl (Raised PfSnapshot))"

definition parse_receipt :: "multi_intent_plan \<Rightarrow> plan_step \<Rightarrow> string option \<Rightarrow> string option \<Rightarrow> json \<Rightarrow> approval_receipt option plan_result" where
  "parse_receipt plan step aid h v =
     bindE (case v of JNull \<Rightarrow> Inr None | JObj d \<Rightarrow> bindE (receipt_from_dict d) (\<lambda>r. Inr (Some r)) | _ \<Rightarrow> Inl (Raised PfSnapshot)) (\<lambda>receipt.
     case receipt of None \<Rightarrow> Inr None
     | Some r \<Rightarrow>
         bindE (guardE (ps_requires_approval step) (Raised PfSnapshot)) (\<lambda>_.
         bindE (guardE (aid = Some (re_approval_id r) \<and> re_plan_id r = mp_plan_id plan \<and> re_step_id r = ps_step_id step \<and>
           h = Some (re_action_hash r) \<and> re_consumed_at r \<noteq> None) (Raised PfSnapshot)) (\<lambda>_.
         bindE (guardE (\<not> (set (ps_approval_roles step) \<inter> set (re_approver_roles r) = {})) (Raised PfSnapshot)) (\<lambda>_.
         Inr (Some r)))))"

definition parse_step_state :: "host \<Rightarrow> multi_intent_plan \<Rightarrow> jdict \<Rightarrow> plan_step \<Rightarrow> (string \<times> plan_step_state) plan_result" where
  "parse_step_state H plan raw_steps step =
     bindE (case jget raw_steps (ps_step_id step) of JObj d \<Rightarrow> Inr d | _ \<Rightarrow> Inl (Raised PfSnapshot)) (\<lambda>raw.
     bindE (guardE (set snapshot_required \<subseteq> set (dkeys raw) \<and> set (dkeys raw) \<subseteq> set (snapshot_required @ snapshot_optional)) (Raised PfSnapshot)) (\<lambda>_.
     bindE (parse_status (jget raw ''status'')) (\<lambda>status.
     bindE (case as_int_ge 0 (jget raw ''attempts'') of None \<Rightarrow> Inl (Raised PfSnapshot) | Some n \<Rightarrow> Inr n) (\<lambda>attempts.
     bindE (parse_approval_id step status (jget raw ''approvalId'')) (\<lambda>aid.
     bindE (parse_action_hash H step aid (jget raw ''approvalActionHash'')) (\<lambda>h.
     bindE (parse_receipt plan step aid h (jget raw ''approvalReceipt'')) (\<lambda>receipt.
     bindE (pl_strict_json (jget raw ''result'')) (\<lambda>_.
     bindE (case jget raw ''error'' of JNull \<Rightarrow> Inr None | JStr s \<Rightarrow> Inr (Some s) | _ \<Rightarrow> Inl (Raised PfSnapshot)) (\<lambda>err.
     bindE (parse_validation (jget raw ''validationStatus'')) (\<lambda>validation.
     Inr (ps_step_id step, \<lparr>ss_status = status, ss_attempts = attempts, ss_approval_id = aid, ss_result = jget raw ''result'',
       ss_error = err, ss_approval_receipt = receipt, ss_validation_status = validation, ss_approval_action_hash = h\<rparr>)))))))))))"

text \<open>\<open>_validate_state_coherence\<close>, for one step; the dependencies are looked up in the state.\<close>

definition coherent_step :: "plan_execution_state \<Rightarrow> plan_step \<Rightarrow> plan_step_state \<Rightarrow> unit plan_result" where
  "coherent_step st step cur =
     bindE (if ss_status cur \<in> {StWaitingApproval, StRunning, StSucceeded, StFailed, StNotApplicable, StManualIntervention}
            then all_status (\<lambda>x. x = StSucceeded) st (ps_depends_on step) else Inr True) (\<lambda>ready.
     bindE (guardE ready (Raised PfCoherence)) (\<lambda>_.
     bindE (guardE (ss_status cur = StWaitingApproval \<longrightarrow> ps_requires_approval step \<and> ss_approval_receipt cur = None) (Raised PfCoherence)) (\<lambda>_.
     bindE (guardE (ss_status cur = StWaitingApproval \<longrightarrow> ss_attempts cur = 0 \<and> ss_result cur = JNull \<and> ss_error cur = None) (Raised PfCoherence)) (\<lambda>_.
     bindE (guardE (ss_status cur \<in> {StRunning, StSucceeded, StManualIntervention} \<longrightarrow> 1 \<le> ss_attempts cur) (Raised PfCoherence)) (\<lambda>_.
     bindE (guardE (ss_status cur \<in> {StRunning, StSucceeded, StManualIntervention} \<longrightarrow> ps_requires_approval step \<longrightarrow>
              ss_approval_id cur \<noteq> None \<and> ss_approval_receipt cur \<noteq> None) (Raised PfCoherence)) (\<lambda>_.
     bindE (guardE (\<not> (ss_approval_id cur = None \<and> ss_approval_receipt cur \<noteq> None)) (Raised PfCoherence)) (\<lambda>_.
     bindE (guardE (\<not> (ss_approval_id cur = None \<and> ss_approval_action_hash cur \<noteq> None \<and> ss_status cur \<noteq> StWaitingApproval)) (Raised PfCoherence)) (\<lambda>_.
     bindE (guardE (\<not> (ss_approval_id cur \<noteq> None \<and> ss_approval_action_hash cur = None)) (Raised PfCoherence)) (\<lambda>_.
     bindE (guardE (\<not> (ss_approval_id cur \<noteq> None \<and> ss_approval_receipt cur = None \<and> ss_status cur \<notin> {StWaitingApproval, StFailed})) (Raised PfCoherence)) (\<lambda>_.
     bindE (guardE (\<not> (ss_status cur \<in> {StPending, StRunning} \<and> (ss_result cur \<noteq> JNull \<or> ss_error cur \<noteq> None))) (Raised PfCoherence)) (\<lambda>_.
     bindE (guardE (\<not> (ss_status cur = StSucceeded \<and> ss_error cur \<noteq> None)) (Raised PfCoherence)) (\<lambda>_.
     bindE (guardE (\<not> (ss_status cur \<in> {StFailed, StSkipped, StNotApplicable, StManualIntervention} \<and>
              (ss_result cur \<noteq> JNull \<or> ss_error cur = None \<or> ss_error cur = Some []))) (Raised PfCoherence)) (\<lambda>_.
     bindE (guardE (\<not> (ss_validation_status cur = Some VsFailed \<and> ss_status cur \<notin> {StFailed, StManualIntervention})) (Raised PfCoherence)) (\<lambda>_.
     bindE (guardE (\<not> (ss_validation_status cur = Some VsPassed \<and> ss_status cur \<notin> {StRunning, StSucceeded})) (Raised PfCoherence)) (\<lambda>_.
     bindE (guardE (\<not> (ps_result_contract step \<noteq> None \<and> ss_status cur = StSucceeded \<and> ss_validation_status cur \<noteq> Some VsPassed)) (Raised PfCoherence)) (\<lambda>_.
     guardE (\<not> (ps_requires_approval step \<and> ss_status cur = StFailed \<and> 0 < ss_attempts cur \<and>
              (ss_approval_id cur = None \<or> ss_approval_receipt cur = None))) (Raised PfCoherence)))))))))))))))))"

definition validate_state_coherence :: "multi_intent_plan \<Rightarrow> plan_execution_state \<Rightarrow> unit plan_result" where
  "validate_state_coherence plan st = foldE (\<lambda>step _.
     bindE (case map_of (px_steps st) (ps_step_id step) of None \<Rightarrow> Inl (Builtin KeyErr) | Some c \<Rightarrow> Inr c) (coherent_step st step))
     (mp_steps plan) ()"

definition state_from_dict :: "host \<Rightarrow> multi_intent_plan \<Rightarrow> jdict \<Rightarrow> plan_execution_state plan_result" where
  "state_from_dict H plan d =
     bindE (guardE (set (dkeys d) = {''schemaVersion'', ''planId'', ''version'', ''phase'', ''steps''}) (Raised PfSnapshot)) (\<lambda>_.
     bindE (guardE (py_json_eq (jget d ''schemaVersion'') (JInt 1) \<and> jget d ''planId'' = JStr (mp_plan_id plan)) (Raised PfSnapshot)) (\<lambda>_.
     bindE (case jget d ''steps'' of
         JObj raw \<Rightarrow> bindE (guardE (set (dkeys raw) = set (step_ids plan)) (Raised PfSnapshot)) (\<lambda>_. Inr raw)
       | _ \<Rightarrow> Inl (Raised PfSnapshot)) (\<lambda>raw_steps.
     bindE (mapE (parse_step_state H plan raw_steps) (mp_steps plan)) (\<lambda>steps.
     bindE (case as_int_ge 0 (jget d ''version'') of None \<Rightarrow> Inl (Raised PfSnapshot) | Some v \<Rightarrow> Inr v) (\<lambda>version.
     bindE (let st = \<lparr>px_plan_id = mp_plan_id plan, px_steps = steps, px_version = version\<rparr> in
       bindE (guardE (jget d ''phase'' = JStr (phase_name (plan_phase_of st))) (Raised PfSnapshot)) (\<lambda>_. Inr st)) (\<lambda>st.
     bindE (validate_state_identity plan st) (\<lambda>_.
     bindE (validate_state_coherence plan st) (\<lambda>_. Inr st))))))))"

end
