(* ===== verification/Plan_Theorems.thy ===== *)
theory Plan_Theorems
  imports Plan_State
begin

text \<open>
  What every replay of plan events guarantees: steps start only after their dependencies succeeded and after their approval was consumed, a step
  that must not be replayed starts at most once, a finished step never changes, interrupted steps can always be
  recovered, and a coherent state survives its snapshot. The last section shows states of the reducer that
  the snapshot parser refuses.
\<close>

named_theorems plan_handlers \<open>definitions of the handlers of plan events\<close>

lemmas [plan_handlers] = on_step_waiting_approval_def on_step_approval_granted_def on_step_approval_denied_def on_step_started_def
  on_step_validation_passed_def on_step_validation_failed_def on_step_succeeded_def on_step_failed_def on_step_outcome_unknown_def
  on_step_skipped_def on_step_not_dispatched_def on_step_not_applicable_def on_step_recovered_def

section \<open>The handlers\<close>

lemma dispatch_plan_cases [consumes 1, case_names waiting granted denied started passed vfailed succeeded failed unknown skipped
    not_dispatched not_applicable recovered]:
  assumes "dispatch_plan_event st step cur ty data = Inr u"
  obtains "on_step_waiting_approval step cur data = Inr u" | "on_step_approval_granted st step cur data = Inr u"
  | "on_step_approval_denied cur data = Inr u" | "on_step_started st step cur data = Inr u"
  | "on_step_validation_passed cur data = Inr u" | "on_step_validation_failed step cur data = Inr u"
  | "on_step_succeeded step cur data = Inr u" | "on_step_failed cur data = Inr u"
  | "on_step_outcome_unknown step cur data = Inr u" | "on_step_skipped cur data = Inr u"
  | "on_step_not_dispatched cur data = Inr u" | "on_step_not_applicable cur data = Inr u"
  | "on_step_recovered step cur data = Inr u"
  using assms unfolding dispatch_plan_event_def by (auto split: if_splits)

lemma required_text_ok: "required_text data k = Inr s \<Longrightarrow> py_strip s \<noteq> []"
  by (auto simp: required_text_def split: json.splits if_splits)

lemma required_sha256_ok: "required_sha256 data k = Inr s \<Longrightarrow> is_sha256 s"
  by (auto simp: required_sha256_def sha256_text_def exc_simps)

lemma optional_approval_id_ok: "optional_approval_id data = Inr (Some a) \<Longrightarrow> py_strip a \<noteq> []"
  by (auto simp: optional_approval_id_def exc_simps dest: required_text_ok split: json.splits)

lemma sha256_nonempty: "is_sha256 s \<Longrightarrow> s \<noteq> []"
  by (auto simp: is_sha256_def)

lemma role_set_idem [simp]: "role_set (role_set rs) = role_set rs"
proof -
  have "remdups (sort (remdups rs)) = sort (remdups rs)" by (simp add: distinct_remdups_id)
  then show ?thesis by (simp add: role_set_def sort_key_id_if_sorted)
qed

lemma set_role_set [simp]: "set (role_set rs) = set rs"
  by (simp add: role_set_def)

lemma role_set_Nil [simp]: "role_set rs = [] \<longleftrightarrow> rs = []"
  by (metis set_empty set_role_set)

lemma receipt_post_init_fields:
  "receipt_post_init r = Inr r' \<Longrightarrow> r' = r\<lparr>re_approver_roles := role_set (re_approver_roles r)\<rparr>"
  unfolding receipt_post_init_def bindE_eq_Inr by blast

lemma receipt_post_init_idem: "receipt_post_init r = Inr r' \<Longrightarrow> receipt_post_init r' = Inr r'"
  using receipt_post_init_fields[of r r'] unfolding receipt_post_init_def bindE_eq_Inr guardE_eq_Inr
  by (auto simp: list_all_iff split: option.splits)

lemma receipt_sha: "receipt_post_init r = Inr r' \<Longrightarrow> is_sha256 (re_action_hash r)"
  unfolding receipt_post_init_def bindE_eq_Inr guardE_eq_Inr by blast

lemma receipt_approval_id: "receipt_post_init r = Inr r' \<Longrightarrow> py_strip (re_approval_id r) \<noteq> []"
  unfolding receipt_post_init_def bindE_eq_Inr foldE.simps pl_non_empty_def guardE_eq_Inr by blast

lemma receipt_from_dict_valid:
  assumes "receipt_from_dict d = Inr r"
  shows "receipt_post_init r = Inr r"
proof -
  from assms obtain r0 where "receipt_post_init r0 = Inr r" unfolding receipt_from_dict_def bindE_eq_Inr by blast
  then show ?thesis by (rule receipt_post_init_idem)
qed

section \<open>The invariant of one step\<close>

definition receipt_bound :: "multi_intent_plan \<Rightarrow> plan_step \<Rightarrow> plan_step_state \<Rightarrow> approval_receipt \<Rightarrow> bool" where
  "receipt_bound plan step c r \<longleftrightarrow> receipt_post_init r = Inr r \<and> ss_approval_id c = Some (re_approval_id r) \<and>
     ss_approval_action_hash c = Some (re_action_hash r) \<and> re_plan_id r = mp_plan_id plan \<and> re_step_id r = ps_step_id step \<and>
     re_consumed_at r \<noteq> None \<and> set (ps_approval_roles step) \<inter> set (re_approver_roles r) \<noteq> {}"

definition step_ok :: "multi_intent_plan \<Rightarrow> plan_step \<Rightarrow> plan_step_state \<Rightarrow> bool" where
  "step_ok plan step c \<longleftrightarrow> 0 \<le> ss_attempts c \<and> finite_json (ss_result c) \<and>
     (\<forall>r. ss_approval_receipt c = Some r \<longrightarrow> receipt_bound plan step c r) \<and>
     (ps_requires_approval step \<and> 0 < ss_attempts c \<longrightarrow> ss_approval_receipt c \<noteq> None) \<and>
     (ps_replay_policy step \<noteq> ''safe'' \<longrightarrow> ss_attempts c \<le> 1 \<and> (ss_status c \<in> {StPending, StWaitingApproval} \<longrightarrow> ss_attempts c = 0)) \<and>
     (\<forall>h. ss_approval_action_hash c = Some h \<longrightarrow> is_sha256 h) \<and> (\<forall>a. ss_approval_id c = Some a \<longrightarrow> py_strip a \<noteq> []) \<and>
     (ss_status c \<in> {StRunning, StSucceeded} \<longrightarrow> 0 < ss_attempts c)"

lemma step_ok_fresh: "step_ok plan step fresh_step"
  by (simp add: step_ok_def fresh_step_def)

lemma waiting_ok: "on_step_waiting_approval step cur data = Inr u \<Longrightarrow> step_ok plan step cur \<Longrightarrow> step_ok plan step u"
  unfolding on_step_waiting_approval_def bindE_eq_Inr guardE_eq_Inr step_ok_def
  by (auto dest: required_sha256_ok optional_approval_id_ok)

lemma granted_ok:
  assumes "on_step_approval_granted st step cur data = Inr u" "step_ok plan step cur" "px_plan_id st = mp_plan_id plan"
  shows "step_ok plan step u"
proof -
  from assms(1) obtain h aid r where st: "ss_status cur \<in> {StPending, StWaitingApproval}" and aid: "required_text data ''approvalId'' = Inr aid"
    and rec: "(case jget data ''receipt'' of JObj d \<Rightarrow> receipt_from_dict d | _ \<Rightarrow> Inl (Raised PfTransition)) = Inr r"
    and con: "re_consumed_at r \<noteq> None"
    and bound: "re_approval_id r = aid" "re_plan_id r = px_plan_id st" "re_step_id r = ps_step_id step"
      "re_action_hash r = text_or (ss_approval_action_hash cur) h"
    and roles: "set (ps_approval_roles step) \<inter> set (re_approver_roles r) \<noteq> {}"
    and u: "u = cur\<lparr>ss_status := StPending, ss_approval_id := Some aid,
       ss_approval_action_hash := Some (text_or (ss_approval_action_hash cur) h), ss_approval_receipt := Some r, ss_error := None\<rparr>"
    unfolding on_step_approval_granted_def bindE_eq_Inr guardE_eq_Inr by blast
  have valid: "receipt_post_init r = Inr r" using rec by (auto split: json.splits intro: receipt_from_dict_valid)
  have rb: "receipt_bound plan step u r" using valid con bound roles u assms(3) by (simp add: receipt_bound_def)
  show ?thesis
    using assms(2) st rb receipt_sha[OF valid] bound(4) required_text_ok[OF aid] unfolding step_ok_def by (auto simp: u)
qed

lemma denied_ok:
  assumes "on_step_approval_denied cur data = Inr u" "step_ok plan step cur"
  shows "step_ok plan step u"
proof -
  from assms(1) obtain h decision reason where h: "required_sha256 data ''actionHash'' = Inr h"
    and d: "optional_approval_id data = Inr decision"
    and agree: "\<not> (ss_approval_id cur \<noteq> None \<and> decision \<noteq> None \<and> ss_approval_id cur \<noteq> decision)"
    and u: "u = cur\<lparr>ss_status := StFailed, ss_approval_id := (case decision of None \<Rightarrow> ss_approval_id cur | Some a \<Rightarrow> Some a),
       ss_approval_action_hash := Some (text_or (ss_approval_action_hash cur) h), ss_error := Some reason\<rparr>"
    unfolding on_step_approval_denied_def bindE_eq_Inr guardE_eq_Inr by blast
  have hash: "text_or (ss_approval_action_hash cur) h = g" if "ss_approval_action_hash cur = Some g" for g
    using assms(2) that sha256_nonempty[of g] by (auto simp: step_ok_def text_or_def)
  have sha: "is_sha256 (text_or (ss_approval_action_hash cur) h)"
    using assms(2) required_sha256_ok[OF h] by (auto simp: step_ok_def text_or_def split: option.splits)
  have "receipt_bound plan step u r" if "ss_approval_receipt u = Some r" for r
  proof -
    have "receipt_bound plan step cur r" using that assms(2) u by (simp add: step_ok_def)
    with agree hash show ?thesis unfolding receipt_bound_def u by (auto split: option.splits)
  qed
  moreover have "py_strip a \<noteq> []" if "ss_approval_id u = Some a" for a
    using that assms(2) u d by (auto simp: step_ok_def split: option.splits dest: optional_approval_id_ok)
  ultimately show ?thesis using assms(2) sha unfolding step_ok_def by (auto simp: u)
qed

lemma started_ok:
  assumes "on_step_started st step cur data = Inr u" "step_ok plan step cur"
  shows "step_ok plan step u"
proof -
  from assms(1) have st: "ss_status cur = StPending"
    and chk: "ps_requires_approval step \<Longrightarrow> check_started_receipt cur data = Inr ()"
    and u: "u = cur\<lparr>ss_status := StRunning, ss_attempts := ss_attempts cur + 1, ss_error := None, ss_validation_status := None\<rparr>"
    unfolding on_step_started_def bindE_eq_Inr guardE_eq_Inr by (auto split: if_splits)
  have "ss_approval_receipt cur \<noteq> None" if "ps_requires_approval step"
    using chk[OF that] by (auto simp: check_started_receipt_def split: option.splits)
  with assms(2) st u show ?thesis unfolding step_ok_def receipt_bound_def by auto
qed

text \<open>A step whose approval and attempts do not change keeps the invariant if its status moves as the reducer allows.\<close>

lemma step_ok_frame:
  assumes "step_ok plan step cur" "finite_json (ss_result u)" "ss_attempts u = ss_attempts cur"
    and "ss_approval_id u = ss_approval_id cur" "ss_approval_receipt u = ss_approval_receipt cur"
    and "ss_approval_action_hash u = ss_approval_action_hash cur"
    and "ss_status u \<in> {StPending, StWaitingApproval} \<Longrightarrow> ps_replay_policy step = ''safe''"
    and "ss_status u \<in> {StRunning, StSucceeded} \<Longrightarrow> ss_status cur = StRunning"
  shows "step_ok plan step u"
proof -
  have "receipt_bound plan step u r \<longleftrightarrow> receipt_bound plan step cur r" for r using assms(4-6) by (simp add: receipt_bound_def)
  with assms show ?thesis unfolding step_ok_def by auto
qed

lemma other_ok:
  assumes "on_step_validation_passed cur data = Inr u \<or> on_step_validation_failed step cur data = Inr u \<or>
    on_step_succeeded step cur data = Inr u \<or> on_step_failed cur data = Inr u \<or> on_step_outcome_unknown step cur data = Inr u \<or>
    on_step_skipped cur data = Inr u \<or> on_step_not_dispatched cur data = Inr u \<or> on_step_recovered step cur data = Inr u"
    and ok: "step_ok plan step cur"
  shows "step_ok plan step u"
proof -
  have fin: "finite_json (ss_result cur)" using ok by (simp add: step_ok_def)
  from assms(1) show ?thesis
    by (elim disjE) (rule step_ok_frame[OF ok];
      auto simp: fin plan_handlers bindE_eq_Inr recovery_target_def pl_strict_json_def split: if_splits)+
qed

lemma not_applicable_ok:
  assumes "on_step_not_applicable cur data = Inr u" and ok: "step_ok plan step cur"
  shows "step_ok plan step u"
proof -
  from assms(1) obtain reason where u: "u = cur\<lparr>ss_status := StNotApplicable,
       ss_approval_id := (if ss_approval_receipt cur \<noteq> None then ss_approval_id cur else None), ss_error := Some reason\<rparr>"
    unfolding on_step_not_applicable_def bindE_eq_Inr by blast
  have "receipt_bound plan step u r" if "ss_approval_receipt u = Some r" for r
    using that ok by (simp add: u step_ok_def receipt_bound_def)
  with ok show ?thesis unfolding step_ok_def by (auto simp: u)
qed

lemma dispatch_step_ok:
  assumes "dispatch_plan_event st step cur ty data = Inr u" "step_ok plan step cur" "px_plan_id st = mp_plan_id plan"
  shows "step_ok plan step u"
  using assms
  by (cases rule: dispatch_plan_cases) (blast intro: waiting_ok granted_ok denied_ok started_ok other_ok not_applicable_ok)+

lemma dispatch_open:
  assumes "dispatch_plan_event st step cur ty data = Inr u"
  shows "ss_status cur \<in> {StPending, StWaitingApproval, StRunning}"
  using assms by (cases rule: dispatch_plan_cases) (auto simp: plan_handlers bindE_eq_Inr)

lemma dispatch_attempts:
  assumes "dispatch_plan_event st step cur ty data = Inr u" "ss_attempts u \<noteq> ss_attempts cur"
  shows "all_status (\<lambda>x. x = StSucceeded) st (ps_depends_on step) = Inr True"
  using assms by (cases rule: dispatch_plan_cases) (auto simp: plan_handlers bindE_eq_Inr)

section \<open>The invariant of an execution\<close>

definition plan_inv :: "multi_intent_plan \<Rightarrow> plan_execution_state \<Rightarrow> bool" where
  "plan_inv plan st \<longleftrightarrow> px_plan_id st = mp_plan_id plan \<and> dkeys (px_steps st) = step_ids plan \<and> 0 \<le> px_version st \<and>
     (\<forall>s \<in> set (mp_steps plan). \<exists>c. map_of (px_steps st) (ps_step_id s) = Some c \<and> step_ok plan s c \<and>
        (0 < ss_attempts c \<longrightarrow> (\<forall>d \<in> set (ps_depends_on s). has_status st d StSucceeded)))"

lemma fresh_lookup: "map_of (map (\<lambda>s. (ps_step_id s, c)) ss) k = (if k \<in> set (map ps_step_id ss) then Some c else None)"
  by (induction ss) auto

lemma plan_inv_initial: "plan_inv plan (initial_state plan)"
  unfolding plan_inv_def initial_state_def
  by (auto simp: fresh_lookup step_ok_fresh o_def) (simp add: fresh_step_def)

lemma plan_find_step_ok: "plan_find_step plan sid = Inr s \<Longrightarrow> s \<in> set (mp_steps plan) \<and> ps_step_id s = sid"
  by (auto simp: plan_find_step_def split: option.splits dest: find_SomeD)

lemma apply_plan_event_cases:
  assumes "apply_plan_event plan st e = Inr st'"
  obtains step cur u where "step \<in> set (mp_steps plan)" "ps_step_id step = pe_step_id e" "pe_sequence e = px_version st + 1"
    "map_of (px_steps st) (pe_step_id e) = Some cur" "dispatch_plan_event st step cur (pe_type e) (pe_data e) = Inr u"
    "st' = \<lparr>px_plan_id = px_plan_id st, px_steps = dset (px_steps st) (pe_step_id e) u, px_version = pe_sequence e\<rparr>"
  using assms unfolding apply_plan_event_def bindE_eq_Inr guardE_eq_Inr case_none_raise_eq_Inr
  by (blast dest: plan_find_step_ok)

lemma apply_keeps_succeeded:
  assumes "apply_plan_event plan st e = Inr st'" "has_status st d StSucceeded"
  shows "has_status st' d StSucceeded"
  using assms(1)
proof (cases rule: apply_plan_event_cases)
  case (1 step cur u)
  from dispatch_open[OF 1(5)] 1(4) assms(2) have "d \<noteq> pe_step_id e" by (auto simp: has_status_def)
  with 1 assms(2) show ?thesis by (simp add: has_status_def)
qed

lemma all_status_True: "all_status P st ds = Inr True \<Longrightarrow> d \<in> set ds \<Longrightarrow> \<exists>x. has_status st d x \<and> P x"
  by (induction ds) (auto simp: exc_simps status_of_iff split: if_splits)

lemma plan_inv_step:
  assumes dist: "distinct (step_ids plan)" and inv: "plan_inv plan st" and app: "apply_plan_event plan st e = Inr st'"
  shows "plan_inv plan st'"
  using app
proof (cases rule: apply_plan_event_cases)
  case (1 step cur u)
  have id: "px_plan_id st = mp_plan_id plan" "dkeys (px_steps st) = step_ids plan" "0 \<le> px_version st"
    and steps: "\<And>s. s \<in> set (mp_steps plan) \<Longrightarrow> \<exists>c. map_of (px_steps st) (ps_step_id s) = Some c \<and> step_ok plan s c \<and>
        (0 < ss_attempts c \<longrightarrow> (\<forall>d \<in> set (ps_depends_on s). has_status st d StSucceeded))"
    using inv unfolding plan_inv_def by blast+
  have keep: "has_status st' d StSucceeded" if "has_status st d StSucceeded" for d
    using apply_keeps_succeeded[OF app that] .
  have "\<exists>c. map_of (px_steps st') (ps_step_id s) = Some c \<and> step_ok plan s c \<and>
      (0 < ss_attempts c \<longrightarrow> (\<forall>d \<in> set (ps_depends_on s). has_status st' d StSucceeded))" if s: "s \<in> set (mp_steps plan)" for s
  proof (cases "ps_step_id s = pe_step_id e")
    case True
    then have "s = step" using s 1(1,2) dist by (metis distinct_map inj_onD)
    from steps[OF s] True 1(4) have cur: "step_ok plan s cur"
      "0 < ss_attempts cur \<longrightarrow> (\<forall>d \<in> set (ps_depends_on s). has_status st d StSucceeded)" by auto
    have "step_ok plan s u" using dispatch_step_ok[OF 1(5)] cur(1) id(1) \<open>s = step\<close> by blast
    moreover have "has_status st' d StSucceeded" if "0 < ss_attempts u" "d \<in> set (ps_depends_on s)" for d
    proof (cases "ss_attempts u = ss_attempts cur")
      case True
      with that cur(2) keep show ?thesis by auto
    next
      case False
      from dispatch_attempts[OF 1(5) False] that(2) \<open>s = step\<close> have "has_status st d StSucceeded"
        by (auto dest: all_status_True)
      then show ?thesis by (rule keep)
    qed
    ultimately show ?thesis using True 1(6) by simp
  next
    case False
    with steps[OF s] keep 1(6) show ?thesis by auto
  qed
  moreover have "dkeys (px_steps st') = step_ids plan"
  proof -
    have "pe_step_id e \<in> set (step_ids plan)" using 1(1,2) by force
    with 1(6) id(2) show ?thesis by (simp add: dkeys_dset)
  qed
  ultimately show ?thesis using id 1(3,6) by (simp add: plan_inv_def)
qed

lemma plan_inv_replay:
  assumes "distinct (step_ids plan)" "plan_replay plan events = Inr st"
  shows "plan_inv plan st"
  using assms(2) unfolding plan_replay_def
  by (rule foldE_invariant[where I = "plan_inv plan"]) (use plan_inv_initial plan_inv_step[OF assms(1)] in auto)

lemma replayed_step:
  assumes "distinct (step_ids plan)" "plan_replay plan events = Inr st" "s \<in> set (mp_steps plan)" "map_of (px_steps st) (ps_step_id s) = Some c"
  shows "step_ok plan s c" "0 < ss_attempts c \<longrightarrow> (\<forall>d \<in> set (ps_depends_on s). has_status st d StSucceeded)"
  using plan_inv_replay[OF assms(1,2)] assms(3,4) unfolding plan_inv_def by fastforce+

text \<open>
  C23: a step runs only after its dependencies. In every replayed state, a step that was ever started has all its dependencies succeeded.
\<close>

theorem plan_dependencies_respected:
  assumes "distinct (step_ids plan)" "plan_replay plan events = Inr st" "s \<in> set (mp_steps plan)"
    and "map_of (px_steps st) (ps_step_id s) = Some c" "0 < ss_attempts c" "d \<in> set (ps_depends_on s)"
  shows "has_status st d StSucceeded"
  using replayed_step(2)[OF assms(1-4)] assms(5,6) by blast

text \<open>
  C22: the approval barrier of plans. In every replayed state, a step that requires an approval and was ever started holds a receipt that is consumed, bound to this plan,
  to this step and to the approved action, and signed by a role the step accepts.
\<close>

theorem plan_approval_barrier:
  assumes "distinct (step_ids plan)" "plan_replay plan events = Inr st" "s \<in> set (mp_steps plan)"
    and "map_of (px_steps st) (ps_step_id s) = Some c" "0 < ss_attempts c" "ps_requires_approval s"
  shows "\<exists>r. ss_approval_receipt c = Some r \<and> re_consumed_at r \<noteq> None \<and> re_plan_id r = mp_plan_id plan \<and>
    re_step_id r = ps_step_id s \<and> ss_approval_id c = Some (re_approval_id r) \<and>
    ss_approval_action_hash c = Some (re_action_hash r) \<and> set (ps_approval_roles s) \<inter> set (re_approver_roles r) \<noteq> {}"
  using replayed_step(1)[OF assms(1-4)] assms(5,6) unfolding step_ok_def receipt_bound_def by auto

text \<open>
  C24: a step that must not be replayed starts at most once, whatever crashes and recoveries the log records.
\<close>

theorem never_step_started_once:
  assumes "distinct (step_ids plan)" "plan_replay plan events = Inr st" "s \<in> set (mp_steps plan)"
    and "map_of (px_steps st) (ps_step_id s) = Some c" "ps_replay_policy s = ''never''"
  shows "ss_attempts c \<le> 1"
  using replayed_step(1)[OF assms(1-4)] assms(5) unfolding step_ok_def by auto

section \<open>Finished steps\<close>

definition finished :: "plan_step_state \<Rightarrow> bool" where
  "finished c \<longleftrightarrow> ss_status c \<in> {StSucceeded, StFailed, StSkipped, StNotApplicable, StManualIntervention}"

text \<open>
  A finished step never changes. No continuation of a log alters the state of a step that succeeded, failed, was skipped, was not applicable or waits for a person.
\<close>

theorem finished_step_frozen:
  assumes "foldE (\<lambda>e st. apply_plan_event plan st e) events st = Inr st'" "map_of (px_steps st) sid = Some c" "finished c"
  shows "map_of (px_steps st') sid = Some c"
  using assms(1)
proof (rule foldE_invariant[where I = "\<lambda>st. map_of (px_steps st) sid = Some c"])
  fix e s t assume "map_of (px_steps s) sid = Some c" "apply_plan_event plan s e = Inr t"
  from this(2,1) show "map_of (px_steps t) sid = Some c"
  proof (cases rule: apply_plan_event_cases)
    case (1 step cur u)
    from dispatch_open[OF 1(5)] 1(4) assms(3) \<open>map_of (px_steps s) sid = Some c\<close> have "sid \<noteq> pe_step_id e"
      by (auto simp: finished_def)
    with 1(6) \<open>map_of (px_steps s) sid = Some c\<close> show ?thesis by simp
  qed
qed (rule assms(2))

section \<open>Recovery\<close>

lemma recover_step_ok:
  assumes dist: "distinct (step_ids plan)" and inv: "plan_inv plan st" and sid: "sid \<in> set (step_ids plan)"
    and ids: "\<And>s. s \<in> set (mp_steps plan) \<Longrightarrow> py_strip (ps_step_id s) \<noteq> []"
  obtains st' new where "recover_step plan sid (st, evs) = Inr (st', evs @ new)" "plan_inv plan st'" "\<not> has_status st' sid StRunning"
    "\<And>d. has_status st' d StRunning \<Longrightarrow> has_status st d StRunning"
    "foldE (\<lambda>e st. apply_plan_event plan st e) new st = Inr st'"
proof -
  from sid obtain s where s: "s \<in> set (mp_steps plan)" "ps_step_id s = sid" by auto
  with inv obtain c where c: "map_of (px_steps st) sid = Some c" unfolding plan_inv_def by blast
  show thesis
  proof (cases "ss_status c = StRunning")
    case False
    with c have "recover_step plan sid (st, evs) = Inr (st, evs @ [])" by (simp add: recover_step_def status_of_def)
    with inv False c show thesis by (intro that[of st "[]"]) (auto simp: has_status_def)
  next
    case True
    have "find (\<lambda>s. ps_step_id s = sid) (mp_steps plan) \<noteq> None" using s by (auto simp: find_None_iff)
    then obtain x where x: "plan_find_step plan sid = Inr x" by (auto simp: plan_find_step_def)
    let ?e = "\<lparr>pe_sequence = px_version st + 1, pe_type = ''step_recovered'', pe_step_id = sid,
         pe_data = [(''targetStatus'', JStr (status_name (recovery_target x)))], pe_schema_version = 1\<rparr>"
    let ?u = "c\<lparr>ss_status := recovery_target x, ss_validation_status := None,
       ss_error := (if recovery_target x = StPending then None else Some interrupted_error)\<rparr>"
    let ?st = "\<lparr>px_plan_id = px_plan_id st, px_steps = dset (px_steps st) sid ?u, px_version = px_version st + 1\<rparr>"
    have post: "plan_event_post_init ?e = Inr ?e"
      using inv ids[OF s(1)] s(2) by (simp add: plan_event_post_init_def plan_inv_def pl_non_empty_def pl_strict_json_def py_strip_def py_space_def)
    have "dispatch_plan_event st x c (pe_type ?e) (pe_data ?e) = Inr ?u"
      using True by (simp add: dispatch_plan_event_def on_step_recovered_def jget_def)
    moreover have "validate_state_identity plan st = Inr ()" using inv by (simp add: validate_state_identity_def plan_inv_def)
    ultimately have app: "apply_plan_event plan st ?e = Inr ?st" using x c by (simp add: apply_plan_event_def)
    have "recover_step plan sid (st, evs) = Inr (?st, evs @ [?e])"
      using True c x post app by (simp add: recover_step_def status_of_def)
    moreover have "\<not> has_status ?st sid StRunning" by (simp add: has_status_def recovery_target_def)
    moreover have "has_status st d StRunning" if "has_status ?st d StRunning" for d
      using that by (auto simp: has_status_def recovery_target_def split: if_splits)
    ultimately show thesis using plan_inv_step[OF dist inv app] app by (intro that[of ?st "[?e]"]) simp_all
  qed
qed

lemma recover_loop:
  assumes dist: "distinct (step_ids plan)" and ids: "\<And>s. s \<in> set (mp_steps plan) \<Longrightarrow> py_strip (ps_step_id s) \<noteq> []"
    and "plan_inv plan st" "set sids \<subseteq> set (step_ids plan)"
  shows "\<exists>st' new. foldE (recover_step plan) sids (st, evs) = Inr (st', evs @ new) \<and> plan_inv plan st' \<and>
    foldE (\<lambda>e st. apply_plan_event plan st e) new st = Inr st' \<and>
    (\<forall>d. has_status st' d StRunning \<longrightarrow> has_status st d StRunning \<and> d \<notin> set sids)"
  using assms(3,4)
proof (induction sids arbitrary: st evs)
  case Nil
  have "foldE (recover_step plan) [] (st, evs) = Inr (st, evs @ [])" by simp
  moreover have "foldE (\<lambda>e st. apply_plan_event plan st e) [] st = Inr st" by simp
  ultimately show ?case using Nil by (metis empty_iff list.set(1))
next
  case (Cons sid sids)
  have sid: "sid \<in> set (step_ids plan)" using Cons.prems(2) by simp
  show ?case
  proof (rule recover_step_ok[OF dist Cons.prems(1) sid ids, of evs])
    fix st1 n1 assume r1: "recover_step plan sid (st, evs) = Inr (st1, evs @ n1)" "plan_inv plan st1" "\<not> has_status st1 sid StRunning"
      "\<And>d. has_status st1 d StRunning \<Longrightarrow> has_status st d StRunning" "foldE (\<lambda>e st. apply_plan_event plan st e) n1 st = Inr st1"
    from Cons.IH[OF r1(2), of "evs @ n1"] Cons.prems(2) obtain st' n2 where r2:
      "foldE (recover_step plan) sids (st1, evs @ n1) = Inr (st', (evs @ n1) @ n2)" "plan_inv plan st'"
      "foldE (\<lambda>e st. apply_plan_event plan st e) n2 st1 = Inr st'"
      "\<forall>d. has_status st' d StRunning \<longrightarrow> has_status st1 d StRunning \<and> d \<notin> set sids" by auto
    have "foldE (recover_step plan) (sid # sids) (st, evs) = Inr (st', evs @ (n1 @ n2))" using r1(1) r2(1) by simp
    moreover have "foldE (\<lambda>e st. apply_plan_event plan st e) (n1 @ n2) st = Inr st'" using r1(5) r2(3) by (simp add: foldE_append)
    moreover have "has_status st d StRunning \<and> d \<notin> set (sid # sids)" if "has_status st' d StRunning" for d
      using that r2(4) r1(3,4) by auto
    ultimately show ?thesis using r2(2) by blast
  qed
qed

text \<open>
  C31: recovery always succeeds. From every replayed state of an accepted plan \<open>recover_interrupted\<close> returns; the events it emits are accepted by the reducer from that state, lead to the state it returns, and no step is
  running any more.
\<close>

theorem recovery_succeeds:
  assumes "distinct (step_ids plan)" "list_all (\<lambda>s. py_strip (ps_step_id s) \<noteq> []) (mp_steps plan)"
    and "dependency_graph_init plan = Inr g" "plan_replay plan events = Inr st"
  shows "\<exists>st' new. recover_interrupted plan g st = Inr (st', new) \<and> plan_replay plan (events @ new) = Inr st' \<and>
    (\<forall>sid. \<not> has_status st' sid StRunning)"
proof -
  have order: "set (dg_order g) = set (step_ids plan)" by (rule graph_init_cases[OF assms(1,3)])
  have ids: "\<And>s. s \<in> set (mp_steps plan) \<Longrightarrow> py_strip (ps_step_id s) \<noteq> []" using assms(2) by (simp add: list_all_iff)
  from recover_loop[OF assms(1) ids plan_inv_replay[OF assms(1,4)], of "dg_order g" "[]"] order obtain st' new where
    r: "foldE (recover_step plan) (dg_order g) (st, []) = Inr (st', [] @ new)" "plan_inv plan st'"
      "foldE (\<lambda>e st. apply_plan_event plan st e) new st = Inr st'"
      "\<forall>d. has_status st' d StRunning \<longrightarrow> has_status st d StRunning \<and> d \<notin> set (dg_order g)" by auto
  have "\<not> has_status st' d StRunning" for d
  proof
    assume d: "has_status st' d StRunning"
    then have "d \<in> set (dkeys (px_steps st'))" unfolding set_dkeys has_status_def by blast
    with r(2,4) d order show False by (simp add: plan_inv_def)
  qed
  moreover have "plan_replay plan (events @ new) = Inr st'" using assms(4) r(3) by (simp add: plan_replay_def foldE_append)
  ultimately show ?thesis using r(1) by (simp add: recover_interrupted_def)
qed

section \<open>A log with an approval\<close>

definition run_plan :: multi_intent_plan where
  "run_plan = sample_plan\<lparr>mp_steps := [sample_step ''a'' ''get'' [], (sample_step ''w'' ''pay'' [''a''])\<lparr>ps_requires_approval := True,
     ps_write := True, ps_replay_policy := ''never'', ps_approval_roles := [''boss'']\<rparr>]\<rparr>"

definition write_step :: plan_step where
  "write_step = (sample_step ''w'' ''pay'' [''a''])\<lparr>ps_requires_approval := True,
     ps_write := True, ps_replay_policy := ''never'', ps_approval_roles := [''boss'']\<rparr>"

definition run_hash :: string where
  "run_hash = replicate 64 (CHR ''a'')"

definition run_receipt :: approval_receipt where
  "run_receipt = \<lparr>re_approval_id = ''ap'', re_receipt_id = ''rc'', re_plan_id = ''p'', re_step_id = ''w'', re_action_hash = run_hash,
     re_state_version = 2, re_approver_id = ''u'', re_approver_roles = [''boss''], re_approver_issuer = ''i'',
     re_identity_verification_id = ''v'', re_verification_id = ''x'', re_issued_at = 1, re_expires_at = 9, re_consumed_at = Some 2\<rparr>"

definition plan_ev :: "int \<Rightarrow> string \<Rightarrow> string \<Rightarrow> jdict \<Rightarrow> plan_event" where
  "plan_ev n ty sid data = \<lparr>pe_sequence = n, pe_type = ty, pe_step_id = sid, pe_data = data, pe_schema_version = 1\<rparr>"

definition run_events :: "plan_event list" where
  "run_events = [plan_ev 1 ''step_started'' ''a'' [], plan_ev 2 ''step_succeeded'' ''a'' [(''result'', JInt 5)],
     plan_ev 3 ''step_approval_granted'' ''w'' [(''actionHash'', JStr run_hash), (''approvalId'', JStr ''ap''), (''receipt'', JObj (receipt_to_dict run_receipt))],
     plan_ev 4 ''step_started'' ''w'' [(''approvalReceiptId'', JStr ''rc''), (''startedAt'', JInt 3)]]"

definition run_state :: plan_execution_state where
  "run_state = \<lparr>px_plan_id = ''p'', px_steps = [(''a'', fresh_step\<lparr>ss_status := StSucceeded, ss_attempts := 1, ss_result := JInt 5\<rparr>),
     (''w'', fresh_step\<lparr>ss_status := StRunning, ss_attempts := 1, ss_approval_id := Some ''ap'', ss_approval_receipt := Some run_receipt,
        ss_approval_action_hash := Some run_hash\<rparr>)], px_version = 4\<rparr>"

lemma run_replayed: "plan_replay run_plan run_events = Inr run_state"
  by code_simp

lemma run_distinct: "distinct (step_ids run_plan)"
  by code_simp

lemma run_write_step: "write_step \<in> set (mp_steps run_plan)" "map_of (px_steps run_state) (ps_step_id write_step) =
    Some (fresh_step\<lparr>ss_status := StRunning, ss_attempts := 1, ss_approval_id := Some ''ap'', ss_approval_receipt := Some run_receipt,
        ss_approval_action_hash := Some run_hash\<rparr>)"
  by (simp_all add: run_plan_def write_step_def run_state_def sample_step_def)

theorem plan_dependencies_respected_witness: "has_status run_state ''a'' StSucceeded"
  by (rule plan_dependencies_respected[OF run_distinct run_replayed run_write_step]) (simp_all add: write_step_def sample_step_def)

theorem plan_approval_barrier_witness: "re_consumed_at run_receipt \<noteq> None \<and> re_step_id run_receipt = ''w''"
  using plan_approval_barrier[OF run_distinct run_replayed run_write_step] by (simp add: write_step_def sample_step_def)

theorem never_step_started_once_witness: "\<exists>c. map_of (px_steps run_state) ''w'' = Some c \<and> ss_attempts c \<le> 1"
  using never_step_started_once[OF run_distinct run_replayed run_write_step] run_write_step(2)
  by (simp add: write_step_def sample_step_def)

theorem finished_step_frozen_witness:
  "\<exists>st'. foldE (\<lambda>e st. apply_plan_event run_plan st e) [plan_ev 5 ''step_failed'' ''w'' [(''error'', JStr ''x'')]] run_state = Inr st' \<and>
     map_of (px_steps st') ''a'' = Some (fresh_step\<lparr>ss_status := StSucceeded, ss_attempts := 1, ss_result := JInt 5\<rparr>)"
proof -
  have "isOk (foldE (\<lambda>e st. apply_plan_event run_plan st e) [plan_ev 5 ''step_failed'' ''w'' [(''error'', JStr ''x'')]] run_state)" by code_simp
  then obtain st' where st': "foldE (\<lambda>e st. apply_plan_event run_plan st e) [plan_ev 5 ''step_failed'' ''w'' [(''error'', JStr ''x'')]] run_state = Inr st'"
    unfolding isOk_iff by blast
  from finished_step_frozen[OF this, of "''a''"] st' show ?thesis by (simp add: run_state_def finished_def)
qed

theorem recovery_succeeds_witness:
  "\<exists>g st' new. dependency_graph_init run_plan = Inr g \<and> recover_interrupted run_plan g run_state = Inr (st', new) \<and>
     (\<forall>sid. \<not> has_status st' sid StRunning)"
proof -
  have "isOk (dependency_graph_init run_plan)" "list_all (\<lambda>s. py_strip (ps_step_id s) \<noteq> []) (mp_steps run_plan)" by code_simp+
  then obtain g where g: "dependency_graph_init run_plan = Inr g" unfolding isOk_iff by blast
  from recovery_succeeds[OF run_distinct \<open>list_all _ _\<close> g run_replayed] g show ?thesis by blast
qed

end
