(* ===== verification/Plan_Snapshot.thy ===== *)
theory Plan_Snapshot
  imports Plan_Theorems
begin

text \<open>
  Snapshots of plan executions: \<open>to_dict\<close> and \<open>state_from_dict\<close> of \<open>planning/types.py\<close> and \<open>planning/state_machine.py\<close>. A replayed state that passes the
  coherence check and carries no approval on a step that needs none is restored exactly; the last theorem gives logs the
  reducer accepts whose states the parser refuses.
\<close>

section \<open>Receipts\<close>

lemma receipt_valid_fields:
  assumes "receipt_post_init r = Inr r"
  shows "py_strip (re_approval_id r) \<noteq> []" "py_strip (re_receipt_id r) \<noteq> []" "py_strip (re_plan_id r) \<noteq> []" "py_strip (re_step_id r) \<noteq> []"
    "py_strip (re_action_hash r) \<noteq> []" "py_strip (re_approver_id r) \<noteq> []" "py_strip (re_approver_issuer r) \<noteq> []"
    "py_strip (re_identity_verification_id r) \<noteq> []" "py_strip (re_verification_id r) \<noteq> []"
    "list_all (\<lambda>x. py_strip x \<noteq> []) (re_approver_roles r)" "role_set (re_approver_roles r) = re_approver_roles r"
  using assms receipt_post_init_fields[OF assms]
  unfolding receipt_post_init_def bindE_eq_Inr foldE.simps pl_non_empty_def guardE_eq_Inr
  by (blast | (metis approval_receipt.select_convs(8) approval_receipt.surjective approval_receipt.update_convs(8)))+

lemma roles_roundtrip:
  "list_all (\<lambda>x. py_strip x \<noteq> []) rs \<Longrightarrow>
    mapE (\<lambda>x. case x of JStr s \<Rightarrow> if py_strip s = [] then Inl (Raised PfReceipt) else Inr s | _ \<Rightarrow> Inl (Raised PfReceipt)) (map JStr rs) = Inr rs"
  by (induction rs) auto

lemma receipt_keys: "dkeys (receipt_to_dict r) = receipt_fields"
  by (simp add: receipt_to_dict_def receipt_fields_def)

lemma receipt_lookup:
  "jget (receipt_to_dict r) ''approvalId'' = JStr (re_approval_id r)" "jget (receipt_to_dict r) ''receiptId'' = JStr (re_receipt_id r)"
  "jget (receipt_to_dict r) ''planId'' = JStr (re_plan_id r)" "jget (receipt_to_dict r) ''stepId'' = JStr (re_step_id r)"
  "jget (receipt_to_dict r) ''actionHash'' = JStr (re_action_hash r)" "jget (receipt_to_dict r) ''stateVersion'' = JInt (re_state_version r)"
  "jget (receipt_to_dict r) ''approverId'' = JStr (re_approver_id r)"
  "jget (receipt_to_dict r) ''approverRoles'' = JList (map JStr (re_approver_roles r))"
  "jget (receipt_to_dict r) ''approverIssuer'' = JStr (re_approver_issuer r)"
  "jget (receipt_to_dict r) ''identityVerificationId'' = JStr (re_identity_verification_id r)"
  "jget (receipt_to_dict r) ''verificationId'' = JStr (re_verification_id r)"
  "jget (receipt_to_dict r) ''issuedAt'' = time_json (re_issued_at r)" "jget (receipt_to_dict r) ''expiresAt'' = time_json (re_expires_at r)"
  "jget (receipt_to_dict r) ''consumedAt'' = (case re_consumed_at r of None \<Rightarrow> JNull | Some q \<Rightarrow> time_json q)"
  by (simp_all add: receipt_to_dict_def jget_def)

lemma receipt_roundtrip:
  assumes "receipt_post_init r = Inr r"
  shows "receipt_from_dict (receipt_to_dict r) = Inr r"
proof -
  note f = receipt_valid_fields[OF assms]
  have consumed: "(case (case re_consumed_at r of None \<Rightarrow> JNull | Some q \<Rightarrow> time_json q) of JNull \<Rightarrow> Inr None
      | v \<Rightarrow> bindE (pl_timestamp v) (\<lambda>q. Inr (Some q))) = Inr (re_consumed_at r)"
    by (simp add: time_json_def pl_timestamp_def split: option.splits)
  have self: "receipt_post_init \<lparr>re_approval_id = re_approval_id r, re_receipt_id = re_receipt_id r, re_plan_id = re_plan_id r,
      re_step_id = re_step_id r, re_action_hash = re_action_hash r, re_state_version = re_state_version r,
      re_approver_id = re_approver_id r, re_approver_roles = re_approver_roles r, re_approver_issuer = re_approver_issuer r,
      re_identity_verification_id = re_identity_verification_id r, re_verification_id = re_verification_id r,
      re_issued_at = re_issued_at r, re_expires_at = re_expires_at r, re_consumed_at = re_consumed_at r\<rparr> = Inr r"
    using assms by (cases r) simp
  show ?thesis
    unfolding receipt_from_dict_def receipt_keys receipt_lookup consumed
    using f self by (simp add: roles_roundtrip pl_text_def pl_integer_def pl_timestamp_def time_json_def)
qed

section \<open>Step states\<close>

definition step_state_dict :: "plan_step_state \<Rightarrow> jdict" where
  "step_state_dict s = [(''status'', JStr (status_name (ss_status s))), (''attempts'', JInt (ss_attempts s)),
       (''approvalId'', opt_json JStr (ss_approval_id s)), (''approvalActionHash'', opt_json JStr (ss_approval_action_hash s)),
       (''approvalReceipt'', opt_json (\<lambda>r. JObj (receipt_to_dict r)) (ss_approval_receipt s)), (''result'', ss_result s),
       (''error'', opt_json JStr (ss_error s)), (''validationStatus'', opt_json (\<lambda>v. JStr (validation_name v)) (ss_validation_status s))]"

lemma opt_json_finite: "(\<And>x. finite_json (f x)) \<Longrightarrow> finite_json (opt_json f v)"
  by (simp add: opt_json_def split: option.splits)

lemma receipt_dict_finite: "finite_json (JObj (receipt_to_dict r))"
  by (auto simp: receipt_to_dict_def time_json_def isfinite_def list_all_iff split: option.splits)

lemma step_state_to_dict_eq: "finite_json (ss_result s) \<Longrightarrow> step_state_to_dict s = Inr (step_state_dict s)"
  unfolding step_state_to_dict_def step_state_dict_def Let_def pl_strict_json_def
  using opt_json_finite[of JStr] opt_json_finite[of "\<lambda>v. JStr (validation_name v)"] opt_json_finite[of "\<lambda>r. JObj (receipt_to_dict r)"] receipt_dict_finite
  by (simp add: finite_json.simps(3) del: finite_json.simps(3)[of "receipt_to_dict _"])

lemma parse_status_name: "parse_status (JStr (status_name x)) = Inr x"
  by (cases x) (simp_all add: parse_status_def all_statuses_def status_name_def)

lemma parse_validation_name: "parse_validation (opt_json (\<lambda>v. JStr (validation_name v)) v) = Inr v"
  by (cases v; cases "the v") (simp_all add: parse_validation_def opt_json_def validation_name_def)

definition restorable :: "plan_step \<Rightarrow> plan_step_state \<Rightarrow> bool" where
  "restorable step c \<longleftrightarrow> (ps_requires_approval step \<or> ss_approval_id c = None) \<and>
     (ss_approval_id c \<noteq> None \<longrightarrow> ss_approval_action_hash c \<noteq> None)"

lemma parse_step_roundtrip:
  assumes ok: "step_ok plan step c" and res: "restorable step c" and raw: "jget raw (ps_step_id step) = JObj (step_state_dict c)"
  shows "parse_step_state H plan raw step = Inr (ps_step_id step, c)"
proof -
  let ?d = "step_state_dict c"
  have keys: "dkeys ?d = [''status'', ''attempts'', ''approvalId'', ''approvalActionHash'', ''approvalReceipt'', ''result'', ''error'', ''validationStatus'']"
    by (simp add: step_state_dict_def)
  have get: "jget ?d ''status'' = JStr (status_name (ss_status c))" "jget ?d ''attempts'' = JInt (ss_attempts c)"
    "jget ?d ''approvalId'' = opt_json JStr (ss_approval_id c)" "jget ?d ''approvalActionHash'' = opt_json JStr (ss_approval_action_hash c)"
    "jget ?d ''approvalReceipt'' = opt_json (\<lambda>r. JObj (receipt_to_dict r)) (ss_approval_receipt c)" "jget ?d ''result'' = ss_result c"
    "jget ?d ''error'' = opt_json JStr (ss_error c)" "jget ?d ''validationStatus'' = opt_json (\<lambda>v. JStr (validation_name v)) (ss_validation_status c)"
    by (simp_all add: step_state_dict_def jget_def)
  have bound: "receipt_bound plan step c r" if "ss_approval_receipt c = Some r" for r using ok that by (simp add: step_ok_def)
  have aid: "parse_approval_id step (ss_status c) (opt_json JStr (ss_approval_id c)) = Inr (ss_approval_id c)"
  proof -
    have "ss_approval_id c \<noteq> None" if "ps_requires_approval step" "ss_status c \<in> {StRunning, StSucceeded}"
    proof -
      have "ss_approval_receipt c \<noteq> None" using ok that unfolding step_ok_def by blast
      then show ?thesis using bound by (auto simp: receipt_bound_def)
    qed
    then have present: "\<not> (ps_requires_approval step \<and> ss_status c \<in> {StRunning, StSucceeded} \<and> ss_approval_id c = None)" by blast
    show ?thesis
    proof (cases "ss_approval_id c")
      case None
      with present show ?thesis by (simp add: parse_approval_id_def opt_json_def)
    next
      case (Some a)
      have "py_strip a \<noteq> []" using ok Some by (simp add: step_ok_def)
      with Some res show ?thesis by (simp add: parse_approval_id_def opt_json_def restorable_def)
    qed
  qed
  have hash: "parse_action_hash H step (ss_approval_id c) (opt_json JStr (ss_approval_action_hash c)) = Inr (ss_approval_action_hash c)"
    using ok res by (cases "ss_approval_action_hash c") (auto simp: parse_action_hash_def opt_json_def restorable_def step_ok_def sha256_text_def)
  have receipt: "parse_receipt plan step (ss_approval_id c) (ss_approval_action_hash c)
      (opt_json (\<lambda>r. JObj (receipt_to_dict r)) (ss_approval_receipt c)) = Inr (ss_approval_receipt c)"
  proof (cases "ss_approval_receipt c")
    case None
    then show ?thesis by (simp add: parse_receipt_def opt_json_def)
  next
    case (Some r)
    note b = bound[OF Some]
    then have "ps_requires_approval step" using res by (auto simp: receipt_bound_def restorable_def)
    with Some b show ?thesis by (auto simp: parse_receipt_def opt_json_def receipt_bound_def receipt_roundtrip)
  qed
  have err: "(case opt_json JStr (ss_error c) of JNull \<Rightarrow> Inr None | JStr s \<Rightarrow> Inr (Some s) | _ \<Rightarrow> Inl (Raised PfSnapshot)) = Inr (ss_error c)"
    by (simp add: opt_json_def split: option.splits)
  have "as_int_ge 0 (JInt (ss_attempts c)) = Some (ss_attempts c)" "finite_json (ss_result c)" using ok by (simp_all add: step_ok_def)
  then show ?thesis
    unfolding parse_step_state_def raw json.case bindE_simps get aid hash receipt err parse_status_name parse_validation_name
    by (simp add: keys aid hash receipt err parse_status_name parse_validation_name snapshot_required_def snapshot_optional_def pl_strict_json_def)
qed

section \<open>States\<close>

lemma mapE_pure: "(\<And>x. x \<in> set xs \<Longrightarrow> f x = Inr (g x)) \<Longrightarrow> mapE f xs = Inr (map g xs)"
  by (induction xs) auto

lemma dict_from_keys:
  assumes "dkeys d = map f xs" "distinct (dkeys d)" "\<And>x. x \<in> set xs \<Longrightarrow> map_of d (f x) = Some (g x)"
  shows "d = map (\<lambda>x. (f x, g x)) xs"
  using assms
proof (induction xs arbitrary: d)
  case (Cons x xs)
  then obtain v d' where d: "d = (f x, v) # d'" by (cases d) auto
  have "map_of d' (f y) = Some (g y)" if "y \<in> set xs" for y
  proof -
    have "f y \<in> set (dkeys d')" using that Cons.prems(1) d by simp
    moreover have "f x \<notin> set (dkeys d')" using Cons.prems(2) d by simp
    ultimately have "f y \<noteq> f x" by metis
    with Cons.prems(3)[of y] that d show ?thesis by simp
  qed
  moreover have "v = g x" using Cons.prems(3)[of x] d by simp
  ultimately show ?case using Cons.IH[of d'] Cons.prems(1,2) d by simp
qed simp

lemma state_eta: "\<lparr>px_plan_id = px_plan_id st, px_steps = px_steps st, px_version = px_version st\<rparr> = (st :: plan_execution_state)"
  by (cases st) simp

lemma snapshot_restores:
  assumes dist: "distinct (step_ids plan)" and inv: "plan_inv plan st" and coh: "validate_state_coherence plan st = Inr ()"
    and noapp: "\<And>s c. s \<in> set (mp_steps plan) \<Longrightarrow> map_of (px_steps st) (ps_step_id s) = Some c \<Longrightarrow> \<not> ps_requires_approval s \<Longrightarrow> ss_approval_id c = None"
  shows "\<exists>d. execution_state_to_dict st = Inr d \<and> state_from_dict H plan d = Inr st"
proof -
  have keys: "dkeys (px_steps st) = step_ids plan" and id: "px_plan_id st = mp_plan_id plan" and ver: "0 \<le> px_version st"
    and steps: "\<And>s. s \<in> set (mp_steps plan) \<Longrightarrow> \<exists>c. map_of (px_steps st) (ps_step_id s) = Some c \<and> step_ok plan s c"
    using inv unfolding plan_inv_def by blast+
  define g :: "plan_step \<Rightarrow> plan_step_state" where "g s = the (map_of (px_steps st) (ps_step_id s))" for s
  have g: "map_of (px_steps st) (ps_step_id s) = Some (g s)" "step_ok plan s (g s)" if "s \<in> set (mp_steps plan)" for s
    using steps[OF that] by (auto simp: g_def)
  have px: "px_steps st = map (\<lambda>s. (ps_step_id s, g s)) (mp_steps plan)"
    by (rule dict_from_keys) (use keys dist g in auto)
  let ?raw = "map (\<lambda>s. (ps_step_id s, JObj (step_state_dict (g s)))) (mp_steps plan)"
  have "mapE (\<lambda>(sid, s). bindE (step_state_to_dict s) (\<lambda>d. Inr (sid, JObj d))) (px_steps st) =
      Inr (map (\<lambda>(sid, s). (sid, JObj (step_state_dict s))) (px_steps st))"
    by (rule mapE_pure) (use g(2) in \<open>auto simp: px step_ok_def step_state_to_dict_eq\<close>)
  then have dict: "execution_state_to_dict st = Inr [(''schemaVersion'', JInt 1), (''planId'', JStr (px_plan_id st)), (''version'', JInt (px_version st)),
       (''phase'', JStr (phase_name (plan_phase_of st))), (''steps'', JObj ?raw)]" (is "_ = Inr ?d")
    by (simp add: execution_state_to_dict_def px o_def)
  have "jget ?raw (ps_step_id s) = JObj (step_state_dict (g s))" if "s \<in> set (mp_steps plan)" for s
  proof -
    have "map_of ?raw (ps_step_id s) = Some (JObj (step_state_dict (g s)))"
      using that dist by (intro map_of_is_SomeI) (auto simp: o_def)
    then show ?thesis by (simp add: jget_def)
  qed
  moreover have "restorable s (g s)" if s: "s \<in> set (mp_steps plan)" for s
  proof -
    have "coherent_step st s (g s) = Inr ()"
      using coh s g(1)[OF s] unfolding validate_state_coherence_def foldE_unit_all by fastforce
    then have "\<not> (ss_approval_id (g s) \<noteq> None \<and> ss_approval_action_hash (g s) = None)"
      unfolding coherent_step_def bindE_eq_Inr guardE_eq_Inr by blast
    then show ?thesis using noapp[OF s g(1)[OF s]]
      by (cases "ps_requires_approval s") (auto simp: restorable_def)
  qed
  ultimately have "mapE (parse_step_state H plan ?raw) (mp_steps plan) = Inr (map (\<lambda>s. (ps_step_id s, g s)) (mp_steps plan))"
    by (intro mapE_pure parse_step_roundtrip g(2))
  then have parsed: "mapE (parse_step_state H plan ?raw) (mp_steps plan) = Inr (px_steps st)" unfolding px .
  have "validate_state_identity plan st = Inr ()" using keys id by (simp add: validate_state_identity_def)
  moreover have "set (dkeys ?raw) = set (step_ids plan)" by (simp add: o_def)
  moreover have "as_int_ge 0 (JInt (px_version st)) = Some (px_version st)" using ver by simp
  ultimately have "state_from_dict H plan ?d = Inr st"
    unfolding state_from_dict_def using parsed coh
    by (simp add: jget_def float_eq_def Let_def id[symmetric] state_eta del: map_map)
  with dict show ?thesis by blast
qed

text \<open>
  C31: a coherent state survives its snapshot. If a replayed state passes the coherence check and no step without approval requirement carries an approval id, then
  \<open>to_dict\<close> gives a dictionary from which \<open>state_from_dict\<close> restores the very same state.
\<close>

theorem snapshot_roundtrip:
  assumes "distinct (step_ids plan)" "plan_replay plan events = Inr st" "validate_state_coherence plan st = Inr ()"
    and "\<And>s c. s \<in> set (mp_steps plan) \<Longrightarrow> map_of (px_steps st) (ps_step_id s) = Some c \<Longrightarrow> \<not> ps_requires_approval s \<Longrightarrow> ss_approval_id c = None"
  shows "\<exists>d. execution_state_to_dict st = Inr d \<and> state_from_dict H plan d = Inr st"
  by (rule snapshot_restores[OF assms(1) plan_inv_replay[OF assms(1,2)] assms(3,4)])

definition plain_host :: host where
  "plain_host = \<lparr>sha256_hex = (\<lambda>_. run_hash), repr_of = \<lambda>_. [], read_float = \<lambda>_. FNan\<rparr>"

theorem snapshot_roundtrip_witness: "\<exists>d. execution_state_to_dict run_state = Inr d \<and> state_from_dict plain_host run_plan d = Inr run_state"
proof (rule snapshot_roundtrip[OF run_distinct run_replayed])
  show "validate_state_coherence run_plan run_state = Inr ()" by code_simp
qed (auto simp: run_plan_def run_state_def sample_step_def fresh_step_def split: if_splits)

section \<open>States the parser refuses\<close>

definition snapshot_refused :: "plan_event list \<Rightarrow> bool" where
  "snapshot_refused events = (case plan_replay run_plan events of Inl _ \<Rightarrow> False
     | Inr st \<Rightarrow> (case execution_state_to_dict st of Inl _ \<Rightarrow> False
        | Inr d \<Rightarrow> state_from_dict plain_host run_plan d = Inl (Raised PfCoherence)))"


end
