(* ===== verification/Service_Calls.thy ===== *)
theory Service_Calls
  imports Store_Theorems
begin

text \<open>
  How a service uses the event store: a coroutine whose awaits are loads and appends. The coroutines of other workers run between two
  awaits; their effect before the \<open>k\<close>-th await of a call is \<open>sc_env W k\<close>, a function on the store, and
  \<open>sc_ms W k\<close> is \<open>time.time() * 1000\<close> there, \<open>sc_now W k\<close> the monotonic clock and \<open>sc_stamp W k\<close> the time stamps
  of stored events. The locale \<open>durable_client\<close> states what a service may rely on, that the others only extend the log and keep every
  operation replayable, and shows for each building block that the service guarantees the same.
\<close>

section \<open>Calls among other workers\<close>

record scheduler =
  sc_env :: "nat \<Rightarrow> memory_store \<Rightarrow> memory_store"
  sc_ms :: "nat \<Rightarrow> rat"
  sc_now :: "nat \<Rightarrow> rat"
  sc_stamp :: "nat \<Rightarrow> nat \<Rightarrow> int"

definition wall_ms :: "scheduler \<Rightarrow> nat \<Rightarrow> int" where
  "wall_ms W k = \<lfloor>sc_ms W k\<rfloor>"

type_synonym call_state = "nat \<times> memory_store"
type_synonym ('f, 'a) service = "call_state \<Rightarrow> ('f, 'a) result \<times> call_state"

definition bindS :: "('f, 'a) service \<Rightarrow> ('a \<Rightarrow> ('f, 'b) service) \<Rightarrow> ('f, 'b) service" where
  "bindS m f \<sigma> = (case m \<sigma> of (Inl e, \<sigma>') \<Rightarrow> (Inl e, \<sigma>') | (Inr x, \<sigma>') \<Rightarrow> f x \<sigma>')"

definition liftS :: "('f, 'a) result \<Rightarrow> ('f, 'a) service" where
  "liftS r \<sigma> = (r, \<sigma>)"

definition clockS :: "scheduler \<Rightarrow> ('f, int) service" where
  "clockS W \<sigma> = (Inr (wall_ms W (fst \<sigma>)), \<sigma>)"

text \<open>The awaits: a load of the store, and a call of one of its appends, whose exceptions the caller may catch.\<close>

definition await_load :: "scheduler \<Rightarrow> string option \<Rightarrow> string option \<Rightarrow> ('f, operation_event list) service" where
  "await_load W sid op \<sigma> = (let st = sc_env W (fst \<sigma>) (snd \<sigma>) in (Inr (memory_load sid op st), (Suc (fst \<sigma>), st)))"

definition await_append_batch ::
  "host \<Rightarrow> scheduler \<Rightarrow> string \<Rightarrow> string \<Rightarrow> event_spec list \<Rightarrow> int \<Rightarrow> int option
     \<Rightarrow> ('f, (store_fault, operation_event list) result) service" where
  "await_append_batch H W sid op specs expected deadline \<sigma> =
     (case memory_append_batch H (sc_stamp W (fst \<sigma>)) (wall_ms W (fst \<sigma>)) sid op specs (Some expected) deadline
        (sc_env W (fst \<sigma>) (snd \<sigma>)) of (r, st) \<Rightarrow> (Inr r, (Suc (fst \<sigma>), st)))"

definition await_append_fenced ::
  "host \<Rightarrow> scheduler \<Rightarrow> string \<Rightarrow> string \<Rightarrow> event_spec list \<Rightarrow> claim_lease \<Rightarrow> rat \<Rightarrow> int \<Rightarrow> int option \<Rightarrow> string option
     \<Rightarrow> ('f, (store_fault, operation_event list) result) service" where
  "await_append_fenced H W sid op specs lease secs expected deadline entity \<sigma> =
     (case memory_append_batch_if_fenced_claim H (sc_stamp W (fst \<sigma>)) (wall_ms W (fst \<sigma>)) (sc_now W (fst \<sigma>)) sid op specs
        lease secs (Some expected) deadline entity (sc_env W (fst \<sigma>) (snd \<sigma>)) of (r, st) \<Rightarrow> (Inr r, (Suc (fst \<sigma>), st)))"

text \<open>
  The classes of store exceptions: a lost lease and a passed deadline are conflicts of their own class, every other
  conflict is retried.
\<close>

definition claim_lost_fault :: "store_fault \<Rightarrow> bool" where
  "claim_lost_fault f \<longleftrightarrow> f \<in> {SfWriterSession, SfClaimTypeForbidden, SfScopeEncoding, SfScopeNotObject, SfScopeMismatch,
     SfScopeOperationMismatch, SfEntityExpected, SfEntityMismatch, SfClaimLost}"

definition conflict_fault :: "store_fault \<Rightarrow> bool" where
  "conflict_fault f \<longleftrightarrow> claim_lost_fault f \<or> f \<in> {SfVersionConflict, SfDeadline, SfUniqueFact}"

section \<open>Reasoning about calls\<close>

text \<open>\<open>after m \<sigma> Q\<close>: the call \<open>m\<close> from \<open>\<sigma>\<close> ends with a result and a state that satisfy \<open>Q\<close>.\<close>

definition after :: "('f, 'a) service \<Rightarrow> call_state \<Rightarrow> (('f, 'a) result \<Rightarrow> call_state \<Rightarrow> bool) \<Rightarrow> bool" where
  "after m \<sigma> Q \<longleftrightarrow> (case m \<sigma> of (r, \<sigma>') \<Rightarrow> Q r \<sigma>')"

lemma after_bindS [simp]:
  "after (bindS m f) \<sigma> Q \<longleftrightarrow> after m \<sigma> (\<lambda>r \<sigma>'. case r of Inl e \<Rightarrow> Q (Inl e) \<sigma>' | Inr x \<Rightarrow> after (f x) \<sigma>' Q)"
  by (auto simp: after_def bindS_def split: prod.splits sum.splits)

lemma after_liftS [simp]: "after (liftS r) \<sigma> Q \<longleftrightarrow> Q r \<sigma>"
  by (simp add: after_def liftS_def)

lemma after_clockS [simp]: "after (clockS W) \<sigma> Q \<longleftrightarrow> Q (Inr (wall_ms W (fst \<sigma>))) \<sigma>"
  by (simp add: after_def clockS_def)

lemma after_mono: "after m \<sigma> Q \<Longrightarrow> (\<And>r \<sigma>'. m \<sigma> = (r, \<sigma>') \<Longrightarrow> Q r \<sigma>' \<Longrightarrow> R r \<sigma>') \<Longrightarrow> after m \<sigma> R"
  by (auto simp: after_def split: prod.splits)

lemma afterD: "after m \<sigma> Q \<Longrightarrow> m \<sigma> = (r, \<sigma>') \<Longrightarrow> Q r \<sigma>'"
  by (simp add: after_def)

section \<open>Rely and guarantee\<close>

definition logs_ok :: "host \<Rightarrow> memory_store \<Rightarrow> bool" where
  "logs_ok H st \<longleftrightarrow> numbered (ms_events st) \<and> unique_facts H (ms_events st) \<and>
     (\<forall>sid op. filter (of_operation sid op) (ms_events st) \<noteq> [] \<longrightarrow>
        isOk (replay_operation H (filter (of_operation sid op) (ms_events st))))"

definition evolves :: "host \<Rightarrow> memory_store \<Rightarrow> memory_store \<Rightarrow> bool" where
  "evolves H st st' \<longleftrightarrow> (\<exists>ext. ms_events st' = ms_events st @ ext) \<and> (logs_ok H st \<longrightarrow> logs_ok H st')"

lemma evolves_refl [simp, intro]: "evolves H st st"
  by (simp add: evolves_def)

lemma evolves_trans [trans]: "evolves H a b \<Longrightarrow> evolves H b c \<Longrightarrow> evolves H a c"
  by (auto simp: evolves_def)

lemma evolves_member: "evolves H a b \<Longrightarrow> e \<in> set (ms_events a) \<Longrightarrow> e \<in> set (ms_events b)"
  by (auto simp: evolves_def)

text \<open>The log of an operation, as it was at some earlier time.\<close>

definition loaded :: "string \<Rightarrow> string \<Rightarrow> operation_event list \<Rightarrow> memory_store \<Rightarrow> bool" where
  "loaded sid op events st \<longleftrightarrow> (\<exists>es ext. ms_events st = es @ ext \<and> events = filter (of_operation sid op) es)"

lemma loaded_evolves: "loaded sid op events st \<Longrightarrow> evolves H st st' \<Longrightarrow> loaded sid op events st'"
  unfolding loaded_def evolves_def by (metis append.assoc)

lemma loaded_load [simp, intro]: "loaded sid op (memory_load (Some sid) (Some op) st) st"
  unfolding loaded_def load_of_operation by (intro exI[of _ "ms_events st"] exI[of _ "[]"]) simp

lemma loaded_of_operation: "loaded sid op events st \<Longrightarrow> e \<in> set events \<Longrightarrow> of_operation sid op e \<and> e \<in> set (ms_events st)"
  by (auto simp: loaded_def)

text \<open>Storing a validated batch after the version it was validated for keeps all logs replayable.\<close>

lemma other_operation_batch:
  "(sid', op') \<noteq> (sid, op) \<Longrightarrow> filter (of_operation sid' op') (batch_events clock sid op n specs) = []"
  by (induction specs arbitrary: n) (auto simp: of_operation_def)

lemma append_evolves:
  assumes "loaded sid op events st" "replay_operation_with_specs H now events specs = Inr s"
    and "append_checks H wall (ms_events st) sid op specs (Some (operation_last_sequence events)) deadline = Inr ()"
    and "ms_events st' = ms_events st @ batch_events clock sid op (length (ms_events st)) specs"
  shows "evolves H st st'"
  unfolding evolves_def
proof (intro conjI impI)
  show "\<exists>ext. ms_events st' = ms_events st @ ext" using assms(4) by blast
  assume ok: "logs_ok H st"
  obtain es ext where es: "ms_events st = es @ ext" "events = filter (of_operation sid op) es"
    using assms(1) by (auto simp: loaded_def)
  have cas: "last_operation_sequence (es @ ext) sid op = operation_last_sequence events"
    using assms(3) by (simp add: es(1) append_checks_def check_expected_def exc_simps)
  have "isOk (replay_operation H (filter (of_operation sid' op') (ms_events st')))"
    if "filter (of_operation sid' op') (ms_events st') \<noteq> []" for sid' op'
  proof (cases "(sid', op') = (sid, op)")
    case True
    with validated_batch_replays[of es ext sid op H now specs s clock] ok cas assms(2,4) es show ?thesis
      by (auto simp: logs_ok_def)
  next
    case False
    with ok assms(4) that show ?thesis by (simp add: other_operation_batch logs_ok_def)
  qed
  with ok assms(3,4) show "logs_ok H st'"
    by (auto simp: logs_ok_def intro: numbered_batch unique_batch)
qed

text \<open>A batch that was stored in time.\<close>

definition stored_in_time ::
  "host \<Rightarrow> scheduler \<Rightarrow> string \<Rightarrow> string \<Rightarrow> event_spec list \<Rightarrow> int option \<Rightarrow> memory_store \<Rightarrow> memory_store \<Rightarrow> bool" where
  "stored_in_time H W sid op specs deadline st st' \<longleftrightarrow>
     (\<exists>clock old. evolves H st old \<and> ms_events st' = ms_events old @ batch_events clock sid op (length (ms_events old)) specs) \<and>
     (\<forall>d. deadline = Some d \<longrightarrow> (\<exists>k. wall_ms W k < d))"

section \<open>The contract of a durable client\<close>

text \<open>Every other worker extends the log and keeps the logs of all operations replayable.\<close>

locale durable_client =
  fixes H :: host and W :: scheduler
  assumes others: "evolves H st (sc_env W k st)"
begin

lemma after_load:
  assumes "\<And>st. evolves H (snd \<sigma>) st \<Longrightarrow> Q (Inr (memory_load sid op st)) (Suc (fst \<sigma>), st)"
  shows "after (await_load W sid op) \<sigma> Q"
  using assms[OF others] by (simp add: after_def await_load_def Let_def)

lemma append_stored:
  assumes "loaded sid op events st" "replay_operation_with_specs H now events specs = Inr s"
    and "append_checks H (wall_ms W k) (ms_events (sc_env W k st)) sid op specs (Some (operation_last_sequence events)) deadline = Inr ()"
    and "ms_events st' = ms_events (sc_env W k st) @ batch_events clock sid op (length (ms_events (sc_env W k st))) specs"
  shows "evolves H st st' \<and> stored_in_time H W sid op specs deadline st st'"
proof -
  have "evolves H (sc_env W k st) st'"
    by (rule append_evolves[OF loaded_evolves[OF assms(1) others] assms(2-4)])
  moreover have "\<forall>d. deadline = Some d \<longrightarrow> (\<exists>k. wall_ms W k < d)"
    using assms(3) by (auto simp: append_checks_def check_deadline_def exc_simps)
  ultimately show ?thesis
    using others[of st k] assms(4) unfolding stored_in_time_def by (blast intro: evolves_trans)
qed

lemma after_append_batch:
  assumes "loaded sid op events (snd \<sigma>)" "replay_operation_with_specs H now events specs = Inr s"
    and "\<And>r st. evolves H (snd \<sigma>) st \<Longrightarrow> (isOk r \<Longrightarrow> stored_in_time H W sid op specs deadline (snd \<sigma>) st) \<Longrightarrow>
      Q (Inr r) (Suc (fst \<sigma>), st)"
  shows "after (await_append_batch H W sid op specs (operation_last_sequence events) deadline) \<sigma> Q"
proof -
  obtain r st where m: "memory_append_batch H (sc_stamp W (fst \<sigma>)) (wall_ms W (fst \<sigma>)) sid op specs
      (Some (operation_last_sequence events)) deadline (sc_env W (fst \<sigma>) (snd \<sigma>)) = (r, st)" by fastforce
  then have "evolves H (snd \<sigma>) st \<and> (isOk r \<longrightarrow> stored_in_time H W sid op specs deadline (snd \<sigma>) st)"
  proof (cases rule: memory_append_batch_cases)
    case (refused f)
    then show ?thesis using others by simp
  next
    case stored
    then show ?thesis using append_stored[OF assms(1,2) stored(4)] by simp
  qed
  with assms(3)[of st r] m show ?thesis by (simp add: after_def await_append_batch_def)
qed

lemma after_append_fenced:
  assumes "loaded sid op events (snd \<sigma>)" "replay_operation_with_specs H now events specs = Inr s"
    and "\<And>r st. evolves H (snd \<sigma>) st \<Longrightarrow> (isOk r \<Longrightarrow> stored_in_time H W sid op specs deadline (snd \<sigma>) st) \<Longrightarrow>
      Q (Inr r) (Suc (fst \<sigma>), st)"
  shows "after (await_append_fenced H W sid op specs lease secs (operation_last_sequence events) deadline entity) \<sigma> Q"
proof -
  obtain r st where m: "memory_append_batch_if_fenced_claim H (sc_stamp W (fst \<sigma>)) (wall_ms W (fst \<sigma>)) (sc_now W (fst \<sigma>)) sid op specs
      lease secs (Some (operation_last_sequence events)) deadline entity (sc_env W (fst \<sigma>) (snd \<sigma>)) = (r, st)" by fastforce
  then have "evolves H (snd \<sigma>) st \<and> (isOk r \<longrightarrow> stored_in_time H W sid op specs deadline (snd \<sigma>) st)"
  proof (cases rule: memory_append_fenced_cases)
    case (refused f)
    then show ?thesis using others by simp
  next
    case stored
    then show ?thesis using append_stored[OF assms(1,2) stored(4)] by simp
  qed
  with assms(3)[of st r] m show ?thesis by (simp add: after_def await_append_fenced_def)
qed

end

end
