(* ===== verification/Verified_Identity.thy ===== *)
theory Verified_Identity
  imports Json_Parse
begin

text \<open>
  Identities at the approval boundary (\<open>security/identity.py\<close>): the verified identity, the local verifier that
  issues it, and the seal by which the default validator recognises what this process issued. The
  keyed hash \<open>hmac(key, _)\<close> with the key of the process is the parameter \<open>mac\<close>; a fresh
  \<open>uuid4\<close> is an argument.
\<close>

section \<open>Values\<close>

record identity_claim =
  ic_principal_id :: string
  ic_credential :: string

record verified_identity =
  vi_principal_id :: string
  vi_roles :: "string set"
  vi_issuer :: string
  vi_verification_id :: string
  vi_provenance :: "string option"

datatype identity_fault = IdentityTextBlank | IdentityRoles | IdentityProvenanceEmpty | IdentityCredential

definition identity_post_init :: "verified_identity \<Rightarrow> (identity_fault, verified_identity) result" where
  "identity_post_init i =
     bindE (guardE (list_all (\<lambda>v. py_strip v \<noteq> []) [vi_principal_id i, vi_issuer i, vi_verification_id i])
              (Raised IdentityTextBlank)) (\<lambda>_.
     bindE (guardE (\<forall>role \<in> vi_roles i. py_strip role \<noteq> []) (Raised IdentityRoles)) (\<lambda>_.
     bindE (guardE (vi_provenance i \<noteq> Some []) (Raised IdentityProvenanceEmpty)) (\<lambda>_. Inr i)))"

section \<open>The seal\<close>

definition provenance_version :: string where
  "provenance_version = ''pi-agent-loop-verified-identity-v1''"

definition provenance_payload :: "string \<Rightarrow> string set \<Rightarrow> string \<Rightarrow> string \<Rightarrow> jdict" where
  "provenance_payload principal_id roles issuer verification_id =
     [(''version'', JStr provenance_version), (''principalId'', JStr principal_id),
      (''roles'', JList (map JStr (sorted_list_of_set roles))), (''issuer'', JStr issuer),
      (''verificationId'', JStr verification_id)]"

definition identity_provenance ::
  "host \<Rightarrow> (string \<Rightarrow> string) \<Rightarrow> string \<Rightarrow> string set \<Rightarrow> string \<Rightarrow> string \<Rightarrow> string" where
  "identity_provenance H mac principal_id roles issuer verification_id =
     mac (json_dumps H True (JObj (provenance_payload principal_id roles issuer verification_id)))"

definition validate_local_identity_provenance :: "host \<Rightarrow> (string \<Rightarrow> string) \<Rightarrow> verified_identity \<Rightarrow> bool" where
  "validate_local_identity_provenance H mac i = (case vi_provenance i of
     None \<Rightarrow> False
   | Some p \<Rightarrow> p = identity_provenance H mac (vi_principal_id i) (vi_roles i) (vi_issuer i) (vi_verification_id i))"

definition issue_local_verified_identity ::
  "host \<Rightarrow> (string \<Rightarrow> string) \<Rightarrow> string \<Rightarrow> string set \<Rightarrow> string \<Rightarrow> string
     \<Rightarrow> (identity_fault, verified_identity) result" where
  "issue_local_verified_identity H mac principal_id roles issuer verification_id =
     identity_post_init \<lparr>vi_principal_id = principal_id, vi_roles = roles, vi_issuer = issuer,
       vi_verification_id = verification_id,
       vi_provenance = Some (identity_provenance H mac principal_id roles issuer verification_id)\<rparr>"

section \<open>The static verifier\<close>

definition credential_digest :: "host \<Rightarrow> string \<Rightarrow> string" where
  "credential_digest H v = sha256_hex H v"

definition static_verifier_init ::
  "host \<Rightarrow> (string, string \<times> string set) dict \<Rightarrow> (string, string \<times> string set) dict" where
  "static_verifier_init H principals = map (\<lambda>(pid, cred, roles). (pid, credential_digest H cred, roles)) principals"

definition static_verifier_verify ::
  "host \<Rightarrow> (string \<Rightarrow> string) \<Rightarrow> string \<Rightarrow> (string, string \<times> string set) dict \<Rightarrow> identity_claim
     \<Rightarrow> (identity_fault, verified_identity) result" where
  "static_verifier_verify H mac uuid principals claim = (case map_of principals (ic_principal_id claim) of
     None \<Rightarrow> Inl (Raised IdentityCredential)
   | Some (digest, roles) \<Rightarrow>
       bindE (guardE (digest = credential_digest H (ic_credential claim)) (Raised IdentityCredential)) (\<lambda>_.
       issue_local_verified_identity H mac (ic_principal_id claim) roles ''static-development-verifier'' uuid))"

section \<open>What the seal binds\<close>

lemma loads_payload:
  "json_loads H (json_dumps H True (JObj (provenance_payload p r i v))) = Some (canon (JObj (provenance_payload p r i v)))"
  unfolding json_dumps_canon
  by (rule json_loads_dumps) (simp_all add: provenance_payload_def list_all_iff)

lemma payload_inject:
  assumes "json_dumps H True (JObj (provenance_payload p r i v)) = json_dumps H True (JObj (provenance_payload p' r' i' v'))"
    and "finite r" "finite r'"
  shows "p' = p \<and> r' = r \<and> i' = i \<and> v' = v"
proof -
  have "canon (JObj (provenance_payload p r i v)) = canon (JObj (provenance_payload p' r' i' v'))"
    using loads_payload[of H] assms(1) by (metis option.inject)
  then have "p' = p \<and> map JStr (sorted_list_of_set r') = map JStr (sorted_list_of_set r) \<and> i' = i \<and> v' = v"
    by (simp add: provenance_payload_def less_char_def comp_def)
  then show ?thesis using assms(2,3) by (metis inj_map_eq_map inj_def json.inject(4) set_sorted_list_of_set)
qed

text \<open>
  The local verifier issues an identity only for the right credential, with the configured roles, and the default validator
  accepts it. If the keyed hash does not collide, the seal of an issued identity is worth nothing
  on any other one: an identity that carries the same seal is accepted exactly when principal, roles, issuer and verification id
  are the issued ones.
\<close>

theorem identity_seal_exact:
  assumes "static_verifier_verify H mac uuid (static_verifier_init H principals) claim = Inr i"
    and "inj mac" and "finite (vi_roles i)" and "vi_provenance j = vi_provenance i" and "finite (vi_roles j)"
  shows "(\<exists>cred. map_of principals (ic_principal_id claim) = Some (cred, vi_roles i) \<and>
      sha256_hex H cred = sha256_hex H (ic_credential claim)) \<and>
    vi_principal_id i = ic_principal_id claim \<and> validate_local_identity_provenance H mac i \<and>
    (validate_local_identity_provenance H mac j \<longleftrightarrow> j = i)"
proof -
  have mo: "map_of (static_verifier_init H principals) k =
      map_option (\<lambda>(cred, roles). (credential_digest H cred, roles)) (map_of principals k)" for k
    by (induction principals) (auto simp: static_verifier_init_def)
  let ?issuer = "''static-development-verifier''"
  from assms(1) obtain cred roles where cred: "map_of principals (ic_principal_id claim) = Some (cred, roles)"
    "sha256_hex H cred = sha256_hex H (ic_credential claim)"
    and i: "i = \<lparr>vi_principal_id = ic_principal_id claim, vi_roles = roles, vi_issuer = ?issuer, vi_verification_id = uuid,
      vi_provenance = Some (identity_provenance H mac (ic_principal_id claim) roles ?issuer uuid)\<rparr>"
    by (auto simp: static_verifier_verify_def mo credential_digest_def issue_local_verified_identity_def
        identity_post_init_def exc_simps split: option.splits)
  have "j = i" if "validate_local_identity_provenance H mac j"
  proof -
    from that assms(4) have "identity_provenance H mac (vi_principal_id j) (vi_roles j) (vi_issuer j) (vi_verification_id j) =
        identity_provenance H mac (ic_principal_id claim) roles ?issuer uuid"
      by (simp add: validate_local_identity_provenance_def i)
    then have "json_dumps H True (JObj (provenance_payload (vi_principal_id j) (vi_roles j) (vi_issuer j) (vi_verification_id j))) =
        json_dumps H True (JObj (provenance_payload (ic_principal_id claim) roles ?issuer uuid))"
      unfolding identity_provenance_def using assms(2) by (meson injD)
    from payload_inject[OF this assms(5)] assms(3,4) show ?thesis by (cases j) (simp add: i)
  qed
  then show ?thesis using cred by (auto simp: i validate_local_identity_provenance_def)
qed

definition identity_host :: host where
  "identity_host = \<lparr>sha256_hex = id, repr_of = \<lambda>_. [], read_float = \<lambda>_. FNan\<rparr>"

definition alice_claim :: identity_claim where
  "alice_claim = \<lparr>ic_principal_id = ''alice'', ic_credential = ''pw''\<rparr>"

definition alice :: verified_identity where
  "alice = \<lparr>vi_principal_id = ''alice'', vi_roles = {''reader''}, vi_issuer = ''static-development-verifier'',
     vi_verification_id = ''v'', vi_provenance = Some (identity_provenance identity_host id ''alice'' {''reader''}
       ''static-development-verifier'' ''v'')\<rparr>"

theorem identity_seal_exact_witness:
  "validate_local_identity_provenance identity_host id alice \<and>
   \<not> validate_local_identity_provenance identity_host id (alice\<lparr>vi_roles := {''admin''}\<rparr>)"
proof -
  have "static_verifier_verify identity_host id ''v''
      (static_verifier_init identity_host [(''alice'', ''pw'', {''reader''})]) alice_claim = Inr alice"
    by (simp add: static_verifier_verify_def static_verifier_init_def alice_claim_def alice_def credential_digest_def
        issue_local_verified_identity_def identity_post_init_def py_strip_eq_Nil py_space_def identity_provenance_def
        provenance_payload_def identity_host_def quote_string_def)
  from identity_seal_exact[OF this, of "alice\<lparr>vi_roles := {''admin''}\<rparr>"] show ?thesis
    by (simp add: alice_def alice_claim_def)
qed

end
