(* ===== verification/Approval_Service.thy ===== *)
theory Approval_Service
  imports Service_Calls Verified_Identity
begin

text \<open>
  The approval service (\<open>approval/state_machine.py\<close>) on the in-memory store: request, grant, reject, consume and
  expire an approval, each as a load of the log, a validation against the reducer and an append that expects the
  loaded version, repeated up to twenty times on conflict. Calls run among
  other workers as \<open>Service_Calls\<close> describes.
\<close>

section \<open>Records and replay\<close>

datatype approval_record_state = ArWaiting | ArApproved | ArRejected | ArExpired | ArConsumed

datatype approval_code =
    AcIdentityRequired | AcProvenance | AcSessionScope | AcOperationNotFound | AcConflict | AcRoleMissing
  | AcSelfApproval | AcNotWaiting | AcNotApproved | AcActionMismatch | AcExpired | AcClaimLost
  | AcDuplicate | AcWithoutRequest | AcTransition | AcNotFound | AcLog log_fault | AcStore store_fault

record approval_record =
  ar_approval_id :: string
  ar_session_id :: string
  ar_operation_id :: string
  ar_state :: approval_record_state
  ar_action_hash :: string
  ar_action_summary :: string
  ar_requester_id :: string
  ar_required_role :: string
  ar_expires_at :: int
  ar_approver_id :: "string option"

definition str_field :: "host \<Rightarrow> jdict \<Rightarrow> string \<Rightarrow> string" where
  "str_field H data k = py_str H (jget_or data k (JStr []))"

definition requested_record :: "host \<Rightarrow> string \<Rightarrow> operation_event \<Rightarrow> (approval_code, approval_record) result" where
  "requested_record H aid e =
     bindE (py_int (jget_or (ev_data e) ''expiresAt'' (JInt 0))) (\<lambda>expires.
     Inr \<lparr>ar_approval_id = aid, ar_session_id = ev_session_id e, ar_operation_id = ev_operation_id e,
       ar_state = ArWaiting, ar_action_hash = str_field H (ev_data e) ''actionHash'',
       ar_action_summary = str_field H (ev_data e) ''actionSummary'',
       ar_requester_id = str_field H (ev_data e) ''requesterId'',
       ar_required_role = str_field H (ev_data e) ''requiredRole'', ar_expires_at = expires, ar_approver_id = None\<rparr>)"

text \<open>One transition of a record: the state it needs, and the state it gives.\<close>

definition move_record ::
  "approval_record_state \<Rightarrow> (approval_record \<Rightarrow> approval_record) \<Rightarrow> approval_record \<Rightarrow> (approval_code, approval_record) result" where
  "move_record needed f r = bindE (guardE (ar_state r = needed) (Raised AcTransition)) (\<lambda>_. Inr (f r))"

definition change_record :: "host \<Rightarrow> operation_event \<Rightarrow> approval_record \<Rightarrow> (approval_code, approval_record) result" where
  "change_record H e r =
     (if ev_type e = ''approval_granted'' then move_record ArWaiting
        (\<lambda>r. r\<lparr>ar_state := ArApproved, ar_approver_id := Some (str_field H (ev_data e) ''approverId'')\<rparr>) r
      else if ev_type e = ''approval_rejected'' then move_record ArWaiting (\<lambda>r. r\<lparr>ar_state := ArRejected\<rparr>) r
      else if ev_type e = ''approval_expired'' then move_record ArWaiting (\<lambda>r. r\<lparr>ar_state := ArExpired\<rparr>) r
      else if ev_type e = ''approval_consumed'' then move_record ArApproved (\<lambda>r. r\<lparr>ar_state := ArConsumed\<rparr>) r
      else Inr r)"

definition replay_approval_event ::
  "host \<Rightarrow> string \<Rightarrow> operation_event \<Rightarrow> approval_record option \<Rightarrow> (approval_code, approval_record option) result" where
  "replay_approval_event H aid e ro =
     (if jget (ev_data e) ''approvalId'' \<noteq> JStr aid then Inr ro
      else if ev_type e = ''approval_requested'' then
        bindE (guardE (ro = None) (Raised AcDuplicate)) (\<lambda>_. bindE (requested_record H aid e) (\<lambda>r. Inr (Some r)))
      else (case ro of
          None \<Rightarrow> Inl (Raised AcWithoutRequest)
        | Some r \<Rightarrow> bindE (change_record H e r) (\<lambda>r'. Inr (Some r'))))"

definition replay_approval :: "host \<Rightarrow> operation_event list \<Rightarrow> string \<Rightarrow> (approval_code, approval_record) result" where
  "replay_approval H events aid =
     bindE (foldE (replay_approval_event H aid) events None) (\<lambda>ro.
     case ro of None \<Rightarrow> Inl (Raised AcNotFound) | Some r \<Rightarrow> Inr r)"

section \<open>Transitions\<close>

definition log_result :: "(log_fault, 'a) result \<Rightarrow> (approval_code, 'a) result" where
  "log_result r = catchE r (\<lambda>f. Inl (Raised (AcLog f)))"

text \<open>\<open>replay_operation_with_specs\<close>, which stamps the simulated events with the time it runs.\<close>

definition validate_specs :: "host \<Rightarrow> scheduler \<Rightarrow> operation_event list \<Rightarrow> event_spec list \<Rightarrow> (approval_code, operation_state) service" where
  "validate_specs H W events specs = bindS (clockS W) (\<lambda>now. liftS (log_result (replay_operation_with_specs H now events specs)))"

definition max_conflict_retries :: nat where
  "max_conflict_retries = 20"

fun expire_loop :: "host \<Rightarrow> scheduler \<Rightarrow> nat \<Rightarrow> approval_record \<Rightarrow> (approval_code, approval_record) service" where
  "expire_loop H W 0 record = liftS (Inl (Raised AcConflict))"
| "expire_loop H W (Suc n) record =
     bindS (await_load W (Some (ar_session_id record)) (Some (ar_operation_id record))) (\<lambda>events.
     bindS (liftS (replay_approval H events (ar_approval_id record))) (\<lambda>current.
     if ar_state current \<noteq> ArWaiting then liftS (Inr current) else
     bindS (clockS W) (\<lambda>now.
     if now < ar_expires_at current then liftS (Inr current) else
     let specs = [(''approval_expired'', [(''approvalId'', JStr (ar_approval_id current))])] in
     bindS (validate_specs H W events specs) (\<lambda>_.
     bindS (await_append_batch H W (ar_session_id current) (ar_operation_id current) specs
              (operation_last_sequence events) None) (\<lambda>r.
     case r of
       Inr _ \<Rightarrow> bindS (await_load W (Some (ar_session_id current)) (Some (ar_operation_id current))) (\<lambda>events.
                 liftS (replay_approval H events (ar_approval_id current)))
     | Inl (Raised f) \<Rightarrow> if conflict_fault f then expire_loop H W n record else liftS (Inl (Raised (AcStore f)))
     | Inl (Builtin b) \<Rightarrow> liftS (Inl (Builtin b)))))))"

definition expire_approval :: "host \<Rightarrow> scheduler \<Rightarrow> approval_record \<Rightarrow> (approval_code, approval_record) service" where
  "expire_approval H W record = expire_loop H W max_conflict_retries record"

record approval_service =
  sv_session_id :: "string option"
  sv_validator :: "verified_identity \<Rightarrow> bool option"

definition get_approval :: "host \<Rightarrow> approval_service \<Rightarrow> scheduler \<Rightarrow> string \<Rightarrow> (approval_code, approval_record) service" where
  "get_approval H S W aid =
     bindS (await_load W (sv_session_id S) None) (\<lambda>events.
     bindS (liftS (replay_approval H events aid)) (\<lambda>record.
     bindS (liftS (log_result (replay_operation H (filter (of_operation (ar_session_id record) (ar_operation_id record)) events)))) (\<lambda>_.
     bindS (clockS W) (\<lambda>now.
     if ar_state record = ArWaiting \<and> ar_expires_at record \<le> now then expire_approval H W record
     else liftS (Inr record)))))"

text \<open>The keyword arguments of \<open>_append_transition\<close>; the deadline is the expiry of the approval.\<close>

record approval_transition =
  tr_event_type :: string
  tr_data :: jdict
  tr_required_state :: approval_record_state
  tr_invalid_code :: approval_code
  tr_fenced_claim :: "claim_lease option"
  tr_renew_seconds :: rat

definition await_transition ::
  "host \<Rightarrow> scheduler \<Rightarrow> approval_transition \<Rightarrow> int \<Rightarrow> approval_record \<Rightarrow> operation_event list \<Rightarrow> event_spec list
     \<Rightarrow> ('f, (store_fault, operation_event list) result) service" where
  "await_transition H W tr deadline current events specs = (case tr_fenced_claim tr of
     None \<Rightarrow> await_append_batch H W (ar_session_id current) (ar_operation_id current) specs
       (operation_last_sequence events) (Some deadline)
   | Some lease \<Rightarrow> await_append_fenced H W (ar_session_id current) (ar_operation_id current) specs lease
       (tr_renew_seconds tr) (operation_last_sequence events) (Some deadline) (Some (ar_approval_id current)))"

fun transition_loop ::
  "host \<Rightarrow> scheduler \<Rightarrow> nat \<Rightarrow> approval_transition \<Rightarrow> approval_record \<Rightarrow> (approval_code, approval_record) service" where
  "transition_loop H W 0 tr record = liftS (Inl (Raised AcConflict))"
| "transition_loop H W (Suc n) tr record =
     bindS (await_load W (Some (ar_session_id record)) (Some (ar_operation_id record))) (\<lambda>events.
     bindS (liftS (replay_approval H events (ar_approval_id record))) (\<lambda>current.
     if ar_state current \<noteq> tr_required_state tr then liftS (Inl (Raised (tr_invalid_code tr))) else
     let specs = [(tr_event_type tr, tr_data tr)] in
     bindS (validate_specs H W events specs) (\<lambda>_.
     bindS (await_transition H W tr (ar_expires_at record) current events specs) (\<lambda>r.
     case r of
       Inr _ \<Rightarrow> bindS (await_load W (Some (ar_session_id current)) (Some (ar_operation_id current))) (\<lambda>events.
                 liftS (replay_approval H events (ar_approval_id current)))
     | Inl (Raised f) \<Rightarrow>
         if f = SfDeadline then bindS (expire_approval H W current) (\<lambda>_. liftS (Inl (Raised AcExpired)))
         else if claim_lost_fault f then liftS (Inl (Raised AcClaimLost))
         else if conflict_fault f then transition_loop H W n tr record
         else liftS (Inl (Raised (AcStore f)))
     | Inl (Builtin b) \<Rightarrow> liftS (Inl (Builtin b))))))"

definition append_transition ::
  "host \<Rightarrow> scheduler \<Rightarrow> approval_transition \<Rightarrow> approval_record \<Rightarrow> (approval_code, approval_record) service" where
  "append_transition H W tr record = transition_loop H W max_conflict_retries tr record"

section \<open>The operations of the service\<close>

text \<open>An argument that should be an identity: an exact \<open>VerifiedIdentity\<close>, or any other object.\<close>

datatype identity_arg = ExactIdentity verified_identity | OtherObject

definition assert_trusted_identity :: "approval_service \<Rightarrow> identity_arg \<Rightarrow> (approval_code, verified_identity) result" where
  "assert_trusted_identity S arg = (case arg of
     OtherObject \<Rightarrow> Inl (Raised AcIdentityRequired)
   | ExactIdentity i \<Rightarrow> if sv_validator S i = Some True then Inr i else Inl (Raised AcProvenance))"

definition build_approval_request_event ::
  "host \<Rightarrow> rat \<Rightarrow> string \<Rightarrow> verified_identity \<Rightarrow> jdict \<Rightarrow> string \<Rightarrow> string \<Rightarrow> rat \<Rightarrow> ('f, string \<times> jdict) result" where
  "build_approval_request_event H ms uuid requester action summary role ttl =
     bindE (guardE (0 < ttl) (Builtin ValueErr)) (\<lambda>_.
     bindE (py_int (JFloat (FFin (ms + ttl * 1000)))) (\<lambda>expires.
     Inr (uuid, [(''approvalId'', JStr uuid), (''actionHash'', JStr (action_digest H action)),
       (''actionSummary'', JStr summary), (''requesterId'', JStr (vi_principal_id requester)),
       (''requesterVerificationId'', JStr (vi_verification_id requester)), (''requiredRole'', JStr role),
       (''expiresAt'', JInt expires)])))"

fun request_loop ::
  "host \<Rightarrow> approval_service \<Rightarrow> scheduler \<Rightarrow> nat \<Rightarrow> string \<Rightarrow> string \<Rightarrow> string \<Rightarrow> jdict \<Rightarrow> (approval_code, approval_record) service" where
  "request_loop H S W 0 sid op aid data = liftS (Inl (Raised AcConflict))"
| "request_loop H S W (Suc n) sid op aid data =
     bindS (await_load W (Some sid) (Some op)) (\<lambda>events.
     if events = [] then liftS (Inl (Raised AcOperationNotFound)) else
     let specs = [(''approval_requested'', data)] in
     bindS (validate_specs H W events specs) (\<lambda>_.
     bindS (await_append_batch H W sid op specs (operation_last_sequence events) None) (\<lambda>r.
     case r of
       Inr _ \<Rightarrow> get_approval H S W aid
     | Inl (Raised f) \<Rightarrow> if conflict_fault f then request_loop H S W n sid op aid data else liftS (Inl (Raised (AcStore f)))
     | Inl (Builtin b) \<Rightarrow> liftS (Inl (Builtin b)))))"

definition request_approval ::
  "host \<Rightarrow> approval_service \<Rightarrow> scheduler \<Rightarrow> string \<Rightarrow> string \<Rightarrow> string \<Rightarrow> identity_arg \<Rightarrow> jdict \<Rightarrow> string \<Rightarrow> string \<Rightarrow> rat
     \<Rightarrow> (approval_code, approval_record) service" where
  "request_approval H S W uuid sid op requester action summary role ttl =
     bindS (liftS (assert_trusted_identity S requester)) (\<lambda>i.
     if (case sv_session_id S of None \<Rightarrow> False | Some own \<Rightarrow> sid \<noteq> own) then liftS (Inl (Raised AcSessionScope)) else
     bindS (\<lambda>\<sigma>. (build_approval_request_event H (sc_ms W (fst \<sigma>)) uuid i action summary role ttl, \<sigma>)) (\<lambda>(aid, data).
     request_loop H S W max_conflict_retries sid op aid data))"

definition grant_approval ::
  "host \<Rightarrow> approval_service \<Rightarrow> scheduler \<Rightarrow> string \<Rightarrow> identity_arg \<Rightarrow> bool \<Rightarrow> claim_lease option \<Rightarrow> rat
     \<Rightarrow> (approval_code, approval_record) service" where
  "grant_approval H S W aid approver allow_self fenced renew =
     bindS (liftS (assert_trusted_identity S approver)) (\<lambda>i.
     bindS (get_approval H S W aid) (\<lambda>record.
     if ar_required_role record \<notin> vi_roles i then liftS (Inl (Raised AcRoleMissing))
     else if \<not> allow_self \<and> ar_requester_id record = vi_principal_id i then liftS (Inl (Raised AcSelfApproval))
     else append_transition H W \<lparr>tr_event_type = ''approval_granted'', tr_data = [(''approvalId'', JStr aid),
       (''approverId'', JStr (vi_principal_id i)), (''approverVerificationId'', JStr (vi_verification_id i))],
       tr_required_state = ArWaiting, tr_invalid_code = AcNotWaiting, tr_fenced_claim = fenced,
       tr_renew_seconds = renew\<rparr> record))"

definition reject_approval ::
  "host \<Rightarrow> approval_service \<Rightarrow> scheduler \<Rightarrow> string \<Rightarrow> identity_arg \<Rightarrow> string \<Rightarrow> claim_lease option \<Rightarrow> rat
     \<Rightarrow> (approval_code, approval_record) service" where
  "reject_approval H S W aid approver reason fenced renew =
     bindS (liftS (assert_trusted_identity S approver)) (\<lambda>i.
     bindS (get_approval H S W aid) (\<lambda>record.
     if ar_required_role record \<notin> vi_roles i then liftS (Inl (Raised AcRoleMissing))
     else append_transition H W \<lparr>tr_event_type = ''approval_rejected'', tr_data = [(''approvalId'', JStr aid),
       (''approverId'', JStr (vi_principal_id i)), (''approverVerificationId'', JStr (vi_verification_id i)),
       (''reason'', JStr reason)],
       tr_required_state = ArWaiting, tr_invalid_code = AcNotWaiting, tr_fenced_claim = fenced,
       tr_renew_seconds = renew\<rparr> record))"

definition consume_approval ::
  "host \<Rightarrow> approval_service \<Rightarrow> scheduler \<Rightarrow> string \<Rightarrow> jdict \<Rightarrow> identity_arg \<Rightarrow> claim_lease option \<Rightarrow> rat
     \<Rightarrow> (approval_code, approval_record) service" where
  "consume_approval H S W aid action consumer fenced renew =
     bindS (liftS (assert_trusted_identity S consumer)) (\<lambda>i.
     bindS (get_approval H S W aid) (\<lambda>record.
     if ar_action_hash record \<noteq> action_digest H action then liftS (Inl (Raised AcActionMismatch))
     else append_transition H W \<lparr>tr_event_type = ''approval_consumed'', tr_data = [(''approvalId'', JStr aid),
       (''consumerId'', JStr (vi_principal_id i)), (''consumerVerificationId'', JStr (vi_verification_id i))],
       tr_required_state = ArApproved, tr_invalid_code = AcNotApproved, tr_fenced_claim = fenced,
       tr_renew_seconds = renew\<rparr> record))"

end
