(* ===== verification/Approval_Theorems.thy ===== *)
theory Approval_Theorems
  imports Approval_Service
begin

text \<open>
  The calls of the approval service among other workers. Inside \<open>durable_client\<close> every loop and every operation gets its
  contract: the log is only extended, all logs stay replayable, a returned record comes from its request event, and a
  decision that is reported as stored is stored, in time. The contract is interpreted for a worker alone and for a worker among
  rivals that call the same service.
\<close>

section \<open>Records come from their request\<close>

definition record_of :: "host \<Rightarrow> string \<Rightarrow> operation_event list \<Rightarrow> approval_record \<Rightarrow> bool" where
  "record_of H aid es x \<longleftrightarrow> (\<exists>e \<in> set es. ev_type e = ''approval_requested'' \<and> jget (ev_data e) ''approvalId'' = JStr aid \<and>
     (\<exists>r. requested_record H aid e = Inr r \<and> x = r\<lparr>ar_state := ar_state x, ar_approver_id := ar_approver_id x\<rparr>))"

lemma record_of_mono: "record_of H aid es x \<Longrightarrow> set es \<subseteq> set fs \<Longrightarrow> record_of H aid fs x"
  by (auto simp: record_of_def)

lemma move_record_ok: "move_record s f r = Inr r' \<longleftrightarrow> ar_state r = s \<and> r' = f r"
  by (auto simp: move_record_def exc_simps)

lemma change_record_keeps: "change_record H e r = Inr r' \<Longrightarrow> r' = r\<lparr>ar_state := ar_state r', ar_approver_id := ar_approver_id r'\<rparr>"
  by (auto simp: change_record_def move_record_ok split: if_splits)

lemma record_update_trans:
  "(x :: approval_record) = r\<lparr>ar_state := s, ar_approver_id := a\<rparr> \<Longrightarrow> y = x\<lparr>ar_state := s', ar_approver_id := a'\<rparr> \<Longrightarrow>
     y = r\<lparr>ar_state := s', ar_approver_id := a'\<rparr>"
  by simp

lemma replay_approval_record:
  assumes "replay_approval H es aid = Inr x"
  shows "record_of H aid es x"
proof -
  from assms have f: "foldE (replay_approval_event H aid) es None = Inr (Some x)"
    by (auto simp: replay_approval_def exc_simps split: option.splits)
  have "\<forall>y. Some x = Some y \<longrightarrow> record_of H aid es y"
  proof (rule foldE_invariant[OF f])
    fix e ro ro' assume e: "e \<in> set es" and IH: "\<forall>y. ro = Some y \<longrightarrow> record_of H aid es y"
      and step: "replay_approval_event H aid e ro = Inr ro'"
    show "\<forall>y. ro' = Some y \<longrightarrow> record_of H aid es y"
    proof (cases "jget (ev_data e) ''approvalId'' = JStr aid")
      case True
      show ?thesis
      proof (cases "ev_type e = ''approval_requested''")
        case req: True
        with True step e show ?thesis
          by (auto simp: replay_approval_event_def exc_simps record_of_def requested_record_def)
      next
        case False
        with True step obtain r r' where r: "ro = Some r" "ro' = Some r'" "change_record H e r = Inr r'"
          by (auto simp: replay_approval_event_def exc_simps split: option.splits)
        with IH change_record_keeps[OF r(3)] show ?thesis
          unfolding record_of_def by (metis option.inject record_update_trans)
      qed
    qed (use step IH in \<open>simp add: replay_approval_event_def\<close>)
  qed simp
  then show ?thesis by simp
qed

lemma record_of_ids:
  assumes "record_of H aid es x" "\<And>e. e \<in> set es \<Longrightarrow> of_operation sid op e"
  shows "ar_approval_id x = aid \<and> ar_session_id x = sid \<and> ar_operation_id x = op"
proof -
  from assms(1) obtain e r where "e \<in> set es" "requested_record H aid e = Inr r"
    "x = r\<lparr>ar_state := ar_state x, ar_approver_id := ar_approver_id x\<rparr>" unfolding record_of_def by blast
  moreover from this have "ar_approval_id r = aid \<and> ar_session_id r = ev_session_id e \<and> ar_operation_id r = ev_operation_id e"
    by (auto simp: requested_record_def exc_simps)
  ultimately show ?thesis using assms(2)[of e] unfolding of_operation_def
    by (metis approval_record.select_convs(1,2,3) approval_record.surjective approval_record.update_convs(4,10))
qed

lemma record_of_id: "record_of H aid es x \<Longrightarrow> ar_approval_id x = aid"
  unfolding record_of_def requested_record_def
  by (auto simp: exc_simps) (metis approval_record.select_convs(1) approval_record.surjective approval_record.update_convs(4,10))

text \<open>A call that extends the log and returns a record of the approval, if it returns.\<close>

definition gives_record ::
  "host \<Rightarrow> string \<Rightarrow> memory_store \<Rightarrow> (approval_code, approval_record) result \<Rightarrow> call_state \<Rightarrow> bool" where
  "gives_record H aid st r \<sigma>' \<longleftrightarrow> evolves H st (snd \<sigma>') \<and> (\<forall>x. r = Inr x \<longrightarrow> record_of H aid (ms_events (snd \<sigma>')) x)"

lemma gives_failed: "evolves H st (snd \<sigma>) \<Longrightarrow> gives_record H aid st (Inl e) \<sigma>"
  by (simp add: gives_record_def)

text \<open>A call that stores a transition before the deadline of the record, if it returns.\<close>

definition new_fact :: "memory_store \<Rightarrow> memory_store \<Rightarrow> string \<Rightarrow> string \<Rightarrow> event_spec \<Rightarrow> bool" where
  "new_fact st st' sid op spec \<longleftrightarrow> (\<exists>e \<in> set (drop (length (ms_events st)) (ms_events st')).
     of_operation sid op e \<and> ev_type e = fst spec \<and> ev_data e = snd spec)"

definition decided ::
  "host \<Rightarrow> scheduler \<Rightarrow> approval_transition \<Rightarrow> approval_record \<Rightarrow> memory_store \<Rightarrow> (approval_code, approval_record) result
     \<Rightarrow> call_state \<Rightarrow> bool" where
  "decided H W tr record st r \<sigma>' \<longleftrightarrow> evolves H st (snd \<sigma>') \<and> (isOk r \<longrightarrow> (\<exists>k. wall_ms W k < ar_expires_at record) \<and>
     new_fact st (snd \<sigma>') (ar_session_id record) (ar_operation_id record) (tr_event_type tr, tr_data tr))"

text \<open>A decision that was stored for a trusted identity which passed the checks of the operation.\<close>

definition authorised ::
  "host \<Rightarrow> approval_service \<Rightarrow> scheduler \<Rightarrow> string \<Rightarrow> identity_arg \<Rightarrow> (verified_identity \<Rightarrow> approval_record \<Rightarrow> bool)
     \<Rightarrow> (verified_identity \<Rightarrow> approval_transition) \<Rightarrow> memory_store \<Rightarrow> (approval_code, approval_record) result \<Rightarrow> call_state \<Rightarrow> bool" where
  "authorised H S W aid arg allowed tr st r \<sigma>' \<longleftrightarrow> evolves H st (snd \<sigma>') \<and>
     (isOk r \<longrightarrow> (\<exists>i x. arg = ExactIdentity i \<and> sv_validator S i = Some True \<and> allowed i x \<and>
       record_of H aid (ms_events (snd \<sigma>')) x \<and> decided H W (tr i) x st r \<sigma>'))"

lemma decided_failed: "evolves H st (snd \<sigma>) \<Longrightarrow> decided H W tr record st (Inl e) \<sigma>"
  by (simp add: decided_def)

lemma new_fact_evolves: "new_fact st st' sid op spec \<Longrightarrow> evolves H st' st'' \<Longrightarrow> new_fact st st'' sid op spec"
  by (auto simp: new_fact_def evolves_def)

lemma new_fact_stored:
  assumes "stored_in_time H W sid op [spec] deadline st1 st2" "evolves H st st1"
  shows "new_fact st st2 sid op spec"
proof -
  from assms(1) obtain clock old where old: "evolves H st1 old"
    "ms_events st2 = ms_events old @ batch_events clock sid op (length (ms_events old)) [spec]" unfolding stored_in_time_def by blast
  from evolves_trans[OF assms(2) old(1)] have "length (ms_events st) \<le> length (ms_events old)" by (auto simp: evolves_def)
  with old(2) show ?thesis by (simp add: new_fact_def of_operation_def)
qed

section \<open>Every operation keeps the logs\<close>

context durable_client
begin

lemma after_validate:
  assumes "\<And>s now. replay_operation_with_specs H now events specs = Inr s \<Longrightarrow> Q (Inr s) \<sigma>" "\<And>e. Q (Inl e) \<sigma>"
  shows "after (validate_specs H W events specs) \<sigma> Q"
  using assms
  by (cases "replay_operation_with_specs H (wall_ms W (fst \<sigma>)) events specs")
    (auto simp: validate_specs_def log_result_def catchE_def split: exc.splits)

text \<open>What a call that returns a record of an approval shows.\<close>

lemma after_load_record:
  assumes "\<And>st e. evolves H (snd \<sigma>) st \<Longrightarrow> Q (Inl e) (Suc (fst \<sigma>), st)"
    and "\<And>st x. evolves H (snd \<sigma>) st \<Longrightarrow> loaded sid op (memory_load (Some sid) (Some op) st) st \<Longrightarrow>
      replay_approval H (memory_load (Some sid) (Some op) st) aid = Inr x \<Longrightarrow>
      record_of H aid (ms_events st) x \<Longrightarrow> ar_approval_id x = aid \<Longrightarrow> ar_session_id x = sid \<Longrightarrow> ar_operation_id x = op \<Longrightarrow>
      after (f (memory_load (Some sid) (Some op) st) x) (Suc (fst \<sigma>), st) Q"
  shows "after (bindS (await_load W (Some sid) (Some op)) (\<lambda>events.
    bindS (liftS (replay_approval H events aid)) (\<lambda>x. f events x))) \<sigma> Q"
  unfolding after_bindS
proof (rule after_load, simp split: sum.splits, intro conjI allI impI)
  fix st x assume st: "evolves H (snd \<sigma>) st" and x: "replay_approval H (memory_load (Some sid) (Some op) st) aid = Inr x"
  have "record_of H aid (memory_load (Some sid) (Some op) st) x" using x by (rule replay_approval_record)
  moreover from this have "ar_approval_id x = aid \<and> ar_session_id x = sid \<and> ar_operation_id x = op"
    by (rule record_of_ids) (simp add: load_of_operation)
  moreover have "set (memory_load (Some sid) (Some op) st) \<subseteq> set (ms_events st)" by (auto simp: load_of_operation)
  ultimately show "after (f (memory_load (Some sid) (Some op) st) x) (Suc (fst \<sigma>), st) Q"
    using assms(2)[OF st loaded_load x] record_of_mono by blast
qed (rule assms(1))

lemma reload_record:
  assumes "evolves H st (snd \<sigma>)"
  shows "after (bindS (await_load W (Some sid) (Some op)) (\<lambda>events. liftS (replay_approval H events aid))) \<sigma> (gives_record H aid st)"
proof -
  have "after (bindS (await_load W (Some sid) (Some op)) (\<lambda>events.
      bindS (liftS (replay_approval H events aid)) (\<lambda>x. liftS (Inr x)))) \<sigma> (gives_record H aid st)"
    by (rule after_load_record) (auto simp: gives_record_def intro: evolves_trans[OF assms])
  moreover have "bindS (liftS r) (\<lambda>x. liftS (Inr x)) = liftS r" for r :: "(approval_code, approval_record) result"
    by (intro ext) (simp add: bindS_def liftS_def split: sum.splits)
  ultimately show ?thesis by simp
qed

text \<open>Validate against a loaded log, append with its version, go on with the answer of the store.\<close>

lemma after_checked:
  assumes "\<And>R s now. replay_operation_with_specs H now events specs = Inr s \<Longrightarrow>
      (\<And>r st. evolves H (snd \<sigma>) st \<Longrightarrow> (isOk r \<Longrightarrow> P st) \<Longrightarrow> R (Inr r) (Suc (fst \<sigma>), st)) \<Longrightarrow> after ap \<sigma> R"
    and "\<And>e. Q (Inl e) \<sigma>"
    and "\<And>r st. evolves H (snd \<sigma>) st \<Longrightarrow> (isOk r \<Longrightarrow> P st) \<Longrightarrow> after (g r) (Suc (fst \<sigma>), st) Q"
  shows "after (bindS (validate_specs H W events specs) (\<lambda>_. bindS ap g)) \<sigma> Q"
  unfolding after_bindS
proof (rule after_validate)
  fix s now assume v: "replay_operation_with_specs H now events specs = Inr s"
  show "case Inr s of Inl e \<Rightarrow> Q (Inl e) \<sigma> | Inr _ \<Rightarrow> after ap \<sigma> (\<lambda>r \<sigma>'. case r of Inl e \<Rightarrow> Q (Inl e) \<sigma>' | Inr y \<Rightarrow> after (g y) \<sigma>' Q)"
    unfolding sum.case by (rule assms(1)[OF v]) (simp add: assms(3))
qed (simp add: assms(2))

lemma after_checked_batch:
  assumes l: "loaded sid op events (snd \<sigma>)" and e: "\<And>e. Q (Inl e) \<sigma>"
    and g: "\<And>r st. evolves H (snd \<sigma>) st \<Longrightarrow> (isOk r \<Longrightarrow> stored_in_time H W sid op specs deadline (snd \<sigma>) st) \<Longrightarrow>
      after (g r) (Suc (fst \<sigma>), st) Q"
  shows "after (bindS (validate_specs H W events specs) (\<lambda>_.
    bindS (await_append_batch H W sid op specs (operation_last_sequence events) deadline) g)) \<sigma> Q"
  by (rule after_checked[where P = "stored_in_time H W sid op specs deadline (snd \<sigma>)"]) (auto intro: after_append_batch[OF l] e g)

lemma after_if: "(c \<Longrightarrow> after a \<sigma> Q) \<Longrightarrow> (\<not> c \<Longrightarrow> after b \<sigma> Q) \<Longrightarrow> after (if c then a else b) \<sigma> Q"
  by simp

lemma after_clock: "after (f (wall_ms W (fst \<sigma>))) \<sigma> Q \<Longrightarrow> after (bindS (clockS W) f) \<sigma> Q"
  by simp

lemma expire_loop_spec:
  "evolves H st (snd \<sigma>) \<Longrightarrow> after (expire_loop H W n record) \<sigma> (gives_record H (ar_approval_id record) st)"
proof (induction n arbitrary: \<sigma>)
  case 0
  then show ?case by (simp add: gives_record_def)
next
  case (Suc n)
  show ?case unfolding expire_loop.simps Let_def
  proof (rule after_load_record, goal_cases)
    case (2 st1 x)
    have st: "evolves H st st1" using Suc.prems 2(1) by (rule evolves_trans)
    then have here: "after (liftS (Inr x)) (Suc (fst \<sigma>), st1) (gives_record H (ar_approval_id record) st)"
      using 2(4) by (simp add: gives_record_def)
    show ?case unfolding 2(5-7)
    proof (intro after_if after_clock here after_checked_batch)
      show "gives_record H (ar_approval_id record) st (Inl e) (Suc (fst \<sigma>), st1)" for e
        using st by (simp add: gives_record_def)
      fix r st2 assume "evolves H (snd (Suc (fst \<sigma>), st1)) st2"
      with st have st2: "evolves H st (snd (Suc (fst (Suc (fst \<sigma>), st1)), st2))" by (auto intro: evolves_trans)
      show "after (case r of Inl (Raised f) \<Rightarrow> if conflict_fault f then expire_loop H W n record else liftS (Inl (Raised (AcStore f)))
          | Inl (Builtin b) \<Rightarrow> liftS (Inl (Builtin b))
          | Inr _ \<Rightarrow> bindS (await_load W (Some (ar_session_id record)) (Some (ar_operation_id record))) (\<lambda>events.
              liftS (replay_approval H events (ar_approval_id record))))
        (Suc (fst (Suc (fst \<sigma>), st1)), st2) (gives_record H (ar_approval_id record) st)"
        using Suc.IH[OF st2] reload_record[OF st2] st2
        by (auto simp del: after_bindS intro: gives_failed split: sum.splits exc.splits)
    qed (use 2(2) in simp)
  qed (use Suc.prems in \<open>auto simp: gives_record_def intro: evolves_trans\<close>)
qed

lemma get_approval_spec:
  assumes "evolves H st (snd \<sigma>)"
  shows "after (get_approval H S W aid) \<sigma> (gives_record H aid st)"
  unfolding get_approval_def after_bindS
proof (rule after_load)
  fix st1 assume "evolves H (snd \<sigma>) st1"
  with assms have st1: "evolves H st st1" by (rule evolves_trans)
  let ?events = "memory_load (sv_session_id S) None st1" and ?\<sigma> = "(Suc (fst \<sigma>), st1)"
  have sub: "set ?events \<subseteq> set (ms_events st1)" by (auto simp: memory_load_def load_filter_def)
  show "case Inr ?events of Inl e \<Rightarrow> gives_record H aid st (Inl e) ?\<sigma> | Inr events \<Rightarrow>
    after (liftS (replay_approval H events aid)) ?\<sigma> (\<lambda>r \<sigma>'. case r of Inl e \<Rightarrow> gives_record H aid st (Inl e) \<sigma>' | Inr record \<Rightarrow>
      after (liftS (log_result (replay_operation H (filter (of_operation (ar_session_id record) (ar_operation_id record)) events)))) \<sigma>'
        (\<lambda>r \<sigma>'. case r of Inl e \<Rightarrow> gives_record H aid st (Inl e) \<sigma>' | Inr _ \<Rightarrow>
          after (clockS W) \<sigma>' (\<lambda>r \<sigma>'. case r of Inl e \<Rightarrow> gives_record H aid st (Inl e) \<sigma>' | Inr now \<Rightarrow>
            after (if ar_state record = ArWaiting \<and> ar_expires_at record \<le> now then expire_approval H W record
              else liftS (Inr record)) \<sigma>' (gives_record H aid st))))"
  proof (cases "replay_approval H ?events aid")
    case (Inr x)
    have x: "record_of H aid (ms_events st1) x"
      by (rule record_of_mono[OF replay_approval_record[OF Inr] sub])
    then have "gives_record H aid st (Inr x) ?\<sigma>" using st1 by (simp add: gives_record_def)
    moreover have "after (expire_approval H W x) ?\<sigma> (gives_record H aid st)"
      using expire_loop_spec[of st ?\<sigma> max_conflict_retries x] st1 record_of_id[OF x] by (simp add: expire_approval_def)
    ultimately show ?thesis using Inr st1 by (simp add: gives_failed split: sum.splits)
  qed (use st1 in \<open>simp add: gives_failed\<close>)
qed

lemma after_checked_transition:
  assumes l: "loaded (ar_session_id x) (ar_operation_id x) events (snd \<sigma>)" and e: "\<And>e. Q (Inl e) \<sigma>"
    and g: "\<And>r st. evolves H (snd \<sigma>) st \<Longrightarrow> (isOk r \<Longrightarrow> stored_in_time H W (ar_session_id x) (ar_operation_id x) specs (Some deadline) (snd \<sigma>) st) \<Longrightarrow>
      after (g r) (Suc (fst \<sigma>), st) Q"
  shows "after (bindS (validate_specs H W events specs) (\<lambda>_. bindS (await_transition H W tr deadline x events specs) g)) \<sigma> Q"
proof (cases "tr_fenced_claim tr")
  case None
  with after_checked_batch[OF l e g] show ?thesis by (simp add: await_transition_def)
next
  case (Some lease)
  show ?thesis
    by (rule after_checked[where P = "stored_in_time H W (ar_session_id x) (ar_operation_id x) specs (Some deadline) (snd \<sigma>)"])
      (auto simp: await_transition_def Some intro: after_append_fenced[OF l] e g)
qed

lemma transition_loop_spec:
  "evolves H st (snd \<sigma>) \<Longrightarrow> after (transition_loop H W n tr record) \<sigma> (decided H W tr record st)"
proof (induction n arbitrary: \<sigma>)
  case 0
  then show ?case by (simp add: decided_failed)
next
  case (Suc n)
  show ?case unfolding transition_loop.simps Let_def
  proof (rule after_load_record, goal_cases)
    case (2 st1 x)
    have st: "evolves H st st1" using Suc.prems 2(1) by (rule evolves_trans)
    show ?case
    proof (intro after_if after_checked_transition)
      fix r :: "(store_fault, operation_event list) result" and st2
      assume e2: "evolves H (snd (Suc (fst \<sigma>), st1)) st2"
        and s2: "isOk r \<Longrightarrow> stored_in_time H W (ar_session_id x) (ar_operation_id x) [(tr_event_type tr, tr_data tr)]
          (Some (ar_expires_at record)) (snd (Suc (fst \<sigma>), st1)) st2"
      let ?\<sigma> = "(Suc (fst (Suc (fst \<sigma>), st1)), st2)"
      have st2: "evolves H st (snd ?\<sigma>)" using st e2 by (auto intro: evolves_trans)
      have ready: "after (bindS (await_load W (Some (ar_session_id x)) (Some (ar_operation_id x))) (\<lambda>events.
          liftS (replay_approval H events (ar_approval_id x)))) ?\<sigma> (decided H W tr record st)" if "isOk r"
      proof (rule after_mono[OF reload_record[of st2]])
        fix r' and \<sigma>' :: call_state assume "gives_record H (ar_approval_id x) st2 r' \<sigma>'"
        then have e3: "evolves H st2 (snd \<sigma>')" by (simp add: gives_record_def)
        from new_fact_evolves[OF new_fact_stored[OF s2[OF that]] e3] st 2(6,7)
        have "new_fact st (snd \<sigma>') (ar_session_id record) (ar_operation_id record) (tr_event_type tr, tr_data tr)" by simp
        moreover have "\<exists>k. wall_ms W k < ar_expires_at record" using s2[OF that] by (simp add: stored_in_time_def)
        ultimately show "decided H W tr record st r' \<sigma>'"
          using evolves_trans[OF _ e3, of st] st2 by (simp add: decided_def)
      qed simp
      have late: "after (bindS (expire_approval H W x) (\<lambda>_. liftS (Inl (Raised AcExpired)))) ?\<sigma> (decided H W tr record st)"
        unfolding after_bindS expire_approval_def
        by (rule after_mono[OF expire_loop_spec[OF st2]]) (auto simp: gives_record_def decided_failed split: sum.splits)
      show "after (case r of
          Inl (Raised f) \<Rightarrow> if f = SfDeadline then bindS (expire_approval H W x) (\<lambda>_. liftS (Inl (Raised AcExpired)))
            else if claim_lost_fault f then liftS (Inl (Raised AcClaimLost))
            else if conflict_fault f then transition_loop H W n tr record else liftS (Inl (Raised (AcStore f)))
        | Inl (Builtin b) \<Rightarrow> liftS (Inl (Builtin b))
        | Inr _ \<Rightarrow> bindS (await_load W (Some (ar_session_id x)) (Some (ar_operation_id x))) (\<lambda>events.
            liftS (replay_approval H events (ar_approval_id x)))) ?\<sigma> (decided H W tr record st)"
        using Suc.IH[OF st2] ready late st2
        by (auto simp del: after_bindS intro: decided_failed split: sum.splits exc.splits)
    qed (use 2(2,6,7) st in \<open>auto simp: decided_failed\<close>)
  qed (use Suc.prems in \<open>auto intro!: decided_failed intro: evolves_trans\<close>)
qed

lemma request_loop_spec:
  "evolves H st (snd \<sigma>) \<Longrightarrow> after (request_loop H S W n sid op aid data) \<sigma> (gives_record H aid st)"
proof (induction n arbitrary: \<sigma>)
  case 0
  then show ?case by (simp add: gives_failed)
next
  case (Suc n)
  show ?case unfolding request_loop.simps Let_def
  proof (subst after_bindS, rule after_load, unfold sum.case)
    fix st1 assume "evolves H (snd \<sigma>) st1"
    with Suc.prems have st: "evolves H st st1" by (rule evolves_trans)
    let ?ev = "memory_load (Some sid) (Some op) st1" and ?specs = "[(''approval_requested'', data)]"
    show "after (if ?ev = [] then liftS (Inl (Raised AcOperationNotFound)) else
        bindS (validate_specs H W ?ev ?specs) (\<lambda>_. bindS (await_append_batch H W sid op ?specs (operation_last_sequence ?ev) None) (\<lambda>r.
        case r of Inl (Raised f) \<Rightarrow> if conflict_fault f then request_loop H S W n sid op aid data else liftS (Inl (Raised (AcStore f)))
        | Inl (Builtin b) \<Rightarrow> liftS (Inl (Builtin b)) | Inr _ \<Rightarrow> get_approval H S W aid))) (Suc (fst \<sigma>), st1) (gives_record H aid st)"
    proof (intro after_if after_checked_batch)
      fix r :: "(store_fault, operation_event list) result" and st2 assume e2: "evolves H (snd (Suc (fst \<sigma>), st1)) st2"
      let ?\<sigma> = "(Suc (fst (Suc (fst \<sigma>), st1)), st2)"
      have st2: "evolves H st (snd ?\<sigma>)" using st e2 by (auto intro: evolves_trans)
      show "after (case r of Inl (Raised f) \<Rightarrow> if conflict_fault f then request_loop H S W n sid op aid data else liftS (Inl (Raised (AcStore f)))
        | Inl (Builtin b) \<Rightarrow> liftS (Inl (Builtin b)) | Inr _ \<Rightarrow> get_approval H S W aid) ?\<sigma> (gives_record H aid st)"
        using Suc.IH[OF st2] get_approval_spec[OF st2] st2
        by (auto simp del: after_bindS intro: gives_failed split: sum.splits exc.splits)
    qed (use st in \<open>auto simp: gives_failed\<close>)
  qed
qed

lemma get_then:
  assumes "evolves H st (snd \<sigma>)" "\<And>e \<sigma>'. evolves H st (snd \<sigma>') \<Longrightarrow> Q (Inl e) \<sigma>'"
    and "\<And>x \<sigma>'. evolves H st (snd \<sigma>') \<Longrightarrow> record_of H aid (ms_events (snd \<sigma>')) x \<Longrightarrow> after (f x) \<sigma>' Q"
  shows "after (bindS (get_approval H S W aid) f) \<sigma> Q"
  unfolding after_bindS
  by (rule after_mono[OF get_approval_spec[OF assms(1)]]) (auto simp: gives_record_def assms(2,3) split: sum.splits)

text \<open>A trusted identity reads the record, passes the checks of the operation and stores its decision.\<close>

lemma decision_spec:
  assumes "evolves H st (snd \<sigma>)"
    and "\<And>i x. f i x = append_transition H W (tr i) x \<and> allowed i x \<or> (\<exists>e. f i x = liftS (Inl e))"
  shows "after (bindS (liftS (assert_trusted_identity S arg)) (\<lambda>i. bindS (get_approval H S W aid) (f i))) \<sigma>
    (authorised H S W aid arg allowed tr st)" (is "after _ _ ?Q")
proof (cases "assert_trusted_identity S arg")
  case (Inr i)
  then have arg: "arg = ExactIdentity i" "sv_validator S i = Some True"
    by (auto simp: assert_trusted_identity_def split: identity_arg.splits if_splits)
  have "after (bindS (get_approval H S W aid) (f i)) \<sigma> ?Q"
  proof (rule get_then[OF assms(1)])
    fix x and \<sigma>1 :: call_state assume e1: "evolves H st (snd \<sigma>1)" and x: "record_of H aid (ms_events (snd \<sigma>1)) x"
    show "after (f i x) \<sigma>1 ?Q"
    proof (cases "f i x = append_transition H W (tr i) x \<and> allowed i x")
      case True
      have tr: "after (append_transition H W (tr i) x) \<sigma>1 (decided H W (tr i) x st')" if "evolves H st' (snd \<sigma>1)" for st'
        unfolding append_transition_def using that by (rule transition_loop_spec)
      have "after (append_transition H W (tr i) x) \<sigma>1 (\<lambda>r \<sigma>'. decided H W (tr i) x st r \<sigma>' \<and> evolves H (snd \<sigma>1) (snd \<sigma>'))"
        using tr[OF e1] tr[OF evolves_refl] by (auto simp: after_def decided_def split: prod.splits)
      then show ?thesis unfolding conjunct1[OF True]
      proof (rule after_mono)
        fix r and \<sigma>' :: call_state assume d: "decided H W (tr i) x st r \<sigma>' \<and> evolves H (snd \<sigma>1) (snd \<sigma>')"
        then have "record_of H aid (ms_events (snd \<sigma>')) x"
          using record_of_mono[OF x] evolves_member by blast
        with d True arg show "?Q r \<sigma>'" by (auto simp: decided_def authorised_def)
      qed
    next
      case False
      with assms(2)[of i x] e1 show ?thesis by (auto simp: authorised_def)
    qed
  qed (simp add: authorised_def)
  with Inr show ?thesis by simp
qed (use assms(1) in \<open>simp add: authorised_def\<close>)

end

section \<open>Calls of the service\<close>

definition grant_transition :: "string \<Rightarrow> claim_lease option \<Rightarrow> rat \<Rightarrow> verified_identity \<Rightarrow> approval_transition" where
  "grant_transition aid fenced renew i = \<lparr>tr_event_type = ''approval_granted'', tr_data = [(''approvalId'', JStr aid),
     (''approverId'', JStr (vi_principal_id i)), (''approverVerificationId'', JStr (vi_verification_id i))],
     tr_required_state = ArWaiting, tr_invalid_code = AcNotWaiting, tr_fenced_claim = fenced, tr_renew_seconds = renew\<rparr>"

definition reject_transition :: "string \<Rightarrow> string \<Rightarrow> claim_lease option \<Rightarrow> rat \<Rightarrow> verified_identity \<Rightarrow> approval_transition" where
  "reject_transition aid reason fenced renew i = \<lparr>tr_event_type = ''approval_rejected'', tr_data = [(''approvalId'', JStr aid),
     (''approverId'', JStr (vi_principal_id i)), (''approverVerificationId'', JStr (vi_verification_id i)), (''reason'', JStr reason)],
     tr_required_state = ArWaiting, tr_invalid_code = AcNotWaiting, tr_fenced_claim = fenced, tr_renew_seconds = renew\<rparr>"

definition consume_transition :: "string \<Rightarrow> claim_lease option \<Rightarrow> rat \<Rightarrow> verified_identity \<Rightarrow> approval_transition" where
  "consume_transition aid fenced renew i = \<lparr>tr_event_type = ''approval_consumed'', tr_data = [(''approvalId'', JStr aid),
     (''consumerId'', JStr (vi_principal_id i)), (''consumerVerificationId'', JStr (vi_verification_id i))],
     tr_required_state = ArApproved, tr_invalid_code = AcNotApproved, tr_fenced_claim = fenced, tr_renew_seconds = renew\<rparr>"

context durable_client
begin

lemma grant_spec:
  "evolves H st (snd \<sigma>) \<Longrightarrow> after (grant_approval H S W aid arg allow_self fenced renew) \<sigma>
     (authorised H S W aid arg (\<lambda>i x. ar_required_role x \<in> vi_roles i \<and> (allow_self \<or> ar_requester_id x \<noteq> vi_principal_id i))
       (grant_transition aid fenced renew) st)"
  unfolding grant_approval_def grant_transition_def[symmetric] by (rule decision_spec) auto

lemma reject_spec:
  "evolves H st (snd \<sigma>) \<Longrightarrow> after (reject_approval H S W aid arg reason fenced renew) \<sigma>
     (authorised H S W aid arg (\<lambda>i x. ar_required_role x \<in> vi_roles i) (reject_transition aid reason fenced renew) st)"
  unfolding reject_approval_def reject_transition_def[symmetric] by (rule decision_spec) auto

lemma consume_spec:
  "evolves H st (snd \<sigma>) \<Longrightarrow> after (consume_approval H S W aid action arg fenced renew) \<sigma>
     (authorised H S W aid arg (\<lambda>i x. ar_action_hash x = action_digest H action) (consume_transition aid fenced renew) st)"
  unfolding consume_approval_def consume_transition_def[symmetric] by (rule decision_spec) auto

lemma request_spec:
  assumes "evolves H st (snd \<sigma>)"
  shows "after (request_approval H S W uuid sid op arg action summary role ttl) \<sigma> (\<lambda>r \<sigma>'. evolves H st (snd \<sigma>'))"
proof -
  have "after (request_loop H S W n sid op aid data) \<sigma> (\<lambda>r \<sigma>'. evolves H st (snd \<sigma>'))" for n aid data
    by (rule after_mono[OF request_loop_spec[OF assms]]) (simp add: gives_record_def)
  moreover have "after (\<lambda>\<sigma>. (g \<sigma>, \<sigma>)) \<sigma> Q \<longleftrightarrow> Q (g \<sigma>) \<sigma>" for g :: "call_state \<Rightarrow> (approval_code, string \<times> jdict) result" and Q
    by (simp add: after_def)
  ultimately show ?thesis using assms
    by (auto simp: request_approval_def split: sum.splits)
qed

end

text \<open>One call of the service with its arguments, and what running it does.\<close>

datatype approval_call =
    CallRequest string string string identity_arg jdict string string rat
  | CallGrant string identity_arg bool "claim_lease option" rat
  | CallReject string identity_arg string "claim_lease option" rat
  | CallConsume string jdict identity_arg "claim_lease option" rat
  | CallGet string

fun run_approval_call :: "host \<Rightarrow> approval_service \<Rightarrow> scheduler \<Rightarrow> approval_call \<Rightarrow> (approval_code, approval_record) service" where
  "run_approval_call H S W (CallRequest uuid sid op arg action summary role ttl) = request_approval H S W uuid sid op arg action summary role ttl"
| "run_approval_call H S W (CallGrant aid arg allow_self fenced renew) = grant_approval H S W aid arg allow_self fenced renew"
| "run_approval_call H S W (CallReject aid arg reason fenced renew) = reject_approval H S W aid arg reason fenced renew"
| "run_approval_call H S W (CallConsume aid action arg fenced renew) = consume_approval H S W aid action arg fenced renew"
| "run_approval_call H S W (CallGet aid) = get_approval H S W aid"

context durable_client
begin

lemma authorised_evolves: "after m \<sigma> (authorised H S W aid arg allowed tr st) \<Longrightarrow> after m \<sigma> (\<lambda>r \<sigma>'. evolves H st (snd \<sigma>'))"
  by (erule after_mono) (simp add: authorised_def)

lemma gives_evolves: "after m \<sigma> (gives_record H aid st) \<Longrightarrow> after m \<sigma> (\<lambda>r \<sigma>'. evolves H st (snd \<sigma>'))"
  by (erule after_mono) (simp add: gives_record_def)

lemma call_evolves: "after (run_approval_call H S W c) \<sigma> (\<lambda>r \<sigma>'. evolves H (snd \<sigma>) (snd \<sigma>'))"
proof (cases c)
  case (CallRequest uuid sid op arg action summary role ttl)
  then show ?thesis by (simp add: request_spec)
next
  case (CallGrant aid arg allow_self fenced renew)
  then show ?thesis by (simp add: authorised_evolves[OF grant_spec])
next
  case (CallReject aid arg reason fenced renew)
  then show ?thesis by (simp add: authorised_evolves[OF reject_spec])
next
  case (CallConsume aid action arg fenced renew)
  then show ?thesis by (simp add: authorised_evolves[OF consume_spec])
next
  case (CallGet aid)
  then show ?thesis by (simp add: gives_evolves[OF get_approval_spec])
qed

end

text \<open>A worker alone, and a worker between whose awaits other workers call the same service.\<close>

definition alone :: "scheduler \<Rightarrow> scheduler" where
  "alone W = W\<lparr>sc_env := \<lambda>k st. st\<rparr>"

definition among :: "host \<Rightarrow> approval_service \<Rightarrow> approval_call list \<Rightarrow> scheduler \<Rightarrow> scheduler" where
  "among H S calls W = W\<lparr>sc_env := \<lambda>k st. if k < length calls
     then snd (snd (run_approval_call H S (alone W) (calls ! k) (0, st))) else st\<rparr>"

interpretation lone_worker: durable_client H "alone W" for H W
  by unfold_locales (simp add: alone_def)

interpretation rival_workers: durable_client H "among H S calls W" for H S calls W
proof unfold_locales
  fix st k
  obtain r \<sigma>' where "run_approval_call H S (alone W) (calls ! k) (0, st) = (r, \<sigma>')" by (rule prod.exhaust)
  from afterD[OF lone_worker.call_evolves this] this show "evolves H st (sc_env (among H S calls W) k st)"
    by (simp add: among_def)
qed

end
