(* ===== verification/Approval_Agreement.thy ===== *)
theory Approval_Agreement
  imports Approval_Guarantees
begin

text \<open>
  The package folds the approval events of a log twice: the reducer of operations keeps snapshots of approvals, and
  \<open>_replay_approval\<close> of the approval service computes its own record. This theory shows that the two agree, and what
  becomes of a granted approval that nobody consumes in time.
\<close>

section \<open>Two replays of one log\<close>

fun states_agree :: "approval_record_state \<Rightarrow> approval_state \<Rightarrow> bool" where
  "states_agree ArWaiting s = (s \<in> {ApWaiting, ApResumeCancelled})"
| "states_agree ArApproved s = (s = ApApproved)"
| "states_agree ArRejected s = (s \<in> {ApRejected, ApResumeCancelled})"
| "states_agree ArExpired s = (s \<in> {ApExpired, ApResumeCancelled})"
| "states_agree ArConsumed s = (s \<in> {ApConsumed, ApResumeStarted, ApResumeCompleted, ApResumeFailed})"

definition snapshot_agrees :: "approval_record \<Rightarrow> approval_snapshot \<Rightarrow> bool" where
  "snapshot_agrees x a \<longleftrightarrow> states_agree (ar_state x) (ap_state a) \<and> ap_action_hash a = ar_action_hash x \<and>
     ap_requester_id a = ar_requester_id x \<and> ap_required_role a = ar_required_role x"

definition replays_agree :: "approval_record option \<Rightarrow> approval_snapshot option \<Rightarrow> bool" where
  "replays_agree ro ao \<longleftrightarrow> (case (ro, ao) of (None, None) \<Rightarrow> True | (Some x, Some a) \<Rightarrow> snapshot_agrees x a | _ \<Rightarrow> False)"

lemma states_agree_simps [simp]:
  "states_agree x ApWaiting \<longleftrightarrow> x = ArWaiting" "states_agree x ApApproved \<longleftrightarrow> x = ArApproved"
  "states_agree x ApRejected \<longleftrightarrow> x = ArRejected" "states_agree x ApExpired \<longleftrightarrow> x = ArExpired"
  "states_agree x ApConsumed \<longleftrightarrow> x = ArConsumed" "states_agree x ApResumeStarted \<longleftrightarrow> x = ArConsumed"
  "states_agree x ApResumeCompleted \<longleftrightarrow> x = ArConsumed" "states_agree x ApResumeFailed \<longleftrightarrow> x = ArConsumed"
  "states_agree x ApResumeCancelled \<longleftrightarrow> x \<in> {ArWaiting, ArRejected, ArExpired}"
  by (cases x; simp)+

lemma approval_dispatch: "startswith (ev_type e) ''approval_'' \<Longrightarrow> dispatch_event H s e = reduce_approval_event H s e"
  by (auto simp: dispatch_event_def Let_def startswith_def)

lemma other_dispatch:
  "\<not> startswith (ev_type e) ''approval_'' \<Longrightarrow> dispatch_event H s e = Inr s' \<Longrightarrow> os_approvals s' = os_approvals s"
  using dispatch_approvals[of H s e s'] unfolding dispatch_event_def Let_def
  by (elim if_Inr_condE) (auto dest: exchange_keeps_approvals tool_keeps_approvals reduce_write_keeps_approvals)

lemma approval_handler_fields:
  "on_approval_resume_registered H s aid c d = Inr s' \<Longrightarrow> \<exists>a ph. s' = set_approval s aid a ph \<and> ap_state a = ap_state c \<and>
     ap_action_hash a = ap_action_hash c \<and> ap_requester_id a = ap_requester_id c \<and> ap_required_role a = ap_required_role c"
  "on_approval_granted s aid c = Inr s' \<Longrightarrow> \<exists>ph. s' = set_approval s aid (c\<lparr>ap_state := ApApproved\<rparr>) ph \<and> ap_state c = ApWaiting"
  "on_approval_rejected s aid c = Inr s' \<Longrightarrow> \<exists>ph. s' = set_approval s aid (c\<lparr>ap_state := ApRejected, ap_resume_state := RsCancelled\<rparr>) ph \<and> ap_state c = ApWaiting"
  "on_approval_expired s aid c = Inr s' \<Longrightarrow> \<exists>ph. s' = set_approval s aid (c\<lparr>ap_state := ApExpired, ap_resume_state := RsCancelled\<rparr>) ph \<and> ap_state c = ApWaiting"
  "on_approval_consumed H s aid c d = Inr s' \<Longrightarrow> \<exists>ph u. s' = set_approval s aid (c\<lparr>ap_state := ApConsumed, ap_consumer_id := u\<rparr>) ph \<and> ap_state c = ApApproved"
  "on_approval_resume_started H s aid c d = Inr s' \<Longrightarrow> \<exists>ph t. s' = set_approval s aid (c\<lparr>ap_state := ApResumeStarted, ap_resume_state := RsStarted, ap_resume_fencing_token := t\<rparr>) ph \<and> ap_state c = ApConsumed"
  "on_approval_resume_reentered s aid c d = Inr s' \<Longrightarrow> \<exists>ph t. s' = set_approval s aid (c\<lparr>ap_resume_fencing_token := t\<rparr>) ph \<and> ap_state c = ApResumeStarted"
  "on_approval_resume_completed H s aid c d = Inr s' \<Longrightarrow> \<exists>ph. s' = set_approval s aid (c\<lparr>ap_state := ApResumeCompleted, ap_resume_state := RsCompleted\<rparr>) ph \<and> ap_state c = ApResumeStarted"
  "on_approval_resume_failed s aid c d = Inr s' \<Longrightarrow> \<exists>ph. s' = set_approval s aid (c\<lparr>ap_state := ApResumeFailed, ap_resume_state := RsFailed\<rparr>) ph \<and> ap_state c = ApResumeStarted"
  "on_approval_resume_cancelled s aid c = Inr s' \<Longrightarrow> \<exists>ph. s' = set_approval s aid (c\<lparr>ap_state := ApResumeCancelled, ap_resume_state := RsCancelled\<rparr>) ph \<and> ap_state c \<in> {ApWaiting, ApRejected, ApExpired}"
  unfolding on_approval_resume_registered_def approval_handlers bindE_eq_Inr case_none_raise_eq_Inr
  by (fastforce simp del: split_paired_Ex)+

lemma str_field_text: "jget d k = JStr v \<Longrightarrow> str_field H d k = v"
  by (auto simp: str_field_def jget_def jget_or_def split: option.splits)

text \<open>An event of another approval leaves both replays as they are.\<close>

lemma other_approval:
  assumes "reduce_approval_event H s e = Inr s'" "jget (ev_data e) ''approvalId'' \<noteq> JStr aid"
  shows "map_of (os_approvals s') aid = map_of (os_approvals s) aid"
proof (cases "ev_type e = ''approval_pending''")
  case True
  with assms show ?thesis by (auto simp: reduce_approval_event_def)
next
  case False
  with assms(1) obtain aid' where aid': "text_field (ev_data e) ''approvalId'' = Inr aid'"
    by (auto simp: reduce_approval_event_def Let_def bindE_eq_Inr)
  then have "aid' \<noteq> aid" using assms(2) by (auto simp: text_field_ok)
  show ?thesis
  proof (cases "ev_type e = ''approval_requested''")
    case True
    with assms(1) aid' have "on_approval_requested s aid' (ev_data e) = Inr s'" by (simp add: reduce_approval_event_def)
    from approval_handler_state(1)[OF this] \<open>aid' \<noteq> aid\<close> show ?thesis by auto
  next
    case requested: False
    show ?thesis
    proof (cases "map_of (os_approvals s) aid'")
      case None
      with assms aid' False requested show ?thesis by (simp add: reduce_approval_event_def)
    next
      case (Some c)
      with assms(1) aid' False requested \<open>aid' \<noteq> aid\<close> show ?thesis
        by (auto simp: reduce_approval_event_def Let_def split: if_splits dest!: approval_handler_state resume_handler_state)
    qed
  qed
qed

lemma replays_agree_request:
  assumes "reduce_approval_event H s e = Inr s'" "ev_type e = ''approval_requested''" "jget (ev_data e) ''approvalId'' = JStr aid"
    and "replay_approval_event H aid e ro = Inr ro'"
  shows "replays_agree ro' (map_of (os_approvals s') aid)"
proof -
  from assms(1-3) have "on_approval_requested s aid (ev_data e) = Inr s'"
    by (auto simp: reduce_approval_event_def Let_def text_field_ok exc_simps)
  with assms(2-4) show ?thesis
    by (auto simp: replay_approval_event_def on_approval_requested_def requested_record_def text_field_ok exc_simps
        replays_agree_def snapshot_agrees_def str_field_text)
qed

lemma replays_agree_change:
  assumes "reduce_approval_event H s e = Inr s'" "ev_type e \<noteq> ''approval_requested''" "jget (ev_data e) ''approvalId'' = JStr aid"
    and "replay_approval_event H aid e ro = Inr ro'" "replays_agree ro (map_of (os_approvals s) aid)"
  shows "replays_agree ro' (map_of (os_approvals s') aid)"
proof -
  from assms(2-4) obtain x x' where x: "ro = Some x" "ro' = Some x'" "change_record H e x = Inr x'"
    by (auto simp: replay_approval_event_def exc_simps split: option.splits)
  with assms(5) obtain c where c: "map_of (os_approvals s) aid = Some c" "snapshot_agrees x c"
    by (auto simp: replays_agree_def split: option.splits)
  show ?thesis
  proof (cases "ev_type e = ''approval_pending''")
    case True
    with assms(1) x c show ?thesis by (auto simp: reduce_approval_event_def change_record_def replays_agree_def)
  next
    case False
    with assms(1-3) c x show ?thesis
      by (auto simp: reduce_approval_event_def text_field_ok Let_def exc_simps change_record_def move_record_ok
          replays_agree_def snapshot_agrees_def split: if_splits dest!: approval_handler_fields)
  qed
qed

lemma replays_agree_step:
  assumes "dispatch_event H s e = Inr s'" "replay_approval_event H aid e ro = Inr ro'" "replays_agree ro (map_of (os_approvals s) aid)"
  shows "replays_agree ro' (map_of (os_approvals s') aid)"
proof (cases "jget (ev_data e) ''approvalId'' = JStr aid")
  case mine: True
  show ?thesis
  proof (cases "startswith (ev_type e) ''approval_''")
    case True
    with assms mine show ?thesis
      by (cases "ev_type e = ''approval_requested''")
        (auto simp: approval_dispatch intro: replays_agree_request replays_agree_change)
  next
    case False
    then have "ev_type e \<notin> {''approval_requested'', ''approval_granted'', ''approval_rejected'', ''approval_expired'', ''approval_consumed''}"
      by (auto simp: startswith_def)
    with assms(2) mine have "ro' = ro"
      by (auto simp: replay_approval_event_def change_record_def split: option.splits)
    with assms other_dispatch[OF False assms(1)] show ?thesis by simp
  qed
next
  case False
  then have "ro' = ro" using assms(2) by (simp add: replay_approval_event_def)
  moreover have "map_of (os_approvals s') aid = map_of (os_approvals s) aid"
    using assms(1) False other_dispatch[of e H s s'] other_approval[of H s e s' aid]
    by (cases "startswith (ev_type e) ''approval_''") (auto simp: approval_dispatch)
  ultimately show ?thesis using assms(3) by simp
qed

text \<open>The service refuses no transition that the reducer accepts.\<close>

definition data_error :: "approval_code exc \<Rightarrow> bool" where
  "data_error f \<longleftrightarrow> f = Raised AcWithoutRequest \<or> (\<exists>b. f = Builtin b)"

lemma py_int_error: "py_int v = (Inl f :: ('f, int) result) \<Longrightarrow> \<exists>b. f = Builtin b"
  by (cases v rule: py_int.cases) (auto split: option.splits)

lemma replay_step_error:
  assumes "dispatch_event H s e = Inr s'" "replay_approval_event H aid e ro = Inl f" "replays_agree ro (map_of (os_approvals s) aid)"
  shows "data_error f"
proof (cases "ev_type e = ''approval_requested'' \<or> ro = None")
  case True
  then show ?thesis
  proof
    assume req: "ev_type e = ''approval_requested''"
    with assms have "jget (ev_data e) ''approvalId'' = JStr aid" by (auto simp: replay_approval_event_def split: if_splits)
    with req assms(1) have "map_of (os_approvals s) aid = None"
      by (auto simp: approval_dispatch startswith_def reduce_approval_event_def Let_def text_field_ok exc_simps on_approval_requested_def)
    with assms(3) have "ro = None" by (auto simp: replays_agree_def split: option.splits)
    with assms(2) req show ?thesis
      by (auto simp: replay_approval_event_def requested_record_def exc_simps data_error_def dest: py_int_error split: if_splits)
  qed (use assms(2) in \<open>auto simp: replay_approval_event_def requested_record_def exc_simps data_error_def
      dest: py_int_error split: if_splits\<close>)
next
  case False
  then obtain x where x: "ro = Some x" "jget (ev_data e) ''approvalId'' = JStr aid" "change_record H e x = Inl f"
    using assms(2) by (auto simp: replay_approval_event_def exc_simps split: if_splits option.splits)
  with assms(3) obtain c where c: "map_of (os_approvals s) aid = Some c" "snapshot_agrees x c"
    by (auto simp: replays_agree_def split: option.splits)
  from x(3) have ty: "ev_type e \<in> {''approval_granted'', ''approval_rejected'', ''approval_expired'', ''approval_consumed''}"
    by (auto simp: change_record_def split: if_splits)
  with assms(1) c x have "\<exists>x'. change_record H e x = Inr x'"
    by (auto simp: approval_dispatch startswith_def reduce_approval_event_def Let_def text_field_ok exc_simps change_record_def
        move_record_def snapshot_agrees_def dest!: approval_handler_fields)
  with x(3) show ?thesis by simp
qed

lemma replays_agree_fold:
  "foldE (reduce_opt H) es None = Inr (Some s) \<Longrightarrow>
     (case foldE (replay_approval_event H aid) es None of Inl f \<Rightarrow> data_error f
      | Inr ro \<Rightarrow> replays_agree ro (map_of (os_approvals s) aid))"
proof (induction rule: log_induct)
  case (first e s)
  then show ?case
    by (auto simp: on_operation_started_def exc_simps replay_approval_event_def replays_agree_def data_error_def split: sum.splits)
next
  case (further es s e s')
  then have d: "dispatch_event H (s\<lparr>os_last_sequence := ev_sequence e\<rparr>) e = Inr s'" by (simp add: reduce_some_ok)
  show ?case
  proof (cases "foldE (replay_approval_event H aid) es None")
    case (Inl f)
    with further.IH show ?thesis by (simp add: foldE_append)
  next
    case (Inr ro)
    with further.IH have "replays_agree ro (map_of (os_approvals (s\<lparr>os_last_sequence := ev_sequence e\<rparr>)) aid)" by simp
    with replays_agree_step[OF d _ this] replay_step_error[OF d _ this] Inr show ?thesis
      by (auto simp: foldE_append bindE_def split: sum.splits)
  qed
qed

text \<open>
  The record the approval service computes from a log agrees with the reducer. On the log of an operation that replays, in the
  order of its sequence numbers, the service finds the approval exactly when the reducer has it, with the same state, action hash,
  requester and role, and it refuses none of its transitions; it can only fail on a stray event that
  names the approval before its request, or on data that is no number.
\<close>

theorem approval_replays_agree:
  assumes "replay_operation H es = Inr s" and "sorted (map ev_sequence es)"
  shows "case replay_approval H es aid of
      Inr x \<Rightarrow> (\<exists>a. map_of (os_approvals s) aid = Some a \<and> snapshot_agrees x a)
    | Inl (Raised f) \<Rightarrow> f = AcNotFound \<and> map_of (os_approvals s) aid = None \<or> f = AcWithoutRequest
    | Inl (Builtin b) \<Rightarrow> True"
proof -
  have "foldE (reduce_opt H) es None = Inr (Some s)"
    using assms by (simp add: replay_fold sort_key_id_if_sorted)
  from replays_agree_fold[OF this, of aid] show ?thesis
    by (auto simp: replay_approval_def data_error_def replays_agree_def bindE_def split: sum.splits option.splits exc.splits)
qed

theorem approval_replays_agree_witness:
  "\<exists>s x a. replay_operation log_host (ms_events consumed_store) = Inr s \<and> replay_approval log_host (ms_events consumed_store) ''a'' = Inr x \<and>
     map_of (os_approvals s) ''a'' = Some a \<and> ap_state a = ApConsumed \<and> ar_state x = ArConsumed"
proof -
  have "isOk (replay_operation log_host (ms_events consumed_store))" "sorted (map ev_sequence (ms_events consumed_store))"
    using demo_stores(3) by (simp_all add: one_log_def sorted_map sorted_wrt_upt)
  with demo_steps(5) obtain s x where s: "replay_operation log_host (ms_events consumed_store) = Inr s" "sorted (map ev_sequence (ms_events consumed_store))"
    "replay_approval log_host (ms_events consumed_store) ''a'' = Inr x" by (auto simp: isOk_iff)
  from approval_replays_agree[OF s(1,2), of "''a''"] obtain a where a: "map_of (os_approvals s) ''a'' = Some a" "snapshot_agrees x a"
    by (auto simp: s(3))
  have "ap_state a = ApConsumed" using demo_steps(4) s(1) a(1) by (simp add: approval_of_def)
  with a s show ?thesis by (auto simp: snapshot_agrees_def)
qed

section \<open>A granted approval that is not consumed in time\<close>

lemma approved_move:
  assumes "approval_move H s aid (Some c) a" "ap_state c = ApApproved"
  shows "ap_state a = ApApproved \<or> ap_state a = ApConsumed"
  using assms by (cases rule: approval_move.cases) auto

lemma approved_stays:
  assumes "reduce_operation_event H (Some s) e = Inr s'" "map_of (os_approvals s) aid = Some c" "ap_state c = ApApproved" "\<not> consumes aid e"
  shows "\<exists>a. map_of (os_approvals s') aid = Some a \<and> ap_state a = ApApproved"
proof -
  let ?s = "s\<lparr>os_last_sequence := ev_sequence e\<rparr>"
  from reduce_move[OF assms(1)] consider "os_approvals s' = os_approvals s"
    | aid' a ph where "s' = set_approval ?s aid' a ph" "approval_move H ?s aid' (map_of (os_approvals s) aid') a"
    by (cases rule: log_move.cases) auto
  then show ?thesis
  proof cases
    case 1
    with assms show ?thesis by simp
  next
    case (2 aid' a ph)
    show ?thesis
    proof (cases "aid' = aid")
      case True
      with 2 assms(2,3) have "ap_state a = ApApproved \<or> ap_state a = ApConsumed" by (auto dest: approved_move)
      moreover have "ap_state a \<noteq> ApConsumed"
      proof
        assume cons: "ap_state a = ApConsumed"
        have m: "map_of (os_approvals s') aid = Some a" using 2 True by simp
        from assms(1) dispatch_approvals[of H ?s e s'] have "os_approvals s' = os_approvals s \<or> reduce_approval_event H ?s e = Inr s'"
          by (auto simp: reduce_some_ok)
        then show False
        proof
          assume "os_approvals s' = os_approvals s"
          with m cons assms(2,3) show False by simp
        next
          assume "reduce_approval_event H ?s e = Inr s'"
          then show False
          proof (cases rule: approval_event_cases)
            case frame
            with m cons assms(2,3) show False by simp
          next
            case (fresh aid2 a2)
            with m cons assms(2,3) show False by (cases "aid2 = aid") auto
          next
            case (step aid2 a2 c2)
            with m cons assms(2-4) show False by (cases "aid2 = aid") (auto simp: spent_def)
          qed
        qed
      qed
      ultimately show ?thesis using 2 True by simp
    next
      case False
      with 2 assms(2,3) show ?thesis by simp
    qed
  qed
qed


definition late_event :: operation_event where
  "late_event = \<lparr>ev_type = ''routing_started'', ev_session_id = ''s'', ev_operation_id = ''op'', ev_sequence = 3, ev_timestamp = 0, ev_data = []\<rparr>"

lemma late_checks:
  "let st = granted_store in
     isOk (bindE (replay_operation log_host (ms_events st)) (\<lambda>s. foldE (reduce_opt log_host) [late_event] (Some s))) \<and>
     list_all (\<lambda>q. ev_type q = ''approval_requested'' \<longrightarrow> jget (ev_data q) ''expiresAt'' = JInt 300000)
       (ms_events (snd (demo_run 1000000 demo_consume st)))"
  by code_simp


end
