(* ===== verification/Runtime_State.thy ===== *)
theory Runtime_State
  imports Json_Text
begin

text \<open>
  The runtime event stream of an agent (\<open>runtime/states.py\<close>, \<open>runtime/events.py\<close>, \<open>runtime/invariants.py\<close>,
  \<open>runtime/reducer.py\<close>): the state of a run and of its tool calls, the event with its dictionary form, the checks of a transition, and
  the reducer, one definition per group of events, dispatched in the order of the source.
\<close>

section \<open>States\<close>

datatype run_phase = RpIdle | RpRunning | RpRouting | RpRequestingModel | RpExecutingTools | RpRetrying | RpCompacting
  | RpWaitingApproval | RpOutcomeUnknown | RpCompleted | RpFailed | RpCancelled | RpSuspended

datatype tool_call_phase = TpQueued | TpExecuting | TpRetryBackoff | TpSucceeded | TpFailed | TpTimedOut | TpCancelled
  | TpOutcomeUnknown

definition terminal_run_phases :: "run_phase list" where
  "terminal_run_phases = [RpCompleted, RpFailed, RpCancelled, RpSuspended]"

definition terminal_tool_phases :: "tool_call_phase list" where
  "terminal_tool_phases = [TpSucceeded, TpFailed, TpTimedOut, TpCancelled, TpOutcomeUnknown]"

record tool_call_state =
  tc_tool_call_id :: string
  tc_tool_name :: string
  tc_phase :: tool_call_phase
  tc_retry_attempt :: int
  tc_error_code :: "string option"

definition tool_call_terminal :: "tool_call_state \<Rightarrow> bool" where
  "tool_call_terminal t \<longleftrightarrow> tc_phase t \<in> set terminal_tool_phases"

record run_state =
  rs_phase :: run_phase
  rs_run_id :: "string option"
  rs_sequence :: int
  rs_turn :: int
  rs_model_retry_attempt :: int
  rs_tools :: "(string, tool_call_state) dict"
  rs_failure_code :: "string option"
  rs_routing_status :: "string option"
  rs_last_event :: "string option"

definition new_run_state :: run_state where
  "new_run_state = \<lparr>rs_phase = RpIdle, rs_run_id = None, rs_sequence = -1, rs_turn = 0, rs_model_retry_attempt = 0,
     rs_tools = [], rs_failure_code = None, rs_routing_status = None, rs_last_event = None\<rparr>"

definition run_terminal :: "run_state \<Rightarrow> bool" where
  "run_terminal s \<longleftrightarrow> rs_phase s \<in> set terminal_run_phases"

definition active_tool_count :: "run_state \<Rightarrow> nat" where
  "active_tool_count s = length (filter (\<lambda>t. \<not> tool_call_terminal t) (dvalues (rs_tools s)))"

section \<open>Events\<close>

definition runtime_event_types :: "string list" where
  "runtime_event_types = [''run_started'', ''run_finished'', ''run_interrupted'', ''routing_started'', ''routing_finished'',
     ''turn_started'', ''turn_finished'', ''model_request_started'', ''model_response_finished'', ''model_retry_scheduled'',
     ''model_retry_attempt_started'', ''model_retry_finished'', ''context_compaction_started'', ''context_compaction_finished'',
     ''tool_started'', ''tool_dispatch_started'', ''tool_retry_scheduled'', ''tool_retry_attempt_started'', ''tool_retry_finished'',
     ''tool_finished'', ''approval_required'', ''approval_granted'', ''approval_rejected'', ''outcome_unknown'',
     ''reconciliation_started'', ''reconciliation_finished'', ''budget_exceeded'']"

record runtime_event =
  re_type :: string
  re_run_id :: string
  re_sequence :: int
  re_timestamp :: int
  re_data :: jdict

datatype runtime_fault =
    RtRunIdEmpty | RtSequenceNegative | RtTimestampNegative | RtNotObject | RtTypeInvalid | RtRunIdInvalid | RtSequenceInvalid
  | RtTimestampInvalid | RtDataInvalid
  | RtNonConsecutive | RtAlreadyActive | RtNoActiveRun | RtRunMismatch | RtAfterTerminal | RtUnknownTool | RtToolAfterTerminal
  | RtApprovalNotWaiting | RtDuplicateTool | RtEventData | RtUnfinishedTools | RtUnknownEvent
  | RtConflict | RtFencedUnsupported | RtRecordWithoutRun | RtTrackerUnsupported | RtTrackerLease

definition runtime_event_post_init :: "runtime_event \<Rightarrow> (runtime_fault, runtime_event) result" where
  "runtime_event_post_init e =
     bindE (guardE (re_run_id e \<noteq> []) (Raised RtRunIdEmpty)) (\<lambda>_.
     bindE (guardE (0 \<le> re_sequence e) (Raised RtSequenceNegative)) (\<lambda>_.
     bindE (guardE (0 \<le> re_timestamp e) (Raised RtTimestampNegative)) (\<lambda>_. Inr e)))"

definition runtime_event_to_dict :: "runtime_event \<Rightarrow> jdict" where
  "runtime_event_to_dict e = [(''type'', JStr (re_type e)), (''runId'', JStr (re_run_id e)), (''sequence'', JInt (re_sequence e)),
     (''timestamp'', JInt (re_timestamp e)), (''data'', JObj (re_data e))]"

definition runtime_event_from_dict :: "json \<Rightarrow> (runtime_fault, runtime_event) result" where
  "runtime_event_from_dict v = (case v of
     JObj d \<Rightarrow>
       bindE (case jget d ''type'' of JStr t \<Rightarrow> if t \<in> set runtime_event_types then Inr t else Inl (Raised RtTypeInvalid)
         | _ \<Rightarrow> Inl (Raised RtTypeInvalid)) (\<lambda>ty.
       bindE (case jget d ''runId'' of JStr r \<Rightarrow> Inr r | _ \<Rightarrow> Inl (Raised RtRunIdInvalid)) (\<lambda>run_id.
       bindE (case jget d ''sequence'' of JInt i \<Rightarrow> Inr i | _ \<Rightarrow> Inl (Raised RtSequenceInvalid)) (\<lambda>sq.
       bindE (case jget d ''timestamp'' of JInt i \<Rightarrow> Inr i | _ \<Rightarrow> Inl (Raised RtTimestampInvalid)) (\<lambda>ts.
       bindE (case jget_or d ''data'' (JObj []) of JObj x \<Rightarrow> Inr x | _ \<Rightarrow> Inl (Raised RtDataInvalid)) (\<lambda>dat.
       runtime_event_post_init \<lparr>re_type = ty, re_run_id = run_id, re_sequence = sq, re_timestamp = ts, re_data = dat\<rparr>)))))
   | _ \<Rightarrow> Inl (Raised RtNotObject))"

section \<open>Checks of a transition\<close>

definition tool_event_types :: "string list" where
  "tool_event_types = [''tool_dispatch_started'', ''tool_retry_scheduled'', ''tool_retry_attempt_started'', ''tool_retry_finished'',
     ''tool_finished'']"

definition check_tool_event :: "run_state \<Rightarrow> runtime_event \<Rightarrow> (runtime_fault, unit) result" where
  "check_tool_event s e = (if re_type e \<in> set tool_event_types then
     (case jget (re_data e) ''toolCallId'' of
        JStr tc \<Rightarrow> (case map_of (rs_tools s) tc of
            None \<Rightarrow> Inl (Raised RtUnknownTool)
          | Some t \<Rightarrow> guardE (\<not> tool_call_terminal t) (Raised RtToolAfterTerminal))
      | _ \<Rightarrow> Inl (Raised RtUnknownTool)) else Inr ())"

definition validate_runtime_transition :: "run_state \<Rightarrow> runtime_event \<Rightarrow> (runtime_fault, unit) result" where
  "validate_runtime_transition s e =
     bindE (guardE (re_sequence e = rs_sequence s + 1) (Raised RtNonConsecutive)) (\<lambda>_.
     if re_type e = ''run_started''
     then guardE (rs_phase s \<in> {RpIdle, RpCompleted, RpFailed, RpCancelled, RpSuspended}) (Raised RtAlreadyActive)
     else (case rs_run_id s of
         None \<Rightarrow> Inl (Raised RtNoActiveRun)
       | Some run_id \<Rightarrow>
           bindE (guardE (re_run_id e = run_id) (Raised RtRunMismatch)) (\<lambda>_.
           bindE (guardE (\<not> run_terminal s) (Raised RtAfterTerminal)) (\<lambda>_.
           bindE (check_tool_event s e) (\<lambda>_.
           guardE (re_type e \<in> {''approval_granted'', ''approval_rejected''} \<longrightarrow> rs_phase s = RpWaitingApproval)
             (Raised RtApprovalNotWaiting))))))"

section \<open>The reducer\<close>

definition event_text :: "jdict \<Rightarrow> string \<Rightarrow> (runtime_fault, string) result" where
  "event_text data k = (case jget data k of JStr s \<Rightarrow> if s = [] then Inl (Raised RtEventData) else Inr s | _ \<Rightarrow> Inl (Raised RtEventData))"

definition positive_int :: "json \<Rightarrow> (runtime_fault, int) result" where
  "positive_int v = (case as_int_ge 1 v of None \<Rightarrow> Inl (Raised RtEventData) | Some i \<Rightarrow> Inr i)"

type_synonym run_step = "(runtime_fault, run_state) result"

definition update_tool :: "run_state \<Rightarrow> jdict \<Rightarrow> tool_call_phase \<Rightarrow> int option \<Rightarrow> run_step" where
  "update_tool s data ph attempt =
     bindE (event_text data ''toolCallId'') (\<lambda>tc.
     case map_of (rs_tools s) tc of
       None \<Rightarrow> Inl (Builtin KeyErr)
     | Some t \<Rightarrow> Inr (s\<lparr>rs_phase := RpExecutingTools, rs_tools := dset (rs_tools s) tc
         (t\<lparr>tc_phase := ph, tc_retry_attempt := (case attempt of None \<Rightarrow> tc_retry_attempt t | Some k \<Rightarrow> k)\<rparr>)\<rparr>))"

definition response_failure :: "host \<Rightarrow> string option \<Rightarrow> jdict \<Rightarrow> string option" where
  "response_failure H old data = (let reason = jget data ''stopReason'' in
     if reason = JStr ''error'' then Some (py_str H (jget_or data ''errorCode'' (JStr ''model_error'')))
     else if reason = JStr ''aborted'' then Some ''cancelled''
     else if reason = JStr ''length'' then Some ''model_output_truncated''
     else old)"

definition on_model_event :: "host \<Rightarrow> run_state \<Rightarrow> string \<Rightarrow> jdict \<Rightarrow> run_step" where
  "on_model_event H base ty data =
     (if ty = ''model_request_started'' then Inr (base\<lparr>rs_phase := RpRequestingModel\<rparr>)
      else if ty = ''model_response_finished''
      then Inr (base\<lparr>rs_phase := RpRunning, rs_failure_code := response_failure H (rs_failure_code base) data\<rparr>)
      else if ty = ''model_retry_scheduled''
      then bindE (positive_int (jget data ''attempt'')) (\<lambda>k. Inr (base\<lparr>rs_phase := RpRetrying, rs_model_retry_attempt := k\<rparr>))
      else if ty = ''model_retry_attempt_started'' then Inr (base\<lparr>rs_phase := RpRequestingModel\<rparr>)
      else if jget data ''success'' = JBool False
      then Inr (base\<lparr>rs_phase := RpRunning,
             rs_failure_code := Some (py_str H (jget_or data ''finalError'' (JStr ''model_retry_failed'')))\<rparr>)
      else Inr (base\<lparr>rs_phase := RpRequestingModel\<rparr>))"

definition on_tool_started :: "run_state \<Rightarrow> run_state \<Rightarrow> jdict \<Rightarrow> run_step" where
  "on_tool_started s base data =
     bindE (event_text data ''toolCallId'') (\<lambda>tc.
     bindE (guardE (map_of (rs_tools s) tc = None) (Raised RtDuplicateTool)) (\<lambda>_.
     bindE (event_text data ''toolName'') (\<lambda>name.
     Inr (base\<lparr>rs_phase := RpExecutingTools, rs_tools := dset (rs_tools s) tc
       \<lparr>tc_tool_call_id = tc, tc_tool_name = name, tc_phase = TpQueued, tc_retry_attempt = 0, tc_error_code = None\<rparr>\<rparr>))))"

definition finished_phase :: "string option \<Rightarrow> tool_call_phase" where
  "finished_phase code = (case code of
     None \<Rightarrow> TpSucceeded
   | Some c \<Rightarrow> if c = ''tool_timeout'' then TpTimedOut else if c = ''tool_cancelled'' then TpCancelled
       else if c = ''outcome_unknown'' then TpOutcomeUnknown else TpFailed)"

definition on_tool_finished :: "host \<Rightarrow> run_state \<Rightarrow> run_state \<Rightarrow> jdict \<Rightarrow> run_step" where
  "on_tool_finished H s base data =
     bindE (event_text data ''toolCallId'') (\<lambda>tc.
     case map_of (rs_tools s) tc of
       None \<Rightarrow> Inl (Builtin KeyErr)
     | Some t \<Rightarrow>
         let code = (if jget data ''success'' = JBool True then None
             else Some (py_str H (jget_or data ''errorCode'' (JStr ''tool_error''))));
             tools = dset (rs_tools s) tc (t\<lparr>tc_phase := finished_phase code, tc_error_code := code\<rparr>)
         in Inr (base\<lparr>rs_phase := (if list_all tool_call_terminal (dvalues tools) then RpRunning else RpExecutingTools),
              rs_tools := tools\<rparr>))"

definition on_tool_event :: "host \<Rightarrow> run_state \<Rightarrow> run_state \<Rightarrow> string \<Rightarrow> jdict \<Rightarrow> run_step" where
  "on_tool_event H s base ty data =
     (if ty = ''tool_started'' then on_tool_started s base data
      else if ty = ''tool_dispatch_started''
      then bindE (positive_int (jget data ''attempt'')) (\<lambda>k. update_tool base data TpExecuting (Some (k - 1)))
      else if ty = ''tool_retry_scheduled''
      then bindE (positive_int (jget data ''attempt'')) (\<lambda>k. update_tool base data TpRetryBackoff (Some k))
      else if ty = ''tool_finished'' then on_tool_finished H s base data
      else update_tool base data TpExecuting None)"

definition on_run_finished :: "run_state \<Rightarrow> run_state \<Rightarrow> jdict \<Rightarrow> run_step" where
  "on_run_finished s base data =
     (let outcome = jget data ''outcome'';
          ph = (if outcome = JStr ''completed'' \<and> rs_failure_code base = None then RpCompleted
                else if outcome = JStr ''cancelled'' \<or> rs_failure_code base = Some ''cancelled'' then RpCancelled
                else RpFailed) in
      bindE (guardE (ph = RpCompleted \<longrightarrow> list_all tool_call_terminal (dvalues (rs_tools s))) (Raised RtUnfinishedTools)) (\<lambda>_.
      Inr (base\<lparr>rs_phase := ph\<rparr>)))"

definition on_outcome_event :: "run_state \<Rightarrow> string \<Rightarrow> jdict \<Rightarrow> run_step" where
  "on_outcome_event base ty data =
     (if ty = ''turn_finished'' then Inr (base\<lparr>rs_phase := RpRunning\<rparr>)
      else if ty = ''approval_required'' then Inr (base\<lparr>rs_phase := RpWaitingApproval\<rparr>)
      else if ty = ''approval_granted'' then Inr (base\<lparr>rs_phase := RpRunning\<rparr>)
      else if ty = ''approval_rejected'' then Inr (base\<lparr>rs_phase := RpRunning, rs_failure_code := Some ''approval_rejected''\<rparr>)
      else if ty = ''outcome_unknown'' then Inr (base\<lparr>rs_phase := RpOutcomeUnknown, rs_failure_code := Some ''outcome_unknown''\<rparr>)
      else if ty = ''reconciliation_started'' then Inr (base\<lparr>rs_phase := RpOutcomeUnknown\<rparr>)
      else if ty = ''reconciliation_finished''
      then Inr (base\<lparr>rs_phase := RpRunning,
             rs_failure_code := (if jget data ''success'' = JBool True then None else Some ''reconciliation_failed'')\<rparr>)
      else Inr (base\<lparr>rs_phase := RpRunning, rs_failure_code := Some ''budget_exceeded''\<rparr>))"

definition reduce_runtime_state :: "host \<Rightarrow> runtime_event \<Rightarrow> run_state \<Rightarrow> run_step" where
  "reduce_runtime_state H e s =
     bindE (validate_runtime_transition s e) (\<lambda>_.
     let ty = re_type e; data = re_data e; base = s\<lparr>rs_sequence := re_sequence e, rs_last_event := Some ty\<rparr> in
     if ty = ''run_started'' then Inr (new_run_state\<lparr>rs_phase := RpRunning, rs_run_id := Some (re_run_id e),
       rs_sequence := re_sequence e, rs_last_event := Some ty\<rparr>)
     else if ty = ''run_interrupted'' then Inr (base\<lparr>rs_phase := RpSuspended, rs_failure_code := Some ''process_interrupted''\<rparr>)
     else if ty = ''routing_started'' then Inr (base\<lparr>rs_phase := RpRouting, rs_routing_status := None\<rparr>)
     else if ty = ''routing_finished''
     then bindE (event_text data ''status'') (\<lambda>st. Inr (base\<lparr>rs_phase := RpRunning, rs_routing_status := Some st\<rparr>))
     else if ty = ''turn_started''
     then bindE (positive_int (jget data ''turn'')) (\<lambda>k. Inr (base\<lparr>rs_phase := RpRequestingModel, rs_turn := k, rs_model_retry_attempt := 0\<rparr>))
     else if ty \<in> {''model_request_started'', ''model_response_finished'', ''model_retry_scheduled'', ''model_retry_attempt_started'',
       ''model_retry_finished''} then on_model_event H base ty data
     else if ty = ''context_compaction_started'' then Inr (base\<lparr>rs_phase := RpCompacting\<rparr>)
     else if ty = ''context_compaction_finished'' then Inr (base\<lparr>rs_phase := RpRequestingModel\<rparr>)
     else if ty = ''tool_started'' \<or> ty \<in> set tool_event_types then on_tool_event H s base ty data
     else if ty \<in> {''turn_finished'', ''approval_required'', ''approval_granted'', ''approval_rejected'', ''outcome_unknown'',
       ''reconciliation_started'', ''reconciliation_finished'', ''budget_exceeded''} then on_outcome_event base ty data
     else if ty = ''run_finished'' then on_run_finished s base data
     else Inl (Raised RtUnknownEvent))"

definition replay_runtime_events :: "host \<Rightarrow> runtime_event list \<Rightarrow> run_step" where
  "replay_runtime_events H events = foldE (reduce_runtime_state H) (sort_key re_sequence events) new_run_state"

end
