(* ===== verification/Runtime_Tracker.thy ===== *)
theory Runtime_Tracker
  imports Runtime_State
begin

text \<open>
  The runtime stream in use: the in-memory store with its compare-and-set append (\<open>session/store.py\<close>), the tracker that turns agent
  events into runtime events and keeps the projected state (\<open>runtime/tracker.py\<close>), and the recovery of an interrupted run
  (\<open>session/recovery.py\<close>). A store is the list of its events; every call takes the store as it is when the
  call is made, since other trackers may use the same store. A fresh \<open>uuid4\<close> and the time stamp of a new event are arguments.
\<close>

section \<open>The in-memory store\<close>

definition last_runtime_sequence :: "runtime_event list \<Rightarrow> int" where
  "last_runtime_sequence es = (if es = [] then -1 else re_sequence (last es))"

definition runtime_append_cas :: "runtime_event \<Rightarrow> int \<Rightarrow> runtime_event list \<Rightarrow> (runtime_fault, unit) result \<times> runtime_event list" where
  "runtime_append_cas e expected es =
     (let current = last_runtime_sequence es in
      if current \<noteq> expected \<or> re_sequence e \<noteq> current + 1 then (Inl (Raised RtConflict), es) else (Inr (), es @ [e]))"

definition runtime_append :: "runtime_event \<Rightarrow> runtime_event list \<Rightarrow> (runtime_fault, unit) result \<times> runtime_event list" where
  "runtime_append e es = runtime_append_cas e (last_runtime_sequence es) es"

definition runtime_append_cas_if_fenced_claim ::
  "runtime_event \<Rightarrow> int \<Rightarrow> runtime_event list \<Rightarrow> (runtime_fault, unit) result \<times> runtime_event list" where
  "runtime_append_cas_if_fenced_claim e expected es = (Inl (Raised RtFencedUnsupported), es)"

section \<open>Conversion of agent events\<close>

definition model_identity_data :: "jdict \<Rightarrow> jdict \<Rightarrow> jdict" where
  "model_identity_data event fallback = fold (\<lambda>name d. case jget event name of
     JStr v \<Rightarrow> if v \<noteq> [] then dset d name (JStr v) else d | _ \<Rightarrow> d) [''requestId'', ''sessionId'', ''operationId''] fallback"

definition retry_keys :: "string list" where
  "retry_keys = [''retryId'', ''toolCallId'', ''toolName'', ''attempt'', ''maxAttempts'', ''delayMs'', ''errorCode'', ''statusCode'',
     ''success'', ''finalError'']"

text \<open>The comprehension runs over a Python set, whose order is not specified; the members keep the order of the event here.\<close>

definition retry_data :: "jdict \<Rightarrow> jdict" where
  "retry_data event = filter (\<lambda>p. fst p \<in> set retry_keys) event"

text \<open>\<open>a or b or {}\<close>, and \<open>details.get("code") if isinstance(details, dict) else None\<close>.\<close>

definition first_truthy :: "json \<Rightarrow> json \<Rightarrow> json" where
  "first_truthy a b = (if truthy a then a else if truthy b then b else JObj [])"

definition detail_code :: "json \<Rightarrow> json" where
  "detail_code details = (case details of JObj d \<Rightarrow> jget d ''code'' | _ \<Rightarrow> JNull)"

definition str_of :: "host \<Rightarrow> jdict \<Rightarrow> string \<Rightarrow> json" where
  "str_of H event k = JStr (py_str H (jget_or event k (JStr [])))"

definition message_of :: "jdict \<Rightarrow> (runtime_fault, jdict) result" where
  "message_of event = (case jget_or event ''message'' (JObj []) of JObj m \<Rightarrow> Inr m | _ \<Rightarrow> Inl (Builtin AttributeErr))"

type_synonym runtime_spec = "string \<times> jdict"

definition convert_message_end :: "jdict \<Rightarrow> jdict \<Rightarrow> (runtime_fault, runtime_spec list) result" where
  "convert_message_end identity event =
     bindE (message_of event) (\<lambda>m.
     if jget m ''role'' \<noteq> JStr ''assistant'' then Inr [] else
     let details = first_truthy (jget m ''providerError'') (jget m ''policyError'') in
     Inr [(''model_response_finished'', fold (\<lambda>(k, v) d. dset d k v) (model_identity_data event identity)
       [(''stopReason'', jget_or m ''stopReason'' (JStr ''stop'')), (''errorCode'', detail_code details)])])"

definition convert_tool_end :: "host \<Rightarrow> jdict \<Rightarrow> runtime_spec list" where
  "convert_tool_end H event =
     (let details = (case jget_or event ''result'' (JObj []) of JObj r \<Rightarrow> jget_or r ''details'' (JObj []) | _ \<Rightarrow> JObj []) in
      [(''tool_finished'', [(''toolCallId'', str_of H event ''toolCallId''), (''toolName'', str_of H event ''toolName''),
         (''success'', JBool (\<not> truthy (jget event ''isError''))), (''errorCode'', detail_code details)])])"

definition run_outcome :: "run_state \<Rightarrow> bool \<Rightarrow> json" where
  "run_outcome s cancelled = JStr (if cancelled \<or> rs_failure_code s = Some ''cancelled'' then ''cancelled''
     else if rs_failure_code s \<noteq> None then ''failed'' else ''completed'')"

definition retry_event_types :: "(string \<times> string) list" where
  "retry_event_types = [(''model_retry_scheduled'', ''model_retry_scheduled''), (''model_retry_attempt_start'', ''model_retry_attempt_started''),
     (''model_retry_finished'', ''model_retry_finished''), (''tool_retry_scheduled'', ''tool_retry_scheduled''),
     (''tool_retry_attempt_start'', ''tool_retry_attempt_started''), (''tool_retry_finished'', ''tool_retry_finished'')]"

definition convert_agent_event ::
  "host \<Rightarrow> run_state \<Rightarrow> jdict \<Rightarrow> jdict \<Rightarrow> bool \<Rightarrow> (runtime_fault, runtime_spec list) result" where
  "convert_agent_event H s identity event cancelled = (case jget event ''type'' of
     JStr ty \<Rightarrow>
       if ty = ''agent_start'' then Inr (if rs_run_id s \<noteq> None \<and> \<not> run_terminal s then [] else [(''run_started'', [])])
       else if ty = ''turn_start'' then Inr [(''turn_started'', [(''turn'', JInt (rs_turn s + 1))])]
       else if ty = ''model_request_start'' then Inr [(''model_request_started'', model_identity_data event [])]
       else if ty = ''message_start'' then bindE (message_of event) (\<lambda>m.
         Inr (if jget m ''role'' = JStr ''assistant'' \<and> map_of identity ''requestId'' = None then [(''model_request_started'', [])] else []))
       else if ty = ''message_end'' then convert_message_end identity event
       else if ty = ''tool_execution_start''
       then Inr [(''tool_started'', [(''toolCallId'', str_of H event ''toolCallId''), (''toolName'', str_of H event ''toolName'')])]
       else if ty = ''tool_execution_dispatch_start''
       then Inr [(''tool_dispatch_started'', [(''toolCallId'', str_of H event ''toolCallId''), (''toolName'', str_of H event ''toolName''),
              (''attempt'', jget event ''attempt'')])]
       else if ty = ''tool_execution_end'' then Inr (convert_tool_end H event)
       else if ty = ''turn_end'' then Inr [(''turn_finished'', [])]
       else if ty = ''budget_exceeded'' then Inr [(''budget_exceeded'', [(''budget'', jget event ''budget''), (''limit'', jget event ''limit'')])]
       else (case map_of retry_event_types ty of
           Some rty \<Rightarrow> Inr [(rty, retry_data event)]
         | None \<Rightarrow>
             if ty \<in> {''context_compaction_started'', ''context_compaction_finished''} then Inr [(ty, event)]
             else if ty = ''agent_end'' then Inr [(''run_finished'', [(''outcome'', run_outcome s cancelled)])]
             else Inr [])
   | _ \<Rightarrow> Inr [])"

section \<open>The tracker\<close>

record tracker =
  tk_state :: run_state
  tk_fenced_claim :: bool
  tk_model_identity :: jdict

text \<open>\<open>__init__\<close> on a store that does not support fenced appends, and \<open>create\<close>.\<close>

definition tracker_init :: "bool \<Rightarrow> rat \<Rightarrow> run_state \<Rightarrow> (runtime_fault, tracker) result" where
  "tracker_init fenced lease_seconds s =
     bindE (guardE (0 < lease_seconds) (Raised RtTrackerLease)) (\<lambda>_.
     bindE (guardE (\<not> fenced) (Raised RtTrackerUnsupported)) (\<lambda>_.
     Inr \<lparr>tk_state = s, tk_fenced_claim = fenced, tk_model_identity = []\<rparr>))"

definition tracker_create :: "host \<Rightarrow> bool \<Rightarrow> rat \<Rightarrow> runtime_event list \<Rightarrow> (runtime_fault, tracker) result" where
  "tracker_create H fenced lease_seconds es = bindE (replay_runtime_events H es) (tracker_init fenced lease_seconds)"

type_synonym tracker_result = "(runtime_fault, unit) result \<times> tracker \<times> runtime_event list"

definition tracker_append :: "host \<Rightarrow> string \<Rightarrow> int \<Rightarrow> runtime_spec \<Rightarrow> tracker \<Rightarrow> runtime_event list \<Rightarrow> tracker_result" where
  "tracker_append H uuid now spec tk es =
     (case bindE (if fst spec = ''run_started'' then Inr uuid
             else (case rs_run_id (tk_state tk) of None \<Rightarrow> Inl (Raised RtRecordWithoutRun) | Some r \<Rightarrow> Inr r)) (\<lambda>run_id.
           bindE (runtime_event_post_init \<lparr>re_type = fst spec, re_run_id = run_id, re_sequence = rs_sequence (tk_state tk) + 1,
             re_timestamp = now, re_data = snd spec\<rparr>) (\<lambda>e.
           bindE (reduce_runtime_state H e (tk_state tk)) (\<lambda>s. Inr (e, s)))) of
        Inl f \<Rightarrow> (Inl f, tk, es)
      | Inr (e, s) \<Rightarrow>
          (case (if tk_fenced_claim tk then runtime_append_cas_if_fenced_claim e (rs_sequence (tk_state tk)) es
                 else runtime_append_cas e (rs_sequence (tk_state tk)) es) of
             (Inl f, es') \<Rightarrow> (Inl f, tk, es')
           | (Inr _, es') \<Rightarrow> (Inr (), tk\<lparr>tk_state := s\<rparr>, es')))"

text \<open>The loop of the listener; \<open>uuid\<close> and \<open>now\<close> are per event.\<close>

fun tracker_append_all ::
  "host \<Rightarrow> (nat \<Rightarrow> string) \<Rightarrow> (nat \<Rightarrow> int) \<Rightarrow> runtime_spec list \<Rightarrow> tracker \<Rightarrow> runtime_event list \<Rightarrow> tracker_result" where
  "tracker_append_all H uuid now [] tk es = (Inr (), tk, es)"
| "tracker_append_all H uuid now (spec # specs) tk es =
     (case tracker_append H (uuid (length specs)) (now (length specs)) spec tk es of
        (Inl f, tk', es') \<Rightarrow> (Inl f, tk', es')
      | (Inr _, tk', es') \<Rightarrow> tracker_append_all H uuid now specs tk' es')"

definition observe_identity :: "jdict \<Rightarrow> tracker \<Rightarrow> tracker" where
  "observe_identity event tk =
     (if jget event ''type'' = JStr ''model_request_start'' then tk\<lparr>tk_model_identity := model_identity_data event []\<rparr>
      else if jget event ''type'' = JStr ''message_end'' \<and>
        (case jget event ''message'' of JObj m \<Rightarrow> jget m ''role'' = JStr ''assistant'' | _ \<Rightarrow> False)
      then tk\<lparr>tk_model_identity := []\<rparr> else tk)"

definition tracker_listener ::
  "host \<Rightarrow> (nat \<Rightarrow> string) \<Rightarrow> (nat \<Rightarrow> int) \<Rightarrow> jdict \<Rightarrow> bool \<Rightarrow> tracker \<Rightarrow> runtime_event list \<Rightarrow> tracker_result" where
  "tracker_listener H uuid now event cancelled tk es =
     (case convert_agent_event H (tk_state tk) (tk_model_identity tk) event cancelled of
        Inl f \<Rightarrow> (Inl f, tk, es)
      | Inr specs \<Rightarrow> (case tracker_append_all H uuid now specs tk es of
          (Inl f, tk', es') \<Rightarrow> (Inl f, tk', es')
        | (Inr _, tk', es') \<Rightarrow> (Inr (), observe_identity event tk', es')))"

definition tracker_start_run :: "host \<Rightarrow> string \<Rightarrow> int \<Rightarrow> tracker \<Rightarrow> runtime_event list \<Rightarrow> tracker_result" where
  "tracker_start_run H uuid now tk es = tracker_append H uuid now (''run_started'', []) tk es"

definition tracker_record_external :: "host \<Rightarrow> string \<Rightarrow> int \<Rightarrow> string \<Rightarrow> jdict option \<Rightarrow> tracker \<Rightarrow> runtime_event list \<Rightarrow> tracker_result" where
  "tracker_record_external H uuid now ty data tk es = tracker_append H uuid now (ty, case data of None \<Rightarrow> [] | Some d \<Rightarrow> d) tk es"

section \<open>Recovery\<close>

text \<open>
  \<open>RuntimeRecoveryManager.recover\<close> without a claim store, as a store without fenced appends requires:
  \<open>loaded\<close> is what the load returned, \<open>es\<close> the store when the append is made.
\<close>

definition recover_runtime :: "host \<Rightarrow> int \<Rightarrow> runtime_event list \<Rightarrow> runtime_event list \<Rightarrow> (runtime_fault, run_state) result \<times> runtime_event list" where
  "recover_runtime H now loaded es =
     (case replay_runtime_events H loaded of
        Inl f \<Rightarrow> (Inl f, es)
      | Inr s \<Rightarrow>
          if rs_run_id s = None \<or> rs_phase s \<in> {RpIdle, RpCompleted, RpFailed, RpCancelled, RpSuspended} then (Inr s, es)
          else (case bindE (runtime_event_post_init \<lparr>re_type = ''run_interrupted'', re_run_id = (case rs_run_id s of None \<Rightarrow> [] | Some r \<Rightarrow> r),
                  re_sequence = rs_sequence s + 1, re_timestamp = now, re_data = [(''reason'', JStr ''process_restart'')]\<rparr>) (\<lambda>e.
                bindE (replay_runtime_events H (loaded @ [e])) (\<lambda>s'. Inr (e, s'))) of
              Inl f \<Rightarrow> (Inl f, es)
            | Inr (e, s') \<Rightarrow> (case runtime_append_cas e (rs_sequence s) es of
                (Inl f, es') \<Rightarrow> (Inl f, es') | (Inr _, es') \<Rightarrow> (Inr s', es'))))"

end
