(* ===== verification/Runtime_Theorems.thy ===== *)
theory Runtime_Theorems
  imports Runtime_Tracker
begin

text \<open>
  What holds of every runtime stream: the invariant of a run and its tool calls, the agreement of a tracker's state with the
  stored stream among other trackers, and the recovery of an interrupted run. The last section shows which error code a failure
  without one gets.
\<close>

section \<open>The invariant of a run\<close>

definition tool_call_ok :: "string \<Rightarrow> tool_call_state \<Rightarrow> bool" where
  "tool_call_ok tc t \<longleftrightarrow> tc_tool_call_id t = tc \<and> tc_tool_name t \<noteq> [] \<and> 0 \<le> tc_retry_attempt t \<and>
     (if tool_call_terminal t then tc_phase t = finished_phase (tc_error_code t) else tc_error_code t = None)"

definition run_ok :: "run_state \<Rightarrow> bool" where
  "run_ok s \<longleftrightarrow> -1 \<le> rs_sequence s \<and> 0 \<le> rs_turn s \<and> 0 \<le> rs_model_retry_attempt s \<and>
     (rs_run_id s = None \<longleftrightarrow> s = new_run_state) \<and> (rs_phase s = RpIdle \<longleftrightarrow> s = new_run_state) \<and>
     wf_dict (rs_tools s) \<and> (\<forall>tc t. map_of (rs_tools s) tc = Some t \<longrightarrow> tool_call_ok tc t) \<and>
     (rs_phase s = RpCompleted \<longrightarrow> rs_failure_code s = None \<and> (\<forall>t \<in> set (dvalues (rs_tools s)). tool_call_terminal t)) \<and>
     (rs_phase s = RpSuspended \<longrightarrow> rs_failure_code s = Some ''process_interrupted'')"

lemma run_ok_new: "run_ok new_run_state"
  by (simp add: run_ok_def new_run_state_def)

lemma finished_phase_terminal: "finished_phase c \<in> set terminal_tool_phases"
  by (auto simp: finished_phase_def terminal_tool_phases_def split: option.splits)

text \<open>The shape of an accepted event: what it leaves of the state.\<close>

definition frame_ok :: "run_state \<Rightarrow> run_state \<Rightarrow> bool" where
  "frame_ok s s' \<longleftrightarrow> rs_run_id s' = rs_run_id s \<and> 0 \<le> rs_turn s' \<and> 0 \<le> rs_model_retry_attempt s' \<and> rs_phase s' \<noteq> RpIdle \<and>
     (rs_phase s' = RpCompleted \<longrightarrow> rs_failure_code s' = None \<and> (\<forall>t \<in> set (dvalues (rs_tools s')). tool_call_terminal t)) \<and>
     (rs_phase s' = RpSuspended \<longrightarrow> rs_failure_code s' = Some ''process_interrupted'') \<and>
     (rs_tools s' = rs_tools s \<or> (\<exists>tc t. rs_tools s' = dset (rs_tools s) tc t \<and> tool_call_ok tc t \<and>
        (\<forall>t0. map_of (rs_tools s) tc = Some t0 \<longrightarrow> \<not> tool_call_terminal t0)))"

definition based_on :: "run_state \<Rightarrow> runtime_event \<Rightarrow> run_state" where
  "based_on s e = s\<lparr>rs_sequence := re_sequence e, rs_last_event := Some (re_type e)\<rparr>"

lemma based_on_sel [simp]:
  "rs_run_id (based_on s e) = rs_run_id s" "rs_turn (based_on s e) = rs_turn s" "rs_tools (based_on s e) = rs_tools s"
  "rs_model_retry_attempt (based_on s e) = rs_model_retry_attempt s" "rs_phase (based_on s e) = rs_phase s"
  "rs_failure_code (based_on s e) = rs_failure_code s" "rs_sequence (based_on s e) = re_sequence e"
  by (simp_all add: based_on_def)

lemma positive_int_ok: "positive_int v = Inr k \<longleftrightarrow> v = JInt k \<and> 1 \<le> k"
  by (auto simp: positive_int_def split: option.splits)

lemma event_text_ok: "event_text d k = Inr t \<longleftrightarrow> jget d k = JStr t \<and> t \<noteq> []"
  by (auto simp: event_text_def split: json.splits)

definition step_ok :: "run_state \<Rightarrow> runtime_event \<Rightarrow> run_state \<Rightarrow> bool" where
  "step_ok s e s' \<longleftrightarrow> frame_ok s s' \<and> rs_sequence s' = re_sequence e"

lemma run_ok_counts: "run_ok s \<Longrightarrow> 0 \<le> rs_turn s \<and> 0 \<le> rs_model_retry_attempt s"
  by (simp add: run_ok_def)

lemma frame_quiet:
  "rs_run_id s' = rs_run_id s \<Longrightarrow> 0 \<le> rs_turn s' \<Longrightarrow> 0 \<le> rs_model_retry_attempt s' \<Longrightarrow> rs_tools s' = rs_tools s \<Longrightarrow>
     rs_phase s' \<notin> {RpIdle, RpCompleted, RpSuspended} \<Longrightarrow> rs_sequence s' = re_sequence e \<Longrightarrow> step_ok s e s'"
  by (simp add: frame_ok_def step_ok_def)

lemma frame_tool:
  "rs_run_id s' = rs_run_id s \<Longrightarrow> 0 \<le> rs_turn s' \<Longrightarrow> 0 \<le> rs_model_retry_attempt s' \<Longrightarrow> rs_tools s' = dset (rs_tools s) tc t \<Longrightarrow>
     tool_call_ok tc t \<Longrightarrow> (\<And>t0. map_of (rs_tools s) tc = Some t0 \<Longrightarrow> \<not> tool_call_terminal t0) \<Longrightarrow>
     rs_phase s' \<notin> {RpIdle, RpCompleted, RpSuspended} \<Longrightarrow> rs_sequence s' = re_sequence e \<Longrightarrow> step_ok s e s'"
  unfolding frame_ok_def step_ok_def by blast

lemma model_event_frame: "on_model_event H (based_on s e) ty d = Inr s' \<Longrightarrow> run_ok s \<Longrightarrow> step_ok s e s'"
  by (drule run_ok_counts) (auto simp: on_model_event_def exc_simps positive_int_ok intro!: frame_quiet split: if_splits)

lemma outcome_event_frame: "on_outcome_event (based_on s e) ty d = Inr s' \<Longrightarrow> run_ok s \<Longrightarrow> step_ok s e s'"
  by (drule run_ok_counts) (auto simp: on_outcome_event_def intro!: frame_quiet split: if_splits)

lemma run_finished_frame:
  assumes "on_run_finished s (based_on s e) d = Inr s'" "run_ok s"
  shows "step_ok s e s'"
  using assms(1) run_ok_counts[OF assms(2)]
  by (auto simp: on_run_finished_def Let_def exc_simps frame_ok_def step_ok_def list_all_iff split: if_splits)

lemma update_tool_frame:
  assumes "update_tool (based_on s e) d ph attempt = Inr s'" "run_ok s" "\<forall>k. attempt = Some k \<longrightarrow> 0 \<le> k"
    and "\<forall>tc t. jget d ''toolCallId'' = JStr tc \<longrightarrow> map_of (rs_tools s) tc = Some t \<longrightarrow> \<not> tool_call_terminal t"
    and "ph \<notin> set terminal_tool_phases"
  shows "step_ok s e s'"
proof -
  from assms(1) obtain tc t where t: "jget d ''toolCallId'' = JStr tc" "map_of (rs_tools s) tc = Some t"
    and s': "s' = (based_on s e)\<lparr>rs_phase := RpExecutingTools, rs_tools := dset (rs_tools s) tc
         (t\<lparr>tc_phase := ph, tc_retry_attempt := (case attempt of None \<Rightarrow> tc_retry_attempt t | Some k \<Rightarrow> k)\<rparr>)\<rparr>" (is "_ = _\<lparr>rs_phase := _, rs_tools := dset _ _ ?u\<rparr>")
    by (auto simp: update_tool_def exc_simps event_text_ok split: option.splits)
  have "tool_call_ok tc t" "\<not> tool_call_terminal t" using assms(2,4) t by (auto simp: run_ok_def)
  then have "tool_call_ok tc ?u"
    using assms(3,5) by (auto simp: tool_call_ok_def tool_call_terminal_def split: option.splits)
  then show ?thesis
    by (rule frame_tool[rotated 4]) (use s' t assms(4) run_ok_counts[OF assms(2)] in auto)
qed

lemma tool_finished_frame:
  assumes "on_tool_finished H s (based_on s e) d = Inr s'" "run_ok s"
    and "\<forall>tc t. jget d ''toolCallId'' = JStr tc \<longrightarrow> map_of (rs_tools s) tc = Some t \<longrightarrow> \<not> tool_call_terminal t"
  shows "step_ok s e s'"
proof -
  let ?code = "if jget d ''success'' = JBool True then None else Some (py_str H (jget_or d ''errorCode'' (JStr ''tool_error'')))"
  from assms(1) obtain tc t where t: "jget d ''toolCallId'' = JStr tc" "map_of (rs_tools s) tc = Some t"
    and s': "rs_tools s' = dset (rs_tools s) tc (t\<lparr>tc_phase := finished_phase ?code, tc_error_code := ?code\<rparr>)"
      "rs_phase s' \<in> {RpRunning, RpExecutingTools}" "rs_run_id s' = rs_run_id s" "rs_turn s' = rs_turn s"
      "rs_model_retry_attempt s' = rs_model_retry_attempt s" "rs_sequence s' = re_sequence e"
    by (auto simp: on_tool_finished_def exc_simps event_text_ok Let_def split: option.splits)
  have "tool_call_ok tc t" using assms(2) t by (simp add: run_ok_def)
  then have "tool_call_ok tc (t\<lparr>tc_phase := finished_phase ?code, tc_error_code := ?code\<rparr>)"
    by (simp add: tool_call_ok_def tool_call_terminal_def finished_phase_terminal del: if_split)
  then show ?thesis
    by (rule frame_tool[rotated 4]) (use s' t assms(3) run_ok_counts[OF assms(2)] in auto)
qed

lemma tool_started_frame:
  assumes "on_tool_started s (based_on s e) d = Inr s'" "run_ok s"
  shows "step_ok s e s'"
proof -
  from assms(1) obtain tc name where t: "map_of (rs_tools s) tc = None" "name \<noteq> []"
    and s': "s' = (based_on s e)\<lparr>rs_phase := RpExecutingTools, rs_tools := dset (rs_tools s) tc
       \<lparr>tc_tool_call_id = tc, tc_tool_name = name, tc_phase = TpQueued, tc_retry_attempt = 0, tc_error_code = None\<rparr>\<rparr>"
    by (auto simp: on_tool_started_def exc_simps event_text_ok)
  have "tool_call_ok tc \<lparr>tc_tool_call_id = tc, tc_tool_name = name, tc_phase = TpQueued, tc_retry_attempt = 0, tc_error_code = None\<rparr>"
    using t by (simp add: tool_call_ok_def tool_call_terminal_def terminal_tool_phases_def)
  then show ?thesis
    by (rule frame_tool[rotated 4]) (use s' t run_ok_counts[OF assms(2)] in auto)
qed

lemma check_tool_event_ok:
  "check_tool_event s e = Inr () \<Longrightarrow> re_type e \<in> set tool_event_types \<Longrightarrow>
     \<forall>tc t. jget (re_data e) ''toolCallId'' = JStr tc \<longrightarrow> map_of (rs_tools s) tc = Some t \<longrightarrow> \<not> tool_call_terminal t"
  by (auto simp: check_tool_event_def split: json.splits option.splits)

lemma tool_event_frame:
  assumes "on_tool_event H s (based_on s e) ty (re_data e) = Inr s'" "run_ok s" "check_tool_event s e = Inr ()" "ty = re_type e"
    and "re_type e = ''tool_started'' \<or> re_type e \<in> set tool_event_types"
  shows "step_ok s e s'"
proof (cases "re_type e = ''tool_started''")
  case True
  with assms(1,2,4) show ?thesis by (simp add: on_tool_event_def tool_started_frame)
next
  case False
  with assms(5) have "re_type e \<in> set tool_event_types" by simp
  note tool = check_tool_event_ok[OF assms(3) this]
  from assms(1,4) False show ?thesis
    by (auto simp: on_tool_event_def exc_simps positive_int_ok terminal_tool_phases_def
        intro: tool_finished_frame[OF _ assms(2) tool] update_tool_frame[OF _ assms(2) _ tool] split: if_splits)
qed

lemma interrupted_frame:
  "run_ok s \<Longrightarrow> step_ok s e ((based_on s e)\<lparr>rs_phase := RpSuspended, rs_failure_code := Some ''process_interrupted''\<rparr>)"
  by (drule run_ok_counts) (simp add: step_ok_def frame_ok_def)

lemma reduce_frame:
  assumes "reduce_runtime_state H e s = Inr s'" "run_ok s"
  obtains (start) "re_type e = ''run_started''" "rs_phase s \<in> {RpIdle, RpCompleted, RpFailed, RpCancelled, RpSuspended}"
      "re_sequence e = rs_sequence s + 1"
      "s' = new_run_state\<lparr>rs_phase := RpRunning, rs_run_id := Some (re_run_id e), rs_sequence := re_sequence e, rs_last_event := Some (re_type e)\<rparr>"
  | (frame) "re_type e \<noteq> ''run_started''" "rs_run_id s = Some (re_run_id e)" "\<not> run_terminal s" "re_sequence e = rs_sequence s + 1"
      "frame_ok s s'" "rs_sequence s' = re_sequence e"
proof (cases "re_type e = ''run_started''")
  case True
  with assms(1) start show thesis
    by (auto simp: reduce_runtime_state_def validate_runtime_transition_def Let_def exc_simps)
next
  case False
  from assms(1) have v: "validate_runtime_transition s e = Inr ()" by (auto simp: reduce_runtime_state_def exc_simps)
  with False have ok: "rs_run_id s = Some (re_run_id e)" "\<not> run_terminal s" "re_sequence e = rs_sequence s + 1" "check_tool_event s e = Inr ()"
    by (auto simp: validate_runtime_transition_def exc_simps split: option.splits)
  have "step_ok s e s'"
    using assms(1) unfolding reduce_runtime_state_def v bindE_simps Let_def based_on_def[symmetric] if_not_P[OF False]
    by (elim if_Inr_condE) (erule model_event_frame[OF _ assms(2)] | erule outcome_event_frame[OF _ assms(2)]
      | erule run_finished_frame[OF _ assms(2)] | (erule tool_event_frame[OF _ assms(2) ok(4) refl], assumption)
      | (insert run_ok_counts[OF assms(2)], force simp: exc_simps positive_int_ok intro!: frame_quiet interrupted_frame[OF assms(2)]))+
  with frame False ok show thesis by (auto simp: step_ok_def)
qed

lemma run_ok_reduce:
  assumes "reduce_runtime_state H e s = Inr s'" "run_ok s"
  shows "run_ok s'"
  using assms
proof (cases rule: reduce_frame)
  case start
  then show ?thesis using assms(2) by (simp add: run_ok_def new_run_state_def)
next
  case frame
  note f = frame(5)[unfolded frame_ok_def]
  have "s' \<noteq> new_run_state" using f frame(2) by (auto simp: new_run_state_def)
  moreover have "wf_dict (rs_tools s')" using assms(2) f by (auto simp: run_ok_def)
  moreover have "tool_call_ok tc t" if "map_of (rs_tools s') tc = Some t" for tc t
    using that assms(2) f by (auto simp: run_ok_def split: if_splits)
  moreover have "-1 \<le> rs_sequence s'" using assms(2) frame(4,6) by (simp add: run_ok_def)
  ultimately show ?thesis using f frame(2) unfolding run_ok_def by auto
qed

lemma run_fold:
  assumes "foldE (reduce_runtime_state H) es s = Inr s'" "run_ok s"
  shows "run_ok s' \<and> rs_sequence s' = rs_sequence s + int (length es) \<and>
    map re_sequence es = map (\<lambda>i. rs_sequence s + 1 + int i) [0..<length es]"
  using assms
proof (induction es arbitrary: s)
  case (Cons e es)
  then obtain s1 where s1: "reduce_runtime_state H e s = Inr s1" "foldE (reduce_runtime_state H) es s1 = Inr s'"
    by (auto simp: exc_simps)
  have ok: "run_ok s1" using run_ok_reduce[OF s1(1) Cons.prems(2)] .
  have sq: "re_sequence e = rs_sequence s + 1 \<and> rs_sequence s1 = rs_sequence s + 1"
    using s1(1) Cons.prems(2) by (cases rule: reduce_frame) auto
  have "map (\<lambda>i. rs_sequence s + 1 + int i) [0..<Suc (length es)] =
      (rs_sequence s + 1) # map (\<lambda>i. rs_sequence s1 + 1 + int i) [0..<length es]"
    by (subst upt_conv_Cons) (simp_all add: sq map_Suc_upt[symmetric] comp_def del: upt_Suc)
  with Cons.IH[OF s1(2) ok] sq show ?case by simp
qed simp

lemma replay_fold_runtime:
  assumes "replay_runtime_events H es = Inr s"
  shows "run_ok s \<and> rs_sequence s = int (length es) - 1 \<and> map re_sequence (sort_key re_sequence es) = map int [0..<length es]"
  using run_fold[OF assms[unfolded replay_runtime_events_def] run_ok_new] by (simp add: new_run_state_def)

text \<open>A tool call that has ended does not change as long as the run goes on.\<close>

lemma tool_frozen:
  assumes "foldE (reduce_runtime_state H) es s = Inr s'" "run_ok s" "\<And>e. e \<in> set es \<Longrightarrow> re_type e \<noteq> ''run_started''"
    and "map_of (rs_tools s) tc = Some t" "tool_call_terminal t"
  shows "map_of (rs_tools s') tc = Some t"
  using assms
proof (induction es arbitrary: s)
  case (Cons e es)
  then obtain s1 where s1: "reduce_runtime_state H e s = Inr s1" "foldE (reduce_runtime_state H) es s1 = Inr s'"
    by (auto simp: exc_simps)
  have "map_of (rs_tools s1) tc = Some t"
    using s1(1) Cons.prems(2)
  proof (cases rule: reduce_frame)
    case start
    then show ?thesis using Cons.prems(3) by simp
  next
    case frame
    then show ?thesis using Cons.prems(4,5) by (auto simp: frame_ok_def)
  qed
  with Cons.IH[OF s1(2) run_ok_reduce[OF s1(1) Cons.prems(2)]] Cons.prems(3,5) show ?case by simp
qed simp

text \<open>A small stream for the examples: a run with one tool call that is still open.\<close>

definition stream_host :: host where
  "stream_host = \<lparr>sha256_hex = (\<lambda>_. []), repr_of = (\<lambda>_. []), read_float = (\<lambda>_. FFin 0)\<rparr>"

definition stream_event :: "int \<Rightarrow> string \<Rightarrow> jdict \<Rightarrow> runtime_event" where
  "stream_event i ty data = \<lparr>re_type = ty, re_run_id = ''r'', re_sequence = i, re_timestamp = 5, re_data = data\<rparr>"

definition open_stream :: "runtime_event list" where
  "open_stream = [stream_event 0 ''run_started'' [], stream_event 1 ''turn_started'' [(''turn'', JInt 1)],
     stream_event 2 ''tool_started'' [(''toolCallId'', JStr ''t''), (''toolName'', JStr ''read'')]]"

definition open_state :: run_state where
  "open_state = \<lparr>rs_phase = RpExecutingTools, rs_run_id = Some ''r'', rs_sequence = 2, rs_turn = 1, rs_model_retry_attempt = 0,
     rs_tools = [(''t'', \<lparr>tc_tool_call_id = ''t'', tc_tool_name = ''read'', tc_phase = TpQueued, tc_retry_attempt = 0,
       tc_error_code = None\<rparr>)], rs_failure_code = None, rs_routing_status = None, rs_last_event = Some ''tool_started''\<rparr>"

lemma open_stream_replay: "replay_runtime_events stream_host open_stream = Inr open_state"
  by code_simp

text \<open>
  C15: the state of every runtime stream that replays is sound. Its events are numbered from zero without a gap, each
  tool call sits under its id with the phase its error code asks for, a completed run has no failure and no open tool call, an
  ended run accepts nothing but the start of the next one, and an ended tool call stays as it is until then.
\<close>

theorem runtime_stream_sound:
  assumes "replay_runtime_events H es = Inr s"
  shows "map re_sequence (sort_key re_sequence es) = map int [0..<length es] \<and> rs_sequence s = int (length es) - 1 \<and>
    (\<forall>tc t. map_of (rs_tools s) tc = Some t \<longrightarrow> tc_tool_call_id t = tc \<and>
       (tool_call_terminal t \<longrightarrow> tc_phase t = finished_phase (tc_error_code t)) \<and> (\<not> tool_call_terminal t \<longrightarrow> tc_error_code t = None)) \<and>
    (rs_phase s = RpCompleted \<longrightarrow> rs_failure_code s = None \<and> active_tool_count s = 0) \<and>
    (run_terminal s \<longrightarrow> (\<forall>e. re_type e \<noteq> ''run_started'' \<longrightarrow> \<not> isOk (reduce_runtime_state H e s))) \<and>
    (\<forall>more s' tc t. foldE (reduce_runtime_state H) more s = Inr s' \<longrightarrow> (\<forall>e \<in> set more. re_type e \<noteq> ''run_started'') \<longrightarrow>
       map_of (rs_tools s) tc = Some t \<longrightarrow> tool_call_terminal t \<longrightarrow> map_of (rs_tools s') tc = Some t)"
proof -
  from replay_fold_runtime[OF assms] have ok: "run_ok s" and sq: "rs_sequence s = int (length es) - 1"
    "map re_sequence (sort_key re_sequence es) = map int [0..<length es]" by auto
  have "\<not> isOk (reduce_runtime_state H e s)" if "run_terminal s" "re_type e \<noteq> ''run_started''" for e
  proof
    assume "isOk (reduce_runtime_state H e s)"
    then obtain s' where "reduce_runtime_state H e s = Inr s'" by (auto simp: isOk_iff)
    then show False using ok by (cases rule: reduce_frame) (use that in auto)
  qed
  moreover have "map_of (rs_tools s') tc = Some t" if "foldE (reduce_runtime_state H) more s = Inr s'"
    "\<forall>e \<in> set more. re_type e \<noteq> ''run_started''" "map_of (rs_tools s) tc = Some t" "tool_call_terminal t" for more s' tc t
    using tool_frozen[OF that(1) ok] that by blast
  moreover have "active_tool_count s = 0" if "rs_phase s = RpCompleted"
    using ok that unfolding run_ok_def active_tool_count_def by (metis (mono_tags, lifting) filter_False list.size(3))
  moreover have "tc_tool_call_id t = tc \<and> (tool_call_terminal t \<longrightarrow> tc_phase t = finished_phase (tc_error_code t)) \<and>
      (\<not> tool_call_terminal t \<longrightarrow> tc_error_code t = None)" if "map_of (rs_tools s) tc = Some t" for tc t
    using ok that by (auto simp: run_ok_def tool_call_ok_def split: if_splits)
  moreover have "rs_failure_code s = None" if "rs_phase s = RpCompleted" using ok that by (simp add: run_ok_def)
  ultimately show ?thesis using sq by blast
qed

theorem runtime_stream_sound_witness:
  "replay_runtime_events stream_host open_stream = Inr open_state \<and> rs_sequence open_state = int (length open_stream) - 1 \<and>
   map re_sequence (sort_key re_sequence open_stream) = map int [0..<length open_stream]"
  using runtime_stream_sound[OF open_stream_replay] open_stream_replay by blast

section \<open>Trackers on one stream\<close>

definition stream_ok :: "host \<Rightarrow> runtime_event list \<Rightarrow> bool" where
  "stream_ok H es \<longleftrightarrow> map re_sequence es = map int [0..<length es] \<and> isOk (replay_runtime_events H es)"

lemma open_stream_ok: "stream_ok stream_host open_stream"
  unfolding stream_ok_def open_stream_replay by (simp add: open_stream_def stream_event_def)

lemma runtime_numbered_sorted: "map re_sequence es = map int [0..<length es] \<Longrightarrow> sort_key re_sequence es = es"
  by (rule sort_key_id_if_sorted) (simp add: sorted_map sorted_wrt_upt)

lemma numbered_take:
  assumes "map re_sequence es = map int [0..<length es]" "n \<le> length es"
  shows "map re_sequence (take n es) = map int [0..<length (take n es)]"
  using arg_cong[OF assms(1), of "take n"] assms(2) by (simp add: take_map min_def)

lemma replay_snoc:
  assumes "map re_sequence es = map int [0..<length es]" "re_sequence e = int (length es)"
  shows "replay_runtime_events H (es @ [e]) = bindE (replay_runtime_events H es) (reduce_runtime_state H e)"
proof -
  have "map re_sequence (es @ [e]) = map int [0..<length (es @ [e])]" using assms by simp
  from runtime_numbered_sorted[OF this] runtime_numbered_sorted[OF assms(1)] show ?thesis
    by (simp add: replay_runtime_events_def foldE_append) (simp add: bindE_def split: sum.splits)
qed

lemma last_numbered: "map re_sequence es = map int [0..<length es] \<Longrightarrow> last_runtime_sequence es = int (length es) - 1"
proof (cases es rule: rev_cases)
  case (snoc ys y)
  assume "map re_sequence es = map int [0..<length es]"
  with snoc show ?thesis by (simp add: last_runtime_sequence_def)
qed (simp add: last_runtime_sequence_def)

text \<open>An append by a tracker that has seen the first \<open>n\<close> events of the stream.\<close>

lemma tracker_append_cases:
  assumes call: "tracker_append H uuid now spec tk es = (r, tk', es')"
    and es: "map re_sequence es = map int [0..<length es]" and seen: "replay_runtime_events H (take n es) = Inr (tk_state tk)" "n \<le> length es"
  obtains (refused) "\<not> isOk r" "tk' = tk" "es' = es"
  | (stored) e where "isOk r" "n = length es" "es' = es @ [e]" "re_type e = fst spec" "re_data e = snd spec"
      "re_sequence e = int (length es)" "replay_runtime_events H es' = Inr (tk_state tk')" "stream_ok H es'"
      "tk' = tk\<lparr>tk_state := tk_state tk'\<rparr>"
proof -
  have sq: "rs_sequence (tk_state tk) = int n - 1" using replay_fold_runtime[OF seen(1)] seen(2) by simp
  let ?m = "bindE (if fst spec = ''run_started'' then Inr uuid
             else (case rs_run_id (tk_state tk) of None \<Rightarrow> Inl (Raised RtRecordWithoutRun) | Some r \<Rightarrow> Inr r)) (\<lambda>run_id.
           bindE (runtime_event_post_init \<lparr>re_type = fst spec, re_run_id = run_id, re_sequence = rs_sequence (tk_state tk) + 1,
             re_timestamp = now, re_data = snd spec\<rparr>) (\<lambda>e.
           bindE (reduce_runtime_state H e (tk_state tk)) (\<lambda>s. Inr (e, s))))"
  show thesis
  proof (cases ?m)
    case (Inl f)
    with call refused show thesis by (auto simp: tracker_append_def)
  next
    case (Inr p)
    obtain e s where p: "p = (e, s)" by fastforce
    with Inr have e: "reduce_runtime_state H e (tk_state tk) = Inr s" "re_type e = fst spec" "re_data e = snd spec" "re_sequence e = int n"
      using sq by (auto simp: exc_simps runtime_event_post_init_def)
    show thesis
    proof (cases "\<not> tk_fenced_claim tk \<and> n = length es")
      case True
      then have out: "r = Inr ()" "tk' = tk\<lparr>tk_state := s\<rparr>" "es' = es @ [e]"
        using call Inr p e(4) last_numbered[OF es] sq by (auto simp: tracker_append_def runtime_append_cas_def Let_def)
      have "replay_runtime_events H (es @ [e]) = Inr s" using replay_snoc[OF es] e True seen by simp
      then show thesis using stored[of e] out e True es by (simp add: stream_ok_def)
    next
      case False
      then have "\<not> isOk r \<and> tk' = tk \<and> es' = es"
        using call Inr p e(4) last_numbered[OF es] sq seen(2)
        by (auto simp: tracker_append_def runtime_append_cas_def runtime_append_cas_if_fenced_claim_def Let_def split: if_splits)
      with refused show thesis by blast
    qed
  qed
qed

lemma tracker_append_all_sound:
  assumes "tracker_append_all H uuid now specs tk es = (r, tk', es')"
    and "stream_ok H es" "replay_runtime_events H (take n es) = Inr (tk_state tk)" "n \<le> length es"
  shows "\<exists>new n'. es' = es @ new \<and> stream_ok H es' \<and> n' \<le> length es' \<and> replay_runtime_events H (take n' es') = Inr (tk_state tk') \<and>
    (new = [] \<longrightarrow> tk_state tk' = tk_state tk) \<and> (new \<noteq> [] \<longrightarrow> n = length es \<and> n' = length es') \<and>
    (isOk r \<longrightarrow> map (\<lambda>e. (re_type e, re_data e)) new = specs)"
  using assms
proof (induction specs arbitrary: tk es n)
  case Nil
  then show ?case by auto
next
  case (Cons spec specs)
  obtain r1 tk1 es1 where call: "tracker_append H (uuid (length specs)) (now (length specs)) spec tk es = (r1, tk1, es1)"
    by (metis surj_pair)
  from Cons.prems(2) have num: "map re_sequence es = map int [0..<length es]" by (simp add: stream_ok_def)
  from call num Cons.prems(3,4) show ?case
  proof (cases rule: tracker_append_cases)
    case refused
    with Cons.prems call have "es' = es" "tk' = tk" "\<not> isOk r" by (auto split: sum.splits)
    with Cons.prems show ?thesis by (intro exI[of _ "[]"] exI[of _ n]) simp
  next
    case (stored e)
    from stored(1) Cons.prems(1) call have rest: "tracker_append_all H uuid now specs tk1 es1 = (r, tk', es')"
      by (auto split: sum.splits)
    from stored(3,7) have "replay_runtime_events H (take (length es1) es1) = Inr (tk_state tk1)" by simp
    from Cons.IH[OF rest stored(8) this order_refl] obtain new n' where
      "es' = es1 @ new" "stream_ok H es'" "n' \<le> length es'" "replay_runtime_events H (take n' es') = Inr (tk_state tk')"
      "new = [] \<longrightarrow> tk_state tk' = tk_state tk1" "new \<noteq> [] \<longrightarrow> n' = length es'" "isOk r \<longrightarrow> map (\<lambda>e. (re_type e, re_data e)) new = specs"
      by blast
    moreover from this stored(3,7) have "replay_runtime_events H (take (length es') es') = Inr (tk_state tk')"
      by (cases "new = []") auto
    ultimately show ?thesis using stored by (intro exI[of _ "e # new"] exI[of _ "length es'"]) simp
  qed
qed

lemma observe_identity_state [simp]: "tk_state (observe_identity event tk) = tk_state tk"
  by (simp add: observe_identity_def split: json.splits)

text \<open>
  C16: many trackers, one stream. Take a replayable stream and a tracker that has seen some first part of it, whatever other trackers
  appended since. Then a call of its listener leaves a replayable stream, appends nothing unless the tracker had seen
  all of it, and if it appended, the tracker's state is the replay of the whole stream again.
\<close>

theorem tracker_follows_stream:
  assumes "stream_ok H es" "replay_runtime_events H (take n es) = Inr (tk_state tk)" "n \<le> length es"
    and "tracker_listener H uuid now event cancelled tk es = (r, tk', es')"
  shows "\<exists>new n'. es' = es @ new \<and> stream_ok H es' \<and> n' \<le> length es' \<and> replay_runtime_events H (take n' es') = Inr (tk_state tk') \<and>
    (new = [] \<longrightarrow> tk_state tk' = tk_state tk) \<and> (new \<noteq> [] \<longrightarrow> n = length es \<and> n' = length es')"
proof (cases "convert_agent_event H (tk_state tk) (tk_model_identity tk) event cancelled")
  case (Inl f)
  with assms show ?thesis by (intro exI[of _ "[]"] exI[of _ n]) (simp add: tracker_listener_def)
next
  case (Inr specs)
  obtain r1 tk1 es1 where call: "tracker_append_all H uuid now specs tk es = (r1, tk1, es1)" by (metis surj_pair)
  with assms(4) Inr have "tk_state tk' = tk_state tk1" "es' = es1"
    by (auto simp: tracker_listener_def split: sum.splits)
  with tracker_append_all_sound[OF call assms(1-3)] show ?thesis by auto
qed

theorem tracker_follows_stream_witness:
  "\<exists>new n' tk' es'. es' = open_stream @ new \<and> stream_ok stream_host es' \<and> n' \<le> length es' \<and>
     snd (tracker_listener stream_host (\<lambda>_. ''u'') (\<lambda>_. 9) [(''type'', JStr ''turn_end'')] False
       \<lparr>tk_state = open_state, tk_fenced_claim = False, tk_model_identity = []\<rparr> open_stream) = (tk', es')"
proof -
  let ?tk = "\<lparr>tk_state = open_state, tk_fenced_claim = False, tk_model_identity = []\<rparr>"
  obtain r tk' es' where call: "tracker_listener stream_host (\<lambda>_. ''u'') (\<lambda>_. 9) [(''type'', JStr ''turn_end'')] False ?tk open_stream = (r, tk', es')"
    by (metis surj_pair)
  have "replay_runtime_events stream_host (take (length open_stream) open_stream) = Inr (tk_state ?tk)"
    using open_stream_replay by simp
  from tracker_follows_stream[OF open_stream_ok this order_refl call] call show ?thesis by auto
qed

section \<open>Recovery\<close>

lemma run_id_fold:
  assumes "foldE (reduce_runtime_state H) es s = Inr s'" "run_ok s" "rs_run_id s' = Some r"
  shows "rs_run_id s = Some r \<or> (\<exists>e \<in> set es. re_run_id e = r)"
  using assms
proof (induction es arbitrary: s)
  case (Cons e es)
  then obtain s1 where s1: "reduce_runtime_state H e s = Inr s1" "foldE (reduce_runtime_state H) es s1 = Inr s'"
    by (auto simp: exc_simps)
  have "rs_run_id s1 = rs_run_id s \<or> rs_run_id s1 = Some (re_run_id e)"
    using s1(1) Cons.prems(2) by (cases rule: reduce_frame) (auto simp: frame_ok_def)
  with Cons.IH[OF s1(2) run_ok_reduce[OF s1(1) Cons.prems(2)] Cons.prems(3)] show ?case by auto
qed simp

lemma replay_run_id: "replay_runtime_events H es = Inr s \<Longrightarrow> rs_run_id s = Some r \<Longrightarrow> \<exists>e \<in> set es. re_run_id e = r"
  using run_id_fold[of H "sort_key re_sequence es" new_run_state s r] run_ok_new
  by (simp add: replay_runtime_events_def new_run_state_def)

lemma interrupted_reduce:
  assumes "run_ok s" "rs_run_id s = Some r" "\<not> run_terminal s" "re_type e = ''run_interrupted''" "re_run_id e = r" "re_sequence e = rs_sequence s + 1"
  shows "reduce_runtime_state H e s = Inr ((based_on s e)\<lparr>rs_phase := RpSuspended, rs_failure_code := Some ''process_interrupted''\<rparr>)"
  using assms by (simp add: reduce_runtime_state_def validate_runtime_transition_def check_tool_event_def tool_event_types_def based_on_def)



section \<open>The error code of a failure without one\<close>

definition failed_tool_end :: "string \<Rightarrow> string \<Rightarrow> jdict \<Rightarrow> jdict" where
  "failed_tool_end tc name result = [(''type'', JStr ''tool_execution_end''), (''toolCallId'', JStr tc), (''toolName'', JStr name),
     (''isError'', JBool True), (''result'', JObj result)]"

lemma tool_finished_reduce:
  assumes "rs_run_id s = Some r" "\<not> run_terminal s" "map_of (rs_tools s) tc = Some t" "\<not> tool_call_terminal t" "tc \<noteq> []"
    and e: "re_type e = ''tool_finished''" "re_run_id e = r" "re_sequence e = rs_sequence s + 1" "jget (re_data e) ''toolCallId'' = JStr tc"
  shows "reduce_runtime_state H e s = on_tool_finished H s (based_on s e) (re_data e)"
  using assms by (simp add: reduce_runtime_state_def validate_runtime_transition_def check_tool_event_def tool_event_types_def
    on_tool_event_def based_on_def)

text \<open>
  A failed tool call whose details carry no code gets the error code \<open>None\<close>, as text. The tracker always sends the
  member \<open>errorCode\<close>, so the reducer's default \<open>tool_error\<close> never applies: for every open tool call of an active run, the listener
  stores the event and the call ends as failed with that code.
\<close>

theorem unnamed_failure_code:
  assumes "stream_ok H es" "replay_runtime_events H es = Inr (tk_state tk)" "\<not> tk_fenced_claim tk" "\<And>i. 0 \<le> now i"
    and "rs_run_id (tk_state tk) = Some r" "r \<noteq> []" "\<not> run_terminal (tk_state tk)"
    and "map_of (rs_tools (tk_state tk)) tc = Some t" "\<not> tool_call_terminal t" "tc \<noteq> []"
    and "jget_or result ''details'' (JObj []) = JObj details" "jget details ''code'' = JNull"
  shows "\<exists>tk' es' t'. tracker_listener H uuid now (failed_tool_end tc name result) cancelled tk es = (Inr (), tk', es') \<and>
    map_of (rs_tools (tk_state tk')) tc = Some t' \<and> tc_phase t' = TpFailed \<and> tc_error_code t' = Some ''None'' \<and>
    tc_error_code t' \<noteq> Some ''tool_error''"
proof -
  let ?d = "[(''toolCallId'', JStr tc), (''toolName'', JStr name), (''success'', JBool False), (''errorCode'', JNull)]"
  let ?s = "tk_state tk"
  let ?e = "\<lparr>re_type = ''tool_finished'', re_run_id = r, re_sequence = rs_sequence ?s + 1, re_timestamp = now 0, re_data = ?d\<rparr>"
  let ?t = "t\<lparr>tc_phase := TpFailed, tc_error_code := Some ''None''\<rparr>"
  have conv: "convert_agent_event H ?s (tk_model_identity tk) (failed_tool_end tc name result) cancelled = Inr [(''tool_finished'', ?d)]"
    using assms(11,12) by (simp add: convert_agent_event_def failed_tool_end_def convert_tool_end_def str_of_def jget_def jget_or_def detail_code_def truthy_def)
  have es: "map re_sequence es = map int [0..<length es]" using assms(1) by (simp add: stream_ok_def)
  have sq: "rs_sequence ?s = int (length es) - 1" using replay_fold_runtime[OF assms(2)] by simp
  have "reduce_runtime_state H ?e ?s = on_tool_finished H ?s (based_on ?s ?e) ?d"
    using tool_finished_reduce[of ?s r tc t ?e H] assms(5,7-10) by (simp add: jget_def)
  then obtain s' where red: "reduce_runtime_state H ?e ?s = Inr s'" and s': "rs_tools s' = dset (rs_tools ?s) tc ?t"
    using assms(8,10) by (simp add: on_tool_finished_def event_text_def jget_def jget_or_def finished_phase_def Let_def)
  have app: "tracker_append H (uuid 0) (now 0) (''tool_finished'', ?d) tk es = (Inr (), tk\<lparr>tk_state := s'\<rparr>, es @ [?e])"
    using assms(3-6) red sq last_numbered[OF es] by (simp add: tracker_append_def runtime_event_post_init_def runtime_append_cas_def)
  have "tracker_listener H uuid now (failed_tool_end tc name result) cancelled tk es =
      (Inr (), observe_identity (failed_tool_end tc name result) (tk\<lparr>tk_state := s'\<rparr>), es @ [?e])"
    by (simp add: tracker_listener_def conv app)
  then show ?thesis using s' by simp
qed

theorem unnamed_failure_code_witness:
  "\<exists>tk' es' t'. tracker_listener stream_host (\<lambda>_. ''u'') (\<lambda>_. 9) (failed_tool_end ''t'' ''read'' []) False
      \<lparr>tk_state = open_state, tk_fenced_claim = False, tk_model_identity = []\<rparr> open_stream = (Inr (), tk', es') \<and>
    map_of (rs_tools (tk_state tk')) ''t'' = Some t' \<and> tc_error_code t' = Some ''None''"
  using unnamed_failure_code[OF open_stream_ok, of "\<lparr>tk_state = open_state, tk_fenced_claim = False, tk_model_identity = []\<rparr>" "\<lambda>_. 9" "''r''" "''t''"
      "hd (dvalues (rs_tools open_state))" "[]" "[]" "\<lambda>_. ''u''" "''read''" False] open_stream_replay
  by (auto simp: open_state_def run_terminal_def terminal_run_phases_def tool_call_terminal_def terminal_tool_phases_def jget_def jget_or_def)

end
