(* ===== verification/Write_Values.thy ===== *)
theory Write_Values
  imports Approval_Service Plan_Types
begin

text \<open>
  The values of the write service (\<open>writes/state_machine.py\<close>): the trusted authorization, the write operation
  as it is replayed from its events with its fencing pair, the context a handler gets, the idempotency hashes, the actions
  that are hashed and compared, and the checks of claims. A \<open>WriteOperationError\<close> is its code.
\<close>

section \<open>Errors\<close>

text \<open>What a handler raises: the attributes the service looks at.\<close>

record handler_error =
  he_code :: "string option"
  he_operation_id :: "string option"
  he_reconciliation_name :: "string option"
  he_outcome_unknown :: bool

datatype write_error =
    WriteErr string
  | WriteUnknown string
  | WApproval approval_code
  | WLog log_fault
  | WStore store_fault
  | WEnvelope envelope_fault
  | WNotCommitted handler_error
  | WHandler handler_error
  | WCancelled

type_synonym 'a write_result = "(write_error, 'a) result"

definition write_err :: "string \<Rightarrow> 'a write_result" where
  "write_err code = Inl (Raised (WriteErr code))"

definition as_log :: "(log_fault, 'a) result \<Rightarrow> 'a write_result" where
  "as_log r = catchE r (\<lambda>f. Inl (Raised (WLog f)))"

definition as_store :: "(store_fault, 'a) result \<Rightarrow> 'a write_result" where
  "as_store r = catchE r (\<lambda>f. Inl (Raised (WStore f)))"

definition as_approval :: "(approval_code, 'a) result \<Rightarrow> 'a write_result" where
  "as_approval r = catchE r (\<lambda>f. Inl (Raised (WApproval f)))"

definition as_envelope :: "(envelope_fault, 'a) result \<Rightarrow> 'a write_result" where
  "as_envelope r = catchE r (\<lambda>f. Inl (Raised (WEnvelope f)))"

section \<open>Trusted authorizations\<close>

text \<open>The two times are an int or a float, as given.\<close>

record trusted_authorization =
  ta_receipt_id :: string
  ta_action_hash :: string
  ta_verification_id :: string
  ta_consumed_at :: json
  ta_expires_at :: json
  ta_subject :: jdict

text \<open>\<open>float(v)\<close> of an int or a float that is not a bool and finite.\<close>

definition finite_time :: "json \<Rightarrow> rat write_result" where
  "finite_time v = (case v of
     JInt i \<Rightarrow> bindE (py_float_int i) (\<lambda>f. case f of FFin q \<Rightarrow> Inr q | _ \<Rightarrow> Inl (Builtin ValueErr))
   | JFloat (FFin q) \<Rightarrow> Inr q
   | _ \<Rightarrow> Inl (Builtin ValueErr))"

definition time_value :: "json \<Rightarrow> rat" where
  "time_value v = (case v of JInt i \<Rightarrow> of_int i | JFloat (FFin q) \<Rightarrow> q | _ \<Rightarrow> 0)"

definition authorization_post_init :: "trusted_authorization \<Rightarrow> trusted_authorization write_result" where
  "authorization_post_init a =
     bindE (guardE (py_strip (ta_receipt_id a) \<noteq> [] \<and> py_strip (ta_action_hash a) \<noteq> [] \<and> py_strip (ta_verification_id a) \<noteq> [])
              (Builtin ValueErr)) (\<lambda>_.
     bindE (guardE (is_sha256 (ta_action_hash a)) (Builtin ValueErr)) (\<lambda>_.
     bindE (finite_time (ta_consumed_at a)) (\<lambda>_.
     bindE (finite_time (ta_expires_at a)) (\<lambda>_.
     bindE (guardE (time_value (ta_consumed_at a) \<le> time_value (ta_expires_at a)) (Builtin ValueErr)) (\<lambda>_.
     bindE (guardE (finite_json (JObj (ta_subject a))) (Builtin ValueErr)) (\<lambda>_. Inr a))))))"

definition float_json :: "json \<Rightarrow> json" where
  "float_json v = (case finite_time v of Inr q \<Rightarrow> JFloat (FFin q) | Inl _ \<Rightarrow> v)"

definition authorization_to_dict :: "trusted_authorization \<Rightarrow> jdict" where
  "authorization_to_dict a = [(''receiptId'', JStr (ta_receipt_id a)), (''actionHash'', JStr (ta_action_hash a)),
     (''verificationId'', JStr (ta_verification_id a)), (''consumedAt'', float_json (ta_consumed_at a)),
     (''expiresAt'', float_json (ta_expires_at a)), (''subject'', JObj (ta_subject a))]"

definition authorization_fields :: "string set" where
  "authorization_fields = {''receiptId'', ''actionHash'', ''verificationId'', ''consumedAt'', ''expiresAt'', ''subject''}"

definition authorization_from_dict :: "host \<Rightarrow> jdict \<Rightarrow> trusted_authorization write_result" where
  "authorization_from_dict H v =
     bindE (guardE (set (dkeys v) = authorization_fields) (Builtin ValueErr)) (\<lambda>_.
     case jget v ''subject'' of
       JObj subject \<Rightarrow>
         bindE (finite_time (jget v ''consumedAt'')) (\<lambda>consumed.
         bindE (finite_time (jget v ''expiresAt'')) (\<lambda>expires.
         authorization_post_init \<lparr>ta_receipt_id = str_field H v ''receiptId'', ta_action_hash = str_field H v ''actionHash'',
           ta_verification_id = str_field H v ''verificationId'', ta_consumed_at = JFloat (FFin consumed),
           ta_expires_at = JFloat (FFin expires), ta_subject = subject\<rparr>))
     | _ \<Rightarrow> Inl (Builtin ValueErr))"

section \<open>Write operations\<close>

record write_operation =
  wo_write_id :: string
  wo_session_id :: string
  wo_operation_id :: string
  wo_tool_name :: string
  wo_arguments :: json
  wo_action_hash :: string
  wo_idempotency_key_hash :: string
  wo_requester_id :: string
  wo_state :: write_state
  wo_idempotency_hash_version :: int
  wo_entity_id :: "string option"
  wo_expected_entity_version :: "int option"
  wo_business_preconditions :: "jdict option"
  wo_tool_call_id :: "string option"
  wo_approval_id :: "string option"
  wo_result :: "jdict option"
  wo_trusted_authorization :: "trusted_authorization option"
  wo_fencing_token :: "int option"
  wo_fencing_scope :: "string option"
  wo_reconcile_fencing_token :: "int option"
  wo_reconcile_fencing_scope :: "string option"

record write_context =
  wc_write_id :: string
  wc_session_id :: string
  wc_operation_id :: string
  wc_tool_name :: string
  wc_arguments :: json
  wc_idempotency_key :: string
  wc_actor :: verified_identity
  wc_action_hash :: string
  wc_requester_id :: string
  wc_tool_call_id :: "string option"
  wc_approval_id :: "string option"
  wc_entity_id :: "string option"
  wc_expected_entity_version :: "int option"
  wc_business_preconditions :: "jdict option"
  wc_fencing_token :: "int option"
  wc_fencing_scope :: "string option"

definition context_post_init :: "write_context \<Rightarrow> write_context write_result" where
  "context_post_init c =
     bindE (guardE (case wc_fencing_token c of None \<Rightarrow> True | Some t \<Rightarrow> 1 \<le> t) (Builtin ValueErr)) (\<lambda>_.
     bindE (guardE ((wc_fencing_token c = None) = (wc_fencing_scope c = None)) (Builtin ValueErr)) (\<lambda>_.
     bindE (guardE (case wc_fencing_scope c of None \<Rightarrow> True | Some s \<Rightarrow> py_strip s \<noteq> []) (Builtin ValueErr)) (\<lambda>_. Inr c)))"

section \<open>Fencing pairs of reconciliation events\<close>

definition event_fencing_token :: "jdict \<Rightarrow> int option write_result" where
  "event_fencing_token data = (let v = jget data ''fencingToken'' in
     if v = JNull then Inr None else
     (case as_int_ge 1 v of None \<Rightarrow> write_err ''invalid_write_fencing_token'' | Some i \<Rightarrow> Inr (Some i)))"

definition event_fencing_scope :: "jdict \<Rightarrow> string option write_result" where
  "event_fencing_scope data = (case jget data ''fencingScope'' of
     JNull \<Rightarrow> Inr None
   | JStr s \<Rightarrow> if py_strip s = [] then write_err ''invalid_write_fencing_scope'' else Inr (Some s)
   | _ \<Rightarrow> write_err ''invalid_write_fencing_scope'')"

definition required_fence_pair :: "jdict \<Rightarrow> (int \<times> string) write_result" where
  "required_fence_pair data =
     bindE (event_fencing_token data) (\<lambda>token.
     bindE (event_fencing_scope data) (\<lambda>scope.
     case (token, scope) of
       (Some t, Some s) \<Rightarrow> Inr (t, s)
     | (None, None) \<Rightarrow> write_err ''write_fencing_pair_missing''
     | _ \<Rightarrow> write_err ''write_fencing_pair_incomplete''))"

definition canonical_reconcile_scope :: "host \<Rightarrow> write_operation \<Rightarrow> string write_result" where
  "canonical_reconcile_scope H w =
     as_store (fenced_claim_resource_id H ''write_reconcile'' (wo_session_id w) (Some (wo_operation_id w)) (Some (wo_write_id w)))"

definition validate_canonical_scope :: "host \<Rightarrow> write_operation \<Rightarrow> string \<Rightarrow> unit write_result" where
  "validate_canonical_scope H w scope =
     bindE (canonical_reconcile_scope H w) (\<lambda>c. guardE (scope = c) (Raised (WriteErr ''invalid_write_fencing_scope'')))"

definition validate_terminal_fence :: "host \<Rightarrow> write_operation \<Rightarrow> jdict \<Rightarrow> unit write_result" where
  "validate_terminal_fence H w data = (case (wo_reconcile_fencing_token w, wo_reconcile_fencing_scope w) of
     (Some token, Some scope) \<Rightarrow>
       bindE (required_fence_pair data) (\<lambda>(t, s).
       bindE (validate_canonical_scope H w s) (\<lambda>_.
       guardE (t = token \<and> s = scope) (Raised (WriteErr ''stale_write_fencing_pair''))))
   | _ \<Rightarrow> write_err ''write_fencing_pair_missing'')"

section \<open>Replay of a write\<close>

definition prepared_operation :: "host \<Rightarrow> string \<Rightarrow> operation_event \<Rightarrow> write_operation write_result" where
  "prepared_operation H wid e = (let data = ev_data e; raw = jget data ''expectedEntityVersion'' in
     bindE (if raw = JNull then Inr None else
            (case as_int_ge 0 raw of None \<Rightarrow> write_err ''invalid_expected_entity_version'' | Some i \<Rightarrow> Inr (Some i))) (\<lambda>expected.
     bindE (py_int (jget_or data ''idempotencyHashVersion'' (JInt 1))) (\<lambda>version.
     bindE (case jget data ''trustedAuthorization'' of
              JObj a \<Rightarrow> bindE (authorization_from_dict H a) (\<lambda>t. Inr (Some t)) | _ \<Rightarrow> Inr None) (\<lambda>trusted.
     Inr \<lparr>wo_write_id = wid, wo_session_id = ev_session_id e, wo_operation_id = ev_operation_id e,
       wo_tool_name = str_field H data ''toolName'', wo_arguments = jget_or data ''arguments'' (JObj []),
       wo_action_hash = str_field H data ''actionHash'', wo_idempotency_key_hash = str_field H data ''idempotencyKeyHash'',
       wo_requester_id = str_field H data ''requesterId'', wo_state = WrPrepared, wo_idempotency_hash_version = version,
       wo_entity_id = str_or_none H (jget data ''entityId''), wo_expected_entity_version = expected,
       wo_business_preconditions = (case jget data ''businessPreconditions'' of JObj p \<Rightarrow> Some p | _ \<Rightarrow> None),
       wo_tool_call_id = str_or_none H (jget data ''toolCallId''), wo_approval_id = None, wo_result = None,
       wo_trusted_authorization = trusted, wo_fencing_token = None, wo_fencing_scope = None,
       wo_reconcile_fencing_token = None, wo_reconcile_fencing_scope = None\<rparr>))))"

definition need_state :: "write_state list \<Rightarrow> write_operation \<Rightarrow> unit write_result" where
  "need_state states w = guardE (wo_state w \<in> set states) (Raised (WriteErr ''invalid_write_transition''))"

definition event_result :: "jdict \<Rightarrow> jdict write_result" where
  "event_result data = py_dict (jget_or data ''result'' (JObj []))"

definition end_write :: "host \<Rightarrow> write_state \<Rightarrow> jdict \<Rightarrow> write_operation \<Rightarrow> write_operation write_result" where
  "end_write H st data w =
     bindE (if wo_state w = WrReconciling then validate_terminal_fence H w data else Inr ()) (\<lambda>_.
     bindE (event_result data) (\<lambda>r. Inr (w\<lparr>wo_state := st, wo_result := Some r\<rparr>)))"

definition reenter_write :: "host \<Rightarrow> jdict \<Rightarrow> write_operation \<Rightarrow> write_operation write_result" where
  "reenter_write H data w =
     bindE (required_fence_pair data) (\<lambda>(t, s).
     bindE (validate_canonical_scope H w s) (\<lambda>_.
     bindE (guardE (wo_reconcile_fencing_scope w = Some s) (Raised (WriteErr ''stale_write_fencing_scope''))) (\<lambda>_.
     bindE (guardE (case wo_reconcile_fencing_token w of None \<Rightarrow> True | Some old \<Rightarrow> old < t)
              (Raised (WriteErr ''stale_write_fencing_token''))) (\<lambda>_.
     Inr (w\<lparr>wo_reconcile_fencing_token := Some t, wo_reconcile_fencing_scope := Some s\<rparr>)))))"

definition change_write :: "host \<Rightarrow> operation_event \<Rightarrow> write_operation \<Rightarrow> write_operation write_result" where
  "change_write H e w = (let ty = ev_type e; data = ev_data e in
     if ty = ''write_waiting_approval'' then bindE (need_state [WrPrepared] w) (\<lambda>_.
       Inr (w\<lparr>wo_state := WrWaitingApproval, wo_approval_id := Some (str_field H data ''approvalId'')\<rparr>))
     else if ty = ''write_approved'' then bindE (need_state [WrPrepared, WrWaitingApproval] w) (\<lambda>_. Inr (w\<lparr>wo_state := WrApproved\<rparr>))
     else if ty = ''write_submitting'' then bindE (need_state [WrApproved] w) (\<lambda>_. Inr (w\<lparr>wo_state := WrSubmitting\<rparr>))
     else if ty = ''write_succeeded'' then bindE (need_state [WrSubmitting, WrReconciling] w) (\<lambda>_. end_write H WrSucceeded data w)
     else if ty = ''write_failed'' then
       bindE (if wo_state w = WrWaitingApproval \<and> jget data ''reason'' = JStr ''approval_not_granted'' then Inr ()
              else need_state [WrSubmitting, WrReconciling] w) (\<lambda>_. end_write H WrFailed data w)
     else if ty = ''write_outcome_unknown'' then bindE (need_state [WrSubmitting] w) (\<lambda>_. Inr (w\<lparr>wo_state := WrOutcomeUnknown\<rparr>))
     else if ty = ''write_reconciling'' then
       bindE (need_state [WrOutcomeUnknown] w) (\<lambda>_.
       bindE (required_fence_pair data) (\<lambda>(t, s).
       bindE (validate_canonical_scope H w s) (\<lambda>_.
       Inr (w\<lparr>wo_state := WrReconciling, wo_reconcile_fencing_token := Some t, wo_reconcile_fencing_scope := Some s\<rparr>))))
     else if ty = ''write_reconcile_reentered'' then bindE (need_state [WrReconciling] w) (\<lambda>_. reenter_write H data w)
     else if ty = ''write_reconcile_failed'' then
       bindE (need_state [WrReconciling] w) (\<lambda>_.
       bindE (validate_terminal_fence H w data) (\<lambda>_. Inr (w\<lparr>wo_state := WrOutcomeUnknown\<rparr>)))
     else if ty = ''write_reconcile_deferred'' then
       bindE (need_state [WrReconciling] w) (\<lambda>_.
       bindE (validate_terminal_fence H w data) (\<lambda>_.
       bindE (event_result data) (\<lambda>r. Inr (w\<lparr>wo_state := WrOutcomeUnknown, wo_result := Some r\<rparr>))))
     else Inr w)"

definition replay_write_event ::
  "host \<Rightarrow> string \<Rightarrow> operation_event \<Rightarrow> write_operation option \<Rightarrow> write_operation option write_result" where
  "replay_write_event H wid e wo =
     (if jget (ev_data e) ''writeId'' \<noteq> JStr wid then Inr wo
      else if ev_type e = ''write_prepared'' then
        bindE (guardE (wo = None) (Raised (WriteErr ''duplicate_write''))) (\<lambda>_. bindE (prepared_operation H wid e) (\<lambda>w. Inr (Some w)))
      else (case wo of
          None \<Rightarrow> write_err ''write_event_without_prepare''
        | Some w \<Rightarrow> bindE (change_write H e w) (\<lambda>w'. Inr (Some w'))))"

definition replay_write :: "host \<Rightarrow> operation_event list \<Rightarrow> string \<Rightarrow> write_operation write_result" where
  "replay_write H events wid =
     bindE (foldE (replay_write_event H wid) events None) (\<lambda>wo.
     case wo of None \<Rightarrow> write_err ''write_not_found'' | Some w \<Rightarrow> Inr w)"

section \<open>Idempotency\<close>

definition scoped_hash_version :: int where
  "scoped_hash_version = 2"

definition hash_idempotency_key :: "host \<Rightarrow> string \<Rightarrow> string write_result" where
  "hash_idempotency_key H value = (if value = [] then Inl (Builtin ValueErr) else Inr (sha256_hex H value))"

definition hash_scoped_idempotency_key :: "host \<Rightarrow> string \<Rightarrow> string \<Rightarrow> string \<Rightarrow> string \<Rightarrow> string write_result" where
  "hash_scoped_idempotency_key H value sid who tool =
     bindE (guardE (value \<noteq> []) (Builtin ValueErr)) (\<lambda>_.
     bindE (guardE (sid \<noteq> [] \<and> who \<noteq> [] \<and> tool \<noteq> []) (Builtin ValueErr)) (\<lambda>_.
     Inr (sha256_hex H (json_dumps H True (JObj [(''version'', JInt scoped_hash_version), (''sessionId'', JStr sid),
       (''principalId'', JStr who), (''toolName'', JStr tool), (''key'', JStr value)])))))"

definition idempotency_hash_for_record :: "host \<Rightarrow> write_operation \<Rightarrow> string \<Rightarrow> string write_result" where
  "idempotency_hash_for_record H w value =
     (if scoped_hash_version \<le> wo_idempotency_hash_version w
      then hash_scoped_idempotency_key H value (wo_session_id w) (wo_requester_id w) (wo_tool_name w)
      else hash_idempotency_key H value)"

definition idempotency_key_matches :: "host \<Rightarrow> write_operation \<Rightarrow> string \<Rightarrow> bool write_result" where
  "idempotency_key_matches H w value =
     bindE (idempotency_hash_for_record H w value) (\<lambda>h. Inr (wo_idempotency_key_hash w = h))"

section \<open>Actions\<close>

definition optional_member :: "string \<Rightarrow> ('a \<Rightarrow> json) \<Rightarrow> 'a option \<Rightarrow> jdict" where
  "optional_member k f v = (case v of None \<Rightarrow> [] | Some x \<Rightarrow> [(k, f x)])"

definition write_semantic_action ::
  "string \<Rightarrow> json \<Rightarrow> string option \<Rightarrow> int option \<Rightarrow> jdict option \<Rightarrow> string option \<Rightarrow> jdict" where
  "write_semantic_action tool arguments entity version preconditions authorization_hash =
     [(''tool'', JStr tool), (''arguments'', arguments)] @ optional_member ''entityId'' JStr entity
     @ optional_member ''expectedEntityVersion'' JInt version @ optional_member ''businessPreconditions'' JObj preconditions
     @ optional_member ''authorizationActionHash'' JStr authorization_hash"

definition durable_write_action ::
  "string \<Rightarrow> string option \<Rightarrow> string \<Rightarrow> string \<Rightarrow> jdict \<Rightarrow> string option \<Rightarrow> int option \<Rightarrow> jdict option \<Rightarrow> string option
     \<Rightarrow> jdict write_result" where
  "durable_write_action op tool_call wid tool arguments entity version preconditions authorization_hash =
     bindE (case tool_call of
         Some tc \<Rightarrow> bindE (as_envelope (envelope_post_init \<lparr>env_operation_id = op, env_tool_call_id = tc, env_tool_name = tool,
             env_arguments = arguments, env_write_id = wid, env_entity_id = entity, env_expected_entity_version = version,
             env_business_preconditions = preconditions, env_version = 1\<rparr>)) (\<lambda>e. Inr (envelope_to_dict e))
       | None \<Rightarrow> Inr ([(''version'', JInt 1), (''operationId'', JStr op), (''toolCallId'', JNull), (''toolName'', JStr tool),
             (''arguments'', JObj arguments), (''writeId'', JStr wid)] @ optional_member ''entityId'' JStr entity
             @ optional_member ''expectedEntityVersion'' JInt version
             @ optional_member ''businessPreconditions'' JObj preconditions)) (\<lambda>action.
     Inr (action @ optional_member ''authorizationActionHash'' JStr authorization_hash))"

definition same_idempotent_action :: "host \<Rightarrow> write_operation \<Rightarrow> string \<Rightarrow> write_operation write_result" where
  "same_idempotent_action H existing semantic_digest =
     bindE (guardE (action_digest H (write_semantic_action (wo_tool_name existing) (wo_arguments existing) (wo_entity_id existing)
         (wo_expected_entity_version existing) (wo_business_preconditions existing)
         (map_option ta_action_hash (wo_trusted_authorization existing))) = semantic_digest)
       (Raised (WriteErr ''idempotency_conflict''))) (\<lambda>_. Inr existing)"

definition validate_write_preconditions :: "string option \<Rightarrow> int option \<Rightarrow> jdict option \<Rightarrow> unit write_result" where
  "validate_write_preconditions entity version preconditions =
     bindE (guardE (entity \<noteq> Some []) (Builtin ValueErr)) (\<lambda>_.
     bindE (case version of None \<Rightarrow> Inr () | Some v \<Rightarrow>
         bindE (guardE (0 \<le> v) (Builtin ValueErr)) (\<lambda>_. guardE (entity \<noteq> None) (Builtin ValueErr))) (\<lambda>_.
     case preconditions of None \<Rightarrow> Inr () | Some p \<Rightarrow> guardE (finite_json (JObj p)) (Builtin ValueErr)))"

section \<open>Checks of claims and tool calls\<close>

definition validate_plan_authorization :: "trusted_authorization option \<Rightarrow> string option \<Rightarrow> string option \<Rightarrow> unit write_result" where
  "validate_plan_authorization authorization plan_id step_id = (case (plan_id, step_id) of
     (Some p, Some s) \<Rightarrow> if p = [] \<or> s = [] then write_err ''write_plan_claim_scope_missing'' else
       (case authorization of
          None \<Rightarrow> write_err ''write_plan_authorization_missing''
        | Some a \<Rightarrow> guardE (jget (ta_subject a) ''source'' = JStr ''plan_approval_receipt'' \<and>
              jget (ta_subject a) ''planId'' = JStr p \<and> jget (ta_subject a) ''stepId'' = JStr s)
              (Raised (WriteErr ''write_plan_claim_scope_mismatch'')))
   | _ \<Rightarrow> write_err ''write_plan_claim_scope_missing'')"

definition fenced_write_entity_id :: "write_operation \<Rightarrow> claim_lease \<Rightarrow> string option write_result" where
  "fenced_write_entity_id w lease =
     (if cl_claim_type lease = ''conversation_session_writer'' then Inr None
      else if cl_claim_type lease = ''approval_resume'' then
        (case wo_approval_id w of
           None \<Rightarrow> write_err ''write_fenced_claim_scope_missing''
         | Some a \<Rightarrow> if a = [] then write_err ''write_fenced_claim_scope_missing'' else Inr (Some a))
      else if cl_claim_type lease = ''write_reconcile'' then Inr (Some (wo_write_id w))
      else if cl_claim_type lease = ''plan_execution'' then
        (case wo_trusted_authorization w of
           None \<Rightarrow> write_err ''write_plan_authorization_missing''
         | Some a \<Rightarrow> (case jget (ta_subject a) ''planId'' of
             JStr p \<Rightarrow> if p = [] then write_err ''write_plan_authorization_missing'' else Inr (Some p)
           | _ \<Rightarrow> write_err ''write_plan_authorization_missing''))
      else write_err ''write_fenced_claim_type_invalid'')"

definition tool_dispatch_specs :: "operation_event list \<Rightarrow> write_operation \<Rightarrow> event_spec list write_result" where
  "tool_dispatch_specs events w = (case wo_tool_call_id w of
     None \<Rightarrow> Inr []
   | Some tc \<Rightarrow>
       bindE (guardE (list_ex (\<lambda>e. ev_type e = ''tool_intent_recorded'' \<and> jget (ev_data e) ''toolCallId'' = JStr tc \<and>
           jget (ev_data e) ''toolName'' = JStr (wo_tool_name w) \<and>
           strict_json_equal (jget (ev_data e) ''arguments'') (wo_arguments w)) events) (Raised (WriteErr ''tool_intent_missing''))) (\<lambda>_.
       Inr (if list_ex (\<lambda>e. ev_type e = ''tool_dispatch_started'' \<and> jget (ev_data e) ''toolCallId'' = JStr tc) events then []
            else [(''tool_dispatch_started'', [(''toolCallId'', JStr tc), (''source'', JStr ''write_claim'')])])))"

definition resume_started :: "operation_event list \<Rightarrow> string \<Rightarrow> bool" where
  "resume_started events aid =
     list_ex (\<lambda>e. ev_type e = ''approval_resume_started'' \<and> jget (ev_data e) ''approvalId'' = JStr aid) events"

definition error_member :: "string \<Rightarrow> string option \<Rightarrow> jdict" where
  "error_member k v = (case v of None \<Rightarrow> [] | Some s \<Rightarrow> if s = [] then [] else [(k, JStr s)])"

definition outcome_unknown_data :: "string \<Rightarrow> handler_error \<Rightarrow> jdict" where
  "outcome_unknown_data wid err = [(''writeId'', JStr wid)] @ error_member ''operationId'' (he_operation_id err)
     @ error_member ''reconciliationName'' (he_reconciliation_name err) @ error_member ''errorCode'' (he_code err)"

end
