(* ===== verification/Write_Service.thy ===== *)
theory Write_Service
  imports Write_Values
begin

text \<open>
  The write service (\<open>writes/state_machine.py\<close>, \<open>WriteOperationService\<close>) on the in-memory store: prepare a write,
  claim and execute it with a handler, and reconcile a write whose outcome is unknown. Calls run among other workers as
  \<open>Service_Calls\<close> describes; a handler is a function from what it is called with to its outcome, and the
  other workers may run while it does. A cancellation reaches a call while its handler runs.
\<close>

section \<open>The service and its building blocks\<close>

record write_service =
  ws_approvals :: approval_service
  ws_supports_atomic :: bool
  ws_supports_cross_process :: bool
  ws_lease_seconds :: rat
  ws_renew_interval :: rat

definition write_service_init :: "approval_service \<Rightarrow> bool \<Rightarrow> bool \<Rightarrow> rat \<Rightarrow> rat option \<Rightarrow> write_service write_result" where
  "write_service_init A atomic cross secs interval =
     bindE (guardE (0 < secs) (Builtin ValueErr)) (\<lambda>_.
     let renew = (case interval of Some i \<Rightarrow> i | None \<Rightarrow> min 60 (secs / 3)) in
     bindE (guardE (0 < renew \<and> renew < secs) (Builtin ValueErr)) (\<lambda>_.
     Inr \<lparr>ws_approvals = A, ws_supports_atomic = atomic, ws_supports_cross_process = cross, ws_lease_seconds = secs,
       ws_renew_interval = renew\<rparr>))"

text \<open>A call whose exception is caught, a call with a clean-up, and a call of one of the claim operations of the store.\<close>

definition tryS :: "('f, 'a) service \<Rightarrow> ('g, ('f, 'a) result) service" where
  "tryS m \<sigma> = (case m \<sigma> of (r, \<sigma>') \<Rightarrow> (Inr r, \<sigma>'))"

definition finallyS :: "('f, 'a) service \<Rightarrow> ('f, 'b) service \<Rightarrow> ('f, 'a) service" where
  "finallyS m clean = bindS (tryS m) (\<lambda>r. bindS clean (\<lambda>_. liftS r))"

definition await_claims :: "scheduler \<Rightarrow> (rat \<Rightarrow> (memory_store, 'a) store_call) \<Rightarrow> ('f, (store_fault, 'a) result) service" where
  "await_claims W call \<sigma> = (case call (sc_now W (fst \<sigma>)) (sc_env W (fst \<sigma>) (snd \<sigma>)) of (r, st) \<Rightarrow> (Inr r, (Suc (fst \<sigma>), st)))"

definition validate_write_specs :: "host \<Rightarrow> scheduler \<Rightarrow> operation_event list \<Rightarrow> event_spec list \<Rightarrow> (write_error, operation_state) service" where
  "validate_write_specs H W events specs = bindS (clockS W) (\<lambda>now. liftS (as_log (replay_operation_with_specs H now events specs)))"

text \<open>The commit of a batch, with or without a fenced claim, at the version of the loaded log.\<close>

record commit_scope =
  co_fenced_claim :: "claim_lease option"
  co_lease_seconds :: rat
  co_entity_id :: "string option"
  co_deadline :: "int option"

definition await_commit ::
  "host \<Rightarrow> scheduler \<Rightarrow> string \<Rightarrow> string \<Rightarrow> operation_event list \<Rightarrow> event_spec list \<Rightarrow> commit_scope
     \<Rightarrow> ('f, (store_fault, operation_event list) result) service" where
  "await_commit H W sid op events specs c = (case co_fenced_claim c of
     None \<Rightarrow> await_append_batch H W sid op specs (operation_last_sequence events) (co_deadline c)
   | Some lease \<Rightarrow> await_append_fenced H W sid op specs lease (co_lease_seconds c) (operation_last_sequence events)
       (co_deadline c) (co_entity_id c))"

definition get_write :: "host \<Rightarrow> scheduler \<Rightarrow> string \<Rightarrow> (write_error, write_operation) service" where
  "get_write H W wid =
     bindS (await_load W None None) (\<lambda>events.
     bindS (liftS (replay_write H events wid)) (\<lambda>w.
     bindS (liftS (as_log (replay_operation H (filter (of_operation (wo_session_id w) (wo_operation_id w)) events)))) (\<lambda>_.
     liftS (Inr w))))"

definition find_by_idempotency ::
  "host \<Rightarrow> scheduler \<Rightarrow> string list \<Rightarrow> string \<Rightarrow> string \<Rightarrow> string \<Rightarrow> (write_error, write_operation option) service" where
  "find_by_idempotency H W key_hashes sid requester tool =
     bindS (await_load W None None) (\<lambda>events.
     let ids = map (\<lambda>e. py_str H (jget (ev_data e) ''writeId'')) (filter (\<lambda>e. ev_type e = ''write_prepared'' \<and>
         jget (ev_data e) ''idempotencyKeyHash'' \<in> set (map JStr key_hashes) \<and> ev_session_id e = sid \<and>
         jget (ev_data e) ''requesterId'' = JStr requester \<and> jget (ev_data e) ''toolName'' = JStr tool) events) in
     if ids = [] then liftS (Inr None) else bindS (get_write H W (last ids)) (\<lambda>w. liftS (Inr (Some w))))"

section \<open>Transitions of a write\<close>

record write_transition =
  wt_required_state :: write_state
  wt_event_type :: string
  wt_data :: jdict
  wt_fenced_claim :: "claim_lease option"
  wt_lease_seconds :: "rat option"

definition renew_seconds :: "write_service \<Rightarrow> rat option \<Rightarrow> rat" where
  "renew_seconds V secs = (case secs of None \<Rightarrow> ws_lease_seconds V | Some s \<Rightarrow> if s = 0 then ws_lease_seconds V else s)"

definition transition_entity :: "write_transition \<Rightarrow> write_operation \<Rightarrow> string option write_result" where
  "transition_entity tr current = (case wt_fenced_claim tr of None \<Rightarrow> Inr None | Some lease \<Rightarrow> fenced_write_entity_id current lease)"

fun finish_loop :: "host \<Rightarrow> write_service \<Rightarrow> scheduler \<Rightarrow> nat \<Rightarrow> write_transition \<Rightarrow> write_operation \<Rightarrow> (write_error, write_operation) service" where
  "finish_loop H V W 0 tr record = liftS (write_err ''write_conflict'')"
| "finish_loop H V W (Suc n) tr record =
     bindS (await_load W (Some (wo_session_id record)) (Some (wo_operation_id record))) (\<lambda>events.
     bindS (liftS (replay_write H events (wo_write_id record))) (\<lambda>current.
     if wt_event_type tr = ''write_succeeded'' \<and> wo_state current = WrSucceeded then liftS (Inr current)
     else if wo_state current \<noteq> wt_required_state tr then liftS (write_err ''invalid_write_transition'') else
     let specs = [(wt_event_type tr, wt_data tr)] in
     bindS (validate_write_specs H W events specs) (\<lambda>_.
     bindS (liftS (transition_entity tr current)) (\<lambda>entity.
     bindS (await_commit H W (wo_session_id current) (wo_operation_id current) events specs
       \<lparr>co_fenced_claim = wt_fenced_claim tr, co_lease_seconds = renew_seconds V (wt_lease_seconds tr), co_entity_id = entity,
        co_deadline = None\<rparr>) (\<lambda>r.
     case r of
       Inr _ \<Rightarrow> bindS (await_load W (Some (wo_session_id current)) (Some (wo_operation_id current))) (\<lambda>events.
                 liftS (replay_write H events (wo_write_id current)))
     | Inl (Raised f) \<Rightarrow>
         if claim_lost_fault f then liftS (write_err ''write_fenced_claim_lost'')
         else if conflict_fault f then finish_loop H V W n tr record
         else liftS (Inl (Raised (WStore f)))
     | Inl (Builtin b) \<Rightarrow> liftS (Inl (Builtin b)))))))"

definition finish_transition :: "host \<Rightarrow> write_service \<Rightarrow> scheduler \<Rightarrow> write_transition \<Rightarrow> write_operation \<Rightarrow> (write_error, write_operation) service" where
  "finish_transition H V W tr record = finish_loop H V W max_conflict_retries tr record"

definition mark_outcome_unknown ::
  "host \<Rightarrow> write_service \<Rightarrow> scheduler \<Rightarrow> write_operation \<Rightarrow> string \<Rightarrow> claim_lease option \<Rightarrow> rat option \<Rightarrow> (write_error, unit) service" where
  "mark_outcome_unknown H V W claimed reason fenced secs =
     bindS (get_write H W (wo_write_id claimed)) (\<lambda>current.
     if wo_state current \<noteq> WrSubmitting then liftS (Inr ()) else
     bindS (finish_transition H V W \<lparr>wt_required_state = WrSubmitting, wt_event_type = ''write_outcome_unknown'',
       wt_data = [(''writeId'', JStr (wo_write_id current)), (''reason'', JStr reason)], wt_fenced_claim = fenced,
       wt_lease_seconds = secs\<rparr> current) (\<lambda>_. liftS (Inr ())))"

section \<open>Prepare\<close>

record prepare_args =
  pa_session_id :: string
  pa_operation_id :: string
  pa_tool_name :: string
  pa_arguments :: jdict
  pa_idempotency_key :: string
  pa_requester :: identity_arg
  pa_requires_approval :: bool
  pa_required_role :: string
  pa_tool_call_id :: "string option"
  pa_entity_id :: "string option"
  pa_expected_entity_version :: "int option"
  pa_business_preconditions :: "jdict option"
  pa_trusted_authorization :: "trusted_authorization option"
  pa_authorization_action_hash :: "string option"
  pa_fenced_claim :: "claim_lease option"
  pa_plan_id :: "string option"
  pa_step_id :: "string option"
  pa_lease_seconds :: "rat option"

definition claim_seconds :: "write_service \<Rightarrow> rat option \<Rightarrow> rat write_result" where
  "claim_seconds V secs = (case secs of
     None \<Rightarrow> Inr (ws_lease_seconds V)
   | Some s \<Rightarrow> bindE (guardE (0 < s) (Builtin ValueErr)) (\<lambda>_. Inr s))"

definition prepare_scope :: "prepare_args \<Rightarrow> string option write_result" where
  "prepare_scope a = (case pa_fenced_claim a of
     Some lease \<Rightarrow>
       if cl_claim_type lease = ''plan_execution''
       then bindE (validate_plan_authorization (pa_trusted_authorization a) (pa_plan_id a) (pa_step_id a)) (\<lambda>_. Inr (pa_plan_id a))
       else if cl_claim_type lease = ''conversation_session_writer''
       then (if pa_plan_id a \<noteq> None \<or> pa_step_id a \<noteq> None then write_err ''write_fenced_claim_scope_conflict'' else Inr None)
       else write_err ''write_fenced_claim_type_invalid''
   | None \<Rightarrow> if pa_plan_id a \<noteq> None \<or> pa_step_id a \<noteq> None then write_err ''write_fenced_claim_required'' else Inr None)"

definition authorization_matches :: "prepare_args \<Rightarrow> unit write_result" where
  "authorization_matches a = (case (pa_trusted_authorization a, pa_authorization_action_hash a) of
     (None, None) \<Rightarrow> Inr ()
   | (Some t, Some h) \<Rightarrow> guardE (ta_action_hash t = h) (Raised (WriteErr ''trusted_authorization_action_mismatch''))
   | _ \<Rightarrow> write_err ''trusted_authorization_incomplete'')"

definition authorization_fresh :: "trusted_authorization option \<Rightarrow> rat \<Rightarrow> unit write_result" where
  "authorization_fresh t now = (case t of
     None \<Rightarrow> Inr ()
   | Some a \<Rightarrow>
       bindE (guardE (time_value (ta_consumed_at a) \<le> now) (Raised (WriteErr ''trusted_authorization_not_yet_consumed''))) (\<lambda>_.
       guardE (now \<le> time_value (ta_expires_at a)) (Raised (WriteErr ''trusted_authorization_expired''))))"

definition opt_int :: "int option \<Rightarrow> json" where
  "opt_int v = (case v of None \<Rightarrow> JNull | Some i \<Rightarrow> JInt i)"

definition opt_obj :: "jdict option \<Rightarrow> json" where
  "opt_obj v = (case v of None \<Rightarrow> JNull | Some d \<Rightarrow> JObj d)"

definition write_prepared_data :: "prepare_args \<Rightarrow> string \<Rightarrow> verified_identity \<Rightarrow> string \<Rightarrow> string \<Rightarrow> jdict" where
  "write_prepared_data a wid i digest key_hash = [(''writeId'', JStr wid), (''toolName'', JStr (pa_tool_name a)),
     (''arguments'', JObj (pa_arguments a)), (''actionHash'', JStr digest), (''idempotencyKeyHash'', JStr key_hash),
     (''idempotencyHashVersion'', JInt scoped_hash_version), (''requesterId'', JStr (vi_principal_id i)),
     (''requesterVerificationId'', JStr (vi_verification_id i)), (''toolCallId'', opt_str (pa_tool_call_id a)),
     (''entityId'', opt_str (pa_entity_id a)), (''expectedEntityVersion'', opt_int (pa_expected_entity_version a)),
     (''businessPreconditions'', opt_obj (pa_business_preconditions a)),
     (''trustedAuthorization'', opt_obj (map_option authorization_to_dict (pa_trusted_authorization a)))]"

text \<open>The label of the summary, a Chinese text, as UTF-8.\<close>

definition execute_label :: string where
  "execute_label = [CHR 0xE6, CHR 0x89, CHR 0xA7, CHR 0xE8, CHR 0xA1, CHR 0x8C, CHR 0xE5, CHR 0x86, CHR 0x99, CHR 0xE5, CHR 0xB7, CHR 0xA5,
     CHR 0xE5, CHR 0x85, CHR 0xB7, CHR '' '']"

definition prepare_specs ::
  "host \<Rightarrow> prepare_args \<Rightarrow> rat \<Rightarrow> string \<Rightarrow> string \<Rightarrow> verified_identity \<Rightarrow> string \<Rightarrow> event_spec list write_result" where
  "prepare_specs H a ms wid approval_uuid i key_hash =
     bindE (durable_write_action (pa_operation_id a) (pa_tool_call_id a) wid (pa_tool_name a) (pa_arguments a) (pa_entity_id a)
       (pa_expected_entity_version a) (pa_business_preconditions a) (pa_authorization_action_hash a)) (\<lambda>action.
     let first = (''write_prepared'', write_prepared_data a wid i (action_digest H action) key_hash) in
     if pa_requires_approval a then
       bindE (build_approval_request_event H ms approval_uuid i action (execute_label @ pa_tool_name a) (pa_required_role a) 300) (\<lambda>(aid, data).
       Inr [first, (''approval_requested'', data), (''write_waiting_approval'', [(''writeId'', JStr wid), (''approvalId'', JStr aid)])])
     else Inr [first, (''write_approved'', [(''writeId'', JStr wid), (''approvalId'', JNull)])])"

record prepare_plan =
  pp_key_hashes :: "string list"
  pp_requester :: verified_identity
  pp_digest :: string
  pp_write_id :: string
  pp_specs :: "event_spec list"
  pp_scope :: commit_scope

definition find_existing :: "host \<Rightarrow> scheduler \<Rightarrow> prepare_args \<Rightarrow> string list \<Rightarrow> verified_identity \<Rightarrow> (write_error, write_operation option) service" where
  "find_existing H W a hashes i = find_by_idempotency H W hashes (pa_session_id a) (vi_principal_id i) (pa_tool_name a)"

fun prepare_loop :: "host \<Rightarrow> scheduler \<Rightarrow> nat \<Rightarrow> prepare_args \<Rightarrow> prepare_plan \<Rightarrow> (write_error, write_operation) service" where
  "prepare_loop H W 0 a p = liftS (write_err ''write_conflict'')"
| "prepare_loop H W (Suc n) a p =
     bindS (find_existing H W a (pp_key_hashes p) (pp_requester p)) (\<lambda>existing.
     case existing of
       Some w \<Rightarrow> liftS (same_idempotent_action H w (pp_digest p))
     | None \<Rightarrow>
         bindS (await_load W (Some (pa_session_id a)) (Some (pa_operation_id a))) (\<lambda>events.
         if events = [] then liftS (write_err ''operation_not_found'') else
         bindS (validate_write_specs H W events (pp_specs p)) (\<lambda>_.
         bindS (await_commit H W (pa_session_id a) (pa_operation_id a) events (pp_specs p) (pp_scope p)) (\<lambda>r.
         case r of
           Inr _ \<Rightarrow> get_write H W (pp_write_id p)
         | Inl (Raised f) \<Rightarrow>
             if claim_lost_fault f then liftS (write_err ''write_fenced_claim_lost'')
             else if conflict_fault f then prepare_loop H W n a p
             else liftS (Inl (Raised (WStore f)))
         | Inl (Builtin b) \<Rightarrow> liftS (Inl (Builtin b))))))"

text \<open>The checks before the first await.\<close>

definition prepare_checks ::
  "host \<Rightarrow> write_service \<Rightarrow> prepare_args \<Rightarrow> (rat \<times> string option \<times> verified_identity \<times> string \<times> string) write_result" where
  "prepare_checks H V a =
     bindE (claim_seconds V (pa_lease_seconds a)) (\<lambda>secs.
     bindE (prepare_scope a) (\<lambda>entity.
     bindE (guardE (\<not> (pa_requires_approval a \<and> pa_trusted_authorization a \<noteq> None)) (Raised (WriteErr ''duplicate_approval_boundary''))) (\<lambda>_.
     bindE (as_approval (assert_trusted_identity (ws_approvals V) (pa_requester a))) (\<lambda>i.
     bindE (authorization_matches a) (\<lambda>_.
     bindE (guardE (pa_requires_approval a \<longrightarrow> ws_supports_atomic V) (Raised (WriteErr ''approval_atomic_store_required''))) (\<lambda>_.
     bindE (hash_scoped_idempotency_key H (pa_idempotency_key a) (pa_session_id a) (vi_principal_id i) (pa_tool_name a)) (\<lambda>key_hash.
     bindE (hash_idempotency_key H (pa_idempotency_key a)) (\<lambda>legacy.
     bindE (validate_write_preconditions (pa_entity_id a) (pa_expected_entity_version a) (pa_business_preconditions a)) (\<lambda>_.
     Inr (secs, entity, i, key_hash, legacy))))))))))"

definition semantic_digest :: "host \<Rightarrow> prepare_args \<Rightarrow> string" where
  "semantic_digest H a = action_digest H (write_semantic_action (pa_tool_name a) (JObj (pa_arguments a)) (pa_entity_id a)
     (pa_expected_entity_version a) (pa_business_preconditions a) (pa_authorization_action_hash a))"

definition prepare_write ::
  "host \<Rightarrow> write_service \<Rightarrow> scheduler \<Rightarrow> string \<Rightarrow> string \<Rightarrow> prepare_args \<Rightarrow> (write_error, write_operation) service" where
  "prepare_write H V W wid approval_uuid a =
     bindS (liftS (prepare_checks H V a)) (\<lambda>(secs, entity, i, key_hash, legacy).
     bindS (find_existing H W a [key_hash, legacy] i) (\<lambda>existing.
     case existing of
       Some w \<Rightarrow> liftS (same_idempotent_action H w (semantic_digest H a))
     | None \<Rightarrow>
         bindS (\<lambda>\<sigma>. (authorization_fresh (pa_trusted_authorization a) (sc_ms W (fst \<sigma>) / 1000), \<sigma>)) (\<lambda>_.
         bindS (\<lambda>\<sigma>. (prepare_specs H a (sc_ms W (fst \<sigma>)) wid approval_uuid i key_hash, \<sigma>)) (\<lambda>specs.
         prepare_loop H W max_conflict_retries a \<lparr>pp_key_hashes = [key_hash, legacy], pp_requester = i,
           pp_digest = semantic_digest H a, pp_write_id = wid, pp_specs = specs,
           pp_scope = \<lparr>co_fenced_claim = pa_fenced_claim a, co_lease_seconds = secs, co_entity_id = entity, co_deadline = None\<rparr>\<rparr>))))"

section \<open>Claim\<close>

datatype handler_outcome = HReturned json | HNotCommitted handler_error | HRaised handler_error | HCancelled

record execute_args =
  xa_actor :: identity_arg
  xa_idempotency_key :: string
  xa_handler :: "(json \<Rightarrow> string \<Rightarrow> verified_identity \<Rightarrow> handler_outcome) option"
  xa_context_handler :: "(write_context \<Rightarrow> handler_outcome) option"
  xa_approval_resume_id :: "string option"
  xa_fencing_token :: "int option"
  xa_fenced_claim :: "claim_lease option"
  xa_plan_id :: "string option"
  xa_step_id :: "string option"
  xa_lease_seconds :: "rat option"

definition execute_scope :: "write_service \<Rightarrow> execute_args \<Rightarrow> write_operation \<Rightarrow> string option write_result" where
  "execute_scope V x record = (case xa_fenced_claim x of
     Some lease \<Rightarrow>
       bindE (guardE (xa_fencing_token x = Some (cl_generation lease)) (Raised (WriteErr ''write_fencing_token_mismatch''))) (\<lambda>_.
       if cl_claim_type lease = ''approval_resume'' then
         (if xa_approval_resume_id x = None then write_err ''write_fenced_claim_scope_missing''
          else if xa_plan_id x \<noteq> None \<or> xa_step_id x \<noteq> None then write_err ''write_fenced_claim_scope_conflict''
          else Inr (xa_approval_resume_id x))
       else if cl_claim_type lease = ''plan_execution'' then
         (if xa_approval_resume_id x \<noteq> None then write_err ''write_fenced_claim_scope_conflict''
          else bindE (validate_plan_authorization (wo_trusted_authorization record) (xa_plan_id x) (xa_step_id x)) (\<lambda>_. Inr (xa_plan_id x)))
       else if cl_claim_type lease = ''conversation_session_writer'' then
         (if xa_plan_id x \<noteq> None \<or> xa_step_id x \<noteq> None then write_err ''write_fenced_claim_scope_conflict'' else Inr None)
       else write_err ''write_fenced_claim_type_invalid'')
   | None \<Rightarrow>
       if xa_approval_resume_id x \<noteq> None \<and> (xa_fencing_token x \<noteq> None \<or> ws_supports_cross_process V)
       then write_err ''write_fenced_claim_required''
       else if xa_plan_id x \<noteq> None \<or> xa_step_id x \<noteq> None then write_err ''write_fenced_claim_required''
       else if xa_fencing_token x \<noteq> None then write_err ''write_fenced_claim_required''
       else Inr None)"

definition handlers_ok :: "execute_args \<Rightarrow> unit write_result" where
  "handlers_ok x =
     bindE (guardE ((xa_handler x = None) \<noteq> (xa_context_handler x = None)) (Builtin ValueErr)) (\<lambda>_.
     guardE (case xa_fencing_token x of None \<Rightarrow> True | Some t \<Rightarrow> 1 \<le> t) (Builtin ValueErr))"

definition execute_checks :: "host \<Rightarrow> write_service \<Rightarrow> execute_args \<Rightarrow> write_operation \<Rightarrow> (verified_identity \<times> rat \<times> string option) write_result" where
  "execute_checks H V x record =
     bindE (as_approval (assert_trusted_identity (ws_approvals V) (xa_actor x))) (\<lambda>actor.
     bindE (claim_seconds V (xa_lease_seconds x)) (\<lambda>secs.
     bindE (execute_scope V x record) (\<lambda>entity.
     bindE (guardE (xa_fenced_claim x \<noteq> None \<longrightarrow> xa_context_handler x \<noteq> None) (Raised (WriteErr ''write_fenced_context_handler_required''))) (\<lambda>_.
     bindE (guardE (wo_approval_id record \<noteq> None \<longrightarrow> ws_supports_atomic V) (Raised (WriteErr ''approval_atomic_store_required''))) (\<lambda>_.
     bindE (idempotency_key_matches H record (xa_idempotency_key x)) (\<lambda>same.
     bindE (guardE same (Raised (WriteErr ''idempotency_key_mismatch''))) (\<lambda>_.
     Inr (actor, secs, entity))))))))"

text \<open>The events that release a write which waits for its approval, with the deadline of a consumption.\<close>

definition approval_specs ::
  "host \<Rightarrow> operation_event list \<Rightarrow> execute_args \<Rightarrow> verified_identity \<Rightarrow> write_operation \<Rightarrow> (event_spec list \<times> int option) write_result" where
  "approval_specs H events x actor current = (case wo_approval_id current of
     None \<Rightarrow> write_err ''approval_missing''
   | Some aid \<Rightarrow>
       bindE (as_approval (replay_approval H events aid)) (\<lambda>approval.
       bindE (guardE (ar_state approval \<in> {ArApproved, ArConsumed}) (Raised (WApproval AcNotApproved))) (\<lambda>_.
       bindE (guardE (ar_action_hash approval = wo_action_hash current) (Raised (WriteErr ''approval_action_mismatch''))) (\<lambda>_.
       Inr ((if ar_state approval = ArApproved
             then [(''approval_consumed'', [(''approvalId'', JStr aid), (''consumerId'', JStr (vi_principal_id actor)),
                 (''consumerVerificationId'', JStr (vi_verification_id actor))])] else [])
            @ (case xa_approval_resume_id x of None \<Rightarrow> [] | Some rid \<Rightarrow> if resume_started events rid then [] else
                [(''approval_resume_started'', [(''approvalId'', JStr rid), (''consumerId'', JStr (vi_principal_id actor)),
                  (''fencingToken'', opt_int (xa_fencing_token x))])])
            @ [(''write_approved'', [(''writeId'', JStr (wo_write_id current)), (''approvalId'', JStr aid)])],
            if ar_state approval = ArApproved then Some (ar_expires_at approval) else None)))))"

definition claim_specs ::
  "host \<Rightarrow> operation_event list \<Rightarrow> execute_args \<Rightarrow> verified_identity \<Rightarrow> write_operation \<Rightarrow> (event_spec list \<times> int option) write_result" where
  "claim_specs H events x actor current =
     bindE (if wo_state current = WrWaitingApproval then approval_specs H events x actor current
            else if wo_state current = WrApproved then Inr ([], None)
            else write_err ''write_not_executable'') (\<lambda>(released, deadline).
     bindE (tool_dispatch_specs events current) (\<lambda>dispatch.
     Inr (released @ dispatch @ [(''write_submitting'', [(''writeId'', JStr (wo_write_id current)),
       (''actorId'', JStr (vi_principal_id actor)), (''actorVerificationId'', JStr (vi_verification_id actor))])], deadline)))"

datatype claim_outcome = AlreadySucceeded write_operation | Claimed write_operation

fun claim_loop ::
  "host \<Rightarrow> scheduler \<Rightarrow> nat \<Rightarrow> execute_args \<Rightarrow> verified_identity \<Rightarrow> rat \<Rightarrow> string option \<Rightarrow> write_operation
     \<Rightarrow> (write_error, claim_outcome) service" where
  "claim_loop H W 0 x actor secs entity record = liftS (write_err ''write_conflict'')"
| "claim_loop H W (Suc n) x actor secs entity record =
     bindS (await_load W (Some (wo_session_id record)) (Some (wo_operation_id record))) (\<lambda>events.
     bindS (liftS (replay_write H events (wo_write_id record))) (\<lambda>current.
     if xa_approval_resume_id x \<noteq> None \<and> wo_approval_id current \<noteq> xa_approval_resume_id x
     then liftS (write_err ''approval_resume_write_mismatch'')
     else if wo_state current = WrSucceeded then liftS (Inr (AlreadySucceeded current)) else
     bindS (liftS (claim_specs H events x actor current)) (\<lambda>(specs, deadline).
     bindS (validate_write_specs H W events specs) (\<lambda>_.
     bindS (await_commit H W (wo_session_id current) (wo_operation_id current) events specs
       \<lparr>co_fenced_claim = xa_fenced_claim x, co_lease_seconds = secs, co_entity_id = entity, co_deadline = deadline\<rparr>) (\<lambda>r.
     case r of
       Inr _ \<Rightarrow> liftS (Inr (Claimed (current\<lparr>wo_state := WrSubmitting\<rparr>)))
     | Inl (Raised f) \<Rightarrow>
         if f = SfDeadline then liftS (Inl (Raised (WApproval AcExpired)))
         else if claim_lost_fault f then liftS (write_err ''write_fenced_claim_lost'')
         else if conflict_fault f then claim_loop H W n x actor secs entity record
         else liftS (Inl (Raised (WStore f)))
     | Inl (Builtin b) \<Rightarrow> liftS (Inl (Builtin b)))))))"

definition claim_write ::
  "host \<Rightarrow> write_service \<Rightarrow> scheduler \<Rightarrow> string \<Rightarrow> execute_args \<Rightarrow> (write_error, verified_identity \<times> rat \<times> claim_outcome) service" where
  "claim_write H V W wid x =
     bindS (liftS (handlers_ok x)) (\<lambda>_.
     bindS (get_write H W wid) (\<lambda>record.
     bindS (liftS (execute_checks H V x record)) (\<lambda>(actor, secs, entity).
     bindS (claim_loop H W max_conflict_retries x actor secs entity record) (\<lambda>out.
     liftS (Inr (actor, secs, out))))))"

section \<open>Execute\<close>

text \<open>What a handler is called with, and the call of the handler the caller passed.\<close>

datatype write_call = PlainCall json string verified_identity | ContextCall write_context

definition execution_context :: "execute_args \<Rightarrow> verified_identity \<Rightarrow> write_operation \<Rightarrow> write_context" where
  "execution_context x actor w = \<lparr>wc_write_id = wo_write_id w, wc_session_id = wo_session_id w, wc_operation_id = wo_operation_id w,
     wc_tool_name = wo_tool_name w, wc_arguments = wo_arguments w, wc_idempotency_key = xa_idempotency_key x, wc_actor = actor,
     wc_action_hash = wo_action_hash w, wc_requester_id = wo_requester_id w, wc_tool_call_id = wo_tool_call_id w,
     wc_approval_id = wo_approval_id w, wc_entity_id = wo_entity_id w, wc_expected_entity_version = wo_expected_entity_version w,
     wc_business_preconditions = wo_business_preconditions w, wc_fencing_token = xa_fencing_token x,
     wc_fencing_scope = map_option cl_resource_id (xa_fenced_claim x)\<rparr>"

definition no_attributes :: handler_error where
  "no_attributes = \<lparr>he_code = None, he_operation_id = None, he_reconciliation_name = None, he_outcome_unknown = False\<rparr>"

definition invoke_handler :: "execute_args \<Rightarrow> verified_identity \<Rightarrow> write_operation \<Rightarrow> write_call option \<times> handler_outcome" where
  "invoke_handler x actor w = (case xa_context_handler x of
     Some h \<Rightarrow> (case context_post_init (execution_context x actor w) of
         Inl _ \<Rightarrow> (None, HRaised no_attributes)
       | Inr c \<Rightarrow> (Some (ContextCall c), h c))
   | None \<Rightarrow> (case xa_handler x of
         None \<Rightarrow> (None, HRaised no_attributes)
       | Some h \<Rightarrow> (Some (PlainCall (wo_arguments w) (xa_idempotency_key x) actor), h (wo_arguments w) (xa_idempotency_key x) actor)))"

definition settle_write ::
  "host \<Rightarrow> write_service \<Rightarrow> scheduler \<Rightarrow> claim_lease option \<Rightarrow> rat \<Rightarrow> write_operation \<Rightarrow> handler_outcome \<Rightarrow> (write_error, write_operation) service" where
  "settle_write H V W fenced secs w outcome =
     (let finish = (\<lambda>ty data. finish_transition H V W \<lparr>wt_required_state = WrSubmitting, wt_event_type = ty, wt_data = data,
            wt_fenced_claim = fenced, wt_lease_seconds = Some secs\<rparr> w) in
      case outcome of
        HCancelled \<Rightarrow> bindS (tryS (mark_outcome_unknown H V W w ''execution_cancelled'' fenced (Some secs))) (\<lambda>_.
          liftS (Inl (Raised WCancelled)))
      | HNotCommitted err \<Rightarrow>
          bindS (tryS (finish ''write_failed'' [(''writeId'', JStr (wo_write_id w)), (''errorCode'', opt_str (he_code err)),
            (''definitelyNotCommitted'', JBool True)])) (\<lambda>r.
          liftS (if isOk r then Inl (Raised (WNotCommitted err)) else Inl (Raised (WriteUnknown ''write_failure_persistence_unknown''))))
      | HRaised err \<Rightarrow>
          bindS (tryS (finish ''write_outcome_unknown'' (outcome_unknown_data (wo_write_id w) err
            @ [(''reason'', JStr ''handler_exception_after_dispatch'')]))) (\<lambda>r.
          liftS (if \<not> isOk r then Inl (Raised (WriteUnknown ''write_outcome_unknown_persistence_failed''))
                 else if he_outcome_unknown err then Inl (Raised (WHandler err))
                 else Inl (Raised (WriteUnknown ''write_handler_outcome_unknown''))))
      | HReturned v \<Rightarrow>
          bindS (tryS (finish ''write_succeeded'' [(''writeId'', JStr (wo_write_id w)), (''result'', v)])) (\<lambda>r.
          case r of
            Inr done' \<Rightarrow> liftS (Inr done')
          | Inl _ \<Rightarrow> bindS (tryS (mark_outcome_unknown H V W w ''write_succeeded_persistence_failed'' fenced (Some secs))) (\<lambda>_.
              liftS (Inl (Raised (WriteUnknown ''write_success_persistence_unknown''))))))"

text \<open>The result of an execution together with the call of the handler it made, if it made one.\<close>

definition execute_write ::
  "host \<Rightarrow> write_service \<Rightarrow> scheduler \<Rightarrow> string \<Rightarrow> execute_args \<Rightarrow> call_state
     \<Rightarrow> (write_call option \<times> write_operation write_result) \<times> call_state" where
  "execute_write H V W wid x \<sigma> = (case claim_write H V W wid x \<sigma> of
     (Inl e, \<sigma>') \<Rightarrow> ((None, Inl e), \<sigma>')
   | (Inr (actor, secs, AlreadySucceeded w), \<sigma>') \<Rightarrow> ((None, Inr w), \<sigma>')
   | (Inr (actor, secs, Claimed w), \<sigma>') \<Rightarrow>
       (let (call, outcome) = invoke_handler x actor w in
        (case settle_write H V W (xa_fenced_claim x) secs w outcome \<sigma>' of (r, \<sigma>'') \<Rightarrow> ((call, r), \<sigma>''))))"

section \<open>Reconcile\<close>

text \<open>
  \<open>str.casefold\<close>, as far as its result can be an ASCII text: capital letters, the long s, the sharp s, the Kelvin sign and the
  Latin ligatures.
\<close>

fun casefold :: "string \<Rightarrow> string" where
  "casefold [] = []"
| "casefold (c # cs) = (let n = of_char c :: nat; two = take 2 (c # cs); three = take 3 (c # cs) in
     if 65 \<le> n \<and> n \<le> 90 then char_of (n + 32) # casefold cs
     else if two = [CHR 0xC5, CHR 0xBF] then CHR ''s'' # casefold (drop 1 cs)
     else if two = [CHR 0xC3, CHR 0x9F] then ''ss'' @ casefold (drop 1 cs)
     else if three = [CHR 0xE1, CHR 0xBA, CHR 0x9E] then ''ss'' @ casefold (drop 2 cs)
     else if three = [CHR 0xE2, CHR 0x84, CHR 0xAA] then CHR ''k'' # casefold (drop 2 cs)
     else if three = [CHR 0xEF, CHR 0xAC, CHR 0x80] then ''ff'' @ casefold (drop 2 cs)
     else if three = [CHR 0xEF, CHR 0xAC, CHR 0x81] then ''fi'' @ casefold (drop 2 cs)
     else if three = [CHR 0xEF, CHR 0xAC, CHR 0x82] then ''fl'' @ casefold (drop 2 cs)
     else if three = [CHR 0xEF, CHR 0xAC, CHR 0x83] then ''ffi'' @ casefold (drop 2 cs)
     else if three = [CHR 0xEF, CHR 0xAC, CHR 0x84] then ''ffl'' @ casefold (drop 2 cs)
     else if three \<in> {[CHR 0xEF, CHR 0xAC, CHR 0x85], [CHR 0xEF, CHR 0xAC, CHR 0x86]} then ''st'' @ casefold (drop 2 cs)
     else c # casefold cs)"

definition nonterminal_reconcile_statuses :: "string list" where
  "nonterminal_reconcile_statuses = [''pending'', ''outcome_unknown'', ''unknown'', ''not_found'', ''reconciling'']"

definition reconcile_event :: "json \<Rightarrow> string \<times> jdict" where
  "reconcile_event v =
     (let result = (case v of JObj d \<Rightarrow> d | _ \<Rightarrow> [(''status'', JStr ''unknown''), (''reason'', JStr ''reconciliation_result_not_an_object'')]);
          reported = jget result ''status'';
          status = (case reported of JStr s \<Rightarrow> casefold (py_strip s) | _ \<Rightarrow> ''unknown'') in
      if status = ''succeeded'' then (''write_succeeded'', result)
      else if status = ''failed'' then (''write_failed'', result)
      else (''write_reconcile_deferred'', if status \<in> set nonterminal_reconcile_statuses then result
        else dset (dset (dset result ''reportedStatus'' reported) ''status'' (JStr ''unknown'')) ''reason'' (JStr ''unrecognized_reconciliation_status'')))"

text \<open>One round of the heartbeat: whether the claim is lost.\<close>

definition renew_round :: "write_service \<Rightarrow> claim_lease \<Rightarrow> rat \<Rightarrow> memory_store \<Rightarrow> bool \<times> memory_store" where
  "renew_round V lease now st = (case memory_renew_fenced_claim now lease (ws_lease_seconds V) st of
     (Inr held, st') \<Rightarrow> (\<not> held, st') | (Inl _, st') \<Rightarrow> (True, st'))"

text \<open>\<open>lost k\<close> tells whether the heartbeat has reported the loss of the claim before the \<open>k\<close>-th await.\<close>

definition assert_reconcile_claim :: "write_service \<Rightarrow> scheduler \<Rightarrow> (nat \<Rightarrow> bool) \<Rightarrow> claim_lease \<Rightarrow> (write_error, unit) service" where
  "assert_reconcile_claim V W lost lease \<sigma> =
     (if lost (fst \<sigma>) then (write_err ''write_reconcile_claim_lost'', \<sigma>) else
      bindS (await_claims W (\<lambda>now. memory_renew_fenced_claim now lease (ws_lease_seconds V))) (\<lambda>r.
      liftS (if r = Inr True then Inr () else write_err ''write_reconcile_claim_lost'')) \<sigma>)"

datatype reconcile_outcome = RReturned json | RRaised handler_error | RCancelled

definition fence_members :: "claim_lease \<Rightarrow> jdict" where
  "fence_members lease = [(''fencingToken'', JInt (cl_generation lease)), (''fencingScope'', JStr (cl_resource_id lease))]"

definition reconcile_transition :: "claim_lease \<Rightarrow> write_state \<Rightarrow> string \<Rightarrow> jdict \<Rightarrow> write_transition" where
  "reconcile_transition lease required ty data = \<lparr>wt_required_state = required, wt_event_type = ty, wt_data = data @ fence_members lease,
     wt_fenced_claim = Some lease, wt_lease_seconds = None\<rparr>"

definition reconcile_body ::
  "host \<Rightarrow> write_service \<Rightarrow> scheduler \<Rightarrow> (nat \<Rightarrow> bool) \<Rightarrow> (write_operation \<Rightarrow> reconcile_outcome) \<Rightarrow> claim_lease \<Rightarrow> write_operation
     \<Rightarrow> (write_error, write_operation) service" where
  "reconcile_body H V W lost handler lease record =
     (let id = (''writeId'', JStr (wo_write_id record)) in
      bindS (if wo_state record = WrOutcomeUnknown
             then finish_transition H V W (reconcile_transition lease WrOutcomeUnknown ''write_reconciling'' [id]) record
             else if wo_state record = WrReconciling
             then finish_transition H V W (reconcile_transition lease WrReconciling ''write_reconcile_reentered'' [id]) record
             else liftS (write_err ''write_not_uncertain'')) (\<lambda>w.
      let claimed = w\<lparr>wo_fencing_token := Some (cl_generation lease), wo_fencing_scope := Some (cl_resource_id lease)\<rparr> in
      case handler claimed of
        RCancelled \<Rightarrow> liftS (Inl (Raised WCancelled))
      | RRaised err \<Rightarrow>
          bindS (assert_reconcile_claim V W lost lease) (\<lambda>_.
          bindS (finish_transition H V W (reconcile_transition lease WrReconciling ''write_reconcile_failed''
            [id, (''reason'', JStr ''reconciliation_handler_error'')]) claimed) (\<lambda>_.
          liftS (Inl (Raised (WHandler err)))))
      | RReturned v \<Rightarrow>
          bindS (assert_reconcile_claim V W lost lease) (\<lambda>_.
          let (ty, result) = reconcile_event v in
          finish_transition H V W (reconcile_transition lease WrReconciling ty [id, (''result'', JObj result)]) claimed)))"

definition reconcile_write ::
  "host \<Rightarrow> write_service \<Rightarrow> scheduler \<Rightarrow> (nat \<Rightarrow> bool) \<Rightarrow> string \<Rightarrow> string \<Rightarrow> (write_operation \<Rightarrow> reconcile_outcome)
     \<Rightarrow> (write_error, write_operation) service" where
  "reconcile_write H V W lost owner wid handler =
     bindS (get_write H W wid) (\<lambda>record.
     bindS (liftS (as_store (fenced_claim_resource_id H ''write_reconcile'' (wo_session_id record) (Some (wo_operation_id record)) (Some wid)))) (\<lambda>rid.
     bindS (await_claims W (\<lambda>now. memory_acquire_fenced_claim now ''write_reconcile'' rid owner (ws_lease_seconds V))) (\<lambda>acquired.
     bindS (liftS (as_store acquired)) (\<lambda>lease.
     case lease of
       None \<Rightarrow> liftS (write_err ''write_reconcile_claimed'')
     | Some l \<Rightarrow> finallyS (reconcile_body H V W lost handler l record)
         (await_claims W (\<lambda>now. memory_release_fenced_claim l))))))"

end
