(* ===== verification/Write_Agreement.thy ===== *)
theory Write_Agreement
  imports Write_Service Approval_Agreement
begin

text \<open>
  A write is replayed twice, too: the reducer of operations keeps a snapshot of it, and \<open>_replay_write\<close> of the write service computes its own
  record, with a stricter view of the fencing of a reconciliation. This theory shows that the two agree.
\<close>

section \<open>What the reducer does to a write\<close>

lemma exchange_keeps_writes:
  "on_message_appended s d = Inr s' \<Longrightarrow> os_writes s' = os_writes s"
  "on_model_policy_selected H s d = Inr s' \<Longrightarrow> os_writes s' = os_writes s"
  "on_model_request_started H s d = Inr s' \<Longrightarrow> os_writes s' = os_writes s"
  "on_model_request_finished H s ty d = Inr s' \<Longrightarrow> os_writes s' = os_writes s"
  unfolding on_message_appended_def on_model_policy_selected_def on_model_request_started_def
    on_model_request_finished_def
  by (force simp: bindE_eq_Inr case_none_raise_eq_Inr split: if_splits)+

lemma tool_keeps_writes:
  "on_tool_intent_recorded H s d = Inr s' \<Longrightarrow> os_writes s' = os_writes s"
  "on_tool_dispatch_started H s d = Inr s' \<Longrightarrow> os_writes s' = os_writes s"
  "on_tool_reconcile_started s d = Inr s' \<Longrightarrow> os_writes s' = os_writes s"
  "on_tool_result s ty d = Inr s' \<Longrightarrow> os_writes s' = os_writes s"
  "on_operation_finished H s d = Inr s' \<Longrightarrow> os_writes s' = os_writes s"
  unfolding on_tool_intent_recorded_def on_tool_dispatch_started_def on_tool_reconcile_started_def
    on_tool_result_def on_operation_finished_def Let_def bindE_eq_Inr case_none_raise_eq_Inr
  by fastforce+

lemma approval_handler_writes:
  "on_approval_requested s aid d = Inr s' \<Longrightarrow> os_writes s' = os_writes s"
  "on_approval_resume_registered H s aid c d = Inr s' \<Longrightarrow> os_writes s' = os_writes s"
  "on_approval_rejected s aid c = Inr s' \<Longrightarrow> os_writes s' = os_writes s"
  "on_approval_expired s aid c = Inr s' \<Longrightarrow> os_writes s' = os_writes s"
  "on_approval_resume_cancelled s aid c = Inr s' \<Longrightarrow> os_writes s' = os_writes s"
  "on_approval_granted s aid c = Inr s' \<Longrightarrow> os_writes s' = os_writes s"
  "on_approval_consumed H s aid c d = Inr s' \<Longrightarrow> os_writes s' = os_writes s"
  "on_approval_resume_started H s aid c d = Inr s' \<Longrightarrow> os_writes s' = os_writes s"
  "on_approval_resume_reentered s aid c d = Inr s' \<Longrightarrow> os_writes s' = os_writes s"
  "on_approval_resume_completed H s aid c d = Inr s' \<Longrightarrow> os_writes s' = os_writes s"
  "on_approval_resume_failed s aid c d = Inr s' \<Longrightarrow> os_writes s' = os_writes s"
  by (auto dest!: approval_handler_state resume_handler_state)

lemma approval_keeps_writes: "reduce_approval_event H s e = Inr s' \<Longrightarrow> os_writes s' = os_writes s"
  unfolding reduce_approval_event_def Let_def bindE_eq_Inr
  by (elim if_InrE exE conjE) (auto simp: case_none_raise_eq_Inr bindE_eq_Inr elim!: if_InrE dest: approval_handler_writes)

lemma other_dispatch_writes:
  "\<not> startswith (ev_type e) ''write_'' \<Longrightarrow> dispatch_event H s e = Inr s' \<Longrightarrow> os_writes s' = os_writes s"
  unfolding dispatch_event_def Let_def
  by (elim if_Inr_condE) (auto dest: exchange_keeps_writes tool_keeps_writes approval_keeps_writes)

lemma write_dispatch: "startswith (ev_type e) ''write_'' \<Longrightarrow> dispatch_event H s e = reduce_write_event H s e"
  by (cases "ev_type e") (auto simp: dispatch_event_def Let_def startswith_def)

text \<open>The snapshot each handler leaves, and the state it needs.\<close>

lemma write_handler_fields:
  "on_write_waiting_approval H s wid c d = Inr s' \<Longrightarrow> \<exists>ph aid. s' = set_write s wid (c\<lparr>wr_state := WrWaitingApproval, wr_approval_id := Some aid\<rparr>) ph \<and>
     wr_state c = WrPrepared \<and> jget d ''approvalId'' = JStr aid"
  "on_write_approved H s wid c d = Inr s' \<Longrightarrow> \<exists>ph. s' = set_write s wid (c\<lparr>wr_state := WrApproved\<rparr>) ph \<and> wr_state c \<in> {WrPrepared, WrWaitingApproval}"
  "on_write_submitting s wid c = Inr s' \<Longrightarrow> \<exists>ph. s' = set_write s wid (c\<lparr>wr_state := WrSubmitting\<rparr>) ph \<and> wr_state c = WrApproved"
  "on_write_outcome_unknown s wid c = Inr s' \<Longrightarrow> \<exists>ph. s' = set_write s wid (c\<lparr>wr_state := WrOutcomeUnknown\<rparr>) ph \<and> wr_state c = WrSubmitting"
  unfolding on_write_waiting_approval_def on_write_approved_def on_write_submitting_def on_write_outcome_unknown_def
    bindE_eq_Inr case_none_raise_eq_Inr
  by (fastforce simp: text_field_ok)+

lemma write_end_fields:
  "on_write_succeeded s wid c d = Inr s' \<Longrightarrow> \<exists>ph r. s' = set_write s wid (c\<lparr>wr_state := WrSucceeded, wr_result := Some r\<rparr>) ph \<and>
     wr_state c \<in> {WrSubmitting, WrReconciling}"
  "on_write_failed s wid c d = Inr s' \<Longrightarrow> \<exists>ph r. s' = set_write s wid (c\<lparr>wr_state := WrFailed, wr_result := Some r\<rparr>) ph \<and>
     (wr_state c \<in> {WrSubmitting, WrReconciling} \<or> wr_state c = WrWaitingApproval \<and> jget d ''reason'' = JStr ''approval_not_granted'')"
  unfolding on_write_succeeded_def on_write_failed_def Let_def bindE_eq_Inr by (fastforce split: if_splits)+

lemma write_reconcile_fields:
  "on_write_reconciling s wid c d = Inr s' \<Longrightarrow> \<exists>ph t. s' = set_write s wid (c\<lparr>wr_state := WrReconciling, wr_reconcile_fencing_token := t\<rparr>) ph \<and>
     wr_state c = WrOutcomeUnknown \<and> optional_fencing_token d = Inr t"
  "on_write_reconcile_reentered s wid c d = Inr s' \<Longrightarrow> \<exists>ph t. s' = set_write s wid (c\<lparr>wr_reconcile_fencing_token := Some t\<rparr>) ph \<and>
     wr_state c = WrReconciling \<and> optional_fencing_token d = Inr (Some t) \<and> (\<forall>old. wr_reconcile_fencing_token c = Some old \<longrightarrow> old < t)"
  "on_write_reconcile_failed s wid c d = Inr s' \<Longrightarrow> \<exists>ph. s' = set_write s wid (c\<lparr>wr_state := WrOutcomeUnknown\<rparr>) ph \<and> wr_state c = WrReconciling"
  "on_write_reconcile_deferred s wid c d = Inr s' \<Longrightarrow> \<exists>ph r. s' = set_write s wid (c\<lparr>wr_state := WrOutcomeUnknown, wr_result := Some r\<rparr>) ph \<and>
     wr_state c = WrReconciling"
  unfolding on_write_reconciling_def on_write_reconcile_reentered_def on_write_reconcile_failed_def on_write_reconcile_deferred_def
    required_fencing_token_def bindE_eq_Inr
  by (fastforce split: option.splits)+

lemmas write_fields = write_handler_fields write_end_fields write_reconcile_fields

section \<open>The agreement\<close>

definition write_agrees :: "write_operation \<Rightarrow> write_snapshot \<Rightarrow> bool" where
  "write_agrees w c \<longleftrightarrow> wo_write_id w = wr_write_id c \<and> wo_state w = wr_state c \<and> wo_tool_name w = wr_tool_name c \<and>
     py_dict (wo_arguments w) = (Inr (wr_arguments c) :: (log_fault, jdict) result) \<and> wo_action_hash w = wr_action_hash c \<and>
     wo_idempotency_key_hash w = wr_idempotency_key_hash c \<and> wo_idempotency_hash_version w = wr_idempotency_hash_version c \<and>
     wo_entity_id w = wr_entity_id c \<and> wo_expected_entity_version w = wr_expected_entity_version c \<and>
     wo_tool_call_id w = wr_tool_call_id c \<and> wo_approval_id w = wr_approval_id c \<and>
     wo_reconcile_fencing_token w = wr_reconcile_fencing_token c"

definition write_replays_match :: "write_operation option \<Rightarrow> write_snapshot option \<Rightarrow> bool" where
  "write_replays_match wo co \<longleftrightarrow> (case (wo, co) of (None, None) \<Rightarrow> True | (Some w, Some c) \<Rightarrow> write_agrees w c | _ \<Rightarrow> False)"

text \<open>The errors of the service that a log the reducer accepts cannot cause.\<close>

definition state_error :: "write_error exc \<Rightarrow> bool" where
  "state_error f \<longleftrightarrow> f \<in> Raised ` WriteErr ` {''invalid_write_transition'', ''duplicate_write'', ''stale_write_fencing_token'',
     ''invalid_expected_entity_version'', ''write_not_found''}"

lemma need_state_ok [simp]: "need_state xs w = Inr u \<longleftrightarrow> wo_state w \<in> set xs"
  by (simp add: need_state_def)

lemma required_pair_token:
  assumes "required_fence_pair d = Inr (t, sc)"
  shows "optional_fencing_token d = Inr (Some t)"
  using assms by (auto simp: required_fence_pair_def event_fencing_token_def optional_fencing_token_def Let_def write_err_def exc_simps
      split: option.splits if_splits)

lemma other_write:
  assumes "reduce_write_event H s e = Inr s'" "jget (ev_data e) ''writeId'' \<noteq> JStr wid"
  shows "map_of (os_writes s') wid = map_of (os_writes s) wid"
proof -
  from assms(1) obtain wid' where wid': "jget (ev_data e) ''writeId'' = JStr wid'"
    by (auto simp: reduce_write_event_def Let_def bindE_eq_Inr text_field_ok)
  with assms(2) have "wid' \<noteq> wid" by auto
  show ?thesis
  proof (cases "ev_type e = ''write_prepared''")
    case True
    with assms(1) wid' \<open>wid' \<noteq> wid\<close> show ?thesis
      by (auto simp: reduce_write_event_def Let_def text_field_ok exc_simps on_write_prepared_def)
  next
    case False
    with assms(1) wid' \<open>wid' \<noteq> wid\<close> show ?thesis
      by (auto simp: reduce_write_event_def Let_def text_field_ok exc_simps split: if_splits option.splits dest!: write_fields)
  qed
qed

lemma prepared_match:
  assumes "reduce_write_event H s e = Inr s'" "ev_type e = ''write_prepared''" "jget (ev_data e) ''writeId'' = JStr wid"
    and "replay_write_event H wid e wo = Inr wo'"
  shows "write_replays_match wo' (map_of (os_writes s') wid)"
proof -
  from assms(1-3) obtain c where c: "prepared_write H wid (ev_data e) = Inr c" "map_of (os_writes s') wid = Some c"
    by (auto simp: reduce_write_event_def Let_def text_field_ok exc_simps on_write_prepared_def)
  from assms(2-4) obtain w where w: "prepared_operation H wid e = Inr w" "wo' = Some w"
    by (auto simp: replay_write_event_def exc_simps)
  from c(1) w(1) have "write_agrees w c"
    by (auto simp: prepared_write_def prepared_operation_def Let_def exc_simps text_field_ok str_field_text write_agrees_def write_err_def
        split: if_splits option.splits)
  with c w show ?thesis by (simp add: write_replays_match_def)
qed

lemma change_match:
  assumes "reduce_write_event H s e = Inr s'" "ev_type e \<noteq> ''write_prepared''" "jget (ev_data e) ''writeId'' = JStr wid"
    and "change_write H e w = Inr w'" "map_of (os_writes s) wid = Some c" "write_agrees w c"
  shows "\<exists>c'. map_of (os_writes s') wid = Some c' \<and> write_agrees w' c'"
  using assms
  by (auto simp: reduce_write_event_def text_field_ok Let_def exc_simps change_write_def end_write_def reenter_write_def
      write_agrees_def str_field_text split: if_splits prod.splits dest!: write_fields required_pair_token)

lemma write_types: "\<not> startswith ty ''write_'' \<Longrightarrow> ev_type e = ty \<Longrightarrow> change_write H e w = Inr w"
  by (auto simp: change_write_def startswith_def Let_def)

lemma write_step_match:
  assumes "dispatch_event H s e = Inr s'" "replay_write_event H wid e wo = Inr wo'" "write_replays_match wo (map_of (os_writes s) wid)"
  shows "write_replays_match wo' (map_of (os_writes s') wid)"
proof (cases "jget (ev_data e) ''writeId'' = JStr wid")
  case mine: True
  show ?thesis
  proof (cases "startswith (ev_type e) ''write_''")
    case True
    with assms(1) have red: "reduce_write_event H s e = Inr s'" by (simp add: write_dispatch)
    show ?thesis
    proof (cases "ev_type e = ''write_prepared''")
      case True
      with red mine assms(2) show ?thesis by (auto intro: prepared_match)
    next
      case False
      with assms(2) mine obtain w w' where w: "wo = Some w" "wo' = Some w'" "change_write H e w = Inr w'"
        by (auto simp: replay_write_event_def exc_simps write_err_def split: option.splits)
      with assms(3) obtain c where c: "map_of (os_writes s) wid = Some c" "write_agrees w c"
        by (auto simp: write_replays_match_def split: option.splits)
      from change_match[OF red False mine w(3) c] w(2) show ?thesis by (auto simp: write_replays_match_def)
    qed
  next
    case False
    then have "ev_type e \<noteq> ''write_prepared''" by (auto simp: startswith_def)
    with assms(2) mine False have "wo' = wo"
      by (auto simp: replay_write_event_def exc_simps write_err_def write_types split: option.splits)
    with assms other_dispatch_writes[OF False assms(1)] show ?thesis by simp
  qed
next
  case False
  then have "wo' = wo" using assms(2) by (simp add: replay_write_event_def)
  moreover have "map_of (os_writes s') wid = map_of (os_writes s) wid"
    using assms(1) False other_dispatch_writes[of e H s s'] other_write[of H s e s' wid]
    by (cases "startswith (ev_type e) ''write_''") (auto simp: write_dispatch)
  ultimately show ?thesis using assms(3) by simp
qed

text \<open>The service refuses no state transition that the reducer accepts.\<close>

lemma state_error_simps [simp]:
  "\<not> state_error (Builtin b)" "\<not> state_error (Raised (WStore f))"
  "state_error (Raised (WriteErr c)) \<longleftrightarrow> c \<in> {''invalid_write_transition'', ''duplicate_write'', ''stale_write_fencing_token'',
     ''invalid_expected_entity_version'', ''write_not_found''}"
  by (auto simp: state_error_def)

lemma finite_time_error: "finite_time v = Inl f \<Longrightarrow> \<exists>b. f = Builtin b"
  by (auto simp: finite_time_def py_float_int_def Let_def exc_simps split: json.splits pyfloat.splits if_splits)

lemma authorization_error: "authorization_from_dict H a = Inl f \<Longrightarrow> \<exists>b. f = Builtin b"
  by (auto simp: authorization_from_dict_def authorization_post_init_def exc_simps dest!: finite_time_error split: json.splits)

lemma py_iter_error: "py_iter v = (Inl f :: ('f, json list) result) \<Longrightarrow> \<exists>b. f = Builtin b"
  by (cases v) auto

lemma py_pair_error: "py_pair v = (Inl f :: ('f, string \<times> json) result) \<Longrightarrow> \<exists>b. f = Builtin b"
  by (cases v rule: py_pair.cases) (auto split: json.splits)

lemma mapE_error: "mapE g xs = Inl f \<Longrightarrow> \<exists>x \<in> set xs. g x = Inl f"
  by (induction xs) (auto simp: exc_simps)

lemma event_result_error: "event_result d = Inl f \<Longrightarrow> \<not> state_error f"
proof -
  have "\<exists>b. f = Builtin b" if "py_dict v = Inl f" for v
    using that by (cases v) (auto simp: exc_simps dest!: py_iter_error py_pair_error mapE_error)
  then show "event_result d = Inl f \<Longrightarrow> \<not> state_error f" unfolding event_result_def by fastforce
qed

lemma fence_pair_error: "required_fence_pair d = Inl f \<Longrightarrow> \<not> state_error f"
  by (auto simp: required_fence_pair_def event_fencing_token_def event_fencing_scope_def write_err_def Let_def exc_simps
      split: option.splits if_splits json.splits)

lemma scope_error: "validate_canonical_scope H w sc = Inl f \<Longrightarrow> \<not> state_error f"
  by (auto simp: validate_canonical_scope_def canonical_reconcile_scope_def as_store_def catchE_def exc_simps split: sum.splits exc.splits)

lemma terminal_fence_error: "validate_terminal_fence H w d = Inl f \<Longrightarrow> \<not> state_error f"
  by (auto simp: validate_terminal_fence_def write_err_def exc_simps split: option.splits prod.splits dest: fence_pair_error scope_error)

lemma change_error:
  assumes "reduce_write_event H s e = Inr s'" "ev_type e \<noteq> ''write_prepared''" "jget (ev_data e) ''writeId'' = JStr wid"
    and "change_write H e w = Inl f" "map_of (os_writes s) wid = Some c" "write_agrees w c"
  shows "\<not> state_error f"
proof
  assume f: "state_error f"
  have need: "\<And>xs. need_state xs w = Inl f \<Longrightarrow> wr_state c \<notin> set xs" using assms(6) by (simp add: need_state_def write_agrees_def)
  show False
    using assms f
    by (auto simp: reduce_write_event_def text_field_ok Let_def exc_simps change_write_def end_write_def reenter_write_def
        write_agrees_def split: if_splits prod.splits
        dest!: write_fields need dest: event_result_error fence_pair_error scope_error terminal_fence_error)
      (auto dest: required_pair_token split: option.splits)
qed

lemma write_step_error:
  assumes "dispatch_event H s e = Inr s'" "replay_write_event H wid e wo = Inl f" "write_replays_match wo (map_of (os_writes s) wid)"
  shows "\<not> state_error f"
proof (cases "ev_type e = ''write_prepared''")
  case True
  then have red: "reduce_write_event H s e = Inr s'" using assms(1) by (simp add: write_dispatch startswith_def)
  have mine: "jget (ev_data e) ''writeId'' = JStr wid" using assms(2) by (auto simp: replay_write_event_def split: if_splits)
  from red True mine obtain c where c: "prepared_write H wid (ev_data e) = Inr c" "map_of (os_writes s) wid = None"
    by (auto simp: reduce_write_event_def Let_def text_field_ok exc_simps on_write_prepared_def)
  with assms(3) have "wo = None" by (auto simp: write_replays_match_def split: option.splits)
  with assms(2) True mine have "prepared_operation H wid e = Inl f" by (auto simp: replay_write_event_def exc_simps)
  with c(1) show ?thesis
    by (auto simp: prepared_operation_def prepared_write_def Let_def exc_simps write_err_def
        dest!: authorization_error py_int_error split: if_splits option.splits json.splits)
next
  case other: False
  show ?thesis
  proof (cases wo)
    case None
    with assms(2) other show ?thesis by (auto simp: replay_write_event_def write_err_def split: if_splits)
  next
    case (Some w)
    with assms(2) other have w: "jget (ev_data e) ''writeId'' = JStr wid" "change_write H e w = Inl f"
      by (auto simp: replay_write_event_def exc_simps split: if_splits)
    from assms(3) Some obtain c where c: "map_of (os_writes s) wid = Some c" "write_agrees w c"
      by (auto simp: write_replays_match_def split: option.splits)
    have "startswith (ev_type e) ''write_''" using w(2) write_types by fastforce
    then have "reduce_write_event H s e = Inr s'" using assms(1) by (simp add: write_dispatch)
    from change_error[OF this other w c] show ?thesis .
  qed
qed

lemma write_fold_match:
  "foldE (reduce_opt H) es None = Inr (Some s) \<Longrightarrow>
     (case foldE (replay_write_event H wid) es None of Inl f \<Rightarrow> \<not> state_error f
      | Inr wo \<Rightarrow> write_replays_match wo (map_of (os_writes s) wid))"
proof (induction rule: log_induct)
  case (first e s)
  then show ?case
    by (auto simp: on_operation_started_def exc_simps replay_write_event_def write_replays_match_def write_err_def split: sum.splits)
next
  case (further es s e s')
  then have d: "dispatch_event H (s\<lparr>os_last_sequence := ev_sequence e\<rparr>) e = Inr s'" by (simp add: reduce_some_ok)
  show ?case
  proof (cases "foldE (replay_write_event H wid) es None")
    case (Inl f)
    with further.IH show ?thesis by (simp add: foldE_append)
  next
    case (Inr wo)
    with further.IH have "write_replays_match wo (map_of (os_writes (s\<lparr>os_last_sequence := ev_sequence e\<rparr>)) wid)" by simp
    with write_step_match[OF d _ this] write_step_error[OF d _ this] Inr show ?thesis
      by (auto simp: foldE_append bindE_def split: sum.splits)
  qed
qed

lemma write_replay_match:
  assumes "replay_operation H es = Inr s" "sorted (map ev_sequence es)" "replay_write H es wid = Inr w"
  shows "\<exists>c. map_of (os_writes s) wid = Some c \<and> write_agrees w c"
proof -
  have "foldE (reduce_opt H) es None = Inr (Some s)" using assms by (simp add: replay_fold sort_key_id_if_sorted)
  from write_fold_match[OF this, of wid] assms(3) show ?thesis
    by (auto simp: replay_write_def write_err_def exc_simps write_replays_match_def split: sum.splits option.splits)
qed

text \<open>
  C26: the record the write service computes from a log agrees with the reducer. On the log of an operation that replays, in the
  order of its sequence numbers, the record has the state, tool, arguments, action hash, idempotency hash, entity and approval of the reducer's snapshot;
  the service reports a missing write only if the reducer has none, and it refuses no state transition the
  reducer accepts: it can only fail on the stricter fencing of a reconciliation, on a stray event before the preparation, or on malformed data.
\<close>

theorem write_replays_agree:
  assumes "replay_operation H es = Inr s" and "sorted (map ev_sequence es)"
  shows "case replay_write H es wid of
      Inr w \<Rightarrow> (\<exists>c. map_of (os_writes s) wid = Some c \<and> write_agrees w c)
    | Inl f \<Rightarrow> \<not> state_error f \<or> f = Raised (WriteErr ''write_not_found'') \<and> map_of (os_writes s) wid = None"
proof -
  have fold: "foldE (reduce_opt H) es None = Inr (Some s)"
    using assms by (simp add: replay_fold sort_key_id_if_sorted)
  show ?thesis
  proof (cases "foldE (replay_write_event H wid) es None")
    case (Inl f)
    from write_fold_match[OF fold, of wid] Inl show ?thesis by (simp add: replay_write_def)
  next
    case (Inr wo)
    with write_fold_match[OF fold, of wid] show ?thesis
      by (auto simp: replay_write_def write_err_def write_replays_match_def split: option.splits)
  qed
qed

lemma sample_write_checks:
  "sorted (map ev_sequence (sample_events 14)) \<and> isOk (replay_operation log_host (sample_events 14)) \<and>
   (case replay_write log_host (sample_events 14) ''w'' of Inr w \<Rightarrow> wo_state w = WrSubmitting \<and> wo_approval_id w = Some ''a'' | Inl _ \<Rightarrow> False)"
  by code_simp

theorem write_replays_agree_witness:
  "\<exists>s w c. replay_operation log_host (sample_events 14) = Inr s \<and> replay_write log_host (sample_events 14) ''w'' = Inr w \<and>
     map_of (os_writes s) ''w'' = Some c \<and> wr_state c = WrSubmitting \<and> wr_approval_id c = Some ''a''"
proof -
  from sample_write_checks obtain s w where s: "replay_operation log_host (sample_events 14) = Inr s" "sorted (map ev_sequence (sample_events 14))"
    and w: "replay_write log_host (sample_events 14) ''w'' = Inr w" "wo_state w = WrSubmitting" "wo_approval_id w = Some ''a''"
    by (auto simp: isOk_iff split: sum.splits)
  from write_replays_agree[OF s, of "''w''"] w s(1) show ?thesis by (auto simp: write_agrees_def)
qed

end
