(* ===== verification/Write_Theorems.thy ===== *)
theory Write_Theorems
  imports Write_Agreement
begin

text \<open>
  The calls of the write service among other workers. Inside \<open>durable_client\<close> every loop and every operation gets its contract: the
  log is only extended, all logs stay replayable, a record comes from its preparation, a claimed write has its submission stored at
  the version it was decided on, and what a finished transition reports is stored.
\<close>

section \<open>Records come from their preparation\<close>

text \<open>What never changes of a write.\<close>

definition fixed_part :: "write_operation \<Rightarrow> write_operation" where
  "fixed_part w = w\<lparr>wo_state := WrPrepared, wo_approval_id := None, wo_result := None, wo_fencing_token := None, wo_fencing_scope := None,
     wo_reconcile_fencing_token := None, wo_reconcile_fencing_scope := None\<rparr>"

lemma fixed_part_eqD:
  assumes "fixed_part w = fixed_part w'"
  shows "wo_write_id w = wo_write_id w'" "wo_session_id w = wo_session_id w'" "wo_operation_id w = wo_operation_id w'"
    "wo_tool_name w = wo_tool_name w'" "wo_arguments w = wo_arguments w'" "wo_action_hash w = wo_action_hash w'"
    "wo_idempotency_key_hash w = wo_idempotency_key_hash w'" "wo_requester_id w = wo_requester_id w'"
    "wo_idempotency_hash_version w = wo_idempotency_hash_version w'" "wo_entity_id w = wo_entity_id w'"
    "wo_expected_entity_version w = wo_expected_entity_version w'" "wo_business_preconditions w = wo_business_preconditions w'"
    "wo_tool_call_id w = wo_tool_call_id w'" "wo_trusted_authorization w = wo_trusted_authorization w'"
  using assms by (cases w; cases w'; simp add: fixed_part_def)+

lemma fixed_part_updates [simp]:
  "fixed_part (w\<lparr>wo_state := a\<rparr>) = fixed_part w" "fixed_part (w\<lparr>wo_approval_id := b\<rparr>) = fixed_part w"
  "fixed_part (w\<lparr>wo_result := c\<rparr>) = fixed_part w" "fixed_part (w\<lparr>wo_fencing_token := d\<rparr>) = fixed_part w"
  "fixed_part (w\<lparr>wo_fencing_scope := e\<rparr>) = fixed_part w" "fixed_part (w\<lparr>wo_reconcile_fencing_token := f\<rparr>) = fixed_part w"
  "fixed_part (w\<lparr>wo_reconcile_fencing_scope := g\<rparr>) = fixed_part w"
  by (simp_all add: fixed_part_def)

lemma change_write_fixed: "change_write H e w = Inr w' \<Longrightarrow> fixed_part w' = fixed_part w"
  unfolding change_write_def Let_def
  by (elim if_Inr_condE) (auto simp: end_write_def reenter_write_def exc_simps split: prod.splits)

definition write_of :: "host \<Rightarrow> string \<Rightarrow> operation_event list \<Rightarrow> write_operation \<Rightarrow> bool" where
  "write_of H wid es w \<longleftrightarrow> (\<exists>e \<in> set es. ev_type e = ''write_prepared'' \<and> jget (ev_data e) ''writeId'' = JStr wid \<and>
     (\<exists>w0. prepared_operation H wid e = Inr w0 \<and> fixed_part w = fixed_part w0))"

lemma write_of_mono: "write_of H wid es w \<Longrightarrow> set es \<subseteq> set fs \<Longrightarrow> write_of H wid fs w"
  unfolding write_of_def by blast

lemma write_of_fixed: "write_of H wid es w \<Longrightarrow> fixed_part w' = fixed_part w \<Longrightarrow> write_of H wid es w'"
  unfolding write_of_def by metis

lemma replay_write_of:
  assumes "replay_write H es wid = Inr w"
  shows "write_of H wid es w"
proof -
  from assms have f: "foldE (replay_write_event H wid) es None = Inr (Some w)"
    by (auto simp: replay_write_def write_err_def exc_simps split: option.splits)
  have "\<forall>y. Some w = Some y \<longrightarrow> write_of H wid es y"
  proof (rule foldE_invariant[OF f])
    fix e wo wo' assume e: "e \<in> set es" and IH: "\<forall>y. wo = Some y \<longrightarrow> write_of H wid es y"
      and step: "replay_write_event H wid e wo = Inr wo'"
    from step consider "wo' = wo"
      | (prep) w where "wo' = Some w" "ev_type e = ''write_prepared''" "jget (ev_data e) ''writeId'' = JStr wid" "prepared_operation H wid e = Inr w"
      | (change) w w' where "wo = Some w" "wo' = Some w'" "change_write H e w = Inr w'"
      by (auto simp: replay_write_event_def exc_simps write_err_def split: if_splits option.splits)
    then show "\<forall>y. wo' = Some y \<longrightarrow> write_of H wid es y"
    proof cases
      case prep
      with e show ?thesis by (auto simp: write_of_def)
    next
      case change
      with IH change_write_fixed[OF change(3)] show ?thesis by (auto intro: write_of_fixed)
    qed (use IH in simp)
  qed simp
  then show ?thesis by simp
qed

lemma write_of_prepared:
  assumes "write_of H wid es w"
  obtains q where "q \<in> set es" "ev_type q = ''write_prepared''" "jget (ev_data q) ''writeId'' = JStr wid"
    "wo_write_id w = wid" "wo_session_id w = ev_session_id q" "wo_operation_id w = ev_operation_id q"
    "wo_arguments w = jget_or (ev_data q) ''arguments'' (JObj [])" "wo_action_hash w = str_field H (ev_data q) ''actionHash''"
    "wo_tool_name w = str_field H (ev_data q) ''toolName''" "wo_requester_id w = str_field H (ev_data q) ''requesterId''"
    "wo_idempotency_key_hash w = str_field H (ev_data q) ''idempotencyKeyHash''"
proof -
  from assms obtain q w0 where q: "q \<in> set es" "ev_type q = ''write_prepared''" "jget (ev_data q) ''writeId'' = JStr wid"
    and w0: "prepared_operation H wid q = Inr w0" "fixed_part w = fixed_part w0" unfolding write_of_def by blast
  from w0(1) have "wo_write_id w0 = wid" "wo_session_id w0 = ev_session_id q" "wo_operation_id w0 = ev_operation_id q"
    "wo_arguments w0 = jget_or (ev_data q) ''arguments'' (JObj [])" "wo_action_hash w0 = str_field H (ev_data q) ''actionHash''"
    "wo_tool_name w0 = str_field H (ev_data q) ''toolName''" "wo_requester_id w0 = str_field H (ev_data q) ''requesterId''"
    "wo_idempotency_key_hash w0 = str_field H (ev_data q) ''idempotencyKeyHash''"
    by (auto simp: prepared_operation_def Let_def exc_simps)
  with q fixed_part_eqD[OF w0(2)] that show thesis by simp
qed

lemma write_of_ids:
  assumes "write_of H wid es w" "\<And>e. e \<in> set es \<Longrightarrow> of_operation sid op e"
  shows "wo_write_id w = wid \<and> wo_session_id w = sid \<and> wo_operation_id w = op"
  using write_of_prepared[OF assms(1)] assms(2) by (metis of_operation_def)

text \<open>Two stored events with the same text in a constrained field are the same event.\<close>

lemma unique_event:
  assumes "(ty, k) \<in> set unique_constraints" "unique_facts H es" "q \<in> set es" "q' \<in> set es" "ev_type q = ty" "ev_type q' = ty"
    and "jget (ev_data q) k = JStr v" "jget (ev_data q') k = JStr v"
  shows "q' = q"
proof -
  let ?P = "\<lambda>e. ev_type e = ty \<and> jget (ev_data e) k \<noteq> JNull"
  from assms(1,2) have "distinct (map (\<lambda>e. py_str H (jget (ev_data e) k)) (filter ?P es))"
    by (auto simp: unique_facts_def known_facts_def)
  then have "inj_on (\<lambda>e. py_str H (jget (ev_data e) k)) (set (filter ?P es))" by (simp add: distinct_map)
  then show ?thesis by (rule inj_onD) (use assms in auto)
qed

lemma unique_preparation:
  assumes "unique_facts H es" "q \<in> set es" "q' \<in> set es" "ev_type q = ''write_prepared''" "ev_type q' = ''write_prepared''"
    and "jget (ev_data q) ''writeId'' = JStr wid" "jget (ev_data q') ''writeId'' = JStr wid"
  shows "q' = q"
  by (rule unique_event[of "''write_prepared''" "''writeId''"]) (use assms in \<open>simp_all add: unique_constraints_def\<close>)

section \<open>A committed batch\<close>

lemma bindS_liftS: "bindS (liftS (Inr x)) f = f x" "bindS (liftS (Inl e)) f = liftS (Inl e)"
  by (intro ext, simp add: bindS_def liftS_def)+

definition committed ::
  "host \<Rightarrow> scheduler \<Rightarrow> string \<Rightarrow> string \<Rightarrow> operation_event list \<Rightarrow> event_spec list \<Rightarrow> commit_scope \<Rightarrow> memory_store \<Rightarrow> memory_store \<Rightarrow> bool" where
  "committed H W sid op events specs c st st' \<longleftrightarrow>
     (\<exists>clock old. evolves H st old \<and> evolves H old st' \<and> ms_events st' = ms_events old @ batch_events clock sid op (length (ms_events old)) specs \<and>
        (logs_ok H st \<longrightarrow> filter (of_operation sid op) (ms_events old) = events) \<and>
        (\<forall>l. co_fenced_claim c = Some l \<longrightarrow> (\<exists>k. lease_current (ms_claims old) l (sc_now W k)))) \<and>
     (\<forall>d. co_deadline c = Some d \<longrightarrow> (\<exists>k. wall_ms W k < d))"

lemma committed_log:
  assumes "committed H W sid op events specs c st st'" "logs_ok H st"
  obtains clock n where "filter (of_operation sid op) (ms_events st') = events @ batch_events clock sid op n specs"
  using assms unfolding committed_def by (auto simp: filter_batch)

lemma committed_new_fact:
  assumes "committed H W sid op events specs c st1 st2" "evolves H st st1" "spec \<in> set specs"
  shows "new_fact st st2 sid op spec"
proof -
  from assms(1) obtain clock old where old: "evolves H st1 old"
    "ms_events st2 = ms_events old @ batch_events clock sid op (length (ms_events old)) specs" unfolding committed_def by blast
  from evolves_trans[OF assms(2) old(1)] have len: "length (ms_events st) \<le> length (ms_events old)" by (auto simp: evolves_def)
  have "\<exists>e \<in> set (batch_events clock sid op n specs). of_operation sid op e \<and> ev_type e = fst spec \<and> ev_data e = snd spec" for n
    using assms(3) by (induction specs arbitrary: n) (auto simp: of_operation_def)
  with old(2) len show ?thesis by (auto simp: new_fact_def)
qed

context durable_client
begin

lemma append_committed:
  assumes "loaded sid op events st" "replay_operation_with_specs H now events specs = Inr s"
    and "append_checks H (wall_ms W k) (ms_events (sc_env W k st)) sid op specs (Some (operation_last_sequence events)) (co_deadline c) = Inr ()"
    and "ms_events st' = ms_events (sc_env W k st) @ batch_events clock sid op (length (ms_events (sc_env W k st))) specs"
    and "\<And>l. co_fenced_claim c = Some l \<Longrightarrow> lease_current (ms_claims (sc_env W k st)) l (sc_now W k)"
  shows "evolves H st st' \<and> committed H W sid op events specs c st st'"
proof
  show "evolves H st st'" using append_stored[OF assms(1-4)] by simp
  from loaded_evolves[OF assms(1) others] obtain es ext where es: "ms_events (sc_env W k st) = es @ ext" "events = filter (of_operation sid op) es"
    unfolding loaded_def by blast
  have "filter (of_operation sid op) (ms_events (sc_env W k st)) = events" if "logs_ok H st"
  proof -
    have "numbered (es @ ext)" using that others[of st k] es(1) by (simp add: evolves_def logs_ok_def)
    moreover have "last_operation_sequence (es @ ext) sid op = last_operation_sequence es sid op"
      using assms(3) by (simp add: es append_checks_def check_expected_def exc_simps last_sequence_load)
    ultimately show ?thesis using same_version_same_log es by metis
  qed
  moreover have "evolves H (sc_env W k st) st'"
    by (rule append_evolves[OF loaded_evolves[OF assms(1) others] assms(2-4)])
  moreover have "\<forall>d. co_deadline c = Some d \<longrightarrow> (\<exists>k. wall_ms W k < d)"
    using assms(3) by (auto simp: append_checks_def check_deadline_def exc_simps)
  ultimately show "committed H W sid op events specs c st st'"
    unfolding committed_def using others[of st k] assms(4,5) by blast
qed

lemma after_commit:
  assumes "loaded sid op events (snd \<sigma>)" "replay_operation_with_specs H now events specs = Inr s"
    and "\<And>r st. evolves H (snd \<sigma>) st \<Longrightarrow> (isOk r \<Longrightarrow> committed H W sid op events specs c (snd \<sigma>) st) \<Longrightarrow> Q (Inr r) (Suc (fst \<sigma>), st)"
  shows "after (await_commit H W sid op events specs c) \<sigma> Q"
proof (cases "co_fenced_claim c")
  case None
  obtain r st where m: "memory_append_batch H (sc_stamp W (fst \<sigma>)) (wall_ms W (fst \<sigma>)) sid op specs
      (Some (operation_last_sequence events)) (co_deadline c) (sc_env W (fst \<sigma>) (snd \<sigma>)) = (r, st)" by fastforce
  then have "evolves H (snd \<sigma>) st \<and> (isOk r \<longrightarrow> committed H W sid op events specs c (snd \<sigma>) st)"
  proof (cases rule: memory_append_batch_cases)
    case stored
    with None append_committed[OF assms(1,2) stored(4)] show ?thesis by simp
  qed (use others in simp)
  with assms(3)[of st r] m None show ?thesis by (simp add: after_def await_commit_def await_append_batch_def)
next
  case (Some lease)
  obtain r st where m: "memory_append_batch_if_fenced_claim H (sc_stamp W (fst \<sigma>)) (wall_ms W (fst \<sigma>)) (sc_now W (fst \<sigma>)) sid op specs
      lease (co_lease_seconds c) (Some (operation_last_sequence events)) (co_deadline c) (co_entity_id c) (sc_env W (fst \<sigma>) (snd \<sigma>)) = (r, st)"
    by fastforce
  then have "evolves H (snd \<sigma>) st \<and> (isOk r \<longrightarrow> committed H W sid op events specs c (snd \<sigma>) st)"
  proof (cases rule: memory_append_fenced_cases)
    case stored
    with Some append_committed[OF assms(1,2) stored(4)] show ?thesis by simp
  qed (use others in simp)
  with assms(3)[of st r] m Some show ?thesis by (simp add: after_def await_commit_def await_append_fenced_def)
qed

lemma after_validate_write:
  assumes "\<And>s now. replay_operation_with_specs H now events specs = Inr s \<Longrightarrow> Q (Inr s) \<sigma>" "\<And>e. Q (Inl e) \<sigma>"
  shows "after (validate_write_specs H W events specs) \<sigma> Q"
  using assms
  by (cases "replay_operation_with_specs H (wall_ms W (fst \<sigma>)) events specs")
    (auto simp: validate_write_specs_def as_log_def catchE_def split: exc.splits)

text \<open>Validate against a loaded log, commit at its version, go on with the answer of the store.\<close>

lemma after_checked_commit:
  assumes "loaded sid op events (snd \<sigma>)" "\<And>e. Q (Inl e) \<sigma>"
    and "\<And>r st. evolves H (snd \<sigma>) st \<Longrightarrow> (isOk r \<Longrightarrow> committed H W sid op events specs c (snd \<sigma>) st) \<Longrightarrow> after (g r) (Suc (fst \<sigma>), st) Q"
  shows "after (bindS (validate_write_specs H W events specs) (\<lambda>_. bindS (await_commit H W sid op events specs c) g)) \<sigma> Q"
  unfolding after_bindS
proof (rule after_validate_write)
  fix s now assume v: "replay_operation_with_specs H now events specs = Inr s"
  show "case Inr s of Inl e \<Rightarrow> Q (Inl e) \<sigma> | Inr _ \<Rightarrow> after (await_commit H W sid op events specs c) \<sigma>
      (\<lambda>r \<sigma>'. case r of Inl e \<Rightarrow> Q (Inl e) \<sigma>' | Inr y \<Rightarrow> after (g y) \<sigma>' Q)"
    unfolding sum.case by (rule after_commit[OF assms(1) v]) (simp add: assms(3))
qed (simp add: assms(2))

lemma after_load_write:
  assumes "\<And>st e. evolves H (snd \<sigma>) st \<Longrightarrow> Q (Inl e) (Suc (fst \<sigma>), st)"
    and "\<And>st w. evolves H (snd \<sigma>) st \<Longrightarrow> loaded sid op (memory_load (Some sid) (Some op) st) st \<Longrightarrow>
      replay_write H (memory_load (Some sid) (Some op) st) wid = Inr w \<Longrightarrow>
      write_of H wid (ms_events st) w \<Longrightarrow> wo_write_id w = wid \<Longrightarrow> wo_session_id w = sid \<Longrightarrow> wo_operation_id w = op \<Longrightarrow>
      after (f (memory_load (Some sid) (Some op) st) w) (Suc (fst \<sigma>), st) Q"
  shows "after (bindS (await_load W (Some sid) (Some op)) (\<lambda>events.
    bindS (liftS (replay_write H events wid)) (\<lambda>w. f events w))) \<sigma> Q"
  unfolding after_bindS
proof (rule after_load, simp split: sum.splits, intro conjI allI impI)
  fix st w assume st: "evolves H (snd \<sigma>) st" and w: "replay_write H (memory_load (Some sid) (Some op) st) wid = Inr w"
  have "write_of H wid (memory_load (Some sid) (Some op) st) w" using w by (rule replay_write_of)
  moreover from this have "wo_write_id w = wid \<and> wo_session_id w = sid \<and> wo_operation_id w = op"
    by (rule write_of_ids) (simp add: load_of_operation)
  moreover have "set (memory_load (Some sid) (Some op) st) \<subseteq> set (ms_events st)" by (auto simp: load_of_operation)
  ultimately show "after (f (memory_load (Some sid) (Some op) st) w) (Suc (fst \<sigma>), st) Q"
    using assms(2)[OF st loaded_load w] write_of_mono by blast
qed (rule assms(1))

end

section \<open>Transitions\<close>

definition succeeds :: "string \<Rightarrow> operation_event \<Rightarrow> bool" where
  "succeeds wid e \<longleftrightarrow> ev_type e = ''write_succeeded'' \<and> jget (ev_data e) ''writeId'' = JStr wid"

lemma change_write_succeeded:
  "change_write H e w = Inr w' \<Longrightarrow> wo_state w' = WrSucceeded \<Longrightarrow> wo_state w = WrSucceeded \<or> ev_type e = ''write_succeeded''"
  unfolding change_write_def Let_def
  by (elim if_Inr_condE) (auto simp: end_write_def reenter_write_def exc_simps split: prod.splits)

lemma succeeded_event:
  assumes "replay_write H es wid = Inr w" "wo_state w = WrSucceeded"
  shows "\<exists>e \<in> set es. succeeds wid e"
proof -
  from assms(1) have f: "foldE (replay_write_event H wid) es None = Inr (Some w)"
    by (auto simp: replay_write_def write_err_def exc_simps split: option.splits)
  have "\<forall>y. Some w = Some y \<longrightarrow> wo_state y = WrSucceeded \<longrightarrow> (\<exists>e \<in> set es. succeeds wid e)"
  proof (rule foldE_invariant[OF f])
    fix e wo wo' assume e: "e \<in> set es" and IH: "\<forall>y. wo = Some y \<longrightarrow> wo_state y = WrSucceeded \<longrightarrow> (\<exists>e \<in> set es. succeeds wid e)"
      and step: "replay_write_event H wid e wo = Inr wo'"
    from step consider "wo' = wo" | (prep) w where "wo' = Some w" "prepared_operation H wid e = Inr w"
      | (change) w w' where "wo = Some w" "wo' = Some w'" "change_write H e w = Inr w'" "jget (ev_data e) ''writeId'' = JStr wid"
      by (auto simp: replay_write_event_def exc_simps write_err_def split: if_splits option.splits)
    then show "\<forall>y. wo' = Some y \<longrightarrow> wo_state y = WrSucceeded \<longrightarrow> (\<exists>e \<in> set es. succeeds wid e)"
    proof cases
      case prep
      then show ?thesis by (auto simp: prepared_operation_def Let_def exc_simps)
    next
      case change
      with IH e change_write_succeeded[OF change(3)] show ?thesis by (auto simp: succeeds_def)
    qed (use IH in simp)
  qed simp
  with assms(2) show ?thesis by simp
qed

text \<open>A call that extends the log and returns a record of the write, if it returns.\<close>

definition gives_write :: "host \<Rightarrow> string \<Rightarrow> memory_store \<Rightarrow> write_operation write_result \<Rightarrow> call_state \<Rightarrow> bool" where
  "gives_write H wid st r \<sigma>' \<longleftrightarrow> evolves H st (snd \<sigma>') \<and> (\<forall>w. r = Inr w \<longrightarrow> write_of H wid (ms_events (snd \<sigma>')) w)"

text \<open>A lease that was current at some time of the call.\<close>

definition lease_held :: "host \<Rightarrow> scheduler \<Rightarrow> claim_lease \<Rightarrow> memory_store \<Rightarrow> memory_store \<Rightarrow> bool" where
  "lease_held H W l st st' \<longleftrightarrow> (\<exists>old k. evolves H st old \<and> evolves H old st' \<and> lease_current (ms_claims old) l (sc_now W k))"

text \<open>A transition that stores its event, under its lease, if it returns; a success may be found stored already.\<close>

definition finished ::
  "host \<Rightarrow> scheduler \<Rightarrow> write_transition \<Rightarrow> write_operation \<Rightarrow> memory_store \<Rightarrow> write_operation write_result \<Rightarrow> call_state \<Rightarrow> bool" where
  "finished H W tr record st r \<sigma>' \<longleftrightarrow> evolves H st (snd \<sigma>') \<and> (\<forall>w. r = Inr w \<longrightarrow> write_of H (wo_write_id record) (ms_events (snd \<sigma>')) w \<and>
     (new_fact st (snd \<sigma>') (wo_session_id record) (wo_operation_id record) (wt_event_type tr, wt_data tr) \<and>
        (\<forall>l. wt_fenced_claim tr = Some l \<longrightarrow> lease_held H W l st (snd \<sigma>')) \<or>
      wt_event_type tr = ''write_succeeded'' \<and>
        (\<exists>e \<in> set (ms_events (snd \<sigma>')). of_operation (wo_session_id record) (wo_operation_id record) e \<and> succeeds (wo_write_id record) e)))"

lemma finished_failed: "evolves H st (snd \<sigma>) \<Longrightarrow> finished H W tr record st (Inl e) \<sigma>"
  by (simp add: finished_def)

lemma lease_held_committed:
  assumes "committed H W sid op events specs c st1 st2" "co_fenced_claim c = Some l" "evolves H st st1" "evolves H st2 st3"
  shows "lease_held H W l st st3"
  using assms unfolding committed_def lease_held_def by (blast intro: evolves_trans)

context durable_client
begin

lemma reload_write:
  assumes "evolves H st (snd \<sigma>)"
  shows "after (bindS (await_load W (Some sid) (Some op)) (\<lambda>events. liftS (replay_write H events wid))) \<sigma> (gives_write H wid st)"
proof -
  have "after (bindS (await_load W (Some sid) (Some op)) (\<lambda>events.
      bindS (liftS (replay_write H events wid)) (\<lambda>x. liftS (Inr x)))) \<sigma> (gives_write H wid st)"
    by (rule after_load_write) (auto simp: gives_write_def intro: evolves_trans[OF assms])
  moreover have "bindS (liftS r) (\<lambda>x. liftS (Inr x)) = liftS r" for r :: "write_operation write_result"
    by (intro ext) (simp add: bindS_def liftS_def split: sum.splits)
  ultimately show ?thesis by simp
qed

lemma get_write_spec:
  assumes "evolves H st (snd \<sigma>)"
  shows "after (get_write H W wid) \<sigma> (gives_write H wid st)"
  unfolding get_write_def after_bindS
proof (rule after_load)
  fix st1 assume "evolves H (snd \<sigma>) st1"
  with assms have st1: "evolves H st st1" by (rule evolves_trans)
  have "set (memory_load None None st1) \<subseteq> set (ms_events st1)" by (auto simp: memory_load_def load_filter_def)
  with st1 show "case Inr (memory_load None None st1) of Inl e \<Rightarrow> gives_write H wid st (Inl e) (Suc (fst \<sigma>), st1)
    | Inr events \<Rightarrow> after (liftS (replay_write H events wid)) (Suc (fst \<sigma>), st1)
        (\<lambda>r \<sigma>'. case r of Inl e \<Rightarrow> gives_write H wid st (Inl e) \<sigma>' | Inr w \<Rightarrow>
          after (liftS (as_log (replay_operation H (filter (of_operation (wo_session_id w) (wo_operation_id w)) events)))) \<sigma>'
            (\<lambda>r \<sigma>'. case r of Inl e \<Rightarrow> gives_write H wid st (Inl e) \<sigma>' | Inr _ \<Rightarrow> after (liftS (Inr w)) \<sigma>' (gives_write H wid st)))"
    by (auto simp: gives_write_def split: sum.splits intro: write_of_mono dest!: replay_write_of)
qed

lemma get_write_then:
  assumes "evolves H st (snd \<sigma>)" "\<And>e \<sigma>'. evolves H st (snd \<sigma>') \<Longrightarrow> Q (Inl e) \<sigma>'"
    and "\<And>w \<sigma>'. evolves H st (snd \<sigma>') \<Longrightarrow> write_of H wid (ms_events (snd \<sigma>')) w \<Longrightarrow> after (f w) \<sigma>' Q"
  shows "after (bindS (get_write H W wid) f) \<sigma> Q"
  unfolding after_bindS
  by (rule after_mono[OF get_write_spec[OF assms(1)]]) (auto simp: gives_write_def assms(2,3) split: sum.splits)

lemma finish_loop_spec:
  "evolves H st (snd \<sigma>) \<Longrightarrow> after (finish_loop H V W n tr record) \<sigma> (finished H W tr record st)"
proof (induction n arbitrary: \<sigma>)
  case 0
  then show ?case by (simp add: finished_failed write_err_def)
next
  case (Suc n)
  show ?case unfolding finish_loop.simps Let_def
  proof (rule after_load_write, goal_cases)
    case (2 st1 w)
    let ?events = "memory_load (Some (wo_session_id record)) (Some (wo_operation_id record)) st1"
    let ?specs = "[(wt_event_type tr, wt_data tr)]"
    have st: "evolves H st st1" using Suc.prems 2(1) by (rule evolves_trans)
    have here: "finished H W tr record st (Inr w) (Suc (fst \<sigma>), st1)" if "wt_event_type tr = ''write_succeeded''" "wo_state w = WrSucceeded"
      using succeeded_event[OF 2(3) that(2)] st 2(4) that by (auto simp: finished_def load_of_operation)
    show ?case
    proof (intro after_if)
      show "after (bindS (validate_write_specs H W ?events ?specs) (\<lambda>_. bindS (liftS (transition_entity tr w)) (\<lambda>entity.
          bindS (await_commit H W (wo_session_id w) (wo_operation_id w) ?events ?specs
            \<lparr>co_fenced_claim = wt_fenced_claim tr, co_lease_seconds = renew_seconds V (wt_lease_seconds tr), co_entity_id = entity, co_deadline = None\<rparr>)
          (\<lambda>r. case r of Inl (Raised f) \<Rightarrow> if claim_lost_fault f then liftS (write_err ''write_fenced_claim_lost'')
                 else if conflict_fault f then finish_loop H V W n tr record else liftS (Inl (Raised (WStore f)))
             | Inl (Builtin b) \<Rightarrow> liftS (Inl (Builtin b))
             | Inr _ \<Rightarrow> bindS (await_load W (Some (wo_session_id w)) (Some (wo_operation_id w))) (\<lambda>events.
                 liftS (replay_write H events (wo_write_id w))))))) (Suc (fst \<sigma>), st1) (finished H W tr record st)"
      proof (cases "transition_entity tr w")
        case (Inl e)
        have "after (bindS (validate_write_specs H W ?events ?specs) (\<lambda>_. liftS (Inl e))) (Suc (fst \<sigma>), st1) (finished H W tr record st)"
          unfolding after_bindS by (rule after_validate_write) (use st in \<open>auto simp: finished_failed\<close>)
        with Inl show ?thesis by (simp only: bindS_liftS)
      next
        case (Inr entity)
        show ?thesis unfolding Inr bindS_liftS
        proof (rule after_checked_commit)
          fix r :: "(store_fault, operation_event list) result" and st2
          assume e2: "evolves H (snd (Suc (fst \<sigma>), st1)) st2"
            and c2: "isOk r \<Longrightarrow> committed H W (wo_session_id w) (wo_operation_id w) ?events ?specs
              \<lparr>co_fenced_claim = wt_fenced_claim tr, co_lease_seconds = renew_seconds V (wt_lease_seconds tr), co_entity_id = entity, co_deadline = None\<rparr>
              (snd (Suc (fst \<sigma>), st1)) st2"
          let ?\<sigma> = "(Suc (fst (Suc (fst \<sigma>), st1)), st2)"
          have st2: "evolves H st (snd ?\<sigma>)" using st e2 by (auto intro: evolves_trans)
          have ready: "after (bindS (await_load W (Some (wo_session_id w)) (Some (wo_operation_id w))) (\<lambda>events.
              liftS (replay_write H events (wo_write_id w)))) ?\<sigma> (finished H W tr record st)" if "isOk r"
          proof (rule after_mono[OF reload_write[of st2]])
            fix r' and \<sigma>' :: call_state assume g: "gives_write H (wo_write_id w) st2 r' \<sigma>'"
            then have e3: "evolves H st2 (snd \<sigma>')" by (simp add: gives_write_def)
            have "new_fact st (snd \<sigma>') (wo_session_id record) (wo_operation_id record) (wt_event_type tr, wt_data tr)"
              using new_fact_evolves[OF committed_new_fact[OF c2[OF that]] e3] st 2(6,7) by simp
            moreover have "lease_held H W l st (snd \<sigma>')" if "wt_fenced_claim tr = Some l" for l
              using lease_held_committed[OF c2[OF \<open>isOk r\<close>] _ _ e3] st that by simp
            ultimately show "finished H W tr record st r' \<sigma>'"
              using evolves_trans[OF _ e3, of st] st2 g 2(5) by (auto simp: finished_def gives_write_def)
          qed simp
          show "after (case r of Inl (Raised f) \<Rightarrow> if claim_lost_fault f then liftS (write_err ''write_fenced_claim_lost'')
                 else if conflict_fault f then finish_loop H V W n tr record else liftS (Inl (Raised (WStore f)))
             | Inl (Builtin b) \<Rightarrow> liftS (Inl (Builtin b))
             | Inr _ \<Rightarrow> bindS (await_load W (Some (wo_session_id w)) (Some (wo_operation_id w))) (\<lambda>events.
                 liftS (replay_write H events (wo_write_id w)))) ?\<sigma> (finished H W tr record st)"
            using Suc.IH[OF st2] ready st2
            by (auto simp del: after_bindS intro: finished_failed simp: write_err_def split: sum.splits exc.splits)
        qed (use 2(2,6,7) st in \<open>auto simp: finished_failed\<close>)
      qed
    qed (use st here in \<open>auto simp: finished_failed write_err_def\<close>)
  qed (use Suc.prems in \<open>auto intro!: finished_failed intro: evolves_trans\<close>)
qed

lemma finish_spec: "evolves H st (snd \<sigma>) \<Longrightarrow> after (finish_transition H V W tr record) \<sigma> (finished H W tr record st)"
  unfolding finish_transition_def by (rule finish_loop_spec)

end

section \<open>Claims\<close>

definition submit_spec :: "verified_identity \<Rightarrow> write_operation \<Rightarrow> event_spec" where
  "submit_spec actor w = (''write_submitting'', [(''writeId'', JStr (wo_write_id w)), (''actorId'', JStr (vi_principal_id actor)),
     (''actorVerificationId'', JStr (vi_verification_id actor))])"

text \<open>The log a claim leaves: what it was decided on, followed by its batch.\<close>

definition claim_log ::
  "host \<Rightarrow> scheduler \<Rightarrow> execute_args \<Rightarrow> verified_identity \<Rightarrow> write_operation \<Rightarrow> operation_event list \<Rightarrow> bool" where
  "claim_log H W x actor w lg \<longleftrightarrow> (\<exists>events clock n specs deadline current.
     lg = events @ batch_events clock (wo_session_id w) (wo_operation_id w) n specs \<and>
     replay_write H events (wo_write_id w) = Inr current \<and> claim_specs H events x actor current = Inr (specs, deadline) \<and>
     (\<forall>d. deadline = Some d \<longrightarrow> (\<exists>k. wall_ms W k < d)) \<and> w = current\<lparr>wo_state := WrSubmitting\<rparr>)"

definition claimed ::
  "host \<Rightarrow> scheduler \<Rightarrow> execute_args \<Rightarrow> verified_identity \<Rightarrow> write_operation \<Rightarrow> memory_store \<Rightarrow> claim_outcome write_result \<Rightarrow> call_state \<Rightarrow> bool" where
  "claimed H W x actor record st r \<sigma>' \<longleftrightarrow> evolves H st (snd \<sigma>') \<and>
     (\<forall>w. r = Inr (AlreadySucceeded w) \<longrightarrow> write_of H (wo_write_id record) (ms_events (snd \<sigma>')) w \<and>
        (\<exists>e \<in> set (ms_events (snd \<sigma>')). of_operation (wo_session_id record) (wo_operation_id record) e \<and> succeeds (wo_write_id record) e)) \<and>
     (\<forall>w. r = Inr (Claimed w) \<longrightarrow> write_of H (wo_write_id record) (ms_events (snd \<sigma>')) w \<and>
        wo_write_id w = wo_write_id record \<and> wo_session_id w = wo_session_id record \<and> wo_operation_id w = wo_operation_id record \<and>
        new_fact st (snd \<sigma>') (wo_session_id w) (wo_operation_id w) (submit_spec actor w) \<and>
        (\<forall>l. xa_fenced_claim x = Some l \<longrightarrow> lease_held H W l st (snd \<sigma>')) \<and>
        (logs_ok H st \<longrightarrow> claim_log H W x actor w (filter (of_operation (wo_session_id w) (wo_operation_id w)) (ms_events (snd \<sigma>')))))"

lemma claimed_failed: "evolves H st (snd \<sigma>) \<Longrightarrow> claimed H W x actor record st (Inl e) \<sigma>"
  by (simp add: claimed_def)

lemma claim_specs_submit: "claim_specs H events x actor w = Inr (specs, deadline) \<Longrightarrow> submit_spec actor w \<in> set specs"
  by (auto simp: claim_specs_def submit_spec_def exc_simps split: prod.splits)

context durable_client
begin

lemma claim_loop_spec:
  "evolves H st (snd \<sigma>) \<Longrightarrow> after (claim_loop H W n x actor secs entity record) \<sigma> (claimed H W x actor record st)"
proof (induction n arbitrary: \<sigma>)
  case 0
  then show ?case by (simp add: claimed_failed write_err_def)
next
  case (Suc n)
  show ?case unfolding claim_loop.simps Let_def
  proof (rule after_load_write, goal_cases)
    case (2 st1 w)
    let ?events = "memory_load (Some (wo_session_id record)) (Some (wo_operation_id record)) st1"
    have st: "evolves H st st1" using Suc.prems 2(1) by (rule evolves_trans)
    have here: "claimed H W x actor record st (Inr (AlreadySucceeded w)) (Suc (fst \<sigma>), st1)" if "wo_state w = WrSucceeded"
      using succeeded_event[OF 2(3) that] st 2(4) that by (auto simp: claimed_def load_of_operation)
    show ?case
    proof (intro after_if)
      show "after (bindS (liftS (claim_specs H ?events x actor w)) (\<lambda>(specs, deadline).
          bindS (validate_write_specs H W ?events specs) (\<lambda>_.
          bindS (await_commit H W (wo_session_id w) (wo_operation_id w) ?events specs
            \<lparr>co_fenced_claim = xa_fenced_claim x, co_lease_seconds = secs, co_entity_id = entity, co_deadline = deadline\<rparr>) (\<lambda>r.
          case r of Inl (Raised f) \<Rightarrow> if f = SfDeadline then liftS (Inl (Raised (WApproval AcExpired)))
              else if claim_lost_fault f then liftS (write_err ''write_fenced_claim_lost'')
              else if conflict_fault f then claim_loop H W n x actor secs entity record else liftS (Inl (Raised (WStore f)))
          | Inl (Builtin b) \<Rightarrow> liftS (Inl (Builtin b))
          | Inr _ \<Rightarrow> liftS (Inr (Claimed (w\<lparr>wo_state := WrSubmitting\<rparr>))))))) (Suc (fst \<sigma>), st1) (claimed H W x actor record st)"
      proof (cases "claim_specs H ?events x actor w")
        case (Inl e)
        with st show ?thesis by (simp add: bindS_liftS claimed_failed)
      next
        case (Inr sd)
        obtain specs deadline where sd: "sd = (specs, deadline)" by (rule prod.exhaust)
        show ?thesis unfolding Inr bindS_liftS sd prod.case
        proof (rule after_checked_commit)
          fix r :: "(store_fault, operation_event list) result" and st2
          let ?c = "\<lparr>co_fenced_claim = xa_fenced_claim x, co_lease_seconds = secs, co_entity_id = entity, co_deadline = deadline\<rparr>"
          assume e2: "evolves H (snd (Suc (fst \<sigma>), st1)) st2"
            and c2: "isOk r \<Longrightarrow> committed H W (wo_session_id w) (wo_operation_id w) ?events specs ?c (snd (Suc (fst \<sigma>), st1)) st2"
          let ?\<sigma> = "(Suc (fst (Suc (fst \<sigma>), st1)), st2)" and ?w = "w\<lparr>wo_state := WrSubmitting\<rparr>"
          have st2: "evolves H st (snd ?\<sigma>)" using st e2 by (auto intro: evolves_trans)
          have done': "claimed H W x actor record st (Inr (Claimed ?w)) ?\<sigma>" if "isOk r"
          proof -
            note c = c2[OF that, unfolded snd_conv]
            have "write_of H (wo_write_id record) (ms_events st2) ?w"
              using write_of_fixed[OF 2(4), of ?w] write_of_mono e2 evolves_member by (metis fixed_part_updates(1) snd_conv subsetI)
            moreover have "new_fact st st2 (wo_session_id w) (wo_operation_id w) (submit_spec actor ?w)"
              using committed_new_fact[OF c st] claim_specs_submit[OF Inr[unfolded sd]] by (simp add: submit_spec_def)
            moreover have "lease_held H W l st st2" if "xa_fenced_claim x = Some l" for l
              using lease_held_committed[OF c _ st evolves_refl] that by simp
            moreover have "claim_log H W x actor ?w (filter (of_operation (wo_session_id w) (wo_operation_id w)) (ms_events st2))" if "logs_ok H st"
            proof -
              have "logs_ok H st1" using st that by (simp add: evolves_def)
              from committed_log[OF c this] obtain clock m where
                "filter (of_operation (wo_session_id w) (wo_operation_id w)) (ms_events st2) =
                   ?events @ batch_events clock (wo_session_id w) (wo_operation_id w) m specs" .
              moreover have "\<forall>d. deadline = Some d \<longrightarrow> (\<exists>k. wall_ms W k < d)" using c by (simp add: committed_def)
              ultimately show ?thesis unfolding claim_log_def
                by (intro exI[of _ ?events] exI[of _ clock] exI[of _ m] exI[of _ specs] exI[of _ deadline] exI[of _ w])
                  (use 2(3,5) Inr sd in simp)
            qed
            ultimately show ?thesis using st2 2(5-7) by (simp add: claimed_def)
          qed
          show "after (case r of Inl (Raised f) \<Rightarrow> if f = SfDeadline then liftS (Inl (Raised (WApproval AcExpired)))
              else if claim_lost_fault f then liftS (write_err ''write_fenced_claim_lost'')
              else if conflict_fault f then claim_loop H W n x actor secs entity record else liftS (Inl (Raised (WStore f)))
            | Inl (Builtin b) \<Rightarrow> liftS (Inl (Builtin b))
            | Inr _ \<Rightarrow> liftS (Inr (Claimed ?w))) ?\<sigma> (claimed H W x actor record st)"
            using Suc.IH[OF st2] done' st2 by (auto intro: claimed_failed simp: write_err_def split: sum.splits exc.splits)
        qed (use 2(2,6,7) st in \<open>auto simp: claimed_failed\<close>)
      qed
    qed (use st here in \<open>auto simp: claimed_failed write_err_def\<close>)
  qed (use Suc.prems in \<open>auto intro!: claimed_failed intro: evolves_trans\<close>)
qed

end

section \<open>Execution\<close>

lemma after_tryS [simp]: "after (tryS m) \<sigma> Q \<longleftrightarrow> after m \<sigma> (\<lambda>r. Q (Inr r))"
  by (simp add: after_def tryS_def split: prod.splits)

lemma after_conj: "after m \<sigma> P \<Longrightarrow> after m \<sigma> Q \<Longrightarrow> after m \<sigma> (\<lambda>r \<sigma>'. P r \<sigma>' \<and> Q r \<sigma>')"
  by (auto simp: after_def)

lemma after_then:
  assumes "after m \<sigma> P" "\<And>e \<sigma>'. P (Inl e) \<sigma>' \<Longrightarrow> Q (Inl e) \<sigma>'" "\<And>x \<sigma>'. P (Inr x) \<sigma>' \<Longrightarrow> after (f x) \<sigma>' Q"
  shows "after (bindS m f) \<sigma> Q"
  unfolding after_bindS by (rule after_mono[OF assms(1)]) (auto simp: assms(2,3) split: sum.splits)

text \<open>
  What an execution reports of a dispatched write. A result means a stored success; a definite failure is reported only if the
  handler says that nothing was committed, and then it is stored; everything else is reported as unknown or cancelled.
\<close>

definition not_committed_spec :: "write_operation \<Rightarrow> handler_error \<Rightarrow> event_spec" where
  "not_committed_spec w err = (''write_failed'', [(''writeId'', JStr (wo_write_id w)), (''errorCode'', opt_str (he_code err)),
     (''definitelyNotCommitted'', JBool True)])"

definition unknown_spec :: "write_operation \<Rightarrow> handler_error \<Rightarrow> event_spec" where
  "unknown_spec w err = (''write_outcome_unknown'', outcome_unknown_data (wo_write_id w) err
     @ [(''reason'', JStr ''handler_exception_after_dispatch'')])"

definition write_settled ::
  "host \<Rightarrow> write_operation \<Rightarrow> handler_outcome \<Rightarrow> memory_store \<Rightarrow> write_operation write_result \<Rightarrow> call_state \<Rightarrow> bool" where
  "write_settled H w outcome st r \<sigma>' \<longleftrightarrow> evolves H st (snd \<sigma>') \<and> (case r of
     Inr w' \<Rightarrow> (\<exists>v. outcome = HReturned v) \<and> write_of H (wo_write_id w) (ms_events (snd \<sigma>')) w' \<and>
       (\<exists>e \<in> set (ms_events (snd \<sigma>')). of_operation (wo_session_id w) (wo_operation_id w) e \<and> succeeds (wo_write_id w) e)
   | Inl (Raised (WNotCommitted err)) \<Rightarrow> outcome = HNotCommitted err \<and>
       new_fact st (snd \<sigma>') (wo_session_id w) (wo_operation_id w) (not_committed_spec w err)
   | Inl (Raised (WHandler err)) \<Rightarrow> outcome = HRaised err \<and> he_outcome_unknown err \<and>
       new_fact st (snd \<sigma>') (wo_session_id w) (wo_operation_id w) (unknown_spec w err)
   | Inl (Raised (WriteUnknown code)) \<Rightarrow> outcome \<noteq> HCancelled
   | Inl (Raised WCancelled) \<Rightarrow> outcome = HCancelled
   | _ \<Rightarrow> False)"

text \<open>A claim that passed the checks of the service, made by a trusted actor on the record of the write.\<close>

definition claims ::
  "host \<Rightarrow> write_service \<Rightarrow> scheduler \<Rightarrow> string \<Rightarrow> execute_args \<Rightarrow> memory_store
     \<Rightarrow> (verified_identity \<times> rat \<times> claim_outcome) write_result \<Rightarrow> call_state \<Rightarrow> bool" where
  "claims H V W wid x st r \<sigma>' \<longleftrightarrow> evolves H st (snd \<sigma>') \<and> (\<forall>actor secs out. r = Inr (actor, secs, out) \<longrightarrow>
     (\<exists>record entity. write_of H wid (ms_events (snd \<sigma>')) record \<and> execute_checks H V x record = Inr (actor, secs, entity) \<and>
        claimed H W x actor record st (Inr out) \<sigma>'))"

lemma finished_succeeds:
  assumes "finished H W tr w st (Inr w') \<sigma>'" "wt_event_type tr = ''write_succeeded''" "jget (wt_data tr) ''writeId'' = JStr (wo_write_id w)"
  shows "\<exists>e \<in> set (ms_events (snd \<sigma>')). of_operation (wo_session_id w) (wo_operation_id w) e \<and> succeeds (wo_write_id w) e"
  using assms by (auto simp: finished_def new_fact_def succeeds_def dest!: in_set_dropD)

context durable_client
begin

lemma mark_spec:
  assumes "evolves H st (snd \<sigma>)"
  shows "after (mark_outcome_unknown H V W w reason fenced secs) \<sigma> (\<lambda>r \<sigma>'. evolves H st (snd \<sigma>'))"
  unfolding mark_outcome_unknown_def
proof (rule get_write_then[OF assms])
  fix w' and \<sigma>' :: call_state assume e: "evolves H st (snd \<sigma>')"
  have "after (finish_transition H V W tr w') \<sigma>' (\<lambda>r \<sigma>''. evolves H st (snd \<sigma>''))" for tr
    by (rule after_mono[OF finish_spec[OF e]]) (simp add: finished_def)
  with e show "after (if wo_state w' \<noteq> WrSubmitting then liftS (Inr ()) else
      bindS (finish_transition H V W \<lparr>wt_required_state = WrSubmitting, wt_event_type = ''write_outcome_unknown'',
       wt_data = [(''writeId'', JStr (wo_write_id w')), (''reason'', JStr reason)], wt_fenced_claim = fenced,
       wt_lease_seconds = secs\<rparr> w') (\<lambda>_. liftS (Inr ()))) \<sigma>' (\<lambda>r \<sigma>''. evolves H st (snd \<sigma>''))"
    by (intro after_if after_then[where P = "\<lambda>r \<sigma>''. evolves H st (snd \<sigma>'')"]) auto
qed

lemma settle_spec:
  assumes "evolves H st (snd \<sigma>)"
  shows "after (settle_write H V W fenced secs w outcome) \<sigma> (write_settled H w outcome st)"
proof -
  define finish where "finish ty data = finish_transition H V W \<lparr>wt_required_state = WrSubmitting, wt_event_type = ty, wt_data = data,
    wt_fenced_claim = fenced, wt_lease_seconds = Some secs\<rparr> w" for ty data
  have fin: "after (finish ty data) \<sigma> (finished H W \<lparr>wt_required_state = WrSubmitting, wt_event_type = ty, wt_data = data,
    wt_fenced_claim = fenced, wt_lease_seconds = Some secs\<rparr> w st)" for ty data
    unfolding finish_def by (rule finish_spec[OF assms])
  show ?thesis
  proof (cases outcome)
    case (HReturned v)
    have "after (finish ''write_succeeded'' [(''writeId'', JStr (wo_write_id w)), (''result'', v)]) \<sigma> (\<lambda>r \<sigma>'.
      after (case r of Inr done' \<Rightarrow> liftS (Inr done')
        | Inl _ \<Rightarrow> bindS (tryS (mark_outcome_unknown H V W w ''write_succeeded_persistence_failed'' fenced (Some secs))) (\<lambda>_.
              liftS (Inl (Raised (WriteUnknown ''write_success_persistence_unknown''))))) \<sigma>' (write_settled H w outcome st))"
    proof (rule after_mono[OF fin])
      fix r and \<sigma>' :: call_state
      assume f: "finished H W \<lparr>wt_required_state = WrSubmitting, wt_event_type = ''write_succeeded'',
        wt_data = [(''writeId'', JStr (wo_write_id w)), (''result'', v)], wt_fenced_claim = fenced, wt_lease_seconds = Some secs\<rparr> w st r \<sigma>'"
      then have e: "evolves H st (snd \<sigma>')" by (simp add: finished_def)
      have bad: "after (mark_outcome_unknown H V W w reason fenced (Some secs)) \<sigma>'
          (\<lambda>r. write_settled H w outcome st (Inl (Raised (WriteUnknown code))))" for reason code
        by (rule after_mono[OF mark_spec[OF e]]) (simp add: write_settled_def HReturned)
      show "after (case r of Inr done' \<Rightarrow> liftS (Inr done')
        | Inl _ \<Rightarrow> bindS (tryS (mark_outcome_unknown H V W w ''write_succeeded_persistence_failed'' fenced (Some secs))) (\<lambda>_.
              liftS (Inl (Raised (WriteUnknown ''write_success_persistence_unknown''))))) \<sigma>' (write_settled H w outcome st)"
      proof (cases r)
        case (Inr w')
        with finished_succeeds[OF f[unfolded Inr]] e f show ?thesis by (simp add: write_settled_def HReturned finished_def jget_def)
      qed (use bad in simp)
    qed
    then show ?thesis by (simp add: settle_write_def Let_def HReturned finish_def)
  next
    case HCancelled
    with mark_spec[OF assms] show ?thesis by (auto simp: settle_write_def write_settled_def elim!: after_mono)
  next
    case (HNotCommitted err)
    show ?thesis using fin[of "fst (not_committed_spec w err)" "snd (not_committed_spec w err)"]
      by (auto simp: settle_write_def Let_def HNotCommitted finish_def not_committed_spec_def write_settled_def finished_def isOk_iff elim!: after_mono)
  next
    case (HRaised err)
    show ?thesis using fin[of "fst (unknown_spec w err)" "snd (unknown_spec w err)"]
      by (auto simp: settle_write_def Let_def HRaised finish_def unknown_spec_def write_settled_def finished_def isOk_iff elim!: after_mono)
  qed
qed

lemma claim_write_spec:
  assumes "evolves H st (snd \<sigma>)"
  shows "after (claim_write H V W wid x) \<sigma> (claims H V W wid x st)"
  unfolding claim_write_def
proof (cases "handlers_ok x")
  case (Inr u)
  have "after (bindS (get_write H W wid) (\<lambda>rec. bindS (liftS (execute_checks H V x rec)) (\<lambda>(actor, secs, entity).
      bindS (claim_loop H W max_conflict_retries x actor secs entity rec) (\<lambda>out. liftS (Inr (actor, secs, out)))))) \<sigma>
    (claims H V W wid x st)"
  proof (rule get_write_then[OF assms])
    fix rec and \<sigma>1 :: call_state assume e1: "evolves H st (snd \<sigma>1)" and w: "write_of H wid (ms_events (snd \<sigma>1)) rec"
    show "after (bindS (liftS (execute_checks H V x rec)) (\<lambda>(actor, secs, entity).
      bindS (claim_loop H W max_conflict_retries x actor secs entity rec) (\<lambda>out. liftS (Inr (actor, secs, out))))) \<sigma>1
      (claims H V W wid x st)"
    proof (cases "execute_checks H V x rec")
      case (Inr c)
      obtain actor secs entity where c: "c = (actor, secs, entity)" by (rule prod_cases3)
      let ?P = "\<lambda>r \<sigma>'. claimed H W x actor rec st r \<sigma>' \<and> evolves H (snd \<sigma>1) (snd \<sigma>')"
      have loop: "after (claim_loop H W n x actor secs entity rec) \<sigma>1 ?P" for n
        by (rule after_conj[OF claim_loop_spec[OF e1] after_mono[OF claim_loop_spec[OF evolves_refl]]]) (simp add: claimed_def)
      show ?thesis unfolding Inr bindS_liftS c prod.case
      proof (rule after_then[OF loop])
        fix out and \<sigma>' :: call_state assume p: "?P (Inr out) \<sigma>'"
        then have "write_of H wid (ms_events (snd \<sigma>')) rec" using write_of_mono[OF w] evolves_member by blast
        moreover have "evolves H st (snd \<sigma>')" using p by (simp add: claimed_def)
        ultimately show "after (liftS (Inr (actor, secs, out))) \<sigma>' (claims H V W wid x st)"
          using p Inr c by (auto simp: claims_def)
      qed (simp add: claims_def claimed_def)
    qed (use e1 in \<open>simp add: claims_def\<close>)
  qed (simp add: claims_def)
  with Inr show "after (bindS (liftS (handlers_ok x)) (\<lambda>_. bindS (get_write H W wid) (\<lambda>rec. bindS (liftS (execute_checks H V x rec))
      (\<lambda>(actor, secs, entity). bindS (claim_loop H W max_conflict_retries x actor secs entity rec)
      (\<lambda>out. liftS (Inr (actor, secs, out))))))) \<sigma> (claims H V W wid x st)"
    by (simp only: bindS_liftS)
qed (use assms in \<open>simp add: claims_def\<close>)

text \<open>An execution either ends at its claim, or its handler ran on a claimed write and its outcome was settled.\<close>

lemma execute_cases:
  assumes "execute_write H V W wid x (k, st) = ((call, r), \<sigma>')" "evolves H st0 st"
  obtains (refused) e where "call = None" "r = Inl e" "evolves H st0 (snd \<sigma>')"
  | (known) actor secs w where "call = None" "r = Inr w" "claims H V W wid x st0 (Inr (actor, secs, AlreadySucceeded w)) \<sigma>'"
  | (ran) actor secs w outcome \<sigma>1 where "claims H V W wid x st0 (Inr (actor, secs, Claimed w)) \<sigma>1"
      "invoke_handler x actor w = (call, outcome)" "write_settled H w outcome (snd \<sigma>1) r \<sigma>'" "evolves H st0 (snd \<sigma>')"
proof -
  obtain c \<sigma>1 where c: "claim_write H V W wid x (k, st) = (c, \<sigma>1)" by (rule prod.exhaust)
  have cl: "claims H V W wid x st0 c \<sigma>1"
    by (rule afterD[OF claim_write_spec c]) (simp add: assms(2))
  show thesis
  proof (cases c)
    case (Inl e)
    with assms(1) c cl refused show thesis by (auto simp: execute_write_def claims_def)
  next
    case (Inr t)
    obtain actor secs out where t: "t = (actor, secs, out)" by (rule prod_cases3)
    show thesis
    proof (cases out)
      case (AlreadySucceeded w)
      with assms(1) c cl Inr t known show thesis by (auto simp: execute_write_def)
    next
      case (Claimed w)
      obtain call' outcome where i: "invoke_handler x actor w = (call', outcome)" by (rule prod.exhaust)
      obtain r' \<sigma>2 where s: "settle_write H V W (xa_fenced_claim x) secs w outcome \<sigma>1 = (r', \<sigma>2)" by (rule prod.exhaust)
      have se: "write_settled H w outcome (snd \<sigma>1) r' \<sigma>2" by (rule afterD[OF settle_spec s]) simp
      have eq: "call' = call" "r' = r" "\<sigma>2 = \<sigma>'" using assms(1) c Inr t Claimed i s by (auto simp: execute_write_def)
      have "evolves H st0 (snd \<sigma>1)" using cl by (simp add: claims_def)
      moreover have "evolves H (snd \<sigma>1) (snd \<sigma>')" using se eq by (simp add: write_settled_def)
      ultimately have "evolves H st0 (snd \<sigma>')" by (rule evolves_trans)
      with cl Inr t Claimed i se eq ran show thesis by blast
    qed
  qed
qed

end

end
