(* ===== verification/Write_Preparation.thy ===== *)
theory Write_Preparation
  imports Write_Theorems
begin

text \<open>
  The preparation of a write: what the stored event says is what the caller asked for, through the JSON data and the
  replay; a repeated preparation finds the first one; and the record a preparation returns is for the caller's action.
\<close>

section \<open>What a preparation stores\<close>

lemma option_json [simp]:
  "str_or_none H (opt_str v) = v" "(case opt_obj p of JObj d \<Rightarrow> Some d | _ \<Rightarrow> None) = p" "opt_int n = JNull \<longleftrightarrow> n = None"
  by (auto simp: str_or_none_def opt_str_def opt_obj_def opt_int_def split: option.splits)

lemma authorization_hash: "authorization_from_dict H v = Inr t \<Longrightarrow> ta_action_hash t = str_field H v ''actionHash''"
  unfolding authorization_from_dict_def authorization_post_init_def bindE_eq_Inr
  by (auto simp: exc_simps split: json.splits)

lemma authorization_dict_hash [simp]: "str_field H (authorization_to_dict t) ''actionHash'' = ta_action_hash t"
  by (simp add: authorization_to_dict_def str_field_def jget_or_def)

text \<open>The action of a record, as it is compared with the action of a later request.\<close>

definition semantic_of :: "host \<Rightarrow> write_operation \<Rightarrow> string" where
  "semantic_of H w = action_digest H (write_semantic_action (wo_tool_name w) (wo_arguments w) (wo_entity_id w) (wo_expected_entity_version w)
     (wo_business_preconditions w) (map_option ta_action_hash (wo_trusted_authorization w)))"

lemma same_action_ok: "same_idempotent_action H w d = Inr w' \<longleftrightarrow> w' = w \<and> semantic_of H w = d"
  by (auto simp: same_idempotent_action_def semantic_of_def exc_simps)

lemma semantic_of_fixed: "fixed_part w = fixed_part w' \<Longrightarrow> semantic_of H w = semantic_of H w'"
  by (simp add: semantic_of_def fixed_part_eqD[of w w'])

lemma prepared_fields:
  assumes "prepared_operation H wid q = Inr w" "ev_data q = write_prepared_data a wid' i digest key_hash"
  shows "wo_tool_name w = pa_tool_name a" "wo_arguments w = JObj (pa_arguments a)" "wo_entity_id w = pa_entity_id a"
    "wo_expected_entity_version w = pa_expected_entity_version a" "wo_business_preconditions w = pa_business_preconditions a"
    "map_option ta_action_hash (wo_trusted_authorization w) = map_option ta_action_hash (pa_trusted_authorization a)"
    "wo_requester_id w = vi_principal_id i" "wo_idempotency_key_hash w = key_hash" "wo_action_hash w = digest"
    "wo_tool_call_id w = pa_tool_call_id a" "wo_idempotency_hash_version w = scoped_hash_version"
proof -
  have get: "jget (ev_data q) ''expectedEntityVersion'' = opt_int (pa_expected_entity_version a)"
    "jget (ev_data q) ''trustedAuthorization'' = opt_obj (map_option authorization_to_dict (pa_trusted_authorization a))"
    "jget (ev_data q) ''businessPreconditions'' = opt_obj (pa_business_preconditions a)" "jget (ev_data q) ''entityId'' = opt_str (pa_entity_id a)"
    "jget (ev_data q) ''toolCallId'' = opt_str (pa_tool_call_id a)" "str_field H (ev_data q) ''toolName'' = pa_tool_name a"
    "str_field H (ev_data q) ''requesterId'' = vi_principal_id i" "str_field H (ev_data q) ''actionHash'' = digest"
    "str_field H (ev_data q) ''idempotencyKeyHash'' = key_hash" "jget_or (ev_data q) ''arguments'' (JObj []) = JObj (pa_arguments a)"
    "jget_or (ev_data q) ''idempotencyHashVersion'' (JInt 1) = JInt 2"
    unfolding assms(2) by (simp_all add: write_prepared_data_def jget_def jget_or_def str_field_def scoped_hash_version_def)
  show "wo_tool_name w = pa_tool_name a" "wo_arguments w = JObj (pa_arguments a)" "wo_entity_id w = pa_entity_id a"
    "wo_business_preconditions w = pa_business_preconditions a" "wo_requester_id w = vi_principal_id i" "wo_idempotency_key_hash w = key_hash"
    "wo_action_hash w = digest" "wo_tool_call_id w = pa_tool_call_id a" "wo_idempotency_hash_version w = scoped_hash_version"
    using assms(1) by (auto simp: prepared_operation_def Let_def get exc_simps scoped_hash_version_def)
  show "wo_expected_entity_version w = pa_expected_entity_version a"
    using assms(1) by (auto simp: prepared_operation_def Let_def get exc_simps opt_int_def write_err_def split: option.splits if_splits)
  show "map_option ta_action_hash (wo_trusted_authorization w) = map_option ta_action_hash (pa_trusted_authorization a)"
    using assms(1) by (auto simp: prepared_operation_def Let_def get exc_simps opt_obj_def authorization_hash split: option.splits)
qed

lemma prepared_semantic:
  assumes "prepared_operation H wid q = Inr w" "ev_data q = write_prepared_data a wid' i digest key_hash" "authorization_matches a = Inr ()"
  shows "semantic_of H w = semantic_digest H a"
proof -
  have "pa_authorization_action_hash a = map_option ta_action_hash (pa_trusted_authorization a)"
    using assms(3) by (auto simp: authorization_matches_def exc_simps write_err_def split: option.splits)
  then show ?thesis by (simp add: semantic_of_def semantic_digest_def prepared_fields[OF assms(1,2)])
qed

section \<open>Write events of a replayable log\<close>

definition has_text :: "string \<Rightarrow> operation_event \<Rightarrow> bool" where
  "has_text k e \<longleftrightarrow> (\<exists>s. jget (ev_data e) k = JStr s)"

lemma write_event_texts:
  "foldE (reduce_opt H) es None = Inr (Some s) \<Longrightarrow> \<forall>e \<in> set es. startswith (ev_type e) ''write_'' \<longrightarrow>
     has_text ''writeId'' e \<and> (ev_type e = ''write_prepared'' \<longrightarrow> has_text ''idempotencyKeyHash'' e)"
proof (induction rule: log_induct)
  case (first e s)
  then show ?case by (auto simp: on_operation_started_def exc_simps startswith_def)
next
  case (further es s e s')
  then have d: "dispatch_event H (s\<lparr>os_last_sequence := ev_sequence e\<rparr>) e = Inr s'" by (simp add: reduce_some_ok)
  have "has_text ''writeId'' e" if "startswith (ev_type e) ''write_''"
    using d that by (auto simp: write_dispatch reduce_write_event_def Let_def text_field_ok exc_simps has_text_def)
  moreover have "has_text ''idempotencyKeyHash'' e" if "ev_type e = ''write_prepared''"
  proof -
    have "startswith (ev_type e) ''write_''" using that by (simp add: startswith_def)
    from d[unfolded write_dispatch[OF this]] that obtain wid w where "prepared_write H wid (ev_data e) = Inr w"
      by (auto simp: reduce_write_event_def Let_def exc_simps on_write_prepared_def)
    then show ?thesis unfolding prepared_write_def bindE_eq_Inr text_field_ok has_text_def by blast
  qed
  ultimately show ?case using further.IH by auto
qed

lemma logs_write_texts:
  assumes "logs_ok H st" "e \<in> set (ms_events st)" "startswith (ev_type e) ''write_''"
  shows "has_text ''writeId'' e \<and> (ev_type e = ''write_prepared'' \<longrightarrow> has_text ''idempotencyKeyHash'' e)"
proof -
  let ?es = "filter (of_operation (ev_session_id e) (ev_operation_id e)) (ms_events st)"
  have e: "e \<in> set ?es" using assms(2) by (simp add: of_operation_def)
  then have "?es \<noteq> []" by force
  then obtain s where "replay_operation H ?es = Inr s" using assms(1) by (auto simp: logs_ok_def isOk_iff)
  from write_event_texts[OF this[unfolded replay_fold]] e assms(3) show ?thesis by (auto simp: set_sort)
qed

section \<open>The contract of a preparation\<close>

text \<open>A record of the caller's action, found or stored.\<close>

definition prepared_for :: "host \<Rightarrow> prepare_args \<Rightarrow> verified_identity \<Rightarrow> string list \<Rightarrow> write_operation \<Rightarrow> bool" where
  "prepared_for H a i hashes w \<longleftrightarrow> wo_session_id w = pa_session_id a \<and> wo_requester_id w = vi_principal_id i \<and>
     wo_tool_name w = pa_tool_name a \<and> wo_idempotency_key_hash w \<in> set hashes \<and> semantic_of H w = semantic_digest H a"

definition keyed :: "prepare_args \<Rightarrow> verified_identity \<Rightarrow> string list \<Rightarrow> operation_event \<Rightarrow> bool" where
  "keyed a i hashes q \<longleftrightarrow> ev_type q = ''write_prepared'' \<and> jget (ev_data q) ''idempotencyKeyHash'' \<in> set (map JStr hashes) \<and>
     ev_session_id q = pa_session_id a \<and> jget (ev_data q) ''requesterId'' = JStr (vi_principal_id i) \<and>
     jget (ev_data q) ''toolName'' = JStr (pa_tool_name a)"

lemma jget_str_field: "jget d k = JStr s \<Longrightarrow> str_field H d k = s"
  by (auto simp: jget_def str_field_def jget_or_def split: option.splits)

lemma write_of_event:
  assumes "unique_facts H es" "write_of H wid es w" "q \<in> set es" "ev_type q = ''write_prepared''" "jget (ev_data q) ''writeId'' = JStr wid"
  obtains w0 where "prepared_operation H wid q = Inr w0" "fixed_part w = fixed_part w0"
  using assms(2) unique_preparation[OF assms(1,3) _ assms(4) _ assms(5)] that unfolding write_of_def by blast

lemma write_of_keyed:
  assumes "unique_facts H es" "write_of H wid es w" "q \<in> set es" "keyed a i hashes q" "jget (ev_data q) ''writeId'' = JStr wid"
    and "semantic_of H w = semantic_digest H a"
  shows "prepared_for H a i hashes w"
proof -
  from assms(4) have ty: "ev_type q = ''write_prepared''" by (simp add: keyed_def)
  from write_of_event[OF assms(1-3) ty assms(5)] obtain w0 where w0: "prepared_operation H wid q = Inr w0" "fixed_part w = fixed_part w0" .
  have "wo_session_id w0 = ev_session_id q" "wo_tool_name w0 = str_field H (ev_data q) ''toolName''"
    "wo_requester_id w0 = str_field H (ev_data q) ''requesterId''" "wo_idempotency_key_hash w0 = str_field H (ev_data q) ''idempotencyKeyHash''"
    using w0(1) by (auto simp: prepared_operation_def Let_def exc_simps)
  with assms(4,6) fixed_part_eqD[OF w0(2)] show ?thesis
    by (auto simp: prepared_for_def keyed_def jget_str_field)
qed

definition found ::
  "host \<Rightarrow> prepare_args \<Rightarrow> string list \<Rightarrow> verified_identity \<Rightarrow> memory_store \<Rightarrow> write_operation option write_result \<Rightarrow> call_state \<Rightarrow> bool" where
  "found H a hashes i st r \<sigma>' \<longleftrightarrow> evolves H st (snd \<sigma>') \<and>
     (\<forall>w. r = Inr (Some w) \<longrightarrow> (\<exists>wid q. write_of H wid (ms_events (snd \<sigma>')) w \<and> q \<in> set (ms_events (snd \<sigma>')) \<and>
        keyed a i hashes q \<and> py_str H (jget (ev_data q) ''writeId'') = wid)) \<and>
     (r = Inr None \<longrightarrow> \<not> (\<exists>q \<in> set (ms_events st). keyed a i hashes q))"

definition preparation ::
  "host \<Rightarrow> prepare_args \<Rightarrow> verified_identity \<Rightarrow> string list \<Rightarrow> memory_store \<Rightarrow> write_operation write_result \<Rightarrow> call_state \<Rightarrow> bool" where
  "preparation H a i hashes st r \<sigma>' \<longleftrightarrow> evolves H st (snd \<sigma>') \<and>
     (\<forall>w. r = Inr w \<longrightarrow> logs_ok H st \<longrightarrow> prepared_for H a i hashes w \<and> write_of H (wo_write_id w) (ms_events (snd \<sigma>')) w)"

lemma preparation_failed: "evolves H st (snd \<sigma>) \<Longrightarrow> preparation H a i hashes st (Inl e) \<sigma>"
  by (simp add: preparation_def)

lemma found_preparation:
  assumes "found H a hashes i st (Inr (Some w)) \<sigma>'" "evolves H st0 st"
  shows "preparation H a i hashes st0 (same_idempotent_action H w (semantic_digest H a)) \<sigma>'"
proof -
  from assms obtain wid q where w: "write_of H wid (ms_events (snd \<sigma>')) w" and q: "q \<in> set (ms_events (snd \<sigma>'))" "keyed a i hashes q"
    "py_str H (jget (ev_data q) ''writeId'') = wid" and e: "evolves H st0 (snd \<sigma>')" unfolding found_def by (blast intro: evolves_trans)
  have "prepared_for H a i hashes w \<and> write_of H (wo_write_id w) (ms_events (snd \<sigma>')) w" if "semantic_of H w = semantic_digest H a" "logs_ok H st0"
  proof -
    have logs: "logs_ok H (snd \<sigma>')" using e that(2) by (simp add: evolves_def)
    obtain wid' where "jget (ev_data q) ''writeId'' = JStr wid'"
      using logs_write_texts[OF logs q(1)] q(2) by (auto simp: keyed_def startswith_def has_text_def)
    with q(3) have id: "jget (ev_data q) ''writeId'' = JStr wid" by simp
    have "wo_write_id w = wid" using w by (rule write_of_prepared)
    with write_of_keyed[OF _ w q(1,2) id that(1)] w logs show ?thesis by (simp add: logs_ok_def)
  qed
  with e show ?thesis by (auto simp: preparation_def same_action_ok)
qed

lemma new_preparation:
  assumes "(''write_prepared'', write_prepared_data a wid i digest h) \<in> set specs" "h \<in> set hashes" "authorization_matches a = Inr ()"
    and "new_fact st st2 (pa_session_id a) (pa_operation_id a) (''write_prepared'', write_prepared_data a wid i digest h)"
    and "evolves H st st2" "gives_write H wid st2 r \<sigma>'"
  shows "preparation H a i hashes st r \<sigma>'"
proof -
  have e: "evolves H st (snd \<sigma>')" using assms(5,6) by (auto simp: gives_write_def intro: evolves_trans)
  from assms(4) obtain q where q: "q \<in> set (ms_events st2)" "ev_type q = ''write_prepared''" "ev_data q = write_prepared_data a wid i digest h"
    "ev_session_id q = pa_session_id a" by (auto simp: new_fact_def of_operation_def dest!: in_set_dropD)
  have q': "q \<in> set (ms_events (snd \<sigma>'))" using evolves_member q(1) assms(6) unfolding gives_write_def by blast
  have "prepared_for H a i hashes w \<and> write_of H (wo_write_id w) (ms_events (snd \<sigma>')) w" if "r = Inr w" "logs_ok H st" for w
  proof -
    have u: "unique_facts H (ms_events (snd \<sigma>'))" using e that(2) by (simp add: evolves_def logs_ok_def)
    have w: "write_of H wid (ms_events (snd \<sigma>')) w" using assms(6) that(1) by (simp add: gives_write_def)
    obtain w0 where w0: "prepared_operation H wid q = Inr w0" "fixed_part w = fixed_part w0"
      by (rule write_of_event[OF u w q' q(2)]) (simp_all add: q(3) write_prepared_data_def jget_def)
    have "wo_write_id w = wid" using w by (rule write_of_prepared)
    moreover have "wo_session_id w0 = pa_session_id a" using w0(1) q(4) by (auto simp: prepared_operation_def Let_def exc_simps)
    moreover have "semantic_of H w = semantic_digest H a"
      using prepared_semantic[OF w0(1) q(3) assms(3)] semantic_of_fixed[OF w0(2)] by simp
    ultimately show ?thesis
      using w assms(2) prepared_fields[OF w0(1) q(3)] fixed_part_eqD[OF w0(2)] by (simp add: prepared_for_def)
  qed
  with e show ?thesis by (auto simp: preparation_def)
qed

definition prepares :: "host \<Rightarrow> write_service \<Rightarrow> prepare_args \<Rightarrow> memory_store \<Rightarrow> write_operation write_result \<Rightarrow> call_state \<Rightarrow> bool" where
  "prepares H V a st r \<sigma>' \<longleftrightarrow> evolves H st (snd \<sigma>') \<and> (isOk r \<longrightarrow> (\<exists>secs entity i h legacy.
     prepare_checks H V a = Inr (secs, entity, i, h, legacy) \<and> preparation H a i [h, legacy] st r \<sigma>'))"

text \<open>Two records under the same key hash are records of the same write.\<close>

lemma same_key_same_write:
  assumes "logs_ok H st" "write_of H wid (ms_events st) w" "write_of H wid' (ms_events st) w'"
    and "wo_idempotency_key_hash w' = wo_idempotency_key_hash w"
  shows "fixed_part w' = fixed_part w"
proof -
  have u: "unique_facts H (ms_events st)" using assms(1) by (simp add: logs_ok_def)
  from assms(2) obtain q where q: "q \<in> set (ms_events st)" "ev_type q = ''write_prepared''" "jget (ev_data q) ''writeId'' = JStr wid"
    "wo_idempotency_key_hash w = str_field H (ev_data q) ''idempotencyKeyHash''" by (rule write_of_prepared) blast
  from assms(3) obtain q' where q': "q' \<in> set (ms_events st)" "ev_type q' = ''write_prepared''" "jget (ev_data q') ''writeId'' = JStr wid'"
    "wo_idempotency_key_hash w' = str_field H (ev_data q') ''idempotencyKeyHash''" by (rule write_of_prepared) blast
  from logs_write_texts[OF assms(1) q(1)] logs_write_texts[OF assms(1) q'(1)] q(2) q'(2)
  obtain h h' where h: "jget (ev_data q) ''idempotencyKeyHash'' = JStr h" "jget (ev_data q') ''idempotencyKeyHash'' = JStr h'"
    by (auto simp: startswith_def has_text_def)
  with q(4) q'(4) assms(4) have "h' = h" by (simp add: jget_str_field)
  with unique_event[OF _ u q(1) q'(1), of "''write_prepared''" "''idempotencyKeyHash''" h] h q(2) q'(2) have "q' = q"
    by (simp add: unique_constraints_def)
  moreover from this q(3) q'(3) have "wid' = wid" by simp
  ultimately show ?thesis
    using write_of_event[OF u assms(2) q(1-3)] write_of_event[OF u assms(3)] q by (metis Inr_inject)
qed

lemma prepare_specs_first:
  "prepare_specs H a ms wid u i h = Inr specs \<Longrightarrow> \<exists>digest. (''write_prepared'', write_prepared_data a wid i digest h) \<in> set specs"
  by (auto simp: prepare_specs_def Let_def exc_simps split: if_splits)

context durable_client
begin

lemma find_spec:
  assumes "evolves H st (snd \<sigma>)"
  shows "after (find_existing H W a hashes i) \<sigma> (found H a hashes i st)"
  unfolding find_existing_def find_by_idempotency_def after_bindS
proof (rule after_load, unfold sum.case Let_def)
  fix st1 assume "evolves H (snd \<sigma>) st1"
  with assms have st1: "evolves H st st1" by (rule evolves_trans)
  let ?id = "\<lambda>q. py_str H (jget (ev_data q) ''writeId'')" and ?\<sigma> = "(Suc (fst \<sigma>), st1)"
  let ?ids = "map ?id (filter (keyed a i hashes) (ms_events st1))"
  have all: "memory_load None None st1 = ms_events st1" by (simp add: memory_load_def load_filter_def)
  have none: "found H a hashes i st (Inr None) ?\<sigma>" if "?ids = []"
    using that st1 evolves_member[OF st1] by (auto simp: found_def filter_empty_conv)
  have some: "after (bindS (get_write H W (last ?ids)) (\<lambda>w. liftS (Inr (Some w)))) ?\<sigma> (found H a hashes i st)" if "?ids \<noteq> []"
  proof -
    have "last ?ids \<in> set ?ids" using that by (rule last_in_set)
    then obtain q where q: "q \<in> set (ms_events st1)" "keyed a i hashes q" "last ?ids = ?id q" by auto
    show ?thesis unfolding q(3)
    proof (rule get_write_then[of st1])
      fix w and \<sigma>' :: call_state assume e: "evolves H st1 (snd \<sigma>')" and w: "write_of H (?id q) (ms_events (snd \<sigma>')) w"
      have "found H a hashes i st (Inr (Some w)) \<sigma>'"
        using evolves_trans[OF st1 e] w q evolves_member[OF e q(1)] by (auto simp: found_def)
      then show "after (liftS (Inr (Some w))) \<sigma>' (found H a hashes i st)" by simp
    qed (use st1 in \<open>auto simp: found_def intro: evolves_trans\<close>)
  qed
  have "keyed a i hashes = (\<lambda>q. ev_type q = ''write_prepared'' \<and> jget (ev_data q) ''idempotencyKeyHash'' \<in> set (map JStr hashes) \<and>
     ev_session_id q = pa_session_id a \<and> jget (ev_data q) ''requesterId'' = JStr (vi_principal_id i) \<and>
     jget (ev_data q) ''toolName'' = JStr (pa_tool_name a))" by (intro ext) (simp add: keyed_def)
  note k = this[symmetric]
  show "after (if map ?id (filter (\<lambda>q. ev_type q = ''write_prepared'' \<and> jget (ev_data q) ''idempotencyKeyHash'' \<in> set (map JStr hashes) \<and>
     ev_session_id q = pa_session_id a \<and> jget (ev_data q) ''requesterId'' = JStr (vi_principal_id i) \<and>
     jget (ev_data q) ''toolName'' = JStr (pa_tool_name a)) (memory_load None None st1)) = [] then liftS (Inr None)
    else bindS (get_write H W (last (map ?id (filter (\<lambda>q. ev_type q = ''write_prepared'' \<and>
     jget (ev_data q) ''idempotencyKeyHash'' \<in> set (map JStr hashes) \<and> ev_session_id q = pa_session_id a \<and>
     jget (ev_data q) ''requesterId'' = JStr (vi_principal_id i) \<and> jget (ev_data q) ''toolName'' = JStr (pa_tool_name a)) (memory_load None None st1)))))
     (\<lambda>w. liftS (Inr (Some w)))) ?\<sigma> (found H a hashes i st)"
    unfolding k all by (intro after_if some) (simp_all add: none)
qed

lemma prepare_loop_spec:
  assumes "(''write_prepared'', write_prepared_data a (pp_write_id p) (pp_requester p) digest h) \<in> set (pp_specs p)"
    "h \<in> set (pp_key_hashes p)" "authorization_matches a = Inr ()" "pp_digest p = semantic_digest H a"
  shows "evolves H st (snd \<sigma>) \<Longrightarrow> after (prepare_loop H W n a p) \<sigma> (preparation H a (pp_requester p) (pp_key_hashes p) st)"
proof (induction n arbitrary: \<sigma>)
  case 0
  then show ?case by (simp add: preparation_failed write_err_def)
next
  case (Suc n)
  let ?Q = "preparation H a (pp_requester p) (pp_key_hashes p) st"
  show ?case unfolding prepare_loop.simps
  proof (rule after_then[OF find_spec[OF Suc.prems]])
    fix existing and \<sigma>1 :: call_state assume f: "found H a (pp_key_hashes p) (pp_requester p) st (Inr existing) \<sigma>1"
    then have e1: "evolves H st (snd \<sigma>1)" by (simp add: found_def)
    show "after (case existing of Some w \<Rightarrow> liftS (same_idempotent_action H w (pp_digest p)) | None \<Rightarrow>
        bindS (await_load W (Some (pa_session_id a)) (Some (pa_operation_id a))) (\<lambda>events.
         if events = [] then liftS (write_err ''operation_not_found'') else
         bindS (validate_write_specs H W events (pp_specs p)) (\<lambda>_.
         bindS (await_commit H W (pa_session_id a) (pa_operation_id a) events (pp_specs p) (pp_scope p)) (\<lambda>r.
         case r of Inl (Raised f) \<Rightarrow> if claim_lost_fault f then liftS (write_err ''write_fenced_claim_lost'')
               else if conflict_fault f then prepare_loop H W n a p else liftS (Inl (Raised (WStore f)))
         | Inl (Builtin b) \<Rightarrow> liftS (Inl (Builtin b)) | Inr _ \<Rightarrow> get_write H W (pp_write_id p))))) \<sigma>1 ?Q"
    proof (cases existing)
      case (Some w)
      with found_preparation[OF f[unfolded Some] evolves_refl] assms(4) show ?thesis by simp
    next
      case None
      show ?thesis unfolding None option.case
      proof (subst after_bindS, rule after_load, unfold sum.case, intro after_if after_checked_commit)
        fix st2 and r :: "(store_fault, operation_event list) result" and st3
        let ?events = "memory_load (Some (pa_session_id a)) (Some (pa_operation_id a)) st2"
        assume e2: "evolves H (snd \<sigma>1) st2" and e3: "evolves H (snd (Suc (fst \<sigma>1), st2)) st3"
          and c3: "isOk r \<Longrightarrow> committed H W (pa_session_id a) (pa_operation_id a) ?events (pp_specs p) (pp_scope p) (snd (Suc (fst \<sigma>1), st2)) st3"
        let ?\<sigma> = "(Suc (fst (Suc (fst \<sigma>1), st2)), st3)"
        have st2: "evolves H st st2" using e1 e2 by (rule evolves_trans)
        with e3 have st3: "evolves H st (snd ?\<sigma>)" by (auto intro: evolves_trans)
        have ready: "after (get_write H W (pp_write_id p)) ?\<sigma> ?Q" if "isOk r"
          by (rule after_mono[OF get_write_spec[of st3]])
            (use new_preparation[OF assms(1-3) committed_new_fact[OF c3[OF that] _ assms(1)]] st2 st3 in auto)
        show "after (case r of Inl (Raised f) \<Rightarrow> if claim_lost_fault f then liftS (write_err ''write_fenced_claim_lost'')
               else if conflict_fault f then prepare_loop H W n a p else liftS (Inl (Raised (WStore f)))
         | Inl (Builtin b) \<Rightarrow> liftS (Inl (Builtin b)) | Inr _ \<Rightarrow> get_write H W (pp_write_id p)) ?\<sigma> ?Q"
          using Suc.IH[OF st3] ready st3 by (auto intro: preparation_failed simp: write_err_def split: sum.splits exc.splits)
      qed (use e1 in \<open>auto simp: write_err_def intro!: preparation_failed intro: evolves_trans\<close>)
    qed
  qed (simp add: found_def preparation_failed)
qed

lemma prepare_spec:
  assumes "evolves H st (snd \<sigma>)"
  shows "after (prepare_write H V W wid u a) \<sigma> (prepares H V a st)"
  unfolding prepare_write_def
proof (cases "prepare_checks H V a")
  case (Inr c)
  obtain secs entity i h legacy where c: "c = (secs, entity, i, h, legacy)" by (metis surj_pair)
  let ?Q = "preparation H a i [h, legacy] st"
  have auth: "authorization_matches a = Inr ()" using Inr unfolding prepare_checks_def bindE_eq_Inr by auto
  have mono: "after m \<sigma>' ?Q \<Longrightarrow> after m \<sigma>' (prepares H V a st)" for m and \<sigma>' :: call_state
    by (erule after_mono) (auto simp: prepares_def Inr c preparation_def)
  have "after (bindS (find_existing H W a [h, legacy] i) (\<lambda>existing. case existing of
       Some w \<Rightarrow> liftS (same_idempotent_action H w (semantic_digest H a))
     | None \<Rightarrow>
         bindS (\<lambda>\<sigma>. (authorization_fresh (pa_trusted_authorization a) (sc_ms W (fst \<sigma>) / 1000), \<sigma>)) (\<lambda>_.
         bindS (\<lambda>\<sigma>. (prepare_specs H a (sc_ms W (fst \<sigma>)) wid u i h, \<sigma>)) (\<lambda>specs.
         prepare_loop H W max_conflict_retries a \<lparr>pp_key_hashes = [h, legacy], pp_requester = i,
           pp_digest = semantic_digest H a, pp_write_id = wid, pp_specs = specs,
           pp_scope = \<lparr>co_fenced_claim = pa_fenced_claim a, co_lease_seconds = secs, co_entity_id = entity, co_deadline = None\<rparr>\<rparr>)))) \<sigma> ?Q"
  proof (rule after_then[OF find_spec[OF assms]], goal_cases)
    case (2 existing \<sigma>1)
    then have e1: "evolves H st (snd \<sigma>1)" by (simp add: found_def)
    show ?case
    proof (cases existing)
      case (Some w)
      with found_preparation[OF 2[unfolded Some] evolves_refl] show ?thesis by simp
    next
      case None
      have pure: "after (bindS (\<lambda>\<sigma>. (f \<sigma>, \<sigma>)) g) \<sigma>1 ?Q" if "\<And>x. f \<sigma>1 = Inr x \<Longrightarrow> after (g x) \<sigma>1 ?Q" for f :: "call_state \<Rightarrow> 'x write_result" and g
        using that e1 by (auto simp: after_def bindS_def preparation_def split: sum.splits prod.splits)
      show ?thesis unfolding None option.case
      proof (intro pure)
        fix specs assume "prepare_specs H a (sc_ms W (fst \<sigma>1)) wid u i h = Inr specs"
        then obtain digest where "(''write_prepared'', write_prepared_data a wid i digest h) \<in> set specs"
          using prepare_specs_first by blast
        then show "after (prepare_loop H W max_conflict_retries a \<lparr>pp_key_hashes = [h, legacy], pp_requester = i,
           pp_digest = semantic_digest H a, pp_write_id = wid, pp_specs = specs,
           pp_scope = \<lparr>co_fenced_claim = pa_fenced_claim a, co_lease_seconds = secs, co_entity_id = entity, co_deadline = None\<rparr>\<rparr>) \<sigma>1 ?Q"
          using prepare_loop_spec[where p = "\<lparr>pp_key_hashes = [h, legacy], pp_requester = i,
           pp_digest = semantic_digest H a, pp_write_id = wid, pp_specs = specs,
           pp_scope = \<lparr>co_fenced_claim = pa_fenced_claim a, co_lease_seconds = secs, co_entity_id = entity, co_deadline = None\<rparr>\<rparr>", OF _ _ auth _ e1]
          by simp
      qed
    qed
  qed (simp add: found_def preparation_failed)
  from mono[OF this] show "after (bindS (liftS (prepare_checks H V a)) (\<lambda>(secs, entity, i, key_hash, legacy).
     bindS (find_existing H W a [key_hash, legacy] i) (\<lambda>existing.
     case existing of
       Some w \<Rightarrow> liftS (same_idempotent_action H w (semantic_digest H a))
     | None \<Rightarrow>
         bindS (\<lambda>\<sigma>. (authorization_fresh (pa_trusted_authorization a) (sc_ms W (fst \<sigma>) / 1000), \<sigma>)) (\<lambda>_.
         bindS (\<lambda>\<sigma>. (prepare_specs H a (sc_ms W (fst \<sigma>)) wid u i key_hash, \<sigma>)) (\<lambda>specs.
         prepare_loop H W max_conflict_retries a \<lparr>pp_key_hashes = [key_hash, legacy], pp_requester = i,
           pp_digest = semantic_digest H a, pp_write_id = wid, pp_specs = specs,
           pp_scope = \<lparr>co_fenced_claim = pa_fenced_claim a, co_lease_seconds = secs, co_entity_id = entity, co_deadline = None\<rparr>\<rparr>))))) \<sigma>
    (prepares H V a st)"
    unfolding Inr bindS_liftS c prod.case .
qed (use assms in \<open>simp add: prepares_def\<close>)

end

end
