(* ===== verification/Write_Reconciliation.thy ===== *)
theory Write_Reconciliation
  imports Write_Preparation
begin

text \<open>
  The reconciliation of a write whose outcome is unknown: it is decided under the lease of the write, by what the handler
  reports and by nothing else, and the decision carries the fencing pair of the lease.
\<close>

section \<open>Calls of the claim operations\<close>

lemma same_events_evolve: "ms_events st' = ms_events st \<Longrightarrow> evolves H st st'"
  by (simp add: evolves_def logs_ok_def)

lemma claim_calls_keep_events:
  "memory_acquire_fenced_claim now ty rid owner secs st = (r, st') \<Longrightarrow> ms_events st' = ms_events st"
  "memory_renew_fenced_claim now lease secs st = (b, st') \<Longrightarrow> ms_events st' = ms_events st"
  "memory_release_fenced_claim lease st = (u, st') \<Longrightarrow> ms_events st' = ms_events st"
  by (auto simp: memory_acquire_fenced_claim_def memory_renew_fenced_claim_def memory_release_fenced_claim_def
      split: sum.splits prod.splits option.splits)

section \<open>The contract of a reconciliation\<close>

text \<open>What is decided for a report of the handler.\<close>

definition decision_of :: "claim_lease \<Rightarrow> string \<Rightarrow> json \<Rightarrow> write_transition" where
  "decision_of l wid v = reconcile_transition l WrReconciling (fst (reconcile_event v))
     [(''writeId'', JStr wid), (''result'', JObj (snd (reconcile_event v)))]"

definition decides ::
  "host \<Rightarrow> scheduler \<Rightarrow> string \<Rightarrow> (write_operation \<Rightarrow> reconcile_outcome) \<Rightarrow> claim_lease \<Rightarrow> memory_store \<Rightarrow> write_operation write_result \<Rightarrow> call_state \<Rightarrow> bool" where
  "decides H W wid handler l st r \<sigma>' \<longleftrightarrow> evolves H st (snd \<sigma>') \<and> (\<forall>w. r = Inr w \<longrightarrow> (\<exists>c v.
     write_of H wid (ms_events (snd \<sigma>')) c \<and> wo_fencing_token c = Some (cl_generation l) \<and> wo_fencing_scope c = Some (cl_resource_id l) \<and>
     handler c = RReturned v \<and> finished H W (decision_of l wid v) c st (Inr w) \<sigma>'))"

definition reconciled ::
  "host \<Rightarrow> scheduler \<Rightarrow> string \<Rightarrow> string \<Rightarrow> (write_operation \<Rightarrow> reconcile_outcome) \<Rightarrow> memory_store \<Rightarrow> write_operation write_result \<Rightarrow> call_state \<Rightarrow> bool" where
  "reconciled H W owner wid handler st r \<sigma>' \<longleftrightarrow> evolves H st (snd \<sigma>') \<and> (\<forall>w. r = Inr w \<longrightarrow> (\<exists>l rec.
     cl_claim_type l = ''write_reconcile'' \<and> cl_owner_token l = owner \<and> write_of H wid (ms_events (snd \<sigma>')) rec \<and>
     canonical_reconcile_scope H rec = Inr (cl_resource_id l) \<and> decides H W wid handler l st r \<sigma>'))"

lemma decides_failed: "evolves H st (snd \<sigma>) \<Longrightarrow> decides H W wid handler l st (Inl e) \<sigma>"
  by (simp add: decides_def)

lemma reconciled_failed: "evolves H st (snd \<sigma>) \<Longrightarrow> reconciled H W owner wid handler st (Inl e) \<sigma>"
  by (simp add: reconciled_def)

lemma decides_evolves:
  assumes "decides H W wid handler l st r \<sigma>'" "evolves H (snd \<sigma>') (snd \<sigma>'')"
  shows "decides H W wid handler l st r \<sigma>''"
proof -
  have w: "write_of H wid (ms_events (snd \<sigma>'')) c" if "write_of H wid (ms_events (snd \<sigma>')) c" for c wid
    using write_of_mono[OF that] evolves_member[OF assms(2)] by blast
  have held: "lease_held H W k st (snd \<sigma>'')" if "lease_held H W k st (snd \<sigma>')" for k
    using that assms(2) unfolding lease_held_def by (blast intro: evolves_trans)
  have e: "evolves H st (snd \<sigma>'')" using assms by (auto simp: decides_def intro: evolves_trans)
  have fin: "finished H W tr c st (Inr w') \<sigma>''" if "finished H W tr c st (Inr w') \<sigma>'" for tr c w'
    using that e held new_fact_evolves[OF _ assms(2)] evolves_member[OF assms(2)] assms(2) w unfolding finished_def by blast
  show ?thesis unfolding decides_def
  proof (intro conjI allI impI e)
    fix w' assume "r = Inr w'"
    with assms(1) obtain c v where "write_of H wid (ms_events (snd \<sigma>')) c" "wo_fencing_token c = Some (cl_generation l)"
      "wo_fencing_scope c = Some (cl_resource_id l)" "handler c = RReturned v" "finished H W (decision_of l wid v) c st (Inr w') \<sigma>'"
      unfolding decides_def by blast
    with w fin show "\<exists>c v. write_of H wid (ms_events (snd \<sigma>'')) c \<and> wo_fencing_token c = Some (cl_generation l) \<and>
      wo_fencing_scope c = Some (cl_resource_id l) \<and> handler c = RReturned v \<and> finished H W (decision_of l wid v) c st (Inr w') \<sigma>''" by blast
  qed
qed

context durable_client
begin

lemma after_claims:
  assumes "\<And>now st r st'. call now st = (r, st') \<Longrightarrow> ms_events st' = ms_events st"
    and "\<And>r st' st now. evolves H (snd \<sigma>) st' \<Longrightarrow> call now st = (r, st') \<Longrightarrow> Q (Inr r) (Suc (fst \<sigma>), st')"
  shows "after (await_claims W call) \<sigma> Q"
proof -
  obtain r st' where c: "call (sc_now W (fst \<sigma>)) (sc_env W (fst \<sigma>) (snd \<sigma>)) = (r, st')" by (rule prod.exhaust)
  have "evolves H (snd \<sigma>) st'" using evolves_trans[OF others same_events_evolve] assms(1)[OF c] by blast
  with assms(2)[OF _ c] c show ?thesis by (simp add: after_def await_claims_def)
qed

lemma assert_claim_spec:
  assumes "evolves H st (snd \<sigma>)"
  shows "after (assert_reconcile_claim V W lost l) \<sigma> (\<lambda>r \<sigma>'. evolves H st (snd \<sigma>'))"
proof (cases "lost (fst \<sigma>)")
  case False
  have "after (bindS (await_claims W (\<lambda>now. memory_renew_fenced_claim now l (ws_lease_seconds V))) (\<lambda>r.
      liftS (if r = Inr True then Inr () else write_err ''write_reconcile_claim_lost''))) \<sigma> (\<lambda>r \<sigma>'. evolves H st (snd \<sigma>'))"
    unfolding after_bindS by (rule after_claims) (auto dest: claim_calls_keep_events intro: evolves_trans[OF assms])
  with False show ?thesis by (simp add: after_def assert_reconcile_claim_def)
qed (use assms in \<open>simp add: after_def assert_reconcile_claim_def write_err_def\<close>)

lemma finish_then:
  assumes "evolves H st (snd \<sigma>)" "\<And>e \<sigma>'. evolves H st (snd \<sigma>') \<Longrightarrow> Q (Inl e) \<sigma>'"
    and "\<And>w \<sigma>'. evolves H st (snd \<sigma>') \<Longrightarrow> write_of H (wo_write_id rec) (ms_events (snd \<sigma>')) w \<Longrightarrow> after (f w) \<sigma>' Q"
  shows "after (bindS (finish_transition H V W tr rec) f) \<sigma> Q"
  by (rule after_then[OF finish_spec[OF assms(1)]]) (auto simp: finished_def assms(2,3))

lemma assert_then:
  assumes "evolves H st (snd \<sigma>)" "\<And>e \<sigma>'. evolves H st (snd \<sigma>') \<Longrightarrow> Q (Inl e) \<sigma>'" "\<And>\<sigma>'. evolves H st (snd \<sigma>') \<Longrightarrow> after (f ()) \<sigma>' Q"
  shows "after (bindS (assert_reconcile_claim V W lost l) f) \<sigma> Q"
  by (rule after_then[OF assert_claim_spec[OF assms(1)]]) (auto simp: assms(2,3))

text \<open>What the handler of a reconciliation is called with, and what follows its report.\<close>

lemma report_spec:
  assumes "evolves H st (snd \<sigma>)" "write_of H wid (ms_events (snd \<sigma>)) w" "handler c = RReturned v"
    and c_def: "c = w\<lparr>wo_fencing_token := Some (cl_generation l), wo_fencing_scope := Some (cl_resource_id l)\<rparr>"
  shows "after (finish_transition H V W (decision_of l wid v) c) \<sigma> (decides H W wid handler l st)"
proof (rule after_mono)
  have e: "after (finish_transition H V W (decision_of l wid v) c) \<sigma> (finished H W (decision_of l wid v) c (snd \<sigma>))"
    by (rule finish_spec) simp
  show "after (finish_transition H V W (decision_of l wid v) c) \<sigma>
      (\<lambda>r \<sigma>'. finished H W (decision_of l wid v) c st r \<sigma>' \<and> evolves H (snd \<sigma>) (snd \<sigma>'))"
    by (rule after_conj[OF finish_spec[OF assms(1)] after_mono[OF e]]) (simp add: finished_def)
  fix r and \<sigma>' :: call_state
  assume f: "finished H W (decision_of l wid v) c st r \<sigma>' \<and> evolves H (snd \<sigma>) (snd \<sigma>')"
  have "write_of H wid (ms_events (snd \<sigma>)) c" by (rule write_of_fixed[OF assms(2)]) (simp add: c_def)
  then have "write_of H wid (ms_events (snd \<sigma>')) c" using write_of_mono evolves_member f by blast
  moreover have "wo_fencing_token c = Some (cl_generation l)" "wo_fencing_scope c = Some (cl_resource_id l)" by (simp_all add: c_def)
  moreover have "evolves H st (snd \<sigma>')" using f by (simp add: finished_def)
  ultimately show "decides H W wid handler l st r \<sigma>'" using f assms(3) unfolding decides_def by blast
qed

lemma body_spec:
  assumes "evolves H st (snd \<sigma>)" "wo_write_id rec = wid"
  shows "after (reconcile_body H V W lost handler l rec) \<sigma> (decides H W wid handler l st)"
proof -
  let ?Q = "decides H W wid handler l st"
  define rest where "rest w = (let c = w\<lparr>wo_fencing_token := Some (cl_generation l), wo_fencing_scope := Some (cl_resource_id l)\<rparr> in
      case handler c of
        RCancelled \<Rightarrow> liftS (Inl (Raised WCancelled))
      | RRaised err \<Rightarrow>
          bindS (assert_reconcile_claim V W lost l) (\<lambda>_.
          bindS (finish_transition H V W (reconcile_transition l WrReconciling ''write_reconcile_failed''
            [(''writeId'', JStr (wo_write_id rec)), (''reason'', JStr ''reconciliation_handler_error'')]) c) (\<lambda>_.
          liftS (Inl (Raised (WHandler err)))))
      | RReturned v \<Rightarrow>
          bindS (assert_reconcile_claim V W lost l) (\<lambda>_.
          let (ty, result) = reconcile_event v in
          finish_transition H V W (reconcile_transition l WrReconciling ty [(''writeId'', JStr (wo_write_id rec)), (''result'', JObj result)]) c))" for w
  have rest: "after (rest w) \<sigma>1 ?Q" if e: "evolves H st (snd \<sigma>1)" and w: "write_of H wid (ms_events (snd \<sigma>1)) w" for w and \<sigma>1 :: call_state
  proof -
    let ?c = "w\<lparr>wo_fencing_token := Some (cl_generation l), wo_fencing_scope := Some (cl_resource_id l)\<rparr>"
    show ?thesis
    proof (cases "handler ?c")
      case (RReturned v)
      have "after (bindS (assert_reconcile_claim V W lost l) (\<lambda>_. finish_transition H V W (decision_of l wid v) ?c)) \<sigma>1 ?Q"
      proof (rule after_then[OF assert_claim_spec[OF evolves_refl]])
        fix x and \<sigma>2 :: call_state assume e2: "evolves H (snd \<sigma>1) (snd \<sigma>2)"
        have "write_of H wid (ms_events (snd \<sigma>2)) w" using write_of_mono[OF w] evolves_member[OF e2] by blast
        then show "after (finish_transition H V W (decision_of l wid v) ?c) \<sigma>2 ?Q"
          by (rule report_spec[OF evolves_trans[OF e e2]]) (simp_all add: RReturned)
      qed (use e in \<open>auto intro: decides_failed evolves_trans\<close>)
      then show ?thesis by (simp add: rest_def RReturned decision_of_def assms(2) case_prod_unfold Let_def)
    next
      case (RRaised err)
      have "after (bindS (assert_reconcile_claim V W lost l) (\<lambda>_. bindS (finish_transition H V W tr ?c) (\<lambda>_.
          liftS (Inl (Raised (WHandler err)))))) \<sigma>1 ?Q" for tr
        by (rule assert_then[OF e]) (auto intro!: finish_then decides_failed simp del: after_bindS)
      then show ?thesis by (simp add: rest_def RRaised del: after_bindS)
    qed (use e in \<open>simp add: rest_def decides_failed\<close>)
  qed
  have start: "after (bindS (finish_transition H V W tr rec) rest) \<sigma> ?Q" for tr
    by (rule finish_then[OF assms(1)]) (auto intro: rest decides_failed simp: assms(2))
  have stop: "after (bindS (liftS (Inl e)) rest) \<sigma> ?Q" for e using assms(1) by (simp add: decides_failed)
  have "after (bindS (if wo_state rec = WrOutcomeUnknown then finish_transition H V W tr rec else if wo_state rec = WrReconciling
      then finish_transition H V W tr' rec else liftS (Inl e)) rest) \<sigma> ?Q" for tr tr' e
    using start stop by (simp del: after_bindS)
  then show ?thesis unfolding reconcile_body_def Let_def write_err_def rest_def[unfolded Let_def, abs_def] .
qed

lemma reconcile_spec:
  assumes "evolves H st (snd \<sigma>)"
  shows "after (reconcile_write H V W lost owner wid handler) \<sigma> (reconciled H W owner wid handler st)"
  unfolding reconcile_write_def
proof (rule get_write_then[OF assms])
  let ?Q = "reconciled H W owner wid handler st"
  fix rec and \<sigma>1 :: call_state assume e1: "evolves H st (snd \<sigma>1)" and w: "write_of H wid (ms_events (snd \<sigma>1)) rec"
  have id: "wo_write_id rec = wid" using w by (rule write_of_prepared)
  have guarded: "after (finallyS (reconcile_body H V W lost handler l rec) (await_claims W (\<lambda>now. memory_release_fenced_claim l))) \<sigma>2 ?Q"
    if e2: "evolves H (snd \<sigma>1) (snd \<sigma>2)" and l: "cl_claim_type l = ''write_reconcile''" "cl_owner_token l = owner"
      "canonical_reconcile_scope H rec = Inr (cl_resource_id l)" for l and \<sigma>2 :: call_state
    unfolding finallyS_def
  proof (rule after_then[where P = "\<lambda>r \<sigma>'. \<exists>r'. r = Inr r' \<and> decides H W wid handler l st r' \<sigma>' \<and> evolves H (snd \<sigma>1) (snd \<sigma>')"])
    have "after (reconcile_body H V W lost handler l rec) \<sigma>2 (\<lambda>r \<sigma>'. decides H W wid handler l st r \<sigma>' \<and> evolves H (snd \<sigma>1) (snd \<sigma>'))"
      by (rule after_conj[OF body_spec[OF evolves_trans[OF e1 e2] id] after_mono[OF body_spec[OF e2 id]]]) (simp add: decides_def)
    then show "after (tryS (reconcile_body H V W lost handler l rec)) \<sigma>2
      (\<lambda>r \<sigma>'. \<exists>r'. r = Inr r' \<and> decides H W wid handler l st r' \<sigma>' \<and> evolves H (snd \<sigma>1) (snd \<sigma>'))" by simp
  next
    fix r and \<sigma>3 :: call_state
    assume "\<exists>r'. Inr r = (Inr r' :: (write_error, write_operation write_result) result) \<and> decides H W wid handler l st r' \<sigma>3 \<and> evolves H (snd \<sigma>1) (snd \<sigma>3)"
    then have d: "decides H W wid handler l st r \<sigma>3 \<and> evolves H (snd \<sigma>1) (snd \<sigma>3)" by simp
    show "after (bindS (await_claims W (\<lambda>now. memory_release_fenced_claim l)) (\<lambda>_. liftS r)) \<sigma>3 ?Q"
      unfolding after_bindS
    proof (rule after_claims)
      fix u st' st0 assume e4: "evolves H (snd \<sigma>3) st'"
      have d4: "decides H W wid handler l st r (Suc (fst \<sigma>3), st')" using decides_evolves[of H W wid handler l st r \<sigma>3] d e4 by simp
      have "evolves H (snd \<sigma>1) st'" using d e4 by (auto intro: evolves_trans)
      then have "write_of H wid (ms_events st') rec" using write_of_mono[OF w] evolves_member by blast
      moreover have "evolves H st (snd (Suc (fst \<sigma>3), st'))" using d4 by (simp add: decides_def)
      ultimately have "?Q r (Suc (fst \<sigma>3), st')" using d4 l unfolding reconciled_def snd_conv by blast
      then show "case Inr u of Inl e \<Rightarrow> ?Q (Inl e) (Suc (fst \<sigma>3), st') | Inr _ \<Rightarrow> after (liftS r) (Suc (fst \<sigma>3), st') ?Q" by simp
    qed (rule claim_calls_keep_events)
  qed simp
  show "after (bindS (liftS (as_store (fenced_claim_resource_id H ''write_reconcile'' (wo_session_id rec) (Some (wo_operation_id rec)) (Some wid)))) (\<lambda>rid.
     bindS (await_claims W (\<lambda>now. memory_acquire_fenced_claim now ''write_reconcile'' rid owner (ws_lease_seconds V))) (\<lambda>acquired.
     bindS (liftS (as_store acquired)) (\<lambda>lease.
     case lease of None \<Rightarrow> liftS (write_err ''write_reconcile_claimed'')
     | Some l \<Rightarrow> finallyS (reconcile_body H V W lost handler l rec) (await_claims W (\<lambda>now. memory_release_fenced_claim l)))))) \<sigma>1 ?Q"
  proof (cases "as_store (fenced_claim_resource_id H ''write_reconcile'' (wo_session_id rec) (Some (wo_operation_id rec)) (Some wid))")
    case (Inr rid)
    then have scope: "canonical_reconcile_scope H rec = Inr rid" by (simp add: canonical_reconcile_scope_def id)
    show ?thesis unfolding Inr bindS_liftS
    proof (subst after_bindS, rule after_claims)
      fix r :: "(store_fault, claim_lease option) result" and st2 st0 now
      assume e2: "evolves H (snd \<sigma>1) st2" and a: "memory_acquire_fenced_claim now ''write_reconcile'' rid owner (ws_lease_seconds V) st0 = (r, st2)"
      show "case Inr r of Inl e \<Rightarrow> ?Q (Inl e) (Suc (fst \<sigma>1), st2) | Inr acquired \<Rightarrow> after (bindS (liftS (as_store acquired)) (\<lambda>lease.
        case lease of None \<Rightarrow> liftS (write_err ''write_reconcile_claimed'')
        | Some l \<Rightarrow> finallyS (reconcile_body H V W lost handler l rec) (await_claims W (\<lambda>now. memory_release_fenced_claim l))))
        (Suc (fst \<sigma>1), st2) ?Q"
      proof (cases "\<exists>l. r = Inr (Some l)")
        case True
        then obtain l where r: "r = Inr (Some l)" by blast
        from memory_acquire_ok[OF a[unfolded r]] have "cl_claim_type l = ''write_reconcile''" "cl_owner_token l = owner" "cl_resource_id l = rid"
          by (cases l; simp)+
        with guarded[of "(Suc (fst \<sigma>1), st2)" l] e2 scope show ?thesis unfolding r by (simp add: as_store_def catchE_def bindS_liftS del: after_bindS)
      next
        case False
        have "?Q (Inl e) (Suc (fst \<sigma>1), st2)" for e using e1 e2 by (auto intro!: reconciled_failed intro: evolves_trans)
        with False show ?thesis by (cases r) (auto simp: as_store_def catchE_def write_err_def split: exc.splits option.splits)
      qed
    qed (rule claim_calls_keep_events)
  qed (use e1 in \<open>simp add: reconciled_failed\<close>)
qed (rule reconciled_failed)

end

end
