(* ===== verification/Write_Bounds.thy ===== *)
theory Write_Bounds
  imports Write_Theorems
begin

text \<open>
  Well-formed records and bounded calls: what every replayed write satisfies, the round trip of a trusted authorization through the
  data of an event, and how many awaits a call of the write service makes at most, however often other workers win.
\<close>

section \<open>Trusted authorizations through JSON\<close>

lemma authorization_post_init_ok:
  "authorization_post_init a = Inr b \<longleftrightarrow> b = a \<and> py_strip (ta_receipt_id a) \<noteq> [] \<and> py_strip (ta_action_hash a) \<noteq> [] \<and>
     py_strip (ta_verification_id a) \<noteq> [] \<and> is_sha256 (ta_action_hash a) \<and> isOk (finite_time (ta_consumed_at a)) \<and>
     isOk (finite_time (ta_expires_at a)) \<and> time_value (ta_consumed_at a) \<le> time_value (ta_expires_at a) \<and> finite_json (JObj (ta_subject a))"
  by (auto simp: authorization_post_init_def exc_simps isOk_iff)

lemma authorization_from_dict_ok:
  assumes "authorization_from_dict H d = Inr a"
  shows "authorization_post_init a = Inr a \<and> (\<exists>p q. ta_consumed_at a = JFloat (FFin p) \<and> ta_expires_at a = JFloat (FFin q))"
  using assms unfolding authorization_from_dict_def bindE_eq_Inr
  by (auto simp: exc_simps authorization_post_init_ok split: json.splits)

lemma authorization_dict_get:
  "dkeys (authorization_to_dict a) = [''receiptId'', ''actionHash'', ''verificationId'', ''consumedAt'', ''expiresAt'', ''subject'']"
  "str_field H (authorization_to_dict a) ''receiptId'' = ta_receipt_id a" "str_field H (authorization_to_dict a) ''actionHash'' = ta_action_hash a"
  "str_field H (authorization_to_dict a) ''verificationId'' = ta_verification_id a"
  "jget (authorization_to_dict a) ''consumedAt'' = float_json (ta_consumed_at a)" "jget (authorization_to_dict a) ''expiresAt'' = float_json (ta_expires_at a)"
  "jget (authorization_to_dict a) ''subject'' = JObj (ta_subject a)"
  by (simp_all add: authorization_to_dict_def str_field_def jget_or_def jget_def)

text \<open>
  C28: a trusted authorization survives its event. An authorization that passed its checks, with its times as floats, is written to the data of a
  preparation and read back as itself; and whatever is read from an event passes the checks and is read back as itself when it is written again.
\<close>

theorem authorization_roundtrip:
  assumes "authorization_post_init a = Inr b \<and> ta_consumed_at a = JFloat f \<and> ta_expires_at a = JFloat g \<or> authorization_from_dict H d = Inr a"
  shows "authorization_post_init a = Inr a \<and> authorization_from_dict H (authorization_to_dict a) = Inr a"
proof -
  obtain f g where ok: "authorization_post_init a = Inr a" and t: "ta_consumed_at a = JFloat f" "ta_expires_at a = JFloat g"
    using assms authorization_from_dict_ok[of H d a] by (auto simp: authorization_post_init_ok)
  then obtain p q where pq: "f = FFin p" "g = FFin q"
    by (auto simp: authorization_post_init_ok finite_time_def isOk_iff split: pyfloat.splits)
  have "set (dkeys (authorization_to_dict a)) = authorization_fields" unfolding authorization_dict_get authorization_fields_def by auto
  moreover have eq: "\<lparr>ta_receipt_id = ta_receipt_id a, ta_action_hash = ta_action_hash a, ta_verification_id = ta_verification_id a,
      ta_consumed_at = JFloat (FFin p), ta_expires_at = JFloat (FFin q), ta_subject = ta_subject a\<rparr> = a"
    by (cases a) (use t pq in simp)
  ultimately have "authorization_from_dict H (authorization_to_dict a) = authorization_post_init a"
    using t pq unfolding authorization_from_dict_def authorization_dict_get
    by (simp add: guardE_def float_json_def finite_time_def) (simp only: eq)
  with ok show ?thesis by simp
qed

definition demo_authorization :: trusted_authorization where
  "demo_authorization = \<lparr>ta_receipt_id = ''r'', ta_action_hash = replicate 64 (CHR ''0''), ta_verification_id = ''v'',
     ta_consumed_at = JFloat (FFin 1), ta_expires_at = JFloat (FFin 2), ta_subject = [(''planId'', JStr ''p'')]\<rparr>"

lemma demo_authorization_checked: "isOk (authorization_post_init demo_authorization)"
  by code_simp

theorem authorization_roundtrip_witness:
  "authorization_from_dict log_host (authorization_to_dict demo_authorization) = Inr demo_authorization"
proof -
  from demo_authorization_checked obtain b where "authorization_post_init demo_authorization = Inr b" by (auto simp: isOk_iff)
  then have "authorization_post_init demo_authorization = Inr b \<and> ta_consumed_at demo_authorization = JFloat (FFin 1) \<and>
    ta_expires_at demo_authorization = JFloat (FFin 2) \<or> authorization_from_dict log_host [] = Inr demo_authorization"
    by (simp add: demo_authorization_def)
  from authorization_roundtrip[OF this] show ?thesis by simp
qed

section \<open>Replayed writes are well formed\<close>

definition fence_typed :: "int option \<Rightarrow> string option \<Rightarrow> bool" where
  "fence_typed token scope \<longleftrightarrow> (case (token, scope) of (None, None) \<Rightarrow> True | (Some t, Some s) \<Rightarrow> 1 \<le> t \<and> py_strip s \<noteq> [] | _ \<Rightarrow> False)"

definition value_typed :: "write_operation \<Rightarrow> bool" where
  "value_typed w \<longleftrightarrow> (case wo_expected_entity_version w of None \<Rightarrow> True | Some v \<Rightarrow> 0 \<le> v) \<and>
     (case wo_trusted_authorization w of None \<Rightarrow> True | Some t \<Rightarrow> authorization_post_init t = Inr t)"

definition progress_typed :: "host \<Rightarrow> write_operation \<Rightarrow> bool" where
  "progress_typed H w \<longleftrightarrow> fence_typed (wo_reconcile_fencing_token w) (wo_reconcile_fencing_scope w) \<and>
     (case wo_reconcile_fencing_scope w of None \<Rightarrow> True | Some s \<Rightarrow> canonical_reconcile_scope H w = Inr s) \<and>
     (wo_state w = WrReconciling \<longrightarrow> wo_reconcile_fencing_token w \<noteq> None) \<and>
     (wo_state w = WrWaitingApproval \<longrightarrow> wo_approval_id w \<noteq> None) \<and>
     (wo_state w = WrSucceeded \<longrightarrow> wo_result w \<noteq> None)"

lemma required_pair_typed: "required_fence_pair d = Inr (t, s) \<Longrightarrow> 1 \<le> t \<and> py_strip s \<noteq> []"
  by (auto simp: required_fence_pair_def event_fencing_token_def event_fencing_scope_def exc_simps Let_def write_err_def
      split: option.splits json.splits if_splits)

lemma scope_canonical: "validate_canonical_scope H w s = Inr u \<Longrightarrow> canonical_reconcile_scope H w = Inr s"
  by (auto simp: validate_canonical_scope_def exc_simps)

lemma prepared_typed:
  assumes "prepared_operation H wid e = Inr w"
  shows "value_typed w \<and> progress_typed H w"
proof -
  let ?raw = "jget (ev_data e) ''expectedEntityVersion''"
  from assms obtain expected version trusted where
    e: "(if ?raw = JNull then Inr None else (case as_int_ge 0 ?raw of None \<Rightarrow> write_err ''invalid_expected_entity_version'' | Some i \<Rightarrow> Inr (Some i))) = Inr expected"
    and t: "(case jget (ev_data e) ''trustedAuthorization'' of JObj a \<Rightarrow> bindE (authorization_from_dict H a) (\<lambda>t. Inr (Some t)) | _ \<Rightarrow> Inr None) = Inr trusted"
    and w: "wo_expected_entity_version w = expected" "wo_trusted_authorization w = trusted" "wo_state w = WrPrepared"
      "wo_reconcile_fencing_token w = None" "wo_reconcile_fencing_scope w = None"
    unfolding prepared_operation_def Let_def bindE_eq_Inr by auto
  have "case expected of None \<Rightarrow> True | Some v \<Rightarrow> 0 \<le> v" using e by (auto simp: write_err_def split: if_splits option.splits)
  moreover have "case trusted of None \<Rightarrow> True | Some a \<Rightarrow> authorization_post_init a = Inr a"
    using t by (auto simp: bindE_eq_Inr dest: authorization_from_dict_ok split: json.splits)
  ultimately show ?thesis by (simp add: value_typed_def progress_typed_def fence_typed_def w)
qed

lemma value_typed_fixed: "fixed_part w' = fixed_part w \<Longrightarrow> value_typed w' = value_typed w"
  by (simp add: value_typed_def fixed_part_eqD[of w' w])

lemma change_fence:
  "change_write H e w = Inr w' \<Longrightarrow>
     wo_reconcile_fencing_token w' = wo_reconcile_fencing_token w \<and> wo_reconcile_fencing_scope w' = wo_reconcile_fencing_scope w \<and>
       (wo_state w' = WrReconciling \<longrightarrow> wo_state w = WrReconciling) \<or>
     (\<exists>t s. wo_reconcile_fencing_token w' = Some t \<and> wo_reconcile_fencing_scope w' = Some s \<and>
        required_fence_pair (ev_data e) = Inr (t, s) \<and> validate_canonical_scope H w s = Inr ())"
  unfolding change_write_def Let_def
  by (elim if_Inr_condE) (auto simp: end_write_def reenter_write_def exc_simps split: prod.splits)

lemma change_waiting: "change_write H e w = Inr w' \<Longrightarrow> wo_state w' = WrWaitingApproval \<Longrightarrow> wo_approval_id w' = None \<Longrightarrow>
    wo_state w = WrWaitingApproval \<and> wo_approval_id w = None"
  unfolding change_write_def Let_def
  by (elim if_Inr_condE) (auto simp: end_write_def reenter_write_def exc_simps split: prod.splits)

lemma change_succeeded: "change_write H e w = Inr w' \<Longrightarrow> wo_state w' = WrSucceeded \<Longrightarrow> wo_result w' = None \<Longrightarrow>
    wo_state w = WrSucceeded \<and> wo_result w = None"
  unfolding change_write_def Let_def
  by (elim if_Inr_condE) (auto simp: end_write_def reenter_write_def exc_simps split: prod.splits)

lemma change_typed:
  assumes "change_write H e w = Inr w'" "progress_typed H w"
  shows "progress_typed H w'"
proof -
  have c: "canonical_reconcile_scope H w' = canonical_reconcile_scope H w"
    using fixed_part_eqD[OF change_write_fixed[OF assms(1)]] by (simp add: canonical_reconcile_scope_def)
  have "fence_typed (wo_reconcile_fencing_token w') (wo_reconcile_fencing_scope w') \<and>
     (case wo_reconcile_fencing_scope w' of None \<Rightarrow> True | Some s \<Rightarrow> canonical_reconcile_scope H w' = Inr s) \<and>
     (wo_state w' = WrReconciling \<longrightarrow> wo_reconcile_fencing_token w' \<noteq> None)"
    using change_fence[OF assms(1)]
  proof (elim disjE exE conjE)
    fix t s assume p: "wo_reconcile_fencing_token w' = Some t" "wo_reconcile_fencing_scope w' = Some s"
      "required_fence_pair (ev_data e) = Inr (t, s)" "validate_canonical_scope H w s = Inr ()"
    with required_pair_typed[OF p(3)] scope_canonical[OF p(4)] c show ?thesis by (simp add: fence_typed_def)
  qed (use assms(2) c in \<open>simp add: progress_typed_def split: option.splits\<close>)
  moreover have "(wo_state w' = WrWaitingApproval \<longrightarrow> wo_approval_id w' \<noteq> None) \<and> (wo_state w' = WrSucceeded \<longrightarrow> wo_result w' \<noteq> None)"
    using change_waiting[OF assms(1)] change_succeeded[OF assms(1)] assms(2) unfolding progress_typed_def by blast
  ultimately show ?thesis by (simp add: progress_typed_def)
qed

text \<open>
  C27: every record the write service replays from a log is well formed: it is of the write that was asked for, an expected entity version is not
  negative, an authorization has passed its checks, the reconciliation fence is absent or a token of at least one with the canonical scope of this write,
  a write under reconciliation has one, a write that waits has an approval, and a success has a result.
\<close>

theorem replayed_write_typed:
  assumes "replay_write H es wid = Inr w"
  shows "wo_write_id w = wid \<and> value_typed w \<and> progress_typed H w"
proof -
  from assms have f: "foldE (replay_write_event H wid) es None = Inr (Some w)"
    by (auto simp: replay_write_def write_err_def exc_simps split: option.splits)
  have "\<forall>y. Some w = Some y \<longrightarrow> value_typed y \<and> progress_typed H y"
  proof (rule foldE_invariant[OF f])
    fix e wo wo' assume IH: "\<forall>y. wo = Some y \<longrightarrow> value_typed y \<and> progress_typed H y" and step: "replay_write_event H wid e wo = Inr wo'"
    from step consider "wo' = wo" | w where "wo' = Some w" "prepared_operation H wid e = Inr w"
      | w w' where "wo = Some w" "wo' = Some w'" "change_write H e w = Inr w'"
      by (auto simp: replay_write_event_def exc_simps write_err_def split: if_splits option.splits)
    then show "\<forall>y. wo' = Some y \<longrightarrow> value_typed y \<and> progress_typed H y"
      by cases (use IH in \<open>auto dest: prepared_typed change_typed change_write_fixed value_typed_fixed\<close>)
  qed simp
  moreover have "wo_write_id w = wid" using replay_write_of[OF assms] by (rule write_of_prepared)
  ultimately show ?thesis by simp
qed

theorem replayed_write_typed_witness:
  "\<exists>w. replay_write log_host (sample_events 14) ''w'' = Inr w \<and> value_typed w \<and> progress_typed log_host w"
proof -
  from sample_write_checks obtain w where "replay_write log_host (sample_events 14) ''w'' = Inr w" by (auto split: sum.splits)
  with replayed_write_typed[OF this] show ?thesis by simp
qed

section \<open>Bounded calls\<close>

text \<open>A call makes at most \<open>n\<close> awaits, in any schedule.\<close>

definition awaits_within :: "nat \<Rightarrow> ('f, 'a) service \<Rightarrow> bool" where
  "awaits_within n m \<longleftrightarrow> (\<forall>\<sigma>. fst (snd (m \<sigma>)) \<le> fst \<sigma> + n)"

named_theorems await_rules

lemma within_mono: "awaits_within n m \<Longrightarrow> n \<le> k \<Longrightarrow> awaits_within k m"
  by (fastforce simp: awaits_within_def intro: order_trans)

lemma within_bindS: "awaits_within n m \<Longrightarrow> (\<And>x. awaits_within k (f x)) \<Longrightarrow> awaits_within (n + k) (bindS m f)"
  unfolding awaits_within_def bindS_def
proof (intro allI)
  fix \<sigma> assume m: "\<forall>\<sigma>. fst (snd (m \<sigma>)) \<le> fst \<sigma> + n" and f: "\<And>x. \<forall>\<sigma>. fst (snd (f x \<sigma>)) \<le> fst \<sigma> + k"
  obtain r \<sigma>' where r: "m \<sigma> = (r, \<sigma>')" by (rule prod.exhaust)
  from m r have "fst \<sigma>' \<le> fst \<sigma> + n" by (metis snd_conv)
  have "fst (snd (f x \<sigma>')) \<le> fst \<sigma> + (n + k)" for x using f[of x] \<open>fst \<sigma>' \<le> fst \<sigma> + n\<close> by (metis add.assoc add_le_mono1 order_trans)
  with \<open>fst \<sigma>' \<le> fst \<sigma> + n\<close> show "fst (snd (case m \<sigma> of (Inl e, \<sigma>') \<Rightarrow> (Inl e, \<sigma>') | (Inr x, \<sigma>') \<Rightarrow> f x \<sigma>')) \<le> fst \<sigma> + (n + k)"
    using r by (cases r) auto
qed

lemma within_pure [await_rules]: "awaits_within n (liftS r)"
  by (simp add: awaits_within_def liftS_def)

text \<open>What costs nothing, and what costs one await.\<close>

lemma within_free [await_rules]:
  "(\<And>x. awaits_within n (f x)) \<Longrightarrow> awaits_within n (bindS (liftS r) f)"
  "(\<And>x. awaits_within n (g x)) \<Longrightarrow> awaits_within n (bindS (\<lambda>\<sigma>. (h \<sigma>, \<sigma>)) g)"
  "(\<And>x. awaits_within n (v x)) \<Longrightarrow> awaits_within n (bindS (validate_write_specs H W events specs) v)"
  unfolding validate_write_specs_def
  by (simp_all add: awaits_within_def bindS_def liftS_def clockS_def split: sum.splits)

lemma within_one:
  assumes "\<And>\<sigma>. fst (snd (m \<sigma>)) = Suc (fst \<sigma>)" "\<And>x. awaits_within n (f x)"
  shows "awaits_within (Suc n) (bindS m f)"
  using within_bindS[of 1 m n f] assms by (simp add: awaits_within_def)

lemma within_await [await_rules]:
  "(\<And>x. awaits_within n (f x)) \<Longrightarrow> awaits_within (Suc n) (bindS (await_load W sid op) f)"
  "(\<And>x. awaits_within n (g x)) \<Longrightarrow> awaits_within (Suc n) (bindS (await_commit H W sid' op' events specs c) g)"
  "(\<And>x. awaits_within n (h x)) \<Longrightarrow> awaits_within (Suc n) (bindS (await_claims W call) h)"
  by (rule within_one, simp add: await_load_def await_commit_def await_append_batch_def await_append_fenced_def await_claims_def Let_def
      split: prod.splits option.splits, simp)+

lemma within_case [await_rules]:
  "awaits_within n a \<Longrightarrow> awaits_within n b \<Longrightarrow> awaits_within n (if c then a else b)"
  "awaits_within n a \<Longrightarrow> (\<And>x. awaits_within n (g x)) \<Longrightarrow> awaits_within n (case v of None \<Rightarrow> a | Some x \<Rightarrow> g x)"
  "(\<And>e. awaits_within n (f e)) \<Longrightarrow> (\<And>x. awaits_within n (h x)) \<Longrightarrow> awaits_within n (case r of Inl e \<Rightarrow> f e | Inr x \<Rightarrow> h x)"
  "(\<And>b. awaits_within n (f1 b)) \<Longrightarrow> (\<And>f. awaits_within n (f2 f)) \<Longrightarrow> awaits_within n (case e of Builtin b \<Rightarrow> f1 b | Raised f \<Rightarrow> f2 f)"
  "(\<And>x y. awaits_within n (k x y)) \<Longrightarrow> awaits_within n (case p of (x, y) \<Rightarrow> k x y)"
  by (simp_all split: option.splits sum.splits exc.splits prod.splits)

lemma within_tryS: "awaits_within n m \<Longrightarrow> awaits_within n (tryS m)"
  by (simp add: awaits_within_def tryS_def case_prod_unfold)

lemma get_write_within: "awaits_within 1 (get_write H W wid)"
  unfolding get_write_def One_nat_def by (intro await_rules)

lemma within_get [await_rules]: "(\<And>x. awaits_within n (f x)) \<Longrightarrow> awaits_within (Suc n) (bindS (get_write H W wid) f)"
  unfolding Suc_eq_plus1_left by (rule within_bindS[OF get_write_within])

lemma finish_loop_within: "awaits_within (Suc (2 * n)) (finish_loop H V W n tr rec)"
proof (induction n)
  case (Suc n)
  show ?case unfolding finish_loop.simps Let_def mult_Suc_right numeral_2_eq_2 add_Suc add_0
    by (intro await_rules Suc.IH[unfolded numeral_2_eq_2])
qed (simp add: await_rules)

lemma finish_within: "awaits_within 41 (finish_transition H V W tr rec)"
  unfolding finish_transition_def max_conflict_retries_def
  by (rule within_mono[OF finish_loop_within]) simp

lemma mark_within: "awaits_within 42 (mark_outcome_unknown H V W w reason fenced secs)"
proof -
  have "awaits_within (Suc (41 + 0)) (mark_outcome_unknown H V W w reason fenced secs)"
    unfolding mark_outcome_unknown_def by (intro await_rules within_bindS finish_within)
  then show ?thesis by simp
qed

lemma claim_loop_within: "awaits_within (2 * n) (claim_loop H W n x actor secs entity rec)"
proof (induction n)
  case (Suc n)
  show ?case unfolding claim_loop.simps mult_Suc_right numeral_2_eq_2 add_Suc add_0
    by (intro await_rules Suc.IH[unfolded numeral_2_eq_2])
qed (simp add: await_rules)

lemma find_within: "awaits_within 2 (find_existing H W a hashes i)"
  unfolding find_existing_def find_by_idempotency_def Let_def numeral_2_eq_2 by (intro await_rules)

lemma prepare_loop_within: "awaits_within (Suc (4 * n)) (prepare_loop H W n a p)"
proof (induction n)
  case (Suc n)
  have "awaits_within (2 + Suc (Suc (Suc (4 * n)))) (prepare_loop H W (Suc n) a p)"
    unfolding prepare_loop.simps
    by (intro within_bindS[OF find_within] await_rules Suc.IH within_mono[OF get_write_within]) simp
  then show ?case by (rule within_mono) simp
qed (simp add: await_rules)

lemma prepare_within: "awaits_within 83 (prepare_write H V W wid u a)"
proof -
  have "awaits_within (2 + Suc (4 * 20)) (prepare_write H V W wid u a)"
    unfolding prepare_write_def max_conflict_retries_def
    by (intro await_rules within_bindS[OF find_within] prepare_loop_within)
  then show ?thesis by simp
qed

lemma claim_within: "awaits_within 41 (claim_write H V W wid x)"
proof -
  have "awaits_within (Suc (2 * 20 + 0)) (claim_write H V W wid x)"
    unfolding claim_write_def max_conflict_retries_def by (intro await_rules within_bindS[OF claim_loop_within])
  then show ?thesis by simp
qed

lemma settle_within: "awaits_within 83 (settle_write H V W fenced secs w outcome)"
proof (cases outcome)
  case (HReturned v)
  have "awaits_within (41 + (42 + 0)) (settle_write H V W fenced secs w (HReturned v))"
    unfolding settle_write_def Let_def handler_outcome.case
    by (intro await_rules within_bindS within_tryS finish_within mark_within)
  with HReturned show ?thesis by simp
next
  case HCancelled
  have "awaits_within (42 + 0) (settle_write H V W fenced secs w HCancelled)"
    unfolding settle_write_def Let_def handler_outcome.case by (intro await_rules within_bindS within_tryS mark_within)
  with HCancelled show ?thesis by (auto intro: within_mono)
next
  case (HNotCommitted err)
  have "awaits_within (41 + 0) (settle_write H V W fenced secs w (HNotCommitted err))"
    unfolding settle_write_def Let_def handler_outcome.case by (intro await_rules within_bindS within_tryS finish_within)
  with HNotCommitted show ?thesis by (auto intro: within_mono)
next
  case (HRaised err)
  have "awaits_within (41 + 0) (settle_write H V W fenced secs w (HRaised err))"
    unfolding settle_write_def Let_def handler_outcome.case by (intro await_rules within_bindS within_tryS finish_within)
  with HRaised show ?thesis by (auto intro: within_mono)
qed

lemma execute_within: "fst (snd (execute_write H V W wid x \<sigma>)) \<le> fst \<sigma> + 124"
proof -
  obtain r \<sigma>1 where c: "claim_write H V W wid x \<sigma> = (r, \<sigma>1)" by (rule prod.exhaust)
  have 1: "fst \<sigma>1 \<le> fst \<sigma> + 41" using claim_within[of H V W wid x] c unfolding awaits_within_def by (metis snd_conv)
  have 2: "fst (snd (settle_write H V W f s w out \<sigma>1)) \<le> fst \<sigma>1 + 83" for f s w out using settle_within unfolding awaits_within_def by blast
  from 1 have "fst (snd (settle_write H V W f s w out \<sigma>1)) \<le> fst \<sigma> + 124" for f s w out using 2[of f s w out] by linarith
  with 1 c show ?thesis by (auto simp: execute_write_def case_prod_unfold Let_def split: sum.splits claim_outcome.splits)
qed

lemma assert_within: "awaits_within 1 (assert_reconcile_claim V W lost l)"
proof -
  have "awaits_within (Suc 0) (bindS (await_claims W (\<lambda>now. memory_renew_fenced_claim now l (ws_lease_seconds V))) (\<lambda>r.
      liftS (if r = Inr True then Inr () else write_err ''write_reconcile_claim_lost'')))" by (intro await_rules)
  then show ?thesis unfolding awaits_within_def assert_reconcile_claim_def by simp
qed

lemma body_within: "awaits_within 83 (reconcile_body H V W lost handler l rec)"
proof -
  have rest: "awaits_within (1 + (41 + 0)) (case handler c of RCancelled \<Rightarrow> liftS (Inl (Raised WCancelled))
      | RRaised err \<Rightarrow> bindS (assert_reconcile_claim V W lost l) (\<lambda>_. bindS (finish_transition H V W tr c) (\<lambda>_. liftS (Inl (Raised (WHandler err)))))
      | RReturned v \<Rightarrow> bindS (assert_reconcile_claim V W lost l) (\<lambda>_. let (ty, result) = reconcile_event v in finish_transition H V W (tr' ty result) c))"
    for c tr tr'
  proof (cases "handler c")
    case (RReturned v)
    show ?thesis unfolding RReturned reconcile_outcome.case Let_def
      by (intro within_bindS[OF assert_within] within_case) (simp add: finish_within)
  next
    case (RRaised err)
    show ?thesis unfolding RRaised reconcile_outcome.case by (intro within_bindS[OF assert_within] within_bindS[OF finish_within] within_pure)
  qed (simp add: within_pure)
  have "awaits_within (41 + (1 + (41 + 0))) (reconcile_body H V W lost handler l rec)"
    unfolding reconcile_body_def Let_def
    by (intro within_bindS rest[unfolded Let_def] within_case finish_within within_pure)
  then show ?thesis by simp
qed

lemma reconcile_within: "awaits_within 86 (reconcile_write H V W lost owner wid handler)"
proof -
  have "awaits_within (83 + Suc 0) (finallyS (reconcile_body H V W lost handler l rec) (await_claims W (\<lambda>now. memory_release_fenced_claim l)))" for l rec
    unfolding finallyS_def by (intro within_bindS within_tryS body_within await_rules)
  then have "awaits_within (Suc (Suc (83 + Suc 0))) (reconcile_write H V W lost owner wid handler)"
    unfolding reconcile_write_def by (intro await_rules)
  then show ?thesis by simp
qed

text \<open>
  A call of the write service ends after a bounded number of awaits, whatever the other workers do, even if they win every race for the log: a preparation after
  at most 83, an execution after at most 124, not counting what its handler does, and a reconciliation after at most 86.
\<close>

theorem write_calls_bounded:
  "fst (snd (prepare_write H V W wid u a \<sigma>)) \<le> fst \<sigma> + 83 \<and> fst (snd (execute_write H V W wid x \<sigma>)) \<le> fst \<sigma> + 124 \<and>
   fst (snd (reconcile_write H V W lost owner wid handler \<sigma>)) \<le> fst \<sigma> + 86"
  using prepare_within[of H V W wid u a] execute_within[of H V W wid x \<sigma>] reconcile_within[of H V W lost owner wid handler]
  by (simp add: awaits_within_def del: split_paired_All)

end
