(* ===== verification/Write_Demo.thy ===== *)
theory Write_Demo
  imports Write_Reconciliation Write_Bounds Approval_Agreement
begin

text \<open>
  A run of the write service: a write that needs an approval is prepared, approved, prepared again and executed twice; in another
  history its handler fails with an unknown outcome, and the write is reconciled. Each call is evaluated once.
\<close>

definition text_host :: host where
  "text_host = log_host\<lparr>sha256_hex := take 4\<rparr>"

definition demo_writes :: write_service where
  "demo_writes = \<lparr>ws_approvals = demo_service, ws_supports_atomic = True, ws_supports_cross_process = False, ws_lease_seconds = 30, ws_renew_interval = 10\<rparr>"

definition demo_prepare_args :: prepare_args where
  "demo_prepare_args = \<lparr>pa_session_id = ''s'', pa_operation_id = ''op'', pa_tool_name = ''t'', pa_arguments = [(''n'', JInt 5)],
     pa_idempotency_key = ''k'', pa_requester = ExactIdentity requester_ann, pa_requires_approval = True, pa_required_role = ''manager'',
     pa_tool_call_id = None, pa_entity_id = Some ''e'', pa_expected_entity_version = Some 3, pa_business_preconditions = None,
     pa_trusted_authorization = None, pa_authorization_action_hash = None, pa_fenced_claim = None, pa_plan_id = None, pa_step_id = None,
     pa_lease_seconds = None\<rparr>"

definition demo_execute_args :: "handler_outcome \<Rightarrow> execute_args" where
  "demo_execute_args out = \<lparr>xa_actor = ExactIdentity requester_ann, xa_idempotency_key = ''k'', xa_handler = Some (\<lambda>a k i. out), xa_context_handler = None,
     xa_approval_resume_id = None, xa_fencing_token = None, xa_fenced_claim = None, xa_plan_id = None, xa_step_id = None, xa_lease_seconds = None\<rparr>"

definition demo_report :: "write_operation \<Rightarrow> reconcile_outcome" where
  "demo_report w = RReturned (JObj [(''status'', JStr '' Succeeded'')])"

abbreviation demo_prepare :: "string \<Rightarrow> memory_store \<Rightarrow> write_operation write_result \<times> call_state" where
  "demo_prepare wid st \<equiv> prepare_write text_host demo_writes (demo_world 0) wid ''a'' demo_prepare_args (0, st)"

abbreviation demo_approve :: "memory_store \<Rightarrow> (approval_code, approval_record) result \<times> call_state" where
  "demo_approve st \<equiv> grant_approval text_host demo_service (demo_world 0) ''a'' (ExactIdentity approver_bob) False None 300 (0, st)"

abbreviation demo_execute :: "handler_outcome \<Rightarrow> memory_store \<Rightarrow> (write_call option \<times> write_operation write_result) \<times> call_state" where
  "demo_execute out st \<equiv> execute_write text_host demo_writes (demo_world 0) ''w'' (demo_execute_args out) (0, st)"

abbreviation demo_reconcile :: "memory_store \<Rightarrow> write_operation write_result \<times> call_state" where
  "demo_reconcile st \<equiv> reconcile_write text_host demo_writes (demo_world 0) (\<lambda>_. False) ''r'' ''w'' demo_report (0, st)"

definition prepared_store :: memory_store where
  "prepared_store = snd (snd (demo_prepare ''w'' demo_store))"

definition approved_store :: memory_store where
  "approved_store = snd (snd (demo_approve prepared_store))"

definition executed_store :: memory_store where
  "executed_store = snd (snd (demo_execute (HReturned (JObj [])) approved_store))"

definition unknown_store :: memory_store where
  "unknown_store = snd (snd (demo_execute (HRaised no_attributes) approved_store))"

definition write_demo_checks :: bool where
  "write_demo_checks \<longleftrightarrow> one_log text_host demo_store \<and>
     (case demo_prepare ''w'' demo_store of (r1, \<sigma>1) \<Rightarrow> (case r1 of Inr w \<Rightarrow> wo_idempotency_key_hash w \<noteq> ''k'' | Inl _ \<Rightarrow> False) \<and>
        (case demo_approve (snd \<sigma>1) of (r2, \<sigma>2) \<Rightarrow> isOk r2 \<and> one_log text_host (snd \<sigma>2) \<and>
           (case demo_prepare ''w2'' (snd \<sigma>2) of (r, \<sigma>) \<Rightarrow> (case r of Inr w \<Rightarrow> wo_idempotency_key_hash w \<noteq> ''k'' | Inl _ \<Rightarrow> False)) \<and>
           (case demo_execute (HReturned (JObj [])) (snd \<sigma>2) of ((call, r3), \<sigma>3) \<Rightarrow> call \<noteq> None \<and> isOk r3) \<and>
           (case demo_execute (HRaised no_attributes) (snd \<sigma>2) of ((call, r4), \<sigma>4) \<Rightarrow>
              call \<noteq> None \<and> \<not> isOk r4 \<and> isOk (fst (demo_reconcile (snd \<sigma>4))))))"

lemma write_demo_checked: "write_demo_checks"
  by code_simp

lemmas write_demo_facts = write_demo_checked[unfolded write_demo_checks_def case_prod_unfold, folded prepared_store_def, folded approved_store_def,
  folded executed_store_def unknown_store_def]

lemma demo_write_logs: "logs_ok text_host demo_store" "logs_ok text_host approved_store"
  using write_demo_facts one_log_ok by blast+

end
