(* ===== verification/Write_Guarantees.thy ===== *)
theory Write_Guarantees
  imports Write_Demo
begin

text \<open>
  What the write service guarantees, whatever other workers do between its awaits as long as they too keep the logs: a handler runs at most
  once per write, only for a trusted actor, for the prepared arguments and after the approval the write waited for; its outcome is reported as it
  is stored; a repeated preparation is the same write; and a reconciliation decides under its lease.
\<close>

section \<open>Every call keeps the logs\<close>

text \<open>One call of one of the two services, with its arguments, and the state it ends in.\<close>

datatype service_call =
    CallApproval approval_call
  | CallPrepare string string prepare_args
  | CallExecute string execute_args
  | CallReconcile "nat \<Rightarrow> bool" string string "write_operation \<Rightarrow> reconcile_outcome"

fun run_service_call :: "host \<Rightarrow> write_service \<Rightarrow> scheduler \<Rightarrow> service_call \<Rightarrow> call_state \<Rightarrow> call_state" where
  "run_service_call H V W (CallApproval c) \<sigma> = snd (run_approval_call H (ws_approvals V) W c \<sigma>)"
| "run_service_call H V W (CallPrepare wid u a) \<sigma> = snd (prepare_write H V W wid u a \<sigma>)"
| "run_service_call H V W (CallExecute wid x) \<sigma> = snd (execute_write H V W wid x \<sigma>)"
| "run_service_call H V W (CallReconcile lost owner wid h) \<sigma> = snd (reconcile_write H V W lost owner wid h \<sigma>)"

lemma after_snd: "after m \<sigma> (\<lambda>r \<sigma>'. P (snd \<sigma>')) \<Longrightarrow> P (snd (snd (m \<sigma>)))"
  by (auto simp: after_def split: prod.splits)

context durable_client
begin

lemma execute_evolves: "evolves H (snd \<sigma>) (snd (snd (execute_write H V W wid x \<sigma>)))"
proof -
  obtain call r \<sigma>' where x: "execute_write H V W wid x (fst \<sigma>, snd \<sigma>) = ((call, r), \<sigma>')" by (metis surj_pair)
  then have "evolves H (snd \<sigma>) (snd \<sigma>')"
    by (cases rule: execute_cases[OF x evolves_refl]) (auto simp: claims_def)
  with x show ?thesis by simp
qed

lemma service_call_evolves: "evolves H (snd \<sigma>) (snd (run_service_call H V W c \<sigma>))"
proof (cases c)
  case (CallApproval a)
  show ?thesis unfolding CallApproval run_service_call.simps by (rule after_snd[OF call_evolves])
next
  case (CallPrepare wid u a)
  have "after (prepare_write H V W wid u a) \<sigma> (\<lambda>r \<sigma>'. evolves H (snd \<sigma>) (snd \<sigma>'))"
    by (rule after_mono[OF prepare_spec[OF evolves_refl]]) (simp add: prepares_def)
  then show ?thesis unfolding CallPrepare run_service_call.simps by (rule after_snd)
next
  case (CallExecute wid x)
  show ?thesis unfolding CallExecute run_service_call.simps by (rule execute_evolves)
next
  case (CallReconcile lost owner wid h)
  have "after (reconcile_write H V W lost owner wid h) \<sigma> (\<lambda>r \<sigma>'. evolves H (snd \<sigma>) (snd \<sigma>'))"
    by (rule after_mono[OF reconcile_spec[OF evolves_refl]]) (simp add: reconciled_def)
  then show ?thesis unfolding CallReconcile run_service_call.simps by (rule after_snd)
qed

end

text \<open>Workers of both services between the awaits of a call: they are durable clients of each other.\<close>

definition among_services :: "host \<Rightarrow> write_service \<Rightarrow> service_call list \<Rightarrow> scheduler \<Rightarrow> scheduler" where
  "among_services H V calls W = W\<lparr>sc_env := \<lambda>k st. if k < length calls then snd (run_service_call H V (alone W) (calls ! k) (0, st)) else st\<rparr>"

interpretation service_workers: durable_client H "among_services H V calls W" for H V calls W
proof unfold_locales
  fix st k
  show "evolves H st (sc_env (among_services H V calls W) k st)"
    using lone_worker.service_call_evolves[of H "(0, st)" V W "calls ! k"] by (simp add: among_services_def)
qed

text \<open>
  C5: every call of the approval service and of the write service, made between any calls of either service by other workers, leaves every stored operation
  replayable, with unique facts and events numbered by position, and only appends to the log.
\<close>

theorem service_calls_keep_logs:
  assumes "logs_ok H st" and "run_service_call H V (among_services H V' calls W) c (k, st) = (k', st')"
  shows "(\<exists>new. ms_events st' = ms_events st @ new) \<and> numbered (ms_events st') \<and> unique_facts H (ms_events st') \<and>
    (\<forall>sid op. memory_load (Some sid) (Some op) st' \<noteq> [] \<longrightarrow> isOk (replay_operation H (memory_load (Some sid) (Some op) st')))"
  using service_workers.service_call_evolves[of H "(k, st)" V V' calls W c] assms
  by (simp add: evolves_def logs_ok_def load_of_operation)

theorem service_calls_keep_logs_witness:
  "isOk (fst (demo_prepare ''w'' demo_store)) \<and> numbered (ms_events prepared_store)"
proof -
  have w: "among_services text_host demo_writes [] (demo_world 0) = demo_world 0" by (simp add: among_services_def demo_world_def)
  have "run_service_call text_host demo_writes (among_services text_host demo_writes [] (demo_world 0)) (CallPrepare ''w'' ''a'' demo_prepare_args) (0, demo_store) =
    (fst (snd (demo_prepare ''w'' demo_store)), prepared_store)" unfolding w run_service_call.simps prepared_store_def by simp
  from service_calls_keep_logs[OF demo_write_logs(1) this] write_demo_facts show ?thesis by (auto simp: isOk_iff split: sum.splits)
qed

section \<open>The log a claim leaves\<close>

lemma change_write_state:
  "ev_type e = ''write_approved'' \<Longrightarrow> wo_state w = WrWaitingApproval \<Longrightarrow> change_write H e w = Inr (w\<lparr>wo_state := WrApproved\<rparr>)"
  "ev_type e = ''write_submitting'' \<Longrightarrow> wo_state w = WrApproved \<Longrightarrow> change_write H e w = Inr (w\<lparr>wo_state := WrSubmitting\<rparr>)"
  by (simp_all add: change_write_def need_state_def guardE_def)

lemma replay_event_other: "map_of (ev_data e) ''writeId'' = None \<Longrightarrow> replay_write_event H wid e wo = Inr wo"
  by (simp add: replay_write_event_def jget_def)

lemma replay_event_change:
  "jget (ev_data e) ''writeId'' = JStr wid \<Longrightarrow> ev_type e \<noteq> ''write_prepared'' \<Longrightarrow> change_write H e w = Inr w' \<Longrightarrow>
     replay_write_event H wid e (Some w) = Inr (Some w')"
  by (simp add: replay_write_event_def)

lemma approval_specs_shape:
  assumes "approval_specs H events x actor w = Inr (specs, deadline)"
  obtains others aid where "specs = others @ [(''write_approved'', [(''writeId'', JStr (wo_write_id w)), (''approvalId'', JStr aid)])]"
    "\<forall>p \<in> set others. map_of (snd p) ''writeId'' = None"
  using assms unfolding approval_specs_def
  by (auto simp: exc_simps write_err_def opt_int_def split: option.splits if_splits)

lemma dispatch_specs_shape: "tool_dispatch_specs events w = Inr specs \<Longrightarrow> \<forall>p \<in> set specs. map_of (snd p) ''writeId'' = None"
  by (auto simp: tool_dispatch_specs_def exc_simps split: option.splits if_splits)

lemma replay_others:
  "\<forall>p \<in> set specs. map_of (snd p) ''writeId'' = None \<Longrightarrow> foldE (replay_write_event H wid) (batch_events clock sid op n specs) wo = Inr wo"
  by (induction specs arbitrary: n) (auto simp: replay_event_other)

lemma batch_events_append:
  "batch_events clock sid op n (xs @ ys) = batch_events clock sid op n xs @ batch_events clock sid op (n + length xs) ys"
  by (induction xs arbitrary: n) auto

lemma claim_log_replays:
  assumes "claim_log H W x actor w lg"
  shows "replay_write H lg (wo_write_id w) = Inr w"
proof -
  from assms obtain events clock n specs deadline current where
    lg: "lg = events @ batch_events clock (wo_session_id w) (wo_operation_id w) n specs" and
    cur: "replay_write H events (wo_write_id w) = Inr current" "claim_specs H events x actor current = Inr (specs, deadline)"
      "w = current\<lparr>wo_state := WrSubmitting\<rparr>" unfolding claim_log_def by blast
  let ?wid = "wo_write_id current" and ?r = "replay_write_event H (wo_write_id current)"
  let ?sid = "wo_session_id w" and ?op = "wo_operation_id w"
  from cur(1,3) have fold: "foldE ?r events None = Inr (Some current)"
    by (auto simp: replay_write_def write_err_def exc_simps split: option.splits)
  obtain released dispatch where rel: "if wo_state current = WrWaitingApproval then approval_specs H events x actor current = Inr (released, deadline)
      else wo_state current = WrApproved \<and> released = []"
    and dis: "tool_dispatch_specs events current = Inr dispatch"
    and specs: "specs = released @ dispatch @ [submit_spec actor current]"
    using cur(2) by (auto simp: claim_specs_def exc_simps submit_spec_def write_err_def split: if_splits)
  have r1: "foldE ?r (batch_events clock ?sid ?op n released) (Some current) = Inr (Some (current\<lparr>wo_state := WrApproved\<rparr>))"
  proof (cases "wo_state current = WrWaitingApproval")
    case True
    with rel obtain others aid where o: "released = others @ [(''write_approved'', [(''writeId'', JStr ?wid), (''approvalId'', JStr aid)])]"
      "\<forall>p \<in> set others. map_of (snd p) ''writeId'' = None" by (auto elim: approval_specs_shape)
    show ?thesis using True
      by (simp add: o(1) batch_events_append foldE_append replay_others[OF o(2)] replay_event_change change_write_state jget_def)
  next
    case False
    with rel have "current\<lparr>wo_state := WrApproved\<rparr> = current" by simp
    with rel False show ?thesis by simp
  qed
  have "foldE ?r lg None = Inr (Some w)"
    unfolding lg specs batch_events_append foldE_append fold r1 bindE_simps
    by (simp add: replay_others[OF dispatch_specs_shape[OF dis]] submit_spec_def replay_event_change change_write_state jget_def cur(3))
  with cur(3) show ?thesis by (simp add: replay_write_def)
qed

text \<open>A claimed write is under submission in the reducer's state too, with its approval granted and consumed.\<close>

definition approved_before :: "string option \<Rightarrow> operation_event list \<Rightarrow> bool" where
  "approved_before aid es \<longleftrightarrow> (case aid of None \<Rightarrow> True | Some a \<Rightarrow>
     \<exists>g \<in> set es. \<exists>c \<in> set es. grants a g \<and> consumes a c \<and> ev_sequence g < ev_sequence c)"

lemma numbered_filter_sorted: "numbered es \<Longrightarrow> sorted (map ev_sequence (filter P es))"
  by (rule sorted_filter) (simp add: numbered_def sorted_iff_nth_mono)

lemma submitted_snapshot:
  assumes "logs_ok H st" "claim_log H W x actor w (filter (of_operation sid op) (ms_events st))"
  obtains s c where "replay_operation H (filter (of_operation sid op) (ms_events st)) = Inr s" "map_of (os_writes s) (wo_write_id w) = Some c"
    "write_agrees w c" "wr_state c = WrSubmitting" "approved_before (wr_approval_id c) (filter (of_operation sid op) (ms_events st))"
proof -
  let ?es = "filter (of_operation sid op) (ms_events st)"
  have w: "replay_write H ?es (wo_write_id w) = Inr w" using claim_log_replays[OF assms(2)] .
  then have "?es \<noteq> []" by (auto simp: replay_write_def write_err_def)
  then obtain s where s: "replay_operation H ?es = Inr s" using assms(1) by (auto simp: logs_ok_def isOk_iff)
  have "sorted (map ev_sequence ?es)" using assms(1) by (auto simp: logs_ok_def intro: numbered_filter_sorted)
  from write_replay_match[OF s this w] obtain c where c: "map_of (os_writes s) (wo_write_id w) = Some c" "write_agrees w c" by blast
  have state: "wr_state c = WrSubmitting" using c(2) assms(2) by (auto simp: write_agrees_def claim_log_def)
  have "approved_before (wr_approval_id c) ?es"
  proof (cases "wr_approval_id c")
    case (Some aid)
    from released_write_history[OF s c(1) Some] state Some show ?thesis by (auto simp: approved_before_def released_def)
  qed (simp add: approved_before_def)
  with s c state that show thesis by blast
qed

section \<open>Executions\<close>

text \<open>The handler's reply to a call, and a call for what was prepared.\<close>

definition replied :: "execute_args \<Rightarrow> write_call \<Rightarrow> handler_outcome \<Rightarrow> bool" where
  "replied x call outcome \<longleftrightarrow> (case call of
     PlainCall a k i \<Rightarrow> (\<exists>h. xa_handler x = Some h \<and> h a k i = outcome)
   | ContextCall c \<Rightarrow> (\<exists>h. xa_context_handler x = Some h \<and> h c = outcome))"

definition as_prepared :: "host \<Rightarrow> operation_event \<Rightarrow> string \<Rightarrow> verified_identity \<Rightarrow> write_call \<Rightarrow> bool" where
  "as_prepared H q key actor call \<longleftrightarrow> (case call of
     PlainCall a k i \<Rightarrow> a = jget_or (ev_data q) ''arguments'' (JObj []) \<and> k = key \<and> i = actor
   | ContextCall c \<Rightarrow> JStr (wc_write_id c) = jget (ev_data q) ''writeId'' \<and> wc_session_id c = ev_session_id q \<and>
       wc_operation_id c = ev_operation_id q \<and> wc_tool_name c = str_field H (ev_data q) ''toolName'' \<and>
       wc_arguments c = jget_or (ev_data q) ''arguments'' (JObj []) \<and> wc_action_hash c = str_field H (ev_data q) ''actionHash'' \<and>
       wc_requester_id c = str_field H (ev_data q) ''requesterId'' \<and> wc_idempotency_key c = key \<and> wc_actor c = actor)"

lemma invoke_handler_call:
  assumes "invoke_handler x actor w = (Some call, outcome)"
  shows "replied x call outcome \<and> (call = PlainCall (wo_arguments w) (xa_idempotency_key x) actor \<or>
    call = ContextCall (execution_context x actor w))"
  using assms by (auto simp: invoke_handler_def replied_def context_post_init_def exc_simps split: option.splits sum.splits)

lemma as_prepared_call:
  assumes "call = PlainCall (wo_arguments w) (xa_idempotency_key x) actor \<or> call = ContextCall (execution_context x actor w)"
    and "write_of H wid es w"
  obtains q where "q \<in> set es" "ev_type q = ''write_prepared''" "jget (ev_data q) ''writeId'' = JStr wid"
    "wo_session_id w = ev_session_id q" "wo_operation_id w = ev_operation_id q" "as_prepared H q (xa_idempotency_key x) actor call"
  using assms(2)
proof (rule write_of_prepared)
  fix q assume q: "q \<in> set es" "ev_type q = ''write_prepared''" "jget (ev_data q) ''writeId'' = JStr wid"
    "wo_write_id w = wid" "wo_session_id w = ev_session_id q" "wo_operation_id w = ev_operation_id q"
    "wo_arguments w = jget_or (ev_data q) ''arguments'' (JObj [])" "wo_action_hash w = str_field H (ev_data q) ''actionHash''"
    "wo_tool_name w = str_field H (ev_data q) ''toolName''" "wo_requester_id w = str_field H (ev_data q) ''requesterId''"
  have "as_prepared H q (xa_idempotency_key x) actor call"
    using assms(1) q by (auto simp: as_prepared_def execution_context_def)
  with q(1-3,5,6) show thesis by (rule that)
qed

lemma execute_checks_ok:
  assumes "execute_checks H V x w = Inr (actor, secs, entity)"
  shows "xa_actor x = ExactIdentity actor" "sv_validator (ws_approvals V) actor = Some True" "idempotency_key_matches H w (xa_idempotency_key x) = Inr True"
  using assms
  by (auto simp: execute_checks_def exc_simps as_approval_def catchE_def assert_trusted_identity_def
      split: identity_arg.splits if_splits sum.splits exc.splits)

lemma key_matches_fixed: "fixed_part w = fixed_part w' \<Longrightarrow> idempotency_key_matches H w k = idempotency_key_matches H w' k"
  by (simp add: idempotency_key_matches_def idempotency_hash_for_record_def fixed_part_eqD[of w w'])

text \<open>A new submission among the events of the operation of its write.\<close>

lemma new_submission:
  assumes "new_fact st st' sid op (submit_spec actor w)" "wo_write_id w = wid"
  shows "\<exists>e \<in> set (drop (length (ms_events st)) (ms_events st')). of_operation sid op e \<and> submits wid e"
  using assms by (auto simp: new_fact_def submit_spec_def submits_def jget_def)

lemma claims_submission:
  assumes "claims H V W wid x st (Inr (actor, secs, Claimed w)) \<sigma>'"
  obtains q where "q \<in> set (ms_events (snd \<sigma>'))" "ev_type q = ''write_prepared''" "jget (ev_data q) ''writeId'' = JStr wid"
    "\<exists>e \<in> set (drop (length (ms_events st)) (ms_events (snd \<sigma>'))). of_operation (ev_session_id q) (ev_operation_id q) e \<and> submits wid e"
proof -
  from assms obtain rec where rec: "write_of H wid (ms_events (snd \<sigma>')) rec" "claimed H W x actor rec st (Inr (Claimed w)) \<sigma>'"
    unfolding claims_def by blast
  have id: "wo_write_id rec = wid" using rec(1) by (rule write_of_prepared)
  with rec(2) have w: "write_of H wid (ms_events (snd \<sigma>')) w" "wo_write_id w = wid"
    and new: "new_fact st (snd \<sigma>') (wo_session_id w) (wo_operation_id w) (submit_spec actor w)" by (auto simp: claimed_def)
  from w(1) obtain q where "q \<in> set (ms_events (snd \<sigma>'))" "ev_type q = ''write_prepared''" "jget (ev_data q) ''writeId'' = JStr wid"
    "wo_session_id w = ev_session_id q" "wo_operation_id w = ev_operation_id q" by (rule write_of_prepared) blast
  with new_submission[OF new w(2)] that show thesis by simp
qed

lemma submission_count:
  assumes "logs_ok H st" "\<exists>e \<in> set (ms_events st). of_operation sid op e \<and> submits wid e"
  shows "length (filter (submits wid) (filter (of_operation sid op) (ms_events st))) = 1"
proof -
  let ?es = "filter (of_operation sid op) (ms_events st)"
  from assms(2) have ne: "filter (submits wid) ?es \<noteq> []" by (auto simp: filter_empty_conv)
  then have "?es \<noteq> []" by (metis filter.simps(1))
  then obtain s where "replay_operation H ?es = Inr s" using assms(1) by (auto simp: logs_ok_def isOk_iff)
  from submission.at_most_once[OF this, of wid] ne show ?thesis by (simp add: le_Suc_eq)
qed

lemma no_second_submission:
  assumes "logs_ok H st3" "\<exists>e \<in> set (ms_events st1). of_operation sid op e \<and> submits wid e" "evolves H st1 st2" "evolves H st2 st3"
    and "\<exists>e \<in> set (drop (length (ms_events st2)) (ms_events st3)). of_operation sid op e \<and> submits wid e"
  shows False
proof -
  let ?c = "\<lambda>es. length (filter (submits wid) (filter (of_operation sid op) es))"
  from assms(3,4) obtain e2 e3 where ext: "ms_events st2 = ms_events st1 @ e2" "ms_events st3 = ms_events st2 @ e3" by (auto simp: evolves_def)
  have "1 \<le> ?c (ms_events st1)" using assms(2) by (force simp: Suc_le_eq filter_empty_conv)
  moreover have "1 \<le> ?c e3" using assms(5) ext by (force simp: Suc_le_eq filter_empty_conv)
  moreover have "?c (ms_events st3) = 1" by (rule submission_count[OF assms(1)]) (use assms(2) ext in auto)
  ultimately show False by (simp add: ext)
qed

text \<open>
  C2: a write is dispatched at most once. If an execution calls its handler, the log of the operation that prepared the write holds exactly one
  submission of it, and after any further work of other workers no execution of any write service on that store calls a handler for the same write again.
\<close>

theorem dispatch_exclusive:
  assumes "\<And>k st. evolves H st (sc_env W k st)" "\<And>k st. evolves H st (sc_env W' k st)"
    and "logs_ok H st" and "execute_write H V W wid x (k, st) = ((Some call, r), (k1, st1))"
    and "evolves H st1 st2" and "execute_write H V' W' wid x' (k2, st2) = ((call', r'), (k3, st3))"
  shows "call' = None \<and> (\<exists>q \<in> set (ms_events st1). ev_type q = ''write_prepared'' \<and> jget (ev_data q) ''writeId'' = JStr wid \<and>
    length (filter (submits wid) (filter (of_operation (ev_session_id q) (ev_operation_id q)) (ms_events st1))) = 1)"
proof -
  have c: "durable_client H W" "durable_client H W'" using assms(1,2) by unfold_locales
  obtain actor secs w \<sigma>1 outcome where cl: "claims H V W wid x st (Inr (actor, secs, Claimed w)) \<sigma>1"
    and se: "write_settled H w outcome (snd \<sigma>1) r (k1, st1)" and e1: "evolves H st st1"
    by (rule durable_client.execute_cases[OF c(1) assms(4) evolves_refl]) auto
  from claims_submission[OF cl] obtain q where q: "q \<in> set (ms_events (snd \<sigma>1))" "ev_type q = ''write_prepared''"
    "jget (ev_data q) ''writeId'' = JStr wid"
    "\<exists>e \<in> set (drop (length (ms_events st)) (ms_events (snd \<sigma>1))). of_operation (ev_session_id q) (ev_operation_id q) e \<and> submits wid e" .
  let ?op = "of_operation (ev_session_id q) (ev_operation_id q)"
  have m1: "evolves H (snd \<sigma>1) st1" using se by (simp add: write_settled_def)
  have here: "\<exists>e \<in> set (ms_events st1). ?op e \<and> submits wid e" using q(4) evolves_member[OF m1] by (blast dest: in_set_dropD)
  have "call' = None"
  proof (rule ccontr)
    assume "call' \<noteq> None"
    then obtain actor' secs' w' \<sigma>2 where cl': "claims H V' W' wid x' st2 (Inr (actor', secs', Claimed w')) \<sigma>2"
      by (cases rule: durable_client.execute_cases[OF c(2) assms(6) evolves_refl]) auto
    from claims_submission[OF cl'] obtain q' where q': "q' \<in> set (ms_events (snd \<sigma>2))" "ev_type q' = ''write_prepared''"
      "jget (ev_data q') ''writeId'' = JStr wid"
      "\<exists>e \<in> set (drop (length (ms_events st2)) (ms_events (snd \<sigma>2))). of_operation (ev_session_id q') (ev_operation_id q') e \<and> submits wid e" .
    have m2: "evolves H st2 (snd \<sigma>2)" using cl' by (simp add: claims_def)
    have "evolves H st (snd \<sigma>2)" using e1 assms(5) m2 by (blast intro: evolves_trans)
    with assms(3) have logs: "logs_ok H (snd \<sigma>2)" by (simp add: evolves_def)
    have "q \<in> set (ms_events (snd \<sigma>2))" using q(1) m1 assms(5) m2 evolves_member by blast
    then have "q' = q" using unique_preparation[OF _ _ q'(1) q(2) q'(2) q(3) q'(3), of H] logs by (simp add: logs_ok_def)
    with no_second_submission[OF logs here assms(5) m2] q'(4) show False by blast
  qed
  moreover have "logs_ok H st1" using e1 assms(3) by (simp add: evolves_def)
  ultimately show ?thesis using submission_count[OF _ here] q evolves_member[OF m1] by blast
qed

theorem dispatch_exclusive_witness:
  "fst (fst (demo_execute (HReturned (JObj [])) approved_store)) \<noteq> None \<and> fst (fst (demo_execute (HReturned (JObj [])) executed_store)) = None"
proof -
  from write_demo_facts obtain call r k1 where x: "demo_execute (HReturned (JObj [])) approved_store = ((Some call, r), (k1, executed_store))"
    unfolding executed_store_def by (metis option.exhaust prod.collapse)
  obtain call' r' k2 st2 where y: "demo_execute (HReturned (JObj [])) executed_store = ((call', r'), (k2, st2))" by (metis surj_pair)
  from dispatch_exclusive[OF demo_env demo_env demo_write_logs(2) x evolves_refl y] x y show ?thesis by simp
qed



text \<open>What is reported to the caller for an outcome of the handler, given the events that were stored.\<close>

definition reported :: "string \<Rightarrow> operation_event list \<Rightarrow> write_operation write_result \<Rightarrow> handler_outcome \<Rightarrow> bool" where
  "reported wid new r outcome \<longleftrightarrow> (\<exists>code. outcome \<noteq> HCancelled \<and> r = Inl (Raised (WriteUnknown code))) \<or> (case outcome of
     HReturned v \<Rightarrow> isOk r
   | HNotCommitted err \<Rightarrow> r = Inl (Raised (WNotCommitted err)) \<and> (\<exists>e \<in> set new. ev_type e = ''write_failed'' \<and>
       jget (ev_data e) ''writeId'' = JStr wid \<and> jget (ev_data e) ''definitelyNotCommitted'' = JBool True)
   | HRaised err \<Rightarrow> r = Inl (Raised (WHandler err)) \<and> he_outcome_unknown err \<and>
       (\<exists>e \<in> set new. ev_type e = ''write_outcome_unknown'' \<and> jget (ev_data e) ''writeId'' = JStr wid)
   | HCancelled \<Rightarrow> r = Inl (Raised WCancelled))"

lemma settled_reported:
  assumes "write_settled H w outcome mid r (k', st')" "wo_write_id w = wid" "set (drop (length (ms_events mid)) (ms_events st')) \<subseteq> set new"
  shows "reported wid new r outcome"
proof (cases r)
  case (Inr w')
  with assms(1) show ?thesis by (auto simp: write_settled_def reported_def)
next
  case (Inl f)
  with assms(1) consider (no) err where "f = Raised (WNotCommitted err)" "outcome = HNotCommitted err"
      "new_fact mid st' (wo_session_id w) (wo_operation_id w) (not_committed_spec w err)"
    | (raised) err where "f = Raised (WHandler err)" "outcome = HRaised err" "he_outcome_unknown err"
      "new_fact mid st' (wo_session_id w) (wo_operation_id w) (unknown_spec w err)"
    | (unknown) code where "f = Raised (WriteUnknown code)" "outcome \<noteq> HCancelled"
    | (cancelled) "f = Raised WCancelled" "outcome = HCancelled"
    by (auto simp: write_settled_def split: exc.splits write_error.splits)
  then show ?thesis
  proof cases
    case no
    with assms(2,3) Inl show ?thesis by (fastforce simp: reported_def new_fact_def not_committed_spec_def jget_def)
  next
    case raised
    with assms(2,3) Inl show ?thesis by (fastforce simp: reported_def new_fact_def unknown_spec_def outcome_unknown_data_def jget_def)
  qed (simp_all add: reported_def Inl)
qed

text \<open>
  C4: an execution reports what is stored. If its handler was called, the handler gave one of its outcomes, and: a result is reported only
  for a handler that returned, with a stored success of that write; a definite failure only for a handler that reported that nothing was committed, with
  that failure stored by this call; in every other case the outcome is reported as unknown, as the unknown outcome the handler itself reported
  and this call has stored, or as cancelled. No result without a call of the handler is reported unless the success is stored.
\<close>

theorem execution_reported:
  assumes "\<And>k st. evolves H st (sc_env W k st)" and "execute_write H V W wid x (k, st) = ((call, r), (k', st'))"
  shows "(case r of Inr w \<Rightarrow> wo_write_id w = wid \<and> (\<exists>e \<in> set (ms_events st'). succeeds wid e) | Inl _ \<Rightarrow> True) \<and>
    (case call of None \<Rightarrow> True | Some c \<Rightarrow> (\<exists>outcome. replied x c outcome \<and>
       reported wid (drop (length (ms_events st)) (ms_events st')) r outcome))"
proof -
  have c: "durable_client H W" using assms(1) by unfold_locales
  show ?thesis
  proof (cases rule: durable_client.execute_cases[OF c assms(2) evolves_refl, case_names refused known ran])
    case (known actor secs w)
    from known(3) obtain rec where rec: "write_of H wid (ms_events st') rec" "claimed H W x actor rec st (Inr (AlreadySucceeded w)) (k', st')"
      unfolding claims_def by auto
    have "wo_write_id rec = wid" using rec(1) by (rule write_of_prepared)
    with rec(2) have w: "write_of H wid (ms_events st') w" "\<exists>e \<in> set (ms_events st'). succeeds wid e" by (auto simp: claimed_def)
    have "wo_write_id w = wid" using w(1) by (rule write_of_prepared)
    with w(2) known show ?thesis by simp
  next
    case (ran actor secs w outcome \<sigma>1)
    from ran(1) obtain rec where rec: "write_of H wid (ms_events (snd \<sigma>1)) rec" "claimed H W x actor rec st (Inr (Claimed w)) \<sigma>1"
      and e1: "evolves H st (snd \<sigma>1)" unfolding claims_def by blast
    have "wo_write_id rec = wid" using rec(1) by (rule write_of_prepared)
    with rec(2) have id: "wo_write_id w = wid" by (auto simp: claimed_def)
    have later: "e \<in> set (drop (length (ms_events st)) (ms_events st'))" if "e \<in> set (drop (length (ms_events (snd \<sigma>1))) (ms_events st'))" for e
      using that e1 set_drop_subset_set_drop[of "length (ms_events st)" "length (ms_events (snd \<sigma>1))" "ms_events st'"]
      by (auto simp: evolves_def)
    have "wo_write_id w' = wid \<and> (\<exists>e \<in> set (ms_events st'). succeeds wid e)" if "r = Inr w'" for w'
    proof -
      have w': "write_of H wid (ms_events st') w'" "\<exists>e \<in> set (ms_events st'). succeeds wid e" using ran(3) that id by (auto simp: write_settled_def)
      from w'(1) have "wo_write_id w' = wid" by (rule write_of_prepared)
      with w'(2) show ?thesis by simp
    qed
    moreover have "replied x c outcome" if "call = Some c" for c using invoke_handler_call ran(2) that by blast
    moreover have "reported wid (drop (length (ms_events st)) (ms_events st')) r outcome"
      by (rule settled_reported[OF ran(3) id]) (auto intro: later)
    ultimately show ?thesis by (auto split: sum.splits option.splits)
  qed simp
qed

theorem execution_reported_witness:
  "\<exists>call r. fst (demo_execute (HRaised no_attributes) approved_store) = (Some call, r) \<and> \<not> isOk r \<and>
     reported ''w'' (drop (length (ms_events approved_store)) (ms_events unknown_store)) r (HRaised no_attributes)"
proof -
  from write_demo_facts obtain call r k1 where x: "demo_execute (HRaised no_attributes) approved_store = ((Some call, r), (k1, unknown_store))" "\<not> isOk r"
    unfolding unknown_store_def by (metis option.exhaust prod.collapse)
  from execution_reported[OF demo_env x(1)] x show ?thesis by (cases call) (auto simp: replied_def demo_execute_args_def)
qed

section \<open>Preparations\<close>

lemma prepares_hashes:
  assumes "prepares H V a st (Inr w) \<sigma>'"
  obtains i h where "pa_requester a = ExactIdentity i"
    "hash_scoped_idempotency_key H (pa_idempotency_key a) (pa_session_id a) (vi_principal_id i) (pa_tool_name a) = Inr h"
    "preparation H a i [h, sha256_hex H (pa_idempotency_key a)] st (Inr w) \<sigma>'"
proof -
  from assms obtain secs entity i h legacy where c: "prepare_checks H V a = Inr (secs, entity, i, h, legacy)"
    "preparation H a i [h, legacy] st (Inr w) \<sigma>'" by (auto simp: prepares_def)
  from c(1) have "as_approval (assert_trusted_identity (ws_approvals V) (pa_requester a)) = Inr i"
    "hash_scoped_idempotency_key H (pa_idempotency_key a) (pa_session_id a) (vi_principal_id i) (pa_tool_name a) = Inr h"
    "hash_idempotency_key H (pa_idempotency_key a) = Inr legacy" unfolding prepare_checks_def bindE_eq_Inr by auto
  moreover from this(1) have "pa_requester a = ExactIdentity i"
    by (auto simp: as_approval_def catchE_def assert_trusted_identity_def split: identity_arg.splits if_splits sum.splits exc.splits)
  ultimately show thesis using that c(2) by (auto simp: hash_idempotency_key_def split: if_splits)
qed



section \<open>Reconciliations\<close>

lemma not_an_object_status:
  "jget [(''status'', JStr ''unknown''), (''reason'', r)] ''status'' = JStr ''unknown''" "casefold (py_strip ''unknown'') = ''unknown''"
  by (simp add: jget_def) code_simp

lemma reconcile_event_status:
  "fst (reconcile_event v) = ''write_succeeded'' \<Longrightarrow> \<exists>d text. v = JObj d \<and> jget d ''status'' = JStr text \<and> casefold (py_strip text) = ''succeeded''"
  "fst (reconcile_event v) = ''write_failed'' \<Longrightarrow> \<exists>d text. v = JObj d \<and> jget d ''status'' = JStr text \<and> casefold (py_strip text) = ''failed''"
  by (auto simp: reconcile_event_def Let_def not_an_object_status split: if_splits json.splits)



end
