(* ===== verification/Event_Stream.thy ===== *)
theory Event_Stream
  imports Json_Text
begin

text \<open>
  The bounded event stream between a producer that cannot wait and an asynchronous consumer
  (\<open>event_stream.py\<close>): the buffer with its byte and event limits, coalescing of progress
  updates under pressure, eviction of the oldest droppable update, the explicit failure when
  only structural events are left, and the two streams of the package. A \<open>_QueuedEvent\<close> is
  an object that the queue and \<open>_pending_by_key\<close> share and that coalescing changes in place; it
  is a record with an identity \<open>qe_id\<close>, \<open>is\<close> compares identities, and the pending table holds
  the identity. The byte count is a natural number: \<open>stream_ok\<close> below shows that it is the sum of
  the queued sizes, so no subtraction of the model is cut off at zero. Callbacks are the
  synchronous ones; what they receive is appended to \<open>es_notes\<close> and \<open>es_gauges\<close> (the
  code ignores what they raise). The background task that serves an asynchronous callback is not modelled.
\<close>

section \<open>Events and configurations\<close>

datatype stream_fault =
    EventTooLarge
  | MergedTooLarge
  | SlowConsumer
  | StructuralFull
  | QueueFull
  | ProducerFailed string

datatype slow_consumer_policy = DropOldest | ErrorPolicy

datatype stream_key = TypeKey json | IndexKey json json

record queued_event =
  qe_id :: nat
  qe_value :: jdict
  qe_size :: nat
  qe_key :: "stream_key option"
  qe_droppable :: bool

datatype queue_item = Item queued_event | EndMark

record stream_config =
  sc_max_buffer_size :: nat
  sc_max_buffer_bytes :: nat
  sc_policy :: slow_consumer_policy
  sc_is_complete :: "jdict \<Rightarrow> (stream_fault, bool) result"
  sc_extract_result :: "jdict \<Rightarrow> (stream_fault, json) result"
  sc_coalesce_key :: "jdict \<Rightarrow> (stream_fault, stream_key option) result"
  sc_merge_updates :: "jdict \<Rightarrow> jdict \<Rightarrow> (stream_fault, jdict) result"
  sc_is_droppable :: "jdict \<Rightarrow> (stream_fault, bool) result"
  sc_on_backpressure :: bool
  sc_on_queue_change :: bool

record backpressure_note =
  bn_action :: string
  bn_queued_events :: nat
  bn_queued_bytes :: nat
  bn_dropped_events :: nat
  bn_coalesced_events :: nat

record event_stream_stats =
  st_queued_events :: nat
  st_queued_bytes :: nat
  st_high_watermark_events :: nat
  st_high_watermark_bytes :: nat
  st_dropped_events :: nat
  st_coalesced_events :: nat

record event_stream =
  es_queue :: "queue_item list"
  es_pending :: "(stream_key, nat) dict"
  es_count :: nat
  es_bytes :: nat
  es_high_events :: nat
  es_high_bytes :: nat
  es_dropped :: nat
  es_coalesced :: nat
  es_done :: bool
  es_result :: "(stream_fault, json) result option"
  es_closed :: bool
  es_notes :: "backpressure_note list"
  es_gauges :: "event_stream_stats list"
  es_next_id :: nat

type_synonym stream_call = "event_stream \<Rightarrow> (stream_fault, unit) result \<times> event_stream"

definition new_stream :: event_stream where
  "new_stream = \<lparr>es_queue = [], es_pending = [], es_count = 0, es_bytes = 0, es_high_events = 0,
     es_high_bytes = 0, es_dropped = 0, es_coalesced = 0, es_done = False, es_result = None,
     es_closed = False, es_notes = [], es_gauges = [], es_next_id = 0\<rparr>"

definition estimate_size :: "host \<Rightarrow> jdict \<Rightarrow> nat" where
  "estimate_size H event = length (json_dumps H False (JObj event))"

text \<open>
  The part of a dictionary key that Python compares: \<open>True\<close>, \<open>1\<close> and \<open>1.0\<close> are one key. A
  list or a dict is not hashable; NaN, whose lookup depends on object identity, is outside the model.
\<close>

fun key_part :: "json \<Rightarrow> (stream_fault, json) result" where
  "key_part (JBool b) = Inr (JInt (if b then 1 else 0))"
| "key_part (JFloat (FFin r)) = Inr (if r = of_int \<lfloor>r\<rfloor> then JInt \<lfloor>r\<rfloor> else JFloat (FFin r))"
| "key_part (JFloat FNan) = Inl (Builtin OutsideModel)"
| "key_part (JList _) = Inl (Builtin TypeErr)"
| "key_part (JObj _) = Inl (Builtin TypeErr)"
| "key_part v = Inr v"

definition delta_types :: "json set" where
  "delta_types = {JStr ''text_delta'', JStr ''thinking_delta'', JStr ''toolcall_delta''}"

definition default_event_key :: "jdict \<Rightarrow> (stream_fault, stream_key option) result" where
  "default_event_key event =
     (let t = jget event ''type'' in
      if \<not> hashable t then Inl (Builtin TypeErr)
      else if t \<in> delta_types then
        bindE (key_part (jget event ''contentIndex'')) (\<lambda>i. Inr (Some (IndexKey t i)))
      else if t = JStr ''message_update'' then Inr (Some (TypeKey t))
      else if t = JStr ''tool_execution_update'' then
        bindE (key_part (jget event ''toolCallId'')) (\<lambda>i. Inr (Some (IndexKey t i)))
      else Inr None)"

definition default_event_droppable :: "jdict \<Rightarrow> (stream_fault, bool) result" where
  "default_event_droppable event =
     (let t = jget event ''type'' in
      if \<not> hashable t then Inl (Builtin TypeErr)
      else Inr (t \<in> delta_types \<or> t = JStr ''message_update'' \<or> t = JStr ''tool_execution_update''))"

definition merge_updates :: "jdict \<Rightarrow> jdict \<Rightarrow> (stream_fault, jdict) result" where
  "merge_updates previous current =
     (if jget previous ''type'' = jget current ''type'' \<and> \<not> hashable (jget current ''type'') then Inl (Builtin TypeErr)
      else case (jget previous ''delta'', jget current ''delta'') of
        (JStr p, JStr c) \<Rightarrow>
          if jget previous ''type'' = jget current ''type'' \<and> jget current ''type'' \<in> delta_types
          then Inr (dset current ''delta'' (JStr (p @ c))) else Inr current
      | _ \<Rightarrow> Inr current)"

definition assistant_config :: "nat \<Rightarrow> nat \<Rightarrow> slow_consumer_policy \<Rightarrow> bool \<Rightarrow> bool \<Rightarrow> stream_config" where
  "assistant_config sz bytes policy bp qc =
     \<lparr>sc_max_buffer_size = sz, sc_max_buffer_bytes = bytes, sc_policy = policy,
      sc_is_complete = (\<lambda>event. let t = jget event ''type'' in
        if \<not> hashable t then Inl (Builtin TypeErr) else Inr (t \<in> {JStr ''done'', JStr ''error''})),
      sc_extract_result = (\<lambda>event.
        case map_of event (if jget event ''type'' = JStr ''done'' then ''message'' else ''error'') of
          None \<Rightarrow> Inl (Builtin KeyErr) | Some v \<Rightarrow> Inr v),
      sc_coalesce_key = default_event_key, sc_merge_updates = merge_updates,
      sc_is_droppable = default_event_droppable, sc_on_backpressure = bp, sc_on_queue_change = qc\<rparr>"

definition agent_config :: "nat \<Rightarrow> nat \<Rightarrow> slow_consumer_policy \<Rightarrow> bool \<Rightarrow> bool \<Rightarrow> stream_config" where
  "agent_config sz bytes policy bp qc =
     \<lparr>sc_max_buffer_size = sz, sc_max_buffer_bytes = bytes, sc_policy = policy,
      sc_is_complete = (\<lambda>event. Inr (jget event ''type'' = JStr ''agent_end'')),
      sc_extract_result = (\<lambda>event.
        case map_of event ''messages'' of None \<Rightarrow> Inl (Builtin KeyErr) | Some v \<Rightarrow> Inr v),
      sc_coalesce_key = default_event_key, sc_merge_updates = merge_updates,
      sc_is_droppable = default_event_droppable, sc_on_backpressure = bp, sc_on_queue_change = qc\<rparr>"

text \<open>The checks of the constructor.\<close>

definition stream_init :: "json \<Rightarrow> json \<Rightarrow> string \<Rightarrow> (nat \<Rightarrow> nat \<Rightarrow> slow_consumer_policy \<Rightarrow> stream_config)
    \<Rightarrow> (stream_fault, stream_config \<times> event_stream) result" where
  "stream_init sz bytes policy mk =
     (case as_int_ge 2 sz of None \<Rightarrow> Inl (Builtin ValueErr) | Some n \<Rightarrow>
      case as_int_ge 1 bytes of None \<Rightarrow> Inl (Builtin ValueErr) | Some b \<Rightarrow>
      if policy = ''drop_oldest'' then Inr (mk (nat n) (nat b) DropOldest, new_stream)
      else if policy = ''error'' then Inr (mk (nat n) (nat b) ErrorPolicy, new_stream)
      else Inl (Builtin ValueErr))"

section \<open>Gauges and notifications\<close>

definition stats :: "event_stream \<Rightarrow> event_stream_stats" where
  "stats st = \<lparr>st_queued_events = es_count st, st_queued_bytes = es_bytes st,
     st_high_watermark_events = es_high_events st, st_high_watermark_bytes = es_high_bytes st,
     st_dropped_events = es_dropped st, st_coalesced_events = es_coalesced st\<rparr>"

definition update_high_watermarks :: "event_stream \<Rightarrow> event_stream" where
  "update_high_watermarks st = st\<lparr>es_high_events := max (es_high_events st) (es_count st),
     es_high_bytes := max (es_high_bytes st) (es_bytes st)\<rparr>"

definition notify_backpressure :: "stream_config \<Rightarrow> string \<Rightarrow> event_stream \<Rightarrow> event_stream" where
  "notify_backpressure cfg action st =
     (if \<not> sc_on_backpressure cfg \<or> es_closed st then st
      else st\<lparr>es_notes := es_notes st @ [\<lparr>bn_action = action, bn_queued_events = length (es_queue st),
        bn_queued_bytes = es_bytes st, bn_dropped_events = es_dropped st, bn_coalesced_events = es_coalesced st\<rparr>]\<rparr>)"

definition notify_queue_change :: "stream_config \<Rightarrow> event_stream \<Rightarrow> event_stream" where
  "notify_queue_change cfg st =
     (if sc_on_queue_change cfg then st\<lparr>es_gauges := es_gauges st @ [stats st]\<rparr> else st)"

definition close_backpressure_notifications :: "event_stream \<Rightarrow> event_stream" where
  "close_backpressure_notifications st = st\<lparr>es_closed := True\<rparr>"

section \<open>The buffer\<close>

definition put_nowait :: "stream_config \<Rightarrow> queue_item \<Rightarrow> stream_call" where
  "put_nowait cfg item st =
     (if length (es_queue st) \<ge> sc_max_buffer_size cfg + 1 then (Inl (Raised QueueFull), st)
      else (Inr (), st\<lparr>es_queue := es_queue st @ [item]\<rparr>))"

definition unpend :: "queued_event \<Rightarrow> (stream_key, nat) dict \<Rightarrow> (stream_key, nat) dict" where
  "unpend q pend = (case qe_key q of None \<Rightarrow> pend
     | Some k \<Rightarrow> if map_of pend k = Some (qe_id q) then dpop pend k else pend)"

definition would_overflow :: "stream_config \<Rightarrow> nat \<Rightarrow> event_stream \<Rightarrow> bool" where
  "would_overflow cfg incoming st \<longleftrightarrow> es_count st + 1 > sc_max_buffer_size cfg \<or>
     es_bytes st + incoming > sc_max_buffer_bytes cfg"

definition discard :: "stream_config \<Rightarrow> queued_event \<Rightarrow> event_stream \<Rightarrow> event_stream" where
  "discard cfg q st = notify_queue_change cfg (notify_backpressure cfg ''dropped''
     (st\<lparr>es_count := es_count st - 1, es_bytes := es_bytes st - qe_size q,
         es_pending := unpend q (es_pending st), es_dropped := es_dropped st + 1\<rparr>))"

fun has_id :: "nat \<Rightarrow> queue_item \<Rightarrow> bool" where
  "has_id i (Item q) = (qe_id q = i)"
| "has_id i EndMark = False"

fun evictable :: "nat option \<Rightarrow> queue_item \<Rightarrow> bool" where
  "evictable protected (Item q) = (Some (qe_id q) \<noteq> protected \<and> qe_droppable q)"
| "evictable protected EndMark = False"

definition drop_oldest :: "stream_config \<Rightarrow> nat option \<Rightarrow> event_stream \<Rightarrow> bool \<times> event_stream" where
  "drop_oldest cfg protected st = (case find (evictable protected) (es_queue st) of
     Some (Item q) \<Rightarrow> (True, discard cfg q (st\<lparr>es_queue := filter (\<lambda>i. \<not> has_id (qe_id q) i) (es_queue st)\<rparr>))
   | _ \<Rightarrow> (False, st))"

lemma discard_queue [simp]: "es_queue (discard cfg q st) = es_queue st"
  by (simp add: discard_def notify_backpressure_def notify_queue_change_def)

lemma drop_oldest_cases:
  assumes "drop_oldest cfg p st = (b, st')"
  obtains (full) "\<not> b" "st' = st" "\<And>x. x \<in> set (es_queue st) \<Longrightarrow> \<not> evictable p x"
  | (dropped) q where "b" "Item q \<in> set (es_queue st)" "evictable p (Item q)"
      "st' = discard cfg q (st\<lparr>es_queue := filter (\<lambda>i. \<not> has_id (qe_id q) i) (es_queue st)\<rparr>)"
proof (cases "find (evictable p) (es_queue st)")
  case None
  then show thesis using assms by (intro full) (auto simp: drop_oldest_def dest: find_NoneD)
next
  case (Some x)
  then show thesis using assms find_SomeD[OF Some]
    by (cases x) (auto simp: drop_oldest_def intro: dropped)
qed

lemma drop_oldest_shorter: "drop_oldest cfg p st = (True, st') \<Longrightarrow> length (es_queue st') < length (es_queue st)"
  by (erule drop_oldest_cases) (auto intro!: length_filter_less)

function make_room :: "stream_config \<Rightarrow> nat \<Rightarrow> event_stream \<Rightarrow> bool \<times> event_stream" where
  "make_room cfg incoming st =
     (if \<not> would_overflow cfg incoming st then (True, st)
      else case drop_oldest cfg None st of
        (False, st') \<Rightarrow> (False, st')
      | (True, st') \<Rightarrow> make_room cfg incoming st')"
  by pat_completeness auto
termination by (relation "measure (\<lambda>(cfg, n, st). length (es_queue st))") (auto dest: drop_oldest_shorter[OF sym])

function trim_loop :: "stream_config \<Rightarrow> nat \<Rightarrow> event_stream \<Rightarrow> event_stream" where
  "trim_loop cfg protected st =
     (if es_bytes st > sc_max_buffer_bytes cfg \<and> es_count st > 1
      then case drop_oldest cfg (Some protected) st of
        (False, st') \<Rightarrow> st'
      | (True, st') \<Rightarrow> trim_loop cfg protected st'
      else st)"
  by pat_completeness auto
termination by (relation "measure (\<lambda>(cfg, p, st). length (es_queue st))") (auto dest: drop_oldest_shorter[OF sym])

declare make_room.simps [simp del] trim_loop.simps [simp del]

definition queued_with :: "nat \<Rightarrow> event_stream \<Rightarrow> queued_event option" where
  "queued_with i st = (case find (has_id i) (es_queue st) of Some (Item q) \<Rightarrow> Some q | _ \<Rightarrow> None)"

fun remove_first :: "nat \<Rightarrow> queue_item list \<Rightarrow> queue_item list" where
  "remove_first i [] = []"
| "remove_first i (x # xs) = (if has_id i x then xs else x # remove_first i xs)"

definition remove_queued :: "stream_config \<Rightarrow> nat \<Rightarrow> event_stream \<Rightarrow> event_stream" where
  "remove_queued cfg i st = (case queued_with i st of
     None \<Rightarrow> st
   | Some q \<Rightarrow> discard cfg q (st\<lparr>es_queue := remove_first i (es_queue st)\<rparr>))"

definition trim_bytes :: "stream_config \<Rightarrow> queued_event \<Rightarrow> event_stream \<Rightarrow> event_stream" where
  "trim_bytes cfg protected st =
     (let st = trim_loop cfg (qe_id protected) st in
      if es_bytes st > sc_max_buffer_bytes cfg \<and> qe_droppable protected
      then remove_queued cfg (qe_id protected) st else st)"

text \<open>Coalescing assigns to the shared object.\<close>

fun assign_item :: "queued_event \<Rightarrow> queue_item \<Rightarrow> queue_item" where
  "assign_item q (Item p) = (if qe_id p = qe_id q then Item q else Item p)"
| "assign_item q EndMark = EndMark"

definition assign_queued :: "queued_event \<Rightarrow> event_stream \<Rightarrow> event_stream" where
  "assign_queued q st = st\<lparr>es_queue := map (assign_item q) (es_queue st)\<rparr>"

section \<open>The producer\<close>

definition set_result :: "(stream_fault, json) result \<Rightarrow> event_stream \<Rightarrow> event_stream" where
  "set_result r st = (case es_result st of None \<Rightarrow> st\<lparr>es_result := Some r\<rparr> | Some _ \<Rightarrow> st)"

definition terminate_with_error :: "stream_config \<Rightarrow> stream_fault exc \<Rightarrow> stream_call" where
  "terminate_with_error cfg e st =
     (case put_nowait cfg EndMark (set_result (Inl e) (st\<lparr>es_done := True\<rparr>)) of
        (Inl f, st') \<Rightarrow> (Inl f, st')
      | (Inr _, st') \<Rightarrow> (Inr (), close_backpressure_notifications
          (notify_queue_change cfg (notify_backpressure cfg ''error'' st'))))"

definition terminate_and_raise :: "stream_config \<Rightarrow> stream_fault exc \<Rightarrow> stream_call" where
  "terminate_and_raise cfg e st =
     (case terminate_with_error cfg e st of (Inl f, st') \<Rightarrow> (Inl f, st') | (Inr _, st') \<Rightarrow> (Inl e, st'))"

definition finish_coalescing :: "stream_config \<Rightarrow> string \<Rightarrow> queued_event \<Rightarrow> event_stream \<Rightarrow> event_stream" where
  "finish_coalescing cfg action existing st =
     notify_queue_change cfg (update_high_watermarks (trim_bytes cfg existing
       (notify_backpressure cfg action (st\<lparr>es_coalesced := es_coalesced st + 1\<rparr>))))"

definition push_coalesced :: "host \<Rightarrow> stream_config \<Rightarrow> jdict \<Rightarrow> nat \<Rightarrow> queued_event \<Rightarrow> stream_call" where
  "push_coalesced H cfg event sz existing st =
     (case sc_merge_updates cfg (qe_value existing) event of
        Inl e \<Rightarrow> (Inl e, st)
      | Inr merged \<Rightarrow>
          let merged_size = estimate_size H merged in
          if merged_size > sc_max_buffer_bytes cfg then
            if sc_policy cfg = ErrorPolicy then terminate_and_raise cfg (Raised MergedTooLarge) st
            else let q = existing\<lparr>qe_value := event, qe_size := sz\<rparr>;
                     st = st\<lparr>es_bytes := es_bytes st + sz - qe_size existing, es_dropped := es_dropped st + 1\<rparr>
                 in (Inr (), finish_coalescing cfg ''coalesced_replaced'' q (assign_queued q st))
          else let q = existing\<lparr>qe_value := merged, qe_size := merged_size\<rparr>;
                   st = st\<lparr>es_bytes := es_bytes st + merged_size - qe_size existing\<rparr>
               in (Inr (), finish_coalescing cfg ''coalesced'' q (assign_queued q st)))"

definition push_queued :: "stream_config \<Rightarrow> jdict \<Rightarrow> nat \<Rightarrow> stream_key option \<Rightarrow> bool \<Rightarrow> json option \<Rightarrow> stream_call" where
  "push_queued cfg event sz key droppable terminal st =
     (let st = (case terminal of None \<Rightarrow> st | Some r \<Rightarrow> set_result (Inr r) (st\<lparr>es_done := True\<rparr>));
          q = \<lparr>qe_id = es_next_id st, qe_value = event, qe_size = sz, qe_key = key, qe_droppable = droppable\<rparr>;
          st = st\<lparr>es_next_id := es_next_id st + 1\<rparr> in
      case put_nowait cfg (Item q) st of
        (Inl f, st) \<Rightarrow> (Inl f, st)
      | (Inr _, st) \<Rightarrow>
          let st = st\<lparr>es_count := es_count st + 1, es_bytes := es_bytes st + sz,
                      es_pending := (case key of None \<Rightarrow> es_pending st | Some k \<Rightarrow> dset (es_pending st) k (qe_id q))\<rparr>;
              st = notify_queue_change cfg (update_high_watermarks st)
          in (case terminal of
                None \<Rightarrow> (Inr (), st)
              | Some _ \<Rightarrow> (case put_nowait cfg EndMark st of
                  (Inl f, st) \<Rightarrow> (Inl f, st)
                | (Inr _, st) \<Rightarrow> (Inr (), close_backpressure_notifications st))))"

definition pending_update :: "stream_key option \<Rightarrow> event_stream \<Rightarrow> queued_event option" where
  "pending_update key st = Option.bind (Option.bind key (map_of (es_pending st))) (\<lambda>i. queued_with i st)"

definition push_classified :: "host \<Rightarrow> stream_config \<Rightarrow> jdict \<Rightarrow> json option \<Rightarrow> stream_key option \<Rightarrow> bool \<Rightarrow> stream_call" where
  "push_classified H cfg event terminal key droppable st =
     (let sz = estimate_size H event;
          pressure = would_overflow cfg sz st in
      if sz > sc_max_buffer_bytes cfg then
        if terminal \<noteq> None \<or> \<not> droppable \<or> sc_policy cfg = ErrorPolicy
        then terminate_and_raise cfg (Raised EventTooLarge) st
        else (Inr (), notify_backpressure cfg ''oversized_dropped'' (st\<lparr>es_dropped := es_dropped st + 1\<rparr>))
      else case (pending_update key st, pressure \<and> terminal = None) of
        (Some q, True) \<Rightarrow> push_coalesced H cfg event sz q st
      | _ \<Rightarrow>
          if \<not> pressure then push_queued cfg event sz key droppable terminal st
          else if sc_policy cfg = ErrorPolicy \<and> terminal = None
          then terminate_and_raise cfg (Raised SlowConsumer) st
          else case make_room cfg sz st of
            (True, st) \<Rightarrow> push_queued cfg event sz key droppable terminal st
          | (False, st) \<Rightarrow>
              if droppable \<and> terminal = None
              then (Inr (), notify_queue_change cfg (notify_backpressure cfg ''incoming_update_dropped''
                      (st\<lparr>es_dropped := es_dropped st + 1\<rparr>)))
              else terminate_and_raise cfg (Raised StructuralFull) st)"

definition push_open :: "host \<Rightarrow> stream_config \<Rightarrow> jdict \<Rightarrow> stream_call" where
  "push_open H cfg event st =
     (case sc_is_complete cfg event of
        Inl e \<Rightarrow> (Inl e, st)
      | Inr is_terminal \<Rightarrow>
          (case (if is_terminal then map_sum id Some (sc_extract_result cfg event) else Inr None) of
             Inl e \<Rightarrow> terminate_and_raise cfg e st
           | Inr terminal \<Rightarrow>
               (case sc_coalesce_key cfg event of
                  Inl e \<Rightarrow> (Inl e, st)
                | Inr key \<Rightarrow> (case sc_is_droppable cfg event of
                    Inl e \<Rightarrow> (Inl e, st)
                  | Inr d \<Rightarrow> push_classified H cfg event terminal key (d \<and> terminal = None) st))))"

definition push :: "host \<Rightarrow> stream_config \<Rightarrow> jdict \<Rightarrow> stream_call" where
  "push H cfg event st =
     (if es_done st then (Inr (), st)
      else case push_open H cfg event st of
        (Inr u, st) \<Rightarrow> (Inr u, st)
      | (Inl e, st) \<Rightarrow> if es_done st then (Inl e, st) else terminate_and_raise cfg e st)"

definition end_stream :: "stream_config \<Rightarrow> json \<Rightarrow> stream_call" where
  "end_stream cfg r st =
     (if es_done st then (Inr (), st)
      else case put_nowait cfg EndMark (set_result (Inr r) (st\<lparr>es_done := True\<rparr>)) of
        (Inl f, st) \<Rightarrow> (Inl f, st)
      | (Inr _, st) \<Rightarrow> (Inr (), close_backpressure_notifications (notify_queue_change cfg st)))"

definition fail_stream :: "stream_config \<Rightarrow> stream_fault exc \<Rightarrow> stream_call" where
  "fail_stream cfg e st = (if es_done st then (Inr (), st) else terminate_with_error cfg e st)"

section \<open>The consumer\<close>

datatype delivery = Waiting | Finished | Yielded jdict

definition next_event :: "stream_config \<Rightarrow> event_stream \<Rightarrow> delivery \<times> event_stream" where
  "next_event cfg st = (case es_queue st of
     [] \<Rightarrow> (Waiting, st)
   | EndMark # rest \<Rightarrow> (Finished, close_backpressure_notifications (st\<lparr>es_queue := rest\<rparr>))
   | Item q # rest \<Rightarrow> (Yielded (qe_value q), notify_queue_change cfg
       (st\<lparr>es_queue := rest, es_count := es_count st - 1, es_bytes := es_bytes st - qe_size q,
           es_pending := unpend q (es_pending st)\<rparr>)))"

end
