(* ===== verification/Event_Stream_Theorems.thy ===== *)
theory Event_Stream_Theorems
  imports Event_Stream
begin

text \<open>
  What the bounded stream promises, for every sequence of pushes, endings, failures and reads:
  the buffer keeps within its two limits and the queue within its capacity, structural events
  are delivered once and in order, coalescing loses no text, and a finished stream always has a
  result and lets its reader leave. The proofs work on the contract \<open>bounded_stream\<close> of the
  functions a stream is built with; both streams of the package are interpretations of it.
\<close>

named_theorems stream_frame \<open>fields that an operation of the buffer leaves alone\<close>

section \<open>The contract of a stream's functions\<close>

definition progress_event :: "stream_config \<Rightarrow> jdict \<Rightarrow> bool" where
  "progress_event cfg e \<longleftrightarrow> sc_is_droppable cfg e = Inr True \<and> sc_is_complete cfg e = Inr False"

locale bounded_stream =
  fixes cfg :: stream_config
  assumes room_for_one: "1 \<le> sc_max_buffer_size cfg"
    and keyed_progress: "sc_coalesce_key cfg e = Inr (Some k) \<Longrightarrow> sc_is_complete cfg e = Inr t \<Longrightarrow>
      sc_is_droppable cfg e = Inr d \<Longrightarrow> progress_event cfg e"
    and merge_progress: "progress_event cfg a \<Longrightarrow> progress_event cfg b \<Longrightarrow> sc_merge_updates cfg a b = Inr c \<Longrightarrow>
      progress_event cfg c"
    and merge_key: "sc_merge_updates cfg a b = Inr c \<Longrightarrow> sc_coalesce_key cfg c = sc_coalesce_key cfg b"

section \<open>The buffer while the stream is open\<close>

definition queued_ok :: "host \<Rightarrow> stream_config \<Rightarrow> nat \<Rightarrow> queued_event \<Rightarrow> bool" where
  "queued_ok H cfg fresh q \<longleftrightarrow> qe_id q < fresh \<and> qe_size q = estimate_size H (qe_value q) \<and>
     sc_coalesce_key cfg (qe_value q) = Inr (qe_key q) \<and>
     (qe_key q \<noteq> None \<longrightarrow> qe_droppable q) \<and> (qe_droppable q \<longleftrightarrow> progress_event cfg (qe_value q))"

definition pending_ok :: "queued_event list \<Rightarrow> (stream_key, nat) dict \<Rightarrow> bool" where
  "pending_ok qs pend \<longleftrightarrow> (\<forall>k i. map_of pend k = Some i \<longrightarrow> (\<exists>q \<in> set qs. qe_id q = i \<and> qe_key q = Some k))"

definition queued_bytes :: "queued_event list \<Rightarrow> nat" where
  "queued_bytes qs = sum_list (map qe_size qs)"

definition open_buffer :: "host \<Rightarrow> stream_config \<Rightarrow> queued_event list \<Rightarrow> event_stream \<Rightarrow> bool" where
  "open_buffer H cfg qs st \<longleftrightarrow> es_queue st = map Item qs \<and> distinct (map qe_id qs) \<and>
     (\<forall>q \<in> set qs. queued_ok H cfg (es_next_id st) q) \<and> es_count st = length qs \<and>
     es_bytes st = queued_bytes qs \<and> pending_ok qs (es_pending st)"

text \<open>Evicting events from a buffer: only droppable ones go, the others keep their order.\<close>

definition evicts :: "queued_event list \<Rightarrow> queued_event list \<Rightarrow> bool" where
  "evicts qs qs' \<longleftrightarrow> (\<exists>P. qs' = filter P qs \<and> (\<forall>q \<in> set qs. \<not> qe_droppable q \<longrightarrow> P q))"

definition without :: "nat \<Rightarrow> queued_event list \<Rightarrow> queued_event list" where
  "without i qs = filter (\<lambda>p. qe_id p \<noteq> i) qs"

lemma evicts_refl [simp]: "evicts qs qs"
  unfolding evicts_def by (rule exI[of _ "\<lambda>_. True"]) simp

lemma evicts_trans: "evicts qs qs' \<Longrightarrow> evicts qs' qs'' \<Longrightarrow> evicts qs qs''"
  unfolding evicts_def
proof (elim exE conjE)
  fix P Q
  assume "qs' = filter P qs" "\<forall>q\<in>set qs. \<not> qe_droppable q \<longrightarrow> P q"
    "qs'' = filter Q qs'" "\<forall>q\<in>set qs'. \<not> qe_droppable q \<longrightarrow> Q q"
  then show "\<exists>R. qs'' = filter R qs \<and> (\<forall>q\<in>set qs. \<not> qe_droppable q \<longrightarrow> R q)"
    by (intro exI[of _ "\<lambda>q. P q \<and> Q q"]) auto
qed

lemma evicts_structural: "evicts qs qs' \<Longrightarrow> filter (\<lambda>q. \<not> qe_droppable q) qs' = filter (\<lambda>q. \<not> qe_droppable q) qs"
  unfolding evicts_def by (auto intro!: filter_cong[OF refl])

lemma evicts_subset: "evicts qs qs' \<Longrightarrow> set qs' \<subseteq> set qs"
  unfolding evicts_def by auto

lemma sum_list_filter_le: "sum_list (map f (filter P xs)) \<le> sum_list (map (f :: 'a \<Rightarrow> nat) xs)"
  by (induction xs) auto

lemma evicts_length: "evicts qs qs' \<Longrightarrow> length qs' \<le> length qs"
  unfolding evicts_def by auto

lemma distinct_id_inj: "distinct (map qe_id qs) \<Longrightarrow> p \<in> set qs \<Longrightarrow> q \<in> set qs \<Longrightarrow> qe_id p = qe_id q \<Longrightarrow> p = q"
  by (metis distinct_map inj_onD)

lemma evicts_without:
  "distinct (map qe_id qs) \<Longrightarrow> q \<in> set qs \<Longrightarrow> qe_droppable q \<Longrightarrow> evicts qs (without (qe_id q) qs)"
  unfolding evicts_def without_def
  by (intro exI[of _ "\<lambda>p. qe_id p \<noteq> qe_id q"]) (auto dest: distinct_id_inj)

lemma without_fresh: "qe_id q \<notin> qe_id ` set qs \<Longrightarrow> without (qe_id q) qs = qs"
  unfolding without_def by (rule filter_True) force

lemma without_bytes:
  "distinct (map qe_id qs) \<Longrightarrow> q \<in> set qs \<Longrightarrow>
     queued_bytes qs = qe_size q + queued_bytes (without (qe_id q) qs) \<and> length qs = Suc (length (without (qe_id q) qs))"
proof (induction qs)
  case (Cons p qs)
  show ?case
  proof (cases "p = q")
    case True
    with Cons.prems without_fresh[of q qs] show ?thesis
      by (simp add: queued_bytes_def) (simp add: without_def)
  next
    case False
    with Cons.prems have "qe_id p \<noteq> qe_id q" "q \<in> set qs" by auto
    with Cons show ?thesis by (simp add: queued_bytes_def without_def)
  qed
qed simp

text \<open>What eviction leaves alone; it always counts what it drops.\<close>

definition frame :: "event_stream \<Rightarrow> event_stream \<Rightarrow> bool" where
  "frame st st' \<longleftrightarrow> es_done st' = es_done st \<and> es_result st' = es_result st \<and> es_next_id st' = es_next_id st \<and>
     es_high_events st' = es_high_events st \<and> es_high_bytes st' = es_high_bytes st \<and> es_dropped st \<le> es_dropped st'"

lemma frame_refl [simp]: "frame st st"
  by (simp add: frame_def)

lemma frame_trans: "frame a b \<Longrightarrow> frame b c \<Longrightarrow> frame a c"
  by (auto simp: frame_def)

lemma notify_frame [simp, stream_frame]:
  "es_queue (notify_backpressure cfg a st) = es_queue st" "es_queue (notify_queue_change cfg st) = es_queue st"
  "es_pending (notify_backpressure cfg a st) = es_pending st" "es_pending (notify_queue_change cfg st) = es_pending st"
  "es_count (notify_backpressure cfg a st) = es_count st" "es_count (notify_queue_change cfg st) = es_count st"
  "es_bytes (notify_backpressure cfg a st) = es_bytes st" "es_bytes (notify_queue_change cfg st) = es_bytes st"
  "es_high_events (notify_backpressure cfg a st) = es_high_events st" "es_high_events (notify_queue_change cfg st) = es_high_events st"
  "es_high_bytes (notify_backpressure cfg a st) = es_high_bytes st" "es_high_bytes (notify_queue_change cfg st) = es_high_bytes st"
  "es_dropped (notify_backpressure cfg a st) = es_dropped st" "es_dropped (notify_queue_change cfg st) = es_dropped st"
  "es_done (notify_backpressure cfg a st) = es_done st" "es_done (notify_queue_change cfg st) = es_done st"
  "es_result (notify_backpressure cfg a st) = es_result st" "es_result (notify_queue_change cfg st) = es_result st"
  "es_next_id (notify_backpressure cfg a st) = es_next_id st" "es_next_id (notify_queue_change cfg st) = es_next_id st"
  by (simp_all add: notify_backpressure_def notify_queue_change_def)

lemma open_buffer_notify [simp]:
  "open_buffer H cfg qs (notify_backpressure c a st) = open_buffer H cfg qs st"
  "open_buffer H cfg qs (notify_queue_change c st) = open_buffer H cfg qs st"
  "open_buffer H cfg qs (update_high_watermarks st) = open_buffer H cfg qs st"
  by (simp_all add: open_buffer_def update_high_watermarks_def)

lemma frame_notify [simp]:
  "frame st (notify_backpressure c a st') = frame st st'"
  "frame st (notify_queue_change c st') = frame st st'"
  by (simp_all add: frame_def)

lemma pending_ok_without: "pending_ok qs pend \<Longrightarrow> q \<in> set qs \<Longrightarrow> distinct (map qe_id qs) \<Longrightarrow>
    pending_ok (without (qe_id q) qs) (unpend q pend)"
  unfolding pending_ok_def unpend_def without_def
  by (fastforce split: option.splits if_splits dest: distinct_id_inj)

lemma discard_buffer:
  assumes "open_buffer H cfg qs st" and "q \<in> set qs" and "c = map Item (without (qe_id q) qs)"
  shows "open_buffer H cfg (without (qe_id q) qs) (discard cfg q (st\<lparr>es_queue := c\<rparr>))"
    and "frame st (discard cfg q (st\<lparr>es_queue := c\<rparr>))"
    and "es_dropped (discard cfg q (st\<lparr>es_queue := c\<rparr>)) = Suc (es_dropped st)"
proof -
  have d: "distinct (map qe_id qs)" and len: "es_count st = length qs" "es_bytes st = queued_bytes qs"
    using assms by (simp_all add: open_buffer_def)
  have "distinct (map qe_id (without (qe_id q) qs))"
    using d by (simp add: without_def distinct_map_filter)
  moreover have "set (without (qe_id q) qs) \<subseteq> set qs" by (auto simp: without_def)
  ultimately show "open_buffer H cfg (without (qe_id q) qs) (discard cfg q (st\<lparr>es_queue := c\<rparr>))"
    using assms pending_ok_without[of qs "es_pending st" q] without_bytes[OF d assms(2)] len
    by (auto simp: open_buffer_def discard_def)
qed (simp_all add: frame_def discard_def)

lemma filter_has_id: "filter (\<lambda>i. \<not> has_id j i) (map Item qs) = map Item (without j qs)"
  by (induction qs) (auto simp: without_def)

lemma drop_oldest_buffer:
  assumes "open_buffer H cfg qs st" and "drop_oldest cfg p st = (b, st')"
  obtains (full) "\<not> b" "st' = st" "\<And>q. q \<in> set qs \<Longrightarrow> Some (qe_id q) \<noteq> p \<Longrightarrow> \<not> qe_droppable q"
  | (dropped) q where "b" "q \<in> set qs" "Some (qe_id q) \<noteq> p" "qe_droppable q"
      "open_buffer H cfg (without (qe_id q) qs) st'" "frame st st'" "es_dropped st' = Suc (es_dropped st)"
  using assms(2)
proof (cases rule: drop_oldest_cases)
  case full
  then show thesis using assms(1) that(1) by (force simp: open_buffer_def)
next
  case (dropped q)
  then have q: "q \<in> set qs" "Some (qe_id q) \<noteq> p" "qe_droppable q"
    using assms(1) by (auto simp: open_buffer_def)
  have "es_queue st = map Item qs" using assms(1) by (simp add: open_buffer_def)
  with dropped(4) have "st' = discard cfg q (st\<lparr>es_queue := map Item (without (qe_id q) qs)\<rparr>)"
    by (simp add: filter_has_id)
  with dropped(1) q discard_buffer[OF assms(1) q(1) refl] show thesis by (auto intro: that(2))
qed

text \<open>The outcome of evicting: a smaller buffer, and every lost event is counted.\<close>

definition shrunk :: "host \<Rightarrow> stream_config \<Rightarrow> queued_event list \<Rightarrow> event_stream \<Rightarrow> queued_event list \<Rightarrow> event_stream \<Rightarrow> bool" where
  "shrunk H cfg qs st qs' st' \<longleftrightarrow> open_buffer H cfg qs' st' \<and> evicts qs qs' \<and> frame st st' \<and>
     (es_dropped st' = es_dropped st \<longrightarrow> qs' = qs \<and> es_pending st' = es_pending st)"

lemma shrunk_refl: "open_buffer H cfg qs st \<Longrightarrow> shrunk H cfg qs st qs st"
  by (simp add: shrunk_def)

lemma shrunk_trans: "shrunk H cfg a s b t \<Longrightarrow> shrunk H cfg b t c u \<Longrightarrow> shrunk H cfg a s c u"
  unfolding shrunk_def by (auto intro: evicts_trans frame_trans simp: frame_def)

lemma shrunk_without:
  assumes "open_buffer H cfg qs st" "q \<in> set qs" "qe_droppable q"
    "open_buffer H cfg (without (qe_id q) qs) st'" "frame st st'" "es_dropped st' = Suc (es_dropped st)"
  shows "shrunk H cfg qs st (without (qe_id q) qs) st'"
  using assms evicts_without[of qs q] by (simp add: shrunk_def open_buffer_def)

lemma make_room_buffer:
  "open_buffer H cfg qs st \<Longrightarrow> make_room cfg n st = (b, st') \<Longrightarrow>
     \<exists>qs'. shrunk H cfg qs st qs' st' \<and> (b \<longrightarrow> \<not> would_overflow cfg n st')"
proof (induction cfg n st arbitrary: qs rule: make_room.induct)
  case (1 cfg n st)
  show ?case
  proof (cases "would_overflow cfg n st")
    case False
    then show ?thesis using "1.prems" by (auto simp: make_room.simps[of cfg n st] intro: shrunk_refl)
  next
    case True
    obtain c t where d: "drop_oldest cfg None st = (c, t)" by force
    from "1.prems"(1) d show ?thesis
    proof (cases rule: drop_oldest_buffer)
      case full
      then show ?thesis using "1.prems" True d by (auto simp: make_room.simps[of cfg n st] intro: shrunk_refl)
    next
      case (dropped q)
      have rest: "make_room cfg n t = (b, st')"
        using "1.prems"(2) True d dropped(1) by (simp add: make_room.simps[of cfg n st])
      have "shrunk H cfg qs st (without (qe_id q) qs) t"
        using shrunk_without[OF "1.prems"(1)] dropped by blast
      with "1.IH"[OF _ d[symmetric] _ dropped(5) rest] True dropped(1) show ?thesis
        by (auto intro: shrunk_trans)
    qed
  qed
qed

lemma trim_loop_buffer:
  "open_buffer H cfg qs st \<Longrightarrow> q \<in> set qs \<Longrightarrow> trim_loop cfg (qe_id q) st = st' \<Longrightarrow>
     \<exists>qs'. shrunk H cfg qs st qs' st' \<and> q \<in> set qs' \<and>
       (es_bytes st' \<le> sc_max_buffer_bytes cfg \<or> length qs' \<le> 1 \<or>
        (\<forall>p \<in> set qs'. p \<noteq> q \<longrightarrow> \<not> qe_droppable p))"
proof (induction cfg "qe_id q" st arbitrary: qs rule: trim_loop.induct)
  case (1 cfg st)
  show ?case
  proof (cases "es_bytes st > sc_max_buffer_bytes cfg \<and> es_count st > 1")
    case False
    then show ?thesis using "1.prems"
      by (intro exI[of _ qs]) (auto simp: trim_loop.simps[of cfg _ st] open_buffer_def shrunk_def)
  next
    case True
    obtain c t where d: "drop_oldest cfg (Some (qe_id q)) st = (c, t)" by force
    from "1.prems"(1) d show ?thesis
    proof (cases rule: drop_oldest_buffer)
      case full
      with "1.prems" True d have "shrunk H cfg qs st qs st'"
        by (auto simp: trim_loop.simps[of cfg _ st] intro: shrunk_refl)
      moreover have "\<not> qe_droppable p" if "p \<in> set qs" "p \<noteq> q" for p
        using full(3)[OF that(1)] that "1.prems"(1,2) distinct_id_inj[of qs p q] by (auto simp: open_buffer_def)
      ultimately show ?thesis using "1.prems"(2) by blast
    next
      case (dropped r)
      have rest: "trim_loop cfg (qe_id q) t = st'"
        using "1.prems"(3) True d dropped(1) by (simp add: trim_loop.simps[of cfg _ st])
      have "q \<in> set (without (qe_id r) qs)" using dropped(3) "1.prems"(2) by (auto simp: without_def)
      with "1.hyps"[OF True d[symmetric] _ dropped(5) _ rest] dropped(1)
        shrunk_without[OF "1.prems"(1) dropped(2,4,5,6,7)] show ?thesis
        by (auto dest: shrunk_trans)
    qed
  qed
qed

lemma evicts_bytes: "evicts qs qs' \<Longrightarrow> queued_bytes qs' \<le> queued_bytes qs"
  unfolding evicts_def queued_bytes_def by (auto simp: sum_list_filter_le)

lemma evicts_without_both: "evicts qs qs' \<Longrightarrow> queued_bytes (without i qs') \<le> queued_bytes (without i qs)"
proof (unfold evicts_def, elim exE conjE)
  fix P
  assume "qs' = filter P qs"
  then have "without i qs' = filter P (without i qs)" by (simp add: without_def conj_commute)
  then show ?thesis by (simp add: queued_bytes_def sum_list_filter_le)
qed

lemma remove_first_items: "distinct (map qe_id qs) \<Longrightarrow> remove_first i (map Item qs) = map Item (without i qs)"
proof (induction qs)
  case (Cons q qs)
  then show ?case using without_fresh[of q qs] by (cases "qe_id q = i") (auto simp: without_def)
qed (simp add: without_def)

lemma queued_with_open:
  assumes "open_buffer H cfg qs st"
  shows "queued_with i st = Some q \<longleftrightarrow> q \<in> set qs \<and> qe_id q = i"
proof -
  have "distinct (map qe_id qs) \<Longrightarrow>
      (case find (has_id i) (map Item qs) of Some (Item q) \<Rightarrow> Some q | _ \<Rightarrow> None) = Some q \<longleftrightarrow> q \<in> set qs \<and> qe_id q = i"
    by (induction qs) (auto split: if_splits)
  with assms show ?thesis by (simp add: queued_with_def open_buffer_def)
qed

lemma trim_bytes_buffer:
  assumes "open_buffer H cfg qs st" "q \<in> set qs" "qe_droppable q" "qe_size q \<le> sc_max_buffer_bytes cfg"
    "queued_bytes (without (qe_id q) qs) \<le> sc_max_buffer_bytes cfg" "trim_bytes cfg q st = st'"
  shows "\<exists>qs'. shrunk H cfg qs st qs' st' \<and> queued_bytes qs' \<le> sc_max_buffer_bytes cfg"
proof -
  define t where "t = trim_loop cfg (qe_id q) st"
  from trim_loop_buffer[OF assms(1,2) t_def[symmetric]] obtain qs1 where
    s: "shrunk H cfg qs st qs1 t" "q \<in> set qs1" and
    ends: "es_bytes t \<le> sc_max_buffer_bytes cfg \<or> length qs1 \<le> 1 \<or> (\<forall>p \<in> set qs1. p \<noteq> q \<longrightarrow> \<not> qe_droppable p)" by blast
  have o: "open_buffer H cfg qs1 t" and e: "evicts qs qs1" using s(1) by (simp_all add: shrunk_def)
  then have bytes: "es_bytes t = queued_bytes qs1" and d: "distinct (map qe_id qs1)" by (simp_all add: open_buffer_def)
  show ?thesis
  proof (cases "es_bytes t > sc_max_buffer_bytes cfg")
    case False
    with assms(6) s(1) bytes show ?thesis by (auto simp: trim_bytes_def Let_def t_def)
  next
    case True
    have w: "queued_with (qe_id q) t = Some q" using queued_with_open[OF o] s(2) by simp
    have q: "es_queue t = map Item qs1" using o by (simp add: open_buffer_def)
    from True assms(3,6) w have "st' = discard cfg q (t\<lparr>es_queue := map Item (without (qe_id q) qs1)\<rparr>)"
      by (simp add: trim_bytes_def Let_def t_def[symmetric] remove_queued_def q remove_first_items[OF d])
    with discard_buffer[OF o s(2) refl] have "shrunk H cfg qs1 t (without (qe_id q) qs1) st'"
      using shrunk_without[OF o s(2) assms(3)] by simp
    moreover have "queued_bytes (without (qe_id q) qs1) \<le> sc_max_buffer_bytes cfg"
      using evicts_without_both[OF e, of "qe_id q"] assms(5) by simp
    ultimately show ?thesis using s(1) shrunk_trans by blast
  qed
qed

section \<open>The state of a stream\<close>

text \<open>
  The invariant of a stream whose buffered events are \<open>qs\<close>: the counters are exact, both limits
  and the high-water marks hold, and the end marker follows the events exactly when the result is settled.
\<close>

definition stream_at :: "host \<Rightarrow> stream_config \<Rightarrow> queued_event list \<Rightarrow> event_stream \<Rightarrow> bool" where
  "stream_at H cfg qs st \<longleftrightarrow> open_buffer H cfg qs (st\<lparr>es_queue := map Item qs\<rparr>) \<and>
     length qs \<le> es_high_events st \<and> es_high_events st \<le> sc_max_buffer_size cfg \<and>
     queued_bytes qs \<le> es_high_bytes st \<and> es_high_bytes st \<le> sc_max_buffer_bytes cfg \<and>
     (if es_done st then es_result st \<noteq> None \<and> (es_queue st = map Item qs @ [EndMark] \<or> qs = [] \<and> es_queue st = [])
      else es_result st = None \<and> es_queue st = map Item qs)"

definition stream_ok :: "host \<Rightarrow> stream_config \<Rightarrow> event_stream \<Rightarrow> bool" where
  "stream_ok H cfg st \<longleftrightarrow> (\<exists>qs. stream_at H cfg qs st)"

lemma stream_at_open:
  "\<not> es_done st \<Longrightarrow> stream_at H cfg qs st \<longleftrightarrow> open_buffer H cfg qs st \<and> es_result st = None \<and>
     length qs \<le> es_high_events st \<and> es_high_events st \<le> sc_max_buffer_size cfg \<and>
     queued_bytes qs \<le> es_high_bytes st \<and> es_high_bytes st \<le> sc_max_buffer_bytes cfg"
  by (auto simp: stream_at_def open_buffer_def)

lemma stream_at_new [simp]: "stream_at H cfg [] new_stream"
  by (simp add: stream_at_def open_buffer_def new_stream_def pending_ok_def queued_bytes_def)

lemma shrunk_stream:
  assumes "stream_at H cfg qs st" "\<not> es_done st" "shrunk H cfg qs st qs' st'"
  shows "stream_at H cfg qs' st'" "\<not> es_done st'"
  using assms evicts_length[of qs qs'] evicts_bytes[of qs qs'] by (auto simp: stream_at_open shrunk_def frame_def)

lemma terminate_stream:
  assumes "stream_at H cfg qs st" "\<not> es_done st"
  shows "\<exists>st'. terminate_with_error cfg e st = (Inr (), st') \<and> terminate_and_raise cfg e st = (Inl e, st') \<and>
    stream_at H cfg qs st' \<and> es_done st' \<and> es_result st' = Some (Inl e) \<and> es_dropped st' = es_dropped st \<and>
    es_pending st' = es_pending st \<and> es_queue st' \<noteq> []"
proof -
  have q: "es_queue st = map Item qs" "length qs < sc_max_buffer_size cfg + 1" "es_result st = None"
    using assms by (auto simp: stream_at_open open_buffer_def)
  show ?thesis using assms q
    by (simp add: terminate_and_raise_def terminate_with_error_def put_nowait_def set_result_def
        close_backpressure_notifications_def stream_at_def open_buffer_def)
qed

lemma push_queued_stream:
  assumes at: "stream_at H cfg qs st" and open': "\<not> es_done st" and fits: "\<not> would_overflow cfg sz st"
    and q: "q = \<lparr>qe_id = es_next_id st, qe_value = event, qe_size = sz, qe_key = key, qe_droppable = d\<rparr>"
    and ok: "queued_ok H cfg (Suc (es_next_id st)) q"
  shows "\<exists>st'. push_queued cfg event sz key d terminal st = (Inr (), st') \<and> stream_at H cfg (qs @ [q]) st' \<and>
    es_done st' = (terminal \<noteq> None) \<and> es_result st' = map_option Inr terminal \<and> es_dropped st' = es_dropped st \<and>
    es_pending st' = (case key of None \<Rightarrow> es_pending st | Some k \<Rightarrow> dset (es_pending st) k (qe_id q))"
proof -
  have o: "es_queue st = map Item qs" "es_result st = None" "es_count st = length qs" "es_bytes st = queued_bytes qs"
    "distinct (map qe_id qs)" "\<forall>p \<in> set qs. queued_ok H cfg (es_next_id st) p" "pending_ok qs (es_pending st)"
    using at open' by (auto simp: stream_at_open open_buffer_def)
  have lim: "length qs < sc_max_buffer_size cfg" "queued_bytes qs + sz \<le> sc_max_buffer_bytes cfg"
    "es_high_events st \<le> sc_max_buffer_size cfg" "es_high_bytes st \<le> sc_max_buffer_bytes cfg"
    using at open' fits o(3,4) by (auto simp: stream_at_open would_overflow_def)
  have ids: "distinct (map qe_id (qs @ [q]))" using o(5,6) q by (auto simp: queued_ok_def)
  have oks: "\<forall>p \<in> set (qs @ [q]). queued_ok H cfg (Suc (es_next_id st)) p"
    using o(6) ok by (auto simp: queued_ok_def)
  have pend: "pending_ok (qs @ [q]) (case key of None \<Rightarrow> es_pending st | Some k \<Rightarrow> dset (es_pending st) k (qe_id q))"
    using o(7) q by (auto simp: pending_ok_def split: option.splits if_splits)
  have bytes: "queued_bytes (qs @ [q]) = queued_bytes qs + sz" by (simp add: queued_bytes_def q)
  show ?thesis
    using o lim ids oks pend bytes q open'
    by (cases terminal; cases key) (simp_all add: push_queued_def put_nowait_def set_result_def Let_def stream_at_def open_buffer_def
        update_high_watermarks_def close_backpressure_notifications_def)
qed

definition assigned :: "queued_event \<Rightarrow> queued_event list \<Rightarrow> queued_event list" where
  "assigned q qs = map (\<lambda>p. if qe_id p = qe_id q then q else p) qs"

lemma assigned_ids [simp]: "map qe_id (assigned q qs) = map qe_id qs"
  by (induction qs) (auto simp: assigned_def)

lemma assigned_length [simp]: "length (assigned q qs) = length qs"
  by (simp add: assigned_def)

lemma assigned_without [simp]: "without (qe_id q) (assigned q qs) = without (qe_id q) qs"
  by (induction qs) (auto simp: assigned_def without_def)

lemma set_assigned: "p \<in> set qs \<Longrightarrow> qe_id p = qe_id q \<Longrightarrow> q \<in> set (assigned q qs)"
  "x \<in> set (assigned q qs) \<Longrightarrow> x = q \<or> x \<in> set qs"
  by (auto simp: assigned_def)

lemma assign_items: "map (assign_item q) (map Item qs) = map Item (assigned q qs)"
  by (simp add: assigned_def)

lemma assign_buffer:
  assumes o: "open_buffer H cfg qs st" and p: "p \<in> set qs" and same: "qe_id q = qe_id p" "qe_key q = qe_key p"
    and ok: "queued_ok H cfg (es_next_id st) q"
  shows "open_buffer H cfg (assigned q qs)
    (assign_queued q (st\<lparr>es_bytes := es_bytes st + qe_size q - qe_size p, es_dropped := n\<rparr>))"
proof -
  have d: "distinct (map qe_id qs)" using o by (simp add: open_buffer_def)
  have "q \<in> set (assigned q qs)" using set_assigned(1)[OF p] same(1) by simp
  then have "queued_bytes (assigned q qs) = qe_size q + queued_bytes (without (qe_id q) qs)"
    using without_bytes[of "assigned q qs" q] d by simp
  then have bytes: "queued_bytes (assigned q qs) = es_bytes st + qe_size q - qe_size p"
    using without_bytes[OF d p] o same(1) by (simp add: open_buffer_def)
  have pend: "pending_ok (assigned q qs) (es_pending st)" unfolding pending_ok_def
  proof (intro allI impI)
    fix k i
    assume "map_of (es_pending st) k = Some i"
    then obtain r where r: "r \<in> set qs" "qe_id r = i" "qe_key r = Some k"
      using o unfolding open_buffer_def pending_ok_def by meson
    show "\<exists>r \<in> set (assigned q qs). qe_id r = i \<and> qe_key r = Some k"
    proof (cases "qe_id r = qe_id q")
      case True
      then have "r = p" using distinct_id_inj[OF d r(1) p] same(1) by simp
      with r same \<open>q \<in> set (assigned q qs)\<close> show ?thesis by auto
    next
      case False
      with r show ?thesis by (auto simp: assigned_def intro!: image_eqI[of _ _ r])
    qed
  qed
  show ?thesis using o ok bytes pend set_assigned(2)[of _ q qs] d
    by (auto simp: open_buffer_def assign_queued_def assigned_def[symmetric] simp flip: assign_items)
qed

lemma finish_coalescing_stream:
  assumes o: "open_buffer H cfg qs st" and q: "q \<in> set qs" "qe_droppable q" "qe_size q \<le> sc_max_buffer_bytes cfg"
    "queued_bytes (without (qe_id q) qs) \<le> sc_max_buffer_bytes cfg"
    and st: "\<not> es_done st" "es_result st = None" "es_high_events st \<le> sc_max_buffer_size cfg"
      "es_high_bytes st \<le> sc_max_buffer_bytes cfg" "length qs \<le> sc_max_buffer_size cfg"
    and st': "st' = finish_coalescing cfg action q st"
  shows "\<exists>qs'. stream_at H cfg qs' st' \<and> evicts qs qs' \<and> \<not> es_done st' \<and> es_dropped st \<le> es_dropped st' \<and>
    (es_dropped st' = es_dropped st \<longrightarrow> qs' = qs \<and> es_pending st' = es_pending st)"
proof -
  define t where "t = notify_backpressure cfg action (st\<lparr>es_coalesced := es_coalesced st + 1\<rparr>)"
  have ot: "open_buffer H cfg qs t" using o by (simp add: t_def open_buffer_def)
  from trim_bytes_buffer[OF ot q refl] obtain qs' where
    s: "shrunk H cfg qs t qs' (trim_bytes cfg q t)" "queued_bytes qs' \<le> sc_max_buffer_bytes cfg" by blast
  have e: "st' = notify_queue_change cfg (update_high_watermarks (trim_bytes cfg q t))"
    by (simp add: st' finish_coalescing_def t_def)
  have f: "es_done (trim_bytes cfg q t) = es_done st" "es_result (trim_bytes cfg q t) = es_result st"
    "es_high_events (trim_bytes cfg q t) = es_high_events st" "es_high_bytes (trim_bytes cfg q t) = es_high_bytes st"
    "es_dropped st \<le> es_dropped (trim_bytes cfg q t)"
    using s(1) by (simp_all add: shrunk_def frame_def t_def)
  have b: "open_buffer H cfg qs' (trim_bytes cfg q t)" "length qs' \<le> length qs" "evicts qs qs'"
    using s(1) evicts_length[of qs qs'] by (simp_all add: shrunk_def)
  have c: "es_count (trim_bytes cfg q t) = length qs'" "es_bytes (trim_bytes cfg q t) = queued_bytes qs'"
    using b(1) by (simp_all add: open_buffer_def)
  have k: "es_dropped (trim_bytes cfg q t) = es_dropped st \<longrightarrow> qs' = qs \<and> es_pending (trim_bytes cfg q t) = es_pending st"
    using s(1) by (simp add: shrunk_def t_def)
  have d: "\<not> es_done st'" using f st e by (simp add: update_high_watermarks_def)
  have "stream_at H cfg qs' st'" unfolding stream_at_open[OF d]
    using f st b c s(2) e by (simp add: update_high_watermarks_def open_buffer_def)
  with d b(3) f(5) k e show ?thesis by (intro exI[of _ qs']) (simp add: update_high_watermarks_def)
qed

section \<open>One push\<close>

text \<open>
  The four ways a push on an open stream ends: it raises and the stream is over, the event is
  queued behind what was kept, it is merged into a buffered update of the same key, or it is dropped.
\<close>

inductive push_outcome :: "host \<Rightarrow> stream_config \<Rightarrow> jdict \<Rightarrow> queued_event list \<Rightarrow> event_stream
    \<Rightarrow> (stream_fault, unit) result \<Rightarrow> queued_event list \<Rightarrow> event_stream \<Rightarrow> bool"
  for H cfg event qs st where
  raised: "stream_at H cfg qs' st' \<Longrightarrow> es_dropped st \<le> es_dropped st' \<Longrightarrow> evicts qs qs' \<Longrightarrow> es_done st' \<Longrightarrow>
    es_result st' = Some (Inl e) \<Longrightarrow> es_queue st' \<noteq> [] \<Longrightarrow>
    es_dropped st' = es_dropped st \<longrightarrow> qs' = qs \<and> es_pending st' = es_pending st \<Longrightarrow>
    push_outcome H cfg event qs st (Inl e) qs' st'"
| queued: "stream_at H cfg (kept @ [q]) st' \<Longrightarrow> es_dropped st \<le> es_dropped st' \<Longrightarrow> evicts qs kept \<Longrightarrow> qe_value q = event \<Longrightarrow>
    es_dropped st' = es_dropped st \<longrightarrow> kept = qs \<and>
      es_pending st' = (case qe_key q of None \<Rightarrow> es_pending st | Some k \<Rightarrow> dset (es_pending st) k (qe_id q)) \<Longrightarrow>
    push_outcome H cfg event qs st (Inr ()) (kept @ [q]) st'"
| merged: "stream_at H cfg qs' st' \<Longrightarrow> es_dropped st \<le> es_dropped st' \<Longrightarrow> p \<in> set qs \<Longrightarrow> progress_event cfg event \<Longrightarrow>
    \<not> es_done st' \<Longrightarrow> sc_coalesce_key cfg event = Inr (Some k) \<Longrightarrow> qe_key p = Some k \<Longrightarrow>
    map_of (es_pending st) k = Some (qe_id p) \<Longrightarrow> q = p\<lparr>qe_value := v, qe_size := estimate_size H v\<rparr> \<Longrightarrow>
    evicts (assigned q qs) qs' \<Longrightarrow>
    es_dropped st' = es_dropped st \<longrightarrow> sc_merge_updates cfg (qe_value p) event = Inr v \<and>
      qs' = assigned q qs \<and> es_pending st' = es_pending st \<Longrightarrow>
    push_outcome H cfg event qs st (Inr ()) qs' st'"
| lost: "stream_at H cfg qs' st' \<Longrightarrow> progress_event cfg event \<Longrightarrow> evicts qs qs' \<Longrightarrow> es_dropped st < es_dropped st' \<Longrightarrow>
    \<not> es_done st' \<Longrightarrow> push_outcome H cfg event qs st (Inr ()) qs' st'"

lemma terminate_outcome:
  assumes "stream_at H cfg qs1 st1" "\<not> es_done st1" "shrunk H cfg qs st qs1 st1" "terminate_and_raise cfg e st1 = (r, st')"
  shows "\<exists>qs'. push_outcome H cfg event qs st r qs' st'"
  using terminate_stream[OF assms(1,2), of e] assms(3,4)
  by (auto intro!: exI[of _ qs1] push_outcome.raised simp: shrunk_def frame_def)

lemma terminate_now_outcome:
  assumes "stream_at H cfg qs st" "\<not> es_done st" "terminate_and_raise cfg e st = (r, st')"
  shows "\<exists>qs'. push_outcome H cfg event qs st r qs' st'"
proof -
  have "shrunk H cfg qs st qs st" using assms(1,2) by (simp add: stream_at_open shrunk_refl)
  then show ?thesis by (rule terminate_outcome[OF assms(1,2) _ assms(3)])
qed

context bounded_stream
begin

lemma push_coalesced_outcome:
  assumes at: "stream_at H cfg qs st" "\<not> es_done st" and p: "p \<in> set qs" "qe_key p = Some k"
      "map_of (es_pending st) k = Some (qe_id p)"
    and ev: "progress_event cfg event" "sc_coalesce_key cfg event = Inr (Some k)"
      "estimate_size H event \<le> sc_max_buffer_bytes cfg"
    and call: "push_coalesced H cfg event (estimate_size H event) p st = (Inr (), st')"
  shows "\<exists>qs'. push_outcome H cfg event qs st (Inr ()) qs' st'"
proof -
  have o: "open_buffer H cfg qs st" and lim: "length qs \<le> sc_max_buffer_size cfg" "queued_bytes qs \<le> sc_max_buffer_bytes cfg"
      "es_result st = None" "es_high_events st \<le> sc_max_buffer_size cfg" "es_high_bytes st \<le> sc_max_buffer_bytes cfg"
    using at by (auto simp: stream_at_open)
  then have okp: "queued_ok H cfg (es_next_id st) p" and d: "distinct (map qe_id qs)"
    using p(1) by (simp_all add: open_buffer_def)
  have rest: "queued_bytes (without (qe_id p) qs) \<le> sc_max_buffer_bytes cfg"
    using without_bytes[OF d p(1)] lim(2) by simp
  have main: ?thesis if v: "progress_event cfg v" "sc_coalesce_key cfg v = Inr (Some k)"
      "estimate_size H v \<le> sc_max_buffer_bytes cfg" "q = p\<lparr>qe_value := v, qe_size := estimate_size H v\<rparr>"
      and n: "es_dropped st < n \<or> es_dropped st = n \<and> sc_merge_updates cfg (qe_value p) event = Inr v"
      and st': "st' = finish_coalescing cfg action q (assign_queued q
        (st\<lparr>es_bytes := es_bytes st + estimate_size H v - qe_size p, es_dropped := n\<rparr>))" for v q action n
  proof -
    let ?t = "assign_queued q (st\<lparr>es_bytes := es_bytes st + estimate_size H v - qe_size p, es_dropped := n\<rparr>)"
    have same: "qe_id q = qe_id p" "qe_key q = qe_key p" "qe_size q = estimate_size H v" "qe_droppable q = qe_droppable p"
      by (simp_all add: v(4))
    have okq: "queued_ok H cfg (es_next_id st) q" using okp v p(2) by (simp add: queued_ok_def)
    then have dq: "qe_droppable q" using p(2) same(2) by (simp add: queued_ok_def)
    have ot: "open_buffer H cfg (assigned q qs) ?t" using assign_buffer[OF o p(1) same(1,2) okq, of n] same(3) by simp
    have qin: "q \<in> set (assigned q qs)" using set_assigned(1)[OF p(1)] same(1) by simp
    have t: "\<not> es_done ?t" "es_result ?t = None" "es_high_events ?t \<le> sc_max_buffer_size cfg"
      "es_high_bytes ?t \<le> sc_max_buffer_bytes cfg" "length (assigned q qs) \<le> sc_max_buffer_size cfg"
      "es_dropped ?t = n" "es_pending ?t = es_pending st"
      using at(2) lim by (simp_all add: assign_queued_def)
    have w: "queued_bytes (without (qe_id q) (assigned q qs)) \<le> sc_max_buffer_bytes cfg"
      using rest same(1) assigned_without[of q qs] by simp
    from finish_coalescing_stream[OF ot qin dq _ w t(1-5) st'] v(3) same(3) obtain qs' where
      "stream_at H cfg qs' st'" "evicts (assigned q qs) qs'" "n \<le> es_dropped st'" "\<not> es_done st'"
      "es_dropped st' = n \<longrightarrow> qs' = assigned q qs \<and> es_pending st' = es_pending st"
      unfolding t(6,7) by auto
    with n p ev v(4) show ?thesis
      by (intro exI[of _ qs'] push_outcome.merged[where p = p and k = k and q = q and v = v]) auto
  qed
  obtain m where m: "sc_merge_updates cfg (qe_value p) event = Inr m"
    using call by (cases "sc_merge_updates cfg (qe_value p) event") (auto simp: push_coalesced_def)
  have pp: "progress_event cfg (qe_value p)" using okp p(2) by (auto simp: queued_ok_def)
  show ?thesis
  proof (cases "estimate_size H m > sc_max_buffer_bytes cfg")
    case True
    with call m terminate_stream[OF at, of "Raised MergedTooLarge"]
    have "st' = finish_coalescing cfg ''coalesced_replaced'' (p\<lparr>qe_value := event, qe_size := estimate_size H event\<rparr>)
        (assign_queued (p\<lparr>qe_value := event, qe_size := estimate_size H event\<rparr>)
          (st\<lparr>es_bytes := es_bytes st + estimate_size H event - qe_size p, es_dropped := es_dropped st + 1\<rparr>))"
      by (auto simp: push_coalesced_def Let_def split: if_splits)
    then show ?thesis by (rule main[OF ev(1,2,3) refl, rotated]) simp
  next
    case False
    have "st' = finish_coalescing cfg ''coalesced'' (p\<lparr>qe_value := m, qe_size := estimate_size H m\<rparr>)
        (assign_queued (p\<lparr>qe_value := m, qe_size := estimate_size H m\<rparr>)
          (st\<lparr>es_bytes := es_bytes st + estimate_size H m - qe_size p, es_dropped := es_dropped st\<rparr>))"
      using call m False by (simp add: push_coalesced_def Let_def)
    then show ?thesis
      by (rule main[OF merge_progress[OF pp ev(1) m] _ _ refl, rotated 3]) (use m False merge_key[OF m] ev(2) in auto)
  qed
qed

lemma push_queued_outcome:
  assumes at: "stream_at H cfg kept st1" "\<not> es_done st1" and kept: "shrunk H cfg qs st kept st1"
    and fits: "\<not> would_overflow cfg (estimate_size H event) st1"
    and key: "sc_coalesce_key cfg event = Inr key" "key \<noteq> None \<longrightarrow> d" "d \<longleftrightarrow> progress_event cfg event"
    and call: "push_queued cfg event (estimate_size H event) key d terminal st1 = (r, st')"
  shows "\<exists>qs'. push_outcome H cfg event qs st r qs' st'"
proof -
  define q where "q = \<lparr>qe_id = es_next_id st1, qe_value = event, qe_size = estimate_size H event, qe_key = key, qe_droppable = d\<rparr>"
  have "queued_ok H cfg (Suc (es_next_id st1)) q" using key by (simp add: q_def queued_ok_def)
  from push_queued_stream[OF at fits q_def this, of terminal] call have
    new: "r = Inr ()" "stream_at H cfg (kept @ [q]) st'" "es_dropped st' = es_dropped st1"
      "es_pending st' = (case key of None \<Rightarrow> es_pending st1 | Some k \<Rightarrow> dset (es_pending st1) k (qe_id q))" by auto
  have s: "evicts qs kept" "es_dropped st \<le> es_dropped st1"
    "es_dropped st1 = es_dropped st \<longrightarrow> kept = qs \<and> es_pending st1 = es_pending st"
    using kept by (auto simp: shrunk_def frame_def)
  have "qe_value q = event" "qe_key q = key" by (simp_all add: q_def)
  with new s show ?thesis
    by (intro exI[of _ "kept @ [q]"]) (simp, rule push_outcome.queued, auto split: option.splits)
qed

lemma push_evicting_outcome:
  assumes at: "stream_at H cfg qs st" "\<not> es_done st"
    and key: "sc_coalesce_key cfg event = Inr key" "key \<noteq> None \<longrightarrow> d" "d \<longleftrightarrow> progress_event cfg event"
    and n: "n = estimate_size H event"
    and c: "(if sc_policy cfg = ErrorPolicy \<and> terminal = None then terminate_and_raise cfg (Raised SlowConsumer) st
        else case make_room cfg n st of
            (True, st) \<Rightarrow> push_queued cfg event n key d terminal st
          | (False, st) \<Rightarrow>
              if d \<and> terminal = None
              then (Inr (), notify_queue_change cfg (notify_backpressure cfg ''incoming_update_dropped''
                      (st\<lparr>es_dropped := es_dropped st + 1\<rparr>)))
              else terminate_and_raise cfg (Raised StructuralFull) st) = (r, st')"
  shows "\<exists>qs'. push_outcome H cfg event qs st r qs' st'"
proof (cases "sc_policy cfg = ErrorPolicy \<and> terminal = None")
  case True
  with c have "terminate_and_raise cfg (Raised SlowConsumer) st = (r, st')" by simp
  then show ?thesis by (rule terminate_now_outcome[OF at])
next
  case False
  have o: "open_buffer H cfg qs st" using at by (simp add: stream_at_open)
  obtain b st1 where m: "make_room cfg n st = (b, st1)" by force
  from make_room_buffer[OF o m] obtain kept where s: "shrunk H cfg qs st kept st1"
    and room: "b \<longrightarrow> \<not> would_overflow cfg n st1" by blast
  note at1 = shrunk_stream[OF at s]
  have e: "evicts qs kept" "es_dropped st \<le> es_dropped st1" using s by (auto simp: shrunk_def frame_def)
  show ?thesis
  proof (cases b)
    case True
    with c False m room show ?thesis by (auto simp: n intro: push_queued_outcome[OF at1 s _ key])
  next
    case nb: False
    show ?thesis
    proof (cases "d \<and> terminal = None")
      case True
      with c False m nb have "r = Inr ()"
        "st' = notify_queue_change cfg (notify_backpressure cfg ''incoming_update_dropped'' (st1\<lparr>es_dropped := es_dropped st1 + 1\<rparr>))"
        by auto
      with True key(3) at1 e show ?thesis
        by (intro exI[of _ kept]) (auto intro!: push_outcome.lost simp: stream_at_def open_buffer_def)
    next
      case nd: False
      with c False m nb have "terminate_and_raise cfg (Raised StructuralFull) st1 = (r, st')" by auto
      then show ?thesis by (rule terminate_outcome[OF at1 s])
    qed
  qed
qed

lemma push_classified_outcome:
  assumes at: "stream_at H cfg qs st" "\<not> es_done st"
    and key: "sc_coalesce_key cfg event = Inr key" "key \<noteq> None \<longrightarrow> d" "d \<longleftrightarrow> progress_event cfg event"
    and trm: "terminal \<noteq> None \<longrightarrow> \<not> d"
    and call: "push_classified H cfg event terminal key d st = (r, st')"
  shows "(\<exists>qs'. push_outcome H cfg event qs st r qs' st') \<or> (\<exists>e. r = Inl e \<and> st' = st)" (is "?out \<or> _")
proof -
  let ?n = "estimate_size H event"
  have o: "open_buffer H cfg qs st" using at by (simp add: stream_at_open)
  have ex: "\<exists>k. key = Some k \<and> q \<in> set qs \<and> qe_key q = Some k \<and> map_of (es_pending st) k = Some (qe_id q)"
    if "pending_update key st = Some q" for q
  proof -
    from that obtain k i where k: "key = Some k" "map_of (es_pending st) k = Some i" "queued_with i st = Some q"
      by (auto simp: pending_update_def bind_eq_Some_conv)
    then have "q \<in> set qs" "qe_id q = i" using queued_with_open[OF o] by auto
    moreover obtain q' where "q' \<in> set qs" "qe_id q' = i" "qe_key q' = Some k"
      using o k(2) unfolding open_buffer_def pending_ok_def by meson
    ultimately show ?thesis using k distinct_id_inj[of qs q q'] o by (auto simp: open_buffer_def)
  qed
  consider (large) "?n > sc_max_buffer_bytes cfg"
    | (merge) q where "\<not> ?n > sc_max_buffer_bytes cfg" "pending_update key st = Some q" "would_overflow cfg ?n st" "terminal = None"
    | (fits) "\<not> ?n > sc_max_buffer_bytes cfg" "\<not> would_overflow cfg ?n st"
    | (evict) "\<not> ?n > sc_max_buffer_bytes cfg" "pending_update key st = None \<or> terminal \<noteq> None" "would_overflow cfg ?n st"
    by (cases "pending_update key st") blast+
  then show ?thesis
  proof cases
    case large
    show ?thesis
    proof (cases "terminal \<noteq> None \<or> \<not> d \<or> sc_policy cfg = ErrorPolicy")
      case True
      then have "terminate_and_raise cfg (Raised EventTooLarge) st = (r, st')"
        using call large by (simp add: push_classified_def Let_def)
      then have ?out by (rule terminate_now_outcome[OF at])
      then show ?thesis ..
    next
      case False
      then have "r = Inr ()" "st' = notify_backpressure cfg ''oversized_dropped'' (st\<lparr>es_dropped := es_dropped st + 1\<rparr>)"
        using call large by (auto simp: push_classified_def Let_def)
      with False key(3) at show ?thesis
        by (intro disjI1 exI[of _ qs]) (auto intro!: push_outcome.lost simp: stream_at_def open_buffer_def)
    qed
  next
    case merge
    from ex[OF merge(2)] obtain k where k: "key = Some k" "q \<in> set qs" "qe_key q = Some k" "map_of (es_pending st) k = Some (qe_id q)"
      by blast
    have c: "push_coalesced H cfg event ?n q st = (r, st')"
      using call merge by (simp add: push_classified_def Let_def )
    show ?thesis
    proof (cases r)
      case (Inr u)
      with c have "push_coalesced H cfg event ?n q st = (Inr (), st')" by simp
      with push_coalesced_outcome[OF at k(2-4)] k key merge(1) Inr show ?thesis by (auto simp: not_less)
    next
      case (Inl e)
      with c have "terminate_and_raise cfg (Raised MergedTooLarge) st = (r, st') \<or> st' = st"
        by (auto simp: push_coalesced_def Let_def split: sum.splits if_splits)
      with Inl show ?thesis using terminate_now_outcome[OF at] by blast
    qed
  next
    case fits
    then have "push_queued cfg event ?n key d terminal st = (r, st')"
      using call by (auto simp: push_classified_def Let_def  split: option.splits)
    then have ?out by (rule push_queued_outcome[OF at shrunk_refl[OF o] fits(2) key])
    then show ?thesis ..
  next
    case evict
    then show ?thesis using call
      by (intro disjI1 push_evicting_outcome[where terminal = terminal, OF at key refl])
        (auto simp: push_classified_def Let_def  split: option.splits)
  qed
qed

text \<open>Every push on an open stream has one of the four outcomes; a push that raises ends the stream with what it raised.\<close>

lemma push_raise_outcome:
  assumes "stream_at H cfg qs st" "\<not> es_done st" "push_open H cfg event st = (Inl e, st)" "push H cfg event st = (r, st')"
  shows "\<exists>qs'. push_outcome H cfg event qs st r qs' st'"
proof -
  have "terminate_and_raise cfg e st = (r, st')" using assms by (simp add: push_def)
  then show ?thesis by (rule terminate_now_outcome[OF assms(1,2)])
qed

lemma push_push_outcome:
  assumes at: "stream_at H cfg qs st" "\<not> es_done st" and call: "push H cfg event st = (r, st')"
  shows "\<exists>qs'. push_outcome H cfg event qs st r qs' st'"
proof (cases "sc_is_complete cfg event")
  case (Inl e)
  then show ?thesis using push_raise_outcome[OF at _ call] by (simp add: push_open_def)
next
  case compl: (Inr t)
  show ?thesis
  proof (cases "if t then map_sum id Some (sc_extract_result cfg event) else Inr None")
    case (Inl e)
    with compl have "push_open H cfg event st = terminate_and_raise cfg e st" by (simp add: push_open_def)
    with call terminate_stream[OF at, of e] at(2) have "terminate_and_raise cfg e st = (r, st')" by (auto simp: push_def)
    then show ?thesis by (rule terminate_now_outcome[OF at])
  next
    case ext: (Inr terminal)
    show ?thesis
    proof (cases "sc_coalesce_key cfg event")
      case (Inl e)
      with compl ext show ?thesis using push_raise_outcome[OF at _ call] by (simp add: push_open_def)
    next
      case key: (Inr key)
      show ?thesis
      proof (cases "sc_is_droppable cfg event")
        case (Inl e)
        with compl ext key show ?thesis using push_raise_outcome[OF at _ call] by (simp add: push_open_def)
      next
        case drp: (Inr d)
        have t: "terminal \<noteq> None \<longleftrightarrow> t" using ext by (cases "sc_extract_result cfg event") (auto split: if_splits)
        have o: "push_open H cfg event st = push_classified H cfg event terminal key (d \<and> terminal = None) st"
          using compl ext key drp by (simp add: push_open_def)
        have d: "d \<and> terminal = None \<longleftrightarrow> progress_event cfg event" using compl drp t by (auto simp: progress_event_def)
        moreover have "key \<noteq> None \<longrightarrow> d \<and> terminal = None" using keyed_progress[OF _ compl drp] key d by auto
        moreover obtain r1 st1 where c: "push_classified H cfg event terminal key (d \<and> terminal = None) st = (r1, st1)" by force
        ultimately have "(\<exists>qs'. push_outcome H cfg event qs st r1 qs' st1) \<or> (\<exists>e. r1 = Inl e \<and> st1 = st)"
          by (intro push_classified_outcome[OF at key _ _ _ c]) auto
        then show ?thesis
        proof (elim disjE exE conjE)
          fix qs'
          assume out: "push_outcome H cfg event qs st r1 qs' st1"
          then have "push H cfg event st = (r1, st1)" using at(2) o c by (cases rule: push_outcome.cases) (simp_all add: push_def)
          with call out show ?thesis by auto
        next
          fix e
          assume "r1 = Inl e" "st1 = st"
          with o c show ?thesis using push_raise_outcome[OF at _ call] by simp
        qed
      qed
    qed
  qed
qed

end

end
