(* ===== verification/Event_Stream_Guarantees.thy ===== *)
theory Event_Stream_Guarantees
  imports Event_Stream_Theorems
begin

text \<open>
  Runs of a stream: any interleaving of pushes, endings and failures by the producer and reads by
  the consumer. \<open>sr_accepted\<close> collects the events whose push returned on an open stream,
  \<open>sr_delivered\<close> what the reader received, \<open>sr_finished\<close> whether the reader has left its loop.
\<close>

section \<open>Runs\<close>

datatype stream_op = Push jdict | EndWith json | FailWith "stream_fault exc" | Next

record stream_run =
  sr_stream :: event_stream
  sr_accepted :: "jdict list"
  sr_delivered :: "jdict list"
  sr_finished :: bool

definition new_run :: stream_run where
  "new_run = \<lparr>sr_stream = new_stream, sr_accepted = [], sr_delivered = [], sr_finished = False\<rparr>"

definition stream_step :: "host \<Rightarrow> stream_config \<Rightarrow> stream_op \<Rightarrow> stream_run \<Rightarrow> stream_run" where
  "stream_step H cfg op r = (case op of
     Push e \<Rightarrow> (case push H cfg e (sr_stream r) of (res, st) \<Rightarrow>
       r\<lparr>sr_stream := st,
         sr_accepted := sr_accepted r @ (if isOk res \<and> \<not> es_done (sr_stream r) then [e] else [])\<rparr>)
   | EndWith v \<Rightarrow> r\<lparr>sr_stream := snd (end_stream cfg v (sr_stream r))\<rparr>
   | FailWith e \<Rightarrow> r\<lparr>sr_stream := snd (fail_stream cfg e (sr_stream r))\<rparr>
   | Next \<Rightarrow> (case next_event cfg (sr_stream r) of
       (Waiting, st) \<Rightarrow> r\<lparr>sr_stream := st\<rparr>
     | (Finished, st) \<Rightarrow> r\<lparr>sr_stream := st, sr_finished := True\<rparr>
     | (Yielded e, st) \<Rightarrow> r\<lparr>sr_stream := st, sr_delivered := sr_delivered r @ [e]\<rparr>))"

definition run_stream :: "host \<Rightarrow> stream_config \<Rightarrow> stream_op list \<Rightarrow> stream_run" where
  "run_stream H cfg ops = fold (stream_step H cfg) ops new_run"

lemma run_stream_snoc: "run_stream H cfg (ops @ [op]) = stream_step H cfg op (run_stream H cfg ops)"
  by (simp add: run_stream_def)

definition structural :: "stream_config \<Rightarrow> jdict list \<Rightarrow> jdict list" where
  "structural cfg es = filter (\<lambda>e. \<not> progress_event cfg e) es"

lemma structural_Nil [simp]: "structural cfg [] = []"
  by (simp add: structural_def)

lemma structural_append [simp]: "structural cfg (a @ b) = structural cfg a @ structural cfg b"
  by (simp add: structural_def)

lemma structural_queue:
  "\<forall>q \<in> set qs. queued_ok H cfg n q \<Longrightarrow>
     structural cfg (map qe_value qs) = map qe_value (filter (\<lambda>q. \<not> qe_droppable q) qs)"
  by (induction qs) (auto simp: structural_def queued_ok_def)

lemma stream_at_ok: "stream_at H cfg qs st \<Longrightarrow> q \<in> set qs \<Longrightarrow> queued_ok H cfg (es_next_id st) q"
  by (simp add: stream_at_def open_buffer_def)

lemma evicts_values:
  assumes "stream_at H cfg qs st" "stream_at H cfg qs' st'" "evicts qs qs'"
  shows "structural cfg (map qe_value qs') = structural cfg (map qe_value qs)"
proof -
  have "structural cfg (map qe_value qs) = map qe_value (filter (\<lambda>q. \<not> qe_droppable q) qs)"
    "structural cfg (map qe_value qs') = map qe_value (filter (\<lambda>q. \<not> qe_droppable q) qs')"
    using stream_at_ok[OF assms(1)] stream_at_ok[OF assms(2)] by (auto intro!: structural_queue)
  then show ?thesis using evicts_structural[OF assms(3)] by simp
qed

section \<open>Reading and ending\<close>

lemma next_event_stream:
  assumes at: "stream_at H cfg qs st"
  shows "(case next_event cfg st of
      (Waiting, st') \<Rightarrow> qs = [] \<and> st' = st
    | (Finished, st') \<Rightarrow> qs = [] \<and> es_done st \<and> stream_at H cfg [] st' \<and> es_queue st' = [] \<and> es_dropped st' = es_dropped st \<and>
        es_pending st' = es_pending st
    | (Yielded e, st') \<Rightarrow> (\<exists>q rest. qs = q # rest \<and> e = qe_value q \<and> stream_at H cfg rest st' \<and>
        es_done st' = es_done st \<and> es_dropped st' = es_dropped st \<and> es_pending st' = unpend q (es_pending st) \<and>
        length (es_queue st) = Suc (length (es_queue st')) \<and> (es_done st \<longrightarrow> es_queue st' \<noteq> [])))"
proof (cases qs)
  case Nil
  with at show ?thesis
    by (auto simp: stream_at_def next_event_def close_backpressure_notifications_def open_buffer_def split: if_splits)
next
  case (Cons q rest)
  then obtain tl where q: "es_queue st = Item q # map Item rest @ tl" "tl = [] \<or> tl = [EndMark]" "es_done st \<longleftrightarrow> tl \<noteq> []"
    using at by (auto simp: stream_at_def split: if_splits)
  have d: "distinct (map qe_id qs)" and p: "pending_ok qs (es_pending st)"
    using at by (auto simp: stream_at_def open_buffer_def)
  have w: "without (qe_id q) qs = rest" using d Cons without_fresh[of q rest] by (simp add: without_def)
  have "pending_ok rest (unpend q (es_pending st))" using pending_ok_without[OF p _ d, of q] Cons w by simp
  with q Cons at show ?thesis
    by (auto simp: next_event_def stream_at_def open_buffer_def queued_bytes_def)
qed

lemma end_stream_stream:
  assumes "stream_at H cfg qs st"
  shows "\<exists>st'. end_stream cfg v st = (Inr (), st') \<and> stream_at H cfg qs st' \<and> es_done st' \<and> es_dropped st' = es_dropped st \<and>
    es_pending st' = es_pending st \<and> (es_done st \<longrightarrow> st' = st) \<and> (\<not> es_done st \<longrightarrow> es_result st' = Some (Inr v) \<and> es_queue st' \<noteq> [])"
  using assms
  by (cases "es_done st")
    (auto simp: end_stream_def stream_at_def open_buffer_def put_nowait_def set_result_def close_backpressure_notifications_def)

lemma fail_stream_stream:
  assumes "stream_at H cfg qs st"
  shows "\<exists>st'. fail_stream cfg e st = (Inr (), st') \<and> stream_at H cfg qs st' \<and> es_done st' \<and> es_dropped st' = es_dropped st \<and>
    es_pending st' = es_pending st \<and> (es_done st \<longrightarrow> st' = st) \<and> (\<not> es_done st \<longrightarrow> es_result st' = Some (Inl e) \<and> es_queue st' \<noteq> [])"
  using assms terminate_stream[OF assms, of e] by (cases "es_done st") (auto simp: fail_stream_def)

section \<open>The invariant of a run\<close>

definition run_at :: "host \<Rightarrow> stream_config \<Rightarrow> queued_event list \<Rightarrow> stream_run \<Rightarrow> bool" where
  "run_at H cfg qs r \<longleftrightarrow> stream_at H cfg qs (sr_stream r) \<and>
     structural cfg (sr_accepted r) = structural cfg (sr_delivered r) @ structural cfg (map qe_value qs) \<and>
     (es_done (sr_stream r) \<and> es_queue (sr_stream r) = [] \<longrightarrow> sr_finished r)"

lemma structural_stream:
  "stream_at H cfg qs st \<Longrightarrow> structural cfg (map qe_value qs) = map qe_value (filter (\<lambda>q. \<not> qe_droppable q) qs)"
  by (rule structural_queue[of _ H _ "es_next_id st"]) (simp add: stream_at_ok)

lemma assigned_structural:
  assumes "distinct (map qe_id qs)" "p \<in> set qs" "qe_droppable p" "qe_id q = qe_id p" "qe_droppable q"
  shows "filter (\<lambda>q. \<not> qe_droppable q) (assigned q qs) = filter (\<lambda>q. \<not> qe_droppable q) qs"
proof -
  have "qe_droppable r" if "r \<in> set qs" "qe_id r = qe_id q" for r
    using distinct_id_inj[OF assms(1) that(1) assms(2)] that(2) assms(3,4) by simp
  then show ?thesis using assms(5) by (induction qs) (auto simp: assigned_def)
qed

context bounded_stream
begin

lemma push_structural:
  assumes at: "stream_at H cfg qs st" and out: "push_outcome H cfg event qs st r qs' st'"
  shows "structural cfg (map qe_value qs') =
    structural cfg (map qe_value qs) @ (if isOk r then structural cfg [event] else [])"
  using out
proof (cases rule: push_outcome.cases)
  case (raised e)
  with evicts_values[OF at raised(2,4)] show ?thesis by simp
next
  case (queued kept q)
  then have "filter (\<lambda>q. \<not> qe_droppable q) kept = filter (\<lambda>q. \<not> qe_droppable q) qs" by (simp add: evicts_structural)
  moreover have "qe_droppable q \<longleftrightarrow> progress_event cfg event"
    using stream_at_ok[OF queued(3), of q] queued(6) by (auto simp: queued_ok_def)
  ultimately show ?thesis
    unfolding structural_stream[OF queued(3)] structural_stream[OF at] queued(1,2) using queued(6) by (simp add: structural_def)
next
  case (merged p k q v)
  have "distinct (map qe_id qs)" using at by (simp add: stream_at_def open_buffer_def)
  moreover have "qe_droppable p" using stream_at_ok[OF at merged(4)] merged(8) by (simp add: queued_ok_def)
  ultimately have "filter (\<lambda>q. \<not> qe_droppable q) (assigned q qs) = filter (\<lambda>q. \<not> qe_droppable q) qs"
    using merged(4,10) by (intro assigned_structural[of qs p]) simp_all
  with evicts_structural[OF merged(11)] merged(1,5) show ?thesis
    unfolding structural_stream[OF merged(2)] structural_stream[OF at] by (simp add: structural_def)
next
  case lost
  with evicts_values[OF at lost(2,4)] show ?thesis by (simp add: structural_def)
qed

lemma run_at_push:
  assumes "run_at H cfg qs r"
  shows "\<exists>qs'. run_at H cfg qs' (stream_step H cfg (Push e) r)"
proof (cases "es_done (sr_stream r)")
  case True
  with assms show ?thesis by (auto simp: stream_step_def push_def run_at_def)
next
  case False
  have at: "stream_at H cfg qs (sr_stream r)" using assms by (simp add: run_at_def)
  obtain res st' where c: "push H cfg e (sr_stream r) = (res, st')" by force
  from push_push_outcome[OF at False c] obtain qs' where out: "push_outcome H cfg e qs (sr_stream r) res qs' st'" by blast
  have at': "stream_at H cfg qs' st'" using out by (cases rule: push_outcome.cases) auto
  have "es_queue st' \<noteq> []" if "es_done st'"
    using out that
  proof (cases rule: push_outcome.cases)
    case (raised e')
    then show ?thesis by simp
  next
    case (queued kept q)
    then show ?thesis using at' that by (auto simp: stream_at_def)
  qed (use that in auto)
  with push_structural[OF at out] at' assms c False show ?thesis
    by (intro exI[of _ qs']) (auto simp: stream_step_def run_at_def)
qed

lemma run_at_next:
  assumes at: "run_at H cfg qs r"
  shows "\<exists>qs'. run_at H cfg qs' (stream_step H cfg Next r)"
proof -
  obtain v st' where n: "next_event cfg (sr_stream r) = (v, st')" by force
  have s: "stream_at H cfg qs (sr_stream r)" using at by (simp add: run_at_def)
  show ?thesis
  proof (cases v)
    case (Yielded e)
    with next_event_stream[OF s] n obtain q rest where y: "qs = q # rest" "e = qe_value q" "stream_at H cfg rest st'"
      "es_done st' = es_done (sr_stream r)" "es_done st' \<longrightarrow> es_queue st' \<noteq> []" by auto
    have "structural cfg (map qe_value qs) = structural cfg [e] @ structural cfg (map qe_value rest)"
      by (simp add: y(1,2) structural_def)
    with y at n Yielded show ?thesis
      by (intro exI[of _ rest]) (auto simp: stream_step_def run_at_def)
  qed (use next_event_stream[OF s] n at in \<open>auto simp: stream_step_def run_at_def\<close>)
qed

lemma run_at_step:
  assumes at: "run_at H cfg qs r"
  shows "\<exists>qs'. run_at H cfg qs' (stream_step H cfg op r)"
proof (cases op)
  case (Push e)
  with run_at_push[OF at] show ?thesis by simp
next
  case (EndWith v)
  with at end_stream_stream[of H cfg qs "sr_stream r" v] show ?thesis
    by (cases "es_done (sr_stream r)") (auto simp: stream_step_def run_at_def)
next
  case (FailWith e)
  with at fail_stream_stream[of H cfg qs "sr_stream r" e] show ?thesis
    by (cases "es_done (sr_stream r)") (auto simp: stream_step_def run_at_def)
next
  case Next
  with run_at_next[OF at] show ?thesis by simp
qed

lemma run_stream_at: "\<exists>qs. run_at H cfg qs (run_stream H cfg ops)"
proof (induction ops rule: rev_induct)
  case Nil
  have "run_at H cfg [] new_run" by (simp add: run_at_def new_run_def) (simp add: new_stream_def)
  then show ?case by (auto simp: run_stream_def)
next
  case (snoc op ops)
  then show ?case using run_at_step by (auto simp: run_stream_snoc)
qed

end

section \<open>Coalescing keeps the text\<close>

definition has_text :: "jdict \<Rightarrow> bool" where
  "has_text e \<longleftrightarrow> is_jstr (jget e ''delta'')"

definition delta_text :: "jdict \<Rightarrow> string" where
  "delta_text e = (case jget e ''delta'' of JStr s \<Rightarrow> s | _ \<Rightarrow> [])"

text \<open>The text that the deltas of one key carry, in order.\<close>

definition keyed_text :: "stream_config \<Rightarrow> stream_key \<Rightarrow> jdict list \<Rightarrow> string" where
  "keyed_text cfg k es = concat (map delta_text (filter (\<lambda>e. sc_coalesce_key cfg e = Inr (Some k)) es))"

locale text_stream = bounded_stream +
  assumes merge_text: "t \<in> delta_types \<Longrightarrow> sc_coalesce_key cfg a = Inr (Some (IndexKey t i)) \<Longrightarrow>
      sc_coalesce_key cfg b = Inr (Some (IndexKey t i)) \<Longrightarrow> has_text a \<Longrightarrow> has_text b \<Longrightarrow>
      sc_merge_updates cfg a b = Inr c \<Longrightarrow> has_text c \<and> delta_text c = delta_text a @ delta_text b"

definition buffered :: "event_stream \<Rightarrow> queued_event list" where
  "buffered st = concat (map (\<lambda>i. case i of Item q \<Rightarrow> [q] | EndMark \<Rightarrow> []) (es_queue st))"

lemma stream_at_buffered: "stream_at H cfg qs st \<Longrightarrow> buffered st = qs"
proof -
  have "concat (map (\<lambda>i. case i of Item q \<Rightarrow> [q] | EndMark \<Rightarrow> []) (map Item qs)) = qs" by (induction qs) simp_all
  then show "stream_at H cfg qs st \<Longrightarrow> buffered st = qs"
    by (auto simp: stream_at_def buffered_def split: if_splits)
qed

definition latest :: "stream_key \<Rightarrow> queued_event list \<Rightarrow> (stream_key, nat) dict \<Rightarrow> bool" where
  "latest k qs pend \<longleftrightarrow> map_of pend k = (let ps = filter (\<lambda>q. qe_key q = Some k) qs in
     if ps = [] then None else Some (qe_id (last ps)))"

lemma latest_snoc:
  "latest k qs pend \<Longrightarrow> latest k (qs @ [q]) (case qe_key q of None \<Rightarrow> pend | Some k' \<Rightarrow> dset pend k' (qe_id q))"
  by (auto simp: latest_def Let_def split: option.splits)

lemma last_filter_in: "filter P xs \<noteq> [] \<Longrightarrow> last (filter P xs) \<in> set xs"
  by (metis filter_is_subset last_in_set subsetD)

lemma latest_Cons:
  assumes "latest k (q # qs) pend" "distinct (map qe_id (q # qs))"
  shows "latest k qs (unpend q pend)"
proof (cases "filter (\<lambda>q. qe_key q = Some k) qs = []")
  case True
  with assms(1) show ?thesis by (auto simp: latest_def Let_def unpend_def split: option.splits if_splits)
next
  case False
  from last_filter_in[OF this] assms(2) have "qe_id (last (filter (\<lambda>q. qe_key q = Some k) qs)) \<noteq> qe_id q"
    by (metis distinct.simps(2) imageI list.set_map list.simps(9))
  with False assms(1) show ?thesis by (auto simp: latest_def Let_def unpend_def split: option.splits if_splits)
qed

lemma latest_split:
  assumes "latest k qs pend" "map_of pend k = Some (qe_id p)" "p \<in> set qs" "qe_key p = Some k" "distinct (map qe_id qs)"
  obtains xs ys where "qs = xs @ p # ys" "filter (\<lambda>q. qe_key q = Some k) ys = []"
proof -
  obtain xs ys where s: "qs = xs @ p # ys" using assms(3) split_list by fastforce
  have "filter (\<lambda>q. qe_key q = Some k) ys = []"
  proof (rule ccontr)
    assume ne: "filter (\<lambda>q. qe_key q = Some k) ys \<noteq> []"
    have "qe_id (last (filter (\<lambda>q. qe_key q = Some k) ys)) = qe_id p"
      using assms(1,2,4) s ne by (simp add: latest_def Let_def)
    with last_filter_in[OF ne] assms(5) s show False
      by (metis distinct.simps(2) distinct_append imageI list.set_map list.simps(9) map_append)
  qed
  with s show thesis by (rule that)
qed

lemma assigned_fresh: "qe_id q \<notin> qe_id ` set qs \<Longrightarrow> assigned q qs = qs"
  by (induction qs) (auto simp: assigned_def)

lemma assigned_split: "distinct (map qe_id (xs @ p # ys)) \<Longrightarrow> qe_id q = qe_id p \<Longrightarrow> assigned q (xs @ p # ys) = xs @ q # ys"
  using assigned_fresh[of q xs] assigned_fresh[of q ys] by (simp add: assigned_def)

lemma keyed_text_append [simp]: "keyed_text cfg k (a @ b) = keyed_text cfg k a @ keyed_text cfg k b"
  by (simp add: keyed_text_def)

lemma keyed_text_Nil [simp]: "keyed_text cfg k [] = []"
  by (simp add: keyed_text_def)

definition text_ok :: "stream_config \<Rightarrow> stream_key \<Rightarrow> stream_run \<Rightarrow> bool" where
  "text_ok cfg k r \<longleftrightarrow> latest k (buffered (sr_stream r)) (es_pending (sr_stream r)) \<and>
     (\<forall>q \<in> set (buffered (sr_stream r)). qe_key q = Some k \<longrightarrow> has_text (qe_value q)) \<and>
     keyed_text cfg k (sr_accepted r) = keyed_text cfg k (sr_delivered r) @ keyed_text cfg k (map qe_value (buffered (sr_stream r)))"

definition texts_only :: "stream_config \<Rightarrow> stream_key \<Rightarrow> jdict list \<Rightarrow> bool" where
  "texts_only cfg k es \<longleftrightarrow> (\<forall>e \<in> set es. sc_coalesce_key cfg e = Inr (Some k) \<longrightarrow> has_text e)"

lemma keyed_text_values:
  assumes "\<forall>q \<in> set qs. queued_ok H cfg n q"
  shows "keyed_text cfg k (map qe_value qs) = concat (map (delta_text \<circ> qe_value) (filter (\<lambda>q. qe_key q = Some k) qs))"
  using assms by (induction qs) (auto simp: keyed_text_def queued_ok_def)

context text_stream
begin

lemma merged_text:
  assumes at: "stream_at H cfg qs st" and at': "stream_at H cfg (assigned q qs) st'" and l: "latest k qs (es_pending st)"
    and t: "k = IndexKey t i" "t \<in> delta_types" "texts_only cfg k [e]"
    and qs: "\<forall>q \<in> set qs. qe_key q = Some k \<longrightarrow> has_text (qe_value q)"
    and p: "p \<in> set qs" "sc_coalesce_key cfg e = Inr (Some k')" "qe_key p = Some k'" "map_of (es_pending st) k' = Some (qe_id p)"
      "q = p\<lparr>qe_value := v, qe_size := n\<rparr>" "sc_merge_updates cfg (qe_value p) e = Inr v"
  shows "latest k (assigned q qs) (es_pending st)"
    and "\<forall>q \<in> set (assigned q qs). qe_key q = Some k \<longrightarrow> has_text (qe_value q)"
    and "keyed_text cfg k (map qe_value (assigned q qs)) = keyed_text cfg k (map qe_value qs) @ keyed_text cfg k [e]"
proof -
  have d: "distinct (map qe_id qs)" using at by (simp add: stream_at_def open_buffer_def)
  have oks: "\<forall>q \<in> set qs. queued_ok H cfg (es_next_id st) q" "\<forall>q \<in> set (assigned q qs). queued_ok H cfg (es_next_id st') q"
    using stream_at_ok[OF at] stream_at_ok[OF at'] by blast+
  have q: "qe_id q = qe_id p" "qe_key q = qe_key p" "qe_value q = v" by (simp_all add: p(5))
  obtain xs ys where s: "qs = xs @ p # ys" "k' = k \<longrightarrow> filter (\<lambda>q. qe_key q = Some k) ys = []"
  proof (cases "k' = k")
    case True
    with p l d show ?thesis by (auto elim!: latest_split[of k qs "es_pending st" p] intro: that)
  next
    case False
    with split_list[OF p(1)] show ?thesis by (auto intro: that)
  qed
  have a: "assigned q qs = xs @ q # ys" using assigned_split[of xs p ys q] d s(1) q(1) by simp
  have vt: "has_text v \<and> delta_text v = delta_text (qe_value p) @ delta_text e" if "k' = k"
  proof (rule merge_text[OF t(2) _ _ _ _ p(6)])
    show "sc_coalesce_key cfg (qe_value p) = Inr (Some (IndexKey t i))"
      using oks(1) p(1,3) that t(1) by (auto simp: queued_ok_def)
  qed (use that p qs t in \<open>auto simp: texts_only_def\<close>)
  show "latest k (assigned q qs) (es_pending st)" using l q s a by (cases "k' = k") (auto simp: latest_def Let_def p(3))
  show "\<forall>q \<in> set (assigned q qs). qe_key q = Some k \<longrightarrow> has_text (qe_value q)"
    using qs s(1) a q vt p(3) by auto
  show "keyed_text cfg k (map qe_value (assigned q qs)) = keyed_text cfg k (map qe_value qs) @ keyed_text cfg k [e]"
    unfolding keyed_text_values[OF oks(1)] keyed_text_values[OF oks(2)] unfolding a
    using vt s(2) q p(2,3) by (auto simp: keyed_text_def s(1))
qed

lemma text_ok_push:
  assumes r: "run_at H cfg qs r" and k: "k = IndexKey t i" "t \<in> delta_types" and ok: "text_ok cfg k r"
    and nodrop: "es_dropped (sr_stream (stream_step H cfg (Push e) r)) = es_dropped (sr_stream r)"
    and tx: "texts_only cfg k (sr_accepted (stream_step H cfg (Push e) r))"
  shows "text_ok cfg k (stream_step H cfg (Push e) r)"
proof (cases "es_done (sr_stream r)")
  case True
  with ok show ?thesis by (simp add: stream_step_def push_def text_ok_def)
next
  case False
  have at: "stream_at H cfg qs (sr_stream r)" using r by (simp add: run_at_def)
  note b = stream_at_buffered[OF at]
  obtain res st' where c: "push H cfg e (sr_stream r) = (res, st')" by force
  from push_push_outcome[OF at False c] obtain qs' where out: "push_outcome H cfg e qs (sr_stream r) res qs' st'" by blast
  then have at': "stream_at H cfg qs' st'" by (cases rule: push_outcome.cases) auto
  note b' = stream_at_buffered[OF at']
  have same: "es_dropped st' = es_dropped (sr_stream r)" using nodrop c by (simp add: stream_step_def)
  have step: "stream_step H cfg (Push e) r = r\<lparr>sr_stream := st', sr_accepted := sr_accepted r @ (if isOk res then [e] else [])\<rparr>"
    using c False by (simp add: stream_step_def)
  from out show ?thesis
  proof (cases rule: push_outcome.cases)
    case (raised e')
    with same ok b b' show ?thesis by (simp add: step text_ok_def)
  next
    case (queued kept q)
    then have q: "qs' = qs @ [q]" "es_pending st' = (case qe_key q of None \<Rightarrow> es_pending (sr_stream r) | Some k \<Rightarrow> dset (es_pending (sr_stream r)) k (qe_id q))"
      using same by auto
    have "sc_coalesce_key cfg e = Inr (qe_key q)"
      using stream_at_ok[OF at', of q] q(1) queued(6) by (simp add: queued_ok_def)
    with q ok b b' queued(1,6) tx latest_snoc[of k qs "es_pending (sr_stream r)" q] show ?thesis
      by (auto simp: step text_ok_def texts_only_def)
  next
    case (merged p k' q v)
    then have m: "sc_merge_updates cfg (qe_value p) e = Inr v" "qs' = assigned q qs" "es_pending st' = es_pending (sr_stream r)"
      using same by auto
    have "texts_only cfg k [e]" using tx merged(1) by (auto simp: step texts_only_def)
    note after = merged_text[OF at at'[unfolded m(2)] _ k this _ merged(4,7,8,9,10) m(1)]
    have pre: "latest k qs (es_pending (sr_stream r))" "\<forall>q \<in> set qs. qe_key q = Some k \<longrightarrow> has_text (qe_value q)"
      "keyed_text cfg k (sr_accepted r) = keyed_text cfg k (sr_delivered r) @ keyed_text cfg k (map qe_value qs)"
      using ok b by (simp_all add: text_ok_def)
    show ?thesis unfolding text_ok_def step merged(1)
      using after[OF pre(1,2)] pre(3) by (simp add: b' m(3)) (simp add: m(2))
  next
    case lost
    with same show ?thesis by simp
  qed
qed

lemma step_monotone:
  assumes r: "run_at H cfg qs r"
  shows "es_dropped (sr_stream r) \<le> es_dropped (sr_stream (stream_step H cfg op r))"
    and "set (sr_accepted r) \<subseteq> set (sr_accepted (stream_step H cfg op r))"
proof -
  have at: "stream_at H cfg qs (sr_stream r)" using r by (simp add: run_at_def)
  have "es_dropped (sr_stream r) \<le> es_dropped (snd (push H cfg e (sr_stream r)))" for e
  proof (cases "es_done (sr_stream r)")
    case False
    obtain res st' where c: "push H cfg e (sr_stream r) = (res, st')" by force
    from push_push_outcome[OF at False c] c show ?thesis by (auto elim!: push_outcome.cases)
  qed (simp add: push_def)
  moreover have "es_dropped (snd (end_stream cfg v (sr_stream r))) = es_dropped (sr_stream r)" for v
    using end_stream_stream[OF at, of v] by auto
  moreover have "es_dropped (snd (fail_stream cfg e (sr_stream r))) = es_dropped (sr_stream r)" for e
    using fail_stream_stream[OF at, of e] by auto
  moreover have "es_dropped (snd (next_event cfg (sr_stream r))) = es_dropped (sr_stream r)"
    using next_event_stream[OF at] by (auto split: prod.splits delivery.splits)
  ultimately show "es_dropped (sr_stream r) \<le> es_dropped (sr_stream (stream_step H cfg op r))"
    by (cases op) (simp_all add: stream_step_def split_beta split: delivery.split)
  show "set (sr_accepted r) \<subseteq> set (sr_accepted (stream_step H cfg op r))"
    by (cases op) (auto simp: stream_step_def split: prod.splits delivery.splits)
qed

lemma text_ok_same:
  assumes "text_ok cfg k r" "stream_at H cfg qs (sr_stream r)" "stream_at H cfg qs st'" "es_pending st' = es_pending (sr_stream r)"
  shows "text_ok cfg k (r\<lparr>sr_stream := st'\<rparr>)"
  using assms(1,4) stream_at_buffered[OF assms(2)] stream_at_buffered[OF assms(3)] by (simp add: text_ok_def)

lemma text_ok_next:
  assumes r: "run_at H cfg qs r" and ok: "text_ok cfg k r"
  shows "text_ok cfg k (stream_step H cfg Next r)"
proof -
  have at: "stream_at H cfg qs (sr_stream r)" using r by (simp add: run_at_def)
  note b = stream_at_buffered[OF at]
  obtain v st' where n: "next_event cfg (sr_stream r) = (v, st')" by force
  show ?thesis
  proof (cases v)
    case Waiting
    with next_event_stream[OF at] n ok show ?thesis by (simp add: stream_step_def text_ok_def)
  next
    case Finished
    with next_event_stream[OF at] n have "qs = []" "buffered st' = []" "es_pending st' = es_pending (sr_stream r)"
      by (auto simp: buffered_def)
    with Finished n ok b show ?thesis by (simp add: stream_step_def text_ok_def)
  next
    case (Yielded e)
    with next_event_stream[OF at] n obtain q rest where y: "qs = q # rest" "e = qe_value q" "stream_at H cfg rest st'"
      "es_pending st' = unpend q (es_pending (sr_stream r))" by auto
    have "distinct (map qe_id (q # rest))" using at y(1) by (simp add: stream_at_def open_buffer_def)
    moreover have "keyed_text cfg k (map qe_value qs) = keyed_text cfg k [e] @ keyed_text cfg k (map qe_value rest)"
      by (simp add: y keyed_text_def)
    ultimately show ?thesis using ok b y n Yielded stream_at_buffered[OF y(3)] latest_Cons[of k q rest]
      by (simp add: stream_step_def text_ok_def)
  qed
qed

lemma run_text_ok:
  assumes k: "k = IndexKey t i" "t \<in> delta_types"
  shows "es_dropped (sr_stream (run_stream H cfg ops)) = 0 \<Longrightarrow> texts_only cfg k (sr_accepted (run_stream H cfg ops)) \<Longrightarrow>
    text_ok cfg k (run_stream H cfg ops)"
proof (induction ops rule: rev_induct)
  case Nil
  then show ?case by (simp add: run_stream_def new_run_def text_ok_def latest_def new_stream_def buffered_def)
next
  case (snoc op ops)
  obtain qs where r: "run_at H cfg qs (run_stream H cfg ops)" using run_stream_at by blast
  note mono = step_monotone[OF r, of op]
  from snoc.prems mono have pre: "es_dropped (sr_stream (run_stream H cfg ops)) = 0" "texts_only cfg k (sr_accepted (run_stream H cfg ops))"
    by (auto simp: run_stream_snoc texts_only_def)
  note ok = snoc.IH[OF this]
  have at: "stream_at H cfg qs (sr_stream (run_stream H cfg ops))" using r by (simp add: run_at_def)
  show ?case
  proof (cases op)
    case (Push e)
    with snoc.prems pre text_ok_push[OF r k ok, of e] show ?thesis by (simp add: run_stream_snoc)
  next
    case (EndWith v)
    with end_stream_stream[OF at, of v] text_ok_same[OF ok at] ok show ?thesis
      by (auto simp: run_stream_snoc stream_step_def)
  next
    case (FailWith e)
    with fail_stream_stream[OF at, of e] text_ok_same[OF ok at] ok show ?thesis
      by (auto simp: run_stream_snoc stream_step_def)
  next
    case Next
    with text_ok_next[OF r ok] show ?thesis by (simp add: run_stream_snoc)
  qed
qed

end

section \<open>The streams of the package\<close>

text \<open>A stream built by the constructor of \<open>AssistantMessageEventStream\<close> or \<open>AgentEventStream\<close>.\<close>

definition package_stream :: "stream_config \<Rightarrow> bool" where
  "package_stream cfg \<longleftrightarrow> (\<exists>n b policy bp qc. 2 \<le> n \<and> 1 \<le> b \<and>
     (cfg = assistant_config n b policy bp qc \<or> cfg = agent_config n b policy bp qc))"

lemma package_streamI:
  "2 \<le> n \<Longrightarrow> 1 \<le> b \<Longrightarrow> package_stream (assistant_config n b policy bp qc)"
  "2 \<le> n \<Longrightarrow> 1 \<le> b \<Longrightarrow> package_stream (agent_config n b policy bp qc)"
  unfolding package_stream_def by blast+

lemma stream_init_package:
  "stream_init n b policy (\<lambda>n b p. assistant_config n b p bp qc) = Inr (cfg, st) \<Longrightarrow> package_stream cfg \<and> st = new_stream"
  "stream_init n b policy (\<lambda>n b p. agent_config n b p bp qc) = Inr (cfg, st) \<Longrightarrow> package_stream cfg \<and> st = new_stream"
proof -
  have lo: "as_int_ge l v = Some j \<Longrightarrow> l \<le> j" for l v j by (cases v) (auto split: if_splits)
  show "stream_init n b policy (\<lambda>n b p. assistant_config n b p bp qc) = Inr (cfg, st) \<Longrightarrow> package_stream cfg \<and> st = new_stream"
    "stream_init n b policy (\<lambda>n b p. agent_config n b p bp qc) = Inr (cfg, st) \<Longrightarrow> package_stream cfg \<and> st = new_stream"
    by (auto simp: stream_init_def nat_le_iff split: option.splits if_splits dest!: lo intro!: package_streamI)
qed

lemma default_key_progress:
  assumes "default_event_key e = Inr (Some k)"
  shows "default_event_droppable e = Inr True" "hashable (jget e ''type'')"
    "jget e ''type'' \<in> delta_types \<or> jget e ''type'' = JStr ''message_update'' \<or> jget e ''type'' = JStr ''tool_execution_update''"
  using assms by (auto simp: default_event_key_def default_event_droppable_def Let_def split: if_splits)

lemma delta_types_iff: "t \<in> delta_types \<longleftrightarrow> t = JStr ''text_delta'' \<or> t = JStr ''thinking_delta'' \<or> t = JStr ''toolcall_delta''"
  by (auto simp: delta_types_def)

lemma merge_updates_cases:
  assumes "merge_updates a b = Inr c"
  shows "c = b \<or> (\<exists>s. c = dset b ''delta'' (JStr s))"
  using assms by (auto simp: merge_updates_def split: if_splits json.splits)

lemma merge_updates_fields:
  assumes "merge_updates a b = Inr c"
  shows "k \<noteq> ''delta'' \<Longrightarrow> jget c k = jget b k"
  using merge_updates_cases[OF assms] by (auto simp: jget_dset)

lemma merge_updates_same:
  assumes "merge_updates a b = Inr c"
  shows "default_event_key c = default_event_key b" "default_event_droppable c = default_event_droppable b"
  by (simp_all add: default_event_key_def default_event_droppable_def Let_def merge_updates_fields[OF assms])

lemma merge_updates_text:
  assumes "t \<in> delta_types" "default_event_key a = Inr (Some (IndexKey t i))" "default_event_key b = Inr (Some (IndexKey t i))"
    "has_text a" "has_text b" "merge_updates a b = Inr c"
  shows "has_text c \<and> delta_text c = delta_text a @ delta_text b"
proof -
  have t: "jget a ''type'' = t" "jget b ''type'' = t"
    using assms(1-3) by (auto simp: default_event_key_def Let_def exc_simps delta_types_iff split: if_splits)
  obtain x y where "jget a ''delta'' = JStr x" "jget b ''delta'' = JStr y"
    using assms(4,5) by (auto simp: has_text_def elim!: is_jstr.elims)
  with t assms(1,6) show ?thesis by (auto simp: merge_updates_def has_text_def delta_text_def jget_dset split: if_splits)
qed

lemmas config_defs = assistant_config_def agent_config_def progress_event_def

lemma package_text_stream:
  assumes "package_stream cfg"
  shows "text_stream cfg"
proof
  from assms obtain n b policy bp qc where n: "2 \<le> n" and
    c: "cfg = assistant_config n b policy bp qc \<or> cfg = agent_config n b policy bp qc"
    unfolding package_stream_def by blast
  then have f: "sc_coalesce_key cfg = default_event_key" "sc_is_droppable cfg = default_event_droppable"
    "sc_merge_updates cfg = merge_updates" "sc_max_buffer_size cfg = n" by (auto simp: config_defs)
  have same: "jget d ''type'' = jget e ''type'' \<Longrightarrow> sc_is_complete cfg d = sc_is_complete cfg e" for d e
    using c by (elim disjE) (simp_all add: config_defs)
  have going: "sc_is_complete cfg e = Inr False" if "default_event_key e = Inr (Some k)" for e k
    using c default_key_progress(2,3)[OF that] by (elim disjE[of "cfg = _"]) (auto simp: config_defs delta_types_iff)
  show "1 \<le> sc_max_buffer_size cfg" using f n by simp
  show "progress_event cfg e" if "sc_coalesce_key cfg e = Inr (Some k)" for e k
    using that going default_key_progress(1) by (simp add: progress_event_def f)
  show "progress_event cfg d" if "progress_event cfg a" "progress_event cfg b" "sc_merge_updates cfg a b = Inr d" for a b d
    using that merge_updates_same[of a b d] same[of d b] merge_updates_fields[of a b d "''type''"]
    by (simp add: progress_event_def f)
  show "sc_coalesce_key cfg d = sc_coalesce_key cfg b" if "sc_merge_updates cfg a b = Inr d" for a b d
    using that merge_updates_same(1)[of a b d] by (simp add: f)
  show "has_text d \<and> delta_text d = delta_text a @ delta_text b"
    if "t \<in> delta_types" "sc_coalesce_key cfg a = Inr (Some (IndexKey t i))" "sc_coalesce_key cfg b = Inr (Some (IndexKey t i))"
      "has_text a" "has_text b" "sc_merge_updates cfg a b = Inr d" for t a i b d
    using merge_updates_text[of t a i b d] that by (simp add: f)
qed

interpretation assistant_stream: text_stream "assistant_config (n + 2) (b + 1) policy bp qc" for n b policy bp qc
  by (rule package_text_stream) (simp add: package_streamI)

interpretation agent_stream: text_stream "agent_config (n + 2) (b + 1) policy bp qc" for n b policy bp qc
  by (rule package_text_stream) (simp add: package_streamI)

section \<open>Guarantees\<close>

lemma step_finished: "sr_finished r \<Longrightarrow> sr_finished (stream_step H cfg op r)"
  by (cases op) (auto simp: stream_step_def split: prod.splits delivery.splits)

lemma steps_finished: "sr_finished r \<Longrightarrow> sr_finished (fold (stream_step H cfg) ops r)"
  by (induction ops arbitrary: r) (auto intro: step_finished)

lemma next_drains:
  assumes r: "run_at H cfg qs r" and d: "es_done (sr_stream r)" and q: "es_queue (sr_stream r) \<noteq> []"
  shows "sr_finished (stream_step H cfg Next r) \<or>
    es_done (sr_stream (stream_step H cfg Next r)) \<and>
    length (es_queue (sr_stream r)) = Suc (length (es_queue (sr_stream (stream_step H cfg Next r))))"
proof -
  have at: "stream_at H cfg qs (sr_stream r)" using r by (simp add: run_at_def)
  obtain v st' where n: "next_event cfg (sr_stream r) = (v, st')" by force
  have "v \<noteq> Waiting" using n q by (auto simp: next_event_def split: list.splits queue_item.splits)
  with next_event_stream[OF at] n d show ?thesis by (cases v) (auto simp: stream_step_def)
qed

context bounded_stream
begin

lemma done_drains:
  "run_at H cfg qs r \<Longrightarrow> es_done (sr_stream r) \<Longrightarrow> length (es_queue (sr_stream r)) \<le> n \<Longrightarrow>
     sr_finished (fold (stream_step H cfg) (replicate n Next) r)"
proof (induction n arbitrary: qs r)
  case 0
  then show ?case by (simp add: run_at_def)
next
  case (Suc n)
  show ?case
  proof (cases "es_queue (sr_stream r) = []")
    case True
    then have "sr_finished r" using Suc.prems by (simp add: run_at_def)
    then show ?thesis by (rule steps_finished)
  next
    case False
    obtain qs' where r': "run_at H cfg qs' (stream_step H cfg Next r)" using run_at_step[OF Suc.prems(1)] by blast
    from next_drains[OF Suc.prems(1,2) False] show ?thesis
      using Suc.IH[OF r'] Suc.prems(3) steps_finished[of "stream_step H cfg Next r" H cfg "replicate n Next"] by auto
  qed
qed

lemma queue_capacity:
  assumes "stream_at H cfg qs st"
  shows "length (es_queue st) \<le> Suc (sc_max_buffer_size cfg)"
  using assms by (auto simp: stream_at_def split: if_splits)

end

text \<open>A run for the witnesses: two slots, so that the second delta meets pressure and is merged.\<close>

definition stream_host :: host where
  "stream_host = \<lparr>sha256_hex = (\<lambda>s. s), repr_of = (\<lambda>_. ''r''), read_float = (\<lambda>_. FFin 0)\<rparr>"

definition small_stream :: stream_config where
  "small_stream = assistant_config 2 200 DropOldest True True"

definition delta_event :: "string \<Rightarrow> jdict" where
  "delta_event s = [(''type'', JStr ''text_delta''), (''contentIndex'', JInt 0), (''delta'', JStr s)]"

definition start_event :: jdict where
  "start_event = [(''type'', JStr ''start'')]"

definition done_event :: jdict where
  "done_event = [(''type'', JStr ''done''), (''message'', JObj [])]"

definition small_ops :: "stream_op list" where
  "small_ops = [Push (delta_event ''ab''), Push start_event, Push (delta_event ''cd''), Next, Push done_event]"

definition small_run :: stream_run where
  "small_run = run_stream stream_host small_stream small_ops"

definition small_checks :: bool where
  "small_checks \<longleftrightarrow> sr_accepted small_run = [delta_event ''ab'', start_event, delta_event ''cd'', done_event] \<and>
     sr_delivered small_run = [delta_event ''abcd''] \<and> es_dropped (sr_stream small_run) = 0 \<and>
     es_coalesced (sr_stream small_run) = 1 \<and> map qe_value (buffered (sr_stream small_run)) = [start_event, done_event] \<and>
     es_done (sr_stream small_run) \<and> texts_only small_stream (IndexKey (JStr ''text_delta'') (JInt 0)) (sr_accepted small_run) \<and>
     keyed_text small_stream (IndexKey (JStr ''text_delta'') (JInt 0)) (sr_delivered small_run) = ''abcd'' \<and>
     structural small_stream (sr_accepted small_run) = [start_event, done_event] \<and>
     fst (push stream_host small_stream [(''type'', JStr ''done'')] new_stream) = Inl (Builtin KeyErr) \<and>
     JStr ''text_delta'' \<in> delta_types"

lemma small_checked: small_checks
  by code_simp

lemma small_limits [simp]: "sc_max_buffer_size small_stream = 2" "sc_max_buffer_bytes small_stream = 200"
  by (simp_all add: small_stream_def assistant_config_def)

lemma small_package: "package_stream small_stream"
  unfolding small_stream_def by (rule package_streamI) simp_all

text \<open>
  C35: whatever the producer pushes and however slowly the consumer reads, the counters of a stream are exact
  (the number of buffered events and the bytes of their JSON text), both limits hold, the queue never
  holds more than its one extra slot for the end marker, and the high-water marks stay within the limits.
\<close>

theorem stream_bounded:
  assumes "package_stream cfg"
  shows "es_count (sr_stream (run_stream H cfg ops)) = length (buffered (sr_stream (run_stream H cfg ops))) \<and>
    es_count (sr_stream (run_stream H cfg ops)) \<le> sc_max_buffer_size cfg \<and>
    es_bytes (sr_stream (run_stream H cfg ops)) =
      sum_list (map (\<lambda>q. estimate_size H (qe_value q)) (buffered (sr_stream (run_stream H cfg ops)))) \<and>
    es_bytes (sr_stream (run_stream H cfg ops)) \<le> sc_max_buffer_bytes cfg \<and>
    length (es_queue (sr_stream (run_stream H cfg ops))) \<le> sc_max_buffer_size cfg + 1 \<and>
    es_high_events (sr_stream (run_stream H cfg ops)) \<le> sc_max_buffer_size cfg \<and>
    es_high_bytes (sr_stream (run_stream H cfg ops)) \<le> sc_max_buffer_bytes cfg"
proof -
  have c: "bounded_stream cfg" using package_text_stream[OF assms] by (rule text_stream.axioms)
  from bounded_stream.run_stream_at[OF c] obtain qs where at: "stream_at H cfg qs (sr_stream (run_stream H cfg ops))"
    unfolding run_at_def by blast
  have "map qe_size qs = map (\<lambda>q. estimate_size H (qe_value q)) qs"
    using stream_at_ok[OF at] by (auto simp: queued_ok_def)
  with at bounded_stream.queue_capacity[OF c at] show ?thesis unfolding stream_at_buffered[OF at]
    by (simp add: stream_at_def open_buffer_def queued_bytes_def)
qed

theorem stream_bounded_witness:
  "es_coalesced (sr_stream small_run) = 1 \<and> es_count (sr_stream small_run) = 2 \<and> es_bytes (sr_stream small_run) \<le> 200 \<and>
   length (es_queue (sr_stream small_run)) \<le> 3"
proof -
  have "map qe_value (buffered (sr_stream small_run)) = [start_event, done_event]" "es_coalesced (sr_stream small_run) = 1"
    using small_checked by (simp_all add: small_checks_def)
  then have "length (buffered (sr_stream small_run)) = 2" "es_coalesced (sr_stream small_run) = 1"
    by (auto dest: arg_cong[of _ _ length])
  with stream_bounded[OF small_package, of stream_host small_ops] show ?thesis by (simp flip: small_run_def)
qed

text \<open>
  C17: structural events (everything but progress updates: lifecycle, tool commit boundaries, the terminal event)
  are never dropped, changed, duplicated or reordered: the structural events accepted by \<open>push\<close> are those
  the reader received followed by those still buffered.
\<close>

theorem structural_events_delivered:
  assumes "package_stream cfg"
  shows "structural cfg (sr_accepted (run_stream H cfg ops)) =
    structural cfg (sr_delivered (run_stream H cfg ops)) @
    structural cfg (map qe_value (buffered (sr_stream (run_stream H cfg ops))))"
proof -
  have c: "bounded_stream cfg" using package_text_stream[OF assms] by (rule text_stream.axioms)
  from bounded_stream.run_stream_at[OF c] obtain qs where r: "run_at H cfg qs (run_stream H cfg ops)" by blast
  then have "stream_at H cfg qs (sr_stream (run_stream H cfg ops))" by (simp add: run_at_def)
  with r show ?thesis using stream_at_buffered by (fastforce simp: run_at_def)
qed

theorem structural_events_delivered_witness:
  "structural small_stream (sr_delivered small_run) @ structural small_stream (map qe_value (buffered (sr_stream small_run))) =
   [start_event, done_event]"
proof -
  have "structural small_stream (sr_accepted small_run) = [start_event, done_event]"
    using small_checked unfolding small_checks_def by blast
  with structural_events_delivered[OF small_package, of stream_host small_ops] show ?thesis
    by (simp flip: small_run_def)
qed

text \<open>
  Coalescing under pressure loses no text: as long as nothing was dropped, the deltas of a content block that
  were pushed and the deltas the reader received plus those still buffered spell the same text.
\<close>

theorem coalescing_keeps_text:
  assumes "package_stream cfg" and "t \<in> delta_types" and "es_dropped (sr_stream (run_stream H cfg ops)) = 0"
    and "texts_only cfg (IndexKey t i) (sr_accepted (run_stream H cfg ops))"
  shows "keyed_text cfg (IndexKey t i) (sr_accepted (run_stream H cfg ops)) =
    keyed_text cfg (IndexKey t i) (sr_delivered (run_stream H cfg ops)) @
    keyed_text cfg (IndexKey t i) (map qe_value (buffered (sr_stream (run_stream H cfg ops))))"
  using text_stream.run_text_ok[OF package_text_stream[OF assms(1)] refl assms(2-4)] by (simp add: text_ok_def)

theorem coalescing_keeps_text_witness:
  "keyed_text small_stream (IndexKey (JStr ''text_delta'') (JInt 0)) (sr_accepted small_run) =
   ''abcd'' @ keyed_text small_stream (IndexKey (JStr ''text_delta'') (JInt 0)) (map qe_value (buffered (sr_stream small_run)))"
proof -
  have "JStr ''text_delta'' \<in> delta_types" "es_dropped (sr_stream small_run) = 0"
    "texts_only small_stream (IndexKey (JStr ''text_delta'') (JInt 0)) (sr_accepted small_run)"
    "keyed_text small_stream (IndexKey (JStr ''text_delta'') (JInt 0)) (sr_delivered small_run) = ''abcd''"
    using small_checked unfolding small_checks_def by blast+
  with coalescing_keeps_text[OF small_package, of "JStr ''text_delta''" stream_host small_ops "JInt 0"] show ?thesis
    by (simp flip: small_run_def)
qed

text \<open>
  C36: nobody waits for ever. When a stream is done its result is settled, and a reader that goes on reads at most
  \<open>max_buffer_size + 1\<close> more items before it leaves its loop; and a push that raises always leaves the stream
  done, with the exception as the result.
\<close>

theorem stream_fails_closed:
  assumes "package_stream cfg"
  shows "(es_done (sr_stream (run_stream H cfg ops)) \<longrightarrow> es_result (sr_stream (run_stream H cfg ops)) \<noteq> None \<and>
      sr_finished (run_stream H cfg (ops @ replicate (sc_max_buffer_size cfg + 1) Next))) \<and>
    (\<forall>event e st'. \<not> es_done (sr_stream (run_stream H cfg ops)) \<longrightarrow>
      push H cfg event (sr_stream (run_stream H cfg ops)) = (Inl e, st') \<longrightarrow> es_done st' \<and> es_result st' = Some (Inl e))"
proof -
  have c: "bounded_stream cfg" using package_text_stream[OF assms] by (rule text_stream.axioms)
  from bounded_stream.run_stream_at[OF c] obtain qs where r: "run_at H cfg qs (run_stream H cfg ops)" by blast
  then have at: "stream_at H cfg qs (sr_stream (run_stream H cfg ops))" by (simp add: run_at_def)
  have fin: "sr_finished (run_stream H cfg (ops @ replicate (sc_max_buffer_size cfg + 1) Next))"
    if "es_done (sr_stream (run_stream H cfg ops))"
    using bounded_stream.done_drains[OF c r that, of "sc_max_buffer_size cfg + 1"] bounded_stream.queue_capacity[OF c at]
    by (simp add: run_stream_def)
  have "es_done st' \<and> es_result st' = Some (Inl e)" if "\<not> es_done (sr_stream (run_stream H cfg ops))"
    "push H cfg event (sr_stream (run_stream H cfg ops)) = (Inl e, st')" for event e st'
    using bounded_stream.push_push_outcome[OF c at that] by (auto elim!: push_outcome.cases)
  with fin at show ?thesis by (auto simp: stream_at_def)
qed

theorem stream_fails_closed_witness:
  "es_result (sr_stream small_run) \<noteq> None \<and> sr_finished (run_stream stream_host small_stream (small_ops @ replicate 3 Next)) \<and>
   es_result (snd (push stream_host small_stream [(''type'', JStr ''done'')] new_stream)) = Some (Inl (Builtin KeyErr))"
proof -
  obtain st' where p: "push stream_host small_stream [(''type'', JStr ''done'')] new_stream = (Inl (Builtin KeyErr), st')"
    using small_checked by (cases "push stream_host small_stream [(''type'', JStr ''done'')] new_stream") (simp add: small_checks_def)
  have "es_done (sr_stream small_run)" "sc_max_buffer_size small_stream + 1 = 3"
    using small_checked by (simp_all add: small_checks_def)
  then have "es_result (sr_stream small_run) \<noteq> None \<and> sr_finished (run_stream stream_host small_stream (small_ops @ replicate 3 Next))"
    using stream_fails_closed[OF small_package, of stream_host small_ops] unfolding small_run_def by metis
  moreover have "run_stream stream_host small_stream [] = new_run" "\<not> es_done (sr_stream new_run)" "sr_stream new_run = new_stream"
    by (simp_all add: run_stream_def new_run_def) (simp add: new_stream_def)
  ultimately show ?thesis using stream_fails_closed[OF small_package, of stream_host "[]"] p by auto
qed

end
