(* ===== verification/Unicode_Text.thy ===== *)
theory Unicode_Text
  imports Agent_Prelude
begin

text \<open>
  Operations of Python's \<open>str\<close> that look at characters. A text is its UTF-8 bytes; its code points are
  a first byte and the continuation bytes (\<open>0x80\<close> to \<open>0xBF\<close>) after it. \<open>len\<close> counts code points
  and a slice takes them. Case folding and \<open>isalnum\<close> are given by the tables of the Unicode standard,
  one entry per code point: they are the fields of a \<open>unicode\<close> record, and theorems hold for every table.
\<close>

record unicode =
  fold_char :: "string \<Rightarrow> string"
  alnum_char :: "string \<Rightarrow> bool"

definition continuation :: "char \<Rightarrow> bool" where
  "continuation c \<longleftrightarrow> (let n = of_char c :: nat in 128 \<le> n \<and> n < 192)"

function code_points :: "string \<Rightarrow> string list" where
  "code_points [] = []"
| "code_points (c # s) = (c # takeWhile continuation s) # code_points (dropWhile continuation s)"
  by pat_completeness auto
termination by (relation "measure length") (simp_all add: le_imp_less_Suc length_dropWhile_le)

definition py_len :: "string \<Rightarrow> nat" where
  "py_len s = length (code_points s)"

text \<open>\<open>s[:n]\<close>.\<close>

definition py_take :: "nat \<Rightarrow> string \<Rightarrow> string" where
  "py_take n s = concat (take n (code_points s))"

definition casefold_text :: "unicode \<Rightarrow> string \<Rightarrow> string" where
  "casefold_text U s = concat (map (fold_char U) (code_points s))"

text \<open>\<open>"".join(c for c in s.casefold() if c.isalnum())\<close>.\<close>

definition alnum_fold :: "unicode \<Rightarrow> string \<Rightarrow> string" where
  "alnum_fold U s = concat (filter (alnum_char U) (code_points (casefold_text U s)))"

text \<open>\<open>needle in s\<close>.\<close>

fun has_prefix :: "string \<Rightarrow> string \<Rightarrow> bool" where
  "has_prefix [] s = True"
| "has_prefix (c # cs) [] = False"
| "has_prefix (c # cs) (d # ds) = (c = d \<and> has_prefix cs ds)"

fun py_in :: "string \<Rightarrow> string \<Rightarrow> bool" where
  "py_in needle [] = (needle = [])"
| "py_in needle (c # s) = (has_prefix needle (c # s) \<or> py_in needle s)"

lemma has_prefix_iff: "has_prefix a s \<longleftrightarrow> (\<exists>b. s = a @ b)"
  by (induction a s rule: has_prefix.induct) auto

lemma py_in_iff: "py_in a s \<longleftrightarrow> (\<exists>x y. s = x @ a @ y)"
proof (induction s)
  case step: (Cons c s)
  show ?case
  proof
    assume "py_in a (c # s)"
    then consider b where "c # s = a @ b" | x y where "s = x @ a @ y"
      using step by (auto simp: has_prefix_iff)
    then show "\<exists>x y. c # s = x @ a @ y"
      by cases (metis append_Nil, metis append_Cons)
  next
    assume "\<exists>x y. c # s = x @ a @ y"
    then obtain x y where "c # s = x @ a @ y" by blast
    then show "py_in a (c # s)"
    proof (cases x)
      case Nil
      with \<open>c # s = x @ a @ y\<close> have "has_prefix a (c # s)" by (auto simp: has_prefix_iff)
      then show ?thesis by simp
    next
      case (Cons d x')
      with \<open>c # s = x @ a @ y\<close> have "s = x' @ a @ y" by simp
      with step.IH show ?thesis by auto
    qed
  qed
qed auto

section \<open>Code points and slices\<close>

lemma concat_code_points [simp]: "concat (code_points s) = s"
  by (induction s rule: code_points.induct) simp_all

lemma code_points_Nil_iff [simp]: "code_points s = [] \<longleftrightarrow> s = []"
  by (cases s) simp_all

lemma code_points_append:
  "\<not> continuation c \<Longrightarrow> code_points (a @ c # b) = code_points a @ code_points (c # b)"
proof (induction a rule: code_points.induct)
  case (2 d a)
  have "takeWhile continuation (a @ c # b) = takeWhile continuation a"
    "dropWhile continuation (a @ c # b) = dropWhile continuation a @ c # b"
    using "2.prems" by (induction a) auto
  then show ?case using 2 by simp
qed simp

text \<open>The code points of a text, except perhaps the first, start with a byte that is no continuation.\<close>

fun headed :: "string list \<Rightarrow> bool" where
  "headed [] = True"
| "headed (p # ps) = (p \<noteq> [] \<and> list_all continuation (tl p) \<and> list_all (\<lambda>q. \<not> continuation (hd q)) ps \<and> headed ps)"

lemma code_points_starts: "list_all (\<lambda>q. \<not> continuation (hd q)) (code_points (dropWhile continuation s))"
proof (induction "length s" arbitrary: s rule: less_induct)
  case less
  show ?case
  proof (cases "dropWhile continuation s")
    case (Cons c t)
    then have "\<not> continuation c" by (metis hd_dropWhile list.sel(1) list.simps(3))
    moreover have "length t < length s" using Cons length_dropWhile_le[of continuation s] by simp
    ultimately show ?thesis using Cons less by simp
  next
    case Nil
    show ?thesis unfolding Nil by simp
  qed
qed

lemma headed_code_points: "headed (code_points s)"
  by (induction s rule: code_points.induct) (use code_points_starts in \<open>auto simp: list_all_iff dest: set_takeWhileD\<close>)

lemma headed_split:
  assumes "headed (p # ps)" and "b = concat ps"
  shows "takeWhile continuation (tl p @ b) = tl p" "dropWhile continuation (tl p @ b) = b"
proof -
  have "b = [] \<or> \<not> continuation (hd b)" using assms by (cases ps) auto
  moreover have "list_all continuation (tl p)" using assms by simp
  ultimately show "takeWhile continuation (tl p @ b) = tl p" "dropWhile continuation (tl p @ b) = b"
    by (cases b; simp add: list_all_iff)+
qed

lemma code_points_concat: "headed ps \<Longrightarrow> code_points (concat ps) = ps"
proof (induction ps)
  case (Cons p ps)
  obtain c q where "p = c # q" using Cons.prems by (cases p) auto
  with headed_split[OF Cons.prems refl] Cons show ?case by simp
qed simp

lemma headed_take: "headed ps \<Longrightarrow> headed (take n ps)"
  by (induction ps arbitrary: n) (auto simp: take_Cons list_all_iff split: nat.splits dest: in_set_takeD)

lemma code_points_py_take [simp]: "code_points (py_take n s) = take n (code_points s)"
  by (simp add: py_take_def code_points_concat headed_take headed_code_points)

lemma py_len_take: "py_len (py_take n s) = min n (py_len s)"
  by (simp add: py_len_def min.commute)

lemma py_take_all: "py_len s \<le> n \<Longrightarrow> py_take n s = s"
  by (simp add: py_len_def py_take_def)

lemma py_take_prefix: "\<exists>t. s = py_take n s @ t"
proof -
  have "s = concat (take n (code_points s)) @ concat (drop n (code_points s))"
    by (simp flip: concat_append)
  then show ?thesis unfolding py_take_def by blast
qed

lemma py_len_append: "\<not> continuation c \<Longrightarrow> py_len (a @ c # b) = py_len a + py_len (c # b)"
  by (simp add: py_len_def code_points_append)

end
