(* ===== verification/Retry_Policy.thy ===== *)
theory Retry_Policy
  imports Unicode_Text
begin

text \<open>
  What decides whether and when a failed attempt is repeated (\<open>retry/\<close>): the policies with the checks of their
  constructors (\<open>types.py\<close>, \<open>task.py\<close>, \<open>circuit_breaker.py\<close>), the delay before the next attempt (\<open>backoff.py\<close>), the classification of
  model errors (\<open>classifier.py\<close>) and the circuit breaker. Clock readings and random samples are arguments. Finite floats are
  exact rationals: rounding is not modelled, overflow is.
\<close>

section \<open>Policies\<close>

record retry_limits =
  rl_max_retries :: nat
  rl_initial_delay :: rat
  rl_max_delay :: rat
  rl_jitter :: rat
  rl_max_elapsed :: rat

record code_retry_policy = retry_limits +
  cp_retryable_codes :: "string list"

record breaker_policy =
  bp_enabled :: bool
  bp_failure_threshold :: nat
  bp_recovery_timeout :: rat

record model_retry_policy = retry_limits +
  mp_enabled :: bool
  mp_retryable_statuses :: "int list"
  mp_circuit_breaker :: breaker_policy

text \<open>The conversion of an integer to a float raises when it rounds to \<open>2 ^ 1024\<close>.\<close>

definition float_overflow :: "int \<Rightarrow> bool" where
  "float_overflow i \<longleftrightarrow> 2 ^ 1024 - 2 ^ 970 \<le> \<bar>i\<bar>"

definition breaker_policy_init :: "json \<Rightarrow> json \<Rightarrow> json \<Rightarrow> ('f, breaker_policy) result" where
  "breaker_policy_init enabled threshold timeout =
     (case enabled of JBool b \<Rightarrow>
        (case as_int_ge 1 threshold of None \<Rightarrow> Inl (Builtin ValueErr) | Some n \<Rightarrow>
          (let accept = (\<lambda>r. if r \<le> 0 then Inl (Builtin ValueErr)
             else Inr \<lparr>bp_enabled = b, bp_failure_threshold = nat n, bp_recovery_timeout = r\<rparr>) in
           case timeout of
             JInt i \<Rightarrow> if float_overflow i then Inl (Builtin OverflowErr) else accept (of_int i)
           | JFloat (FFin r) \<Rightarrow> accept r
           | _ \<Rightarrow> Inl (Builtin ValueErr)))
      | _ \<Rightarrow> Inl (Builtin ValueErr))"

definition delay_limits :: "nat \<Rightarrow> pyfloat \<Rightarrow> pyfloat \<Rightarrow> pyfloat \<Rightarrow> pyfloat \<Rightarrow> ('f, retry_limits) result" where
  "delay_limits n initial longest jitter elapsed =
     (case (initial, longest, jitter, elapsed) of
        (FFin a, FFin b, FFin j, FFin e) \<Rightarrow>
          if a < 0 \<or> b \<le> 0 then Inl (Builtin ValueErr)
          else if a > b then Inl (Builtin ValueErr)
          else if e \<le> 0 then Inl (Builtin ValueErr)
          else if \<not> (0 \<le> j \<and> j \<le> 1) then Inl (Builtin ValueErr)
          else Inr \<lparr>rl_max_retries = n, rl_initial_delay = a, rl_max_delay = b, rl_jitter = j, rl_max_elapsed = e\<rparr>
      | _ \<Rightarrow> Inl (Builtin ValueErr))"

definition http_status :: "json \<Rightarrow> int option" where
  "http_status v = (case as_int_ge 100 v of Some i \<Rightarrow> if i > 599 then None else Some i | None \<Rightarrow> None)"

definition model_retry_policy_init ::
  "bool \<Rightarrow> json \<Rightarrow> pyfloat \<Rightarrow> pyfloat \<Rightarrow> pyfloat \<Rightarrow> json list \<Rightarrow> pyfloat \<Rightarrow> breaker_policy \<Rightarrow> ('f, model_retry_policy) result" where
  "model_retry_policy_init enabled retries initial longest jitter statuses elapsed breaker =
     (case as_int_ge 0 retries of None \<Rightarrow> Inl (Builtin ValueErr) | Some n \<Rightarrow>
      if enabled \<and> n < 1 then Inl (Builtin ValueErr) else
      bindE (delay_limits (nat n) initial longest jitter elapsed) (\<lambda>l.
      if \<exists>v \<in> set statuses. http_status v = None then Inl (Builtin ValueErr)
      else Inr (retry_limits.extend l
        (model_retry_policy.fields enabled (map (the \<circ> http_status) statuses) breaker))))"

definition tool_retry_policy_init ::
  "json \<Rightarrow> string list \<Rightarrow> bool \<Rightarrow> pyfloat \<Rightarrow> pyfloat \<Rightarrow> pyfloat \<Rightarrow> pyfloat \<Rightarrow> ('f, code_retry_policy) result" where
  "tool_retry_policy_init retries codes idempotent initial longest jitter elapsed =
     (case as_int_ge 1 retries of None \<Rightarrow> Inl (Builtin ValueErr) | Some n \<Rightarrow>
      if \<not> idempotent then Inl (Builtin ValueErr)
      else if codes = [] \<or> (\<exists>code \<in> set codes. py_strip code = []) then Inl (Builtin ValueErr) else
      bindE (delay_limits (nat n) initial longest jitter elapsed) (\<lambda>l.
      Inr (retry_limits.extend l (code_retry_policy.fields codes))))"

definition task_retry_policy_init ::
  "json \<Rightarrow> string list \<Rightarrow> bool \<Rightarrow> pyfloat \<Rightarrow> pyfloat \<Rightarrow> pyfloat \<Rightarrow> pyfloat \<Rightarrow> ('f, code_retry_policy) result" where
  "task_retry_policy_init retries codes idempotent initial longest jitter elapsed =
     (case as_int_ge 1 retries of None \<Rightarrow> Inl (Builtin ValueErr) | Some n \<Rightarrow>
      if \<not> idempotent then Inl (Builtin ValueErr)
      else if codes = [] then Inl (Builtin ValueErr) else
      bindE (delay_limits (nat n) initial longest jitter elapsed) (\<lambda>l.
      Inr (retry_limits.extend l (code_retry_policy.fields codes))))"

section \<open>The delay before a retry\<close>

text \<open>
  A wait asked for by the server is honoured up to the maximum and refused beyond it; a NaN compares with
  nothing, so \<open>max(0.0, nan)\<close> is zero. The factor \<open>2 ** (n - 1)\<close> is an integer that has to become a float.
\<close>

definition retry_delay_seconds ::
  "nat \<Rightarrow> ('a) retry_limits_scheme \<Rightarrow> rat \<Rightarrow> pyfloat option \<Rightarrow> ('f, rat option) result" where
  "retry_delay_seconds retry_number lims sample retry_after =
     (case retry_after of
        Some (FFin r) \<Rightarrow> Inr (if r > rl_max_delay lims then None else Some (max 0 r))
      | Some FPosInf \<Rightarrow> Inr None
      | Some _ \<Rightarrow> Inr (Some 0)
      | None \<Rightarrow>
          if float_overflow (2 ^ (retry_number - 1)) then Inl (Builtin OverflowErr) else
          let exponential = min (rl_initial_delay lims * 2 ^ (retry_number - 1)) (rl_max_delay lims);
              sample = min 1 (max 0 sample);
              jitter = 1 - rl_jitter lims + 2 * rl_jitter lims * sample
          in Inr (Some (min (exponential * jitter) (rl_max_delay lims))))"

section \<open>Model errors\<close>

record model_retry_decision =
  rd_retryable :: bool
  rd_code :: string
  rd_status_code :: "int option"
  rd_retry_after :: "pyfloat option"

definition retryable_codes :: "string set" where
  "retryable_codes = {''provider_timeout_error'', ''provider_http_error'', ''provider_rate_limit_error'', ''provider_transport_error''}"

definition non_retryable_text :: "string list" where
  "non_retryable_text = [''insufficient_quota'', ''quota exceeded'', ''billing'', ''out of budget'', ''context overflow'', ''context length'']"

definition retryable_text :: "string list" where
  "retryable_text = [''rate limit'', ''too many requests'', ''overloaded'', ''service unavailable'', ''connection reset'',
     ''connection refused'', ''network error'', ''timed out'', ''timeout'', ''stream ended'']"

definition retry_after_of :: "json \<Rightarrow> ('f, pyfloat option) result" where
  "retry_after_of v = (case v of
     JInt i \<Rightarrow> if i < 0 then Inr None else if float_overflow i then Inl (Builtin OverflowErr)
       else Inr (Some (FFin (of_int i / 1000)))
   | JFloat (FFin r) \<Rightarrow> Inr (if r < 0 then None else Some (FFin (r / 1000)))
   | JFloat FPosInf \<Rightarrow> Inr (Some FPosInf)
   | _ \<Rightarrow> Inr None)"

definition classify_details ::
  "host \<Rightarrow> jdict \<Rightarrow> ('a) model_retry_policy_scheme \<Rightarrow> ('f, model_retry_decision) result" where
  "classify_details H details policy =
     (let code = py_str H (jget_or details ''code'' (JStr ''provider_error''));
          status_code = (case jget details ''statusCode'' of JInt i \<Rightarrow> Some i | _ \<Rightarrow> None) in
      bindE (retry_after_of (jget details ''retryAfterMs'')) (\<lambda>after.
      Inr \<lparr>rd_retryable = (case jget details ''retryable'' of
              JBool b \<Rightarrow> b
            | _ \<Rightarrow> (case status_code of Some i \<Rightarrow> i \<in> set (mp_retryable_statuses policy) | None \<Rightarrow> code \<in> retryable_codes)),
           rd_code = code, rd_status_code = status_code, rd_retry_after = after\<rparr>))"

definition classify_model_error ::
  "host \<Rightarrow> unicode \<Rightarrow> jdict \<Rightarrow> ('a) model_retry_policy_scheme \<Rightarrow> ('f, model_retry_decision) result" where
  "classify_model_error H U msg policy =
     (let plain = (\<lambda>b code. Inr \<lparr>rd_retryable = b, rd_code = code, rd_status_code = None, rd_retry_after = None\<rparr>) in
      if jget msg ''stopReason'' \<noteq> JStr ''error'' then plain False ''not_error''
      else case jget msg ''providerError'' of
        JObj details \<Rightarrow> classify_details H details policy
      | _ \<Rightarrow>
          let text = casefold_text U (py_str H (jget_or msg ''errorMessage'' (JStr ''''))) in
          if \<exists>pat \<in> set non_retryable_text. py_in pat text then plain False ''non_retryable_provider_limit''
          else if \<exists>pat \<in> set retryable_text. py_in pat text then plain True ''legacy_transient_error''
          else plain False ''unclassified_error'')"

section \<open>The circuit breaker\<close>

datatype circuit_fault = CircuitOpen | CircuitProbing

datatype circuit_state = CircuitClosed | CircuitIsOpen | CircuitHalfOpen

record circuit_breaker =
  cb_state :: circuit_state
  cb_failures :: nat
  cb_opened_at :: rat
  cb_in_flight :: bool

definition new_breaker :: circuit_breaker where
  "new_breaker = \<lparr>cb_state = CircuitClosed, cb_failures = 0, cb_opened_at = 0, cb_in_flight = False\<rparr>"

definition before_call :: "breaker_policy \<Rightarrow> rat \<Rightarrow> circuit_breaker \<Rightarrow> (circuit_fault, unit) result \<times> circuit_breaker" where
  "before_call pol now b =
     (if \<not> bp_enabled pol \<or> cb_state b = CircuitClosed then (Inr (), b)
      else if cb_state b = CircuitIsOpen \<and> now - cb_opened_at b < bp_recovery_timeout pol then (Inl (Raised CircuitOpen), b)
      else let b = (if cb_state b = CircuitIsOpen then b\<lparr>cb_state := CircuitHalfOpen, cb_in_flight := False\<rparr> else b) in
        if cb_in_flight b then (Inl (Raised CircuitProbing), b)
        else (Inr (), b\<lparr>cb_in_flight := True\<rparr>))"

definition record_success :: "breaker_policy \<Rightarrow> circuit_breaker \<Rightarrow> circuit_breaker" where
  "record_success pol b =
     (if \<not> bp_enabled pol then b else b\<lparr>cb_state := CircuitClosed, cb_failures := 0, cb_in_flight := False\<rparr>)"

definition record_failure :: "breaker_policy \<Rightarrow> rat \<Rightarrow> circuit_breaker \<Rightarrow> circuit_breaker" where
  "record_failure pol now b =
     (if \<not> bp_enabled pol then b
      else let b = b\<lparr>cb_in_flight := False, cb_failures := cb_failures b + 1\<rparr> in
        if cb_state b = CircuitHalfOpen \<or> cb_failures b \<ge> bp_failure_threshold pol
        then b\<lparr>cb_state := CircuitIsOpen, cb_opened_at := now\<rparr> else b)"

end
