(* ===== verification/Retry_Loop.thy ===== *)
theory Retry_Loop
  imports Retry_Policy
begin

text \<open>
  The bounded repetition of one tool call (\<open>retry/tool.py\<close>) and of one idempotent task (\<open>retry/task.py\<close>). The two loops are the same
  code up to the events they emit, which a \<open>loop_naming\<close> gives. What happens outside is a \<open>retry_world\<close>: the outcome of the
  \<open>n\<close>-th execution, whether the token is cancelled before it or during the wait after it, the random
  sample and the time elapsed when the wait is computed. The emit callback is taken to return. A run is
  the list of what the loop did and how it ended.
\<close>

section \<open>The loops\<close>

datatype 'r attempt = Completed 'r | RetryableFailure string "pyfloat option" | OtherFailure string

datatype 'r loop_end =
    LoopReturned 'r
  | LoopRetryable string nat "string option"
  | LoopFailed string
  | LoopCancelled
  | LoopBuiltin builtin

datatype retry_act = Attempted nat | Emitted jdict | Slept rat

record 'r retry_world =
  rw_execute :: "nat \<Rightarrow> 'r attempt"
  rw_cancelled :: "nat \<Rightarrow> bool"
  rw_sample :: "nat \<Rightarrow> rat"
  rw_elapsed :: "nat \<Rightarrow> rat"
  rw_sleep_cancelled :: "nat \<Rightarrow> bool"

record loop_naming =
  ln_finished :: "nat \<Rightarrow> string option \<Rightarrow> jdict"
  ln_scheduled :: "nat \<Rightarrow> nat \<Rightarrow> int \<Rightarrow> string \<Rightarrow> jdict"
  ln_started :: "nat \<Rightarrow> jdict"

text \<open>Python's \<open>round\<close> to an integer: to the nearest, ties to the even one.\<close>

definition py_round :: "rat \<Rightarrow> int" where
  "py_round x = (let f = \<lfloor>x\<rfloor>; d = x - of_int f in
     if d < 1 / 2 then f else if d > 1 / 2 then f + 1 else if even f then f else f + 1)"

definition tool_naming :: "string \<Rightarrow> string \<Rightarrow> string \<Rightarrow> loop_naming" where
  "tool_naming retry_id tool_call_id tool_name =
     (let base = [(''retryId'', JStr retry_id), (''toolCallId'', JStr tool_call_id), (''toolName'', JStr tool_name)] in
      \<lparr>ln_finished = (\<lambda>n err. (''type'', JStr ''tool_retry_finished'') # base @
         [(''success'', JBool (err = None)), (''attempt'', JInt (int n))] @
         (case err of None \<Rightarrow> [] | Some code \<Rightarrow> [(''finalError'', JStr code)])),
       ln_scheduled = (\<lambda>n total ms code. (''type'', JStr ''tool_retry_scheduled'') # base @
         [(''attempt'', JInt (int n)), (''maxAttempts'', JInt (int total)), (''delayMs'', JInt ms), (''errorCode'', JStr code)]),
       ln_started = (\<lambda>n. (''type'', JStr ''tool_retry_attempt_start'') # base @ [(''attempt'', JInt (int n))])\<rparr>)"

definition task_naming :: "string \<Rightarrow> string \<Rightarrow> loop_naming" where
  "task_naming retry_id task_id =
     (let base = [(''kind'', JStr ''task''), (''retryId'', JStr retry_id), (''taskId'', JStr task_id)] in
      \<lparr>ln_finished = (\<lambda>n err. (''type'', JStr ''task_retry_finished'') # base @
         [(''attempt'', JInt (int n)), (''success'', JBool (err = None))] @
         (case err of None \<Rightarrow> [] | Some code \<Rightarrow> [(''finalError'', JStr code)])),
       ln_scheduled = (\<lambda>n total ms code. (''type'', JStr ''task_retry_scheduled'') # base @
         [(''attempt'', JInt (int n)), (''maxAttempts'', JInt (int total)), (''delayMs'', JInt ms), (''errorCode'', JStr code)]),
       ln_started = (\<lambda>n. (''type'', JStr ''task_retry_attempt_start'') # base @ [(''attempt'', JInt (int n))])\<rparr>)"

definition finish_event :: "loop_naming \<Rightarrow> nat \<Rightarrow> string option \<Rightarrow> retry_act list" where
  "finish_event nm n err = (if n > 0 then [Emitted (ln_finished nm n err)] else [])"

definition raise_retryable :: "string \<Rightarrow> string \<Rightarrow> nat \<Rightarrow> 'r loop_end" where
  "raise_retryable retry_id code n = LoopRetryable code (n + 1) (if n > 0 then Some retry_id else None)"

function retry_loop :: "'r retry_world \<Rightarrow> code_retry_policy \<Rightarrow> loop_naming \<Rightarrow> string \<Rightarrow> nat \<Rightarrow> retry_act list \<times> 'r loop_end" where
  "retry_loop W pol nm retry_id n =
     (if rw_cancelled W n then ([], LoopCancelled)
      else case rw_execute W n of
        Completed r \<Rightarrow> (Attempted n # finish_event nm n None, LoopReturned r)
      | OtherFailure e \<Rightarrow> ([Attempted n], LoopFailed e)
      | RetryableFailure code after \<Rightarrow>
          if \<not> (code \<in> set (cp_retryable_codes pol) \<and> n < rl_max_retries pol)
          then (Attempted n # finish_event nm n (Some code), raise_retryable retry_id code n)
          else (case retry_delay_seconds (n + 1) pol (rw_sample W n) after :: (unit, rat option) result of
              Inl (Builtin b) \<Rightarrow> ([Attempted n], LoopBuiltin b)
            | Inl (Raised _) \<Rightarrow> ([Attempted n], LoopBuiltin OutsideModel)
            | Inr None \<Rightarrow> ([Attempted n], raise_retryable retry_id code n)
            | Inr (Some delay) \<Rightarrow>
                if rw_elapsed W n + delay > rl_max_elapsed pol then ([Attempted n], raise_retryable retry_id code n)
                else let pre = [Attempted n,
                           Emitted (ln_scheduled nm (n + 1) (rl_max_retries pol) (py_round (delay * 1000)) code), Slept delay] in
                  if rw_sleep_cancelled W n then (pre, LoopCancelled)
                  else (case retry_loop W pol nm retry_id (n + 1) of
                    (acts, res) \<Rightarrow> (pre @ Emitted (ln_started nm (n + 1)) # acts, res))))"
  by pat_completeness auto
termination by (relation "measure (\<lambda>(W, pol, nm, rid, n). rl_max_retries pol - n)") auto

declare retry_loop.simps [simp del]

definition execute_tool_with_retry ::
  "'r retry_world \<Rightarrow> code_retry_policy option \<Rightarrow> string \<Rightarrow> string \<Rightarrow> string \<Rightarrow> retry_act list \<times> 'r loop_end" where
  "execute_tool_with_retry W policy retry_id tool_call_id tool_name =
     (case policy of
        None \<Rightarrow> ([Attempted 0], case rw_execute W 0 of
            Completed r \<Rightarrow> LoopReturned r | OtherFailure e \<Rightarrow> LoopFailed e | RetryableFailure code _ \<Rightarrow> LoopRetryable code 1 None)
      | Some pol \<Rightarrow> retry_loop W pol (tool_naming retry_id tool_call_id tool_name) retry_id 0)"

definition execute_task :: "'r retry_world \<Rightarrow> code_retry_policy \<Rightarrow> string \<Rightarrow> string \<Rightarrow> retry_act list \<times> 'r loop_end" where
  "execute_task W pol retry_id task_id = retry_loop W pol (task_naming retry_id task_id) retry_id 0"

section \<open>What a run of the loop is\<close>

definition attempts_of :: "retry_act list \<Rightarrow> nat list" where
  "attempts_of acts = concat (map (\<lambda>a. case a of Attempted n \<Rightarrow> [n] | _ \<Rightarrow> []) acts)"

definition waits_of :: "retry_act list \<Rightarrow> rat list" where
  "waits_of acts = concat (map (\<lambda>a. case a of Slept d \<Rightarrow> [d] | _ \<Rightarrow> []) acts)"

definition emitted_of :: "retry_act list \<Rightarrow> jdict list" where
  "emitted_of acts = concat (map (\<lambda>a. case a of Emitted e \<Rightarrow> [e] | _ \<Rightarrow> []) acts)"

lemma act_lists [simp]:
  "attempts_of [] = []" "attempts_of (Attempted n # acts) = n # attempts_of acts"
  "attempts_of (Emitted e # acts) = attempts_of acts" "attempts_of (Slept d # acts) = attempts_of acts"
  "waits_of [] = []" "waits_of (Attempted n # acts) = waits_of acts"
  "waits_of (Emitted e # acts) = waits_of acts" "waits_of (Slept d # acts) = d # waits_of acts"
  "emitted_of [] = []" "emitted_of (Attempted n # acts) = emitted_of acts"
  "emitted_of (Emitted e # acts) = e # emitted_of acts" "emitted_of (Slept d # acts) = emitted_of acts"
  by (simp_all add: attempts_of_def waits_of_def emitted_of_def)

lemma finish_event_lists [simp]:
  "attempts_of (finish_event nm n err) = []" "waits_of (finish_event nm n err) = []"
  "emitted_of (finish_event nm n err) = (if n > 0 then [ln_finished nm n err] else [])"
  by (simp_all add: finish_event_def)

text \<open>Limits that a constructor accepted.\<close>

definition limits_ok :: "'a retry_limits_scheme \<Rightarrow> bool" where
  "limits_ok l \<longleftrightarrow> 0 \<le> rl_initial_delay l \<and> rl_initial_delay l \<le> rl_max_delay l \<and> 0 < rl_max_delay l \<and>
     0 \<le> rl_jitter l \<and> rl_jitter l \<le> 1 \<and> 0 < rl_max_elapsed l"

lemma delay_limits_ok:
  assumes "delay_limits n a b j e = Inr l"
  shows "limits_ok l \<and> rl_max_retries l = n"
  using assms by (auto simp: delay_limits_def limits_ok_def split: pyfloat.splits if_splits)

lemma tool_policy_ok:
  assumes "tool_retry_policy_init retries codes idem a b j e = Inr pol"
  shows "limits_ok pol \<and> idem \<and> 1 \<le> rl_max_retries pol \<and> cp_retryable_codes pol = codes"
proof -
  from assms obtain n l where n: "as_int_ge 1 retries = Some n" "idem" "delay_limits (nat n) a b j e = (Inr l :: ('a, retry_limits) result)"
    "pol = retry_limits.extend l (code_retry_policy.fields codes)"
    by (auto simp: tool_retry_policy_init_def exc_simps split: option.splits if_splits)
  have "1 \<le> n" using n(1) by (cases retries) (auto split: if_splits)
  with n delay_limits_ok[OF n(3)] show ?thesis
    by (auto simp: limits_ok_def retry_limits.defs code_retry_policy.defs nat_le_eq_zle le_nat_iff)
qed

text \<open>The delay is within the maximum, and with no wait asked for by a server within the jitter around the exponential value.\<close>

lemma jitter_bounds:
  fixes j s :: rat
  assumes "0 \<le> j" "j \<le> 1"
  shows "1 - j \<le> 1 - j + 2 * j * min 1 (max 0 s)" "0 \<le> 1 - j + 2 * j * min 1 (max 0 s)"
  using assms by simp_all

lemma retry_delay_bounds:
  assumes "retry_delay_seconds n l s after = Inr (Some d)" and "limits_ok l"
  shows "0 \<le> d \<and> d \<le> rl_max_delay l"
proof (cases after)
  case None
  let ?e = "min (rl_initial_delay l * 2 ^ (n - 1)) (rl_max_delay l)"
  let ?j = "1 - rl_jitter l + 2 * rl_jitter l * min 1 (max 0 s)"
  have d: "d = min (?e * ?j) (rl_max_delay l)"
    using assms(1) None by (auto simp: retry_delay_seconds_def Let_def split: if_splits)
  have "0 \<le> ?e" "0 \<le> ?j" using assms(2) jitter_bounds(2) by (simp_all add: limits_ok_def)
  then have "0 \<le> ?e * ?j" by (rule mult_nonneg_nonneg)
  with d assms(2) show ?thesis by (simp add: limits_ok_def)
next
  case (Some a)
  with assms show ?thesis by (cases a) (auto simp: retry_delay_seconds_def limits_ok_def split: if_splits)
qed

text \<open>A failure after which the loop goes on: declared, within the number of retries, with a delay that fits in the time allowed.\<close>

definition goes_on :: "'r retry_world \<Rightarrow> code_retry_policy \<Rightarrow> nat \<Rightarrow> rat \<Rightarrow> bool" where
  "goes_on W pol k d \<longleftrightarrow> k < rl_max_retries pol \<and> (\<exists>code after. rw_execute W k = RetryableFailure code after \<and>
     code \<in> set (cp_retryable_codes pol) \<and>
     (retry_delay_seconds (k + 1) pol (rw_sample W k) after :: (unit, rat option) result) = Inr (Some d)) \<and>
     rw_elapsed W k + d \<le> rl_max_elapsed pol"

fun end_agrees :: "'r retry_world \<Rightarrow> code_retry_policy \<Rightarrow> string \<Rightarrow> nat \<Rightarrow> 'r loop_end \<Rightarrow> bool" where
  "end_agrees W pol retry_id m (LoopReturned r) = (0 < m \<and> rw_execute W (m - 1) = Completed r)"
| "end_agrees W pol retry_id m (LoopFailed e) = (0 < m \<and> rw_execute W (m - 1) = OtherFailure e)"
| "end_agrees W pol retry_id m (LoopRetryable code n rid) = (0 < m \<and> n = m \<and>
     (\<exists>after. rw_execute W (m - 1) = RetryableFailure code after) \<and> rid = (if 1 < m then Some retry_id else None))"
| "end_agrees W pol retry_id m LoopCancelled = (rw_cancelled W m \<or> 0 < m \<and> rw_sleep_cancelled W (m - 1))"
| "end_agrees W pol retry_id m (LoopBuiltin b) = (0 < m \<and> (\<exists>code after. rw_execute W (m - 1) = RetryableFailure code after))"

text \<open>The loop closes its chain of events when it returns a result or refuses a failure as undeclared or exhausted.\<close>

fun settles :: "code_retry_policy \<Rightarrow> 'r loop_end \<Rightarrow> bool" where
  "settles pol (LoopReturned r) = True"
| "settles pol (LoopRetryable code n rid) = (\<not> (code \<in> set (cp_retryable_codes pol) \<and> n \<le> rl_max_retries pol))"
| "settles pol _ = False"

fun end_error :: "'r loop_end \<Rightarrow> string option" where
  "end_error (LoopRetryable code n rid) = Some code"
| "end_error _ = None"

definition scheduled_event :: "code_retry_policy \<Rightarrow> loop_naming \<Rightarrow> nat \<Rightarrow> rat \<Rightarrow> string \<Rightarrow> jdict" where
  "scheduled_event pol nm n d code = ln_scheduled nm (n + 1) (rl_max_retries pol) (py_round (d * 1000)) code"

text \<open>The five ways one round of the loop goes.\<close>

lemma retry_loop_cases:
  assumes run: "retry_loop W pol nm retry_id n = (acts, res)"
  obtains (cancelled) "acts = []" "res = LoopCancelled" "rw_cancelled W n"
  | (settled) "acts = Attempted n # finish_event nm n (end_error res)" "end_agrees W pol retry_id (Suc n) res" "settles pol res"
  | (dropped) "acts = [Attempted n]" "end_agrees W pol retry_id (Suc n) res" "\<not> settles pol res"
  | (woken) d code where "goes_on W pol n d" "acts = [Attempted n, Emitted (scheduled_event pol nm n d code), Slept d]"
      "res = LoopCancelled" "rw_sleep_cancelled W n"
  | (again) d code acts' where "goes_on W pol n d" "retry_loop W pol nm retry_id (Suc n) = (acts', res)"
      "acts = Attempted n # Emitted (scheduled_event pol nm n d code) # Slept d # Emitted (ln_started nm (Suc n)) # acts'"
proof (cases "rw_cancelled W n")
  case True
  with run show thesis by (intro cancelled) (auto simp: retry_loop.simps[of W pol nm retry_id n])
next
  case live: False
  note unfold = retry_loop.simps[of W pol nm retry_id n]
  show thesis
  proof (cases "rw_execute W n")
    case (RetryableFailure code after)
    let ?delay = "retry_delay_seconds (n + 1) pol (rw_sample W n) after :: (unit, rat option) result"
    consider (refused) "\<not> (code \<in> set (cp_retryable_codes pol) \<and> n < rl_max_retries pol)"
      | (late) "code \<in> set (cp_retryable_codes pol)" "n < rl_max_retries pol" "\<forall>d. ?delay = Inr (Some d) \<longrightarrow> rw_elapsed W n + d > rl_max_elapsed pol"
      | (fits) d where "code \<in> set (cp_retryable_codes pol)" "n < rl_max_retries pol" "?delay = Inr (Some d)"
          "\<not> rw_elapsed W n + d > rl_max_elapsed pol" by blast
    then show thesis
    proof cases
      case refused
      with run live RetryableFailure show thesis by (intro settled) (auto simp: unfold raise_retryable_def)
    next
      case late
      with run live RetryableFailure show thesis
        by (intro dropped) (auto simp: unfold raise_retryable_def split: sum.splits exc.splits option.splits if_splits)
    next
      case fits
      then have g: "goes_on W pol n d" using RetryableFailure by (simp add: goes_on_def)
      show thesis
      proof (cases "rw_sleep_cancelled W n")
        case True
        with run live RetryableFailure fits show thesis by (intro woken[OF g]) (auto simp: unfold scheduled_event_def Let_def)
      next
        case False
        obtain acts' res' where "retry_loop W pol nm retry_id (n + 1) = (acts', res')" by force
        with run live RetryableFailure fits False show thesis by (intro again[OF g]) (auto simp: unfold scheduled_event_def Let_def)
      qed
    qed
  qed (use run live in \<open>auto simp: unfold intro: settled dropped\<close>)
qed

definition loop_run :: "'r retry_world \<Rightarrow> code_retry_policy \<Rightarrow> string \<Rightarrow> nat \<Rightarrow> retry_act list \<Rightarrow> 'r loop_end \<Rightarrow> nat \<Rightarrow> bool" where
  "loop_run W pol retry_id n acts res m \<longleftrightarrow> n \<le> m \<and> attempts_of acts = [n..<m] \<and> end_agrees W pol retry_id m res \<and>
     m \<le> n + length (waits_of acts) + 1 \<and> n + length (waits_of acts) \<le> m \<and>
     (res \<noteq> LoopCancelled \<longrightarrow> m = n + length (waits_of acts) + 1) \<and>
     (\<forall>i < length (waits_of acts). goes_on W pol (n + i) (waits_of acts ! i))"

lemma loop_run_step:
  assumes "goes_on W pol n d" "loop_run W pol retry_id (Suc n) acts res m"
  shows "loop_run W pol retry_id n (Attempted n # Emitted e # Slept d # Emitted e' # acts) res m"
proof -
  have "[n..<m] = n # [Suc n..<m]" using assms(2) by (simp add: loop_run_def upt_conv_Cons)
  moreover have "goes_on W pol (n + i) ((d # waits_of acts) ! i)" if "i < Suc (length (waits_of acts))" for i
    using assms that by (cases i) (simp_all add: loop_run_def)
  ultimately show ?thesis using assms(2) by (simp add: loop_run_def)
qed

lemma retry_loop_run:
  "retry_loop W pol nm retry_id n = (acts, res) \<Longrightarrow> \<exists>m. loop_run W pol retry_id n acts res m"
proof (induction "rl_max_retries pol - n" arbitrary: n acts rule: less_induct)
  case less
  from less.prems show ?case
  proof (cases rule: retry_loop_cases)
    case cancelled
    then show ?thesis by (intro exI[of _ n]) (simp add: loop_run_def)
  next
    case (woken d code)
    then show ?thesis by (intro exI[of _ "Suc n"]) (simp add: loop_run_def)
  next
    case (again d code acts')
    then have "rl_max_retries pol - Suc n < rl_max_retries pol - n" by (auto simp: goes_on_def)
    from less.hyps[OF this again(2)] loop_run_step[OF again(1)] show ?thesis unfolding again(3) by blast
  qed (auto intro!: exI[of _ "Suc n"] simp: loop_run_def)
qed

text \<open>The events of a run: those of the retries, and a closing one exactly when a run that retried settles.\<close>

definition retry_progress :: "loop_naming \<Rightarrow> jdict \<Rightarrow> bool" where
  "retry_progress nm e \<longleftrightarrow> (\<exists>n total ms code. e = ln_scheduled nm n total ms code) \<or> (\<exists>n. e = ln_started nm n)"

lemma Cons_eq_upt: "n # xs = [n..<m] \<longleftrightarrow> n < m \<and> xs = [Suc n..<m]"
  by (cases "n < m") (auto simp: upt_conv_Cons)

lemma retry_loop_events:
  "retry_loop W pol nm retry_id n = (acts, res) \<Longrightarrow> attempts_of acts = [n..<m] \<Longrightarrow> n \<le> m \<Longrightarrow>
     \<exists>opens. emitted_of acts = opens @ (if settles pol res \<and> 1 < m then [ln_finished nm (m - 1) (end_error res)] else []) \<and>
       list_all (retry_progress nm) opens \<and> (opens = [] \<longleftrightarrow> waits_of acts = [])"
proof (induction "rl_max_retries pol - n" arbitrary: n acts rule: less_induct)
  case less
  from less.prems(1) show ?case
  proof (cases rule: retry_loop_cases)
    case settled
    have "length (attempts_of acts) = m - n" using less.prems(2) by simp
    with less.prems(3) settled have "m = Suc n" by simp
    with settled show ?thesis by simp
  next
    case (woken d code)
    then show ?thesis by (auto simp: retry_progress_def scheduled_event_def)
  next
    case (again d code acts')
    then have "rl_max_retries pol - Suc n < rl_max_retries pol - n" by (auto simp: goes_on_def)
    moreover have "attempts_of acts' = [Suc n..<m]" "Suc n \<le> m" using less.prems(2) again(3) by (auto simp: Cons_eq_upt)
    ultimately obtain opens where "emitted_of acts' = opens @ (if settles pol res \<and> 1 < m then [ln_finished nm (m - 1) (end_error res)] else [])"
      "list_all (retry_progress nm) opens" using less.hyps[OF _ again(2)] by blast
    moreover have "retry_progress nm (scheduled_event pol nm n d code)" "retry_progress nm (ln_started nm (Suc n))"
      by (auto simp: retry_progress_def scheduled_event_def)
    ultimately show ?thesis using again(3)
      by (intro exI[of _ "scheduled_event pol nm n d code # ln_started nm (Suc n) # opens"]) simp
  qed simp_all
qed

end
