(* ===== verification/Retry_Events.thy ===== *)
theory Retry_Events
  imports Retry_Loop Jsonl_Store
begin

text \<open>
  The durable trace of retries (\<open>retry/events.py\<close>): records are redacted and appended to a JSONL file,
  a restart groups them into chains by \<open>retryId\<close>, and the recovery manager hands every chain without a closing event to a
  handler of the host. The file is its text (\<open>None\<close> while it does not exist); the handler is a parameter.
\<close>

section \<open>Redaction\<close>

definition terminal_events :: "string set" where
  "terminal_events = {''model_retry_finished'', ''tool_retry_finished'', ''task_retry_finished'', ''retry_recovery_finished''}"

definition sensitive_keys :: "string set" where
  "sensitive_keys = {''api_key'', ''apikey'', ''authorization'', ''password'', ''token'', ''cookie'', ''idempotency_key''}"

definition shorten :: "string \<Rightarrow> string" where
  "shorten s = (if py_len s > 500 then py_take 500 s @ ''<truncated>'' else s)"

fun sanitize :: "unicode \<Rightarrow> string \<Rightarrow> json \<Rightarrow> json" where
  "sanitize U key (JObj d) = (if casefold_text U key \<in> sensitive_keys then JStr ''<redacted>''
     else JObj (map (\<lambda>(k, v). (k, sanitize U k v)) d))"
| "sanitize U key (JList xs) = (if casefold_text U key \<in> sensitive_keys then JStr ''<redacted>''
     else JList (map (sanitize U []) xs))"
| "sanitize U key (JStr s) = (if casefold_text U key \<in> sensitive_keys then JStr ''<redacted>'' else JStr (shorten s))"
| "sanitize U key v = (if casefold_text U key \<in> sensitive_keys then JStr ''<redacted>'' else v)"

section \<open>The store\<close>

type_synonym retry_file = "string option"

datatype retry_fault = BadRetryLine | RetryLineNotObject | HandlerFailed string

definition retry_record :: "unicode \<Rightarrow> int \<Rightarrow> jdict \<Rightarrow> jdict" where
  "retry_record U now event =
     (let d = (case sanitize U [] (JObj event) of JObj d \<Rightarrow> d | _ \<Rightarrow> []) in
      if ''timestamp'' \<in> set (dkeys d) then d else d @ [(''timestamp'', JInt now)])"

definition append_retry :: "host \<Rightarrow> unicode \<Rightarrow> int \<Rightarrow> jdict \<Rightarrow> retry_file \<Rightarrow> retry_file" where
  "append_retry H U now event file =
     Some ((case file of None \<Rightarrow> [] | Some t \<Rightarrow> t) @ json_dumps H False (JObj (retry_record U now event)) @ [CHR 0x0A])"

definition load_retry_line :: "host \<Rightarrow> string \<Rightarrow> jdict list \<Rightarrow> (retry_fault, jdict list) result" where
  "load_retry_line H line records =
     (if py_strip line = [] then Inr records
      else case json_loads H line of
        None \<Rightarrow> Inl (Raised BadRetryLine)
      | Some (JObj d) \<Rightarrow> Inr (records @ [d])
      | Some _ \<Rightarrow> Inl (Raised RetryLineNotObject))"

definition load_retries :: "host \<Rightarrow> retry_file \<Rightarrow> (retry_fault, jdict list) result" where
  "load_retries H file = (case file of None \<Rightarrow> Inr [] | Some t \<Rightarrow> foldE (load_retry_line H) (py_splitlines t) [])"

section \<open>Chains\<close>

record retry_chain =
  rc_retry_id :: string
  rc_kind :: string
  rc_logical_id :: "string option"
  rc_last_event :: string
  rc_attempt :: int
  rc_events :: "jdict list"

definition kind_from_event :: "string \<Rightarrow> string" where
  "kind_from_event t = (if has_prefix ''model_'' t then ''model'' else if has_prefix ''tool_'' t then ''tool''
     else if has_prefix ''task_'' t then ''task'' else ''unknown'')"

definition text_member :: "jdict \<Rightarrow> string \<Rightarrow> string option" where
  "text_member event k = (case jget event k of JStr s \<Rightarrow> if s = [] then None else Some s | _ \<Rightarrow> None)"

definition logical_id :: "jdict \<Rightarrow> string option" where
  "logical_id event = (case filter (\<lambda>x. x \<noteq> None) (map (text_member event) [''logicalId'', ''toolCallId'', ''taskId'', ''turnId'']) of
     [] \<Rightarrow> None | x # _ \<Rightarrow> x)"

definition group_event :: "jdict \<Rightarrow> (string, jdict list) dict \<Rightarrow> (string, jdict list) dict" where
  "group_event event grouped = (case text_member event ''retryId'' of
     None \<Rightarrow> grouped
   | Some i \<Rightarrow> dset grouped i ((case map_of grouped i of None \<Rightarrow> [] | Some es \<Rightarrow> es) @ [event]))"

definition chain_step :: "host \<Rightarrow> string \<times> jdict list \<Rightarrow> retry_chain list \<Rightarrow> (retry_fault, retry_chain list) result" where
  "chain_step H p found =
     (let retry_id = fst p; events = snd p; lst = last events; last_type = py_str H (jget_or lst ''type'' (JStr '''')) in
      if last_type \<in> terminal_events then Inr found
      else bindE (py_int (jget_or lst ''attempt'' (JInt 0))) (\<lambda>attempt.
        Inr (found @ [\<lparr>rc_retry_id = retry_id, rc_kind = py_str H (jget_or lst ''kind'' (JStr (kind_from_event last_type))),
          rc_logical_id = logical_id lst, rc_last_event = last_type, rc_attempt = attempt, rc_events = events\<rparr>])))"

definition chains_of :: "host \<Rightarrow> jdict list \<Rightarrow> (retry_fault, retry_chain list) result" where
  "chains_of H events = foldE (chain_step H) (fold group_event events []) []"

definition incomplete_chains :: "host \<Rightarrow> retry_file \<Rightarrow> (retry_fault, retry_chain list) result" where
  "incomplete_chains H file = bindE (load_retries H file) (chains_of H)"

section \<open>Recovery\<close>

definition recovery_event :: "string \<Rightarrow> retry_chain \<Rightarrow> jdict" where
  "recovery_event ty chain = [(''type'', JStr ty), (''kind'', JStr (rc_kind chain)), (''retryId'', JStr (rc_retry_id chain)),
     (''logicalId'', case rc_logical_id chain of None \<Rightarrow> JNull | Some s \<Rightarrow> JStr s), (''attempt'', JInt (rc_attempt chain))]"

fun recover_chains :: "host \<Rightarrow> unicode \<Rightarrow> (nat \<Rightarrow> int) \<Rightarrow> (retry_chain \<Rightarrow> string + bool) \<Rightarrow> retry_chain list \<Rightarrow> nat \<Rightarrow> retry_file
    \<Rightarrow> (retry_fault, unit) result \<times> retry_file" where
  "recover_chains H U clock handler [] n file = (Inr (), file)"
| "recover_chains H U clock handler (chain # found) n file =
     (let file = append_retry H U (clock n) (recovery_event ''retry_recovery_started'' chain) file in
      case handler chain of
        Inl e \<Rightarrow> (Inl (Raised (HandlerFailed e)), file)
      | Inr success \<Rightarrow> recover_chains H U clock handler found (n + 2)
          (append_retry H U (clock (n + 1)) (recovery_event ''retry_recovery_finished'' chain @ [(''success'', JBool success)]) file))"

definition recover_retries :: "host \<Rightarrow> unicode \<Rightarrow> (nat \<Rightarrow> int) \<Rightarrow> (retry_chain \<Rightarrow> string + bool) \<Rightarrow> retry_file
    \<Rightarrow> (retry_fault, retry_chain list) result \<times> retry_file" where
  "recover_retries H U clock handler file =
     (case incomplete_chains H file of
        Inl e \<Rightarrow> (Inl e, file)
      | Inr found \<Rightarrow> (case recover_chains H U clock handler found 0 file of
          (Inl e, file) \<Rightarrow> (Inl e, file)
        | (Inr _, file) \<Rightarrow> (Inr found, file)))"

section \<open>Nothing secret is stored\<close>

text \<open>A stored value: members with a sensitive name hold the marker, and no text is longer than the limit with its marker.\<close>

fun redacted :: "unicode \<Rightarrow> json \<Rightarrow> bool" where
  "redacted U (JObj d) = list_all (\<lambda>(k, v). (casefold_text U k \<in> sensitive_keys \<longrightarrow> v = JStr ''<redacted>'') \<and> redacted U v) d"
| "redacted U (JList xs) = list_all (redacted U) xs"
| "redacted U (JStr s) = (py_len s \<le> 511)"
| "redacted U v = True"

lemma casefold_Nil [simp]: "casefold_text U [] = []"
  by (simp add: casefold_text_def)

lemma not_sensitive_Nil [simp]: "[] \<notin> sensitive_keys"
  by (simp add: sensitive_keys_def)

lemma marker_head: "''<truncated>'' = CHR ''<'' # ''truncated>''" "\<not> continuation (CHR ''<'')"
  by (simp_all add: continuation_def)

lemma marker_len: "py_len ''<truncated>'' = 11" "py_len ''<redacted>'' = 10"
  by (simp_all add: py_len_def continuation_def)

lemma code_points_shorten:
  "code_points (shorten s) = (if py_len s > 500 then take 500 (code_points s) @ code_points ''<truncated>'' else code_points s)"
  using code_points_append[OF marker_head(2), of "py_take 500 s" "''truncated>''"]
  by (simp add: shorten_def del: code_points.simps)

lemma shorten_len: "py_len (shorten s) \<le> 511"
  using marker_len(1) unfolding py_len_def code_points_shorten by (simp add: py_len_def del: code_points.simps)

lemma shorten_idem [simp]: "shorten (shorten s) = shorten s"
proof (cases "py_len s > 500")
  case True
  then have l: "length (take 500 (code_points s)) = 500" by (simp add: py_len_def)
  have "py_len (shorten s) > 500" "py_take 500 (shorten s) = py_take 500 s"
    using True marker_len(1) l by (simp_all add: py_len_def py_take_def code_points_shorten del: code_points.simps)
  then show ?thesis using True by (simp add: shorten_def[of "shorten s"]) (simp add: shorten_def)
qed (simp add: shorten_def)

lemma shorten_short: "py_len s \<le> 500 \<Longrightarrow> shorten s = s"
  by (simp add: shorten_def)

lemma sanitize_sensitive: "casefold_text U key \<in> sensitive_keys \<Longrightarrow> sanitize U key v = JStr ''<redacted>''"
  by (cases v) simp_all

lemma sanitize_idem [simp]: "sanitize U key (sanitize U key v) = sanitize U key v"
proof (cases "casefold_text U key \<in> sensitive_keys")
  case True
  then show ?thesis by (simp add: sanitize_sensitive)
next
  case False
  then show ?thesis
  proof (induction U key v rule: sanitize.induct)
    case (1 U key d)
    have "sanitize U k (sanitize U k v) = sanitize U k v" if "(k, v) \<in> set d" for k v
      using "1.IH"[OF "1.prems" that refl] by (cases "casefold_text U k \<in> sensitive_keys") (simp_all add: sanitize_sensitive)
    with "1.prems" show ?case by auto
  next
    case (2 U key xs)
    then show ?case by auto
  qed auto
qed

lemma redacted_sanitize: "redacted U (sanitize U key v)"
proof (induction U key v rule: sanitize.induct)
  case (1 U key d)
  show ?case
  proof (cases "casefold_text U key \<in> sensitive_keys")
    case False
    then have "redacted U (sanitize U k v)" if "(k, v) \<in> set d" for k v using 1 that by blast
    with False show ?thesis by (auto simp: list_all_iff sanitize_sensitive)
  qed (simp add: marker_len)
next
  case (2 U key xs)
  then show ?case by (auto simp: list_all_iff marker_len)
next
  case (3 U key s)
  then show ?case by (simp add: shorten_len marker_len)
qed (auto simp: marker_len)

end
