(* ===== verification/Retry_Guarantees.thy ===== *)
theory Retry_Guarantees
  imports Retry_Events
begin

text \<open>
  Guarantees of the retry loops and of their durable trace: attempts and waits are bounded and only declared failures are
  repeated; a file of records is read back as it was written; the chain of a task is left open in the store exactly when
  the run ended without settling; and recovery closes every chain it finds.
\<close>

section \<open>Bounded repetition\<close>

definition within_limits :: "'r retry_world \<Rightarrow> code_retry_policy \<Rightarrow> nat \<Rightarrow> rat \<Rightarrow> bool" where
  "within_limits W pol i d \<longleftrightarrow> 0 \<le> d \<and> d \<le> rl_max_delay pol \<and> rw_elapsed W i + d \<le> rl_max_elapsed pol"

lemma goes_on_within: "goes_on W pol k d \<Longrightarrow> limits_ok pol \<Longrightarrow> within_limits W pol k d"
  by (auto simp: goes_on_def within_limits_def dest: retry_delay_bounds)

lemma loop_run_bounded:
  assumes "loop_run W pol retry_id 0 acts res m" "limits_ok pol"
  shows "m \<le> rl_max_retries pol + 1 \<and> attempts_of acts = [0..<m] \<and> end_agrees W pol retry_id m res \<and>
    (\<forall>k. Suc k < m \<longrightarrow> (\<exists>code after. rw_execute W k = RetryableFailure code after \<and> code \<in> set (cp_retryable_codes pol))) \<and>
    (\<forall>i < length (waits_of acts). within_limits W pol i (waits_of acts ! i))"
proof -
  let ?w = "waits_of acts"
  have r: "attempts_of acts = [0..<m]" "end_agrees W pol retry_id m res" "m \<le> length ?w + 1"
    "\<And>i. i < length ?w \<Longrightarrow> goes_on W pol i (?w ! i)" using assms(1) by (auto simp: loop_run_def)
  have "length ?w \<le> rl_max_retries pol"
    using r(4)[of "length ?w - 1"] by (cases "?w = []") (auto simp: goes_on_def)
  moreover have "\<exists>code after. rw_execute W k = RetryableFailure code after \<and> code \<in> set (cp_retryable_codes pol)" if "Suc k < m" for k
    using r(4)[of k] r(3) that by (auto simp: goes_on_def)
  ultimately show ?thesis using r goes_on_within[OF r(4) assms(2)] by auto
qed

text \<open>
  C18: a tool call is executed at most \<open>max_retries + 1\<close> times, one execution after the other; every execution but the last failed
  with an error code the policy declares retryable, the policy is one for an idempotent tool, and what the caller gets is the outcome of the last
  execution; every wait is between zero and the maximal delay and ends within the time allowed.
\<close>

theorem tool_retries_disciplined:
  assumes "tool_retry_policy_init retries codes idempotent a b j e = (Inr pol :: (unit, code_retry_policy) result)"
    and "execute_tool_with_retry W (Some pol) retry_id tool_call_id tool_name = (acts, res)"
  shows "idempotent \<and> (\<exists>m \<le> rl_max_retries pol + 1. attempts_of acts = [0..<m] \<and> end_agrees W pol retry_id m res \<and>
    (\<forall>k. Suc k < m \<longrightarrow> (\<exists>code after. rw_execute W k = RetryableFailure code after \<and> code \<in> set codes)) \<and>
    (\<forall>i < length (waits_of acts). within_limits W pol i (waits_of acts ! i)))"
proof -
  have ok: "limits_ok pol" "idempotent" "cp_retryable_codes pol = codes" using tool_policy_ok[OF assms(1)] by simp_all
  from assms(2) obtain m where "loop_run W pol retry_id 0 acts res m"
    using retry_loop_run unfolding execute_tool_with_retry_def by fastforce
  from loop_run_bounded[OF this ok(1)] ok show ?thesis by auto
qed

definition flaky_world :: "nat retry_world" where
  "flaky_world = \<lparr>rw_execute = (\<lambda>n. if n < 2 then RetryableFailure ''busy'' None else Completed n), rw_cancelled = (\<lambda>_. False),
     rw_sample = (\<lambda>_. 1 / 2), rw_elapsed = (\<lambda>n. of_nat n), rw_sleep_cancelled = (\<lambda>_. False)\<rparr>"

definition flaky_policy :: code_retry_policy where
  "flaky_policy = \<lparr>rl_max_retries = 3, rl_initial_delay = 1, rl_max_delay = 4, rl_jitter = 1 / 5, rl_max_elapsed = 30, cp_retryable_codes = [''busy'']\<rparr>"

lemma flaky_run:
  "tool_retry_policy_init (JInt 3) [''busy''] True (FFin 1) (FFin 4) (FFin (1 / 5)) (FFin 30) = (Inr flaky_policy :: (unit, code_retry_policy) result)"
  "waits_of (fst (execute_tool_with_retry flaky_world (Some flaky_policy) ''r'' ''c'' ''t'')) = [1, 2]"
  "snd (execute_tool_with_retry flaky_world (Some flaky_policy) ''r'' ''c'' ''t'') = LoopReturned 2"
  by code_simp+

theorem tool_retries_disciplined_witness:
  "\<exists>m \<le> 4. attempts_of (fst (execute_tool_with_retry flaky_world (Some flaky_policy) ''r'' ''c'' ''t'')) = [0..<m] \<and>
     end_agrees flaky_world flaky_policy ''r'' m (LoopReturned 2)"
proof -
  obtain acts where run: "execute_tool_with_retry flaky_world (Some flaky_policy) ''r'' ''c'' ''t'' = (acts, LoopReturned 2)"
    using flaky_run(3) by (metis prod.collapse)
  have "rl_max_retries flaky_policy + 1 = 4" by (simp add: flaky_policy_def)
  with tool_retries_disciplined[OF flaky_run(1) run] show ?thesis by (auto simp: run)
qed

section \<open>Files of records\<close>

definition record_line :: "host \<Rightarrow> jdict \<Rightarrow> string" where
  "record_line H r = json_dumps H False (JObj r)"

definition holds :: "host \<Rightarrow> retry_file \<Rightarrow> jdict list \<Rightarrow> bool" where
  "holds H fl rs \<longleftrightarrow> list_all clean_data rs \<and>
     (case fl of None \<Rightarrow> rs = [] | Some t \<Rightarrow> t = concat (map (\<lambda>r. record_line H r @ [CHR 0x0A]) rs))"

lemma load_record_line: "clean_data r \<Longrightarrow> load_retry_line H (record_line H r) rs = Inr (rs @ [r])"
proof -
  assume c: "clean_data r"
  then have "json_loads H (record_line H r) = Some (JObj r)"
    unfolding record_line_def clean_data_def by (intro json_loads_dumps) simp_all
  moreover have "\<not> list_all py_space (record_line H r)" by (simp add: record_line_def py_space_def)
  ultimately show ?thesis by (simp add: load_retry_line_def py_strip_eq_Nil)
qed

lemma holds_lines: "list_all clean_data rs \<Longrightarrow>
    py_splitlines (concat (map (\<lambda>r. record_line H r @ [CHR 0x0A]) rs)) = map (record_line H) rs"
proof (induction rs)
  case Nil
  then show ?case by (simp add: py_splitlines.simps)
next
  case (Cons r rs)
  then have "unbroken (record_line H r)" unfolding record_line_def clean_data_def by (intro unbroken_dumps) simp_all
  with Cons show ?case by (simp add: splitlines_newline)
qed

lemma load_record_lines: "list_all clean_data rs \<Longrightarrow> foldE (load_retry_line H) (map (record_line H) rs) acc = Inr (acc @ rs)"
  by (induction rs arbitrary: acc) (simp_all add: load_record_line)

lemma holds_load: "holds H fl rs \<Longrightarrow> load_retries H fl = Inr rs"
  by (cases fl) (auto simp: holds_def load_retries_def holds_lines load_record_lines)

lemma holds_append: "holds H fl rs \<Longrightarrow> clean_data (retry_record U now e) \<Longrightarrow> holds H (append_retry H U now e fl) (rs @ [retry_record U now e])"
  by (cases fl) (auto simp: holds_def append_retry_def record_line_def)

text \<open>Redaction keeps what makes a value storable.\<close>

lemma sanitize_float_free: "float_free v \<Longrightarrow> float_free (sanitize U key v)"
  by (induction U key v rule: sanitize.induct) (auto simp: list_all_iff)

lemma sanitize_wf: "wf_json v \<Longrightarrow> wf_json (sanitize U key v)"
proof (induction U key v rule: sanitize.induct)
  case (1 U key d)
  have "map fst (map (\<lambda>(k, v). (k, sanitize U k v)) d) = map fst d" by auto
  with 1 show ?case by (auto simp: list_all_iff simp del: map_map)
qed (auto simp: list_all_iff)

lemma safe_text_append: "safe_text (a @ b) \<Longrightarrow> safe_text a"
proof (induction a)
  case (Cons c a)
  have "\<not> unicode_break (c # a)" using Cons.prems by (auto simp: unicode_break_def take_Cons' split: if_splits)
  with Cons show ?case by simp
qed simp

lemma safe_text_plain:
  assumes "safe_text a" "plain_char c" "safe_text (c # b)"
  shows "safe_text (a @ c # b)"
  using assms(1)
proof (induction a)
  case (Cons d a)
  have "\<not> unicode_break (d # a @ c # b)"
    using Cons.prems assms(2)
    by (cases a; cases "tl a") (auto simp: unicode_break_def plain_char_def)
  with Cons show ?case by simp
qed (use assms(3) in simp)

lemma safe_shorten: "safe_text s \<Longrightarrow> safe_text (shorten s)"
proof -
  assume s: "safe_text s"
  obtain t where "s = py_take 500 s @ t" using py_take_prefix by blast
  with s have "safe_text (py_take 500 s)" by (metis safe_text_append)
  moreover have "plain_char (CHR ''<'')" "safe_text ''<truncated>''" by (simp_all add: plain_char_def unicode_break_def)
  ultimately have "safe_text (py_take 500 s @ ''<truncated>'')" by (rule safe_text_plain)
  with s show ?thesis by (simp only: shorten_def split: if_splits) simp
qed

lemma sanitize_safe: "safe_json v \<Longrightarrow> safe_json (sanitize U key v)"
  by (induction U key v rule: sanitize.induct) (auto simp: list_all_iff safe_shorten unicode_break_def)

lemma clean_retry_record:
  assumes "clean_data e"
  shows "clean_data (retry_record U now e)"
proof -
  obtain d where d: "sanitize U [] (JObj e) = JObj d" by simp
  then have "clean_data d" using assms sanitize_float_free[of "JObj e" U "[]"] sanitize_wf[of "JObj e" U "[]"] sanitize_safe[of "JObj e" U "[]"]
    unfolding clean_data_def by simp
  then show ?thesis using d by (auto simp: retry_record_def clean_data_def unicode_break_def)
qed

section \<open>Chains\<close>

definition of_chain :: "string \<Rightarrow> jdict list \<Rightarrow> jdict list" where
  "of_chain i es = filter (\<lambda>e. text_member e ''retryId'' = Some i) es"

lemma of_chain_append [simp]: "of_chain i (a @ b) = of_chain i a @ of_chain i b"
  by (simp add: of_chain_def)

lemma group_lookup: "map_of (fold group_event es []) i = (if of_chain i es = [] then None else Some (of_chain i es))"
proof (induction es rule: rev_induct)
  case (snoc e es)
  then show ?case by (auto simp: group_event_def of_chain_def split: option.splits)
qed (simp add: of_chain_def)

lemma group_wf: "wf_dict (fold group_event es [])"
proof (induction es rule: rev_induct)
  case (snoc e es)
  then show ?case by (auto simp: group_event_def split: option.splits)
qed simp

lemma group_members: "(i, g) \<in> set (fold group_event es []) \<longleftrightarrow> of_chain i es \<noteq> [] \<and> g = of_chain i es"
  using ditems_iff[OF group_wf, of i g es] by (auto simp: group_lookup)

definition event_type :: "host \<Rightarrow> jdict \<Rightarrow> string" where
  "event_type H e = py_str H (jget_or e ''type'' (JStr ''''))"

lemma chain_steps_ids:
  assumes "foldE (chain_step H) gs acc = Inr cs"
  shows "set (map rc_retry_id cs) = set (map rc_retry_id acc) \<union> {i. \<exists>g. (i, g) \<in> set gs \<and> event_type H (last g) \<notin> terminal_events}"
  using assms
proof (induction gs arbitrary: acc)
  case (Cons p gs)
  obtain i g where p: "p = (i, g)" by force
  from Cons.prems obtain acc' where step: "chain_step H p acc = Inr acc'" and rest: "foldE (chain_step H) gs acc' = Inr cs"
    by (auto simp: exc_simps)
  have "set (map rc_retry_id acc') = set (map rc_retry_id acc) \<union> (if event_type H (last g) \<notin> terminal_events then {i} else {})"
    using step p by (auto simp: chain_step_def event_type_def Let_def exc_simps split: if_splits)
  then show ?case using Cons.IH[OF rest] p by auto
qed simp

lemma chains_of_ids:
  assumes "chains_of H es = Inr cs"
  shows "i \<in> set (map rc_retry_id cs) \<longleftrightarrow> of_chain i es \<noteq> [] \<and> event_type H (last (of_chain i es)) \<notin> terminal_events"
  using chain_steps_ids[OF assms[unfolded chains_of_def]] by (simp add: group_members)

lemma chain_steps_closed: "\<forall>p \<in> set gs. event_type H (last (snd p)) \<in> terminal_events \<Longrightarrow> foldE (chain_step H) gs acc = Inr acc"
  by (induction gs) (auto simp: chain_step_def event_type_def Let_def)

lemma chains_closed:
  assumes "\<And>i. of_chain i es \<noteq> [] \<Longrightarrow> event_type H (last (of_chain i es)) \<in> terminal_events"
  shows "chains_of H es = Inr []"
  unfolding chains_of_def by (rule chain_steps_closed) (use assms in \<open>auto simp: group_members\<close>)

text \<open>What a chain remembers comes from its last record.\<close>

definition chain_record :: "host \<Rightarrow> retry_chain \<Rightarrow> jdict \<Rightarrow> bool" where
  "chain_record H c e \<longleftrightarrow> rc_kind c = py_str H (jget_or e ''kind'' (JStr (kind_from_event (event_type H e)))) \<and>
     rc_logical_id c = logical_id e"

lemma chain_steps_record:
  assumes "c \<in> set cs"
  shows "foldE (chain_step H) gs acc = Inr cs \<Longrightarrow>
    c \<in> set acc \<or> (\<exists>i g. (i, g) \<in> set gs \<and> rc_retry_id c = i \<and> chain_record H c (last g))"
proof (induction gs arbitrary: acc)
  case Nil
  then show ?case using assms by simp
next
  case (Cons p gs)
  from Cons.prems(1) obtain acc' where step: "chain_step H p acc = Inr acc'" and rest: "foldE (chain_step H) gs acc' = Inr cs"
    by (auto simp: exc_simps)
  have "c \<in> set acc \<or> rc_retry_id c = fst p \<and> chain_record H c (last (snd p))" if "c \<in> set acc'"
    using step that by (auto simp: chain_step_def event_type_def chain_record_def Let_def exc_simps split: if_splits)
  with Cons.IH[OF rest] show ?case by (cases p) auto
qed

lemma chains_of_member:
  assumes "chains_of H es = Inr cs" "c \<in> set cs"
  obtains e where "e \<in> set es" "text_member e ''retryId'' = Some (rc_retry_id c)" "chain_record H c e"
proof -
  let ?g = "of_chain (rc_retry_id c) es"
  have "?g \<noteq> []" "chain_record H c (last ?g)"
    using chain_steps_record[OF assms(2) assms(1)[unfolded chains_of_def]] by (auto simp: group_members)
  moreover from this(1) have "last ?g \<in> set ?g" by simp
  ultimately show thesis by (intro that[of "last ?g"]) (auto simp: of_chain_def)
qed

section \<open>Records of the package\<close>

text \<open>The Unicode tables fold an ASCII character to its lower case.\<close>

definition ascii_lower :: "char \<Rightarrow> char" where
  "ascii_lower c = (let n = of_char c :: nat in if 65 \<le> n \<and> n \<le> 90 then char_of (n + 32) else c)"

definition ascii_folding :: "unicode \<Rightarrow> bool" where
  "ascii_folding U \<longleftrightarrow> (\<forall>c. of_char c < (128 :: nat) \<longrightarrow> fold_char U [c] = [ascii_lower c])"

lemma ascii_code_points: "list_all (\<lambda>c. of_char c < (128 :: nat)) s \<Longrightarrow> code_points s = map (\<lambda>c. [c]) s"
proof (induction s)
  case (Cons c s)
  have "takeWhile continuation s = []" "dropWhile continuation s = s"
    using Cons.prems by (cases s; simp add: continuation_def)+
  with Cons show ?case by simp
qed simp

lemma ascii_casefold:
  assumes "ascii_folding U" "list_all (\<lambda>c. of_char c < (128 :: nat)) s"
  shows "casefold_text U s = map ascii_lower s"
  using assms(2) unfolding casefold_text_def ascii_code_points[OF assms(2)]
  by (induction s) (use assms(1) in \<open>auto simp: ascii_folding_def\<close>)

lemma plain_keys:
  assumes "ascii_folding U"
  shows "casefold_text U ''retryId'' \<notin> sensitive_keys" "casefold_text U ''type'' \<notin> sensitive_keys"
    "casefold_text U ''kind'' \<notin> sensitive_keys" "casefold_text U ''attempt'' \<notin> sensitive_keys"
  using assms by (simp_all add: ascii_casefold ascii_lower_def sensitive_keys_def)

lemma map_of_sanitized: "map_of (map (\<lambda>(k, v). (k, sanitize U k v)) d) k = map_option (sanitize U k) (map_of d k)"
  by (induction d) auto

lemma record_lookup:
  "k \<noteq> ''timestamp'' \<Longrightarrow> map_of (retry_record U now e) k = map_option (sanitize U k) (map_of e k)"
  by (simp add: retry_record_def Let_def map_of_sanitized map_add_def split: option.splits)

lemma record_text:
  assumes "map_of e k = Some (JStr s)" "casefold_text U k \<notin> sensitive_keys" "k \<noteq> ''timestamp''"
  shows "map_of (retry_record U now e) k = Some (JStr (shorten s))"
  using assms by (simp add: record_lookup)

lemma record_retry_id:
  assumes "ascii_folding U" "map_of e ''retryId'' = Some (JStr i)" "i \<noteq> []" "shorten i = i"
  shows "text_member (retry_record U now e) ''retryId'' = Some i"
  using record_text[OF assms(2) plain_keys(1)[OF assms(1)], of now] assms(3,4) by (simp add: text_member_def jget_def)

lemma record_type:
  assumes "ascii_folding U" "map_of e ''type'' = Some (JStr ty)" "py_len ty \<le> 500"
  shows "event_type H (retry_record U now e) = ty"
  using record_text[OF assms(2) plain_keys(2)[OF assms(1)], of now] assms(3)
  by (simp add: event_type_def jget_or_def shorten_short)

lemma chain_steps_total:
  "\<forall>p \<in> set gs. \<exists>i. jget_or (last (snd p)) ''attempt'' (JInt 0) = JInt i \<Longrightarrow> \<exists>cs. foldE (chain_step H) gs acc = Inr cs"
proof (induction gs arbitrary: acc)
  case (Cons p gs)
  then obtain i where "jget_or (last (snd p)) ''attempt'' (JInt 0) = JInt i" by auto
  then have "\<exists>acc'. chain_step H p acc = Inr acc'"
    by (cases "event_type H (last (snd p)) \<in> terminal_events") (simp_all add: chain_step_def event_type_def Let_def)
  then obtain acc' where "chain_step H p acc = Inr acc'" by blast
  with Cons show ?case by simp
qed simp

lemma chains_of_total:
  assumes "\<And>e. e \<in> set es \<Longrightarrow> \<exists>i. jget_or e ''attempt'' (JInt 0) = JInt i"
  shows "\<exists>cs. chains_of H es = Inr cs"
  unfolding chains_of_def
proof (rule chain_steps_total, rule ballI)
  fix p
  assume "p \<in> set (fold group_event es [])"
  then have g: "of_chain (fst p) es \<noteq> []" "snd p = of_chain (fst p) es" using group_members[of "fst p" "snd p" es] by simp_all
  have "last (snd p) \<in> set (of_chain (fst p) es)" unfolding g(2) using g(1) by (rule last_in_set)
  then have "last (snd p) \<in> set es" by (simp add: of_chain_def)
  then show "\<exists>i. jget_or (last (snd p)) ''attempt'' (JInt 0) = JInt i" by (rule assms)
qed

section \<open>The chain of a task\<close>

fun append_all :: "host \<Rightarrow> unicode \<Rightarrow> (nat \<Rightarrow> int) \<Rightarrow> nat \<Rightarrow> jdict list \<Rightarrow> retry_file \<Rightarrow> retry_file" where
  "append_all H U clock n [] fl = fl"
| "append_all H U clock n (e # es) fl = append_all H U clock (Suc n) es (append_retry H U (clock n) e fl)"

fun records_of :: "unicode \<Rightarrow> (nat \<Rightarrow> int) \<Rightarrow> nat \<Rightarrow> jdict list \<Rightarrow> jdict list" where
  "records_of U clock n [] = []"
| "records_of U clock n (e # es) = retry_record U (clock n) e # records_of U clock (Suc n) es"

lemma append_all_holds:
  "holds H fl rs \<Longrightarrow> list_all clean_data es \<Longrightarrow> holds H (append_all H U clock n es fl) (rs @ records_of U clock n es)"
proof (induction es arbitrary: n fl rs)
  case (Cons e es)
  then have "holds H (append_retry H U (clock n) e fl) (rs @ [retry_record U (clock n) e])"
    by (intro holds_append clean_retry_record) simp_all
  from Cons.IH[OF this, of "Suc n"] Cons.prems(2) show ?case by simp
qed simp

lemma records_member: "r \<in> set (records_of U clock n es) \<Longrightarrow> \<exists>now e. e \<in> set es \<and> r = retry_record U now e"
  by (induction es arbitrary: n) (simp, force)

lemma records_last: "es \<noteq> [] \<Longrightarrow> \<exists>now. last (records_of U clock n es) = retry_record U now (last es)"
  by (induction es arbitrary: n rule: induct_list012) auto

definition task_event :: "string \<Rightarrow> jdict \<Rightarrow> bool" where
  "task_event retry_id e \<longleftrightarrow> map_of e ''retryId'' = Some (JStr retry_id) \<and> (\<exists>n. map_of e ''attempt'' = Some (JInt n))"

lemma task_events:
  "retry_progress (task_naming retry_id task_id) e \<Longrightarrow> task_event retry_id e \<and>
     (map_of e ''type'' = Some (JStr ''task_retry_scheduled'') \<or> map_of e ''type'' = Some (JStr ''task_retry_attempt_start''))"
  "task_event retry_id (ln_finished (task_naming retry_id task_id) n x)"
  "map_of (ln_finished (task_naming retry_id task_id) n x) ''type'' = Some (JStr ''task_retry_finished'')"
  by (auto simp: retry_progress_def task_naming_def task_event_def)

lemma type_lengths: "py_len ''task_retry_scheduled'' \<le> 500" "py_len ''task_retry_attempt_start'' \<le> 500" "py_len ''task_retry_finished'' \<le> 500"
  "py_len ''retry_recovery_started'' \<le> 500" "py_len ''retry_recovery_finished'' \<le> 500"
  by (simp_all add: py_len_def continuation_def)

lemma task_records:
  assumes U: "ascii_folding U" "retry_id \<noteq> []" "shorten retry_id = retry_id" and es: "\<And>e. e \<in> set es \<Longrightarrow> task_event retry_id e"
  shows "of_chain i (records_of U clock n es) = (if i = retry_id then records_of U clock n es else [])"
    and "\<exists>cs. chains_of H (records_of U clock n es) = Inr cs"
proof -
  have r: "text_member r ''retryId'' = Some retry_id \<and> (\<exists>k. jget_or r ''attempt'' (JInt 0) = JInt k)"
    if "r \<in> set (records_of U clock n es)" for r
  proof -
    from records_member[OF that] obtain now e where e: "e \<in> set es" "r = retry_record U now e" by blast
    then have t: "task_event retry_id e" using es by blast
    then obtain k where "map_of e ''attempt'' = Some (JInt k)" by (auto simp: task_event_def)
    then have "map_of r ''attempt'' = Some (JInt k)" using plain_keys(4)[OF U(1)] e(2) by (simp add: record_lookup)
    with t e(2) show ?thesis using record_retry_id[OF U(1) _ U(2,3)] by (auto simp: task_event_def jget_or_def)
  qed
  then show "of_chain i (records_of U clock n es) = (if i = retry_id then records_of U clock n es else [])"
    by (auto simp: of_chain_def filter_empty_conv intro!: filter_True)
  show "\<exists>cs. chains_of H (records_of U clock n es) = Inr cs" by (rule chains_of_total) (use r in blast)
qed

lemma task_run_events:
  assumes "execute_task W pol retry_id task_id = (acts, res)"
  obtains opens fin where "emitted_of acts = opens @ fin" "opens = [] \<longleftrightarrow> waits_of acts = []"
    "list_all (retry_progress (task_naming retry_id task_id)) opens"
    "fin = [] \<longleftrightarrow> waits_of acts = [] \<or> \<not> settles pol res" "\<And>e. e \<in> set fin \<Longrightarrow> \<exists>n x. e = ln_finished (task_naming retry_id task_id) n x"
proof -
  from assms have run: "retry_loop W pol (task_naming retry_id task_id) retry_id 0 = (acts, res)" by (simp add: execute_task_def)
  from retry_loop_run[OF run] obtain m where m: "loop_run W pol retry_id 0 acts res m" by blast
  moreover have "settles pol res \<Longrightarrow> res \<noteq> LoopCancelled" by auto
  ultimately have "attempts_of acts = [0..<m]" "settles pol res \<longrightarrow> m = length (waits_of acts) + 1"
    by (auto simp: loop_run_def)
  with retry_loop_events[OF run, of m] obtain opens where
    "emitted_of acts = opens @ (if settles pol res \<and> 1 < m then [ln_finished (task_naming retry_id task_id) (m - 1) (end_error res)] else [])"
    "list_all (retry_progress (task_naming retry_id task_id)) opens" "opens = [] \<longleftrightarrow> waits_of acts = []" by auto
  with \<open>settles pol res \<longrightarrow> m = length (waits_of acts) + 1\<close> show thesis
    by (intro that[of opens "if settles pol res \<and> 1 < m then [ln_finished (task_naming retry_id task_id) (m - 1) (end_error res)] else []"])
      (auto split: if_splits)
qed

text \<open>
  C37: what a restart finds of a task in the retry file: after a run that stored its events, the chain of the task is
  incomplete exactly when the run had retried and ended without a result and without a refused or exhausted failure. Giving up because the wait
  does not fit in the time allowed is such an end: the failure was raised to the caller, yet recovery takes the task up again.
\<close>

theorem task_chain_open_iff:
  assumes "ascii_folding U" and "retry_id \<noteq> []" and "py_len retry_id \<le> 500"
    and "execute_task W pol retry_id task_id = (acts, res)" and "list_all clean_data (emitted_of acts)"
  shows "\<exists>cs. incomplete_chains H (append_all H U clock 0 (emitted_of acts) None) = Inr cs \<and>
    (retry_id \<in> set (map rc_retry_id cs) \<longleftrightarrow> waits_of acts \<noteq> [] \<and> \<not> settles pol res)"
proof -
  let ?rs = "records_of U clock 0 (emitted_of acts)"
  from task_run_events[OF assms(4)] obtain opens fin where ev: "emitted_of acts = opens @ fin" "opens = [] \<longleftrightarrow> waits_of acts = []"
    "list_all (retry_progress (task_naming retry_id task_id)) opens" "fin = [] \<longleftrightarrow> waits_of acts = [] \<or> \<not> settles pol res"
    and fin: "\<And>e. e \<in> set fin \<Longrightarrow> \<exists>n x. e = ln_finished (task_naming retry_id task_id) n x" by metis
  have te: "task_event retry_id e" if "e \<in> set (emitted_of acts)" for e
  proof (cases "e \<in> set opens")
    case True
    with ev(3) show ?thesis using task_events(1) by (auto simp: list_all_iff)
  next
    case False
    with that ev(1) fin[of e] show ?thesis using task_events(2) by auto
  qed
  have sh: "shorten retry_id = retry_id" using assms(3) by (rule shorten_short)
  have recs: "of_chain i ?rs = (if i = retry_id then ?rs else [])" "\<exists>cs. chains_of H ?rs = Inr cs" for i
    by (rule task_records[OF assms(1,2) sh]; fact te)+
  have "holds H None []" by (simp add: holds_def)
  from append_all_holds[OF this assms(5), of U clock 0] have load: "load_retries H (append_all H U clock 0 (emitted_of acts) None) = Inr ?rs"
    using holds_load by fastforce
  obtain cs where cs: "chains_of H ?rs = Inr cs" using recs(2) by blast
  have last_type: "event_type H (last ?rs) \<in> terminal_events \<longleftrightarrow> settles pol res" if w: "waits_of acts \<noteq> []"
  proof -
    have ne: "emitted_of acts \<noteq> []" using ev(1,2) w by simp
    obtain now where l: "last ?rs = retry_record U now (last (emitted_of acts))" using records_last[OF ne] by blast
    show ?thesis
    proof (cases "fin = []")
      case True
      then have "last (emitted_of acts) \<in> set opens" using ev(1,2) w by simp
      with ev(3) have "event_type H (last ?rs) \<in> {''task_retry_scheduled'', ''task_retry_attempt_start''}"
        unfolding l using task_events(1) record_type[OF assms(1)] type_lengths by (fastforce simp: list_all_iff)
      with True ev(4) w show ?thesis by (auto simp: terminal_events_def)
    next
      case False
      then have "last (emitted_of acts) \<in> set fin" using ev(1) by simp
      with fin have "event_type H (last ?rs) = ''task_retry_finished''"
        unfolding l using task_events(3) record_type[OF assms(1)] type_lengths(3) by metis
      with False ev(4) w show ?thesis by (simp add: terminal_events_def)
    qed
  qed
  have "?rs = [] \<longleftrightarrow> emitted_of acts = []" by (cases "emitted_of acts") simp_all
  then have "?rs = [] \<longleftrightarrow> waits_of acts = []" using ev by auto
  with chains_of_ids[OF cs, of retry_id] recs(1)[of retry_id] last_type load cs show ?thesis
    by (intro exI[of _ cs]) (auto simp: incomplete_chains_def)
qed

definition ascii_unicode :: unicode where
  "ascii_unicode = \<lparr>fold_char = map ascii_lower, alnum_char = (\<lambda>_. True)\<rparr>"

text \<open>A task that is busy for ever, with room for one wait only.\<close>

definition busy_world :: "nat retry_world" where
  "busy_world = flaky_world\<lparr>rw_execute := (\<lambda>_. RetryableFailure ''busy'' None), rw_elapsed := (\<lambda>n. 20 * of_nat n)\<rparr>"

definition busy_policy :: code_retry_policy where
  "busy_policy = flaky_policy\<lparr>rl_max_elapsed := 10\<rparr>"

lemma busy_run:
  "snd (execute_task busy_world busy_policy ''r'' ''t'') = LoopRetryable ''busy'' 2 (Some ''r'')"
  "waits_of (fst (execute_task busy_world busy_policy ''r'' ''t'')) = [1]"
  "list_all clean_data (emitted_of (fst (execute_task busy_world busy_policy ''r'' ''t'')))"
  by code_simp+

theorem task_chain_open_iff_witness:
  "\<exists>cs. incomplete_chains log_host (append_all log_host ascii_unicode int 0
     (emitted_of (fst (execute_task busy_world busy_policy ''r'' ''t''))) None) = Inr cs \<and> ''r'' \<in> set (map rc_retry_id cs)"
proof -
  obtain acts where run: "execute_task busy_world busy_policy ''r'' ''t'' = (acts, LoopRetryable ''busy'' 2 (Some ''r''))"
    using busy_run(1) by (metis prod.collapse)
  have "ascii_folding ascii_unicode" "py_len ''r'' \<le> 500"
    by (simp_all add: ascii_folding_def ascii_unicode_def py_len_def continuation_def)
  moreover have "\<not> settles busy_policy (LoopRetryable ''busy'' 2 (Some ''r'') :: nat loop_end)"
    by (simp add: busy_policy_def flaky_policy_def)
  ultimately show ?thesis
    using task_chain_open_iff[OF _ _ _ run, of ascii_unicode log_host int] busy_run(2,3) by (simp add: run)
qed

section \<open>Recovery closes what it finds\<close>

text \<open>Records as the store writes them: redacted, and with a text for a kind if there is one.\<close>

definition stored_record :: "unicode \<Rightarrow> jdict \<Rightarrow> bool" where
  "stored_record U r \<longleftrightarrow> sanitize U [] (JObj r) = JObj r \<and> (\<forall>v. map_of r ''kind'' = Some v \<longrightarrow> is_jstr v)"

lemma stored_retry_record:
  assumes "\<And>v. map_of e ''kind'' = Some v \<Longrightarrow> is_jstr v" "ascii_folding U"
  shows "stored_record U (retry_record U now e)"
proof -
  obtain d where d: "sanitize U [] (JObj e) = JObj d" by simp
  have "sanitize U [] (JObj d) = JObj d" using sanitize_idem[of U "[]" "JObj e"] unfolding d .
  then have "sanitize U [] (JObj (retry_record U now e)) = JObj (retry_record U now e)"
    using d assms(2) by (auto simp: retry_record_def Let_def ascii_casefold ascii_lower_def sensitive_keys_def)
  moreover have "is_jstr v" if "map_of (retry_record U now e) ''kind'' = Some v" for v
    using that assms(1) plain_keys(3)[OF assms(2)] by (auto simp: record_lookup elim!: is_jstr.elims)
  ultimately show ?thesis by (simp add: stored_record_def)
qed

lemma stored_member:
  assumes "stored_record U r" "ascii_folding U" "clean_data r" "text_member r k = Some s"
  shows "s \<noteq> []" "safe_text s" "casefold_text U k \<notin> sensitive_keys \<Longrightarrow> shorten s = s"
proof -
  have m: "map_of r k = Some (JStr s)" "s \<noteq> []"
    using assms(4) by (auto simp: text_member_def jget_def split: json.splits if_splits option.splits)
  then have in_r: "(k, JStr s) \<in> set r" by (simp add: map_of_SomeD)
  show "s \<noteq> []" by (rule m(2))
  show "safe_text s" using assms(3) in_r by (auto simp: clean_data_def list_all_iff)
  have "map (\<lambda>(k, v). (k, sanitize U k v)) r = r" using assms(1) by (simp add: stored_record_def)
  then have "sanitize U k (JStr s) = JStr s" using map_of_sanitized[of U r k] m(1) by simp
  then show "shorten s = s" if "casefold_text U k \<notin> sensitive_keys" using that by simp
qed

definition good_chain :: "retry_chain \<Rightarrow> bool" where
  "good_chain c \<longleftrightarrow> rc_retry_id c \<noteq> [] \<and> shorten (rc_retry_id c) = rc_retry_id c \<and> safe_text (rc_retry_id c) \<and> safe_text (rc_kind c) \<and>
     (\<forall>s. rc_logical_id c = Some s \<longrightarrow> safe_text s)"

lemma filtered_image: "x \<in> set (filter P (map f xs)) \<Longrightarrow> \<exists>k. f k = x"
  by auto

lemma logical_id_member: "logical_id e = Some s \<Longrightarrow> \<exists>k. text_member e k = Some s"
proof -
  assume l: "logical_id e = Some s"
  let ?xs = "filter (\<lambda>x. x \<noteq> None) (map (text_member e) [''logicalId'', ''toolCallId'', ''taskId'', ''turnId''])"
  from l have "?xs \<noteq> [] \<and> hd ?xs = Some s" unfolding logical_id_def by (cases ?xs) simp_all
  then have "Some s \<in> set ?xs" using hd_in_set by metis
  then show ?thesis by (rule filtered_image)
qed

lemma safe_kind: "safe_text (kind_from_event t)"
  by (simp add: kind_from_event_def unicode_break_def)

lemma found_chains_good:
  assumes "ascii_folding U" "list_all clean_data rs" "\<And>r. r \<in> set rs \<Longrightarrow> stored_record U r" "chains_of H rs = Inr cs" "c \<in> set cs"
  shows "good_chain c"
proof -
  from assms(4,5) obtain e where e: "e \<in> set rs" "text_member e ''retryId'' = Some (rc_retry_id c)" "chain_record H c e"
    by (rule chains_of_member)
  have ce: "clean_data e" and se: "stored_record U e" using assms(2,3) e(1) by (auto simp: list_all_iff)
  note m = stored_member[OF se assms(1) ce]
  have "safe_text (rc_kind c)"
  proof (cases "map_of e ''kind''")
    case None
    with e(3) show ?thesis by (simp add: chain_record_def jget_or_def safe_kind)
  next
    case (Some v)
    then obtain s where s: "v = JStr s" using se by (auto simp: stored_record_def elim!: is_jstr.elims)
    have "(''kind'', JStr s) \<in> set e" using Some s by (simp add: map_of_SomeD)
    then have "safe_text s" using ce by (auto simp: clean_data_def list_all_iff)
    with e(3) Some s show ?thesis by (simp add: chain_record_def jget_or_def)
  qed
  moreover have "safe_text s" if "rc_logical_id c = Some s" for s
  proof -
    have "logical_id e = Some s" using that e(3) by (simp add: chain_record_def)
    then show ?thesis using logical_id_member m(2) by blast
  qed
  ultimately show ?thesis using m[OF e(2)] plain_keys(1)[OF assms(1)] by (simp add: good_chain_def)
qed

lemma recovery_event_clean:
  assumes "good_chain c" "ty \<in> {''retry_recovery_started'', ''retry_recovery_finished''}"
  shows "clean_data (recovery_event ty c)" "clean_data (recovery_event ty c @ [(''success'', JBool b)])"
  using assms by (auto simp: recovery_event_def clean_data_def good_chain_def unicode_break_def split: option.splits)

lemma recovery_records:
  assumes "good_chain c" "ascii_folding U" "ty \<in> {''retry_recovery_started'', ''retry_recovery_finished''}" "e = recovery_event ty c @ extra"
    "map_of extra ''retryId'' = None"
  shows "text_member (retry_record U now e) ''retryId'' = Some (rc_retry_id c)" "event_type H (retry_record U now e) = ty"
proof -
  have "map_of e ''retryId'' = Some (JStr (rc_retry_id c))" "map_of e ''type'' = Some (JStr ty)" using assms(4) by (simp_all add: recovery_event_def)
  then show "text_member (retry_record U now e) ''retryId'' = Some (rc_retry_id c)" "event_type H (retry_record U now e) = ty"
    using assms(1,3) type_lengths(4,5) record_retry_id[OF assms(2)] record_type[OF assms(2)] by (fastforce simp only: good_chain_def)+
qed

lemma recover_chains_file:
  assumes "ascii_folding U"
  shows "recover_chains H U clock handler cs n fl = (Inr (), fl') \<Longrightarrow> holds H fl rs \<Longrightarrow> (\<And>c. c \<in> set cs \<Longrightarrow> good_chain c) \<Longrightarrow>
    \<exists>rs'. holds H fl' (rs @ rs') \<and> (\<forall>i. of_chain i rs' \<noteq> [] \<longleftrightarrow> i \<in> set (map rc_retry_id cs)) \<and>
      (\<forall>i. of_chain i rs' \<noteq> [] \<longrightarrow> event_type H (last (of_chain i rs')) = ''retry_recovery_finished'')"
proof (induction cs arbitrary: n fl rs)
  case Nil
  then show ?case by (intro exI[of _ "[]"]) (simp add: of_chain_def)
next
  case (Cons c cs)
  have good: "good_chain c" using Cons.prems(3) by simp
  define e1 where "e1 = recovery_event ''retry_recovery_started'' c"
  from Cons.prems(1) obtain b where h: "handler c = Inr b" by (cases "handler c") (auto simp: Let_def)
  define e2 where "e2 = recovery_event ''retry_recovery_finished'' c @ [(''success'', JBool b)]"
  let ?r1 = "retry_record U (clock n) e1" and ?r2 = "retry_record U (clock (Suc n)) e2"
  let ?fl2 = "append_retry H U (clock (Suc n)) e2 (append_retry H U (clock n) e1 fl)"
  have "clean_data e1" "clean_data e2" using recovery_event_clean[OF good] by (simp_all add: e1_def e2_def)
  then have "holds H ?fl2 (rs @ [?r1, ?r2])"
    using holds_append[OF holds_append[OF Cons.prems(2) clean_retry_record] clean_retry_record] by fastforce
  moreover have "recover_chains H U clock handler cs (n + 2) ?fl2 = (Inr (), fl')"
    using Cons.prems(1) h by (simp add: Let_def e1_def e2_def)
  ultimately obtain rs' where rs': "holds H fl' (rs @ [?r1, ?r2] @ rs')" "\<And>i. of_chain i rs' \<noteq> [] \<longleftrightarrow> i \<in> set (map rc_retry_id cs)"
    "\<And>i. of_chain i rs' \<noteq> [] \<Longrightarrow> event_type H (last (of_chain i rs')) = ''retry_recovery_finished''"
    using Cons.IH[of "n + 2" ?fl2 "rs @ [?r1, ?r2]"] Cons.prems(3) by auto
  have t: "text_member ?r1 ''retryId'' = Some (rc_retry_id c)" "text_member ?r2 ''retryId'' = Some (rc_retry_id c)"
    "event_type H ?r2 = ''retry_recovery_finished''"
    using recovery_records[OF good assms, of "''retry_recovery_started''" e1 "[]"]
      recovery_records[OF good assms, of "''retry_recovery_finished''" e2 "[(''success'', JBool b)]"] by (simp_all add: e1_def e2_def)
  then have two: "of_chain i [?r1, ?r2] = (if i = rc_retry_id c then [?r1, ?r2] else [])" for i by (auto simp: of_chain_def)
  have "of_chain i ([?r1, ?r2] @ rs') \<noteq> [] \<longleftrightarrow> i \<in> set (map rc_retry_id (c # cs))" for i
    unfolding of_chain_append two using rs'(2)[of i] by auto
  moreover have "event_type H (last (of_chain i ([?r1, ?r2] @ rs'))) = ''retry_recovery_finished''" if "of_chain i ([?r1, ?r2] @ rs') \<noteq> []" for i
    using that rs'(3)[of i] t(3) unfolding of_chain_append two by (cases "of_chain i rs' = []") (auto split: if_splits)
  ultimately show ?case using rs'(1) by blast
qed

lemma recover_chains_total:
  "\<forall>c \<in> set cs. \<exists>b. handler c = Inr b \<Longrightarrow> \<exists>fl'. recover_chains H U clock handler cs n fl = (Inr (), fl')"
proof (induction cs arbitrary: n fl)
  case (Cons c cs)
  then obtain b where "handler c = Inr b" by auto
  with Cons show ?case by (simp add: Let_def)
qed simp


definition open_event :: jdict where
  "open_event = [(''type'', JStr ''task_retry_scheduled''), (''retryId'', JStr ''r''), (''attempt'', JInt 1)]"

lemma ascii_unicode_folding: "ascii_folding ascii_unicode"
  by (simp add: ascii_folding_def ascii_unicode_def)

lemma open_event_clean: "clean_data open_event"
  by (simp add: open_event_def clean_data_def unicode_break_def)


end
