(* ===== verification/Model_Attempts.thy ===== *)
theory Model_Attempts
  imports Retry_Policy Json_Text
begin

text \<open>
  The admission of physical model calls (\<open>model_attempts.py\<close>). A scope is the hard budget of one retry tree: calls, tokens and cost.
  Every call of a provider asks it for an identity first and settles its usage afterwards. Each operation holds the lock of the
  scope, so it is one step. Costs are exact rationals, the rounding of float sums is not modelled.
\<close>

section \<open>The scope\<close>

datatype attempt_fault =
    ScopeNotActive | UsageUnknown | CallsExhausted | TokensExhausted | CostExhausted
  | TokensExceeded | CostExceeded
  | ScopeReused | AttemptNotInFlight | ScopesNested

text \<open>The faults that are a \<open>ModelAttemptBudgetExceeded\<close>.\<close>

fun budget_fault :: "attempt_fault exc \<Rightarrow> bool" where
  "budget_fault (Raised f) = (f \<in> {ScopeNotActive, UsageUnknown, CallsExhausted, TokensExhausted, CostExhausted, TokensExceeded, CostExceeded})"
| "budget_fault (Builtin b) = False"

record attempt_identity =
  ai_run_id :: string
  ai_stage :: string
  ai_reservation_id :: string
  ai_attempt :: nat

definition attempt_id :: "attempt_identity \<Rightarrow> string" where
  "attempt_id i = ai_run_id i @ '':'' @ ai_stage i @ '':'' @ ai_reservation_id i @ '':attempt:'' @ int_digits (int (ai_attempt i))"

record attempt_scope =
  as_run_id :: string
  as_stage :: string
  as_reservation_id :: string
  as_max_model_calls :: nat
  as_max_tokens :: "int option"
  as_max_cost :: "rat option"
  as_active :: bool
  as_closed :: bool
  as_attempt_count :: nat
  as_tokens :: int
  as_cost :: rat
  as_unknown_attempts :: nat
  as_in_flight :: "string set"
  as_attempt_ids :: "string list"

record admission_snapshot =
  sn_run_id :: string
  sn_stage :: string
  sn_reservation_id :: string
  sn_model_calls :: nat
  sn_tokens :: int
  sn_cost :: rat
  sn_unknown_attempts :: nat
  sn_in_flight_attempts :: nat
  sn_attempt_ids :: "string list"

definition attempt_text :: "json \<Rightarrow> ('f, string) result" where
  "attempt_text v = (case v of
     JStr s \<Rightarrow> if py_strip s = [] then Inl (Builtin ValueErr) else Inr (py_strip s)
   | _ \<Rightarrow> Inl (Builtin ValueErr))"

text \<open>A number whose float is finite: \<open>None\<close> for anything else. A large integer raises in the conversion.\<close>

definition finite_number :: "json \<Rightarrow> ('f, rat option) result" where
  "finite_number v = (case v of
     JInt i \<Rightarrow> if float_overflow i then Inl (Builtin OverflowErr) else Inr (Some (of_int i))
   | JFloat (FFin r) \<Rightarrow> Inr (Some r)
   | _ \<Rightarrow> Inr None)"

definition max_tokens_of :: "json \<Rightarrow> ('f, int option) result" where
  "max_tokens_of v = (if v = JNull then Inr None
     else case as_int_ge 1 v of None \<Rightarrow> Inl (Builtin ValueErr) | Some i \<Rightarrow> Inr (Some i))"

definition max_cost_of :: "json \<Rightarrow> ('f, rat option) result" where
  "max_cost_of v = (if v = JNull then Inr None
     else bindE (finite_number v) (\<lambda>x. case x of
         None \<Rightarrow> Inl (Builtin ValueErr)
       | Some r \<Rightarrow> if r \<le> 0 then Inl (Builtin ValueErr) else Inr (Some r)))"

definition attempt_scope_init :: "json \<Rightarrow> json \<Rightarrow> json \<Rightarrow> json \<Rightarrow> json \<Rightarrow> json \<Rightarrow> ('f, attempt_scope) result" where
  "attempt_scope_init run_id stage reservation_id max_model_calls max_tokens max_cost =
     bindE (attempt_text run_id) (\<lambda>run_id.
     bindE (attempt_text stage) (\<lambda>stage.
     bindE (attempt_text reservation_id) (\<lambda>reservation_id.
     case as_int_ge 0 max_model_calls of None \<Rightarrow> Inl (Builtin ValueErr) | Some calls \<Rightarrow>
     bindE (max_tokens_of max_tokens) (\<lambda>max_tokens.
     bindE (max_cost_of max_cost) (\<lambda>max_cost.
     Inr \<lparr>as_run_id = run_id, as_stage = stage, as_reservation_id = reservation_id, as_max_model_calls = nat calls,
          as_max_tokens = max_tokens, as_max_cost = max_cost, as_active = False, as_closed = False, as_attempt_count = 0,
          as_tokens = 0, as_cost = 0, as_unknown_attempts = 0, as_in_flight = {}, as_attempt_ids = []\<rparr>)))))"

type_synonym 'a scope_call = "attempt_scope \<Rightarrow> (attempt_fault, 'a) result \<times> attempt_scope"

definition activate :: "unit scope_call" where
  "activate s = (if as_active s \<or> as_closed s then (Inl (Raised ScopeReused), s) else (Inr (), s\<lparr>as_active := True\<rparr>))"

definition close_scope :: "attempt_scope \<Rightarrow> attempt_scope" where
  "close_scope s = s\<lparr>as_active := False, as_closed := True\<rparr>"

text \<open>The tolerance of the cost comparisons.\<close>

definition cost_tolerance :: rat where
  "cost_tolerance = 1 / 10 ^ 12"

definition next_identity :: "attempt_scope \<Rightarrow> attempt_identity" where
  "next_identity s = \<lparr>ai_run_id = as_run_id s, ai_stage = as_stage s, ai_reservation_id = as_reservation_id s,
     ai_attempt = as_attempt_count s + 1\<rparr>"

definition begin_attempt :: "attempt_identity scope_call" where
  "begin_attempt s =
     (if \<not> as_active s \<or> as_closed s then (Inl (Raised ScopeNotActive), s)
      else if as_unknown_attempts s > 0 then (Inl (Raised UsageUnknown), s)
      else if as_attempt_count s \<ge> as_max_model_calls s then (Inl (Raised CallsExhausted), s)
      else if (case as_max_tokens s of None \<Rightarrow> False | Some m \<Rightarrow> as_tokens s \<ge> m) then (Inl (Raised TokensExhausted), s)
      else if (case as_max_cost s of None \<Rightarrow> False | Some m \<Rightarrow> as_cost s + cost_tolerance \<ge> m) then (Inl (Raised CostExhausted), s)
      else let identity = next_identity s in
        (Inr identity, s\<lparr>as_attempt_count := ai_attempt identity, as_attempt_ids := as_attempt_ids s @ [attempt_id identity],
           as_in_flight := insert (attempt_id identity) (as_in_flight s)\<rparr>))"

definition settle_attempt :: "attempt_identity \<Rightarrow> int \<Rightarrow> rat \<Rightarrow> bool \<Rightarrow> unit scope_call" where
  "settle_attempt identity tokens cost usage_unknown s =
     (if attempt_id identity \<notin> as_in_flight s then (Inl (Raised AttemptNotInFlight), s)
      else let s = s\<lparr>as_in_flight := as_in_flight s - {attempt_id identity}, as_tokens := as_tokens s + tokens,
                 as_cost := as_cost s + cost, as_unknown_attempts := as_unknown_attempts s + (if usage_unknown then 1 else 0)\<rparr> in
        if (case as_max_tokens s of None \<Rightarrow> False | Some m \<Rightarrow> as_tokens s > m) then (Inl (Raised TokensExceeded), s)
        else if (case as_max_cost s of None \<Rightarrow> False | Some m \<Rightarrow> as_cost s > m + cost_tolerance) then (Inl (Raised CostExceeded), s)
        else (Inr (), s))"

definition finish_attempt :: "attempt_identity \<Rightarrow> json \<Rightarrow> json \<Rightarrow> bool \<Rightarrow> unit scope_call" where
  "finish_attempt identity tokens cost usage_unknown s =
     (case as_int_ge 0 tokens of None \<Rightarrow> (Inl (Builtin ValueErr), s) | Some t \<Rightarrow>
      case finite_number cost of
        Inl e \<Rightarrow> (Inl e, s)
      | Inr None \<Rightarrow> (Inl (Builtin ValueErr), s)
      | Inr (Some c) \<Rightarrow> if c < 0 then (Inl (Builtin ValueErr), s) else settle_attempt identity t c usage_unknown s)"

definition snapshot :: "attempt_scope \<Rightarrow> admission_snapshot" where
  "snapshot s = \<lparr>sn_run_id = as_run_id s, sn_stage = as_stage s, sn_reservation_id = as_reservation_id s,
     sn_model_calls = as_attempt_count s, sn_tokens = as_tokens s, sn_cost = as_cost s,
     sn_unknown_attempts = as_unknown_attempts s, sn_in_flight_attempts = card (as_in_flight s), sn_attempt_ids = as_attempt_ids s\<rparr>"

text \<open>Entering the scope: the context variable must not hold a scope already.\<close>

definition enter_admission :: "attempt_scope option \<Rightarrow> unit scope_call" where
  "enter_admission current s = (if current \<noteq> None then (Inl (Raised ScopesNested), s) else activate s)"

section \<open>The usage of a message\<close>

fun count_of :: "json \<Rightarrow> int option" where
  "count_of (JInt i) = (if i < 0 then None else Some i)"
| "count_of _ = None"

definition usage_components :: "jdict \<Rightarrow> json list" where
  "usage_components usage = concat (map (\<lambda>k. case map_of usage k of None \<Rightarrow> [] | Some v \<Rightarrow> [v]) [''input'', ''output''])"

definition model_attempt_usage_known :: "jdict \<Rightarrow> bool" where
  "model_attempt_usage_known msg =
     (jget msg ''usageObserved'' \<noteq> JBool False \<and>
      (case jget msg ''usage'' of
         JObj usage \<Rightarrow>
           let values = (case map_of usage ''totalTokens'' of Some v \<Rightarrow> [v] | None \<Rightarrow> [jget usage ''input'', jget usage ''output'']) in
           list_all (\<lambda>v. count_of v \<noteq> None) values \<and>
           list_all (\<lambda>v. count_of v \<noteq> None) (usage_components usage) \<and>
           (case map_of usage ''totalTokens'' of None \<Rightarrow> True
            | Some v \<Rightarrow> the (count_of v) \<ge> sum_list (map (the \<circ> count_of) (usage_components usage)))
       | _ \<Rightarrow> False))"

definition reported_cost :: "jdict \<Rightarrow> ('f, rat) result" where
  "reported_cost usage =
     (let v = (case jget usage ''cost'' of JObj c \<Rightarrow> jget_or c ''total'' (JFloat (FFin 0)) | _ \<Rightarrow> JFloat (FFin 0)) in
      bindE (finite_number v) (\<lambda>x. Inr (case x of None \<Rightarrow> 0 | Some r \<Rightarrow> if r < 0 then 0 else r)))"

definition model_attempt_usage :: "jdict \<Rightarrow> ('f, int \<times> rat) result" where
  "model_attempt_usage msg =
     (case jget msg ''usage'' of
        JObj usage \<Rightarrow>
          let subtotal = sum_list (map (\<lambda>k. case count_of (jget_or usage k (JInt 0)) of None \<Rightarrow> 0 | Some i \<Rightarrow> i) [''input'', ''output'']);
              total = (case count_of (jget usage ''totalTokens'') of None \<Rightarrow> subtotal | Some t \<Rightarrow> max t subtotal) in
          bindE (reported_cost usage) (\<lambda>c. Inr (total, c))
      | _ \<Rightarrow> Inr (0, 0))"

end
