(* ===== verification/Model_Retry.thy ===== *)
theory Model_Retry
  imports Model_Attempts Retry_Events Event_Stream_Guarantees
begin

text \<open>
  The bounded repetition of a model request (\<open>retry/model.py\<close>). Every attempt is buffered; what a retried attempt produced never reaches the
  output stream. The run asks the circuit breaker before an attempt, the admission scope inside it, and tells the breaker how it
  went. The output is an event stream with a reader of its own, given as the operations performed on it so far.
  What happens outside is a \<open>model_world\<close>: the answers of the provider, what other
  requests do to the shared breaker and scope meanwhile, clocks, samples, sinks and reads of the consumer.
\<close>

section \<open>Messages\<close>

record model_ref =
  mr_api :: string
  mr_provider :: string
  mr_id :: string

definition empty_usage :: jdict where
  "empty_usage = [(''input'', JInt 0), (''output'', JInt 0), (''cacheRead'', JInt 0), (''cacheWrite'', JInt 0), (''totalTokens'', JInt 0),
     (''cost'', JObj [(''input'', JFloat (FFin 0)), (''output'', JFloat (FFin 0)), (''cacheRead'', JFloat (FFin 0)),
        (''cacheWrite'', JFloat (FFin 0)), (''total'', JFloat (FFin 0))])]"

datatype error_source = ErrorText string | ErrorObject "string option"

text \<open>
  A text for the public: the argument \<open>redact\<close> is the substitution of secrets by the patterns of the \<open>re\<close> module. Of an exception only its
  \<open>public_message\<close> is shown.
\<close>

definition error_candidate :: "error_source \<Rightarrow> string \<Rightarrow> string" where
  "error_candidate v fallback = (case v of
     ErrorText s \<Rightarrow> if s = [] then fallback else s
   | ErrorObject (Some s) \<Rightarrow> if py_strip s = [] then fallback else s
   | ErrorObject None \<Rightarrow> fallback)"

definition public_error_message :: "(string \<Rightarrow> string) \<Rightarrow> error_source \<Rightarrow> string \<Rightarrow> string" where
  "public_error_message redact v fallback =
     (let msg = redact (py_strip (error_candidate v fallback)) in shorten (if msg = [] then fallback else msg))"

text \<open>The Chinese text for a failed model request, in UTF-8.\<close>

definition model_failed_text :: string where
  "model_failed_text = map char_of [0xE6, 0xA8, 0xA1, 0xE5, 0x9E, 0x8B, 0xE8, 0xAF, 0xB7, 0xE6, 0xB1, 0x82, 0xE5, 0xA4, 0xB1, 0xE8, 0xB4, 0xA5 :: nat]"

definition assistant_message :: "(string \<Rightarrow> string) \<Rightarrow> model_ref \<Rightarrow> json list \<Rightarrow> string \<Rightarrow> error_source option \<Rightarrow> jdict \<Rightarrow> int \<Rightarrow> jdict" where
  "assistant_message redact m content stop_reason error_message usage now =
     [(''role'', JStr ''assistant''), (''content'', JList content), (''api'', JStr (mr_api m)), (''provider'', JStr (mr_provider m)),
      (''model'', JStr (mr_id m)), (''usage'', JObj (if usage = [] then empty_usage else usage)), (''stopReason'', JStr stop_reason),
      (''timestamp'', JInt now)] @
     (case error_message of None \<Rightarrow> [] | Some e \<Rightarrow> [(''errorMessage'', JStr (public_error_message redact e model_failed_text))])"

section \<open>The world of a run\<close>

datatype provider_call = ProviderRaises string | NotAStream | Streamed "jdict list" jdict

text \<open>A wait ends by itself, by the token of the request, or because the task that runs it is cancelled.\<close>

datatype sleep_end = SleptThrough | TokenCancelled | TaskCancelled

record model_run =
  rs_breaker :: circuit_breaker
  rs_scope :: "attempt_scope option"
  rs_ops :: "stream_op list"
  rs_calls :: "nat list"
  rs_waits :: "rat list"

record model_world =
  mw_model :: model_ref
  mw_redact :: "string \<Rightarrow> string"
  mw_now :: "nat \<Rightarrow> int"
  mw_stream :: "nat \<Rightarrow> provider_call"
  mw_audit :: "nat \<Rightarrow> string option"
  mw_transform :: "(jdict \<Rightarrow> string + json) option"
  mw_breaker_between :: "nat \<Rightarrow> circuit_breaker \<Rightarrow> circuit_breaker"
  mw_breaker_during :: "nat \<Rightarrow> circuit_breaker \<Rightarrow> circuit_breaker"
  mw_scope_between :: "nat \<Rightarrow> attempt_scope \<Rightarrow> attempt_scope"
  mw_scope_during :: "nat \<Rightarrow> attempt_scope \<Rightarrow> attempt_scope"
  mw_call_clock :: "nat \<Rightarrow> rat"
  mw_failure_clock :: "nat \<Rightarrow> rat"
  mw_sample :: "nat \<Rightarrow> rat"
  mw_elapsed :: "nat \<Rightarrow> rat"
  mw_sleep :: "nat \<Rightarrow> sleep_end"
  mw_emit :: "jdict \<Rightarrow> string option"
  mw_reads :: "nat \<Rightarrow> nat"
  mw_emit_reads :: "jdict \<Rightarrow> nat"

type_synonym 'a model_call = "model_run \<Rightarrow> (stream_fault, 'a) result \<times> model_run"

definition thenM :: "'a model_call \<Rightarrow> ('a \<Rightarrow> 'b model_call) \<Rightarrow> 'b model_call" where
  "thenM m f s = (case m s of (Inl e, s') \<Rightarrow> (Inl e, s') | (Inr x, s') \<Rightarrow> f x s')"

definition pureM :: "(stream_fault, 'a) result \<Rightarrow> 'a model_call" where
  "pureM r s = (r, s)"

section \<open>The output\<close>

definition output_of :: "host \<Rightarrow> stream_config \<Rightarrow> model_run \<Rightarrow> event_stream" where
  "output_of H cfg s = sr_stream (run_stream H cfg (rs_ops s))"

definition push_output :: "host \<Rightarrow> stream_config \<Rightarrow> jdict \<Rightarrow> unit model_call" where
  "push_output H cfg event s = (fst (push H cfg event (output_of H cfg s)), s\<lparr>rs_ops := rs_ops s @ [Push event]\<rparr>)"

fun push_all :: "host \<Rightarrow> stream_config \<Rightarrow> jdict list \<Rightarrow> unit model_call" where
  "push_all H cfg [] = pureM (Inr ())"
| "push_all H cfg (e # es) = thenM (push_output H cfg e) (\<lambda>_. push_all H cfg es)"

definition reads :: "nat \<Rightarrow> model_run \<Rightarrow> model_run" where
  "reads k s = s\<lparr>rs_ops := rs_ops s @ replicate k Next\<rparr>"

text \<open>A retry event goes to the sink and to the store, either of which may raise, and then to the output.\<close>

definition emit_retry_event :: "host \<Rightarrow> stream_config \<Rightarrow> model_world \<Rightarrow> jdict \<Rightarrow> unit model_call" where
  "emit_retry_event H cfg W event s =
     (let s = reads (mw_emit_reads W event) s in
      case mw_emit W event of
        Some e \<Rightarrow> (Inl (Raised (ProducerFailed e)), s)
      | None \<Rightarrow> push_output H cfg event s)"

section \<open>One attempt\<close>

definition error_events :: "jdict \<Rightarrow> jdict list \<times> jdict" where
  "error_events final = ([[(''type'', JStr ''error''), (''reason'', JStr ''error''), (''error'', JObj final)]], final)"

definition refused_details :: "string \<Rightarrow> string \<times> json" where
  "refused_details code = (''providerError'', JObj [(''code'', JStr code), (''statusCode'', JNull), (''retryAfterMs'', JNull), (''retryable'', JBool False)])"

definition circuit_answer :: "model_world \<Rightarrow> nat \<Rightarrow> jdict list \<times> jdict" where
  "circuit_answer W n = error_events (assistant_message (mw_redact W) (mw_model W) [] ''error''
     (Some (ErrorText (public_error_message (mw_redact W) (ErrorObject None) ''Model provider circuit is open''))) [] (mw_now W n) @
     [refused_details ''provider_circuit_open''])"

text \<open>The class of the exception is \<open>ModelAttemptBudgetExceeded\<close>, which has no public message.\<close>

definition budget_answer :: "model_world \<Rightarrow> nat \<Rightarrow> attempt_scope \<Rightarrow> jdict list \<times> jdict" where
  "budget_answer W n s = error_events (assistant_message (mw_redact W) (mw_model W) [] ''error''
     (Some (ErrorText ''Model Provider attempt was rejected by the hard budget'')) [] (mw_now W n) @
     [refused_details ''model_attempt_budget_exceeded'',
      (''modelAttemptAdmission'', JObj [(''runId'', JStr (as_run_id s)), (''stage'', JStr (as_stage s)), (''reservationId'', JStr (as_reservation_id s)),
        (''reason'', JStr (public_error_message (mw_redact W) (ErrorObject None) ''Model provider attempt was rejected by the hard budget'')),
        (''errorType'', JStr ''ModelAttemptBudgetExceeded'')])])"

definition provider_stream :: "model_world \<Rightarrow> nat \<Rightarrow> (stream_fault, jdict list \<times> jdict) result" where
  "provider_stream W n = (case mw_audit W n of
     Some e \<Rightarrow> Inl (Raised (ProducerFailed e))
   | None \<Rightarrow> (case mw_stream W n of
       ProviderRaises e \<Rightarrow> Inl (Raised (ProducerFailed e))
     | NotAStream \<Rightarrow> Inl (Builtin TypeErr)
     | Streamed events final \<Rightarrow> Inr (events, final)))"

definition checked_events :: "jdict list \<times> jdict \<Rightarrow> (stream_fault, jdict list \<times> jdict) result" where
  "checked_events a = (case rev (fst a) of
     [] \<Rightarrow> Inl (Raised (ProducerFailed ''no terminal event''))
   | e # _ \<Rightarrow> let t = jget e ''type'' in
       if \<not> hashable t then Inl (Builtin TypeErr)
       else if t \<notin> {JStr ''done'', JStr ''error''} then Inl (Raised (ProducerFailed ''no terminal event''))
       else Inr a)"

definition metered_message :: "model_world \<Rightarrow> jdict \<Rightarrow> (stream_fault, jdict) result" where
  "metered_message W final = (case mw_transform W of
     None \<Rightarrow> Inr final
   | Some f \<Rightarrow> (case f final of
       Inl e \<Rightarrow> Inl (Raised (ProducerFailed e))
     | Inr (JObj d) \<Rightarrow> Inr d
     | Inr _ \<Rightarrow> Inl (Builtin TypeErr)))"

definition attempt_error :: "attempt_fault exc \<Rightarrow> stream_fault exc" where
  "attempt_error e = (case e of Raised _ \<Rightarrow> Raised (ProducerFailed ''model attempt'') | Builtin b \<Rightarrow> Builtin b)"

text \<open>The usage of an answer is settled: \<open>None\<close> when that raised, with the exception, before the attempt was settled.\<close>

definition settle_usage :: "model_world \<Rightarrow> attempt_identity \<Rightarrow> jdict \<Rightarrow> attempt_scope \<Rightarrow> (stream_fault, bool) result \<times> attempt_scope" where
  "settle_usage W identity final s =
     (case bindE (metered_message W final) (\<lambda>d. bindE (model_attempt_usage d) (\<lambda>u. Inr (d, u))) of
        Inl e \<Rightarrow> (Inl e, s)
      | Inr (d, tokens, cost) \<Rightarrow> (case finish_attempt identity (JInt tokens) (JFloat (FFin cost)) (\<not> model_attempt_usage_known d) s of
          (Inr _, s) \<Rightarrow> (Inr True, s)
        | (Inl e, s) \<Rightarrow> if budget_fault e then (Inr False, s) else (Inl (attempt_error e), s)))"

definition abandon_attempt :: "attempt_identity \<Rightarrow> attempt_scope \<Rightarrow> attempt_scope" where
  "abandon_attempt identity s = snd (finish_attempt identity (JInt 0) (JFloat (FFin 0)) True s)"

definition scoped_attempt :: "model_world \<Rightarrow> nat \<Rightarrow> attempt_identity \<Rightarrow> attempt_scope \<Rightarrow> (stream_fault, jdict list \<times> jdict) result \<times> attempt_scope" where
  "scoped_attempt W n identity s =
     (case provider_stream W n of
        Inl e \<Rightarrow> (Inl e, abandon_attempt identity s)
      | Inr a \<Rightarrow> (case settle_usage W identity (snd a) s of
          (Inl e, s) \<Rightarrow> (Inl e, abandon_attempt identity s)
        | (Inr True, s) \<Rightarrow> (checked_events a, s)
        | (Inr False, s) \<Rightarrow> (Inr (budget_answer W n s), s)))"

text \<open>
  While the provider answers, others use the breaker and the scope, and the consumer reads. A request that fails its audit does not reach the
  provider.
\<close>

definition provider_awaited :: "model_world \<Rightarrow> nat \<Rightarrow> model_run \<Rightarrow> model_run" where
  "provider_awaited W n s = reads (mw_reads W n) (s\<lparr>rs_calls := rs_calls s @ (if mw_audit W n = None then [n] else []),
     rs_breaker := mw_breaker_during W n (rs_breaker s), rs_scope := map_option (mw_scope_during W n) (rs_scope s)\<rparr>)"

definition one_attempt :: "model_world \<Rightarrow> nat \<Rightarrow> (jdict list \<times> jdict) model_call" where
  "one_attempt W n s =
     (case rs_scope s of
        None \<Rightarrow> (bindE (provider_stream W n) checked_events, provider_awaited W n s)
      | Some sc \<Rightarrow> (case begin_attempt sc of
          (Inl e, sc) \<Rightarrow> (if budget_fault e then Inr (budget_answer W n sc) else Inl (attempt_error e), s)
        | (Inr identity, sc) \<Rightarrow> (case scoped_attempt W n identity (mw_scope_during W n sc) of
            (r, sc) \<Rightarrow> (r, (provider_awaited W n s)\<lparr>rs_scope := Some sc\<rparr>))))"

section \<open>The run\<close>

definition model_scheduled :: "string \<Rightarrow> nat \<Rightarrow> nat \<Rightarrow> rat \<Rightarrow> model_retry_decision \<Rightarrow> jdict" where
  "model_scheduled retry_id n limit delay d = [(''type'', JStr ''model_retry_scheduled''), (''kind'', JStr ''model''), (''retryId'', JStr retry_id),
     (''attempt'', JInt (int n)), (''maxAttempts'', JInt (int limit)), (''delayMs'', JInt (py_round (delay * 1000))), (''errorCode'', JStr (rd_code d)),
     (''statusCode'', case rd_status_code d of None \<Rightarrow> JNull | Some i \<Rightarrow> JInt i)]"

definition model_started :: "string \<Rightarrow> nat \<Rightarrow> jdict" where
  "model_started retry_id n = [(''type'', JStr ''model_retry_attempt_start''), (''kind'', JStr ''model''), (''retryId'', JStr retry_id), (''attempt'', JInt (int n))]"

definition model_finished :: "string \<Rightarrow> bool \<Rightarrow> nat \<Rightarrow> string option \<Rightarrow> jdict" where
  "model_finished retry_id success n err = [(''type'', JStr ''model_retry_finished''), (''kind'', JStr ''model''), (''retryId'', JStr retry_id),
     (''success'', JBool success), (''attempt'', JInt (int n))] @ (case err of None \<Rightarrow> [] | Some c \<Rightarrow> [(''finalError'', JStr c)])"

definition ask_breaker :: "model_world \<Rightarrow> breaker_policy \<Rightarrow> nat \<Rightarrow> bool model_call" where
  "ask_breaker W pol n s =
     (case before_call pol (mw_call_clock W n) (mw_breaker_between W n (rs_breaker s)) of
        (r, b) \<Rightarrow> (Inr (\<not> isOk r), s\<lparr>rs_breaker := b, rs_scope := map_option (mw_scope_between W n) (rs_scope s)\<rparr>))"

definition tell_breaker :: "model_world \<Rightarrow> breaker_policy \<Rightarrow> nat \<Rightarrow> bool \<Rightarrow> bool \<Rightarrow> unit model_call" where
  "tell_breaker W pol n rejected failed s =
     (Inr (), if rejected then s
        else s\<lparr>rs_breaker := (if failed then record_failure pol (mw_failure_clock W n) (rs_breaker s) else record_success pol (rs_breaker s))\<rparr>)"

definition deliver_answer :: "host \<Rightarrow> stream_config \<Rightarrow> model_world \<Rightarrow> string \<Rightarrow> nat \<Rightarrow> jdict list \<Rightarrow> jdict \<Rightarrow> model_retry_decision \<Rightarrow> unit model_call" where
  "deliver_answer H cfg W retry_id n events final d =
     (let stop = jget final ''stopReason'' in
      thenM (if n = 0 then pureM (Inr ())
             else if \<not> hashable stop then pureM (Inl (Builtin TypeErr))
             else emit_retry_event H cfg W (model_finished retry_id (stop \<notin> {JStr ''error'', JStr ''aborted''}) n
               (if stop = JStr ''error'' then Some (rd_code d) else None)))
        (\<lambda>_. push_all H cfg events))"

definition aborted_event :: "model_world \<Rightarrow> nat \<Rightarrow> jdict" where
  "aborted_event W n = [(''type'', JStr ''error''), (''reason'', JStr ''aborted''), (''error'', JObj (assistant_message (mw_redact W) (mw_model W) []
     ''aborted'' (Some (ErrorText (public_error_message (mw_redact W) (ErrorObject None) ''Model retry was cancelled''))) [] (mw_now W n)))]"

definition deliver_aborted :: "host \<Rightarrow> stream_config \<Rightarrow> model_world \<Rightarrow> string \<Rightarrow> nat \<Rightarrow> unit model_call" where
  "deliver_aborted H cfg W retry_id n =
     thenM (emit_retry_event H cfg W (model_finished retry_id False n (Some ''retry_cancelled''))) (\<lambda>_. push_output H cfg (aborted_event W n))"

definition sleep_delay :: "rat \<Rightarrow> unit model_call" where
  "sleep_delay d s = (Inr (), s\<lparr>rs_waits := rs_waits s @ [d]\<rparr>)"

text \<open>The branch that repeats the request; \<open>again\<close> is the next round of the loop.\<close>

definition wait_and_retry ::
  "host \<Rightarrow> stream_config \<Rightarrow> model_world \<Rightarrow> model_retry_policy \<Rightarrow> string \<Rightarrow> nat \<Rightarrow> model_retry_decision \<Rightarrow> rat \<Rightarrow> unit model_call \<Rightarrow> unit model_call" where
  "wait_and_retry H cfg W pol retry_id n d delay again =
     thenM (emit_retry_event H cfg W (model_scheduled retry_id (n + 1) (rl_max_retries pol) delay d)) (\<lambda>_.
     thenM (sleep_delay delay) (\<lambda>_.
     case mw_sleep W n of
       TokenCancelled \<Rightarrow> deliver_aborted H cfg W retry_id (n + 1)
     | TaskCancelled \<Rightarrow> pureM (Inl (Raised (ProducerFailed ''cancelled'')))
     | SleptThrough \<Rightarrow> thenM (emit_retry_event H cfg W (model_started retry_id (n + 1))) (\<lambda>_. again)))"

definition after_answer ::
  "host \<Rightarrow> stream_config \<Rightarrow> model_world \<Rightarrow> model_retry_policy \<Rightarrow> string \<Rightarrow> nat \<Rightarrow> jdict list \<Rightarrow> jdict \<Rightarrow> model_retry_decision
    \<Rightarrow> unit model_call \<Rightarrow> unit model_call" where
  "after_answer H cfg W pol retry_id n events final d again =
     (if rd_retryable d \<and> n < rl_max_retries pol
      then thenM (pureM (retry_delay_seconds (n + 1) pol (mw_sample W n) (rd_retry_after d))) (\<lambda>delay.
        case delay of
          None \<Rightarrow> deliver_answer H cfg W retry_id n events final d
        | Some delay \<Rightarrow>
            if mw_elapsed W n + delay \<le> rl_max_elapsed pol then wait_and_retry H cfg W pol retry_id n d delay again
            else deliver_answer H cfg W retry_id n events final d)
      else deliver_answer H cfg W retry_id n events final d)"

lemma after_answer_cong [fundef_cong]:
  "(n < rl_max_retries pol \<Longrightarrow> again = again') \<Longrightarrow>
     after_answer H cfg W pol retry_id n events final d again = after_answer H cfg W pol retry_id n events final d again'"
  by (cases "n < rl_max_retries pol") (simp_all add: after_answer_def)

function model_loop :: "host \<Rightarrow> unicode \<Rightarrow> stream_config \<Rightarrow> model_world \<Rightarrow> model_retry_policy \<Rightarrow> string \<Rightarrow> nat \<Rightarrow> unit model_call" where
  "model_loop H U cfg W pol retry_id n =
     thenM (ask_breaker W (mp_circuit_breaker pol) n) (\<lambda>rejected.
     thenM (if rejected then pureM (Inr (circuit_answer W n)) else one_attempt W n) (\<lambda>(events, final).
     thenM (pureM (classify_model_error H U final pol)) (\<lambda>d.
     thenM (tell_breaker W (mp_circuit_breaker pol) n rejected (rd_retryable d)) (\<lambda>_.
     after_answer H cfg W pol retry_id n events final d (model_loop H U cfg W pol retry_id (n + 1))))))"
  by pat_completeness auto
termination by (relation "measure (\<lambda>(H, U, cfg, W, pol, rid, n). rl_max_retries pol - n)") auto

declare model_loop.simps [simp del]

text \<open>Whatever is raised ends the output.\<close>

definition run_model :: "host \<Rightarrow> unicode \<Rightarrow> stream_config \<Rightarrow> model_world \<Rightarrow> model_retry_policy \<Rightarrow> string \<Rightarrow> unit model_call" where
  "run_model H U cfg W pol retry_id s =
     (case model_loop H U cfg W pol retry_id 0 s of
        (Inr _, s) \<Rightarrow> (Inr (), s)
      | (Inl e, s) \<Rightarrow> (fst (fail_stream cfg e (output_of H cfg s)), s\<lparr>rs_ops := rs_ops s @ [FailWith e]\<rparr>))"

definition start_state :: "circuit_breaker \<Rightarrow> attempt_scope option \<Rightarrow> model_run" where
  "start_state b sc = \<lparr>rs_breaker = b, rs_scope = sc, rs_ops = [], rs_calls = [], rs_waits = []\<rparr>"

text \<open>A call of the wrapped function: with retries disabled and no admission it is passed on (\<open>None\<close>).\<close>

definition retrying_stream_fn ::
  "host \<Rightarrow> unicode \<Rightarrow> stream_config \<Rightarrow> model_world \<Rightarrow> model_retry_policy \<Rightarrow> bool \<Rightarrow> string \<Rightarrow> circuit_breaker \<Rightarrow> attempt_scope option
    \<Rightarrow> ((stream_fault, unit) result \<times> model_run) option" where
  "retrying_stream_fn H U cfg W pol physical_admission retry_id b current =
     (if \<not> mp_enabled pol \<and> \<not> physical_admission then None
      else Some (run_model H U cfg W pol retry_id (start_state b (if physical_admission then current else None))))"

end
