(* ===== verification/Model_Demo.thy ===== *)
theory Model_Demo
  imports Model_Retry
begin

text \<open>A small run of the model retry: the provider times out once and then answers.\<close>

definition demo_unicode :: unicode where
  "demo_unicode = \<lparr>fold_char = (\<lambda>c. c), alnum_char = (\<lambda>_. True)\<rparr>"

definition timeout_final :: jdict where
  "timeout_final = [(''stopReason'', JStr ''error''), (''providerError'', JObj [(''code'', JStr ''provider_timeout_error''), (''retryable'', JBool True)])]"

definition answer_final :: jdict where
  "answer_final = [(''stopReason'', JStr ''stop'')]"

definition demo_world :: model_world where
  "demo_world = \<lparr>mw_model = \<lparr>mr_api = ''a'', mr_provider = ''p'', mr_id = ''m''\<rparr>, mw_redact = (\<lambda>s. s), mw_now = int,
     mw_stream = (\<lambda>n. if n = 0 then Streamed [[(''type'', JStr ''error''), (''error'', JObj timeout_final)]] timeout_final
       else Streamed [[(''type'', JStr ''done''), (''message'', JObj answer_final)]] answer_final),
     mw_audit = (\<lambda>_. None), mw_transform = None, mw_breaker_between = (\<lambda>_. id), mw_breaker_during = (\<lambda>_. id),
     mw_scope_between = (\<lambda>_ sc. sc), mw_scope_during = (\<lambda>_ sc. sc), mw_call_clock = of_nat, mw_failure_clock = of_nat,
     mw_sample = (\<lambda>_. 1 / 2), mw_elapsed = of_nat, mw_sleep = (\<lambda>_. SleptThrough), mw_emit = (\<lambda>_. None), mw_reads = (\<lambda>_. 0),
     mw_emit_reads = (\<lambda>_. 0)\<rparr>"

definition demo_breaker_policy :: breaker_policy where
  "demo_breaker_policy = \<lparr>bp_enabled = True, bp_failure_threshold = 3, bp_recovery_timeout = 30\<rparr>"

definition demo_policy :: model_retry_policy where
  "demo_policy = \<lparr>rl_max_retries = 2, rl_initial_delay = 1, rl_max_delay = 4, rl_jitter = 1 / 5, rl_max_elapsed = 30, mp_enabled = False,
     mp_retryable_statuses = [503], mp_circuit_breaker = demo_breaker_policy\<rparr>"

definition demo_stream :: stream_config where
  "demo_stream = assistant_config 8 2000 DropOldest False False"

definition demo_run :: "(stream_fault, unit) result \<times> model_run" where
  "demo_run = run_model stream_host demo_unicode demo_stream demo_world demo_policy ''r'' (start_state new_breaker None)"

lemma demo_policy_init:
  "model_retry_policy_init False (JInt 2) (FFin 1) (FFin 4) (FFin (1 / 5)) [JInt 503] (FFin 30) demo_breaker_policy = (Inr demo_policy :: (unit, model_retry_policy) result)"
  by (simp add: model_retry_policy_init_def delay_limits_def http_status_def demo_policy_def retry_limits.defs model_retry_policy.defs exc_simps)

lemma demo_stream_init: "stream_init (JInt 8) (JInt 2000) ''drop_oldest'' (\<lambda>n b p. assistant_config n b p False False) = Inr (demo_stream, new_stream)"
  by (simp add: stream_init_def demo_stream_def)

lemma demo_timeout: "classify_model_error stream_host demo_unicode timeout_final demo_policy = (Inr \<lparr>rd_retryable = True, rd_code = ''provider_timeout_error'',
     rd_status_code = None, rd_retry_after = None\<rparr> :: (stream_fault, model_retry_decision) result)"
  by code_simp

end
