(* ===== verification/Attempt_Budget.thy ===== *)
theory Attempt_Budget
  imports Model_Attempts Json_Parse
begin

text \<open>
  What an admission scope guarantees to every interleaving of its users. A history records the admissions and settlements
  of a run; the counters of the scope are those of the history.
\<close>

section \<open>Runs of a scope\<close>

datatype scope_op = OpBegin | OpFinish attempt_identity json json bool | OpClose

datatype scope_event = Admitted attempt_identity | Settled attempt_identity int rat bool

definition scope_step :: "scope_op \<Rightarrow> attempt_scope \<Rightarrow> attempt_scope \<times> scope_event list" where
  "scope_step op s = (case op of
     OpBegin \<Rightarrow> (case begin_attempt s of (Inr i, s) \<Rightarrow> (s, [Admitted i]) | (Inl _, s) \<Rightarrow> (s, []))
   | OpFinish i tokens cost unknown \<Rightarrow> (case finish_attempt i tokens cost unknown s of
       (r, s') \<Rightarrow> (s', if as_in_flight s' = as_in_flight s then []
         else [Settled i (the (as_int_ge 0 tokens)) (case finite_number cost :: (unit, rat option) result of Inr (Some c) \<Rightarrow> c | _ \<Rightarrow> 0) unknown]))
   | OpClose \<Rightarrow> (close_scope s, []))"

fun scope_run :: "scope_op list \<Rightarrow> attempt_scope \<Rightarrow> attempt_scope \<times> scope_event list" where
  "scope_run [] s = (s, [])"
| "scope_run (op # ops) s = (case scope_step op s of (s, a) \<Rightarrow> (case scope_run ops s of (s, b) \<Rightarrow> (s, a @ b)))"

definition admitted :: "scope_event list \<Rightarrow> attempt_identity list" where
  "admitted h = concat (map (\<lambda>e. case e of Admitted i \<Rightarrow> [i] | _ \<Rightarrow> []) h)"

definition settled :: "scope_event list \<Rightarrow> attempt_identity list" where
  "settled h = concat (map (\<lambda>e. case e of Settled i _ _ _ \<Rightarrow> [i] | _ \<Rightarrow> []) h)"

definition spent_tokens :: "scope_event list \<Rightarrow> int" where
  "spent_tokens h = sum_list (map (\<lambda>e. case e of Settled _ t _ _ \<Rightarrow> t | _ \<Rightarrow> 0) h)"

definition spent_cost :: "scope_event list \<Rightarrow> rat" where
  "spent_cost h = sum_list (map (\<lambda>e. case e of Settled _ _ c _ \<Rightarrow> c | _ \<Rightarrow> 0) h)"

definition unknown_usage :: "scope_event list \<Rightarrow> nat" where
  "unknown_usage h = length (filter (\<lambda>e. case e of Settled _ _ _ u \<Rightarrow> u | _ \<Rightarrow> False) h)"

lemma history_simps [simp]:
  "admitted [] = []" "admitted (a @ b) = admitted a @ admitted b" "admitted [Admitted i] = [i]" "admitted [Settled i t c u] = []"
  "settled [] = []" "settled (a @ b) = settled a @ settled b" "settled [Admitted i] = []" "settled [Settled i t c u] = [i]"
  "spent_tokens [] = 0" "spent_tokens (a @ b) = spent_tokens a + spent_tokens b" "spent_tokens [Admitted i] = 0" "spent_tokens [Settled i t c u] = t"
  "spent_cost [] = 0" "spent_cost (a @ b) = spent_cost a + spent_cost b" "spent_cost [Admitted i] = 0" "spent_cost [Settled i t c u] = c"
  "unknown_usage [] = 0" "unknown_usage (a @ b) = unknown_usage a + unknown_usage b" "unknown_usage [Admitted i] = 0"
  "unknown_usage [Settled i t c u] = (if u then 1 else 0)"
  by (simp_all add: admitted_def settled_def spent_tokens_def spent_cost_def unknown_usage_def)

lemma last_admission: "admitted h \<noteq> [] \<Longrightarrow> (\<And>a i b. h = a @ Admitted i # b \<Longrightarrow> admitted b = [] \<Longrightarrow> thesis) \<Longrightarrow> thesis"
proof (induction h arbitrary: thesis rule: rev_induct)
  case (snoc e h)
  show ?case
  proof (cases e)
    case (Admitted i)
    then show ?thesis using snoc.prems(2)[of h i "[]"] by simp
  next
    case (Settled i t c u)
    with snoc.prems(1) have "admitted h \<noteq> []" by simp
    then obtain a j b where "h = a @ Admitted j # b" "admitted b = []" using snoc.IH by blast
    with Settled show ?thesis using snoc.prems(2)[of a j "b @ [e]"] by simp
  qed
qed simp

section \<open>Identities\<close>

definition identity_of :: "attempt_scope \<Rightarrow> nat \<Rightarrow> attempt_identity" where
  "identity_of s k = \<lparr>ai_run_id = as_run_id s, ai_stage = as_stage s, ai_reservation_id = as_reservation_id s, ai_attempt = k\<rparr>"

lemma int_digits_inj: "int_digits (int a) = int_digits (int b) \<Longrightarrow> a = b"
  by (simp add: int_digits_def) (metis digits_value_nat)

lemma attempt_ids_distinct: "attempt_id (identity_of s a) = attempt_id (identity_of s b) \<longleftrightarrow> a = b"
  by (auto simp: attempt_id_def identity_of_def dest: int_digits_inj)

section \<open>The invariant\<close>

definition same_limits :: "attempt_scope \<Rightarrow> attempt_scope \<Rightarrow> bool" where
  "same_limits s s' \<longleftrightarrow> as_run_id s' = as_run_id s \<and> as_stage s' = as_stage s \<and> as_reservation_id s' = as_reservation_id s \<and>
     as_max_model_calls s' = as_max_model_calls s \<and> as_max_tokens s' = as_max_tokens s \<and> as_max_cost s' = as_max_cost s"

definition within_budget :: "attempt_scope \<Rightarrow> scope_event list \<Rightarrow> bool" where
  "within_budget s a \<longleftrightarrow> length (admitted a) < as_max_model_calls s \<and> unknown_usage a = 0 \<and>
     (\<forall>m. as_max_tokens s = Some m \<longrightarrow> spent_tokens a < m) \<and> (\<forall>m. as_max_cost s = Some m \<longrightarrow> spent_cost a + cost_tolerance < m)"

definition scope_inv :: "attempt_scope \<Rightarrow> scope_event list \<Rightarrow> bool" where
  "scope_inv s h \<longleftrightarrow> admitted h = map (identity_of s) (map Suc [0..<as_attempt_count s]) \<and> as_attempt_ids s = map attempt_id (admitted h) \<and>
     distinct (map attempt_id (settled h)) \<and> set (map attempt_id (settled h)) \<subseteq> set (as_attempt_ids s) \<and>
     as_in_flight s = set (as_attempt_ids s) - set (map attempt_id (settled h)) \<and>
     as_tokens s = spent_tokens h \<and> as_cost s = spent_cost h \<and> as_unknown_attempts s = unknown_usage h \<and>
     (\<forall>a i b. h = a @ Admitted i # b \<longrightarrow> within_budget s a)"

lemma admissions_snoc:
  "(\<forall>a i b. h @ [e] = a @ Admitted i # b \<longrightarrow> P a) \<longleftrightarrow> (\<forall>a i b. h = a @ Admitted i # b \<longrightarrow> P a) \<and> ((\<exists>i. e = Admitted i) \<longrightarrow> P h)"
proof -
  have "h @ [e] = a @ Admitted i # b \<longleftrightarrow> (b = [] \<and> h = a \<and> e = Admitted i) \<or> (\<exists>c. b = c @ [e] \<and> h = a @ Admitted i # c)" for a i b
    by (cases b rule: rev_cases) auto
  then show ?thesis by auto
qed

lemma identity_of_same: "same_limits s s' \<Longrightarrow> identity_of s' = identity_of s"
  by (auto simp: same_limits_def identity_of_def)

lemma within_same: "same_limits s s' \<Longrightarrow> within_budget s' = within_budget s"
  by (auto simp: same_limits_def within_budget_def)


lemma settle_cases:
  "settle_attempt i t c u s = (r, s') \<Longrightarrow>
     attempt_id i \<notin> as_in_flight s \<and> s' = s \<or>
     attempt_id i \<in> as_in_flight s \<and> s' = s\<lparr>as_in_flight := as_in_flight s - {attempt_id i}, as_tokens := as_tokens s + t,
       as_cost := as_cost s + c, as_unknown_attempts := as_unknown_attempts s + (if u then 1 else 0)\<rparr>"
  by (cases "attempt_id i \<in> as_in_flight s") (auto simp: settle_attempt_def Let_def split: if_splits option.splits)

lemma finite_number_poly: "(finite_number v :: ('a, rat option) result) = Inr x \<Longrightarrow> (finite_number v :: ('b, rat option) result) = Inr x"
  by (cases v) (auto simp: finite_number_def split: if_splits pyfloat.splits)

lemma finish_cases:
  assumes "finish_attempt i tokens cost u s = (r, s')"
  obtains "s' = s"
  | t c where "as_int_ge 0 tokens = Some t" "(finite_number cost :: (unit, rat option) result) = Inr (Some c)" "0 \<le> c" "attempt_id i \<in> as_in_flight s"
      "s' = s\<lparr>as_in_flight := as_in_flight s - {attempt_id i}, as_tokens := as_tokens s + t,
         as_cost := as_cost s + c, as_unknown_attempts := as_unknown_attempts s + (if u then 1 else 0)\<rparr>"
proof (cases "as_int_ge 0 tokens")
  case None
  with assms that(1) show thesis by (simp add: finish_attempt_def)
next
  case (Some t)
  show thesis
  proof (cases "finite_number cost :: (attempt_fault, rat option) result")
    case (Inl e)
    with Some assms that(1) show thesis by (simp add: finish_attempt_def)
  next
    case (Inr x)
    show thesis
    proof (cases "\<exists>c. x = Some c \<and> 0 \<le> c")
      case False
      with Inr Some assms that(1) show thesis by (cases x) (auto simp: finish_attempt_def not_le)
    next
      case True
      then obtain c where c: "x = Some c" "0 \<le> c" by blast
      with Inr Some assms have "settle_attempt i t c u s = (r, s')" by (simp add: finish_attempt_def)
      from settle_cases[OF this] that(1) that(2)[OF Some _ c(2)] finite_number_poly[OF Inr] c(1) show thesis by blast
    qed
  qed
qed

lemma scope_step_cases:
  assumes "scope_step op s = (s', a)"
  obtains "a = []" "s' = s \<or> s' = close_scope s"
  | "begin_attempt s = (Inr (next_identity s), s')" "a = [Admitted (next_identity s)]"
  | i t c u where "a = [Settled i t c u]" "0 \<le> t" "0 \<le> c" "attempt_id i \<in> as_in_flight s"
      "s' = s\<lparr>as_in_flight := as_in_flight s - {attempt_id i}, as_tokens := as_tokens s + t,
         as_cost := as_cost s + c, as_unknown_attempts := as_unknown_attempts s + (if u then 1 else 0)\<rparr>"
proof (cases op)
  case OpBegin
  have "(\<exists>e. begin_attempt s = (Inl e, s)) \<or> (\<exists>s'. begin_attempt s = (Inr (next_identity s), s'))"
    by (simp add: begin_attempt_def Let_def)
  with OpBegin assms that(1,2) show thesis by (auto simp: scope_step_def)
next
  case (OpFinish i tokens cost u)
  obtain r s1 where f: "finish_attempt i tokens cost u s = (r, s1)" by fastforce
  from f show thesis
  proof (cases rule: finish_cases)
    case 1
    with f OpFinish assms that(1) show thesis by (auto simp: scope_step_def)
  next
    case (2 t c)
    then have "as_in_flight s1 \<noteq> as_in_flight s" by auto
    then have "scope_step op s = (s1, [Settled i t c u])" using f OpFinish 2(1,2) by (simp add: scope_step_def)
    then have "a = [Settled i t c u]" "s' = s1" using assms by simp_all
    moreover have "0 \<le> t" using 2(1) by (cases tokens) (auto split: if_splits)
    ultimately show thesis using that(3)[of i t c u] 2 by blast
  qed
next
  case OpClose
  with assms that(1) show thesis by (auto simp: scope_step_def)
qed

lemma begin_ok:
  assumes "begin_attempt s = (Inr i, s')"
  shows "as_active s \<and> \<not> as_closed s \<and> as_unknown_attempts s = 0 \<and> as_attempt_count s < as_max_model_calls s \<and>
    (\<forall>m. as_max_tokens s = Some m \<longrightarrow> as_tokens s < m) \<and> (\<forall>m. as_max_cost s = Some m \<longrightarrow> as_cost s + cost_tolerance < m) \<and>
    i = identity_of s (Suc (as_attempt_count s)) \<and>
    s' = s\<lparr>as_attempt_count := Suc (as_attempt_count s), as_attempt_ids := as_attempt_ids s @ [attempt_id i],
      as_in_flight := insert (attempt_id i) (as_in_flight s)\<rparr>"
  using assms by (auto simp: begin_attempt_def Let_def next_identity_def identity_of_def split: if_splits option.splits)

lemma scope_inv_step:
  assumes inv: "scope_inv s h" and step: "scope_step op s = (s', a)"
  shows "scope_inv s' (h @ a) \<and> same_limits s s'"
  using step
proof (cases rule: scope_step_cases)
  case 1
  then have lim: "same_limits s s'" by (auto simp: same_limits_def close_scope_def)
  have eqs: "as_attempt_count s' = as_attempt_count s" "as_attempt_ids s' = as_attempt_ids s" "as_in_flight s' = as_in_flight s"
    "as_tokens s' = as_tokens s" "as_cost s' = as_cost s" "as_unknown_attempts s' = as_unknown_attempts s"
    using 1 by (auto simp: close_scope_def)
  have "scope_inv s' h = scope_inv s h" unfolding scope_inv_def identity_of_same[OF lim] within_same[OF lim] eqs ..
  with inv 1(1) lim show ?thesis by simp
next
  case 2
  let ?i = "identity_of s (Suc (as_attempt_count s))"
  note b = begin_ok[OF 2(1)]
  have lim: "same_limits s s'" using b by (simp add: same_limits_def)
  have ids: "as_attempt_ids s = map (\<lambda>k. attempt_id (identity_of s (Suc k))) [0..<as_attempt_count s]" using inv by (simp add: scope_inv_def o_def)
  then have fresh: "attempt_id ?i \<notin> set (as_attempt_ids s)" by (auto simp: attempt_ids_distinct)
  have count: "length (admitted h) = as_attempt_count s" using inv by (simp add: scope_inv_def)
  have "within_budget s h" using b inv count by (simp add: within_budget_def scope_inv_def)
  then have adm: "\<forall>a j c. h @ [Admitted ?i] = a @ Admitted j # c \<longrightarrow> within_budget s a" unfolding admissions_snoc using inv by (simp add: scope_inv_def)
  have i: "next_identity s = ?i" and sel: "as_attempt_ids s' = as_attempt_ids s @ [attempt_id ?i]"
      "as_in_flight s' = insert (attempt_id ?i) (as_in_flight s)" "as_attempt_count s' = Suc (as_attempt_count s)"
      "as_tokens s' = as_tokens s" "as_cost s' = as_cost s" "as_unknown_attempts s' = as_unknown_attempts s" using b by simp_all
  have sub: "set (map attempt_id (settled h)) \<subseteq> set (as_attempt_ids s)" and
    fl: "as_in_flight s = set (as_attempt_ids s) - set (map attempt_id (settled h))" using inv unfolding scope_inv_def by blast+
  have "as_in_flight s' = set (as_attempt_ids s') - set (map attempt_id (settled h))"
    unfolding sel fl using sub fresh by auto
  then show ?thesis using inv i sub 2(2) lim adm
    unfolding scope_inv_def within_same[OF lim] identity_of_same[OF lim] by (intro conjI; simp add: sel subset_insertI2)
next
  case (3 i t c u)
  have lim: "same_limits s s'" using 3 by (simp add: same_limits_def)
  have adm: "\<forall>a j d. h @ [Settled i t c u] = a @ Admitted j # d \<longrightarrow> within_budget s a" unfolding admissions_snoc using inv by (simp add: scope_inv_def)
  have sel: "as_attempt_ids s' = as_attempt_ids s" "as_in_flight s' = as_in_flight s - {attempt_id i}" "as_attempt_count s' = as_attempt_count s"
      "as_tokens s' = as_tokens s + t" "as_cost s' = as_cost s + c" "as_unknown_attempts s' = as_unknown_attempts s + (if u then 1 else 0)"
    using 3(5) by simp_all
  have fl: "as_in_flight s = set (as_attempt_ids s) - set (map attempt_id (settled h))" using inv unfolding scope_inv_def by blast
  with 3(4) have new: "attempt_id i \<in> set (as_attempt_ids s)" "attempt_id i \<notin> set (map attempt_id (settled h))" by simp_all
  have "as_in_flight s' = set (as_attempt_ids s') - set (map attempt_id (settled (h @ a)))" unfolding sel fl using 3(1) by auto
  then show ?thesis using inv new 3(1) lim adm
    unfolding scope_inv_def within_same[OF lim] identity_of_same[OF lim] by (intro conjI; simp add: sel)
qed

lemma scope_inv_run:
  "scope_inv s h \<Longrightarrow> scope_run ops s = (s', b) \<Longrightarrow> scope_inv s' (h @ b) \<and> same_limits s s'"
proof (induction ops arbitrary: s h b)
  case (Cons op ops)
  obtain s1 a where st: "scope_step op s = (s1, a)" by fastforce
  with Cons.prems(2) obtain c where c: "scope_run ops s1 = (s', c)" "b = a @ c" by (auto split: prod.splits)
  have one: "scope_inv s1 (h @ a)" "same_limits s s1" using scope_inv_step[OF Cons.prems(1) st] by simp_all
  from Cons.IH[OF one(1) c(1)] one(2) c(2) show ?case by (simp add: same_limits_def)
qed (simp add: same_limits_def)

lemma new_scope:
  assumes "attempt_scope_init run stage res calls tokens cost = (Inr s :: (attempt_fault, attempt_scope) result)" and "activate s = (Inr (), s1)"
  shows "scope_inv s1 [] \<and> same_limits s s1 \<and> as_active s1"
  using assms by (auto simp: attempt_scope_init_def activate_def exc_simps scope_inv_def same_limits_def split: option.splits if_splits)

text \<open>
  C21: the hard budget of a retry tree. In every interleaving of calls on a scope, the attempts admitted have pairwise different identities and are at
  most \<open>max_model_calls\<close>; each is settled at most once; and when an attempt is admitted, every
  usage settled before was known and the settled tokens and costs are below their limits.
\<close>

theorem attempts_within_budget:
  assumes "attempt_scope_init run stage res calls tokens cost = (Inr s0 :: (attempt_fault, attempt_scope) result)"
    and "activate s0 = (Inr (), s1)" and "scope_run ops s1 = (s, h)"
  shows "distinct (map attempt_id (admitted h)) \<and> length (admitted h) \<le> as_max_model_calls s0 \<and>
    distinct (map attempt_id (settled h)) \<and> set (map attempt_id (settled h)) \<subseteq> set (map attempt_id (admitted h)) \<and>
    (\<forall>a i b. h = a @ Admitted i # b \<longrightarrow> within_budget s0 a)"
proof -
  have n: "scope_inv s1 []" "same_limits s0 s1" using new_scope[OF assms(1,2)] by simp_all
  from scope_inv_run[OF n(1) assms(3)] have inv: "scope_inv s h" and lim: "same_limits s1 s" by simp_all
  have lim: "same_limits s0 s" using n(2) lim by (simp add: same_limits_def)
  have ids: "map attempt_id (admitted h) = map (\<lambda>k. attempt_id (identity_of s (Suc k))) [0..<as_attempt_count s]"
    using inv by (simp add: scope_inv_def o_def)
  have w: "\<forall>a i b. h = a @ Admitted i # b \<longrightarrow> within_budget s0 a" using inv within_same[OF lim] by (simp add: scope_inv_def)
  have "length (admitted h) \<le> as_max_model_calls s0"
  proof (cases "admitted h = []")
    case False
    then obtain a i b where h: "h = a @ Admitted i # b" "admitted b = []" by (rule last_admission)
    with w have "length (admitted a) < as_max_model_calls s0" by (simp add: within_budget_def)
    moreover have "admitted h = admitted a @ [i]" using h history_simps(2)[of "a @ [Admitted i]" b] by simp
    ultimately show ?thesis by simp
  qed simp
  moreover have "distinct (map attempt_id (admitted h))" unfolding ids by (simp add: distinct_map inj_on_def attempt_ids_distinct)
  moreover have "as_attempt_ids s = map attempt_id (admitted h)" using inv by (simp add: scope_inv_def)
  ultimately show ?thesis using inv w unfolding scope_inv_def by metis
qed


definition small_scope :: attempt_scope where
  "small_scope = \<lparr>as_run_id = ''r'', as_stage = ''plan'', as_reservation_id = ''b'', as_max_model_calls = 3, as_max_tokens = Some 10, as_max_cost = None,
     as_active = False, as_closed = False, as_attempt_count = 0, as_tokens = 0, as_cost = 0, as_unknown_attempts = 0, as_in_flight = {}, as_attempt_ids = []\<rparr>"

definition small_scope_ops :: "scope_op list" where
  "small_scope_ops = [OpBegin, OpFinish (identity_of small_scope 1) (JInt 4) (JInt 0) False, OpBegin,
     OpFinish (identity_of small_scope 2) (JInt 6) (JInt 0) False, OpBegin]"

lemma small_scope_run:
  "attempt_scope_init (JStr ''r'') (JStr ''plan '') (JStr ''b'') (JInt 3) (JInt 10) JNull = (Inr small_scope :: (attempt_fault, attempt_scope) result)"
  "activate small_scope = (Inr (), small_scope\<lparr>as_active := True\<rparr>)"
  "length (admitted (snd (scope_run small_scope_ops (small_scope\<lparr>as_active := True\<rparr>)))) = 2"
  by code_simp+

theorem attempts_within_budget_witness:
  "length (admitted (snd (scope_run small_scope_ops (small_scope\<lparr>as_active := True\<rparr>)))) = 2 \<and>
   distinct (map attempt_id (admitted (snd (scope_run small_scope_ops (small_scope\<lparr>as_active := True\<rparr>)))))"
  using attempts_within_budget[OF small_scope_run(1,2), of small_scope_ops] small_scope_run(3)
  by (cases "scope_run small_scope_ops (small_scope\<lparr>as_active := True\<rparr>)") simp

end
