(* ===== verification/Model_Guarantees.thy ===== *)
theory Model_Guarantees
  imports Model_Demo Attempt_Budget
begin

text \<open>
  Guarantees of the model retry. A run is described by the number of the attempt that ended it: all earlier ones were answered by the provider with
  a retryable error. Its pushes are retry events followed by events of that last attempt, and whatever happens its output ends.
\<close>

section \<open>Outcomes of calls\<close>

definition afterM :: "'a model_call \<Rightarrow> model_run \<Rightarrow> ((stream_fault, 'a) result \<Rightarrow> model_run \<Rightarrow> bool) \<Rightarrow> bool" where
  "afterM m s Q \<longleftrightarrow> (case m s of (r, s') \<Rightarrow> Q r s')"

lemma afterM_thenM [simp]:
  "afterM (thenM m f) s Q \<longleftrightarrow> afterM m s (\<lambda>r s'. case r of Inl e \<Rightarrow> Q (Inl e) s' | Inr x \<Rightarrow> afterM (f x) s' Q)"
  by (auto simp: afterM_def thenM_def split: prod.splits sum.splits)

lemma afterM_pure [simp]: "afterM (pureM r) s Q \<longleftrightarrow> Q r s"
  by (simp add: afterM_def pureM_def)

lemma afterM_mono: "afterM m s P \<Longrightarrow> (\<And>r s'. P r s' \<Longrightarrow> Q r s') \<Longrightarrow> afterM m s Q"
  by (auto simp: afterM_def)

lemma afterM_if: "afterM (if b then m else m') s Q \<longleftrightarrow> (if b then afterM m s Q else afterM m' s Q)"
  by simp

section \<open>What a call adds to the run\<close>

definition pushes :: "stream_op list \<Rightarrow> jdict list" where
  "pushes ops = concat (map (\<lambda>op. case op of Push e \<Rightarrow> [e] | _ \<Rightarrow> []) ops)"

lemma pushes_simps [simp]:
  "pushes [] = []" "pushes (a @ b) = pushes a @ pushes b" "pushes [Push e] = [e]" "pushes [FailWith x] = []" "pushes (replicate k Next) = []"
  by (simp_all add: pushes_def)

text \<open>\<open>adds s s' es cs ws\<close>: the events pushed, the calls of the provider and the waits of a part of a run.\<close>

definition adds :: "model_run \<Rightarrow> model_run \<Rightarrow> jdict list \<Rightarrow> nat list \<Rightarrow> rat list \<Rightarrow> bool" where
  "adds s s' es cs ws \<longleftrightarrow> pushes (rs_ops s') = pushes (rs_ops s) @ es \<and> rs_calls s' = rs_calls s @ cs \<and> rs_waits s' = rs_waits s @ ws"

lemma adds_refl [simp]: "adds s s [] [] []"
  by (simp add: adds_def)

lemma adds_trans: "adds s t a b c \<Longrightarrow> adds t u a' b' c' \<Longrightarrow> adds s u (a @ a') (b @ b') (c @ c')"
  by (simp add: adds_def)

lemma push_output_adds: "afterM (push_output H cfg e) s (\<lambda>r s'. adds s s' [e] [] [])"
  by (simp add: afterM_def push_output_def adds_def)

lemma reads_adds [simp]: "adds s (reads k s) [] [] []"
  by (simp add: reads_def adds_def)

lemma emit_adds: "afterM (emit_retry_event H cfg W e) s (\<lambda>r s'. adds s s' [e] [] [] \<or> adds s s' [] [] [] \<and> \<not> isOk r)"
  by (auto simp: afterM_def emit_retry_event_def push_output_def reads_def adds_def Let_def split: option.splits)

lemma emit_adds_prefix: "afterM (emit_retry_event H cfg W e) s (\<lambda>r s'. \<exists>es. adds s s' es [] [] \<and> set es \<subseteq> {e})"
  by (rule afterM_mono[OF emit_adds]) force

lemma push_all_adds: "afterM (push_all H cfg es) s (\<lambda>r s'. \<exists>a b. es = a @ b \<and> adds s s' a [] [])"
proof (induction es arbitrary: s)
  case (Cons e es)
  have "afterM (push_all H cfg es) s1 (\<lambda>r s2. \<exists>a b. e # es = a @ b \<and> adds s s2 a [] [])" if s1: "adds s s1 [e] [] []" for s1
  proof (rule afterM_mono[OF Cons.IH])
    fix r s2
    assume "\<exists>a b. es = a @ b \<and> adds s1 s2 a [] []"
    then obtain a b where "es = a @ b" "adds s1 s2 a [] []" by blast
    then show "\<exists>a b. e # es = a @ b \<and> adds s s2 a [] []" using adds_trans[OF s1] by (intro exI[of _ "e # a"] exI[of _ b]) fastforce
  qed
  moreover have "\<exists>a b. e # es = a @ b \<and> adds s s1 a [] []" if "adds s s1 [e] [] []" for s1
    using that by (intro exI[of _ "[e]"] exI[of _ es]) simp
  ultimately show ?case unfolding push_all.simps afterM_thenM
    by (intro afterM_mono[OF push_output_adds]) (simp split: sum.splits)
qed (auto intro!: exI[of _ "[]"])


section \<open>One attempt\<close>

text \<open>An answer made without the provider: one error event whose error must not be retried.\<close>

definition refused :: "jdict list \<times> jdict \<Rightarrow> bool" where
  "refused a \<longleftrightarrow> (\<exists>final d. a = error_events final \<and> jget final ''stopReason'' = JStr ''error'' \<and> jget final ''providerError'' = JObj d \<and>
     jget d ''retryable'' = JBool False \<and> jget d ''retryAfterMs'' = JNull)"

lemma assistant_fields:
  "map_of (assistant_message redact m content stop err usage now) ''stopReason'' = Some (JStr stop)"
  "map_of (assistant_message redact m content stop err usage now) ''providerError'' = None"
  by (auto simp: assistant_message_def split: option.splits)

lemma refusedI:
  assumes "map_of m ''stopReason'' = Some (JStr ''error'')" "map_of m ''providerError'' = None"
  shows "refused (error_events (m @ refused_details code # extra))"
  unfolding refused_def
  by (rule exI, rule exI[of _ "[(''code'', JStr code), (''statusCode'', JNull), (''retryAfterMs'', JNull), (''retryable'', JBool False)]"],
      rule conjI, rule refl) (use assms in \<open>simp add: jget_def map_add_def refused_details_def\<close>)

lemma circuit_refused: "refused (circuit_answer W n)"
  unfolding circuit_answer_def by (rule refusedI) (simp_all add: assistant_fields)

lemma budget_refused: "refused (budget_answer W n s)"
  unfolding budget_answer_def by (rule refusedI) (simp_all add: assistant_fields)

lemma refused_decision:
  assumes "refused (events, final)"
  obtains d where "classify_model_error H U final pol = Inr d" "\<not> rd_retryable d"
proof -
  from assms obtain d where d: "jget final ''stopReason'' = JStr ''error''" "jget final ''providerError'' = JObj d"
    "jget d ''retryable'' = JBool False" "jget d ''retryAfterMs'' = JNull" by (auto simp: refused_def error_events_def)
  have "\<exists>x. classify_model_error H U final pol = Inr x \<and> \<not> rd_retryable x"
    using d by (simp add: classify_model_error_def classify_details_def retry_after_of_def Let_def)
  then show thesis using that by blast
qed

definition answered :: "model_world \<Rightarrow> nat \<Rightarrow> jdict list \<times> jdict \<Rightarrow> bool" where
  "answered W n a \<longleftrightarrow> mw_stream W n = Streamed (fst a) (snd a) \<and> fst a \<noteq> [] \<and> jget (last (fst a)) ''type'' \<in> {JStr ''done'', JStr ''error''}"

lemma checked_ok: "checked_events a = Inr b \<Longrightarrow> b = a \<and> fst a \<noteq> [] \<and> jget (last (fst a)) ''type'' \<in> {JStr ''done'', JStr ''error''}"
  by (cases "fst a" rule: rev_cases) (auto simp: checked_events_def Let_def split: if_splits)

lemma provider_ok: "provider_stream W n = Inr a \<Longrightarrow> mw_audit W n = None \<and> mw_stream W n = Streamed (fst a) (snd a)"
  by (auto simp: provider_stream_def split: option.splits provider_call.splits)

lemma scoped_ok:
  assumes "scoped_attempt W n i s = (Inr a, s')"
  shows "mw_audit W n = None \<and> (answered W n a \<or> refused a)"
proof -
  from assms obtain b where b: "provider_stream W n = Inr b" by (auto simp: scoped_attempt_def split: sum.splits)
  obtain r t where st: "settle_usage W i (snd b) s = (r, t)" by fastforce
  with assms b have "r = Inr True \<and> checked_events b = Inr a \<or> r = Inr False \<and> a = budget_answer W n t"
    by (cases r) (auto simp: scoped_attempt_def split: bool.splits)
  then show ?thesis using provider_ok[OF b] checked_ok budget_refused by (fastforce simp: answered_def)
qed

lemma awaited_adds: "adds s (provider_awaited W n s) [] (if mw_audit W n = None then [n] else []) []"
  by (simp add: provider_awaited_def reads_def adds_def)

lemma one_attempt_spec:
  "afterM (one_attempt W n) s (\<lambda>r s'. (\<exists>cs. adds s s' [] cs [] \<and> set cs \<subseteq> {n} \<and> length cs \<le> 1) \<and>
     (\<forall>a. r = Inr a \<longrightarrow> answered W n a \<and> adds s s' [] [n] [] \<or> refused a))"
proof (cases "rs_scope s")
  case None
  have "answered W n a \<and> mw_audit W n = None" if "bindE (provider_stream W n) checked_events = Inr a" for a
  proof -
    from that obtain b where b: "provider_stream W n = Inr b" "checked_events b = Inr a" by (auto simp: exc_simps)
    from provider_ok[OF b(1)] checked_ok[OF b(2)] show ?thesis by (simp add: answered_def)
  qed
  with None show ?thesis using awaited_adds[of s W n] by (auto simp: afterM_def one_attempt_def)
next
  case (Some sc)
  show ?thesis
  proof (cases "begin_attempt sc")
    case (Pair x sc1)
    show ?thesis
    proof (cases x)
      case (Inl e)
      have "refused a" if "budget_answer W n sc1 = a" for a using budget_refused that by metis
      moreover have "\<exists>cs. adds s s [] cs [] \<and> set cs \<subseteq> {n} \<and> length cs \<le> 1" by (rule exI[of _ "[]"]) simp
      ultimately show ?thesis using Inl Pair Some by (auto simp: afterM_def one_attempt_def)
    next
      case (Inr i)
      obtain r sc2 where sa: "scoped_attempt W n i (mw_scope_during W n sc1) = (r, sc2)" by fastforce
      have "adds s ((provider_awaited W n s)\<lparr>rs_scope := Some sc2\<rparr>) [] (if mw_audit W n = None then [n] else []) []"
        using awaited_adds[of s W n] by (simp add: adds_def)
      with Inr Pair Some sa show ?thesis using scoped_ok[of W n i "mw_scope_during W n sc1" _ sc2]
        by (auto simp: afterM_def one_attempt_def)
    qed
  qed
qed


section \<open>Runs\<close>

definition retried :: "host \<Rightarrow> unicode \<Rightarrow> model_world \<Rightarrow> model_retry_policy \<Rightarrow> nat \<Rightarrow> bool" where
  "retried H U W pol k \<longleftrightarrow> k < rl_max_retries pol \<and> (\<exists>events final d. mw_stream W k = Streamed events final \<and>
     classify_model_error H U final pol = (Inr d :: (stream_fault, model_retry_decision) result) \<and> rd_retryable d)"

definition retry_event :: "string \<Rightarrow> jdict \<Rightarrow> bool" where
  "retry_event retry_id e \<longleftrightarrow> jget e ''retryId'' = JStr retry_id \<and>
     jget e ''type'' \<in> {JStr ''model_retry_scheduled'', JStr ''model_retry_attempt_start'', JStr ''model_retry_finished''}"

text \<open>What the consumer may see of the last attempt: a part of what the provider streamed in it, or one error event made here.\<close>

definition shown_by :: "model_world \<Rightarrow> nat \<Rightarrow> jdict list \<Rightarrow> bool" where
  "shown_by W m shown \<longleftrightarrow> (\<exists>rest. (\<exists>final. mw_stream W m = Streamed (shown @ rest) final) \<or>
     (\<exists>x. shown @ rest = [x] \<and> jget x ''type'' = JStr ''error''))"

definition waited_ok :: "model_world \<Rightarrow> model_retry_policy \<Rightarrow> nat \<Rightarrow> rat \<Rightarrow> bool" where
  "waited_ok W pol k d \<longleftrightarrow> 0 \<le> d \<and> d \<le> rl_max_delay pol \<and> mw_elapsed W k + d \<le> rl_max_elapsed pol"

definition run_spec :: "host \<Rightarrow> unicode \<Rightarrow> model_world \<Rightarrow> model_retry_policy \<Rightarrow> string \<Rightarrow> nat \<Rightarrow> model_run \<Rightarrow> model_run \<Rightarrow> bool" where
  "run_spec H U W pol retry_id n s s' \<longleftrightarrow> (\<exists>m cs ws retries shown. n \<le> m \<and> adds s s' (retries @ shown) cs ws \<and>
     (cs = [n..<m] \<or> cs = [n..<Suc m]) \<and> (\<forall>k. n \<le> k \<longrightarrow> k < m \<longrightarrow> retried H U W pol k) \<and>
     list_all (retry_event retry_id) retries \<and> shown_by W m shown \<and>
     length ws \<le> rl_max_retries pol - n \<and> (\<forall>i < length ws. waited_ok W pol (n + i) (ws ! i)))"

lemma shown_Nil: "shown_by W m []"
  unfolding shown_by_def by (intro exI[of _ "[[(''type'', JStr ''error'')]]"]) (simp add: jget_def)

lemma run_spec_ends:
  assumes "adds s s' (retries @ shown) cs ws" "cs = [] \<or> cs = [n]" "list_all (retry_event retry_id) retries" "shown_by W n shown"
    "ws = [] \<or> n < rl_max_retries pol \<and> (\<exists>d. ws = [d] \<and> waited_ok W pol n d)"
  shows "run_spec H U W pol retry_id n s s'"
  unfolding run_spec_def using assms
  by (intro exI[of _ n] exI[of _ cs] exI[of _ ws] exI[of _ retries] exI[of _ shown]) auto

lemma run_spec_quiet: "adds s s' [] cs [] \<Longrightarrow> cs = [] \<or> cs = [n] \<Longrightarrow> run_spec H U W pol retry_id n s s'"
  using run_spec_ends[of s s' "[]" "[]" cs "[]"] shown_Nil by simp

lemma run_spec_step:
  assumes "adds s s1 es [n] [d]" "list_all (retry_event retry_id) es" "retried H U W pol n" "waited_ok W pol n d"
    "run_spec H U W pol retry_id (Suc n) s1 s'"
  shows "run_spec H U W pol retry_id n s s'"
proof -
  from assms(5) obtain m cs ws retries shown where r: "Suc n \<le> m" "adds s1 s' (retries @ shown) cs ws"
    "cs = [Suc n..<m] \<or> cs = [Suc n..<Suc m]" "\<And>k. Suc n \<le> k \<Longrightarrow> k < m \<Longrightarrow> retried H U W pol k"
    "list_all (retry_event retry_id) retries" "shown_by W m shown" "length ws \<le> rl_max_retries pol - Suc n"
    "\<And>i. i < length ws \<Longrightarrow> waited_ok W pol (Suc n + i) (ws ! i)" unfolding run_spec_def by metis
  have "adds s s' ((es @ retries) @ shown) (n # cs) (d # ws)" using adds_trans[OF assms(1) r(2)] by simp
  moreover have "n # cs = [n..<m] \<or> n # cs = [n..<Suc m]" using r(1,3) by (auto simp: upt_conv_Cons)
  moreover have "retried H U W pol k" if "n \<le> k" "k < m" for k using r(4) assms(3) that by (cases "k = n") auto
  moreover have "waited_ok W pol (n + i) ((d # ws) ! i)" if "i < length (d # ws)" for i using that r(8) assms(4) by (cases i) auto
  moreover have "length (d # ws) \<le> rl_max_retries pol - n" using r(7) assms(3) by (auto simp: retried_def)
  ultimately show ?thesis unfolding run_spec_def using r(1,5,6) assms(2)
    by (intro exI[of _ m] exI[of _ "n # cs"] exI[of _ "d # ws"] exI[of _ "es @ retries"] exI[of _ shown]) auto
qed

lemma retry_events:
  "retry_event i (model_scheduled i n limit d dec)" "retry_event i (model_started i n)" "retry_event i (model_finished i b n err)"
  by (auto simp: retry_event_def model_scheduled_def model_started_def model_finished_def jget_def)

lemma emitted_adds:
  assumes "retry_event i e"
  shows "afterM (emit_retry_event H cfg W e) s (\<lambda>r s'. \<exists>es. adds s s' es [] [] \<and> list_all (retry_event i) es)"
  by (rule afterM_mono[OF emit_adds_prefix]) (use assms in \<open>auto simp: list_all_iff\<close>)

definition delivers :: "string \<Rightarrow> jdict list \<Rightarrow> model_run \<Rightarrow> model_run \<Rightarrow> bool" where
  "delivers i events s s' \<longleftrightarrow> (\<exists>es shown rest. adds s s' (es @ shown) [] [] \<and> list_all (retry_event i) es \<and> events = shown @ rest)"

lemma delivers_quiet: "adds s s' es [] [] \<Longrightarrow> list_all (retry_event i) es \<Longrightarrow> delivers i events s s'"
  unfolding delivers_def by (intro exI[of _ es] exI[of _ "[]"] exI[of _ events]) simp

lemma delivers_then:
  assumes "adds s s1 es [] []" "list_all (retry_event i) es" "events = shown @ rest" "adds s1 s' shown [] []"
  shows "delivers i events s s'"
  unfolding delivers_def using adds_trans[OF assms(1,4)] assms(2,3) by (intro exI[of _ es] exI[of _ shown] exI[of _ rest]) simp

lemma emit_then_push:
  assumes "retry_event i e" "\<And>s. afterM m s (\<lambda>r s'. \<exists>a b. events = a @ b \<and> adds s s' a [] [])"
  shows "afterM (thenM (emit_retry_event H cfg W e) (\<lambda>_. m)) s (\<lambda>r s'. delivers i events s s')"
  unfolding afterM_thenM
proof (rule afterM_mono[OF emitted_adds[OF assms(1)]])
  fix r s1
  assume "\<exists>es. adds s s1 es [] [] \<and> list_all (retry_event i) es"
  then obtain es where es: "adds s s1 es [] []" "list_all (retry_event i) es" by blast
  have "afterM m s1 (\<lambda>r s'. delivers i events s s')"
    by (rule afterM_mono[OF assms(2)]) (use delivers_then[OF es] in blast)
  then show "case r of Inl e \<Rightarrow> delivers i events s s1 | Inr x \<Rightarrow> afterM m s1 (\<lambda>r s'. delivers i events s s')"
    using delivers_quiet[OF es] by (simp split: sum.splits)
qed

lemma deliver_answer_spec: "afterM (deliver_answer H cfg W i n events final d) s (\<lambda>r s'. delivers i events s s')"
proof -
  have p: "afterM (push_all H cfg events) t (\<lambda>r s'. delivers i events t s')" for t
    by (rule afterM_mono[OF push_all_adds]) (use delivers_then[of t t "[]" i events] in auto)
  show ?thesis
  proof (cases "n = 0 \<or> \<not> hashable (jget final ''stopReason'')")
    case True
    then show ?thesis using p delivers_quiet[of s s "[]" i events]
      by (cases "n = 0") (simp_all add: deliver_answer_def Let_def)
  next
    case False
    then show ?thesis unfolding deliver_answer_def Let_def by (simp only: if_False de_Morgan_disj simp_thms) (rule emit_then_push[OF retry_events(3) push_all_adds])
  qed
qed

lemma deliver_aborted_spec: "afterM (deliver_aborted H cfg W i n) s (\<lambda>r s'. delivers i [aborted_event W n] s s')"
  unfolding deliver_aborted_def
proof (rule emit_then_push[OF retry_events(3)])
  fix s
  show "afterM (push_output H cfg (aborted_event W n)) s (\<lambda>r s'. \<exists>a b. [aborted_event W n] = a @ b \<and> adds s s' a [] [])"
    by (rule afterM_mono[OF push_output_adds], intro exI[of _ "[aborted_event W n]"] exI[of _ "[]"]) simp
qed

lemma aborted_shown: "shown @ rest = [aborted_event W n] \<Longrightarrow> shown_by W k shown"
  unfolding shown_by_def by (rule exI[of _ rest]) (auto simp: aborted_event_def jget_def)


section \<open>The loop\<close>

lemma ask_spec: "afterM (ask_breaker W p n) s (\<lambda>r s'. (\<exists>b. r = Inr b) \<and> adds s s' [] [] [])"
  by (auto simp: afterM_def ask_breaker_def adds_def split: prod.splits)

lemma tell_spec: "afterM (tell_breaker W p n rej failed) s (\<lambda>r s'. r = Inr () \<and> adds s s' [] [] [])"
  by (auto simp: afterM_def tell_breaker_def adds_def)

lemma answer_spec:
  "afterM (if rej then pureM (Inr (circuit_answer W n)) else one_attempt W n) s
     (\<lambda>r s'. (\<exists>cs. adds s s' [] cs [] \<and> (cs = [] \<or> cs = [n])) \<and> (\<forall>a. r = Inr a \<longrightarrow> answered W n a \<and> adds s s' [] [n] [] \<or> refused a))"
proof (cases rej)
  case True
  have "refused a" if "circuit_answer W n = a" for a using circuit_refused that by metis
  with True show ?thesis by (auto intro!: exI[of _ "[]"])
next
  case False
  have "set cs \<subseteq> {n} \<and> length cs \<le> 1 \<Longrightarrow> cs = [] \<or> cs = [n]" for cs by (cases cs) auto
  with False show ?thesis by (simp, intro afterM_mono[OF one_attempt_spec]) blast
qed

lemma delivered_spec:
  assumes "adds s s1 es cs ws" "list_all (retry_event i) es" "cs = [] \<or> cs = [n]" "delivers i events s1 s'"
    "\<And>shown rest. events = shown @ rest \<Longrightarrow> shown_by W n shown"
    "ws = [] \<or> n < rl_max_retries pol \<and> (\<exists>d. ws = [d] \<and> waited_ok W pol n d)"
  shows "run_spec H U W pol i n s s'"
proof -
  from assms(4) obtain es2 shown rest where d: "adds s1 s' (es2 @ shown) [] []" "list_all (retry_event i) es2" "events = shown @ rest"
    by (auto simp: delivers_def)
  have "adds s s' ((es @ es2) @ shown) cs ws" using adds_trans[OF assms(1) d(1)] by simp
  then show ?thesis
    by (rule run_spec_ends[of s s' "es @ es2" shown]) (use assms(2,3,6) assms(5)[OF d(3)] d(2) in simp_all)
qed

lemma answered_shown: "answered W n (events, final) \<or> refused (events, final) \<Longrightarrow> events = shown @ rest \<Longrightarrow> shown_by W n shown"
  unfolding shown_by_def by (rule exI[of _ rest]) (auto simp: answered_def refused_def error_events_def jget_def)

lemma retry_part_spec:
  assumes s3: "adds s s3 [] [n] []" and ok: "retried H U W pol n" "waited_ok W pol n delay"
    and IH: "\<And>s. afterM again s (\<lambda>r s'. run_spec H U W pol i (Suc n) s s')"
  shows "afterM (wait_and_retry H cfg W pol i n d delay again) s3 (\<lambda>r s'. run_spec H U W pol i n s s')"
  unfolding wait_and_retry_def afterM_thenM
proof (rule afterM_mono[OF emitted_adds[OF retry_events(1)]])
  fix r s4
  assume "\<exists>es. adds s3 s4 es [] [] \<and> list_all (retry_event i) es"
  then obtain es where es: "adds s3 s4 es [] []" "list_all (retry_event i) es" by blast
  have s4: "adds s s4 es [n] []" using adds_trans[OF s3 es(1)] by simp
  have n: "n < rl_max_retries pol" using ok(1) by (simp add: retried_def)
  define s5 where "s5 = s4\<lparr>rs_waits := rs_waits s4 @ [delay]\<rparr>"
  have s5: "adds s s5 es [n] [delay]" using s4 by (simp add: s5_def adds_def)
  have aborted: "afterM (deliver_aborted H cfg W i (n + 1)) s5 (\<lambda>r s'. run_spec H U W pol i n s s')"
    by (rule afterM_mono[OF deliver_aborted_spec], rule delivered_spec[OF s5 es(2)]) (use ok(2) n aborted_shown in \<open>auto dest: sym\<close>)
  have killed: "run_spec H U W pol i n s t" if "adds s t es' [n] [delay]" "list_all (retry_event i) es'" for t es'
    by (rule run_spec_ends[of s t es' "[]" "[n]" "[delay]"]) (use that ok(2) n shown_Nil in auto)
  have again: "afterM (emit_retry_event H cfg W (model_started i (n + 1))) s5 (\<lambda>r s6. case r of Inl e \<Rightarrow> run_spec H U W pol i n s s6
      | Inr x \<Rightarrow> afterM again s6 (\<lambda>r s'. run_spec H U W pol i n s s'))"
  proof (rule afterM_mono[OF emitted_adds[OF retry_events(2)]])
    fix r s6
    assume "\<exists>es. adds s5 s6 es [] [] \<and> list_all (retry_event i) es"
    then obtain es' where e: "adds s5 s6 es' [] []" "list_all (retry_event i) es'" by blast
    have s6: "adds s s6 (es @ es') [n] [delay]" "list_all (retry_event i) (es @ es')" using adds_trans[OF s5 e(1)] e(2) es(2) by simp_all
    have "afterM again s6 (\<lambda>r s'. run_spec H U W pol i n s s')"
      by (rule afterM_mono[OF IH]) (rule run_spec_step[OF s6 ok])
    then show "case r of Inl e \<Rightarrow> run_spec H U W pol i n s s6
        | Inr x \<Rightarrow> afterM again s6 (\<lambda>r s'. run_spec H U W pol i n s s')"
      using killed[OF s6] by (simp split: sum.splits)
  qed
  have sleep: "afterM (sleep_delay delay) s4 Q \<longleftrightarrow> Q (Inr ()) s5" for Q by (simp add: afterM_def sleep_delay_def s5_def)
  have quiet: "run_spec H U W pol i n s s4"
    by (rule run_spec_ends[of s s4 es "[]" "[n]" "[]"]) (use s4 es(2) shown_Nil in auto)
  show "case r of Inl e \<Rightarrow> run_spec H U W pol i n s s4
      | Inr x \<Rightarrow> afterM (sleep_delay delay) s4 (\<lambda>r s'. case r of Inl e \<Rightarrow> run_spec H U W pol i n s s' | Inr x \<Rightarrow>
          afterM (case mw_sleep W n of
            TokenCancelled \<Rightarrow> deliver_aborted H cfg W i (n + 1)
          | TaskCancelled \<Rightarrow> pureM (Inl (Raised (ProducerFailed ''cancelled'')))
          | SleptThrough \<Rightarrow> thenM (emit_retry_event H cfg W (model_started i (n + 1))) (\<lambda>_. again)) s'
            (\<lambda>r s'. run_spec H U W pol i n s s'))"
  proof (cases r)
    case (Inr x)
    show ?thesis unfolding Inr sleep sum.case
    proof (cases "mw_sleep W n")
      case SleptThrough
      then show "afterM (case mw_sleep W n of
            TokenCancelled \<Rightarrow> deliver_aborted H cfg W i (n + 1)
          | TaskCancelled \<Rightarrow> pureM (Inl (Raised (ProducerFailed ''cancelled'')))
          | SleptThrough \<Rightarrow> thenM (emit_retry_event H cfg W (model_started i (n + 1))) (\<lambda>_. again)) s5
            (\<lambda>r s'. run_spec H U W pol i n s s')" using again by (simp only: sleep_end.case afterM_thenM)
    qed (use aborted killed[OF s5 es(2)] in simp_all)
  qed (use quiet in simp)
qed


text \<open>What follows the classification of an answer.\<close>

lemma decided_spec:
  assumes s3: "adds s s3 [] cs []" "cs = [] \<or> cs = [n]" and lim: "limits_ok pol"
    and a: "answered W n (events, final) \<and> cs = [n] \<or> refused (events, final)"
    and d: "classify_model_error H U final pol = (Inr d :: (stream_fault, model_retry_decision) result)"
    and IH: "\<And>s. n < rl_max_retries pol \<Longrightarrow> afterM again s (\<lambda>r s'. run_spec H U W pol i (Suc n) s s')"
  shows "afterM (after_answer H cfg W pol i n events final d again) s3 (\<lambda>r s'. run_spec H U W pol i n s s')"
proof -
  have deliver: "afterM (deliver_answer H cfg W i n events final d) s3 (\<lambda>r s'. run_spec H U W pol i n s s')"
    by (rule afterM_mono[OF deliver_answer_spec], rule delivered_spec[OF s3(1) _ s3(2)]) (use a answered_shown[of W n events final] in auto)
  show ?thesis
  proof (cases "rd_retryable d \<and> n < rl_max_retries pol")
    case False
    with deliver show ?thesis by (auto simp: after_answer_def)
  next
    case True
    from True d have "\<not> refused (events, final)" using refused_decision[of events final H U pol] by (metis Inr_inject)
    with a have an: "answered W n (events, final)" "cs = [n]" by simp_all
    with True d have ret: "retried H U W pol n" by (auto simp: retried_def answered_def)
    have quiet: "run_spec H U W pol i n s s3" using run_spec_quiet[OF s3] .
    show ?thesis
    proof (cases "retry_delay_seconds (n + 1) pol (mw_sample W n) (rd_retry_after d) :: (stream_fault, rat option) result")
      case (Inl e)
      with True quiet show ?thesis by (simp add: after_answer_def)
    next
      case (Inr delay)
      show ?thesis
      proof (cases "\<exists>x. delay = Some x \<and> mw_elapsed W n + x \<le> rl_max_elapsed pol")
        case False
        with True Inr deliver show ?thesis by (cases delay) (auto simp: after_answer_def)
      next
        case w: True
        then obtain x where x: "delay = Some x" "mw_elapsed W n + x \<le> rl_max_elapsed pol" by blast
        then have ok: "waited_ok W pol n x" using retry_delay_bounds[OF _ lim] Inr by (auto simp: waited_ok_def)
        from an(2) s3(1) have "adds s s3 [] [n] []" by simp
        from retry_part_spec[OF this ret ok IH] True Inr x show ?thesis
          by (simp add: after_answer_def)
      qed
    qed
  qed
qed

lemma answer_phase:
  assumes s1: "adds s s1 [] [] []"
    and K: "\<And>events final d cs s3. adds s s3 [] cs [] \<Longrightarrow> cs = [] \<or> cs = [n] \<Longrightarrow>
      answered W n (events, final) \<and> cs = [n] \<or> refused (events, final) \<Longrightarrow>
      classify_model_error H U final pol = (Inr d :: (stream_fault, model_retry_decision) result) \<Longrightarrow>
      afterM (K events final d) s3 (\<lambda>r s'. run_spec H U W pol i n s s')"
  shows "afterM (thenM (if rej then pureM (Inr (circuit_answer W n)) else one_attempt W n) (\<lambda>(events, final).
      thenM (pureM (classify_model_error H U final pol)) (\<lambda>d.
      thenM (tell_breaker W p n rej (rd_retryable d)) (\<lambda>_. K events final d)))) s1 (\<lambda>r s'. run_spec H U W pol i n s s')"
  unfolding afterM_thenM
proof (rule afterM_mono[OF answer_spec])
  fix q :: "(stream_fault, jdict list \<times> jdict) result" and s2
  assume q: "(\<exists>cs. adds s1 s2 [] cs [] \<and> (cs = [] \<or> cs = [n])) \<and> (\<forall>a. q = Inr a \<longrightarrow> answered W n a \<and> adds s1 s2 [] [n] [] \<or> refused a)"
  then obtain cs where "adds s1 s2 [] cs []" "cs = [] \<or> cs = [n]" by blast
  with adds_trans[OF s1] have quiet: "run_spec H U W pol i n s s2" by (intro run_spec_quiet[of s s2 cs]) fastforce+
  show "case q of Inl e \<Rightarrow> run_spec H U W pol i n s s2 | Inr x \<Rightarrow>
      afterM (case x of (events, final) \<Rightarrow> thenM (pureM (classify_model_error H U final pol)) (\<lambda>d.
        thenM (tell_breaker W p n rej (rd_retryable d)) (\<lambda>_. K events final d))) s2 (\<lambda>r s'. run_spec H U W pol i n s s')"
  proof (cases q)
    case (Inl e)
    then show ?thesis using quiet by simp
  next
    case (Inr a)
    obtain events final where ef: "a = (events, final)" by fastforce
    from q Inr ef have "\<exists>cs. adds s1 s2 [] cs [] \<and> (cs = [] \<or> cs = [n]) \<and> (answered W n (events, final) \<and> cs = [n] \<or> refused (events, final))" by blast
    then obtain cs where cs: "adds s1 s2 [] cs []" "cs = [] \<or> cs = [n]" "answered W n (events, final) \<and> cs = [n] \<or> refused (events, final)" by blast
    have tell: "afterM (tell_breaker W p n rej (rd_retryable d)) s2 (\<lambda>r s'. case r of Inl e \<Rightarrow> run_spec H U W pol i n s s'
        | Inr x \<Rightarrow> afterM (K events final d) s' (\<lambda>r s'. run_spec H U W pol i n s s'))"
      if d: "classify_model_error H U final pol = (Inr d :: (stream_fault, model_retry_decision) result)" for d
    proof (rule afterM_mono[OF tell_spec])
      fix r :: "(stream_fault, unit) result" and s3
      assume r: "r = Inr () \<and> adds s2 s3 [] [] []"
      then have "adds s s3 [] cs []" using adds_trans[OF adds_trans[OF s1 cs(1)], of s3 "[]" "[]" "[]"] by simp
      from K[OF this cs(2,3) d] r show "case r of Inl e \<Rightarrow> run_spec H U W pol i n s s3
        | Inr x \<Rightarrow> afterM (K events final d) s3 (\<lambda>r s'. run_spec H U W pol i n s s')" by simp
    qed
    show ?thesis
    proof (cases "classify_model_error H U final pol :: (stream_fault, model_retry_decision) result")
      case (Inl e)
      with \<open>q = Inr a\<close> ef show ?thesis using quiet by simp
    next
      case (Inr d)
      with \<open>q = Inr a\<close> ef tell show ?thesis by simp
    qed
  qed
qed

lemma model_loop_spec:
  assumes "limits_ok pol"
  shows "afterM (model_loop H U cfg W pol i n) s (\<lambda>r s'. run_spec H U W pol i n s s')"
proof (induction "rl_max_retries pol - n" arbitrary: n s rule: less_induct)
  case less
  have IH: "afterM (model_loop H U cfg W pol i (n + 1)) s (\<lambda>r s'. run_spec H U W pol i (Suc n) s s')" if "n < rl_max_retries pol" for s
    using less[of "n + 1"] that by simp
  show ?case
    unfolding model_loop.simps[of H U cfg W pol i n] afterM_thenM[of "ask_breaker W (mp_circuit_breaker pol) n"]
  proof (rule afterM_mono[OF ask_spec], elim conjE exE, simp only: sum.case)
    fix s1
    assume "adds s s1 [] [] []"
    note phase = answer_phase[OF this]
    show "afterM (thenM (if rej then pureM (Inr (circuit_answer W n)) else one_attempt W n) (\<lambda>(events, final).
      thenM (pureM (classify_model_error H U final pol)) (\<lambda>d. thenM (tell_breaker W (mp_circuit_breaker pol) n rej (rd_retryable d)) (\<lambda>_.
      after_answer H cfg W pol i n events final d (model_loop H U cfg W pol i (n + 1)))))) s1 (\<lambda>r s'. run_spec H U W pol i n s s')" for rej
      by (rule phase) (rule decided_spec[OF _ _ assms _ _ IH]; assumption)
  qed
qed

section \<open>The output ends\<close>

lemma put_done: "put_nowait cfg x st = (r, st') \<Longrightarrow> es_done st' = es_done st"
  by (auto simp: put_nowait_def split: if_splits)

lemma push_queued_done: "push_queued cfg e sz k d (Some v) st = (Inr (), st') \<Longrightarrow> es_done st'"
  by (auto simp: push_queued_def Let_def set_result_def close_backpressure_notifications_def notify_queue_change_def update_high_watermarks_def
      split: prod.splits sum.splits option.splits if_splits dest!: put_done)

lemma raise_not_ok: "terminate_and_raise cfg x st \<noteq> (Inr u, st')"
  by (auto simp: terminate_and_raise_def split: prod.splits sum.splits)

lemma push_terminal_done:
  assumes "push H cfg e st = (Inr (), st')" "sc_is_complete cfg e = Inr True"
  shows "es_done st'"
proof (cases "es_done st")
  case False
  with assms raise_not_ok have "push_open H cfg e st = (Inr (), st')" by (auto simp: push_def split: prod.splits sum.splits if_splits)
  with assms(2) raise_not_ok obtain v k where "push_classified H cfg e (Some v) k False st = (Inr (), st')"
    by (cases "sc_extract_result cfg e") (auto simp: push_open_def split: sum.splits)
  with raise_not_ok show ?thesis
    by (auto simp: push_classified_def Let_def split: if_splits option.splits prod.splits bool.splits dest: push_queued_done)
qed (use assms in \<open>simp add: push_def\<close>)

lemma push_keeps_done: "es_done st \<Longrightarrow> push H cfg e st = (r, st') \<Longrightarrow> es_done st'"
  by (simp add: push_def)


lemma output_push: "push H cfg e (output_of H cfg s) = (r, st) \<Longrightarrow> output_of H cfg (s\<lparr>rs_ops := rs_ops s @ [Push e]\<rparr>) = st"
  by (simp add: output_of_def run_stream_snoc stream_step_def)

definition ends_output :: "host \<Rightarrow> stream_config \<Rightarrow> (stream_fault, 'a) result \<Rightarrow> model_run \<Rightarrow> bool" where
  "ends_output H cfg r s \<longleftrightarrow> (isOk r \<longrightarrow> es_done (output_of H cfg s))"

lemma ends_Inl [simp]: "ends_output H cfg (Inl e) s"
  by (simp add: ends_output_def)

lemma ends_then: "afterM m s (\<lambda>r s'. \<forall>x. r = Inr x \<longrightarrow> afterM (f x) s' (ends_output H cfg)) \<Longrightarrow> afterM (thenM m f) s (ends_output H cfg)"
  by (auto simp: afterM_def thenM_def split: prod.splits sum.splits)

lemma ends_any: "(\<And>x s. afterM (f x) s (ends_output H cfg)) \<Longrightarrow> afterM (thenM m f) s (ends_output H cfg)"
  by (rule ends_then) (simp add: afterM_def)

lemma if_after: "(b \<Longrightarrow> afterM m s Q) \<Longrightarrow> (\<not> b \<Longrightarrow> afterM m' s Q) \<Longrightarrow> afterM (if b then m else m') s Q"
  by simp

definition terminal :: "stream_config \<Rightarrow> jdict list \<Rightarrow> bool" where
  "terminal cfg es \<longleftrightarrow> es \<noteq> [] \<and> sc_is_complete cfg (last es) = Inr True"

lemma push_output_ends: "sc_is_complete cfg e = Inr True \<Longrightarrow> afterM (push_output H cfg e) s (ends_output H cfg)"
  using output_push push_terminal_done
  by (cases "push H cfg e (output_of H cfg s)") (auto simp: afterM_def push_output_def ends_output_def isOk_def split: sum.splits)

lemma push_all_ends: "terminal cfg es \<Longrightarrow> afterM (push_all H cfg es) s (ends_output H cfg)"
proof (induction es arbitrary: s)
  case (Cons e es)
  show ?case
  proof (cases "es = []")
    case True
    have "afterM (thenM (push_output H cfg e) (\<lambda>_. pureM (Inr ()))) s (ends_output H cfg)"
      by (rule ends_then, rule afterM_mono[OF push_output_ends]) (use Cons.prems True in \<open>auto simp: terminal_def ends_output_def\<close>)
    with True show ?thesis by simp
  next
    case False
    with Cons have "\<And>s. afterM (push_all H cfg es) s (ends_output H cfg)" by (simp add: terminal_def)
    then show ?thesis unfolding push_all.simps by (rule ends_any)
  qed
qed (simp add: terminal_def)

lemma deliver_answer_ends: "terminal cfg events \<Longrightarrow> afterM (deliver_answer H cfg W i n events final d) s (ends_output H cfg)"
  unfolding deliver_answer_def Let_def by (rule ends_any) (rule push_all_ends)

text \<open>The output of a run is an assistant stream.\<close>

lemma assistant_complete:
  "jget e ''type'' \<in> {JStr ''done'', JStr ''error''} \<Longrightarrow> sc_is_complete (assistant_config sz b p bp qc) e = Inr True"
  by (auto simp: assistant_config_def Let_def)

lemma answer_terminal:
  "afterM (if rej then pureM (Inr (circuit_answer W n)) else one_attempt W n) s
     (\<lambda>r s'. \<forall>a. r = Inr a \<longrightarrow> terminal (assistant_config sz b p bp qc) (fst a))"
proof (rule afterM_mono[OF answer_spec], intro allI impI, elim conjE)
  fix r s' a
  assume "\<forall>a. r = Inr a \<longrightarrow> answered W n a \<and> adds s s' [] [n] [] \<or> refused a" "r = Inr a"
  then have "answered W n a \<or> refused a" by blast
  then have "fst a \<noteq> [] \<and> jget (last (fst a)) ''type'' \<in> {JStr ''done'', JStr ''error''}"
    by (auto simp: answered_def refused_def error_events_def jget_def)
  then show "terminal (assistant_config sz b p bp qc) (fst a)" unfolding terminal_def using assistant_complete by blast
qed

lemma wait_and_retry_ends:
  assumes "cfg = assistant_config sz b p bp qc" "\<And>s. afterM again s (ends_output H cfg)"
  shows "afterM (wait_and_retry H cfg W pol i n d delay again) s (ends_output H cfg)"
  unfolding wait_and_retry_def
proof (intro ends_any)
  fix s
  have "afterM (deliver_aborted H cfg W i m) s (ends_output H cfg)" for m
    unfolding deliver_aborted_def assms(1)
    by (intro ends_any push_output_ends assistant_complete) (simp add: aborted_event_def jget_def)
  moreover have "afterM (thenM (emit_retry_event H cfg W (model_started i (n + 1))) (\<lambda>_. again)) s (ends_output H cfg)"
    using assms(2) by (rule ends_any)
  ultimately show "afterM (case mw_sleep W n of
        TokenCancelled \<Rightarrow> deliver_aborted H cfg W i (n + 1)
      | TaskCancelled \<Rightarrow> pureM (Inl (Raised (ProducerFailed ''cancelled'')))
      | SleptThrough \<Rightarrow> thenM (emit_retry_event H cfg W (model_started i (n + 1))) (\<lambda>_. again)) s (ends_output H cfg)"
    by (cases "mw_sleep W n") (simp_all only: sleep_end.case, simp)
qed

lemma after_answer_ends:
  assumes "cfg = assistant_config sz b p bp qc" "\<And>s. n < rl_max_retries pol \<Longrightarrow> afterM again s (ends_output H cfg)" "terminal cfg events"
  shows "afterM (after_answer H cfg W pol i n events final d again) s (ends_output H cfg)"
  unfolding after_answer_def
proof (rule if_after, rule ends_any)
  fix s and delay :: "rat option"
  assume n: "rd_retryable d \<and> n < rl_max_retries pol"
  have "afterM (wait_and_retry H cfg W pol i n d x again) s (ends_output H cfg)" for x
    by (rule wait_and_retry_ends[OF assms(1)]) (use assms(2) n in simp)
  then show "afterM (case delay of
          None \<Rightarrow> deliver_answer H cfg W i n events final d
        | Some delay \<Rightarrow>
            if mw_elapsed W n + delay \<le> rl_max_elapsed pol then wait_and_retry H cfg W pol i n d delay again
            else deliver_answer H cfg W i n events final d) s (ends_output H cfg)"
    using deliver_answer_ends[OF assms(3)] by (cases delay) simp_all
qed (rule deliver_answer_ends[OF assms(3)])

lemma model_loop_ends:
  assumes "cfg = assistant_config sz b p bp qc"
  shows "afterM (model_loop H U cfg W pol i n) s (ends_output H cfg)"
proof (induction "rl_max_retries pol - n" arbitrary: n s rule: less_induct)
  case less
  have IH: "afterM (model_loop H U cfg W pol i (n + 1)) s (ends_output H cfg)" if "n < rl_max_retries pol" for s
    using less[of "n + 1"] that by simp
  have t: "afterM (if rej then pureM (Inr (circuit_answer W n)) else one_attempt W n) s (\<lambda>r s'. \<forall>a. r = Inr a \<longrightarrow>
      afterM (case a of (events, final) \<Rightarrow> thenM (pureM (classify_model_error H U final pol)) (\<lambda>d.
        thenM (tell_breaker W (mp_circuit_breaker pol) n rej (rd_retryable d)) (\<lambda>_.
        after_answer H cfg W pol i n events final d (model_loop H U cfg W pol i (n + 1))))) s' (ends_output H cfg))" for rej s
    by (rule afterM_mono[OF answer_terminal[of _ _ _ _ sz b p bp qc]])
      (simp only: assms[symmetric] prod.case_eq_if, intro allI impI ends_any after_answer_ends[OF assms IH], simp_all)
  show ?case unfolding model_loop.simps[of H U cfg W pol i n] by (rule ends_any, rule ends_then, rule t)
qed


section \<open>Invariants of a run\<close>

lemma keeps_then:
  assumes "afterM m s (\<lambda>r. I)" "\<And>x s. I s \<Longrightarrow> afterM (f x) s (\<lambda>r. I)"
  shows "afterM (thenM m f) s (\<lambda>r. I)"
  unfolding afterM_thenM by (rule afterM_mono[OF assms(1)]) (simp add: assms(2) split: sum.splits)

text \<open>An invariant that does not look at the output or the waits is kept by all that only delivers.\<close>

definition ignores_output :: "(model_run \<Rightarrow> bool) \<Rightarrow> bool" where
  "ignores_output I \<longleftrightarrow> (\<forall>s x. I s \<longrightarrow> I (s\<lparr>rs_ops := x\<rparr>)) \<and> (\<forall>s x. I s \<longrightarrow> I (s\<lparr>rs_waits := x\<rparr>))"

lemma output_keeps:
  assumes "ignores_output I" "I s"
  shows "afterM (push_output H cfg e) s (\<lambda>r. I)" "afterM (emit_retry_event H cfg W e) s (\<lambda>r. I)" "afterM (sleep_delay d) s (\<lambda>r. I)"
  using assms by (auto simp: afterM_def push_output_def emit_retry_event_def reads_def sleep_delay_def ignores_output_def Let_def split: option.splits)

lemma push_all_keeps:
  assumes "ignores_output I"
  shows "I s \<Longrightarrow> afterM (push_all H cfg es) s (\<lambda>r. I)"
proof (induction es arbitrary: s)
  case (Cons e es)
  show ?case unfolding push_all.simps by (rule keeps_then[OF output_keeps(1)[OF assms Cons.prems]]) (rule Cons.IH)
qed simp

lemma deliver_keeps:
  assumes "ignores_output I" "I s"
  shows "afterM (deliver_answer H cfg W i n events final d) s (\<lambda>r. I)" "afterM (deliver_aborted H cfg W i n) s (\<lambda>r. I)"
proof -
  have "afterM (if n = 0 then pureM (Inr ()) else if b then pureM (Inl (Builtin TypeErr)) else emit_retry_event H cfg W e) s (\<lambda>r. I)" for b e
    using assms(2) output_keeps(2)[OF assms] by simp
  then show "afterM (deliver_answer H cfg W i n events final d) s (\<lambda>r. I)"
    unfolding deliver_answer_def Let_def by (rule keeps_then) (rule push_all_keeps[OF assms(1)])
  show "afterM (deliver_aborted H cfg W i n) s (\<lambda>r. I)"
    unfolding deliver_aborted_def by (rule keeps_then[OF output_keeps(2)[OF assms]]) (rule output_keeps(1)[OF assms(1)])
qed

lemma wait_keeps:
  assumes I: "ignores_output I" "I s" and again: "\<And>s. I s \<Longrightarrow> afterM again s (\<lambda>r. I)"
  shows "afterM (wait_and_retry H cfg W pol i n d delay again) s (\<lambda>r. I)"
  unfolding wait_and_retry_def
proof (rule keeps_then[OF output_keeps(2)[OF I]], rule keeps_then[OF output_keeps(3)[OF I(1)]], assumption)
  fix s
  assume s: "I s"
  have "afterM (thenM (emit_retry_event H cfg W (model_started i (n + 1))) (\<lambda>_. again)) s (\<lambda>r. I)"
    by (rule keeps_then[OF output_keeps(2)[OF I(1) s]]) (rule again)
  with s show "afterM (case mw_sleep W n of
        TokenCancelled \<Rightarrow> deliver_aborted H cfg W i (n + 1)
      | TaskCancelled \<Rightarrow> pureM (Inl (Raised (ProducerFailed ''cancelled'')))
      | SleptThrough \<Rightarrow> thenM (emit_retry_event H cfg W (model_started i (n + 1))) (\<lambda>_. again)) s (\<lambda>r. I)"
    using deliver_keeps(2)[OF I(1) s] by (cases "mw_sleep W n") (simp_all only: sleep_end.case afterM_pure)
qed

lemma model_loop_keeps:
  assumes out: "ignores_output I"
    and ask: "\<And>n s. I s \<Longrightarrow> afterM (ask_breaker W (mp_circuit_breaker pol) n) s (\<lambda>r. I)"
    and one: "\<And>n s. I s \<Longrightarrow> afterM (one_attempt W n) s (\<lambda>r. I)"
    and tell: "\<And>n rej b s. I s \<Longrightarrow> afterM (tell_breaker W (mp_circuit_breaker pol) n rej b) s (\<lambda>r. I)"
  shows "I s \<Longrightarrow> afterM (model_loop H U cfg W pol i n) s (\<lambda>r. I)"
proof (induction "rl_max_retries pol - n" arbitrary: n s rule: less_induct)
  case less
  have IH: "afterM (model_loop H U cfg W pol i (n + 1)) s (\<lambda>r. I)" if "n < rl_max_retries pol" "I s" for s
    using less(1)[of "n + 1"] that by simp
  have decide: "afterM (after_answer H cfg W pol i n events final d (model_loop H U cfg W pol i (n + 1))) s (\<lambda>r. I)" if s: "I s" for events final d s
    unfolding after_answer_def
  proof (rule if_after, rule keeps_then)
    fix t and x :: "rat option"
    assume "rd_retryable d \<and> n < rl_max_retries pol" "I t"
    then have "afterM (wait_and_retry H cfg W pol i n d y (model_loop H U cfg W pol i (n + 1))) t (\<lambda>r. I)" for y
      using IH by (intro wait_keeps[OF out]) simp_all
    then show "afterM (case x of None \<Rightarrow> deliver_answer H cfg W i n events final d
        | Some delay \<Rightarrow> if mw_elapsed W n + delay \<le> rl_max_elapsed pol
            then wait_and_retry H cfg W pol i n d delay (model_loop H U cfg W pol i (n + 1)) else deliver_answer H cfg W i n events final d) t (\<lambda>r. I)"
      using deliver_keeps(1)[OF out \<open>I t\<close>] by (cases x) simp_all
  qed (use s deliver_keeps(1)[OF out s] in simp_all)
  have attempt: "afterM (if rej then pureM (Inr (circuit_answer W n)) else one_attempt W n) s (\<lambda>r. I)" if "I s" for rej s
    using one that by simp
  show ?case
    unfolding model_loop.simps[of H U cfg W pol i n]
    by (rule keeps_then[OF ask[OF less.prems]], rule keeps_then[OF attempt], assumption)
      (simp only: prod.case_eq_if, rule keeps_then, simp, rule keeps_then[OF tell], assumption, rule decide)
qed


section \<open>Physical calls are admitted\<close>

text \<open>
  What a run relies on from the other users of its scope: they keep its limits, never give back a call, and stay within the number of calls.
\<close>

definition calls_within :: "attempt_scope \<Rightarrow> bool" where
  "calls_within sc \<longleftrightarrow> as_attempt_count sc \<le> as_max_model_calls sc"

locale scope_users =
  fixes others :: "attempt_scope \<Rightarrow> attempt_scope"
  assumes limit_kept: "as_max_model_calls (others sc) = as_max_model_calls sc"
    and calls_grow: "as_attempt_count sc \<le> as_attempt_count (others sc)"
    and within_kept: "calls_within sc \<Longrightarrow> calls_within (others sc)"
begin

lemma composed: "scope_users g \<Longrightarrow> scope_users (\<lambda>sc. g (others sc))"
  using limit_kept calls_grow within_kept unfolding scope_users_def by (metis le_trans)

end

lemma begin_calls:
  "begin_attempt sc = (r, sc') \<Longrightarrow> calls_within sc \<Longrightarrow>
     as_max_model_calls sc' = as_max_model_calls sc \<and> calls_within sc' \<and> as_attempt_count sc' = as_attempt_count sc + (if isOk r then 1 else 0)"
  by (auto simp: begin_attempt_def next_identity_def calls_within_def Let_def split: if_splits)

lemma finish_calls: "finish_attempt i t c u sc = (r, sc') \<Longrightarrow> as_max_model_calls sc' = as_max_model_calls sc \<and> as_attempt_count sc' = as_attempt_count sc"
  by (erule finish_cases) simp_all

lemma scope_step_users: "scope_users (\<lambda>sc. fst (scope_step op sc))"
proof
  fix sc
  obtain sc' a where st: "scope_step op sc = (sc', a)" by fastforce
  have "as_max_model_calls sc' = as_max_model_calls sc \<and> as_attempt_count sc \<le> as_attempt_count sc' \<and> (calls_within sc \<longrightarrow> calls_within sc')"
    using st by (cases rule: scope_step_cases)
      (auto simp: close_scope_def calls_within_def dest!: begin_ok)
  with st show "as_max_model_calls (fst (scope_step op sc)) = as_max_model_calls sc"
    "as_attempt_count sc \<le> as_attempt_count (fst (scope_step op sc))" "calls_within sc \<Longrightarrow> calls_within (fst (scope_step op sc))" by simp_all
qed

interpretation alone: scope_users "\<lambda>sc. sc"
  by unfold_locales simp_all

lemma scope_run_users: "scope_users (\<lambda>sc. fst (scope_run ops sc))"
proof (induction ops)
  case Nil
  show ?case using alone.scope_users_axioms by simp
next
  case (Cons op ops)
  have "(\<lambda>sc. fst (scope_run (op # ops) sc)) = (\<lambda>sc. fst (scope_run ops (fst (scope_step op sc))))"
    by (auto split: prod.splits)
  then show ?case using scope_users.composed[OF scope_step_users Cons.IH] by simp
qed

interpretation among: scope_users "\<lambda>sc. fst (scope_run ops sc)" for ops
  by (rule scope_run_users)

definition admitted_calls :: "nat \<Rightarrow> nat \<Rightarrow> model_run \<Rightarrow> bool" where
  "admitted_calls limit c s \<longleftrightarrow> (\<exists>sc. rs_scope s = Some sc \<and> as_max_model_calls sc = limit \<and> calls_within sc \<and> c + length (rs_calls s) \<le> as_attempt_count sc)"

lemma admitted_others:
  assumes "scope_users f" "admitted_calls limit c s"
  shows "admitted_calls limit c (s\<lparr>rs_breaker := b, rs_scope := map_option f (rs_scope s)\<rparr>)"
  using assms(2) scope_users.limit_kept[OF assms(1)] scope_users.calls_grow[OF assms(1)] scope_users.within_kept[OF assms(1)]
  by (auto simp: admitted_calls_def intro: le_trans)

lemma settle_calls: "settle_usage W i final sc = (r, sc') \<Longrightarrow> as_max_model_calls sc' = as_max_model_calls sc \<and> as_attempt_count sc' = as_attempt_count sc"
  by (auto simp: settle_usage_def split: sum.splits prod.splits if_splits dest: finish_calls)

lemma scoped_calls:
  assumes "scoped_attempt W n i sc = (r, sc')"
  shows "as_max_model_calls sc' = as_max_model_calls sc \<and> as_attempt_count sc' = as_attempt_count sc"
proof -
  have ab: "as_max_model_calls (abandon_attempt i t) = as_max_model_calls t \<and> as_attempt_count (abandon_attempt i t) = as_attempt_count t" for t
    using finish_calls[of i "JInt 0" "JFloat (FFin 0)" True t] unfolding abandon_attempt_def by (metis prod.collapse)
  show ?thesis
  proof (cases "provider_stream W n")
    case (Inl e)
    with assms ab show ?thesis by (auto simp: scoped_attempt_def)
  next
    case (Inr a)
    obtain q t where st: "settle_usage W i (snd a) sc = (q, t)" by fastforce
    then have "sc' = t \<or> sc' = abandon_attempt i t" using assms Inr by (auto simp: scoped_attempt_def split: sum.splits bool.splits)
    then show ?thesis using settle_calls[OF st] ab by auto
  qed
qed

lemma one_attempt_admitted:
  assumes "scope_users (mw_scope_during W n)" "admitted_calls limit c s"
  shows "afterM (one_attempt W n) s (\<lambda>r. admitted_calls limit c)"
proof -
  from assms(2) obtain sc where sc: "rs_scope s = Some sc" "as_max_model_calls sc = limit" "calls_within sc" "c + length (rs_calls s) \<le> as_attempt_count sc"
    by (auto simp: admitted_calls_def)
  obtain x sc1 where b: "begin_attempt sc = (x, sc1)" by fastforce
  note beg = begin_calls[OF b sc(3)]
  show ?thesis
  proof (cases x)
    case (Inl e)
    with b sc assms(2) show ?thesis by (simp add: afterM_def one_attempt_def)
  next
    case (Inr i)
    let ?t = "mw_scope_during W n sc1"
    obtain r sc2 where sa: "scoped_attempt W n i ?t = (r, sc2)" by fastforce
    have "calls_within ?t" "as_max_model_calls ?t = limit" "as_attempt_count sc1 \<le> as_attempt_count ?t"
      using scope_users.limit_kept[OF assms(1), of sc1] scope_users.calls_grow[OF assms(1), of sc1] scope_users.within_kept[OF assms(1), of sc1] beg sc(2)
      by simp_all
    with scoped_calls[OF sa] have "calls_within sc2" "as_max_model_calls sc2 = limit" "as_attempt_count sc1 \<le> as_attempt_count sc2"
      by (simp_all add: calls_within_def)
    moreover have "as_attempt_count sc1 = Suc (as_attempt_count sc)" using beg Inr by simp
    ultimately show ?thesis using b sc Inr sa
      by (auto simp: afterM_def one_attempt_def admitted_calls_def provider_awaited_def reads_def)
  qed
qed


section \<open>Guarantees\<close>

lemma model_policy_ok:
  assumes "model_retry_policy_init enabled retries a b j statuses e breaker = Inr pol"
  shows "limits_ok pol \<and> mp_circuit_breaker pol = breaker"
proof -
  from assms obtain n l where l: "delay_limits (nat n) a b j e = (Inr l :: ('a, retry_limits) result)"
    "pol = retry_limits.extend l (model_retry_policy.fields enabled (map (the \<circ> http_status) statuses) breaker)"
    by (auto simp: model_retry_policy_init_def exc_simps split: option.splits if_splits)
  from delay_limits_ok[OF l(1)] show ?thesis unfolding l(2)
    by (auto simp: limits_ok_def retry_limits.defs model_retry_policy.defs)
qed

lemma run_model_state:
  assumes "run_model H U cfg W pol i s0 = (r, s)"
  obtains q t where "model_loop H U cfg W pol i 0 s0 = (q, t)"
    "s = (case q of Inr _ \<Rightarrow> t | Inl e \<Rightarrow> t\<lparr>rs_ops := rs_ops t @ [FailWith e]\<rparr>)"
    "r = (case q of Inr _ \<Rightarrow> Inr () | Inl e \<Rightarrow> fst (fail_stream cfg e (output_of H cfg t)))"
  using assms by (auto simp: run_model_def split: prod.splits sum.splits)

lemma run_model_keeps:
  assumes "run_model H U cfg W pol i s0 = (r, s)" "afterM (model_loop H U cfg W pol i 0) s0 (\<lambda>r. I)" "ignores_output I"
  shows "I s"
proof -
  from assms(1) obtain q t where "model_loop H U cfg W pol i 0 s0 = (q, t)" "s = (case q of Inr _ \<Rightarrow> t | Inl e \<Rightarrow> t\<lparr>rs_ops := rs_ops t @ [FailWith e]\<rparr>)"
    by (rule run_model_state)
  with assms(2,3) show ?thesis by (auto simp: afterM_def ignores_output_def split: sum.splits)
qed

text \<open>
  C19: a failed attempt leaves no trace in the answer. The provider is called at most \<open>max_retries + 1\<close> times, one call after the other; every call
  but the last was answered with an error that is classified as retryable. The consumer gets retry events and then events of the
  last attempt only, never any of an attempt that was retried; and every wait is bounded and ends within the time allowed.
\<close>

theorem failed_attempts_hidden:
  assumes "model_retry_policy_init enabled retries a b j statuses e breaker = (Inr pol :: (unit, model_retry_policy) result)"
    and "run_model H U cfg W pol retry_id (start_state cb sc) = (r, s)"
  shows "\<exists>m \<le> rl_max_retries pol. (rs_calls s = [0..<m] \<or> rs_calls s = [0..<Suc m]) \<and> (\<forall>k < m. retried H U W pol k) \<and>
    (\<exists>retries shown. pushes (rs_ops s) = retries @ shown \<and> list_all (retry_event retry_id) retries \<and> shown_by W m shown) \<and>
    length (rs_waits s) \<le> rl_max_retries pol \<and> (\<forall>i < length (rs_waits s). waited_ok W pol i (rs_waits s ! i))"
proof -
  have lim: "limits_ok pol" using model_policy_ok[OF assms(1)] by simp
  from assms(2) obtain q t where l: "model_loop H U cfg W pol retry_id 0 (start_state cb sc) = (q, t)"
    "s = (case q of Inr _ \<Rightarrow> t | Inl e \<Rightarrow> t\<lparr>rs_ops := rs_ops t @ [FailWith e]\<rparr>)" by (rule run_model_state)
  have st: "pushes (rs_ops s) = pushes (rs_ops t)" "rs_calls s = rs_calls t" "rs_waits s = rs_waits t" using l(2) by (auto split: sum.splits)
  have "run_spec H U W pol retry_id 0 (start_state cb sc) t" using model_loop_spec[OF lim, of H U cfg W retry_id 0 "start_state cb sc"] l(1)
    by (simp add: afterM_def)
  then obtain m cs ws rts shown where m: "adds (start_state cb sc) t (rts @ shown) cs ws" "cs = [0..<m] \<or> cs = [0..<Suc m]"
    "\<forall>k. 0 \<le> k \<longrightarrow> k < m \<longrightarrow> retried H U W pol k" "list_all (retry_event retry_id) rts" "shown_by W m shown"
    "length ws \<le> rl_max_retries pol - 0" "\<forall>i < length ws. waited_ok W pol (0 + i) (ws ! i)" unfolding run_spec_def by blast
  have "m \<le> rl_max_retries pol" using m(3)[rule_format, of "m - 1"] by (cases m) (auto simp: retried_def)
  with m st show ?thesis by (intro exI[of _ m]) (auto simp: adds_def start_state_def)
qed

theorem failed_attempts_hidden_witness:
  "retried stream_host demo_unicode demo_world demo_policy 0 \<and> (\<exists>m \<le> 2. (rs_calls (snd demo_run) = [0..<m] \<or> rs_calls (snd demo_run) = [0..<Suc m]) \<and>
     (\<exists>rts shown. pushes (rs_ops (snd demo_run)) = rts @ shown \<and> list_all (retry_event ''r'') rts \<and> shown_by demo_world m shown))"
proof -
  obtain r s where run: "run_model stream_host demo_unicode demo_stream demo_world demo_policy ''r'' (start_state new_breaker None) = (r, s)" by fastforce
  have "rl_max_retries demo_policy = 2" by (simp add: demo_policy_def)
  with failed_attempts_hidden[OF demo_policy_init run] run demo_timeout show ?thesis
    by (auto simp: demo_run_def retried_def demo_world_def)
qed

lemma output_settles:
  assumes "stream_init sz bytes policy (\<lambda>n b p. assistant_config n b p bp qc) = Inr (cfg, st)"
    and "run_model H U cfg W pol retry_id (start_state cb sc) = (r, s)"
  shows "r = Inr () \<and> es_done (output_of H cfg s) \<and> es_result (output_of H cfg s) \<noteq> None \<and>
    sr_finished (run_stream H cfg (rs_ops s @ replicate (sc_max_buffer_size cfg + 1) Next))"
proof -
  have pk: "package_stream cfg" using stream_init_package(1)[OF assms(1)] by simp
  have c: "bounded_stream cfg" using package_text_stream[OF pk] by (rule text_stream.axioms)
  obtain n b p where cfg: "cfg = assistant_config n b p bp qc" using assms(1) by (auto simp: stream_init_def split: option.splits if_splits)
  from assms(2) obtain q t where l: "model_loop H U cfg W pol retry_id 0 (start_state cb sc) = (q, t)"
    "s = (case q of Inr _ \<Rightarrow> t | Inl e \<Rightarrow> t\<lparr>rs_ops := rs_ops t @ [FailWith e]\<rparr>)"
    "r = (case q of Inr _ \<Rightarrow> Inr () | Inl e \<Rightarrow> fst (fail_stream cfg e (output_of H cfg t)))" by (rule run_model_state)
  from bounded_stream.run_stream_at[OF c] obtain qt where "run_at H cfg qt (run_stream H cfg (rs_ops t))" by blast
  then have at: "stream_at H cfg qt (output_of H cfg t)" by (simp add: run_at_def output_of_def)
  have d: "r = Inr () \<and> es_done (output_of H cfg s)"
  proof (cases q)
    case (Inr u)
    with model_loop_ends[OF cfg, of H U W pol retry_id 0 "start_state cb sc"] l show ?thesis by (simp add: afterM_def ends_output_def)
  next
    case (Inl e)
    have "output_of H cfg s = snd (fail_stream cfg e (output_of H cfg t))" using l(2) Inl by (simp add: output_of_def run_stream_snoc stream_step_def)
    with fail_stream_stream[OF at, of e] l(3) Inl show ?thesis by auto
  qed
  from bounded_stream.run_stream_at[OF c] obtain qs where ra: "run_at H cfg qs (run_stream H cfg (rs_ops s))" by blast
  then have at: "stream_at H cfg qs (output_of H cfg s)" by (simp add: run_at_def output_of_def)
  have "sr_finished (run_stream H cfg (rs_ops s @ replicate (sc_max_buffer_size cfg + 1) Next))"
    using bounded_stream.done_drains[OF c ra, of "sc_max_buffer_size cfg + 1"] bounded_stream.queue_capacity[OF c at] d
    by (simp add: run_stream_def output_of_def)
  with d at show ?thesis by (simp add: stream_at_def)
qed

text \<open>
  C20: whatever the provider, the sinks, the breaker and the budget do, a run of the retry never leaves its consumer waiting: it
  returns, the output stream is done with a result, and a reader that goes on leaves its loop.
\<close>

theorem model_output_settles:
  assumes "stream_init sz bytes policy (\<lambda>n b p. assistant_config n b p bp qc) = Inr (cfg, st)"
    and "run_model H U cfg W pol retry_id (start_state cb sc) = (r, s)"
  shows "r = Inr () \<and> es_done (output_of H cfg s) \<and> es_result (output_of H cfg s) \<noteq> None \<and>
    sr_finished (run_stream H cfg (rs_ops s @ replicate (sc_max_buffer_size cfg + 1) Next))"
  by (rule output_settles[OF assms])

theorem model_output_settles_witness: "fst demo_run = Inr () \<and> es_done (output_of stream_host demo_stream (snd demo_run))"
  using model_output_settles[OF demo_stream_init prod.collapse[symmetric], of stream_host demo_unicode demo_world demo_policy "''r''" new_breaker None]
  by (simp add: demo_run_def)




section \<open>A lost probe\<close>

definition probing :: "circuit_breaker \<Rightarrow> bool" where
  "probing b \<longleftrightarrow> cb_state b = CircuitHalfOpen \<and> cb_in_flight b"

lemma probing_refuses: "bp_enabled p \<Longrightarrow> probing b \<Longrightarrow> before_call p now b = (Inl (Raised CircuitProbing), b)"
  by (simp add: before_call_def probing_def)

lemma probe_raises:
  assumes "bp_enabled (mp_circuit_breaker pol)" "cb_state cb = CircuitIsOpen"
    "bp_recovery_timeout (mp_circuit_breaker pol) \<le> mw_call_clock W 0 - cb_opened_at cb"
    "\<And>n. mw_breaker_between W n = id" "\<And>n. mw_breaker_during W n = id" "mw_audit W 0 = None" "mw_stream W 0 = ProviderRaises x"
    "run_model H U cfg W pol i (start_state cb None) = (r, s)"
  shows "probing (rs_breaker s) \<and> rs_calls s = [0]"
proof -
  define b where "b = cb\<lparr>cb_state := CircuitHalfOpen, cb_in_flight := True\<rparr>"
  have "before_call (mp_circuit_breaker pol) (mw_call_clock W 0) cb = (Inr (), b)" using assms(1-3) by (simp add: before_call_def b_def)
  then have ask: "ask_breaker W (mp_circuit_breaker pol) 0 (start_state cb None) = (Inr False, start_state b None)"
    using assms(4) by (simp add: ask_breaker_def start_state_def)
  obtain t where t: "one_attempt W 0 (start_state b None) = (Inl (Raised (ProducerFailed x)), t)" "rs_breaker t = b" "rs_calls t = [0]"
    using assms(5-7) by (simp add: one_attempt_def provider_stream_def start_state_def provider_awaited_def reads_def)
  have "model_loop H U cfg W pol i 0 (start_state cb None) = (Inl (Raised (ProducerFailed x)), t)"
    by (subst model_loop.simps) (simp add: thenM_def ask t(1))
  with assms(8) t(2,3) show ?thesis by (auto simp: run_model_def probing_def b_def)
qed

lemma probing_blocks:
  assumes "bp_enabled (mp_circuit_breaker pol)" "probing b" "\<And>n. mw_breaker_between W n = id" "run_model H U cfg W pol i (start_state b sc) = (r, s)"
  shows "rs_breaker s = b \<and> rs_calls s = []"
proof -
  let ?I = "\<lambda>s. rs_breaker s = b \<and> rs_calls s = []"
  have out: "ignores_output ?I" by (simp add: ignores_output_def)
  obtain t where ask: "ask_breaker W (mp_circuit_breaker pol) 0 (start_state b sc) = (Inr True, t)" and t: "?I t"
    using assms(3) probing_refuses[OF assms(1,2)] by (simp add: ask_breaker_def start_state_def isOk_def)
  obtain events final where a: "circuit_answer W 0 = (events, final)" by fastforce
  from refused_decision[of events final H U pol] obtain d where d: "classify_model_error H U final pol = (Inr d :: (stream_fault, model_retry_decision) result)"
    "\<not> rd_retryable d" using circuit_refused[of W 0] a by metis
  have "model_loop H U cfg W pol i 0 (start_state b sc) = deliver_answer H cfg W i 0 events final d t"
    by (subst model_loop.simps) (simp add: thenM_def pureM_def ask a d tell_breaker_def after_answer_def)
  then have "afterM (model_loop H U cfg W pol i 0) (start_state b sc) (\<lambda>r. ?I)"
    using deliver_keeps(1)[OF out t, of H cfg W i 0 events final d] by (simp add: afterM_def)
  from run_model_keeps[OF assms(4) this out] show ?thesis by simp
qed

text \<open>
  C40: a probe that raises is lost for ever. When the circuit is open and its timeout has passed, the next request is the probe; if the
  provider raises instead of answering, nothing is recorded, the circuit stays half open with a probe in flight, and no later request, at
  whatever time, reaches the provider.
\<close>

theorem lost_probe_blocks:
  assumes "bp_enabled (mp_circuit_breaker pol)" and "cb_state cb = CircuitIsOpen"
    and "bp_recovery_timeout (mp_circuit_breaker pol) \<le> mw_call_clock W 0 - cb_opened_at cb"
    and "\<And>n. mw_breaker_between W n = id" and "\<And>n. mw_breaker_during W n = id"
    and "mw_audit W 0 = None" and "mw_stream W 0 = ProviderRaises x"
    and "run_model H U cfg W pol retry_id (start_state cb None) = (r, s)"
    and "\<And>n. mw_breaker_between W' n = id" and "run_model H U cfg W' pol retry_id' (start_state (rs_breaker s) sc) = (r', s')"
  shows "rs_calls s = [0] \<and> rs_calls s' = [] \<and> rs_breaker s' = rs_breaker s"
  using probe_raises[OF assms(1-8)] probing_blocks[OF assms(1) _ assms(9,10)] by blast

text \<open>A circuit that has been open for a minute, and a provider that raises.\<close>

definition open_circuit :: circuit_breaker where
  "open_circuit = \<lparr>cb_state = CircuitIsOpen, cb_failures = 3, cb_opened_at = 0, cb_in_flight = False\<rparr>"

definition raising_world :: model_world where
  "raising_world = demo_world\<lparr>mw_stream := (\<lambda>_. ProviderRaises ''boom''), mw_call_clock := (\<lambda>_. 60)\<rparr>"

theorem lost_probe_blocks_witness:
  "\<exists>s s'. run_model stream_host demo_unicode demo_stream raising_world demo_policy ''r'' (start_state open_circuit None) = (Inr (), s) \<and>
     run_model stream_host demo_unicode demo_stream demo_world demo_policy ''q'' (start_state (rs_breaker s) None) = (Inr (), s') \<and>
     rs_calls s = [0] \<and> rs_calls s' = []"
proof -
  obtain s s' r r' where run: "run_model stream_host demo_unicode demo_stream raising_world demo_policy ''r'' (start_state open_circuit None) = (r, s)"
    "run_model stream_host demo_unicode demo_stream demo_world demo_policy ''q'' (start_state (rs_breaker s) None) = (r', s')" by fastforce
  have "bp_enabled (mp_circuit_breaker demo_policy)" "cb_state open_circuit = CircuitIsOpen"
    "bp_recovery_timeout (mp_circuit_breaker demo_policy) \<le> mw_call_clock raising_world 0 - cb_opened_at open_circuit"
    "mw_breaker_between raising_world n = id" "mw_breaker_during raising_world n = id" "mw_audit raising_world 0 = None"
    "mw_stream raising_world 0 = ProviderRaises ''boom''" "mw_breaker_between demo_world n = id" for n
    by (simp_all add: demo_policy_def demo_breaker_policy_def open_circuit_def raising_world_def demo_world_def)
  from lost_probe_blocks[OF this(1-7) run(1) this(8) run(2)] have "rs_calls s = [0] \<and> rs_calls s' = []" by simp
  moreover have "r = Inr ()" "r' = Inr ()" using output_settles[OF demo_stream_init run(1)] output_settles[OF demo_stream_init run(2)] by simp_all
  ultimately show ?thesis using run by blast
qed

end
